(* ===== verification/Prelude.thy ===== *)
theory Prelude
  imports Main "HOL-Library.Word" "HOL-Library.AList"
begin

text \<open>
  Shared vocabulary of the development.

  \<^item> Rust's \<^verbatim>\<open>Result\<close> is a sum, \<open>Inl\<close> for the error. \<open>r_bind\<close> is the \<^verbatim>\<open>?\<close>
    operator, \<open>r_fold\<close> a \<^verbatim>\<open>for\<close> loop whose body may return early with an error,
    \<open>r_each\<close> such a loop without state and \<open>r_map\<close> a \<^verbatim>\<open>collect::<Result<Vec<_>>>()\<close>.
  \<^item> Rust's \<^verbatim>\<open>HashMap\<close> is an association list with one entry per key; the list order is
    the (arbitrary) iteration order. The laws the clients use are the locale \<open>keyed_store\<close>.
  \<^item> Machine integers are words of their width; \<^verbatim>\<open>f64\<close> values are only carried, never
    computed with, so they are their 64 bits.
\<close>

named_theorems result_simps \<open>inversion rules for computations that may fail\<close>
named_theorems wf_intros \<open>introduction rules for well-formedness invariants\<close>

type_synonym u32 = "32 word"
type_synonym i32 = "32 word"
type_synonym u64 = "64 word"
type_synonym i64 = "64 word"
type_synonym f64 = "64 word"

section \<open>Computations that may fail\<close>

fun r_bind :: "'e + 'a \<Rightarrow> ('a \<Rightarrow> 'e + 'b) \<Rightarrow> 'e + 'b" where
  "r_bind (Inl e) f = Inl e"
| "r_bind (Inr x) f = f x"

definition ok_or :: "'a option \<Rightarrow> 'e \<Rightarrow> 'e + 'a" where
  "ok_or opt e = (case opt of None \<Rightarrow> Inl e | Some x \<Rightarrow> Inr x)"

definition guard :: "bool \<Rightarrow> 'e \<Rightarrow> 'e + unit" where
  "guard b e = (if b then Inr () else Inl e)"

primrec r_fold :: "('x \<Rightarrow> 's \<Rightarrow> 'e + 's) \<Rightarrow> 'x list \<Rightarrow> 's \<Rightarrow> 'e + 's" where
  "r_fold f [] s = Inr s"
| "r_fold f (x # xs) s = r_bind (f x s) (r_fold f xs)"

primrec r_each :: "('x \<Rightarrow> 'e + unit) \<Rightarrow> 'x list \<Rightarrow> 'e + unit" where
  "r_each f [] = Inr ()"
| "r_each f (x # xs) = r_bind (f x) (\<lambda>_. r_each f xs)"

primrec r_map :: "('x \<Rightarrow> 'e + 'y) \<Rightarrow> 'x list \<Rightarrow> 'e + 'y list" where
  "r_map f [] = Inr []"
| "r_map f (x # xs) = r_bind (f x) (\<lambda>y. r_bind (r_map f xs) (\<lambda>ys. Inr (y # ys)))"

text \<open>A \<^verbatim>\<open>for\<close> loop that also produces a value for each element.\<close>

primrec r_thread :: "('x \<Rightarrow> 's \<Rightarrow> 'e + 'y \<times> 's) \<Rightarrow> 'x list \<Rightarrow> 's \<Rightarrow> 'e + 'y list \<times> 's" where
  "r_thread f [] s = Inr ([], s)"
| "r_thread f (x # xs) s =
     r_bind (f x s) (\<lambda>(y, s1). r_bind (r_thread f xs s1) (\<lambda>(ys, s2). Inr (y # ys, s2)))"

abbreviation is_ok :: "'e + 'a \<Rightarrow> bool" where
  "is_ok r \<equiv> \<not> isl r"

lemma r_bind_cong [fundef_cong]:
  assumes "m = m'" and "\<And>x. m' = Inr x \<Longrightarrow> f x = g x"
  shows "r_bind m f = r_bind m' g"
  using assms by (cases m') auto

lemma r_fold_cong [fundef_cong]:
  assumes "xs = ys" and "s = t" and "\<And>x s. x \<in> set ys \<Longrightarrow> f x s = g x s"
  shows "r_fold f xs s = r_fold g ys t"
  unfolding assms(1,2) using assms(3)
proof (induction ys arbitrary: t)
  case Nil
  then show ?case by simp
next
  case (Cons y ys)
  then have "f y t = g y t" and "r_fold f ys = r_fold g ys"
    by auto
  then show ?case by simp
qed

lemma r_each_cong [fundef_cong]:
  assumes "xs = ys" and "\<And>x. x \<in> set ys \<Longrightarrow> f x = g x"
  shows "r_each f xs = r_each g ys"
  unfolding assms(1) using assms(2) by (induction ys) auto

lemma r_map_cong [fundef_cong]:
  assumes "xs = ys" and "\<And>x. x \<in> set ys \<Longrightarrow> f x = g x"
  shows "r_map f xs = r_map g ys"
  unfolding assms(1) using assms(2) by (induction ys) auto

lemma r_bind_Inr_iff [simp, result_simps]:
  "r_bind m f = Inr y \<longleftrightarrow> (\<exists>x. m = Inr x \<and> f x = Inr y)"
  by (cases m) auto

lemma r_bind_Inl_iff [result_simps]:
  "r_bind m f = Inl e \<longleftrightarrow> m = Inl e \<or> (\<exists>x. m = Inr x \<and> f x = Inl e)"
  by (cases m) auto

lemma ok_or_Inr_iff [simp, result_simps]: "ok_or opt e = Inr x \<longleftrightarrow> opt = Some x"
  by (simp add: ok_or_def split: option.splits)

lemma ok_or_Inl_iff [simp, result_simps]: "ok_or opt e = Inl e' \<longleftrightarrow> opt = None \<and> e' = e"
  by (auto simp: ok_or_def split: option.splits)

lemma ok_or_Some [simp]: "ok_or (Some x) e = Inr x"
  by (simp add: ok_or_def)

lemma guard_Inr_iff [simp, result_simps]: "guard b e = Inr u \<longleftrightarrow> b"
  by (simp add: guard_def)

lemma guard_Inl_iff [simp, result_simps]: "guard b e = Inl e' \<longleftrightarrow> \<not> b \<and> e' = e"
  by (auto simp: guard_def)

lemma guard_True [simp]: "guard True e = Inr ()"
  by (simp add: guard_def)

lemma is_ok_iff: "is_ok r \<longleftrightarrow> (\<exists>x. r = Inr x)"
  by (cases r) auto

lemma r_each_Inr_iff [simp, result_simps]:
  "r_each f xs = Inr u \<longleftrightarrow> (\<forall>x \<in> set xs. f x = Inr ())"
  by (induction xs) auto

lemma r_each_Inl_in: "r_each f xs = Inl e \<Longrightarrow> \<exists>x \<in> set xs. f x = Inl e"
  by (induction xs) (auto simp: r_bind_Inl_iff)

lemma r_map_Inr_iff [result_simps]:
  "r_map f xs = Inr ys \<longleftrightarrow> list_all2 (\<lambda>x y. f x = Inr y) xs ys"
  by (induction xs arbitrary: ys) (auto simp: list_all2_Cons1)

lemma r_map_is_ok: "(\<And>x. x \<in> set xs \<Longrightarrow> is_ok (f x)) \<Longrightarrow> is_ok (r_map f xs)"
  by (induction xs) (auto simp: is_ok_iff)

lemma r_map_Inr_length: "r_map f xs = Inr ys \<Longrightarrow> length ys = length xs"
  by (simp add: r_map_Inr_iff list_all2_lengthD)

lemma r_map_nth:
  "r_map f xs = Inr ys \<Longrightarrow> x \<in> set xs \<Longrightarrow> \<exists>y \<in> set ys. f x = Inr y"
  by (induction xs arbitrary: ys) auto

lemma r_map_in:
  "r_map f xs = Inr ys \<Longrightarrow> y \<in> set ys \<Longrightarrow> \<exists>x \<in> set xs. f x = Inr y"
  by (induction xs arbitrary: ys) auto

lemma r_map_map_eq:
  "r_map f xs = Inr ys \<Longrightarrow> (\<And>x y. x \<in> set xs \<Longrightarrow> f x = Inr y \<Longrightarrow> g y = h x) \<Longrightarrow>
     map g ys = map h xs"
  by (induction xs arbitrary: ys) auto

lemma r_thread_length: "r_thread f xs s = Inr (ys, t) \<Longrightarrow> length ys = length xs"
  by (induction xs arbitrary: ys s) auto

lemma r_thread_map_eq:
  "r_thread f xs s = Inr (ys, t) \<Longrightarrow>
     (\<And>x s1 y s2. x \<in> set xs \<Longrightarrow> f x s1 = Inr (y, s2) \<Longrightarrow> g y = h x) \<Longrightarrow> map g ys = map h xs"
  by (induction xs arbitrary: ys s) auto

lemma r_fold_append:
  "r_fold f (xs @ ys) s = r_bind (r_fold f xs s) (r_fold f ys)"
  by (induction xs arbitrary: s) (auto, case_tac "f a s", auto)

lemma r_fold_in:
  "r_fold f xs s = Inr t \<Longrightarrow> x \<in> set xs \<Longrightarrow> \<exists>s1 s2. f x s1 = Inr s2"
  by (induction xs arbitrary: s) auto

lemma r_fold_ok:
  "(\<And>x s. x \<in> set xs \<Longrightarrow> is_ok (f x s)) \<Longrightarrow> \<exists>t. r_fold f xs s = Inr t"
proof (induction xs arbitrary: s)
  case (Cons x xs)
  then obtain s1 where "f x s = Inr s1" by (metis is_ok_iff list.set_intros(1))
  with Cons.IH [of s1] Cons.prems show ?case by auto
qed simp

text \<open>
  The contract of a loop whose body threads a state and may fail: an invariant \<open>inv\<close> and a
  preorder \<open>le\<close> (what is never lost) that one step keeps are kept by the whole loop.
\<close>

locale checked_loop =
  fixes step :: "'x \<Rightarrow> 's \<Rightarrow> 'e + 's"
    and inv :: "'s \<Rightarrow> bool"
    and le :: "'s \<Rightarrow> 's \<Rightarrow> bool"
  assumes le_refl: "le s s"
    and le_trans: "le s t \<Longrightarrow> le t u \<Longrightarrow> le s u"
    and step_inv: "inv s \<Longrightarrow> step x s = Inr t \<Longrightarrow> inv t"
    and step_le: "inv s \<Longrightarrow> step x s = Inr t \<Longrightarrow> le s t"
begin

lemma loop_inv: "r_fold step xs s = Inr t \<Longrightarrow> inv s \<Longrightarrow> inv t"
  by (induction xs arbitrary: s) (auto dest: step_inv)

lemma loop_le: "r_fold step xs s = Inr t \<Longrightarrow> inv s \<Longrightarrow> le s t"
proof (induction xs arbitrary: s)
  case Nil
  then show ?case by (simp add: le_refl)
next
  case (Cons x xs)
  then obtain s' where s': "step x s = Inr s'" and rest: "r_fold step xs s' = Inr t"
    by auto
  from s' Cons.prems(2) have "le s s'" and "inv s'" by (auto dest: step_le step_inv)
  with Cons.IH [OF rest] show ?case by (blast intro: le_trans)
qed

text \<open>Every element of the loop was stepped successfully from a state between the ends.\<close>

lemma loop_step:
  assumes "r_fold step xs s = Inr t" and "inv s" and "x \<in> set xs"
  shows "\<exists>s1 s2. inv s1 \<and> step x s1 = Inr s2 \<and> le s s1 \<and> le s2 t"
  using assms
proof (induction xs arbitrary: s)
  case Nil
  then show ?case by simp
next
  case (Cons y ys)
  then obtain s' where s': "step y s = Inr s'" and rest: "r_fold step ys s' = Inr t"
    by auto
  from s' Cons.prems(2) have le: "le s s'" and inv: "inv s'" by (auto dest: step_le step_inv)
  show ?case
  proof (cases "x = y")
    case True
    with s' rest inv Cons.prems(2) show ?thesis by (blast intro: le_refl loop_le)
  next
    case False
    with Cons.IH [OF rest inv] Cons.prems(3) le show ?thesis by (auto intro: le_trans)
  qed
qed

end

section \<open>Hash maps\<close>

type_synonym ('k, 'v) hmap = "('k \<times> 'v) list"

definition hm_empty :: "('k, 'v) hmap" where
  "hm_empty = []"

definition hm_get :: "('k, 'v) hmap \<Rightarrow> 'k \<Rightarrow> 'v option" where
  "hm_get m k = map_of m k"

definition hm_insert :: "'k \<Rightarrow> 'v \<Rightarrow> ('k, 'v) hmap \<Rightarrow> ('k, 'v) hmap" where
  "hm_insert k v m = AList.update k v m"

definition hm_remove :: "'k \<Rightarrow> ('k, 'v) hmap \<Rightarrow> ('k, 'v) hmap" where
  "hm_remove k m = AList.delete k m"

definition hm_keys :: "('k, 'v) hmap \<Rightarrow> 'k list" where
  "hm_keys m = map fst m"

definition hm_contains :: "('k, 'v) hmap \<Rightarrow> 'k \<Rightarrow> bool" where
  "hm_contains m k = (hm_get m k \<noteq> None)"

text \<open>\<^verbatim>\<open>entry(k).or_insert(v)\<close>: keep a value that is already there.\<close>

definition hm_or_insert :: "'k \<Rightarrow> 'v \<Rightarrow> ('k, 'v) hmap \<Rightarrow> ('k, 'v) hmap" where
  "hm_or_insert k v m = (if hm_contains m k then m else hm_insert k v m)"

definition hm_wf :: "('k, 'v) hmap \<Rightarrow> bool" where
  "hm_wf m \<longleftrightarrow> distinct (hm_keys m)"

text \<open>
  What the components rely on: reading back an insertion or a removal, the keys an iteration
  visits, and that every operation keeps one entry per key.
\<close>

locale keyed_store =
  fixes empty :: "'m"
    and get :: "'m \<Rightarrow> 'k \<Rightarrow> 'v option"
    and insert :: "'k \<Rightarrow> 'v \<Rightarrow> 'm \<Rightarrow> 'm"
    and remove :: "'k \<Rightarrow> 'm \<Rightarrow> 'm"
    and keys :: "'m \<Rightarrow> 'k list"
    and invar :: "'m \<Rightarrow> bool"
  assumes get_empty: "get empty k = None"
    and get_insert: "invar m \<Longrightarrow> get (insert k v m) k' = (if k' = k then Some v else get m k')"
    and get_remove: "invar m \<Longrightarrow> get (remove k m) k' = (if k' = k then None else get m k')"
    and keys_get: "k \<in> set (keys m) \<longleftrightarrow> get m k \<noteq> None"
    and invar_empty: "invar empty"
    and invar_insert: "invar m \<Longrightarrow> invar (insert k v m)"
    and invar_remove: "invar m \<Longrightarrow> invar (remove k m)"
begin

lemma get_insert_same: "invar m \<Longrightarrow> get (insert k v m) k = Some v"
  by (simp add: get_insert)

lemma get_insert_other: "invar m \<Longrightarrow> k' \<noteq> k \<Longrightarrow> get (insert k v m) k' = get m k'"
  by (simp add: get_insert)

text \<open>Inserting a sequence of entries: the last entry of a key wins.\<close>

lemma get_fold_insert:
  "invar m \<Longrightarrow> get (fold (\<lambda>(k, v). insert k v) kvs m) k =
     (case map_of (rev kvs) k of None \<Rightarrow> get m k | Some v \<Rightarrow> Some v)"
proof (induction kvs arbitrary: m)
  case Nil
  then show ?case by simp
next
  case (Cons kv kvs)
  then show ?case
    by (cases kv) (auto simp: get_insert invar_insert map_add_Some_iff map_add_def split: option.splits)
qed

lemma invar_fold_insert: "invar m \<Longrightarrow> invar (fold (\<lambda>(k, v). insert k v) kvs m)"
  by (induction kvs arbitrary: m) (auto simp: invar_insert)

text \<open>A predicate on values that holds of everything inserted holds of everything found.\<close>

lemma get_fold_insert_all:
  assumes "invar m" and "\<And>k v. (k, v) \<in> set kvs \<Longrightarrow> P k v" and "\<And>k v. get m k = Some v \<Longrightarrow> P k v"
    and "get (fold (\<lambda>(k, v). insert k v) kvs m) k = Some v"
  shows "P k v"
  using assms by (auto simp: get_fold_insert split: option.splits dest: map_of_SomeD)

end

lemma hm_get_insert [simp]:
  "hm_get (hm_insert k v m) k' = (if k' = k then Some v else hm_get m k')"
  by (simp add: hm_get_def hm_insert_def update_conv')

lemma hm_get_empty [simp]: "hm_get hm_empty k = None"
  by (simp add: hm_get_def hm_empty_def)

lemma hm_get_Nil [simp]: "hm_get [] k = None"
  by (simp add: hm_get_def)

lemma hm_get_remove [simp]:
  "hm_get (hm_remove k m) k' = (if k' = k then None else hm_get m k')"
  by (simp add: hm_get_def hm_remove_def delete_conv')

lemma hm_keys_get: "k \<in> set (hm_keys m) \<longleftrightarrow> hm_get m k \<noteq> None"
  by (auto simp: hm_keys_def hm_get_def map_of_eq_None_iff image_iff)

lemma hm_contains_iff: "hm_contains m k \<longleftrightarrow> (\<exists>v. hm_get m k = Some v)"
  by (auto simp: hm_contains_def)

lemma hm_get_or_insert [simp]:
  "hm_get (hm_or_insert k v m) k' =
     (if k' = k \<and> hm_get m k = None then Some v else hm_get m k')"
  by (auto simp: hm_or_insert_def hm_contains_def)

lemma hm_wf_insert: "hm_wf m \<Longrightarrow> hm_wf (hm_insert k v m)"
  by (simp add: hm_wf_def hm_keys_def hm_insert_def distinct_update)

lemma hm_wf_remove: "hm_wf m \<Longrightarrow> hm_wf (hm_remove k m)"
  by (simp add: hm_wf_def hm_keys_def hm_remove_def distinct_delete)

lemma hm_wf_empty [simp]: "hm_wf hm_empty" "hm_wf []"
  by (simp_all add: hm_wf_def hm_keys_def hm_empty_def)

interpretation hm: keyed_store hm_empty hm_get hm_insert hm_remove hm_keys hm_wf
  by unfold_locales
    (auto simp: hm_keys_get hm_wf_insert hm_wf_remove)

lemma hm_get_in_set: "hm_get m k = Some v \<Longrightarrow> (k, v) \<in> set m"
  by (simp add: hm_get_def map_of_SomeD)

lemma hm_in_set_get: "hm_wf m \<Longrightarrow> (k, v) \<in> set m \<Longrightarrow> hm_get m k = Some v"
  by (simp add: hm_wf_def hm_keys_def hm_get_def)

end
