(* ===== verification/Types.thy ===== *)
theory Types
  imports Prelude "HOL-Library.Char_ord" "HOL-Library.List_Lexorder"
begin

text \<open>
  Scalar and property types of the schema and query languages
  (\<^verbatim>\<open>omnigraph-compiler/src/types.rs\<close>): the type names a schema or a parameter list may
  spell, their display form, the Arrow type each is stored as and the compatibility relation
  the type checker compares them with. The main results are that reading a displayed type
  gives the type back, that every vector dimension the parser accepts fits the Arrow bound
  (so the conversion to Arrow cannot panic) and that compatibility is an equivalence.
\<close>

section \<open>Decimal numerals\<close>

definition digit_char :: "nat \<Rightarrow> char" where
  "digit_char d = char_of (48 + d)"

definition char_digit :: "char \<Rightarrow> nat option" where
  "char_digit c = (let n = of_char c :: nat in if 48 \<le> n \<and> n \<le> 57 then Some (n - 48) else None)"

fun show_nat :: "nat \<Rightarrow> string" where
  "show_nat n = (if n < 10 then [digit_char n] else show_nat (n div 10) @ [digit_char (n mod 10)])"

declare show_nat.simps [simp del]

fun read_digits :: "nat \<Rightarrow> string \<Rightarrow> nat option" where
  "read_digits acc [] = Some acc"
| "read_digits acc (c # cs) =
     (case char_digit c of None \<Rightarrow> None | Some d \<Rightarrow> read_digits (10 * acc + d) cs)"

text \<open>
  \<^verbatim>\<open>str::parse\<close> at an unsigned width: an optional plus sign, then at least one digit, and
  the value must fit the width.
\<close>

definition parse_unsigned :: "nat \<Rightarrow> string \<Rightarrow> nat option" where
  "parse_unsigned w s =
     (let ds = (case s of [] \<Rightarrow> [] | c # cs \<Rightarrow> if c = CHR ''+'' then cs else s)
      in if ds = [] then None
         else case read_digits 0 ds of
                None \<Rightarrow> None
              | Some n \<Rightarrow> if int n < 2 ^ w then Some n else None)"

definition parse_u32 :: "string \<Rightarrow> u32 option" where
  "parse_u32 s = map_option of_nat (parse_unsigned 32 s)"

definition show_u32 :: "u32 \<Rightarrow> string" where
  "show_u32 n = show_nat (unat n)"

section \<open>Strings\<close>

definition strip_prefix :: "string \<Rightarrow> string \<Rightarrow> string option" where
  "strip_prefix p s =
     (if take (length p) s = p then Some (drop (length p) s) else None)"

definition strip_suffix :: "string \<Rightarrow> string \<Rightarrow> string option" where
  "strip_suffix p s =
     (if length p \<le> length s \<and> drop (length s - length p) s = p
      then Some (take (length s - length p) s) else None)"

fun join :: "string \<Rightarrow> string list \<Rightarrow> string" where
  "join sep [] = []"
| "join sep [x] = x"
| "join sep (x # y # zs) = x @ sep @ join sep (y # zs)"

section \<open>Scalar types\<close>

definition MAX_VECTOR_DIM :: u32 where
  "MAX_VECTOR_DIM = 2147483647"

datatype scalar_type =
    SString | SBool | SI32 | SI64 | SU32 | SU64 | SF32 | SF64 | SDate | SDateTime
  | SVector u32 | SBlob

definition scalar_of_name :: "string \<Rightarrow> scalar_type option" where
  "scalar_of_name s =
     (if s = ''String'' then Some SString
      else if s = ''Bool'' then Some SBool
      else if s = ''I32'' then Some SI32
      else if s = ''I64'' then Some SI64
      else if s = ''U32'' then Some SU32
      else if s = ''U64'' then Some SU64
      else if s = ''F32'' then Some SF32
      else if s = ''F64'' then Some SF64
      else if s = ''Date'' then Some SDate
      else if s = ''DateTime'' then Some SDateTime
      else if s = ''Blob'' then Some SBlob
      else None)"

definition from_str_name :: "string \<Rightarrow> scalar_type option" where
  "from_str_name s =
     (case Option.bind (strip_prefix ''Vector('' s) (strip_suffix '')'') of
        Some inner \<Rightarrow>
          (case parse_u32 inner of
             None \<Rightarrow> None
           | Some dim \<Rightarrow>
               if dim = 0 \<or> dim > MAX_VECTOR_DIM then None else Some (SVector dim))
      | None \<Rightarrow> scalar_of_name s)"

fun scalar_display :: "scalar_type \<Rightarrow> string" where
  "scalar_display SString = ''String''"
| "scalar_display SBool = ''Bool''"
| "scalar_display SI32 = ''I32''"
| "scalar_display SI64 = ''I64''"
| "scalar_display SU32 = ''U32''"
| "scalar_display SU64 = ''U64''"
| "scalar_display SF32 = ''F32''"
| "scalar_display SF64 = ''F64''"
| "scalar_display SDate = ''Date''"
| "scalar_display SDateTime = ''DateTime''"
| "scalar_display SBlob = ''Blob''"
| "scalar_display (SVector dim) = ''Vector('' @ show_u32 dim @ '')''"

fun is_numeric :: "scalar_type \<Rightarrow> bool" where
  "is_numeric SI32 = True"
| "is_numeric SI64 = True"
| "is_numeric SU32 = True"
| "is_numeric SU64 = True"
| "is_numeric SF32 = True"
| "is_numeric SF64 = True"
| "is_numeric _ = False"

definition is_vector :: "scalar_type \<Rightarrow> bool" where
  "is_vector s = (case s of SVector _ \<Rightarrow> True | _ \<Rightarrow> False)"

section \<open>Arrow types\<close>

text \<open>The Arrow data types the source names.\<close>

datatype data_type =
    Utf8 | Boolean | Int32 | Int64 | UInt32 | UInt64 | Float32 | Float64 | Date32 | Date64
  | LargeBinary | FixedSizeList arrow_field i32 | DtList arrow_field
  | Struct "arrow_field list"
and arrow_field = Field string data_type bool

text \<open>
  \<^verbatim>\<open>to_arrow\<close> converts a vector dimension with \<^verbatim>\<open>i32::try_from(..).expect(..)\<close>;
  \<open>None\<close> is the panic.
\<close>

fun scalar_to_arrow :: "scalar_type \<Rightarrow> data_type option" where
  "scalar_to_arrow SString = Some Utf8"
| "scalar_to_arrow SBool = Some Boolean"
| "scalar_to_arrow SI32 = Some Int32"
| "scalar_to_arrow SI64 = Some Int64"
| "scalar_to_arrow SU32 = Some UInt32"
| "scalar_to_arrow SU64 = Some UInt64"
| "scalar_to_arrow SF32 = Some Float32"
| "scalar_to_arrow SF64 = Some Float64"
| "scalar_to_arrow SDate = Some Date32"
| "scalar_to_arrow SDateTime = Some Date64"
| "scalar_to_arrow SBlob = Some LargeBinary"
| "scalar_to_arrow (SVector dim) =
     (if dim \<le> 2147483647 then Some (FixedSizeList (Field ''item'' Float32 True) dim) else None)"

section \<open>Property types\<close>

record prop_type =
  pt_scalar :: scalar_type
  pt_nullable :: bool
  pt_list :: bool
  pt_enum_values :: "string list option"

definition pt_of_scalar :: "scalar_type \<Rightarrow> bool \<Rightarrow> prop_type" where
  "pt_of_scalar s n = \<lparr>pt_scalar = s, pt_nullable = n, pt_list = False, pt_enum_values = None\<rparr>"

definition list_of :: "scalar_type \<Rightarrow> bool \<Rightarrow> prop_type" where
  "list_of s n = \<lparr>pt_scalar = s, pt_nullable = n, pt_list = True, pt_enum_values = None\<rparr>"

definition enum_type :: "string list \<Rightarrow> bool \<Rightarrow> prop_type" where
  "enum_type values n =
     \<lparr>pt_scalar = SString, pt_nullable = n, pt_list = False,
      pt_enum_values = Some (remdups_adj (sort values))\<rparr>"

definition is_enum :: "prop_type \<Rightarrow> bool" where
  "is_enum p = (pt_enum_values p \<noteq> None)"

definition from_param_type_name :: "string \<Rightarrow> bool \<Rightarrow> prop_type option" where
  "from_param_type_name s n =
     (case Option.bind (strip_prefix ''['' s) (strip_suffix '']'') of
        Some inner \<Rightarrow> map_option (\<lambda>sc. list_of sc n) (from_str_name inner)
      | None \<Rightarrow> map_option (\<lambda>sc. pt_of_scalar sc n) (from_str_name s))"

definition to_arrow :: "prop_type \<Rightarrow> data_type option" where
  "to_arrow p =
     (case scalar_to_arrow (pt_scalar p) of
        None \<Rightarrow> None
      | Some dt \<Rightarrow> Some (if pt_list p then DtList (Field ''item'' dt True) else dt))"

definition display_name :: "prop_type \<Rightarrow> string" where
  "display_name p =
     (let base = (case pt_enum_values p of
                    Some values \<Rightarrow> ''enum('' @ join '', '' values @ '')''
                  | None \<Rightarrow> scalar_display (pt_scalar p));
          wrapped = (if pt_list p then ''['' @ base @ '']'' else base)
      in if pt_nullable p then wrapped @ ''?'' else wrapped)"

datatype direction = Out | In | Both

text \<open>\<^verbatim>\<open>types_compatible\<close> of \<^verbatim>\<open>query/typecheck.rs\<close>.\<close>

definition types_compatible :: "prop_type \<Rightarrow> prop_type \<Rightarrow> bool" where
  "types_compatible a b =
     (if pt_list a \<noteq> pt_list b then False
      else if pt_scalar a = pt_scalar b then True
      else is_numeric (pt_scalar a) \<and> is_numeric (pt_scalar b))"

section \<open>Facts\<close>

lemma pt_of_scalar_sel [simp]:
  "pt_scalar (pt_of_scalar s n) = s" "pt_nullable (pt_of_scalar s n) = n"
  "pt_list (pt_of_scalar s n) = False" "pt_enum_values (pt_of_scalar s n) = None"
  by (simp_all add: pt_of_scalar_def)

lemma list_of_sel [simp]:
  "pt_scalar (list_of s n) = s" "pt_nullable (list_of s n) = n"
  "pt_list (list_of s n) = True" "pt_enum_values (list_of s n) = None"
  by (simp_all add: list_of_def)

lemma char_digit_digit_char: "d < 10 \<Longrightarrow> char_digit (digit_char d) = Some d"
  by (simp add: char_digit_def digit_char_def of_char_of Let_def)

lemma read_digits_append:
  "read_digits acc (xs @ ys) = Option.bind (read_digits acc xs) (\<lambda>n. read_digits n ys)"
  by (induction acc xs rule: read_digits.induct) (auto split: option.splits)

lemma read_digits_show_nat: "read_digits 0 (show_nat n) = Some n"
proof (induction n rule: show_nat.induct)
  case (1 n)
  show ?case
  proof (cases "n < 10")
    case True
    then show ?thesis by (simp add: show_nat.simps [of n] char_digit_digit_char)
  next
    case False
    with "1.IH" have "read_digits 0 (show_nat (n div 10)) = Some (n div 10)" by simp
    with False show ?thesis
      by (simp add: show_nat.simps [of n] read_digits_append char_digit_digit_char)
  qed
qed

lemma show_nat_first_digit: "\<exists>d cs. d < 10 \<and> show_nat n = digit_char d # cs"
proof (induction n rule: show_nat.induct)
  case (1 n)
  then show ?case by (cases "n < 10") (auto simp: show_nat.simps [of n])
qed

lemma digit_char_neq_plus: "d < 10 \<Longrightarrow> digit_char d \<noteq> CHR ''+''"
proof
  assume "d < 10" and "digit_char d = CHR ''+''"
  then have "char_digit (CHR ''+'') = Some d"
    using char_digit_digit_char [of d] by simp
  then show False by (simp add: char_digit_def Let_def)
qed

lemma parse_u32_show: "parse_u32 (show_u32 n) = Some n"
proof -
  obtain d cs where d: "d < 10" and s: "show_nat (unat n) = digit_char d # cs"
    using show_nat_first_digit by blast
  have "int (unat n) < 2 ^ LENGTH(32)" by (simp only: of_nat_unat) (rule unsigned_less)
  then have "int (unat n) < 2 ^ 32" by simp
  moreover have "read_digits 0 (show_nat (unat n)) = Some (unat n)"
    by (rule read_digits_show_nat)
  ultimately have "parse_unsigned 32 (show_nat (unat n)) = Some (unat n)"
    using d s digit_char_neq_plus [of d] unfolding parse_unsigned_def
    by (simp del: read_digits.simps)
  then show ?thesis by (simp add: parse_u32_def show_u32_def)
qed

lemma strip_prefix_append [simp]: "strip_prefix p (p @ s) = Some s"
  by (simp add: strip_prefix_def)

lemma strip_suffix_append [simp]: "strip_suffix p (s @ p) = Some s"
  by (simp add: strip_suffix_def)

text \<open>A scalar type the compiler can build: a vector's dimension is one the parser accepts.\<close>

definition scalar_wf :: "scalar_type \<Rightarrow> bool" where
  "scalar_wf s = (case s of SVector d \<Rightarrow> d \<noteq> 0 \<and> d \<le> MAX_VECTOR_DIM | _ \<Rightarrow> True)"

definition pt_wf :: "prop_type \<Rightarrow> bool" where
  "pt_wf p = scalar_wf (pt_scalar p)"

lemma from_str_name_vector:
  "from_str_name (''Vector('' @ show_u32 d @ '')'') =
     (if d = 0 \<or> d > MAX_VECTOR_DIM then None else Some (SVector d))"
  unfolding from_str_name_def by (simp only: strip_prefix_append strip_suffix_append
    bind.bind_lunit option.case parse_u32_show)

lemma from_str_name_wf: "from_str_name s = Some sc \<Longrightarrow> scalar_wf sc"
  by (auto simp: from_str_name_def scalar_wf_def scalar_of_name_def
      split: option.splits if_splits)

lemma from_param_type_name_wf: "from_param_type_name s n = Some p \<Longrightarrow> pt_wf p"
  by (auto simp: from_param_type_name_def pt_wf_def dest: from_str_name_wf split: option.splits)

lemma scalar_wf_to_arrow: "scalar_wf s \<Longrightarrow> \<exists>dt. scalar_to_arrow s = Some dt"
  by (cases s) (auto simp: scalar_wf_def MAX_VECTOR_DIM_def)

lemma pt_wf_to_arrow: "pt_wf p \<Longrightarrow> \<exists>dt. to_arrow p = Some dt"
  using scalar_wf_to_arrow [of "pt_scalar p"] by (auto simp: to_arrow_def pt_wf_def)

lemma types_compatible_iff:
  "types_compatible a b \<longleftrightarrow>
     pt_list a = pt_list b \<and>
     (pt_scalar a = pt_scalar b \<or> is_numeric (pt_scalar a) \<and> is_numeric (pt_scalar b))"
  by (auto simp: types_compatible_def)

section \<open>Properties\<close>

lemma from_str_name_plain: "\<not> is_vector s \<Longrightarrow> from_str_name (scalar_display s) = Some s"
  by (cases s) (simp_all add: is_vector_def from_str_name_def scalar_of_name_def
      strip_prefix_def)

text \<open>
  Reading the display form of a scalar type gives the type back, for every type but the
  vectors whose dimension is zero or above the Arrow limit; those are refused.
\<close>

theorem scalar_type_round_trip:
  "from_str_name (scalar_display s) = (if scalar_wf s then Some s else None)"
proof (cases s)
  case (SVector d)
  then show ?thesis
    using from_str_name_vector [of d] by (auto simp: scalar_wf_def)
qed (use from_str_name_plain [of s] in \<open>auto simp: is_vector_def scalar_wf_def\<close>)

text \<open>
  A type a schema or a parameter list can spell always has an Arrow form: the conversion
  of the vector dimension to a signed 32-bit length, which would panic, cannot fail.
\<close>

theorem declared_type_has_arrow_form:
  assumes "from_param_type_name s n = Some p"
  shows "to_arrow p \<noteq> None"
  using pt_wf_to_arrow [OF from_param_type_name_wf [OF assms]] by auto

theorem declared_type_has_arrow_form_witness:
  "to_arrow (list_of (SVector 3) True) \<noteq> None"
  by (rule declared_type_has_arrow_form [of "''[Vector(3)]''" True])
    (simp add: from_param_type_name_def from_str_name_def strip_prefix_def strip_suffix_def
      parse_u32_def parse_unsigned_def char_digit_def MAX_VECTOR_DIM_def)

text \<open>
  The compatibility the type checker compares property types with is an equivalence, so a
  chain of comparisons never relates what a direct comparison refuses.
\<close>

theorem types_compatible_equivalence: "equivp types_compatible"
  by (rule equivpI) (auto simp: reflp_def symp_def transp_def types_compatible_iff)

end
