(* ===== verification/Schema_Ast.thy ===== *)
theory Schema_Ast
  imports Types
begin

text \<open>
  The syntax of schema files (\<^verbatim>\<open>omnigraph-compiler/src/schema/ast.rs\<close>): interface, node and
  edge declarations with their annotations, constraints and cardinalities, and the accessors
  that read annotations.
\<close>

record annotation =
  ann_name :: string
  ann_value :: "string option"
  ann_kwargs :: "(string, string) hmap"

datatype constraint_bound = BInteger i64 | BFloat f64

datatype constraint =
    Key "string list"
  | Unique "string list"
  | Index "string list"
  | Range string "constraint_bound option" "constraint_bound option"
  | Check string string

record cardinality =
  card_min :: u32
  card_max :: "u32 option"

record prop_decl =
  pd_name :: string
  pd_type :: prop_type
  pd_annotations :: "annotation list"

record interface_decl =
  id_name :: string
  id_properties :: "prop_decl list"

record interface_property_origin =
  ipo_interface_name :: string
  ipo_property_name :: string

record node_property_origin =
  npo_declared_directly :: bool
  npo_interface_properties :: "interface_property_origin list"

record node_decl =
  nd_name :: string
  nd_annotations :: "annotation list"
  nd_implements :: "string list"
  nd_properties :: "prop_decl list"
  nd_constraints :: "constraint list"
  nd_source_constraints :: "constraint list"
  nd_property_origins :: "(string, node_property_origin) hmap"

record edge_decl =
  ed_name :: string
  ed_from_type :: string
  ed_to_type :: string
  ed_cardinality :: cardinality
  ed_annotations :: "annotation list"
  ed_properties :: "prop_decl list"
  ed_constraints :: "constraint list"

datatype schema_decl = DInterface interface_decl | DNode node_decl | DEdge edge_decl

record schema_file =
  sf_declarations :: "schema_decl list"

definition card_is_default :: "cardinality \<Rightarrow> bool" where
  "card_is_default c = (card_min c = 0 \<and> card_max c = None)"

definition has_annotation :: "annotation list \<Rightarrow> string \<Rightarrow> bool" where
  "has_annotation anns n = list_ex (\<lambda>a. ann_name a = n) anns"

definition annotation_value :: "annotation list \<Rightarrow> string \<Rightarrow> string option" where
  "annotation_value anns n = Option.bind (find (\<lambda>a. ann_name a = n) anns) ann_value"

text \<open>
  \<^verbatim>\<open>char::is_whitespace\<close> on the ASCII range (tab to carriage return, space), which is what
  \<^verbatim>\<open>str::trim\<close> removes there.
\<close>

definition is_whitespace :: "char \<Rightarrow> bool" where
  "is_whitespace c = (let n = of_char c :: nat in n = 32 \<or> (9 \<le> n \<and> n \<le> 13))"

definition trim :: "string \<Rightarrow> string" where
  "trim s = rev (dropWhile is_whitespace (rev (dropWhile is_whitespace s)))"

datatype rename_error =
    RenameFromRepeated string
  | RenameFromNoValue string
  | RenameFromKwargs string

definition rename_from_annotation ::
    "annotation list \<Rightarrow> string \<Rightarrow> rename_error + string option" where
  "rename_from_annotation anns target =
     (case filter (\<lambda>a. ann_name a = ''rename_from'') anns of
        [] \<Rightarrow> Inr None
      | [a] \<Rightarrow>
          (case ann_value a of
             None \<Rightarrow> Inl (RenameFromNoValue target)
           | Some v \<Rightarrow>
               if trim v = [] then Inl (RenameFromNoValue target)
               else if ann_kwargs a \<noteq> [] then Inl (RenameFromKwargs target)
               else Inr (Some v))
      | _ \<Rightarrow> Inl (RenameFromRepeated target))"

lemma has_annotation_iff: "has_annotation anns n \<longleftrightarrow> (\<exists>a \<in> set anns. ann_name a = n)"
  by (simp add: has_annotation_def list_ex_iff)

lemma has_annotation_filter:
  "has_annotation anns n \<longleftrightarrow> filter (\<lambda>a. ann_name a = n) anns \<noteq> []"
  by (auto simp: has_annotation_iff filter_empty_conv)

text \<open>
  What a rename hint that is accepted says: it is the value of the only \<^verbatim>\<open>@rename_from\<close>
  annotation, it is not blank and it has no keyword arguments.
\<close>

lemma rename_from_annotation_Some:
  assumes "rename_from_annotation anns target = Inr (Some v)"
  shows "\<exists>a. filter (\<lambda>a. ann_name a = ''rename_from'') anns = [a] \<and>
    ann_value a = Some v \<and> trim v \<noteq> [] \<and> ann_kwargs a = []"
  using assms
  by (auto simp: rename_from_annotation_def split: list.splits option.splits if_splits)

lemma rename_from_annotation_None:
  "rename_from_annotation anns target = Inr None \<longleftrightarrow> \<not> has_annotation anns ''rename_from''"
  by (auto simp: rename_from_annotation_def has_annotation_filter
      split: list.splits option.splits if_splits)

end
