(* ===== verification/Schema_IR.thy ===== *)
theory Schema_IR
  imports Schema_Ast
begin

text \<open>
  The accepted, identity-bearing schema (\<^verbatim>\<open>omnigraph-compiler/src/catalog/schema_ir.rs\<close>): every
  type, property and table incarnation carries a number of one shared, never reused sequence.
  This theory holds the data; the catalog reads identities from it.
\<close>

type_synonym stable_type_id = u64
type_synonym stable_property_id = u64
type_synonym table_incarnation_id = u64

datatype property_constraint_shape = PCKey | PCUnique | PCIndex

datatype system_field_role = RoleId | RoleSrc | RoleDst

record type_ref_ir =
  tr_type_id :: stable_type_id
  tr_type_name :: string

record property_ref_ir =
  pr_owner_type_id :: stable_type_id
  pr_owner_type_name :: string
  pr_property_id :: stable_property_id
  pr_property_name :: string

record system_field_ref_ir =
  sfr_stable_table_id :: stable_type_id
  sfr_table_type_name :: string
  sfr_table_incarnation_id :: table_incarnation_id
  sfr_role :: system_field_role

datatype field_ref_ir = FProperty property_ref_ir | FSystem system_field_ref_ir

datatype constraint_ir =
    KeyIR "field_ref_ir list"
  | UniqueIR "field_ref_ir list"
  | IndexIR "field_ref_ir list"
  | RangeIR field_ref_ir "constraint_bound option" "constraint_bound option"
  | CheckIR field_ref_ir string

record embed_source_ir =
  es_source :: property_ref_ir
  es_model :: "string option"

record property_ir =
  pi_name :: string
  pi_property_id :: stable_property_id
  pi_prop_type :: prop_type
  pi_annotations :: "annotation list"
  pi_property_constraints :: "property_constraint_shape list"
  pi_embed_source :: "embed_source_ir option"
  pi_declared_directly :: bool
  pi_satisfies_interface_properties :: "property_ref_ir list"

record interface_ir =
  ii_name :: string
  ii_type_id :: stable_type_id
  ii_properties :: "property_ir list"

record node_ir =
  ni_name :: string
  ni_type_id :: stable_type_id
  ni_table_incarnation_id :: table_incarnation_id
  ni_annotations :: "annotation list"
  ni_implements :: "type_ref_ir list"
  ni_properties :: "property_ir list"
  ni_constraints :: "constraint_ir list"

record edge_ir =
  ei_name :: string
  ei_type_id :: stable_type_id
  ei_table_incarnation_id :: table_incarnation_id
  ei_from_type :: type_ref_ir
  ei_to_type :: type_ref_ir
  ei_cardinality :: cardinality
  ei_annotations :: "annotation list"
  ei_properties :: "property_ir list"
  ei_constraints :: "constraint_ir list"

record schema_ir =
  sir_ir_version :: u32
  sir_schema_identity_domain :: string
  sir_next_identity_id :: u64
  sir_interfaces :: "interface_ir list"
  sir_nodes :: "node_ir list"
  sir_edges :: "edge_ir list"

end
