(* ===== verification/Query_Ast.thy ===== *)
theory Query_Ast
  imports Types
begin

text \<open>
  The syntax of query files (\<^verbatim>\<open>omnigraph-compiler/src/query/ast.rs\<close>): match clauses with
  bindings, traversals, filters and negation blocks, projections, orderings and mutations.
\<close>

definition NOW_PARAM_NAME :: string where
  "NOW_PARAM_NAME = ''__nanograph_now''"

record param =
  prm_name :: string
  prm_type_name :: string
  prm_nullable :: bool

datatype literal =
    LNull
  | LString string
  | LInteger i64
  | LFloat f64
  | LBool bool
  | LDate string
  | LDateTime string
  | LList "literal list"

datatype match_value = MVLiteral literal | MVVariable string | MVNow

record prop_match =
  pm_prop_name :: string
  pm_value :: match_value

record binding =
  b_variable :: string
  b_type_name :: string
  b_prop_matches :: "prop_match list"

record traversal =
  t_src :: string
  t_edge_name :: string
  t_dst :: string
  t_min_hops :: u32
  t_max_hops :: "u32 option"
  t_undirected :: bool
  t_edge_binding :: "string option"

datatype comp_op = OpEq | OpNe | OpGt | OpLt | OpGe | OpLe | OpContains | OpStartsWith
  | OpStringContains

fun comp_op_display :: "comp_op \<Rightarrow> string" where
  "comp_op_display OpEq = ''=''"
| "comp_op_display OpNe = ''!=''"
| "comp_op_display OpGt = ''>''"
| "comp_op_display OpLt = ''<''"
| "comp_op_display OpGe = ''>=''"
| "comp_op_display OpLe = ''<=''"
| "comp_op_display OpContains = ''contains''"
| "comp_op_display OpStringContains = ''contains''"
| "comp_op_display OpStartsWith = ''starts_with''"

datatype agg_func = AggCount | AggSum | AggAvg | AggMin | AggMax

fun agg_func_display :: "agg_func \<Rightarrow> string" where
  "agg_func_display AggCount = ''count''"
| "agg_func_display AggSum = ''sum''"
| "agg_func_display AggAvg = ''avg''"
| "agg_func_display AggMin = ''min''"
| "agg_func_display AggMax = ''max''"

datatype expr =
    Now
  | PropAccess string string
  | Nearest string string expr
  | Search expr expr
  | Fuzzy expr expr "expr option"
  | MatchText expr expr
  | Bm25 expr expr
  | Rrf expr expr "expr option"
  | Variable string
  | Literal literal
  | Aggregate agg_func expr
  | AliasRef string

record filter_clause =
  f_left :: expr
  f_op :: comp_op
  f_right :: expr

datatype clause =
    CBinding binding
  | CTraversal traversal
  | CFilter filter_clause
  | CNegation "clause list"

record projection =
  proj_expr :: expr
  proj_alias :: "string option"

record ordering =
  ord_expr :: expr
  ord_descending :: bool

record mutation_assignment =
  ma_property :: string
  ma_value :: match_value

record mutation_predicate =
  mp_property :: string
  mp_op :: comp_op
  mp_value :: match_value

record insert_mutation =
  im_type_name :: string
  im_assignments :: "mutation_assignment list"

record update_mutation =
  um_type_name :: string
  um_assignments :: "mutation_assignment list"
  um_predicate :: mutation_predicate

record delete_mutation =
  dm_type_name :: string
  dm_predicate :: mutation_predicate

datatype mutation =
    MInsert insert_mutation
  | MUpdate update_mutation
  | MDelete delete_mutation

record query_decl =
  q_name :: string
  q_description :: "string option"
  q_instruction :: "string option"
  q_params :: "param list"
  q_match_clause :: "clause list"
  q_return_clause :: "projection list"
  q_order_clause :: "ordering list"
  q_limit :: "u64 option"
  q_mutations :: "mutation list"

record query_file =
  qf_queries :: "query_decl list"

text \<open>The anonymous variable.\<close>

definition wildcard :: string where
  "wildcard = ''_''"

text \<open>The edge binding of a traversal that names a variable: \<^verbatim>\<open>_\<close> binds nothing.\<close>

definition named_edge_binding :: "traversal \<Rightarrow> string option" where
  "named_edge_binding t =
     (case t_edge_binding t of
        None \<Rightarrow> None
      | Some b \<Rightarrow> if b = wildcard then None else Some b)"

text \<open>The expressions below an expression, itself included.\<close>

fun subexprs :: "expr \<Rightarrow> expr list" where
  "subexprs (Nearest v p q) = Nearest v p q # subexprs q"
| "subexprs (Search f q) = Search f q # subexprs f @ subexprs q"
| "subexprs (Fuzzy f q m) = Fuzzy f q m # subexprs f @ subexprs q @
     (case m of None \<Rightarrow> [] | Some e \<Rightarrow> subexprs e)"
| "subexprs (MatchText f q) = MatchText f q # subexprs f @ subexprs q"
| "subexprs (Bm25 f q) = Bm25 f q # subexprs f @ subexprs q"
| "subexprs (Rrf a b k) = Rrf a b k # subexprs a @ subexprs b @
     (case k of None \<Rightarrow> [] | Some e \<Rightarrow> subexprs e)"
| "subexprs (Aggregate f a) = Aggregate f a # subexprs a"
| "subexprs e = [e]"

lemma subexprs_self [simp]: "e \<in> set (subexprs e)"
  by (cases e) auto

text \<open>Every clause list of a clause list: itself and the negation blocks below it.\<close>

fun clause_lists :: "clause list \<Rightarrow> clause list list" and
    inner_lists :: "clause \<Rightarrow> clause list list" where
  "clause_lists cs = cs # concat (map inner_lists cs)"
| "inner_lists (CNegation cs) = clause_lists cs"
| "inner_lists _ = []"

end
