(* ===== verification/Errors.thy ===== *)
theory Errors
  imports Query_Ast Schema_Ast
begin

text \<open>
  The errors of the compiler (\<^verbatim>\<open>omnigraph-compiler/src/error.rs\<close>). The source's variants
  carry a formatted message; here each message is a constructor that carries the values the
  message is formatted from, so that a theorem can name the branch that failed. A Rust panic
  (\<^verbatim>\<open>expect\<close>, \<^verbatim>\<open>unwrap\<close>, an out-of-range index) is a separate outcome, not an error value.
\<close>

datatype resolved_type = RScalar prop_type | RNode string | RAggregate

datatype param_error =
    ReservedParameter
  | UnknownParameterType string string

text \<open>Values against the type a property expects (T3, T7, T14).\<close>

datatype value_error =
    T3_list_equality string
  | T3_membership string prop_type prop_type
  | T3_null string
  | T3_vector_dim string u32 u32
  | T3_literal string prop_type prop_type
  | T3_enum string "string list" string
  | T7_list_equality string
  | T7_membership prop_type prop_type string
  | T7_assign prop_type prop_type string
  | T7_now prop_type string
  | T14_undeclared_variable string
  | NestedListLiteral
  | ListLiteralTypes

datatype binding_error =
    T1_unknown_node_type string
  | T2_no_property string string
  | T3_blob_match string string
  | T23_rebind_edge string string string
  | AlreadyBound string string string
  | T9_negation

datatype traversal_error =
    T4_unknown_edge string
  | T5_not_endpoint string string string string string
  | T5_endpoint_type string string string string
  | T15_min_hops
  | T15_hop_bounds u32 u32
  | T15_unbounded
  | T22_asymmetric string string string
  | T23_endpoint string
  | T23_bounds string
  | T23_endpoint_name string
  | T23_already_bound string

datatype filter_error =
    T7_blob_comparison
  | T7_string_contains_right prop_type
  | T7_contains_left prop_type
  | T7_contains_right_list
  | T7_vector_membership
  | T7_member prop_type prop_type
  | T7_string_op_left comp_op prop_type
  | T7_string_op_right comp_op prop_type
  | T7_list_comparison
  | T7_vector_comparison
  | T7_compare prop_type prop_type
  | T7_non_scalar resolved_type resolved_type

datatype nearest_error =
    T15_unbound string
  | T15_type_not_found string
  | T15_no_property string string
  | T15_not_vector string string prop_type
  | T15_list_vector
  | T15_literal_dim u32 u32
  | T15_query_dim u32 u32
  | T15_query_type u32 prop_type
  | T15_query_non_scalar
  | T23_nearest string

text \<open>
  The search functions share their messages: \<open>Text_arg fn role ty\<close> is
  ``\<^verbatim>\<open>T19/T20: <fn> <role> must be String, got <ty>\<close>'' (T19 for \<^verbatim>\<open>search\<close> and \<^verbatim>\<open>fuzzy\<close>,
  T20 for \<^verbatim>\<open>match_text\<close> and \<^verbatim>\<open>bm25\<close>).
\<close>

datatype search_error =
    Text_arg string string prop_type
  | Text_arg_non_scalar string string
  | T19_max_edits prop_type
  | T19_max_edits_non_scalar
  | T21_primary
  | T21_secondary
  | T21_rank prop_type
  | T21_rank_non_scalar
  | T21_k prop_type
  | T21_k_non_scalar
  | T21_k_not_positive
  | T23_search_field string string string

datatype expr_error =
    T6_unbound string
  | T6_type_not_found string
  | T6_no_property string string
  | T6_edge_not_found string
  | T6_edge_no_property string string
  | T8_numeric agg_func prop_type
  | T8_numeric_or_string agg_func prop_type
  | T23_bare string
  | T24_blob_property string string
  | T24_blob_value expr
  | VariableNotBound string
  | TypeNotFound string

datatype query_error =
    MutationWithReadApi
  | T9_group_key
  | T17_nearest_limit
  | T18_alias_with_nearest
  | T21_rrf_limit

datatype mutation_error =
    T10_insert_empty
  | T10_update_empty
  | T10_unknown_type string
  | T11_no_property string string
  | T11_blob_predicate string
  | T12_missing_property string string
  | T12_missing_embed string string string
  | T12_missing_from string
  | T12_missing_to string
  | T13_duplicate_assignment string
  | T16_edge_update string

datatype type_error =
    ParamErr param_error
  | ValueErr value_error
  | BindingErr binding_error
  | TraversalErr traversal_error
  | FilterErr filter_error
  | NearestErr nearest_error
  | SearchErr search_error
  | ExprErr expr_error
  | QueryErr query_error
  | MutationErr mutation_error

datatype catalog_error =
    DuplicateNodeType string
  | DuplicateEdgeType string
  | UnknownSourceType string string
  | UnknownTargetType string string
  | EdgeNameCollision string string

datatype plan_error =
    NotAReadQuery
  | NotAMutation
  | MissingEdge string

datatype compiler_error =
    CatalogError catalog_error
  | TypeError type_error
  | PlanError plan_error

text \<open>The panics of the modelled code, one per \<^verbatim>\<open>expect\<close>.\<close>

datatype panic = VectorDimExceedsArrow | BindingTypeMissing | BindingPropertyMissing

datatype fault = Err compiler_error | Panic panic

abbreviation type_err :: "type_error \<Rightarrow> fault" where
  "type_err e \<equiv> Err (TypeError e)"

abbreviation catalog_err :: "catalog_error \<Rightarrow> fault" where
  "catalog_err e \<equiv> Err (CatalogError e)"

abbreviation plan_err :: "plan_error \<Rightarrow> fault" where
  "plan_err e \<equiv> Err (PlanError e)"

type_synonym 'a result = "fault + 'a"

end
