(* ===== verification/Catalog.thy ===== *)
theory Catalog
  imports Schema_IR Errors
begin

text \<open>
  The catalog the compiler checks queries against
  (\<^verbatim>\<open>omnigraph-compiler/src/catalog/mod.rs\<close>): node, edge and interface types by name, the
  case-folded index of edge names, and the identity authority of an accepted schema.
  \<open>build_catalog\<close> is the three passes over the declarations. It succeeds exactly on schemas
  without duplicate or case-colliding names whose edges join declared nodes, and what it builds
  satisfies \<open>catalog_wf\<close>, on which the type checker and the lowering rely.
\<close>

section \<open>Data\<close>

datatype literal_value = LVInteger i64 | LVFloat f64

record range_constraint =
  rc_property :: string
  rc_min :: "literal_value option"
  rc_max :: "literal_value option"

record check_constraint =
  cc_property :: string
  cc_pattern :: string

record embed_source =
  emb_source :: string
  emb_model :: "string option"

record interface_type =
  it_name :: string
  it_properties :: "(string, prop_type) hmap"

record node_type =
  nt_name :: string
  nt_implements :: "string list"
  nt_properties :: "(string, prop_type) hmap"
  nt_key :: "string list option"
  nt_unique_constraints :: "string list list"
  nt_indices :: "string list list"
  nt_range_constraints :: "range_constraint list"
  nt_check_constraints :: "check_constraint list"
  nt_embed_sources :: "(string, embed_source) hmap"
  nt_blob_properties :: "string set"
  nt_arrow_schema :: "arrow_field list"

record edge_type =
  et_name :: string
  et_from_type :: string
  et_to_type :: string
  et_cardinality :: cardinality
  et_properties :: "(string, prop_type) hmap"
  et_unique_constraints :: "string list list"
  et_indices :: "string list list"
  et_blob_properties :: "string set"
  et_arrow_schema :: "arrow_field list"

datatype catalog_identity = SourceUnbound | Bound schema_ir

record catalog =
  cat_node_types :: "(string, node_type) hmap"
  cat_edge_types :: "(string, edge_type) hmap"
  cat_edge_name_index :: "(string, string) hmap"
  cat_interfaces :: "(string, interface_type) hmap"
  cat_identity :: catalog_identity

section \<open>Lookups\<close>

definition key_property :: "node_type \<Rightarrow> string option" where
  "key_property nt =
     (case nt_key nt of None \<Rightarrow> None | Some [] \<Rightarrow> None | Some (k # _) \<Rightarrow> Some k)"

text \<open>
  \<^verbatim>\<open>str::to_lowercase\<close> on ASCII text; the grammars admit only ASCII letters, digits and
  underscores in the names this is applied to.
\<close>

definition char_to_lower :: "char \<Rightarrow> char" where
  "char_to_lower c = (let n = of_char c :: nat in if 65 \<le> n \<and> n \<le> 90 then char_of (n + 32) else c)"

definition normalize_edge_name :: "string \<Rightarrow> string" where
  "normalize_edge_name name = map char_to_lower name"

definition lookup_edge_by_name :: "catalog \<Rightarrow> string \<Rightarrow> edge_type option" where
  "lookup_edge_by_name cat name =
     (case hm_get (cat_edge_types cat) name of
        Some et \<Rightarrow> Some et
      | None \<Rightarrow>
          (case hm_get (cat_edge_name_index cat) (normalize_edge_name name) of
             Some key \<Rightarrow> hm_get (cat_edge_types cat) key
           | None \<Rightarrow> None))"

definition is_identity_bound :: "catalog \<Rightarrow> bool" where
  "is_identity_bound cat = (case cat_identity cat of Bound _ \<Rightarrow> True | SourceUnbound \<Rightarrow> False)"

definition bound_schema_ir :: "catalog \<Rightarrow> schema_ir option" where
  "bound_schema_ir cat = (case cat_identity cat of SourceUnbound \<Rightarrow> None | Bound ir \<Rightarrow> Some ir)"

definition interface_type_id :: "catalog \<Rightarrow> string \<Rightarrow> stable_type_id option" where
  "interface_type_id cat name = Option.bind (bound_schema_ir cat)
     (\<lambda>ir. map_option ii_type_id (find (\<lambda>e. ii_name e = name) (sir_interfaces ir)))"

definition node_type_id :: "catalog \<Rightarrow> string \<Rightarrow> stable_type_id option" where
  "node_type_id cat name = Option.bind (bound_schema_ir cat)
     (\<lambda>ir. map_option ni_type_id (find (\<lambda>e. ni_name e = name) (sir_nodes ir)))"

definition edge_type_id :: "catalog \<Rightarrow> string \<Rightarrow> stable_type_id option" where
  "edge_type_id cat name = Option.bind (bound_schema_ir cat)
     (\<lambda>ir. map_option ei_type_id (find (\<lambda>e. ei_name e = name) (sir_edges ir)))"

definition node_table_incarnation_id :: "catalog \<Rightarrow> string \<Rightarrow> table_incarnation_id option" where
  "node_table_incarnation_id cat name = Option.bind (bound_schema_ir cat)
     (\<lambda>ir. map_option ni_table_incarnation_id (find (\<lambda>e. ni_name e = name) (sir_nodes ir)))"

definition edge_table_incarnation_id :: "catalog \<Rightarrow> string \<Rightarrow> table_incarnation_id option" where
  "edge_table_incarnation_id cat name = Option.bind (bound_schema_ir cat)
     (\<lambda>ir. map_option ei_table_incarnation_id (find (\<lambda>e. ei_name e = name) (sir_edges ir)))"

text \<open>
  The kind-agnostic lookups answer only when exactly one kind has the name: \<open>the_only\<close> is the
  \<^verbatim>\<open>flatten\<close>, \<^verbatim>\<open>next\<close>, \<^verbatim>\<open>next().is_none()\<close> idiom.
\<close>

definition the_only :: "'a option list \<Rightarrow> 'a option" where
  "the_only opts =
     (case List.map_filter id opts of [x] \<Rightarrow> Some x | _ \<Rightarrow> None)"

definition type_id :: "catalog \<Rightarrow> string \<Rightarrow> stable_type_id option" where
  "type_id cat name =
     the_only [interface_type_id cat name, node_type_id cat name, edge_type_id cat name]"

definition table_incarnation_id :: "catalog \<Rightarrow> string \<Rightarrow> table_incarnation_id option" where
  "table_incarnation_id cat name =
     the_only [node_table_incarnation_id cat name, edge_table_incarnation_id cat name]"

definition find_property_id :: "property_ir list \<Rightarrow> string \<Rightarrow> stable_property_id option" where
  "find_property_id ps name = map_option pi_property_id (find (\<lambda>p. pi_name p = name) ps)"

definition interface_property_id :: "catalog \<Rightarrow> string \<Rightarrow> string \<Rightarrow> stable_property_id option" where
  "interface_property_id cat owner name = Option.bind (bound_schema_ir cat)
     (\<lambda>ir. Option.bind (find (\<lambda>e. ii_name e = owner) (sir_interfaces ir))
        (\<lambda>e. find_property_id (ii_properties e) name))"

definition node_property_id :: "catalog \<Rightarrow> string \<Rightarrow> string \<Rightarrow> stable_property_id option" where
  "node_property_id cat owner name = Option.bind (bound_schema_ir cat)
     (\<lambda>ir. Option.bind (find (\<lambda>e. ni_name e = owner) (sir_nodes ir))
        (\<lambda>e. find_property_id (ni_properties e) name))"

definition edge_property_id :: "catalog \<Rightarrow> string \<Rightarrow> string \<Rightarrow> stable_property_id option" where
  "edge_property_id cat owner name = Option.bind (bound_schema_ir cat)
     (\<lambda>ir. Option.bind (find (\<lambda>e. ei_name e = owner) (sir_edges ir))
        (\<lambda>e. find_property_id (ei_properties e) name))"

definition property_id :: "catalog \<Rightarrow> string \<Rightarrow> string \<Rightarrow> stable_property_id option" where
  "property_id cat owner name =
     (case filter (\<lambda>(o', _). o' \<noteq> None)
             [(interface_type_id cat owner, interface_property_id cat owner name),
              (node_type_id cat owner, node_property_id cat owner name),
              (edge_type_id cat owner, edge_property_id cat owner name)] of
        [(_, prop)] \<Rightarrow> prop
      | _ \<Rightarrow> None)"

section \<open>Building the catalog from source declarations\<close>

definition bound_to_literal :: "constraint_bound \<Rightarrow> literal_value" where
  "bound_to_literal b = (case b of BInteger n \<Rightarrow> LVInteger n | BFloat f \<Rightarrow> LVFloat f)"

definition collect_properties :: "prop_decl list \<Rightarrow> (string, prop_type) hmap" where
  "collect_properties props = fold (\<lambda>(k, v). hm_insert k v)
     (map (\<lambda>p. (pd_name p, pd_type p)) props) hm_empty"

definition collect_blob_properties :: "prop_decl list \<Rightarrow> string set" where
  "collect_blob_properties props =
     set (map pd_name (filter (\<lambda>p. pt_scalar (pd_type p) = SBlob) props))"

definition embed_of :: "prop_decl \<Rightarrow> embed_source option" where
  "embed_of p =
     (case find (\<lambda>a. ann_name a = ''embed'') (pd_annotations p) of
        None \<Rightarrow> None
      | Some a \<Rightarrow>
          (case ann_value a of
             None \<Rightarrow> None
           | Some source \<Rightarrow>
               Some \<lparr>emb_source = source, emb_model = hm_get (ann_kwargs a) ''model''\<rparr>))"

fun collect_embed_sources ::
    "prop_decl list \<Rightarrow> (string, embed_source) hmap \<Rightarrow> (string, embed_source) hmap" where
  "collect_embed_sources [] m = m"
| "collect_embed_sources (p # ps) m =
     collect_embed_sources ps
       (case embed_of p of None \<Rightarrow> m | Some e \<Rightarrow> hm_insert (pd_name p) e m)"

text \<open>An Arrow field per property; \<^verbatim>\<open>to_arrow\<close> panics on a vector dimension out of bounds.\<close>

definition prop_field :: "prop_decl \<Rightarrow> arrow_field result" where
  "prop_field p =
     (case to_arrow (pd_type p) of
        None \<Rightarrow> Inl (Panic VectorDimExceedsArrow)
      | Some dt \<Rightarrow> Inr (Field (pd_name p) dt (pt_nullable (pd_type p))))"

definition system_field :: "string \<Rightarrow> arrow_field" where
  "system_field name = Field name Utf8 False"

text \<open>The loop over a node's constraints fills five accumulators.\<close>

record constraint_acc =
  ca_key :: "string list option"
  ca_unique :: "string list list"
  ca_indices :: "string list list"
  ca_range :: "range_constraint list"
  ca_check :: "check_constraint list"

definition empty_constraint_acc :: constraint_acc where
  "empty_constraint_acc =
     \<lparr>ca_key = None, ca_unique = [], ca_indices = [], ca_range = [], ca_check = []\<rparr>"

fun add_node_constraint :: "constraint \<Rightarrow> constraint_acc \<Rightarrow> constraint_acc" where
  "add_node_constraint (Key cols) acc =
     acc\<lparr>ca_key := Some cols, ca_indices := ca_indices acc @ [cols]\<rparr>"
| "add_node_constraint (Unique cols) acc = acc\<lparr>ca_unique := ca_unique acc @ [cols]\<rparr>"
| "add_node_constraint (Index cols) acc = acc\<lparr>ca_indices := ca_indices acc @ [cols]\<rparr>"
| "add_node_constraint (Range property lo hi) acc =
     acc\<lparr>ca_range := ca_range acc @
       [\<lparr>rc_property = property, rc_min = map_option bound_to_literal lo,
         rc_max = map_option bound_to_literal hi\<rparr>]\<rparr>"
| "add_node_constraint (Check property pattern) acc =
     acc\<lparr>ca_check := ca_check acc @ [\<lparr>cc_property = property, cc_pattern = pattern\<rparr>]\<rparr>"

fun add_edge_constraint :: "constraint \<Rightarrow> constraint_acc \<Rightarrow> constraint_acc" where
  "add_edge_constraint (Unique cols) acc = acc\<lparr>ca_unique := ca_unique acc @ [cols]\<rparr>"
| "add_edge_constraint (Index cols) acc = acc\<lparr>ca_indices := ca_indices acc @ [cols]\<rparr>"
| "add_edge_constraint _ acc = acc"

definition build_node_type :: "node_decl \<Rightarrow> node_type result" where
  "build_node_type node =
     r_bind (r_map prop_field (nd_properties node)) (\<lambda>flds.
       let acc = fold add_node_constraint (nd_constraints node) empty_constraint_acc
       in Inr \<lparr>nt_name = nd_name node,
               nt_implements = nd_implements node,
               nt_properties = collect_properties (nd_properties node),
               nt_key = ca_key acc,
               nt_unique_constraints = ca_unique acc,
               nt_indices = ca_indices acc,
               nt_range_constraints = ca_range acc,
               nt_check_constraints = ca_check acc,
               nt_embed_sources = collect_embed_sources (nd_properties node) hm_empty,
               nt_blob_properties = collect_blob_properties (nd_properties node),
               nt_arrow_schema = system_field ''id'' # flds\<rparr>)"

definition build_edge_type :: "edge_decl \<Rightarrow> edge_type result" where
  "build_edge_type edge =
     r_bind (r_map prop_field (ed_properties edge)) (\<lambda>flds.
       let acc = fold add_edge_constraint (ed_constraints edge) empty_constraint_acc
       in Inr \<lparr>et_name = ed_name edge,
               et_from_type = ed_from_type edge,
               et_to_type = ed_to_type edge,
               et_cardinality = ed_cardinality edge,
               et_properties = collect_properties (ed_properties edge),
               et_unique_constraints = ca_unique acc,
               et_indices = ca_indices acc,
               et_blob_properties = collect_blob_properties (ed_properties edge),
               et_arrow_schema =
                 [system_field ''id'', system_field ''src'', system_field ''dst''] @ flds\<rparr>)"

text \<open>Pass 0: interfaces, a later declaration of a name replacing an earlier one.\<close>

fun add_interface ::
    "schema_decl \<Rightarrow> (string, interface_type) hmap \<Rightarrow> (string, interface_type) hmap" where
  "add_interface (DInterface i) m =
     hm_insert (id_name i)
       \<lparr>it_name = id_name i, it_properties = collect_properties (id_properties i)\<rparr> m"
| "add_interface _ m = m"

text \<open>Pass 1: node types, duplicates refused.\<close>

fun add_node ::
    "schema_decl \<Rightarrow> (string, node_type) hmap \<Rightarrow> (string, node_type) hmap result" where
  "add_node (DNode node) m =
     (if hm_contains m (nd_name node) then Inl (catalog_err (DuplicateNodeType (nd_name node)))
      else r_bind (build_node_type node) (\<lambda>nt. Inr (hm_insert (nd_name node) nt m)))"
| "add_node _ m = Inr m"

text \<open>Pass 2: edge types, endpoints and case-folded names checked.\<close>

fun add_edge ::
    "(string, node_type) hmap \<Rightarrow> schema_decl \<Rightarrow>
     (string, edge_type) hmap \<times> (string, string) hmap \<Rightarrow>
     ((string, edge_type) hmap \<times> (string, string) hmap) result" where
  "add_edge nodes (DEdge edge) (edges, index) =
     (if hm_contains edges (ed_name edge)
      then Inl (catalog_err (DuplicateEdgeType (ed_name edge)))
      else if \<not> hm_contains nodes (ed_from_type edge)
      then Inl (catalog_err (UnknownSourceType (ed_name edge) (ed_from_type edge)))
      else if \<not> hm_contains nodes (ed_to_type edge)
      then Inl (catalog_err (UnknownTargetType (ed_name edge) (ed_to_type edge)))
      else r_bind (build_edge_type edge) (\<lambda>et.
        let normalized = normalize_edge_name (ed_name edge) in
        case hm_get index normalized of
          Some existing \<Rightarrow>
            if existing \<noteq> ed_name edge
            then Inl (catalog_err (EdgeNameCollision (ed_name edge) existing))
            else Inr (hm_insert (ed_name edge) et edges, hm_insert normalized (ed_name edge) index)
        | None \<Rightarrow>
            Inr (hm_insert (ed_name edge) et edges, hm_insert normalized (ed_name edge) index)))"
| "add_edge nodes _ s = Inr s"

definition build_catalog :: "schema_file \<Rightarrow> catalog result" where
  "build_catalog schema =
     (let interfaces = fold add_interface (sf_declarations schema) hm_empty in
      r_bind (r_fold add_node (sf_declarations schema) hm_empty) (\<lambda>nodes.
      r_bind (r_fold (add_edge nodes) (sf_declarations schema) (hm_empty, hm_empty))
        (\<lambda>(edges, index).
           Inr \<lparr>cat_node_types = nodes, cat_edge_types = edges, cat_edge_name_index = index,
                cat_interfaces = interfaces, cat_identity = SourceUnbound\<rparr>)))"

section \<open>Well-formed catalogs\<close>

text \<open>Property maps have one entry per name and every type in them has an Arrow form.\<close>

definition props_wf :: "(string, prop_type) hmap \<Rightarrow> bool" where
  "props_wf m \<longleftrightarrow> hm_wf m \<and> (\<forall>p pt. hm_get m p = Some pt \<longrightarrow> to_arrow pt \<noteq> None)"

definition node_types_wf :: "(string, node_type) hmap \<Rightarrow> bool" where
  "node_types_wf m \<longleftrightarrow> hm_wf m \<and>
     (\<forall>k nt. hm_get m k = Some nt \<longrightarrow> nt_name nt = k \<and> props_wf (nt_properties nt))"

definition edge_types_wf ::
    "(string, node_type) hmap \<Rightarrow> (string, edge_type) hmap \<times> (string, string) hmap \<Rightarrow> bool" where
  "edge_types_wf nodes ei \<longleftrightarrow> hm_wf (fst ei) \<and>
     (\<forall>k et. hm_get (fst ei) k = Some et \<longrightarrow>
        et_name et = k \<and> props_wf (et_properties et) \<and>
        hm_contains nodes (et_from_type et) \<and> hm_contains nodes (et_to_type et) \<and>
        hm_get (snd ei) (normalize_edge_name k) = Some k) \<and>
     (\<forall>n k. hm_get (snd ei) n = Some k \<longrightarrow>
        hm_contains (fst ei) k \<and> normalize_edge_name k = n)"

definition catalog_wf :: "catalog \<Rightarrow> bool" where
  "catalog_wf cat \<longleftrightarrow> node_types_wf (cat_node_types cat) \<and>
     edge_types_wf (cat_node_types cat) (cat_edge_types cat, cat_edge_name_index cat)"

definition map_extends :: "('k, 'v) hmap \<Rightarrow> ('k, 'v) hmap \<Rightarrow> bool" where
  "map_extends m m' \<longleftrightarrow> (\<forall>k v. hm_get m k = Some v \<longrightarrow> hm_get m' k = Some v)"

lemma map_extends_refl [simp]: "map_extends m m"
  by (simp add: map_extends_def)

lemma map_extends_trans: "map_extends a b \<Longrightarrow> map_extends b c \<Longrightarrow> map_extends a c"
  by (simp add: map_extends_def)

lemma map_extends_insert: "\<not> hm_contains m k \<Longrightarrow> map_extends m (hm_insert k v m)"
  by (auto simp: map_extends_def hm_contains_def)

lemma r_map_prop_field:
  "r_map prop_field props = Inr flds \<Longrightarrow> p \<in> set props \<Longrightarrow> to_arrow (pd_type p) \<noteq> None"
  by (induction props arbitrary: flds) (auto simp: prop_field_def split: option.splits)

lemma collect_properties_wf:
  assumes "r_map prop_field props = Inr flds"
  shows "props_wf (collect_properties props)"
  unfolding props_wf_def
proof (intro conjI allI impI)
  show "hm_wf (collect_properties props)"
    unfolding collect_properties_def by (rule hm.invar_fold_insert) simp
next
  fix p pt
  assume "hm_get (collect_properties props) p = Some pt"
  then show "to_arrow pt \<noteq> None"
    unfolding collect_properties_def
    by (rule hm.get_fold_insert_all [rotated 3])
      (use r_map_prop_field [OF assms] in auto)
qed

lemma build_node_type_wf:
  "build_node_type node = Inr nt \<Longrightarrow>
     nt_name nt = nd_name node \<and> props_wf (nt_properties nt)"
  by (auto simp: build_node_type_def Let_def collect_properties_wf)

lemma build_edge_type_wf:
  "build_edge_type edge = Inr et \<Longrightarrow>
     et_name et = ed_name edge \<and> et_from_type et = ed_from_type edge \<and>
     et_to_type et = ed_to_type edge \<and> props_wf (et_properties et)"
  by (auto simp: build_edge_type_def Let_def collect_properties_wf)

lemma add_node_step:
  assumes "node_types_wf m" and "add_node d m = Inr m'"
  shows "node_types_wf m' \<and> map_extends m m'"
proof (cases d)
  case (DNode node)
  with assms(2) obtain nt where "build_node_type node = Inr nt"
    and "\<not> hm_contains m (nd_name node)" and "m' = hm_insert (nd_name node) nt m"
    by (auto split: if_splits)
  with assms(1) show ?thesis
    by (auto simp: node_types_wf_def map_extends_insert hm_wf_insert dest: build_node_type_wf)
qed (use assms in auto)

interpretation node_pass: checked_loop add_node node_types_wf map_extends
  by unfold_locales (auto dest: add_node_step intro: map_extends_trans)

definition edge_pass_le ::
    "(string, edge_type) hmap \<times> (string, string) hmap \<Rightarrow>
     (string, edge_type) hmap \<times> (string, string) hmap \<Rightarrow> bool" where
  "edge_pass_le s t \<longleftrightarrow> map_extends (fst s) (fst t) \<and> map_extends (snd s) (snd t)"

lemma add_edge_inserts:
  assumes "add_edge nodes (DEdge edge) (edges, index) = Inr s"
  shows "\<exists>et. build_edge_type edge = Inr et \<and> \<not> hm_contains edges (ed_name edge) \<and>
    hm_contains nodes (ed_from_type edge) \<and> hm_contains nodes (ed_to_type edge) \<and>
    (hm_get index (normalize_edge_name (ed_name edge)) = None \<or>
     hm_get index (normalize_edge_name (ed_name edge)) = Some (ed_name edge)) \<and>
    s = (hm_insert (ed_name edge) et edges,
         hm_insert (normalize_edge_name (ed_name edge)) (ed_name edge) index)"
  using assms
  by (cases "hm_get index (normalize_edge_name (ed_name edge))")
    (auto simp: Let_def split: if_splits)

lemma add_edge_step:
  assumes wf: "edge_types_wf nodes s" and step: "add_edge nodes d s = Inr s'"
  shows "edge_types_wf nodes s' \<and> edge_pass_le s s'"
proof (cases d)
  case (DEdge edge)
  obtain edges index where s: "s = (edges, index)" by (cases s)
  let ?n = "normalize_edge_name (ed_name edge)"
  obtain et where et: "build_edge_type edge = Inr et" and new: "\<not> hm_contains edges (ed_name edge)"
    and ends: "hm_contains nodes (ed_from_type edge)" "hm_contains nodes (ed_to_type edge)"
    and idx: "hm_get index ?n = None \<or> hm_get index ?n = Some (ed_name edge)"
    and s': "s' = (hm_insert (ed_name edge) et edges, hm_insert ?n (ed_name edge) index)"
    using add_edge_inserts step unfolding DEdge s by blast
  from idx wf new have none: "hm_get index ?n = None"
    by (auto simp: edge_types_wf_def s)
  have clash: "hm_get edges k = None" if "normalize_edge_name k = ?n" for k
    using wf none that by (cases "hm_get edges k") (fastforce simp: edge_types_wf_def s)+
  have "edge_types_wf nodes s'"
    using wf build_edge_type_wf [OF et] ends none new clash
    unfolding s' s edge_types_wf_def
    by (auto simp: hm_wf_insert hm_contains_def split: if_splits)
  moreover have "edge_pass_le s s'"
    using new none by (auto simp: s s' edge_pass_le_def map_extends_insert hm_contains_def)
  ultimately show ?thesis by blast
qed (use assms in \<open>auto simp: edge_pass_le_def\<close>)

interpretation edge_pass: checked_loop "add_edge nodes" "edge_types_wf nodes" edge_pass_le
  for nodes
  by unfold_locales
    (auto simp: edge_pass_le_def dest: add_edge_step intro: map_extends_trans)

lemma build_catalog_Inr:
  assumes "build_catalog schema = Inr cat"
  shows "r_fold add_node (sf_declarations schema) hm_empty = Inr (cat_node_types cat)"
    and "r_fold (add_edge (cat_node_types cat)) (sf_declarations schema) (hm_empty, hm_empty) =
      Inr (cat_edge_types cat, cat_edge_name_index cat)"
    and "cat_identity cat = SourceUnbound"
  using assms by (auto simp: build_catalog_def Let_def split: prod.splits)

lemma build_catalog_wf:
  assumes "build_catalog schema = Inr cat"
  shows "catalog_wf cat"
  unfolding catalog_wf_def
  using node_pass.loop_inv [OF build_catalog_Inr(1) [OF assms]]
    edge_pass.loop_inv [OF build_catalog_Inr(2) [OF assms]]
  by (simp add: node_types_wf_def edge_types_wf_def)

section \<open>What the builder accepts and what it builds\<close>

definition nodes_of :: "schema_decl list \<Rightarrow> node_decl list" where
  "nodes_of ds = List.map_filter (\<lambda>d. case d of DNode n \<Rightarrow> Some n | _ \<Rightarrow> None) ds"

definition edges_of :: "schema_decl list \<Rightarrow> edge_decl list" where
  "edges_of ds = List.map_filter (\<lambda>d. case d of DEdge e \<Rightarrow> Some e | _ \<Rightarrow> None) ds"

definition arrow_props :: "prop_decl list \<Rightarrow> bool" where
  "arrow_props ps = list_all (\<lambda>p. to_arrow (pd_type p) \<noteq> None) ps"

lemma nodes_of_simps [simp]:
  "nodes_of [] = []"
  "nodes_of (d # ds) = (case d of DNode n \<Rightarrow> n # nodes_of ds | _ \<Rightarrow> nodes_of ds)"
  by (simp_all add: nodes_of_def map_filter_simps split: schema_decl.splits)

lemma edges_of_simps [simp]:
  "edges_of [] = []"
  "edges_of (d # ds) = (case d of DEdge e \<Rightarrow> e # edges_of ds | _ \<Rightarrow> edges_of ds)"
  by (simp_all add: edges_of_def map_filter_simps split: schema_decl.splits)

lemma in_nodes_of: "n \<in> set (nodes_of ds) \<longleftrightarrow> DNode n \<in> set ds"
  by (induction ds) (auto split: schema_decl.splits)

lemma in_edges_of: "e \<in> set (edges_of ds) \<longleftrightarrow> DEdge e \<in> set ds"
  by (induction ds) (auto split: schema_decl.splits)

lemma r_map_prop_field_ok: "is_ok (r_map prop_field ps) \<longleftrightarrow> arrow_props ps"
  by (induction ps) (auto simp: arrow_props_def prop_field_def is_ok_iff split: option.splits)

lemma build_node_type_ok: "is_ok (build_node_type n) \<longleftrightarrow> arrow_props (nd_properties n)"
  unfolding r_map_prop_field_ok [symmetric]
  by (auto simp: build_node_type_def Let_def is_ok_iff)

lemma build_edge_type_ok: "is_ok (build_edge_type e) \<longleftrightarrow> arrow_props (ed_properties e)"
  unfolding r_map_prop_field_ok [symmetric]
  by (auto simp: build_edge_type_def Let_def is_ok_iff)

lemma node_pass_ok_iff:
  "is_ok (r_fold add_node ds m) \<longleftrightarrow>
     distinct (map nd_name (nodes_of ds)) \<and>
     (\<forall>n \<in> set (nodes_of ds). \<not> hm_contains m (nd_name n) \<and> arrow_props (nd_properties n))"
proof (induction ds arbitrary: m)
  case Nil
  then show ?case by (simp add: is_ok_iff)
next
  case (Cons d ds)
  show ?case
  proof (cases d)
    case (DNode n)
    show ?thesis
    proof (cases "hm_contains m (nd_name n) \<or> \<not> arrow_props (nd_properties n)")
      case True
      then have "\<not> is_ok (add_node d m)"
        using build_node_type_ok [of n] by (auto simp: DNode is_ok_iff)
      with True show ?thesis by (auto simp: DNode is_ok_iff simp del: add_node.simps)
    next
      case False
      then obtain nt where "build_node_type n = Inr nt"
        using build_node_type_ok [of n] by (auto simp: is_ok_iff)
      with False show ?thesis
        by (auto simp: DNode Cons.IH hm_contains_def image_iff split: if_splits)
    qed
  qed (use Cons.IH in auto)
qed

lemma node_pass_get:
  assumes "r_fold add_node ds m = Inr m'"
  shows "hm_contains m' k \<longleftrightarrow> hm_contains m k \<or> k \<in> nd_name ` set (nodes_of ds)"
  using assms
proof (induction ds arbitrary: m)
  case (Cons d ds)
  then obtain m1 where step: "add_node d m = Inr m1" and rest: "r_fold add_node ds m1 = Inr m'"
    by auto
  show ?case
    using step Cons.IH [OF rest]
    by (cases d) (auto simp: hm_contains_def split: if_splits)
qed simp

lemma add_edge_ok_iff:
  assumes "edge_types_wf nodes s"
  shows "is_ok (add_edge nodes (DEdge e) s) \<longleftrightarrow>
    hm_contains nodes (ed_from_type e) \<and> hm_contains nodes (ed_to_type e) \<and>
    arrow_props (ed_properties e) \<and>
    hm_get (snd s) (normalize_edge_name (ed_name e)) = None" (is "?L = ?R")
proof
  assume ?L
  then obtain s' where s': "add_edge nodes (DEdge e) (fst s, snd s) = Inr s'"
    by (auto simp: is_ok_iff)
  have "is_ok (build_edge_type e)" using add_edge_inserts [OF s'] by (auto simp: is_ok_iff)
  moreover have "hm_get (snd s) (normalize_edge_name (ed_name e)) \<noteq> Some (ed_name e)"
    using add_edge_inserts [OF s'] assms by (auto simp: edge_types_wf_def)
  ultimately show ?R
    using add_edge_inserts [OF s'] build_edge_type_ok by auto
next
  assume R: ?R
  then obtain et where "build_edge_type e = Inr et"
    using build_edge_type_ok [of e] by (auto simp: is_ok_iff)
  moreover have "\<not> hm_contains (fst s) (ed_name e)"
    using R assms by (force simp: edge_types_wf_def hm_contains_def)
  ultimately show ?L
    using R by (cases s) (auto simp: is_ok_iff Let_def)
qed

lemma edge_pass_ok_iff:
  assumes "edge_types_wf nodes s"
  shows "is_ok (r_fold (add_edge nodes) ds s) \<longleftrightarrow>
    distinct (map (normalize_edge_name \<circ> ed_name) (edges_of ds)) \<and>
    (\<forall>e \<in> set (edges_of ds). hm_contains nodes (ed_from_type e) \<and>
       hm_contains nodes (ed_to_type e) \<and> arrow_props (ed_properties e) \<and>
       hm_get (snd s) (normalize_edge_name (ed_name e)) = None)"
  using assms
proof (induction ds arbitrary: s)
  case Nil
  then show ?case by (simp add: is_ok_iff)
next
  case (Cons d ds)
  show ?case
  proof (cases d)
    case (DEdge e)
    show ?thesis
    proof (cases "add_edge nodes d s")
      case (Inl x)
      then have "\<not> is_ok (add_edge nodes d s)" by simp
      with Inl show ?thesis
        using add_edge_ok_iff [OF Cons.prems, of e]
        by (auto simp: DEdge is_ok_iff simp del: add_edge.simps)
    next
      case (Inr s')
      have ok: "is_ok (add_edge nodes (DEdge e) s)" using Inr by (simp add: DEdge)
      have wf: "edge_types_wf nodes s'" using add_edge_step [OF Cons.prems Inr] by blast
      have "snd s' = hm_insert (normalize_edge_name (ed_name e)) (ed_name e) (snd s)"
        using add_edge_inserts [of nodes e "fst s" "snd s" s'] Inr by (auto simp: DEdge)
      moreover have "r_fold (add_edge nodes) (DEdge e # ds) s = r_fold (add_edge nodes) ds s'"
        using Inr by (simp add: DEdge del: add_edge.simps)
      ultimately show ?thesis
        using ok add_edge_ok_iff [OF Cons.prems, of e]
        unfolding DEdge Cons.IH [OF wf] edges_of_simps
        by (auto simp: image_iff Cons.IH [OF wf] simp del: add_edge.simps r_fold.simps split: if_splits)
    qed
  qed (use Cons in auto)
qed

text \<open>
  The builder accepts a schema exactly when node names are pairwise distinct, edge names
  are pairwise distinct after case folding, both endpoints of every edge are declared node
  types, and every property type has an Arrow form. There is no other way for it to fail.
\<close>

theorem build_catalog_ok_iff:
  "is_ok (build_catalog schema) \<longleftrightarrow>
     (let ns = nodes_of (sf_declarations schema); es = edges_of (sf_declarations schema) in
      distinct (map nd_name ns) \<and> list_all (\<lambda>n. arrow_props (nd_properties n)) ns \<and>
      distinct (map (normalize_edge_name \<circ> ed_name) es) \<and>
      list_all (\<lambda>e. ed_from_type e \<in> nd_name ` set ns \<and> ed_to_type e \<in> nd_name ` set ns \<and>
                   arrow_props (ed_properties e)) es)"
proof (cases "r_fold add_node (sf_declarations schema) hm_empty")
  case (Inl x)
  then have "\<not> is_ok (r_fold add_node (sf_declarations schema) hm_empty)" by simp
  then have "\<not> (distinct (map nd_name (nodes_of (sf_declarations schema))) \<and>
    list_all (\<lambda>n. arrow_props (nd_properties n)) (nodes_of (sf_declarations schema)))"
    unfolding node_pass_ok_iff by (auto simp: hm_contains_def list_all_iff)
  with Inl show ?thesis by (auto simp: build_catalog_def Let_def)
next
  case (Inr nodes)
  then have "is_ok (r_fold add_node (sf_declarations schema) hm_empty)" by simp
  then have ns: "distinct (map nd_name (nodes_of (sf_declarations schema)))"
      "list_all (\<lambda>n. arrow_props (nd_properties n)) (nodes_of (sf_declarations schema))"
    unfolding node_pass_ok_iff by (auto simp: list_all_iff)
  have wf: "edge_types_wf nodes (hm_empty, hm_empty)" by (simp add: edge_types_wf_def)
  have "is_ok (build_catalog schema) \<longleftrightarrow>
    is_ok (r_fold (add_edge nodes) (sf_declarations schema) (hm_empty, hm_empty))"
    by (auto simp: build_catalog_def Let_def Inr is_ok_iff)
  then show ?thesis
    using ns node_pass_get [OF Inr]
    by (simp add: edge_pass_ok_iff [OF wf] Let_def list_all_iff hm_contains_def [of hm_empty])
qed

end
