(* ===== verification/Ordered_Map.thy ===== *)
theory Ordered_Map
  imports Types "HOL-Library.Product_Lexorder" "HOL-Library.Multiset"
begin

text \<open>
  Rust's \<^verbatim>\<open>BTreeMap\<close> as an association list in strictly ascending key order, and the facts
  about \<^verbatim>\<open>sort\<close>, \<^verbatim>\<open>sort_by\<close> and \<^verbatim>\<open>dedup\<close> that the canonical schema forms rest on. Rust
  compares strings bytewise, which is the lexicographic order of HOL's eight-bit characters.
  The map is an instance of the same interface as the hash map of \<open>Prelude\<close>, so its clients
  use the same laws; in addition it promises the order its iteration visits the keys in.
\<close>

section \<open>Ordered maps\<close>

type_synonym ('k, 'v) bmap = "('k \<times> 'v) list"

definition bm_empty :: "('k, 'v) bmap" where
  "bm_empty = []"

definition bm_get :: "('k, 'v) bmap \<Rightarrow> 'k \<Rightarrow> 'v option" where
  "bm_get m k = map_of m k"

fun bm_insert :: "'k::linorder \<Rightarrow> 'v \<Rightarrow> ('k, 'v) bmap \<Rightarrow> ('k, 'v) bmap" where
  "bm_insert k v [] = [(k, v)]"
| "bm_insert k v ((k', v') # m) =
     (if k < k' then (k, v) # (k', v') # m
      else if k = k' then (k, v) # m
      else (k', v') # bm_insert k v m)"

definition bm_remove :: "'k \<Rightarrow> ('k, 'v) bmap \<Rightarrow> ('k, 'v) bmap" where
  "bm_remove k m = filter (\<lambda>kv. fst kv \<noteq> k) m"

definition bm_keys :: "('k, 'v) bmap \<Rightarrow> 'k list" where
  "bm_keys m = map fst m"

definition bm_contains :: "('k, 'v) bmap \<Rightarrow> 'k \<Rightarrow> bool" where
  "bm_contains m k = (bm_get m k \<noteq> None)"

abbreviation strictly_sorted :: "'a::linorder list \<Rightarrow> bool" where
  "strictly_sorted \<equiv> sorted_wrt (<)"

definition bm_wf :: "('k::linorder, 'v) bmap \<Rightarrow> bool" where
  "bm_wf m \<longleftrightarrow> strictly_sorted (bm_keys m)"

lemma strictly_sorted_distinct [simp]: "strictly_sorted xs \<Longrightarrow> distinct xs"
  by (simp add: strict_sorted_iff)

lemma strictly_sorted_eqI:
  "strictly_sorted xs \<Longrightarrow> strictly_sorted ys \<Longrightarrow> set xs = set ys \<Longrightarrow> xs = ys"
  by (rule strict_sorted_equal) auto

lemma set_keys_insert [simp]:
  "set (bm_keys (bm_insert k v m)) = insert k (set (bm_keys m))"
  by (induction k v m rule: bm_insert.induct) (auto simp: bm_keys_def)

lemma bm_wf_empty [simp]: "bm_wf bm_empty" "bm_wf []"
  by (simp_all add: bm_wf_def bm_keys_def bm_empty_def)

lemma bm_wf_insert [simp]: "bm_wf m \<Longrightarrow> bm_wf (bm_insert k v m)"
proof (induction k v m rule: bm_insert.induct)
  case (1 k v)
  then show ?case by (simp add: bm_wf_def bm_keys_def)
next
  case (2 k v k' v' m)
  have "set (map fst (bm_insert k v m)) = insert k (set (map fst m))"
    using set_keys_insert [of k v m] by (simp only: bm_keys_def)
  with 2 show ?case by (fastforce simp: bm_wf_def bm_keys_def)
qed

lemma bm_wf_remove [simp]: "bm_wf m \<Longrightarrow> bm_wf (bm_remove k m)"
  by (induction m) (auto simp: bm_wf_def bm_keys_def bm_remove_def)

text \<open>Reading back an insertion needs the order: the insertion stops at the first larger key.\<close>

lemma bm_get_insert:
  "bm_wf m \<Longrightarrow> bm_get (bm_insert k v m) k' = (if k' = k then Some v else bm_get m k')"
proof (induction k v m rule: bm_insert.induct)
  case (2 k v k1 v1 m)
  from "2.prems" have "bm_wf m" and "\<forall>k2 \<in> set (map fst m). k1 < k2"
    by (auto simp: bm_wf_def bm_keys_def)
  with 2 show ?case by (auto simp: bm_get_def)
qed (simp add: bm_get_def)

lemma bm_get_remove [simp]:
  "bm_get (bm_remove k m) k' = (if k' = k then None else bm_get m k')"
  by (induction m) (auto simp: bm_get_def bm_remove_def)

lemma bm_get_empty [simp]: "bm_get bm_empty k = None" "bm_get [] k = None"
  by (simp_all add: bm_get_def bm_empty_def)

lemma bm_keys_get: "k \<in> set (bm_keys m) \<longleftrightarrow> bm_get m k \<noteq> None"
  by (auto simp: bm_keys_def bm_get_def map_of_eq_None_iff image_iff)

lemma bm_get_in_set: "bm_get m k = Some v \<Longrightarrow> (k, v) \<in> set m"
  by (simp add: bm_get_def map_of_SomeD)

lemma bm_in_set_get: "bm_wf m \<Longrightarrow> (k, v) \<in> set m \<Longrightarrow> bm_get m k = Some v"
  by (auto simp: bm_wf_def bm_keys_def bm_get_def dest: strictly_sorted_distinct)

text \<open>An ordered map is a keyed store whose iteration order is a function of its key set.\<close>

locale ordered_store = keyed_store empty get insert remove keys invar
  for empty :: "'m" and get :: "'m \<Rightarrow> 'k::linorder \<Rightarrow> 'v option" and insert remove keys invar +
  assumes keys_ascending: "invar m \<Longrightarrow> sorted_wrt (<) (keys m)"
begin

lemma keys_determined:
  "invar m \<Longrightarrow> invar m' \<Longrightarrow> (\<And>k. get m k = None \<longleftrightarrow> get m' k = None) \<Longrightarrow> keys m = keys m'"
  by (rule strictly_sorted_eqI) (auto simp: keys_get keys_ascending)

lemma keys_fold_insert:
  "invar m \<Longrightarrow>
     set (keys (fold (\<lambda>(k, v). insert k v) kvs m)) = set (keys m) \<union> fst ` set kvs"
  by (auto simp: keys_get get_fold_insert image_iff map_of_eq_None_iff split: option.splits
      dest!: map_of_SomeD) (force dest: map_of_SomeD)+

text \<open>The iteration order does not depend on the order of the insertions.\<close>

lemma keys_insertion_order:
  "invar m \<Longrightarrow> fst ` set kvs = fst ` set kvs' \<Longrightarrow>
     keys (fold (\<lambda>(k, v). insert k v) kvs m) = keys (fold (\<lambda>(k, v). insert k v) kvs' m)"
  by (rule strictly_sorted_eqI)
    (simp_all add: keys_ascending invar_fold_insert keys_fold_insert)

end

interpretation bm: ordered_store bm_empty bm_get bm_insert bm_remove bm_keys bm_wf
  by unfold_locales (auto simp: bm_get_insert bm_keys_get, auto simp: bm_wf_def)

text \<open>
  The values of a map rebuilt entry by entry (\<^verbatim>\<open>values_mut\<close>): the keys and the order stay.
\<close>

lemma bm_wf_same_keys: "bm_wf m \<Longrightarrow> map fst m' = map fst m \<Longrightarrow> bm_wf m'"
  by (simp add: bm_wf_def bm_keys_def)

section \<open>Sorting and removing adjacent duplicates\<close>

text \<open>
  \<^verbatim>\<open>v.sort(); v.dedup()\<close>: strictly ascending, with the elements it had.
\<close>

definition sort_dedup :: "'a::linorder list \<Rightarrow> 'a list" where
  "sort_dedup xs = remdups_adj (sort xs)"

lemma set_sort_dedup [simp]: "set (sort_dedup xs) = set xs"
  by (simp add: sort_dedup_def)

lemma strictly_sorted_remdups_adj: "sorted xs \<Longrightarrow> strictly_sorted (remdups_adj xs)"
  by (induction xs rule: remdups_adj.induct) (auto simp: order.strict_iff_order)

lemma strictly_sorted_sort_dedup [simp]: "strictly_sorted (sort_dedup xs)"
  by (simp add: sort_dedup_def strictly_sorted_remdups_adj)

lemma sort_dedup_cong: "set xs = set ys \<Longrightarrow> sort_dedup xs = sort_dedup ys"
  by (rule strictly_sorted_eqI) simp_all

lemma sort_dedup_id: "strictly_sorted xs \<Longrightarrow> sort_dedup xs = xs"
  by (rule strictly_sorted_eqI) simp_all

lemma distinct_singleton: "distinct xs \<Longrightarrow> set xs = {k} \<Longrightarrow> xs = [k]"
  by (cases xs) (auto, metis insertI1 set_empty singletonD subset_singletonD)

lemma filter_key_singleton:
  assumes "distinct (map f xs)" and "k \<in> set xs"
  shows "filter (\<lambda>x. f k = f x) xs = [k]"
proof (rule distinct_singleton)
  show "distinct (filter (\<lambda>x. f k = f x) xs)" using assms(1) by (simp add: distinct_map)
  show "set (filter (\<lambda>x. f k = f x) xs) = {k}"
    using assms by (auto simp: distinct_map inj_on_def)
qed

text \<open>A stable sort by a key without repetitions depends on the elements only.\<close>

lemma sort_key_perm_eq:
  assumes "mset xs = mset ys" and "distinct (map f xs)"
  shows "sort_key f xs = sort_key f ys"
proof (rule properties_for_sort_key)
  show "mset (sort_key f ys) = mset xs" using assms(1) by simp
  fix k
  assume k: "k \<in> set (sort_key f ys)"
  have "distinct (map f (sort_key f ys))"
    using assms by (metis mset_map mset_sort mset_eq_imp_distinct_iff)
  moreover have "k \<in> set xs" using k mset_eq_setD [OF assms(1)] by simp
  ultimately show "filter (\<lambda>x. f k = f x) (sort_key f ys) = filter (\<lambda>x. f k = f x) xs"
    using k assms(2) by (simp add: filter_key_singleton del: set_sort)
qed simp

lemma sort_key_id: "sorted (map f xs) \<Longrightarrow> sort_key f xs = xs"
  by (rule properties_for_sort_key) simp_all

lemma strictly_sorted_sort_key:
  "distinct (map f xs) \<Longrightarrow> strictly_sorted (map f (sort_key f xs))"
proof -
  assume "distinct (map f xs)"
  then have "distinct (map f (sort_key f xs))"
    by (metis mset_map mset_sort mset_eq_imp_distinct_iff)
  then show ?thesis by (simp add: strict_sorted_iff)
qed

text \<open>\<^verbatim>\<open>windows(2).any(|pair| pair[0] >= pair[1])\<close> looks at neighbours only.\<close>

fun any_window :: "('a \<Rightarrow> 'a \<Rightarrow> bool) \<Rightarrow> 'a list \<Rightarrow> bool" where
  "any_window p (x # y # zs) = (p x y \<or> any_window p (y # zs))"
| "any_window p _ = False"

lemma any_window_ge_iff: "any_window (\<ge>) xs \<longleftrightarrow> \<not> strictly_sorted (xs :: 'a::linorder list)"
proof (induction "(\<ge>) :: 'a \<Rightarrow> 'a \<Rightarrow> bool" xs rule: any_window.induct)
  case (1 x y zs)
  have "strictly_sorted (x # y # zs) \<longleftrightarrow> x < y \<and> strictly_sorted (y # zs)"
    by (auto dest: order.strict_trans)
  with 1 show ?case by (auto simp del: sorted_wrt.simps)
qed simp_all

lemma any_window_eq_sorted:
  "sorted (map f xs) \<Longrightarrow> any_window (\<lambda>x y. f x = f y) xs \<longleftrightarrow> \<not> distinct (map f xs)"
proof (induction "\<lambda>x y. f x = f y" xs rule: any_window.induct)
  case (1 x y zs)
  then show ?case by (fastforce simp: image_iff)
qed simp_all

end
