(* ===== verification/Schema_Shape.thy ===== *)
theory Schema_Shape
  imports Schema_IR Ordered_Map
begin

text \<open>
  The canonical, identity-free meaning of a schema file
  (\<^verbatim>\<open>omnigraph-compiler/src/catalog/schema_shape.rs\<close>): declarations, properties, annotations
  and constraints in one deterministic order, with the injected interface properties rebuilt
  from every contributing interface. \<^verbatim>\<open>serde_json\<close>, \<^verbatim>\<open>ulid\<close> and the decimal text of a float
  are not part of the sources; they are the record \<open>codec\<close>.
\<close>

section \<open>Data\<close>

record shape_property_ref =
  spr_owner_name :: string
  spr_property_name :: string

record embed_source_shape =
  ess_property_name :: string
  ess_model :: "string option"

record property_shape =
  ps_name :: string
  ps_rename_from :: "string option"
  ps_prop_type :: prop_type
  ps_annotations :: "annotation list"
  ps_property_constraints :: "property_constraint_shape list"
  ps_embed_source :: "embed_source_shape option"
  ps_declared_directly :: bool
  ps_satisfies_interface_properties :: "shape_property_ref list"

record interface_shape =
  is_name :: string
  is_properties :: "property_shape list"

record node_shape =
  ns_name :: string
  ns_rename_from :: "string option"
  ns_annotations :: "annotation list"
  ns_implements :: "string list"
  ns_properties :: "property_shape list"
  ns_constraints :: "constraint list"

record edge_shape =
  es_name :: string
  es_rename_from :: "string option"
  es_from_type :: string
  es_to_type :: string
  es_cardinality :: cardinality
  es_annotations :: "annotation list"
  es_properties :: "property_shape list"
  es_constraints :: "constraint list"

record schema_shape =
  ss_interfaces :: "interface_shape list"
  ss_nodes :: "node_shape list"
  ss_edges :: "edge_shape list"

text \<open>
  \<open>jc_annotation\<close> and \<open>jc_property\<close> are \<^verbatim>\<open>serde_json::to_string\<close> on an annotation (where the
  source panics on a failure) and on a property shape; \<open>jc_f64\<close> is \<^verbatim>\<open>{:?}\<close> on a float;
  \<open>jc_ulid\<close> reads a text as a ULID (\<^verbatim>\<open>Ulid::from_string\<close>) and gives its canonical text.
\<close>

record codec =
  jc_annotation :: "annotation \<Rightarrow> string option"
  jc_property :: "property_shape \<Rightarrow> string option"
  jc_f64 :: "f64 \<Rightarrow> string"
  jc_ulid :: "string \<Rightarrow> string option"

datatype shape_error =
    RenameHint rename_error
  | SerializeProperty
  | SerializeAnnotationPanic
  | ShapeDuplicateProperty string
  | MissingInterface string string string
  | MissingInterfaceProperty string string string string
  | NoContributor string string
  | IncompatibleSemantics string string
  | ShapeDuplicateInterface
  | ShapeDuplicateNode
  | ShapeDuplicateEdge string
  | UnresolvedEndpoint string
  | UnknownInterface string string
  | UnresolvedContribution string string
  | UnknownEmbedSource string string string

section \<open>Orders\<close>

text \<open>The derived \<^verbatim>\<open>Ord\<close> of a constraint tag is its declaration order.\<close>

fun constraint_rank :: "property_constraint_shape \<Rightarrow> nat" where
  "constraint_rank PCKey = 0"
| "constraint_rank PCUnique = 1"
| "constraint_rank PCIndex = 2"

instantiation property_constraint_shape :: linorder
begin

definition less_eq_property_constraint_shape ::
    "property_constraint_shape \<Rightarrow> property_constraint_shape \<Rightarrow> bool" where
  "less_eq_property_constraint_shape a b = (constraint_rank a \<le> constraint_rank b)"

definition less_property_constraint_shape ::
    "property_constraint_shape \<Rightarrow> property_constraint_shape \<Rightarrow> bool" where
  "less_property_constraint_shape a b = (constraint_rank a < constraint_rank b)"

instance
proof
  fix a b c :: property_constraint_shape
  show "a \<le> b \<Longrightarrow> b \<le> a \<Longrightarrow> a = b"
    by (cases a; cases b) (auto simp: less_eq_property_constraint_shape_def)
qed (auto simp: less_eq_property_constraint_shape_def less_property_constraint_shape_def)

end

text \<open>The derived \<^verbatim>\<open>Ord\<close> of a record compares its fields in declaration order.\<close>

definition origin_key :: "interface_property_origin \<Rightarrow> string \<times> string" where
  "origin_key o' = (ipo_interface_name o', ipo_property_name o')"

definition shape_ref_key :: "shape_property_ref \<Rightarrow> string \<times> string" where
  "shape_ref_key r = (spr_owner_name r, spr_property_name r)"

section \<open>Canonical parts\<close>

definition is_typed_annotation :: "string \<Rightarrow> bool" where
  "is_typed_annotation n \<longleftrightarrow>
     n = ''rename_from'' \<or> n = ''embed'' \<or> n = ''key'' \<or> n = ''unique'' \<or> n = ''index''"

text \<open>
  The sort serializes what it compares: with two annotations or more each is compared, and one
  that does not serialize is a panic; a single one is never compared.
\<close>

definition annotation_text :: "codec \<Rightarrow> annotation \<Rightarrow> string" where
  "annotation_text jc a = (case jc_annotation jc a of Some t \<Rightarrow> t | None \<Rightarrow> [])"

definition canonical_annotations :: "codec \<Rightarrow> annotation list \<Rightarrow> shape_error + annotation list" where
  "canonical_annotations jc anns =
     (let result = filter (\<lambda>a. \<not> is_typed_annotation (ann_name a)) anns in
      r_bind (guard (length result < 2 \<or> list_all (\<lambda>a. jc_annotation jc a \<noteq> None) result)
                SerializeAnnotationPanic) (\<lambda>_.
        Inr (remdups_adj (sort_key (annotation_text jc) result))))"

text \<open>\<^verbatim>\<open>{:?}\<close> on an optional bound: the derived form around the decimal text.\<close>

definition show_i64 :: "i64 \<Rightarrow> string" where
  "show_i64 w = (if sint w < 0 then ''-'' @ show_nat (nat (- sint w)) else show_nat (nat (sint w)))"

fun debug_bound :: "codec \<Rightarrow> constraint_bound option \<Rightarrow> string" where
  "debug_bound jc None = ''None''"
| "debug_bound jc (Some (BInteger i)) = ''Some(Integer('' @ show_i64 i @ ''))''"
| "debug_bound jc (Some (BFloat f)) = ''Some(Float('' @ jc_f64 jc f @ ''))''"

fun constraint_sort_key :: "codec \<Rightarrow> constraint \<Rightarrow> string" where
  "constraint_sort_key jc (Key columns) = ''key:'' @ join '','' columns"
| "constraint_sort_key jc (Unique columns) = ''unique:'' @ join '','' columns"
| "constraint_sort_key jc (Index columns) = ''index:'' @ join '','' columns"
| "constraint_sort_key jc (Range p mn mx) =
     ''range:'' @ p @ '':'' @ debug_bound jc mn @ '':'' @ debug_bound jc mx"
| "constraint_sort_key jc (Check p pattern) = ''check:'' @ p @ '':'' @ pattern"

fun normalize_constraint :: "constraint \<Rightarrow> constraint" where
  "normalize_constraint (Key columns) = Key (sort_dedup columns)"
| "normalize_constraint (Unique columns) = Unique (sort_dedup columns)"
| "normalize_constraint (Index columns) = Index (sort_dedup columns)"
| "normalize_constraint c = c"

definition canonical_constraints :: "codec \<Rightarrow> constraint list \<Rightarrow> constraint list" where
  "canonical_constraints jc cs =
     remdups_adj (sort_key (constraint_sort_key jc) (map normalize_constraint cs))"

definition annotation_constraint :: "annotation \<Rightarrow> property_constraint_shape option" where
  "annotation_constraint a =
     (if ann_name a = ''key'' \<and> ann_value a = None then Some PCKey
      else if ann_name a = ''unique'' \<and> ann_value a = None then Some PCUnique
      else if ann_name a = ''index'' \<and> ann_value a = None then Some PCIndex
      else None)"

definition embed_annotation :: "annotation list \<Rightarrow> embed_source_shape option" where
  "embed_annotation anns =
     (case find (\<lambda>a. ann_name a = ''embed'') anns of
        None \<Rightarrow> None
      | Some a \<Rightarrow>
          map_option (\<lambda>src. \<lparr>ess_property_name = src, ess_model = hm_get (ann_kwargs a) ''model''\<rparr>)
            (ann_value a))"

definition rename_hint :: "annotation list \<Rightarrow> string \<Rightarrow> shape_error + string option" where
  "rename_hint anns target =
     (case rename_from_annotation anns target of
        Inl e \<Rightarrow> Inl (RenameHint e)
      | Inr h \<Rightarrow> Inr h)"

definition property_shape_of :: "codec \<Rightarrow> prop_decl \<Rightarrow> bool \<Rightarrow> shape_error + property_shape" where
  "property_shape_of jc p direct =
     r_bind (rename_hint (pd_annotations p) (''property '' @ pd_name p)) (\<lambda>hint.
     r_bind (canonical_annotations jc (pd_annotations p)) (\<lambda>annotations. Inr
       \<lparr>ps_name = pd_name p,
        ps_rename_from = hint,
        ps_prop_type =
          (pd_type p)\<lparr>pt_enum_values := map_option sort_dedup (pt_enum_values (pd_type p))\<rparr>,
        ps_annotations = annotations,
        ps_property_constraints =
          sort_dedup (List.map_filter annotation_constraint (pd_annotations p)),
        ps_embed_source = embed_annotation (pd_annotations p),
        ps_declared_directly = direct,
        ps_satisfies_interface_properties = []\<rparr>))"

text \<open>The only provenance the source passes is that of a plain declaration.\<close>

definition canonical_properties ::
    "codec \<Rightarrow> string \<Rightarrow> prop_decl list \<Rightarrow> (prop_decl \<Rightarrow> bool \<times> shape_property_ref list) \<Rightarrow>
       shape_error + property_shape list" where
  "canonical_properties jc owner props provenance =
     r_bind (r_map (\<lambda>p. let (direct, sats) = provenance p in
              r_bind (property_shape_of jc p direct) (\<lambda>s.
                Inr (s\<lparr>ps_satisfies_interface_properties := sats\<rparr>))) props) (\<lambda>shapes.
       let result = sort_key ps_name shapes in
       if any_window (\<lambda>a b. ps_name a = ps_name b) result
       then Inl (ShapeDuplicateProperty owner)
       else Inr result)"

definition plain_provenance :: "prop_decl \<Rightarrow> bool \<times> shape_property_ref list" where
  "plain_provenance p = (True, [])"

definition property_semantic_key :: "codec \<Rightarrow> prop_decl \<Rightarrow> shape_error + string" where
  "property_semantic_key jc p =
     r_bind (property_shape_of jc p False) (\<lambda>s. ok_or (jc_property jc s) SerializeProperty)"

definition contributed_property ::
    "string \<Rightarrow> string \<Rightarrow> (string, interface_decl) hmap \<Rightarrow> interface_property_origin \<Rightarrow>
       shape_error + prop_decl" where
  "contributed_property node prop interfaces c =
     r_bind (ok_or (hm_get interfaces (ipo_interface_name c))
               (MissingInterface node prop (ipo_interface_name c))) (\<lambda>i.
       ok_or (find (\<lambda>p. pd_name p = ipo_property_name c) (id_properties i))
         (MissingInterfaceProperty node prop (ipo_interface_name c) (ipo_property_name c)))"

definition canonical_interface_property ::
    "codec \<Rightarrow> string \<Rightarrow> string \<Rightarrow> interface_property_origin list \<Rightarrow>
       (string, interface_decl) hmap \<Rightarrow> shape_error + prop_decl" where
  "canonical_interface_property jc node prop contributions interfaces =
     r_bind (r_map (contributed_property node prop interfaces) contributions) (\<lambda>candidates.
     case candidates of
       [] \<Rightarrow> Inl (NoContributor node prop)
     | first # rest \<Rightarrow>
         r_bind (property_semantic_key jc first) (\<lambda>semantics.
         r_bind (r_each (\<lambda>c. r_bind (property_semantic_key jc c) (\<lambda>k.
                   guard (k = semantics) (IncompatibleSemantics node prop))) rest) (\<lambda>_.
         Inr first)))"

section \<open>Compiling a schema file\<close>

definition interfaces_by_name :: "schema_decl list \<Rightarrow> (string, interface_decl) hmap" where
  "interfaces_by_name decls =
     fold (\<lambda>d m. case d of DInterface i \<Rightarrow> hm_insert (id_name i) i m | _ \<Rightarrow> m) decls hm_empty"

definition effective_property ::
    "codec \<Rightarrow> (string, interface_decl) hmap \<Rightarrow> node_decl \<Rightarrow> prop_decl \<Rightarrow>
       shape_error + property_shape" where
  "effective_property jc interfaces node p =
     (let origin = hm_get (nd_property_origins node) (pd_name p);
          direct = (case origin of None \<Rightarrow> True | Some o' \<Rightarrow> npo_declared_directly o');
          contributions =
            remdups_adj (sort_key origin_key
              (case origin of None \<Rightarrow> [] | Some o' \<Rightarrow> npo_interface_properties o'))
      in r_bind (if direct \<or> contributions = [] then Inr p
                 else canonical_interface_property jc (nd_name node) (pd_name p) contributions
                        interfaces) (\<lambda>source.
         r_bind (property_shape_of jc source direct) (\<lambda>s.
           Inr (s\<lparr>ps_satisfies_interface_properties :=
             map (\<lambda>c. \<lparr>spr_owner_name = ipo_interface_name c,
                        spr_property_name = ipo_property_name c\<rparr>) contributions\<rparr>))))"

fun relation_constraint :: "string \<Rightarrow> property_constraint_shape \<Rightarrow> constraint" where
  "relation_constraint p PCKey = Key [p]"
| "relation_constraint p PCUnique = Unique [p]"
| "relation_constraint p PCIndex = Index [p]"

definition injected_constraints :: "property_shape list \<Rightarrow> constraint list" where
  "injected_constraints props =
     concat (map (\<lambda>p. if ps_declared_directly p then []
                       else map (relation_constraint (ps_name p)) (ps_property_constraints p)) props)"

definition node_shape_of ::
    "codec \<Rightarrow> (string, interface_decl) hmap \<Rightarrow> node_decl \<Rightarrow> shape_error + node_shape" where
  "node_shape_of jc interfaces node =
     r_bind (r_map (effective_property jc interfaces node) (nd_properties node)) (\<lambda>shapes.
     let properties = sort_key ps_name shapes;
         constraints =
           (if nd_property_origins node = [] then nd_constraints node
            else nd_source_constraints node) @ injected_constraints properties
     in r_bind (rename_hint (nd_annotations node) (''node '' @ nd_name node)) (\<lambda>hint.
        r_bind (canonical_annotations jc (nd_annotations node)) (\<lambda>annotations.
        Inr \<lparr>ns_name = nd_name node,
             ns_rename_from = hint,
             ns_annotations = annotations,
             ns_implements = sort_dedup (nd_implements node),
             ns_properties = properties,
             ns_constraints = canonical_constraints jc constraints\<rparr>)))"

definition edge_shape_of :: "codec \<Rightarrow> edge_decl \<Rightarrow> shape_error + edge_shape" where
  "edge_shape_of jc edge =
     r_bind (rename_hint (ed_annotations edge) (''edge '' @ ed_name edge)) (\<lambda>hint.
     r_bind (canonical_annotations jc (ed_annotations edge)) (\<lambda>annotations.
     r_bind (canonical_properties jc (ed_name edge) (ed_properties edge) plain_provenance) (\<lambda>props.
       Inr \<lparr>es_name = ed_name edge,
            es_rename_from = hint,
            es_from_type = ed_from_type edge,
            es_to_type = ed_to_type edge,
            es_cardinality = ed_cardinality edge,
            es_annotations = annotations,
            es_properties = props,
            es_constraints = canonical_constraints jc (ed_constraints edge)\<rparr>)))"

definition interface_shape_of :: "codec \<Rightarrow> interface_decl \<Rightarrow> shape_error + interface_shape" where
  "interface_shape_of jc i =
     r_bind (canonical_properties jc (id_name i) (id_properties i) plain_provenance) (\<lambda>props.
       Inr \<lparr>is_name = id_name i, is_properties = props\<rparr>)"

definition shape_declaration ::
    "codec \<Rightarrow> (string, interface_decl) hmap \<Rightarrow> schema_decl \<Rightarrow> schema_shape \<Rightarrow>
       shape_error + schema_shape" where
  "shape_declaration jc interfaces d acc =
     (case d of
        DInterface i \<Rightarrow> r_bind (interface_shape_of jc i) (\<lambda>s.
          Inr (acc\<lparr>ss_interfaces := ss_interfaces acc @ [s]\<rparr>))
      | DNode n \<Rightarrow> r_bind (node_shape_of jc interfaces n) (\<lambda>s.
          Inr (acc\<lparr>ss_nodes := ss_nodes acc @ [s]\<rparr>))
      | DEdge e \<Rightarrow> r_bind (edge_shape_of jc e) (\<lambda>s.
          Inr (acc\<lparr>ss_edges := ss_edges acc @ [s]\<rparr>)))"

definition validate_edges :: "string list \<Rightarrow> edge_shape list \<Rightarrow> shape_error + string list" where
  "validate_edges nodes edges =
     r_fold (\<lambda>e seen.
       r_bind (guard (es_name e \<notin> set seen) (ShapeDuplicateEdge (es_name e))) (\<lambda>_.
       r_bind (guard (es_from_type e \<in> set nodes \<and> es_to_type e \<in> set nodes)
                (UnresolvedEndpoint (es_name e))) (\<lambda>_.
         Inr (es_name e # seen)))) edges []"

definition validate_node_property ::
    "(string \<times> string) list \<Rightarrow> node_shape \<Rightarrow> property_shape \<Rightarrow> shape_error + unit" where
  "validate_node_property interface_properties node p =
     r_bind (r_each (\<lambda>s. guard (shape_ref_key s \<in> set interface_properties)
               (UnresolvedContribution (ns_name node) (ps_name p)))
               (ps_satisfies_interface_properties p)) (\<lambda>_.
     case ps_embed_source p of
       None \<Rightarrow> Inr ()
     | Some em \<Rightarrow>
         guard (list_ex (\<lambda>c. ps_name c = ess_property_name em) (ns_properties node))
           (UnknownEmbedSource (ns_name node) (ps_name p) (ess_property_name em)))"

definition validate_node ::
    "string list \<Rightarrow> (string \<times> string) list \<Rightarrow> node_shape \<Rightarrow> shape_error + unit" where
  "validate_node interface_names interface_properties node =
     r_bind (r_each (\<lambda>i. guard (i \<in> set interface_names) (UnknownInterface (ns_name node) i))
               (ns_implements node)) (\<lambda>_.
     r_each (validate_node_property interface_properties node) (ns_properties node))"

definition interface_properties_of :: "schema_shape \<Rightarrow> (string \<times> string) list" where
  "interface_properties_of shape =
     concat (map (\<lambda>i. map (\<lambda>p. (is_name i, ps_name p)) (is_properties i)) (ss_interfaces shape))"

text \<open>A set built from a list has as many elements as the list exactly when none repeats.\<close>

definition validate_shape :: "schema_shape \<Rightarrow> shape_error + unit" where
  "validate_shape shape =
     (let interface_names = map is_name (ss_interfaces shape);
          node_names = map ns_name (ss_nodes shape)
      in r_bind (guard (length (remdups interface_names) = length (ss_interfaces shape))
                   ShapeDuplicateInterface) (\<lambda>_.
         r_bind (guard (length (remdups node_names) = length (ss_nodes shape))
                   ShapeDuplicateNode) (\<lambda>_.
         r_bind (validate_edges node_names (ss_edges shape)) (\<lambda>_.
         r_each (validate_node interface_names (interface_properties_of shape))
           (ss_nodes shape)))))"

definition compile_schema_shape :: "codec \<Rightarrow> schema_file \<Rightarrow> shape_error + schema_shape" where
  "compile_schema_shape jc schema =
     (let interfaces = interfaces_by_name (sf_declarations schema) in
      r_bind (r_fold (shape_declaration jc interfaces) (sf_declarations schema)
                \<lparr>ss_interfaces = [], ss_nodes = [], ss_edges = []\<rparr>) (\<lambda>raw.
      let shape = \<lparr>ss_interfaces = sort_key is_name (ss_interfaces raw),
                   ss_nodes = sort_key ns_name (ss_nodes raw),
                   ss_edges = sort_key es_name (ss_edges raw)\<rparr>
      in r_bind (validate_shape shape) (\<lambda>_. Inr shape)))"

end
