(* ===== verification/Schema_Validate.thy ===== *)
theory Schema_Validate
  imports Schema_Shape
begin

text \<open>
  The checks every accepted schema passes (\<^verbatim>\<open>validate_schema_ir\<close> and its helpers in
  \<^verbatim>\<open>omnigraph-compiler/src/catalog/schema_ir.rs\<close>) and the projection back to a shape. A panic
  of the source (an index into a map, an \<^verbatim>\<open>expect\<close>) is a fault of its own, so that its
  absence is a theorem.
\<close>

section \<open>Kinds, accepted types and faults\<close>

datatype type_kind = KInterface | KNode | KEdge

fun kind_rank :: "type_kind \<Rightarrow> nat" where
  "kind_rank KInterface = 0"
| "kind_rank KNode = 1"
| "kind_rank KEdge = 2"

instantiation type_kind :: linorder
begin

definition less_eq_type_kind :: "type_kind \<Rightarrow> type_kind \<Rightarrow> bool" where
  "less_eq_type_kind a b = (kind_rank a \<le> kind_rank b)"

definition less_type_kind :: "type_kind \<Rightarrow> type_kind \<Rightarrow> bool" where
  "less_type_kind a b = (kind_rank a < kind_rank b)"

instance
proof
  fix a b c :: type_kind
  show "a \<le> b \<Longrightarrow> b \<le> a \<Longrightarrow> a = b"
    by (cases a; cases b) (auto simp: less_eq_type_kind_def)
qed (auto simp: less_eq_type_kind_def less_type_kind_def)

end

fun kind_label :: "type_kind \<Rightarrow> string" where
  "kind_label KInterface = ''interface''"
| "kind_label KNode = ''node''"
| "kind_label KEdge = ''edge''"

record accepted_type =
  ac_kind :: type_kind
  ac_name :: string
  ac_type_id :: stable_type_id
  ac_incarnation :: "table_incarnation_id option"
  ac_properties :: "property_ir list"

text \<open>What an identity value belongs to, in the messages about a reused one.\<close>

datatype id_owner =
    TypeOwner type_kind string
  | IncarnationOwner string
  | PropertyOwner string string

datatype invalid_ir =
    UnsupportedVersion u32
  | ZeroNext
  | IdReused u64 id_owner id_owner
  | DuplicateTypeName type_kind string
  | ReservedColumn string string
  | DuplicatePropertyName string string
  | TypedAnnotationLeaked string string
  | AnnotationsUnsorted string
  | NotSortedUnique string
  | PropertyConstraintsUnsorted string string
  | NextNotAbove u64 u64
  | InterfaceProvenance string string
  | InjectedNoProvenance string string
  | SatisfactionNotInterface string string
  | SatisfactionUnsorted string string
  | InterfaceNotImplemented string string
  | IncompatibleInterfaceProperty string string string string
  | ContractUnlinked string string string
  | EdgeProvenance string string
  | ConstraintsUnsorted string
  | TypeRefsUnsorted
  | TypeRefMissing u64
  | TypeRefMismatch string
  | PropertyRefMissing u64
  | PropertyRefMismatch string string
  | InvalidSystemField

datatype resolution_error =
    RenameSourceMissing type_kind string string
  | RenameAcrossKinds type_kind string string
  | TypeConsumedTwice type_kind string
  | PropertyMovedOwner string string string
  | PropertyRenameSourceMissing string string string
  | NewOwnerImportsProperty type_kind string string
  | PropertyConsumedTwice u64
  | UnknownType type_kind string
  | UnknownInterfaceRef string
  | UnknownPropertyRef string string
  | DomainMismatch
  | NextRegresses u64 u64
  | TypeIdentityChanges u64
  | TypeIdentityReused u64
  | IncarnationReused u64
  | PropertyMovesOwner u64
  | PropertyIdentityReused u64

datatype identity_error =
    InvalidDomain string
  | ZeroId string u64
  | AllocatorExhausted
  | InvalidIr invalid_ir
  | ResolutionError resolution_error

text \<open>The indexing operations and \<^verbatim>\<open>expect\<close>s of the module.\<close>

datatype identity_panic =
    NoAssignment type_kind string
  | NoPropertyAssignment u64 string
  | NoIncarnation string
  | NoTypeWithId u64
  | NoPropertyWithId u64
  | NoFirstElement
  | AnnotationSerialization

datatype schema_fault = IdentityErr identity_error | IdentityPanic identity_panic

type_synonym 'a identity_result = "schema_fault + 'a"

abbreviation invalid_ir :: "invalid_ir \<Rightarrow> 'a identity_result" where
  "invalid_ir e \<equiv> Inl (IdentityErr (InvalidIr e))"

abbreviation require :: "bool \<Rightarrow> invalid_ir \<Rightarrow> unit identity_result" where
  "require b e \<equiv> guard b (IdentityErr (InvalidIr e))"

text \<open>\<^verbatim>\<open>map[&key]\<close>: the value, or a panic.\<close>

abbreviation index_or_panic :: "'a option \<Rightarrow> identity_panic \<Rightarrow> 'a identity_result" where
  "index_or_panic opt p \<equiv> ok_or opt (IdentityPanic p)"

text \<open>\<^verbatim>\<open>xs[0]\<close>: the first element, or a panic.\<close>

definition first_or_panic :: "'a list \<Rightarrow> 'a identity_result" where
  "first_or_panic xs = (case xs of [] \<Rightarrow> Inl (IdentityPanic NoFirstElement) | x # _ \<Rightarrow> Inr x)"

lemma first_or_panic_Inr_iff [simp]: "first_or_panic xs = Inr x \<longleftrightarrow> xs \<noteq> [] \<and> x = hd xs"
  by (auto simp: first_or_panic_def split: list.splits)

section \<open>Orders of references\<close>

definition type_ref_key :: "type_ref_ir \<Rightarrow> u64 \<times> string" where
  "type_ref_key r = (tr_type_id r, tr_type_name r)"

definition property_ref_key :: "property_ref_ir \<Rightarrow> u64 \<times> string \<times> u64 \<times> string" where
  "property_ref_key r =
     (pr_owner_type_id r, pr_owner_type_name r, pr_property_id r, pr_property_name r)"

section \<open>Projection of constraints and shapes\<close>

definition SCHEMA_IR_VERSION :: u32 where
  "SCHEMA_IR_VERSION = 2"

definition accepted_types :: "schema_ir \<Rightarrow> accepted_type list" where
  "accepted_types ir =
     map (\<lambda>e. \<lparr>ac_kind = KInterface, ac_name = ii_name e, ac_type_id = ii_type_id e,
               ac_incarnation = None, ac_properties = ii_properties e\<rparr>) (sir_interfaces ir) @
     map (\<lambda>e. \<lparr>ac_kind = KNode, ac_name = ni_name e, ac_type_id = ni_type_id e,
               ac_incarnation = Some (ni_table_incarnation_id e), ac_properties = ni_properties e\<rparr>)
       (sir_nodes ir) @
     map (\<lambda>e. \<lparr>ac_kind = KEdge, ac_name = ei_name e, ac_type_id = ei_type_id e,
               ac_incarnation = Some (ei_table_incarnation_id e), ac_properties = ei_properties e\<rparr>)
       (sir_edges ir)"

fun role_name :: "system_field_role \<Rightarrow> string" where
  "role_name RoleId = ''id''"
| "role_name RoleSrc = ''src''"
| "role_name RoleDst = ''dst''"

fun field_name :: "field_ref_ir \<Rightarrow> string" where
  "field_name (FProperty r) = pr_property_name r"
| "field_name (FSystem r) = role_name (sfr_role r)"

fun constraint_from_ir :: "constraint_ir \<Rightarrow> constraint" where
  "constraint_from_ir (KeyIR fs) = Key (map field_name fs)"
| "constraint_from_ir (UniqueIR fs) = Unique (map field_name fs)"
| "constraint_from_ir (IndexIR fs) = Index (map field_name fs)"
| "constraint_from_ir (RangeIR f mn mx) = Range (field_name f) mn mx"
| "constraint_from_ir (CheckIR f pattern) = Check (field_name f) pattern"

fun constraint_fields :: "constraint_ir \<Rightarrow> field_ref_ir list" where
  "constraint_fields (KeyIR fs) = fs"
| "constraint_fields (UniqueIR fs) = fs"
| "constraint_fields (IndexIR fs) = fs"
| "constraint_fields (RangeIR f mn mx) = [f]"
| "constraint_fields (CheckIR f pattern) = [f]"

section \<open>Validation\<close>

definition is_reserved_storage_system_column :: "string \<Rightarrow> bool" where
  "is_reserved_storage_system_column n \<longleftrightarrow>
     n = ''_rowid'' \<or> n = ''_rowaddr'' \<or> n = ''_rowoffset'' \<or>
     n = ''_row_created_at_version'' \<or> n = ''_row_last_updated_at_version''"

definition parse_domain :: "codec \<Rightarrow> string \<Rightarrow> string identity_result" where
  "parse_domain jc v =
     (case jc_ulid jc v of
        None \<Rightarrow> Inl (IdentityErr (InvalidDomain v))
      | Some canonical \<Rightarrow>
          if canonical \<noteq> v then Inl (IdentityErr (InvalidDomain v)) else Inr canonical)"

fun ensure_sorted_unique :: "string list \<Rightarrow> string \<Rightarrow> unit identity_result" where
  "ensure_sorted_unique (x # y # zs) entity =
     (if x \<ge> y then invalid_ir (NotSortedUnique entity) else ensure_sorted_unique (y # zs) entity)"
| "ensure_sorted_unique _ entity = Inr ()"

definition validate_annotations :: "codec \<Rightarrow> annotation list \<Rightarrow> string \<Rightarrow> unit identity_result" where
  "validate_annotations jc anns entity =
     r_bind (r_each (\<lambda>a. require (\<not> is_typed_annotation (ann_name a))
               (TypedAnnotationLeaked (ann_name a) entity)) anns) (\<lambda>_.
     r_bind (r_map (\<lambda>a. index_or_panic (jc_annotation jc a) AnnotationSerialization) anns) (\<lambda>keys.
       require (\<not> any_window (\<ge>) keys) (AnnotationsUnsorted entity)))"

definition validate_constraint_order ::
    "codec \<Rightarrow> constraint_ir list \<Rightarrow> string \<Rightarrow> unit identity_result" where
  "validate_constraint_order jc cs entity =
     require (\<not> any_window (\<ge>) (map (constraint_sort_key jc \<circ> constraint_from_ir) cs))
       (ConstraintsUnsorted entity)"

type_synonym type_index = "(stable_type_id, accepted_type) hmap"
type_synonym property_index = "(stable_property_id, accepted_type \<times> property_ir) hmap"

definition validate_type_ref ::
    "type_ref_ir \<Rightarrow> type_kind \<Rightarrow> type_index \<Rightarrow> unit identity_result" where
  "validate_type_ref r expected types =
     r_bind (ok_or (hm_get types (tr_type_id r)) (IdentityErr (InvalidIr (TypeRefMissing (tr_type_id r)))))
       (\<lambda>target. require (ac_kind target = expected \<and> ac_name target = tr_type_name r)
                   (TypeRefMismatch (tr_type_name r)))"

text \<open>The loop compares each reference with the one before it (\<^verbatim>\<open>previous\<close>).\<close>

fun validate_type_refs_from ::
    "type_ref_ir option \<Rightarrow> type_ref_ir list \<Rightarrow> type_kind \<Rightarrow> type_index \<Rightarrow> unit identity_result" where
  "validate_type_refs_from previous [] expected types = Inr ()"
| "validate_type_refs_from previous (r # rs) expected types =
     r_bind (validate_type_ref r expected types) (\<lambda>_.
     r_bind (require (case previous of None \<Rightarrow> True | Some p \<Rightarrow> type_ref_key p < type_ref_key r)
               TypeRefsUnsorted) (\<lambda>_.
       validate_type_refs_from (Some r) rs expected types))"

definition validate_type_refs ::
    "type_ref_ir list \<Rightarrow> type_kind \<Rightarrow> type_index \<Rightarrow> unit identity_result" where
  "validate_type_refs rs expected types = validate_type_refs_from None rs expected types"

definition validate_property_ref ::
    "property_ref_ir \<Rightarrow> stable_type_id option \<Rightarrow> type_index \<Rightarrow> property_index \<Rightarrow>
       unit identity_result" where
  "validate_property_ref r expected_owner types properties =
     r_bind (ok_or (hm_get properties (pr_property_id r))
               (IdentityErr (InvalidIr (PropertyRefMissing (pr_property_id r))))) (\<lambda>(owner, p).
       require (\<not> ((case expected_owner of None \<Rightarrow> False | Some o' \<Rightarrow> o' \<noteq> pr_owner_type_id r) \<or>
                  ac_type_id owner \<noteq> pr_owner_type_id r \<or>
                  ac_name owner \<noteq> pr_owner_type_name r \<or>
                  pi_name p \<noteq> pr_property_name r \<or>
                  \<not> hm_contains types (pr_owner_type_id r)))
         (PropertyRefMismatch (pr_owner_type_name r) (pr_property_name r)))"

definition validate_field ::
    "type_kind \<Rightarrow> stable_type_id \<Rightarrow> table_incarnation_id \<Rightarrow> type_index \<Rightarrow> property_index \<Rightarrow>
       field_ref_ir \<Rightarrow> unit identity_result" where
  "validate_field kind owner_id incarnation types properties f =
     (case f of
        FProperty r \<Rightarrow> validate_property_ref r (Some owner_id) types properties
      | FSystem r \<Rightarrow>
          if sfr_stable_table_id r \<noteq> owner_id \<or> sfr_table_incarnation_id r \<noteq> incarnation
          then invalid_ir InvalidSystemField
          else r_bind (index_or_panic (hm_get types owner_id) (NoTypeWithId owner_id)) (\<lambda>owner.
            require (\<not> (ac_name owner \<noteq> sfr_table_type_name r \<or>
                        (kind = KNode \<and> sfr_role r \<noteq> RoleId) \<or>
                        kind = KInterface)) InvalidSystemField))"

definition validate_constraints ::
    "type_kind \<Rightarrow> stable_type_id \<Rightarrow> table_incarnation_id \<Rightarrow> constraint_ir list \<Rightarrow> type_index \<Rightarrow>
       property_index \<Rightarrow> unit identity_result" where
  "validate_constraints kind owner_id incarnation cs types properties =
     r_each (\<lambda>c. r_each (validate_field kind owner_id incarnation types properties)
                   (constraint_fields c)) cs"

definition insert_global_id ::
    "(u64, id_owner) hmap \<Rightarrow> u64 \<Rightarrow> id_owner \<Rightarrow> (u64, id_owner) hmap identity_result" where
  "insert_global_id ids i owner =
     (case hm_get ids i of
        Some previous \<Rightarrow> invalid_ir (IdReused i previous owner)
      | None \<Rightarrow> Inr (hm_insert i owner ids))"

text \<open>The state of the first pass: every identity seen, the largest, the types by identity.\<close>

record id_pass =
  ip_ids :: "(u64, id_owner) hmap"
  ip_max :: u64
  ip_types :: type_index
  ip_names :: "(type_kind \<times> string) list"

definition record_id :: "u64 \<Rightarrow> id_owner \<Rightarrow> id_pass \<Rightarrow> id_pass identity_result" where
  "record_id i owner s =
     r_bind (insert_global_id (ip_ids s) i owner) (\<lambda>ids.
       Inr (s\<lparr>ip_ids := ids, ip_max := max (ip_max s) i\<rparr>))"

definition check_property ::
    "codec \<Rightarrow> string \<Rightarrow> property_ir \<Rightarrow> string list \<times> id_pass \<Rightarrow>
       (string list \<times> id_pass) identity_result" where
  "check_property jc owner p st =
     (let (names, s) = st in
      r_bind (require (\<not> is_reserved_storage_system_column (pi_name p))
                (ReservedColumn owner (pi_name p))) (\<lambda>_.
      r_bind (require (pi_name p \<notin> set names) (DuplicatePropertyName owner (pi_name p))) (\<lambda>_.
      r_bind (record_id (pi_property_id p) (PropertyOwner owner (pi_name p)) s) (\<lambda>s1.
      r_bind (validate_annotations jc (pi_annotations p) (owner @ ''.'' @ pi_name p)) (\<lambda>_.
      r_bind (case pt_enum_values (pi_prop_type p) of
                None \<Rightarrow> Inr ()
              | Some vs \<Rightarrow> ensure_sorted_unique vs ''enum values'') (\<lambda>_.
      r_bind (require (\<not> any_window (\<ge>) (pi_property_constraints p))
                (PropertyConstraintsUnsorted owner (pi_name p))) (\<lambda>_.
        Inr (pi_name p # names, s1))))))))"

definition check_type :: "codec \<Rightarrow> accepted_type \<Rightarrow> id_pass \<Rightarrow> id_pass identity_result" where
  "check_type jc e s =
     r_bind (record_id (ac_type_id e) (TypeOwner (ac_kind e) (ac_name e)) s) (\<lambda>s1.
     r_bind (require ((ac_kind e, ac_name e) \<notin> set (ip_names s1))
               (DuplicateTypeName (ac_kind e) (ac_name e))) (\<lambda>_.
     let s2 = s1\<lparr>ip_names := (ac_kind e, ac_name e) # ip_names s1,
                 ip_types := hm_insert (ac_type_id e) e (ip_types s1)\<rparr> in
     r_bind (case ac_incarnation e of
               None \<Rightarrow> Inr s2
             | Some i \<Rightarrow> record_id i (IncarnationOwner (ac_name e)) s2) (\<lambda>s3.
     r_bind (r_fold (check_property jc (ac_name e)) (ac_properties e) ([], s3)) (\<lambda>(_, s4).
       Inr s4))))"

definition property_index_of :: "accepted_type list \<Rightarrow> property_index" where
  "property_index_of types =
     fold (\<lambda>(k, v). hm_insert k v)
       (concat (map (\<lambda>o'. map (\<lambda>p. (pi_property_id p, (o', p))) (ac_properties o')) types))
       hm_empty"

fun validate_satisfactions ::
    "string \<Rightarrow> string \<Rightarrow> type_index \<Rightarrow> property_index \<Rightarrow> property_ref_ir option \<Rightarrow>
       property_ref_ir list \<Rightarrow> unit identity_result" where
  "validate_satisfactions owner p types properties previous [] = Inr ()"
| "validate_satisfactions owner p types properties previous (r # rs) =
     r_bind (validate_property_ref r None types properties) (\<lambda>_.
     r_bind (index_or_panic (hm_get types (pr_owner_type_id r)) (NoTypeWithId (pr_owner_type_id r)))
       (\<lambda>target.
     r_bind (require (ac_kind target = KInterface) (SatisfactionNotInterface owner p)) (\<lambda>_.
     r_bind (require (case previous of None \<Rightarrow> True
                      | Some q \<Rightarrow> property_ref_key q < property_ref_key r)
               (SatisfactionUnsorted owner p)) (\<lambda>_.
       validate_satisfactions owner p types properties (Some r) rs))))"

definition validate_provenance ::
    "type_index \<Rightarrow> property_index \<Rightarrow> accepted_type \<Rightarrow> property_ir \<Rightarrow> unit identity_result" where
  "validate_provenance types properties owner p =
     r_bind (require (\<not> (ac_kind owner = KInterface \<and>
                (\<not> pi_declared_directly p \<or> pi_satisfies_interface_properties p \<noteq> [])))
               (InterfaceProvenance (ac_name owner) (pi_name p))) (\<lambda>_.
     r_bind (require (\<not> (ac_kind owner = KNode \<and> \<not> pi_declared_directly p \<and>
                pi_satisfies_interface_properties p = []))
               (InjectedNoProvenance (ac_name owner) (pi_name p))) (\<lambda>_.
     r_bind (case pi_embed_source p of
               None \<Rightarrow> Inr ()
             | Some em \<Rightarrow>
                 validate_property_ref (es_source em) (Some (ac_type_id owner)) types properties)
       (\<lambda>_.
     validate_satisfactions (ac_name owner) (pi_name p) types properties None
       (pi_satisfies_interface_properties p))))"

definition validate_owner ::
    "type_index \<Rightarrow> property_index \<Rightarrow> accepted_type \<Rightarrow> unit identity_result" where
  "validate_owner types properties owner =
     r_bind (ensure_sorted_unique (map pi_name (ac_properties owner))
               (''properties of '' @ [CHR 0x27] @ ac_name owner @ [CHR 0x27]))
       (\<lambda>_. r_each (validate_provenance types properties owner) (ac_properties owner))"

definition validate_node_satisfaction ::
    "property_index \<Rightarrow> u64 list \<Rightarrow> node_ir \<Rightarrow> property_ir \<Rightarrow> property_ref_ir \<Rightarrow>
       unit identity_result" where
  "validate_node_satisfaction properties implemented node p r =
     r_bind (require (pr_owner_type_id r \<in> set implemented)
               (InterfaceNotImplemented (ni_name node) (pi_name p))) (\<lambda>_.
     r_bind (index_or_panic (hm_get properties (pr_property_id r))
               (NoPropertyWithId (pr_property_id r))) (\<lambda>(_, ip).
       require (pi_prop_type ip = pi_prop_type p)
         (IncompatibleInterfaceProperty (ni_name node) (pi_name p) (pr_owner_type_name r)
            (pr_property_name r))))"

definition links_contract :: "node_ir \<Rightarrow> u64 \<Rightarrow> property_ir \<Rightarrow> bool" where
  "links_contract node interface_id ip =
     list_ex (\<lambda>p. list_ex (\<lambda>r. pr_owner_type_id r = interface_id \<and>
                                 pr_property_id r = pi_property_id ip)
                     (pi_satisfies_interface_properties p)) (ni_properties node)"

definition validate_contract :: "type_index \<Rightarrow> node_ir \<Rightarrow> u64 \<Rightarrow> unit identity_result" where
  "validate_contract types node interface_id =
     r_bind (index_or_panic (hm_get types interface_id) (NoTypeWithId interface_id)) (\<lambda>i.
       r_each (\<lambda>ip. require (links_contract node interface_id ip)
                       (ContractUnlinked (ni_name node) (ac_name i) (pi_name ip)))
         (ac_properties i))"

definition validate_node_ir ::
    "codec \<Rightarrow> type_index \<Rightarrow> property_index \<Rightarrow> node_ir \<Rightarrow> unit identity_result" where
  "validate_node_ir jc types properties node =
     (let implemented = remdups (map tr_type_id (ni_implements node)) in
      r_bind (validate_annotations jc (ni_annotations node) (ni_name node)) (\<lambda>_.
      r_bind (validate_type_refs (ni_implements node) KInterface types) (\<lambda>_.
      r_bind (r_each (\<lambda>p. r_each (validate_node_satisfaction properties implemented node p)
                              (pi_satisfies_interface_properties p)) (ni_properties node)) (\<lambda>_.
      r_bind (r_each (validate_contract types node) implemented) (\<lambda>_.
      r_bind (validate_constraint_order jc (ni_constraints node) (ni_name node)) (\<lambda>_.
        validate_constraints KNode (ni_type_id node) (ni_table_incarnation_id node)
          (ni_constraints node) types properties))))))"

definition validate_edge_ir ::
    "codec \<Rightarrow> type_index \<Rightarrow> property_index \<Rightarrow> edge_ir \<Rightarrow> unit identity_result" where
  "validate_edge_ir jc types properties edge =
     r_bind (validate_annotations jc (ei_annotations edge) (ei_name edge)) (\<lambda>_.
     r_bind (r_each (\<lambda>p. require (\<not> (\<not> pi_declared_directly p \<or>
                 pi_satisfies_interface_properties p \<noteq> [] \<or> pi_embed_source p \<noteq> None))
               (EdgeProvenance (ei_name edge) (pi_name p))) (ei_properties edge)) (\<lambda>_.
     r_bind (validate_type_ref (ei_from_type edge) KNode types) (\<lambda>_.
     r_bind (validate_type_ref (ei_to_type edge) KNode types) (\<lambda>_.
     r_bind (validate_constraint_order jc (ei_constraints edge) (ei_name edge)) (\<lambda>_.
       validate_constraints KEdge (ei_type_id edge) (ei_table_incarnation_id edge)
         (ei_constraints edge) types properties)))))"

definition validate_schema_ir :: "codec \<Rightarrow> schema_ir \<Rightarrow> unit identity_result" where
  "validate_schema_ir jc ir =
     (let types = accepted_types ir in
      r_bind (require (sir_ir_version ir = SCHEMA_IR_VERSION) (UnsupportedVersion (sir_ir_version ir)))
        (\<lambda>_.
      r_bind (parse_domain jc (sir_schema_identity_domain ir)) (\<lambda>_.
      r_bind (require (sir_next_identity_id ir \<noteq> 0) ZeroNext) (\<lambda>_.
      r_bind (r_fold (check_type jc) types
                \<lparr>ip_ids = hm_empty, ip_max = 0, ip_types = hm_empty, ip_names = []\<rparr>) (\<lambda>s.
      r_bind (require (\<not> sir_next_identity_id ir \<le> ip_max s)
                (NextNotAbove (sir_next_identity_id ir) (ip_max s))) (\<lambda>_.
      r_bind (ensure_sorted_unique (map ii_name (sir_interfaces ir)) ''interfaces'') (\<lambda>_.
      r_bind (ensure_sorted_unique (map ni_name (sir_nodes ir)) ''nodes'') (\<lambda>_.
      r_bind (ensure_sorted_unique (map ei_name (sir_edges ir)) ''edges'') (\<lambda>_.
      let properties = property_index_of types in
      r_bind (r_each (validate_owner (ip_types s) properties) types) (\<lambda>_.
      r_bind (r_each (validate_node_ir jc (ip_types s) properties) (sir_nodes ir)) (\<lambda>_.
        r_each (validate_edge_ir jc (ip_types s) properties) (sir_edges ir))))))))))))"

section \<open>Back to a shape\<close>

definition property_shape_from_ir :: "property_ir \<Rightarrow> property_shape" where
  "property_shape_from_ir p =
     \<lparr>ps_name = pi_name p,
      ps_rename_from = None,
      ps_prop_type = pi_prop_type p,
      ps_annotations = pi_annotations p,
      ps_property_constraints = pi_property_constraints p,
      ps_embed_source =
        map_option (\<lambda>em. \<lparr>ess_property_name = pr_property_name (es_source em),
                          ess_model = es_model em\<rparr>) (pi_embed_source p),
      ps_declared_directly = pi_declared_directly p,
      ps_satisfies_interface_properties =
        remdups_adj (sort_key shape_ref_key
          (map (\<lambda>r. \<lparr>spr_owner_name = pr_owner_type_name r,
                     spr_property_name = pr_property_name r\<rparr>)
             (pi_satisfies_interface_properties p)))\<rparr>"

definition schema_shape_from_ir :: "codec \<Rightarrow> schema_ir \<Rightarrow> schema_shape identity_result" where
  "schema_shape_from_ir jc ir =
     r_bind (validate_schema_ir jc ir) (\<lambda>_. Inr
       \<lparr>ss_interfaces =
          map (\<lambda>i. \<lparr>is_name = ii_name i,
                    is_properties = map property_shape_from_ir (ii_properties i)\<rparr>)
            (sir_interfaces ir),
        ss_nodes =
          map (\<lambda>n. \<lparr>ns_name = ni_name n,
                    ns_rename_from = None,
                    ns_annotations = ni_annotations n,
                    ns_implements = sort_dedup (map tr_type_name (ni_implements n)),
                    ns_properties = map property_shape_from_ir (ni_properties n),
                    ns_constraints = map constraint_from_ir (ni_constraints n)\<rparr>)
            (sir_nodes ir),
        ss_edges =
          map (\<lambda>e. \<lparr>es_name = ei_name e,
                    es_rename_from = None,
                    es_from_type = tr_type_name (ei_from_type e),
                    es_to_type = tr_type_name (ei_to_type e),
                    es_cardinality = ei_cardinality e,
                    es_annotations = ei_annotations e,
                    es_properties = map property_shape_from_ir (ei_properties e),
                    es_constraints = map constraint_from_ir (ei_constraints e)\<rparr>)
            (sir_edges ir)\<rparr>)"

end
