(* ===== verification/Schema_Validate_Facts.thy ===== *)
theory Schema_Validate_Facts
  imports Schema_Validate
begin

text \<open>
  What a successful \<^verbatim>\<open>validate_schema_ir\<close> says about an accepted schema, and that the checks
  themselves never panic.
\<close>

section \<open>The identities of a schema\<close>

definition type_identities :: "accepted_type \<Rightarrow> u64 list" where
  "type_identities e =
     ac_type_id e # (case ac_incarnation e of None \<Rightarrow> [] | Some i \<Rightarrow> [i]) @
     map pi_property_id (ac_properties e)"

definition schema_identities :: "schema_ir \<Rightarrow> u64 list" where
  "schema_identities ir = concat (map type_identities (accepted_types ir))"

text \<open>
  \<open>covers s t ids\<close>: between two states of the first pass exactly \<open>ids\<close> were recorded, all new
  and pairwise different.
\<close>

definition covers :: "id_pass \<Rightarrow> id_pass \<Rightarrow> u64 list \<Rightarrow> bool" where
  "covers s t ids \<longleftrightarrow>
     dom (hm_get (ip_ids t)) = dom (hm_get (ip_ids s)) \<union> set ids \<and> distinct ids \<and>
     set ids \<inter> dom (hm_get (ip_ids s)) = {} \<and> ip_max s \<le> ip_max t \<and>
     (\<forall>i \<in> set ids. i \<le> ip_max t)"

lemma covers_refl: "covers s s []"
  by (simp add: covers_def)

lemma covers_trans: "covers s t a \<Longrightarrow> covers t u b \<Longrightarrow> covers s u (a @ b)"
  by (force simp: covers_def)

lemma covers_cong:
  "covers s t ids \<Longrightarrow> ip_ids t' = ip_ids t \<Longrightarrow> ip_max t' = ip_max t \<Longrightarrow> covers s t' ids"
  by (simp add: covers_def)

lemma record_id_covers:
  assumes "record_id i owner s = Inr t"
  shows "covers s t [i]" and "ip_types t = ip_types s" and "ip_names t = ip_names s"
  using assms
  by (auto simp: record_id_def insert_global_id_def covers_def dom_def split: option.splits)

lemma check_property_covers:
  assumes "check_property jc owner p (names, s) = Inr (names', t)"
  shows "covers s t [pi_property_id p]" and "ip_types t = ip_types s" and "ip_names t = ip_names s"
    and "names' = pi_name p # names" and "pi_name p \<notin> set names"
    and "\<not> is_reserved_storage_system_column (pi_name p)"
  using assms by (auto simp: check_property_def dest: record_id_covers)

lemma check_properties_covers:
  assumes "r_fold (check_property jc owner) ps (names, s) = Inr (names', t)"
  shows "covers s t (map pi_property_id ps) \<and> ip_types t = ip_types s \<and> ip_names t = ip_names s"
  using assms
proof (induction ps arbitrary: names s)
  case Nil
  then show ?case by (simp add: covers_refl)
next
  case (Cons p ps)
  then obtain names1 s1 where step: "check_property jc owner p (names, s) = Inr (names1, s1)"
    and rest: "r_fold (check_property jc owner) ps (names1, s1) = Inr (names', t)"
    by auto
  from check_property_covers [OF step] Cons.IH [OF rest] show ?case
    using covers_trans [of s s1 "[pi_property_id p]" t] by auto
qed

lemma check_type_covers:
  assumes "check_type jc e s = Inr t"
  shows "covers s t (type_identities e)"
    and "ip_types t = hm_insert (ac_type_id e) e (ip_types s)"
    and "ip_names t = (ac_kind e, ac_name e) # ip_names s"
    and "(ac_kind e, ac_name e) \<notin> set (ip_names s)"
proof -
  from assms obtain s1 s3 names where
    1: "record_id (ac_type_id e) (TypeOwner (ac_kind e) (ac_name e)) s = Inr s1" and
    fresh: "(ac_kind e, ac_name e) \<notin> set (ip_names s1)" and
    3: "(case ac_incarnation e of
           None \<Rightarrow> Inr (s1\<lparr>ip_names := (ac_kind e, ac_name e) # ip_names s1,
                          ip_types := hm_insert (ac_type_id e) e (ip_types s1)\<rparr>)
         | Some i \<Rightarrow> record_id i (IncarnationOwner (ac_name e))
             (s1\<lparr>ip_names := (ac_kind e, ac_name e) # ip_names s1,
                 ip_types := hm_insert (ac_type_id e) e (ip_types s1)\<rparr>)) = Inr s3" and
    4: "r_fold (check_property jc (ac_name e)) (ac_properties e) ([], s3) = Inr (names, t)"
    by (auto simp: check_type_def Let_def)
  let ?s2 = "s1\<lparr>ip_names := (ac_kind e, ac_name e) # ip_names s1,
                 ip_types := hm_insert (ac_type_id e) e (ip_types s1)\<rparr>"
  note r1 = record_id_covers [OF 1]
  have c2: "covers s ?s2 [ac_type_id e]" using r1(1) by (rule covers_cong) simp_all
  have c3: "covers ?s2 s3 (case ac_incarnation e of None \<Rightarrow> [] | Some i \<Rightarrow> [i])"
    and s3: "ip_types s3 = ip_types ?s2" "ip_names s3 = ip_names ?s2"
    using 3 by (auto simp: covers_refl split: option.splits dest: record_id_covers)
  note r4 = check_properties_covers [OF 4]
  show "covers s t (type_identities e)"
    using covers_trans [OF covers_trans [OF c2 c3], of t] r4 by (simp add: type_identities_def)
  show "ip_types t = hm_insert (ac_type_id e) e (ip_types s)"
    "ip_names t = (ac_kind e, ac_name e) # ip_names s"
    "(ac_kind e, ac_name e) \<notin> set (ip_names s)"
    using r1 s3 r4 fresh by auto
qed

lemma check_types_covers:
  assumes "r_fold (check_type jc) es s = Inr t"
  shows "covers s t (concat (map type_identities es)) \<and>
    ip_types t = fold (\<lambda>e. hm_insert (ac_type_id e) e) es (ip_types s) \<and>
    ip_names t = rev (map (\<lambda>e. (ac_kind e, ac_name e)) es) @ ip_names s \<and>
    distinct (map (\<lambda>e. (ac_kind e, ac_name e)) es) \<and>
    set (map (\<lambda>e. (ac_kind e, ac_name e)) es) \<inter> set (ip_names s) = {}"
  using assms
proof (induction es arbitrary: s)
  case Nil
  then show ?case by (simp add: covers_refl)
next
  case (Cons e es)
  then obtain s1 where step: "check_type jc e s = Inr s1"
    and rest: "r_fold (check_type jc) es s1 = Inr t"
    by auto
  from check_type_covers [OF step] Cons.IH [OF rest] show ?case
    using covers_trans [of s s1 "type_identities e" t] by auto
qed

text \<open>The type index finds an accepted type under its identity, and nothing else.\<close>

definition type_index_of :: "accepted_type list \<Rightarrow> type_index" where
  "type_index_of es = fold (\<lambda>e. hm_insert (ac_type_id e) e) es hm_empty"

lemma map_of_rev_keyed:
  assumes "distinct (map k es)"
  shows "map_of (rev (map (\<lambda>e. (k e, v e)) es)) i = Some w \<longleftrightarrow> (\<exists>e \<in> set es. k e = i \<and> v e = w)"
proof -
  have "distinct (map fst (rev (map (\<lambda>e. (k e, v e)) es)))"
    using assms by (simp add: rev_map [symmetric] o_def)
  then have "map_of (rev (map (\<lambda>e. (k e, v e)) es)) i = Some w \<longleftrightarrow>
      (i, w) \<in> set (rev (map (\<lambda>e. (k e, v e)) es))"
    by (rule map_of_eq_Some_iff)
  then show ?thesis by auto
qed

lemma type_index_get:
  assumes "distinct (map ac_type_id es)"
  shows "hm_get (type_index_of es) i = Some e \<longleftrightarrow> e \<in> set es \<and> ac_type_id e = i"
proof -
  have "type_index_of es =
      fold (\<lambda>(k, v). hm_insert k v) (map (\<lambda>e. (ac_type_id e, e)) es) hm_empty"
    by (simp add: type_index_of_def fold_map o_def)
  then have "hm_get (type_index_of es) i = map_of (rev (map (\<lambda>e. (ac_type_id e, e)) es)) i"
    by (simp add: hm.get_fold_insert split: option.splits)
  then show ?thesis using map_of_rev_keyed [OF assms, of "\<lambda>e. e" i e] by auto
qed

lemma distinct_concat_sub:
  assumes "distinct (concat (map f xs))"
    and "\<And>x. x \<in> set xs \<Longrightarrow> set (g x) \<subseteq> set (f x) \<and> (distinct (f x) \<longrightarrow> distinct (g x))"
  shows "distinct (concat (map g xs))"
  using assms
proof (induction xs)
  case (Cons x xs)
  then have "set (g x) \<inter> set (concat (map g xs)) \<subseteq> set (f x) \<inter> set (concat (map f xs))"
    by fastforce
  with Cons show ?case by auto
qed simp

lemma distinct_type_ids:
  assumes "distinct (concat (map type_identities es))"
  shows "distinct (map ac_type_id es)"
proof -
  have "distinct (concat (map (\<lambda>e. [ac_type_id e]) es))"
    using assms by (rule distinct_concat_sub) (simp add: type_identities_def)
  then show ?thesis by (simp add: concat_map_singleton)
qed

lemma distinct_property_ids:
  assumes "distinct (concat (map type_identities es))"
  shows "distinct (concat (map (\<lambda>e. map pi_property_id (ac_properties e)) es))"
  using assms
  by (rule distinct_concat_sub) (auto simp: type_identities_def split: option.splits)

lemma property_index_get:
  assumes "distinct (concat (map type_identities es))"
  shows "hm_get (property_index_of es) i = Some (e, p) \<longleftrightarrow>
    e \<in> set es \<and> p \<in> set (ac_properties e) \<and> pi_property_id p = i"
proof -
  let ?pairs = "concat (map (\<lambda>e. map (\<lambda>p. (e, p)) (ac_properties e)) es)"
  have "distinct (map (\<lambda>ep. pi_property_id (snd ep)) ?pairs)"
    using distinct_property_ids [OF assms] by (simp add: map_concat o_def)
  moreover have "hm_get (property_index_of es) i =
      map_of (rev (map (\<lambda>ep. (pi_property_id (snd ep), ep)) ?pairs)) i"
    by (simp add: property_index_of_def hm.get_fold_insert map_concat o_def split: option.splits)
  ultimately show ?thesis
    using map_of_rev_keyed [of "\<lambda>ep. pi_property_id (snd ep)" ?pairs "\<lambda>ep. ep" i "(e, p)"] by auto
qed

lemma ensure_sorted_unique_iff:
  "ensure_sorted_unique xs entity = Inr u \<longleftrightarrow> strictly_sorted xs"
proof (induction xs entity rule: ensure_sorted_unique.induct)
  case (1 x y zs entity)
  have "strictly_sorted (x # y # zs) \<longleftrightarrow> x < y \<and> strictly_sorted (y # zs)"
    by (auto dest: order.strict_trans)
  with 1 show ?case by (auto simp del: sorted_wrt.simps)
qed simp_all

section \<open>What a validated schema satisfies\<close>

definition validated_types :: "schema_ir \<Rightarrow> type_index" where
  "validated_types ir = type_index_of (accepted_types ir)"

definition validated_properties :: "schema_ir \<Rightarrow> property_index" where
  "validated_properties ir = property_index_of (accepted_types ir)"

lemma validate_schema_ir_parts:
  assumes "validate_schema_ir jc ir = Inr u"
  shows "sir_ir_version ir = SCHEMA_IR_VERSION"
    and "is_ok (parse_domain jc (sir_schema_identity_domain ir))"
    and "distinct (schema_identities ir)"
    and "\<And>i. i \<in> set (schema_identities ir) \<Longrightarrow> i < sir_next_identity_id ir"
    and "distinct (map (\<lambda>e. (ac_kind e, ac_name e)) (accepted_types ir))"
    and "strictly_sorted (map ii_name (sir_interfaces ir))"
    and "strictly_sorted (map ni_name (sir_nodes ir))"
    and "strictly_sorted (map ei_name (sir_edges ir))"
    and "\<And>e. e \<in> set (accepted_types ir) \<Longrightarrow>
           validate_owner (validated_types ir) (validated_properties ir) e = Inr ()"
    and "\<And>n. n \<in> set (sir_nodes ir) \<Longrightarrow>
           validate_node_ir jc (validated_types ir) (validated_properties ir) n = Inr ()"
    and "\<And>e. e \<in> set (sir_edges ir) \<Longrightarrow>
           validate_edge_ir jc (validated_types ir) (validated_properties ir) e = Inr ()"
    and "sir_next_identity_id ir \<noteq> 0"
proof -
  let ?s0 = "\<lparr>ip_ids = hm_empty, ip_max = 0, ip_types = hm_empty, ip_names = []\<rparr>"
  from assms obtain s where
    fold: "r_fold (check_type jc) (accepted_types ir) ?s0 = Inr s" and
    facts: "sir_ir_version ir = SCHEMA_IR_VERSION"
      "is_ok (parse_domain jc (sir_schema_identity_domain ir))"
      "sir_next_identity_id ir \<noteq> 0" "\<not> sir_next_identity_id ir \<le> ip_max s"
      "strictly_sorted (map ii_name (sir_interfaces ir))"
      "strictly_sorted (map ni_name (sir_nodes ir))"
      "strictly_sorted (map ei_name (sir_edges ir))" and
    rest: "\<forall>e \<in> set (accepted_types ir).
        validate_owner (ip_types s) (validated_properties ir) e = Inr ()"
      "\<forall>n \<in> set (sir_nodes ir).
        validate_node_ir jc (ip_types s) (validated_properties ir) n = Inr ()"
      "\<forall>e \<in> set (sir_edges ir).
        validate_edge_ir jc (ip_types s) (validated_properties ir) e = Inr ()"
    by (auto simp: validate_schema_ir_def Let_def is_ok_iff ensure_sorted_unique_iff
        validated_properties_def)
  note c = check_types_covers [OF fold]
  have types: "ip_types s = validated_types ir"
    using c by (simp add: validated_types_def type_index_of_def)
  show "distinct (schema_identities ir)" "distinct (map (\<lambda>e. (ac_kind e, ac_name e)) (accepted_types ir))"
    using c by (simp_all add: covers_def schema_identities_def)
  show "i < sir_next_identity_id ir" if "i \<in> set (schema_identities ir)" for i
    using c that facts(4) by (force simp: covers_def schema_identities_def)
  show "validate_owner (validated_types ir) (validated_properties ir) e = Inr ()"
    if "e \<in> set (accepted_types ir)" for e
    using rest(1) that by (simp add: types)
  show "validate_node_ir jc (validated_types ir) (validated_properties ir) n = Inr ()"
    if "n \<in> set (sir_nodes ir)" for n
    using rest(2) that by (simp add: types)
  show "validate_edge_ir jc (validated_types ir) (validated_properties ir) e = Inr ()"
    if "e \<in> set (sir_edges ir)" for e
    using rest(3) that by (simp add: types)
  show "sir_ir_version ir = SCHEMA_IR_VERSION"
    "is_ok (parse_domain jc (sir_schema_identity_domain ir))"
    "strictly_sorted (map ii_name (sir_interfaces ir))"
    "strictly_sorted (map ni_name (sir_nodes ir))"
    "strictly_sorted (map ei_name (sir_edges ir))"
    "sir_next_identity_id ir \<noteq> 0"
    using facts by auto
qed

section \<open>References\<close>

lemma type_index_validated:
  assumes "validate_schema_ir jc ir = Inr u"
  shows "hm_get (validated_types ir) i = Some e \<longleftrightarrow>
    e \<in> set (accepted_types ir) \<and> ac_type_id e = i"
  using validate_schema_ir_parts(3) [OF assms] distinct_type_ids
  unfolding validated_types_def schema_identities_def by (intro type_index_get) blast

lemma property_index_validated:
  assumes "validate_schema_ir jc ir = Inr u"
  shows "hm_get (validated_properties ir) i = Some (e, p) \<longleftrightarrow>
    e \<in> set (accepted_types ir) \<and> p \<in> set (ac_properties e) \<and> pi_property_id p = i"
  using validate_schema_ir_parts(3) [OF assms]
  unfolding validated_properties_def schema_identities_def by (intro property_index_get)

lemma accepted_interface_iff:
  "e \<in> set (accepted_types ir) \<and> ac_kind e = KInterface \<longleftrightarrow>
     (\<exists>i \<in> set (sir_interfaces ir).
        e = \<lparr>ac_kind = KInterface, ac_name = ii_name i, ac_type_id = ii_type_id i,
             ac_incarnation = None, ac_properties = ii_properties i\<rparr>)"
  by (auto simp: accepted_types_def)

lemma accepted_node_iff:
  "e \<in> set (accepted_types ir) \<and> ac_kind e = KNode \<longleftrightarrow>
     (\<exists>n \<in> set (sir_nodes ir).
        e = \<lparr>ac_kind = KNode, ac_name = ni_name n, ac_type_id = ni_type_id n,
             ac_incarnation = Some (ni_table_incarnation_id n), ac_properties = ni_properties n\<rparr>)"
  by (auto simp: accepted_types_def)

lemma accepted_edge_iff:
  "e \<in> set (accepted_types ir) \<and> ac_kind e = KEdge \<longleftrightarrow>
     (\<exists>d \<in> set (sir_edges ir).
        e = \<lparr>ac_kind = KEdge, ac_name = ei_name d, ac_type_id = ei_type_id d,
             ac_incarnation = Some (ei_table_incarnation_id d), ac_properties = ei_properties d\<rparr>)"
  by (auto simp: accepted_types_def)

lemma validate_type_ref_iff:
  "validate_type_ref r kind types = Inr u \<longleftrightarrow>
     (\<exists>e. hm_get types (tr_type_id r) = Some e \<and> ac_kind e = kind \<and> ac_name e = tr_type_name r)"
  by (auto simp: validate_type_ref_def)

lemma validate_type_refs_in:
  "validate_type_refs_from prev rs kind types = Inr u \<Longrightarrow> r \<in> set rs \<Longrightarrow>
     validate_type_ref r kind types = Inr ()"
  by (induction prev rs kind types rule: validate_type_refs_from.induct) auto

lemma validate_type_refs_found:
  "validate_type_refs_from prev rs kind types = Inr u \<Longrightarrow> r \<in> set rs \<Longrightarrow>
     \<exists>e. hm_get types (tr_type_id r) = Some e \<and> ac_kind e = kind \<and> ac_name e = tr_type_name r"
  using validate_type_refs_in [of prev rs kind types u r] by (simp add: validate_type_ref_iff)

lemma validate_property_ref_found:
  assumes "validate_property_ref r expected types properties = Inr u"
  shows "\<exists>e p. hm_get properties (pr_property_id r) = Some (e, p) \<and>
      ac_type_id e = pr_owner_type_id r \<and> ac_name e = pr_owner_type_name r \<and>
      pi_name p = pr_property_name r"
    and "hm_contains types (pr_owner_type_id r)"
  using assms by (auto simp: validate_property_ref_def)

lemma validate_satisfactions_in:
  "validate_satisfactions owner p types properties prev rs = Inr u \<Longrightarrow> r \<in> set rs \<Longrightarrow>
     validate_property_ref r None types properties = Inr ()"
  by (induction owner p types properties prev rs rule: validate_satisfactions.induct) auto

lemma node_satisfaction_found:
  assumes "validate_schema_ir jc ir = Inr u" and "n \<in> set (sir_nodes ir)"
    and "p \<in> set (ni_properties n)" and "r \<in> set (pi_satisfies_interface_properties p)"
  shows "\<exists>e q. hm_get (validated_properties ir) (pr_property_id r) = Some (e, q)"
proof -
  let ?e = "\<lparr>ac_kind = KNode, ac_name = ni_name n, ac_type_id = ni_type_id n,
    ac_incarnation = Some (ni_table_incarnation_id n), ac_properties = ni_properties n\<rparr>"
  have "?e \<in> set (accepted_types ir)" using assms(2) accepted_node_iff [of ?e ir] by auto
  from validate_schema_ir_parts(9) [OF assms(1) this] assms(3,4)
  have "validate_property_ref r None (validated_types ir) (validated_properties ir) = Inr ()"
    by (auto simp: validate_owner_def validate_provenance_def intro: validate_satisfactions_in)
  then show ?thesis by (blast dest: validate_property_ref_found)
qed

section \<open>No check panics\<close>

definition no_panic :: "'a identity_result \<Rightarrow> bool" where
  "no_panic r \<longleftrightarrow> (\<forall>p. r \<noteq> Inl (IdentityPanic p))"

named_theorems no_panic_intros \<open>computations that return a value or an error\<close>

lemma no_panic_simps [simp, no_panic_intros]:
  "no_panic (Inr x)" "no_panic (Inl (IdentityErr e))"
  "no_panic (guard b (IdentityErr e))" "no_panic (ok_or opt (IdentityErr e))"
  by (simp_all add: no_panic_def guard_def ok_or_def split: option.splits)

lemma no_panic_bind [no_panic_intros]:
  "no_panic m \<Longrightarrow> (\<And>x. m = Inr x \<Longrightarrow> no_panic (f x)) \<Longrightarrow> no_panic (r_bind m f)"
  by (cases m) (auto simp: no_panic_def)

lemma no_panic_each [no_panic_intros]:
  "(\<And>x. x \<in> set xs \<Longrightarrow> no_panic (f x)) \<Longrightarrow> no_panic (r_each f xs)"
  by (induction xs) (auto intro!: no_panic_bind)

lemma no_panic_map [no_panic_intros]:
  "(\<And>x. x \<in> set xs \<Longrightarrow> no_panic (f x)) \<Longrightarrow> no_panic (r_map f xs)"
  by (induction xs) (auto intro!: no_panic_bind)

lemma no_panic_fold [no_panic_intros]:
  "(\<And>x s. x \<in> set xs \<Longrightarrow> no_panic (f x s)) \<Longrightarrow> no_panic (r_fold f xs s)"
  by (induction xs arbitrary: s) (auto intro!: no_panic_bind)

lemma no_panic_thread [no_panic_intros]:
  "(\<And>x s. x \<in> set xs \<Longrightarrow> no_panic (f x s)) \<Longrightarrow> no_panic (r_thread f xs s)"
  by (induction xs arbitrary: s) (auto intro!: no_panic_bind)

lemma no_panic_index: "opt \<noteq> None \<Longrightarrow> no_panic (index_or_panic opt p)"
  by (auto simp: no_panic_def)

lemma no_panic_first: "xs \<noteq> [] \<Longrightarrow> no_panic (first_or_panic xs)"
  by (cases xs) (auto simp: first_or_panic_def)

lemma no_panic_sorted_unique [simp]: "no_panic (ensure_sorted_unique xs entity)"
  by (induction xs entity rule: ensure_sorted_unique.induct) auto

lemma no_panic_parse_domain [simp]: "no_panic (parse_domain jc v)"
  by (simp add: parse_domain_def split: option.splits)

text \<open>Serializing an annotation, a record of texts, to JSON does not fail.\<close>

definition annotations_serialize :: "codec \<Rightarrow> bool" where
  "annotations_serialize jc \<longleftrightarrow> (\<forall>a. jc_annotation jc a \<noteq> None)"

lemma no_panic_annotations [simp]:
  "annotations_serialize jc \<Longrightarrow> no_panic (validate_annotations jc anns entity)"
  unfolding validate_annotations_def
  by (intro no_panic_intros no_panic_index) (simp add: annotations_serialize_def)

lemma no_panic_record_id [simp]: "no_panic (record_id i owner s)"
  by (auto simp: record_id_def insert_global_id_def intro!: no_panic_intros split: option.splits)

lemma no_panic_check_property [simp]: "annotations_serialize jc \<Longrightarrow> no_panic (check_property jc owner p st)"
  by (cases st) (auto simp: check_property_def intro!: no_panic_intros split: option.splits)

lemma no_panic_check_type [simp]: "annotations_serialize jc \<Longrightarrow> no_panic (check_type jc e s)"
  by (auto simp: check_type_def Let_def intro!: no_panic_intros split: option.splits)

lemma no_panic_type_ref [simp]: "no_panic (validate_type_ref r kind types)"
  by (auto simp: validate_type_ref_def intro!: no_panic_intros)

lemma no_panic_type_refs [simp]: "no_panic (validate_type_refs_from prev rs kind types)"
  by (induction prev rs kind types rule: validate_type_refs_from.induct)
    (auto intro!: no_panic_intros)

lemma no_panic_property_ref [simp]: "no_panic (validate_property_ref r expected types properties)"
  by (auto simp: validate_property_ref_def intro!: no_panic_intros)

text \<open>The index of the owner is safe because the reference was checked just before.\<close>

lemma no_panic_satisfactions [simp]:
  "no_panic (validate_satisfactions owner p types properties prev rs)"
  by (induction owner p types properties prev rs rule: validate_satisfactions.induct)
    (auto simp: hm_contains_def intro!: no_panic_intros no_panic_index
      dest: validate_property_ref_found(2))

lemma no_panic_owner [simp]: "no_panic (validate_owner types properties e)"
  by (auto simp: validate_owner_def validate_provenance_def intro!: no_panic_intros
      split: option.splits)

lemma no_panic_constraints:
  "hm_get types owner_id \<noteq> None \<Longrightarrow>
     no_panic (validate_constraints kind owner_id inc cs types properties)"
  by (auto simp: validate_constraints_def validate_field_def intro!: no_panic_intros no_panic_index
      split: field_ref_ir.splits)

lemma no_panic_node:
  assumes "\<And>p r. p \<in> set (ni_properties n) \<Longrightarrow> r \<in> set (pi_satisfies_interface_properties p) \<Longrightarrow>
      hm_get properties (pr_property_id r) \<noteq> None"
    and "hm_get types (ni_type_id n) \<noteq> None" and "annotations_serialize jc"
  shows "no_panic (validate_node_ir jc types properties n)"
  unfolding validate_node_ir_def Let_def validate_type_refs_def validate_constraint_order_def
    validate_node_satisfaction_def validate_contract_def
  using assms
  by (auto intro!: no_panic_intros no_panic_index no_panic_constraints)
    (blast dest: validate_type_refs_found)

lemma no_panic_edge:
  "hm_get types (ei_type_id e) \<noteq> None \<Longrightarrow> annotations_serialize jc \<Longrightarrow>
     no_panic (validate_edge_ir jc types properties e)"
  unfolding validate_edge_ir_def validate_constraint_order_def
  by (auto intro!: no_panic_intros no_panic_constraints)

lemma owner_satisfaction_found:
  assumes "validate_owner types properties e = Inr u" and "p \<in> set (ac_properties e)"
    and "r \<in> set (pi_satisfies_interface_properties p)"
  shows "hm_get properties (pr_property_id r) \<noteq> None"
proof -
  have "validate_satisfactions (ac_name e) (pi_name p) types properties None
      (pi_satisfies_interface_properties p) = Inr ()"
    using assms(1,2) by (auto simp: validate_owner_def validate_provenance_def)
  from validate_satisfactions_in [OF this assms(3)] show ?thesis
    by (auto dest: validate_property_ref_found(1))
qed

text \<open>
  Checking a schema, however malformed, ends in acceptance or in an error value: none of the
  map lookups and expectations of the checks can fail.
\<close>

lemma no_panic_validate:
  assumes jc: "annotations_serialize jc"
  shows "no_panic (validate_schema_ir jc ir)"
proof -
  let ?s0 = "\<lparr>ip_ids = hm_empty, ip_max = 0, ip_types = hm_empty, ip_names = []\<rparr>"
  show ?thesis
    unfolding validate_schema_ir_def Let_def
  proof (intro no_panic_intros no_panic_sorted_unique no_panic_parse_domain no_panic_check_type [OF jc]
      no_panic_owner)
    fix s n u
    assume fold: "r_fold (check_type jc) (accepted_types ir) ?s0 = Inr s"
      and owners: "r_each (validate_owner (ip_types s) (property_index_of (accepted_types ir)))
          (accepted_types ir) = Inr u"
      and n: "n \<in> set (sir_nodes ir)"
    let ?e = "\<lparr>ac_kind = KNode, ac_name = ni_name n, ac_type_id = ni_type_id n,
      ac_incarnation = Some (ni_table_incarnation_id n), ac_properties = ni_properties n\<rparr>"
    have e: "?e \<in> set (accepted_types ir)" using n accepted_node_iff [of ?e ir] by auto
    have "hm_get (ip_types s) (ni_type_id n) = Some ?e"
      using check_types_covers [OF fold] e type_index_get [of "accepted_types ir" "ni_type_id n" ?e]
      by (simp add: covers_def distinct_type_ids flip: type_index_of_def)
    then show "no_panic (validate_node_ir jc (ip_types s) (property_index_of (accepted_types ir)) n)"
      using owners e owner_satisfaction_found [of _ _ ?e] jc by (intro no_panic_node) auto
  next
    fix s d
    assume fold: "r_fold (check_type jc) (accepted_types ir) ?s0 = Inr s"
      and d: "d \<in> set (sir_edges ir)"
    let ?e = "\<lparr>ac_kind = KEdge, ac_name = ei_name d, ac_type_id = ei_type_id d,
      ac_incarnation = Some (ei_table_incarnation_id d), ac_properties = ei_properties d\<rparr>"
    have e: "?e \<in> set (accepted_types ir)" using d accepted_edge_iff [of ?e ir] by auto
    have "hm_get (ip_types s) (ei_type_id d) = Some ?e"
      using check_types_covers [OF fold] e type_index_get [of "accepted_types ir" "ei_type_id d" ?e]
      by (simp add: covers_def distinct_type_ids flip: type_index_of_def)
    then show "no_panic (validate_edge_ir jc (ip_types s) (property_index_of (accepted_types ir)) d)"
      using jc by (intro no_panic_edge) simp_all
  qed
qed

section \<open>The interface contracts of a validated schema\<close>

lemma validated_property_names:
  assumes "validate_schema_ir jc ir = Inr u" and "e \<in> set (accepted_types ir)"
  shows "strictly_sorted (map pi_name (ac_properties e))"
  using validate_schema_ir_parts(9) [OF assms]
  by (simp add: validate_owner_def ensure_sorted_unique_iff)

lemma validated_endpoint:
  assumes ok: "validate_schema_ir jc ir = Inr ()" and e: "e \<in> set (sir_edges ir)"
    and r: "r \<in> {ei_from_type e, ei_to_type e}"
  shows "\<exists>n \<in> set (sir_nodes ir). ni_type_id n = tr_type_id r \<and> ni_name n = tr_type_name r"
proof -
  from validate_schema_ir_parts(11) [OF ok e] r
  have "validate_type_ref r KNode (validated_types ir) = Inr ()"
    by (auto simp: validate_edge_ir_def)
  then obtain t where "t \<in> set (accepted_types ir) \<and> ac_kind t = KNode"
      and "ac_type_id t = tr_type_id r" "ac_name t = tr_type_name r"
    by (auto simp: validate_type_ref_iff type_index_validated [OF ok])
  then show ?thesis unfolding accepted_node_iff by auto
qed

text \<open>A node satisfies the property \<open>p\<close> of the type \<open>t\<close>: one of its properties links to it.\<close>

definition satisfies :: "node_ir \<Rightarrow> u64 \<Rightarrow> property_ir \<Rightarrow> bool" where
  "satisfies n t p \<longleftrightarrow>
     (\<exists>q \<in> set (ni_properties n). pi_prop_type q = pi_prop_type p \<and>
        (\<exists>s \<in> set (pi_satisfies_interface_properties q).
           pr_owner_type_id s = t \<and> pr_property_id s = pi_property_id p))"

lemma validated_contract:
  assumes ok: "validate_schema_ir jc ir = Inr ()" and n: "n \<in> set (sir_nodes ir)"
    and t: "t \<in> set (accepted_types ir)" "ac_type_id t \<in> set (map tr_type_id (ni_implements n))"
    and p: "p \<in> set (ac_properties t)"
  shows "satisfies n (ac_type_id t) p"
proof -
  note valid = validate_schema_ir_parts(10) [OF ok n]
  have "validate_contract (validated_types ir) n (ac_type_id t) = Inr ()"
    using valid t(2) by (auto simp: validate_node_ir_def Let_def)
  moreover have "hm_get (validated_types ir) (ac_type_id t) = Some t"
    using t type_index_validated [OF ok] by simp
  ultimately have "links_contract n (ac_type_id t) p"
    using p by (auto simp: validate_contract_def)
  then obtain q s where q: "q \<in> set (ni_properties n)"
      "s \<in> set (pi_satisfies_interface_properties q)" "pr_owner_type_id s = ac_type_id t"
      "pr_property_id s = pi_property_id p"
    by (auto simp: links_contract_def list_ex_iff)
  from valid q(1,2) have "validate_node_satisfaction (validated_properties ir)
      (remdups (map tr_type_id (ni_implements n))) n q s = Inr ()"
    by (auto simp: validate_node_ir_def Let_def)
  then obtain e ip where "hm_get (validated_properties ir) (pr_property_id s) = Some (e, ip)"
      "pi_prop_type ip = pi_prop_type q"
    by (auto simp: validate_node_satisfaction_def)
  moreover have "hm_get (validated_properties ir) (pr_property_id s) = Some (t, p)"
    using t p q(4) property_index_validated [OF ok] by simp
  ultimately show ?thesis using q by (auto simp: satisfies_def)
qed

lemma validated_implements:
  assumes ok: "validate_schema_ir jc ir = Inr ()" and n: "n \<in> set (sir_nodes ir)"
    and r: "r \<in> set (ni_implements n)"
  shows "\<exists>i \<in> set (sir_interfaces ir). ii_type_id i = tr_type_id r \<and> ii_name i = tr_type_name r \<and>
    (\<forall>p \<in> set (ii_properties i). satisfies n (ii_type_id i) p)"
proof -
  have "validate_type_refs_from None (ni_implements n) KInterface (validated_types ir) = Inr ()"
    using validate_schema_ir_parts(10) [OF ok n]
    by (auto simp: validate_node_ir_def validate_type_refs_def Let_def)
  from validate_type_refs_found [OF this r]
  obtain t where t: "t \<in> set (accepted_types ir) \<and> ac_kind t = KInterface"
      "ac_type_id t = tr_type_id r" "ac_name t = tr_type_name r"
    by (auto simp: type_index_validated [OF ok])
  then obtain i where "i \<in> set (sir_interfaces ir)" "ii_type_id i = tr_type_id r"
      "ii_name i = tr_type_name r" "ac_properties t = ii_properties i"
    unfolding accepted_interface_iff by auto
  moreover have "satisfies n (ac_type_id t) p" if "p \<in> set (ac_properties t)" for p
    using validated_contract [OF ok n _ _ that] t r by auto
  ultimately show ?thesis using t(2) by auto
qed

text \<open>
  C34: in a validated schema no identity value is used twice, across types, properties and
  tables, and all lie below the next value to hand out; every implemented interface and every
  edge endpoint names, by identity and by name, a declaration of the right kind; and every
  property of an implemented interface is satisfied by a property of the node with the same
  type.
\<close>

theorem validated_schema_sound:
  assumes ok: "validate_schema_ir jc ir = Inr ()"
  shows "distinct (schema_identities ir) \<and>
    (\<forall>i \<in> set (schema_identities ir). i < sir_next_identity_id ir) \<and>
    (\<forall>e \<in> set (sir_edges ir). \<forall>r \<in> {ei_from_type e, ei_to_type e}.
       \<exists>n \<in> set (sir_nodes ir). ni_type_id n = tr_type_id r \<and> ni_name n = tr_type_name r) \<and>
    (\<forall>n \<in> set (sir_nodes ir). \<forall>r \<in> set (ni_implements n).
       \<exists>i \<in> set (sir_interfaces ir). ii_type_id i = tr_type_id r \<and> ii_name i = tr_type_name r \<and>
         (\<forall>p \<in> set (ii_properties i). \<exists>q \<in> set (ni_properties n).
            pi_prop_type q = pi_prop_type p \<and>
            (\<exists>s \<in> set (pi_satisfies_interface_properties q).
               pr_owner_type_id s = ii_type_id i \<and> pr_property_id s = pi_property_id p)))"
  using validate_schema_ir_parts(3,4) [OF ok] validated_endpoint [OF ok]
    validated_implements [OF ok, unfolded satisfies_def]
  by (intro conjI ballI) auto

end
