(* ===== verification/Catalog_IR.thy ===== *)
theory Catalog_IR
  imports Catalog Schema_Validate_Facts
begin

text \<open>
  The catalog built from an accepted schema (\<^verbatim>\<open>build_catalog_from_ir\<close> in
  \<^verbatim>\<open>omnigraph-compiler/src/catalog/mod.rs\<close>): what the engine runs on, bound to the identities the
  schema was accepted with. It is as well formed as one built from source declarations, so the
  guarantees of the type checker and of the lowering hold for it too.
\<close>

section \<open>Building\<close>

datatype ir_catalog_error =
    InvalidSchema schema_fault
  | KeyNotProperty string
  | KeyEmpty string
  | KeyRepeats string
  | FoldedCollision string string
  | ArrowPanic

definition ir_properties :: "property_ir list \<Rightarrow> (string, prop_type) hmap" where
  "ir_properties props = fold (\<lambda>(k, v). hm_insert k v)
     (map (\<lambda>p. (pi_name p, pi_prop_type p)) props) hm_empty"

definition ir_blob_properties :: "property_ir list \<Rightarrow> string set" where
  "ir_blob_properties props =
     set (map pi_name (filter (\<lambda>p. pt_scalar (pi_prop_type p) = SBlob) props))"

definition ir_embed_sources :: "property_ir list \<Rightarrow> (string, embed_source) hmap" where
  "ir_embed_sources props = fold (\<lambda>(k, v). hm_insert k v)
     (List.map_filter (\<lambda>p. map_option
        (\<lambda>e. (pi_name p, \<lparr>emb_source = pr_property_name (es_source e), emb_model = es_model e\<rparr>))
        (pi_embed_source p)) props) hm_empty"

definition ir_field :: "property_ir \<Rightarrow> ir_catalog_error + arrow_field" where
  "ir_field p =
     (case to_arrow (pi_prop_type p) of
        None \<Rightarrow> Inl ArrowPanic
      | Some dt \<Rightarrow> Inr (Field (pi_name p) dt (pt_nullable (pi_prop_type p))))"

definition key_field :: "string \<Rightarrow> field_ref_ir \<Rightarrow> ir_catalog_error + (u64 \<times> string)" where
  "key_field node f =
     (case f of
        FProperty r \<Rightarrow> Inr (pr_property_id r, pr_property_name r)
      | FSystem r \<Rightarrow> Inl (KeyNotProperty node))"

text \<open>The columns of a key, in the order of their property identities.\<close>

definition key_columns :: "string \<Rightarrow> field_ref_ir list \<Rightarrow> ir_catalog_error + string list" where
  "key_columns node fs =
     r_bind (r_map (key_field node) fs) (\<lambda>stable.
     let stable_fields = sort_key fst stable in
     if stable_fields = [] then Inl (KeyEmpty node)
     else if any_window (\<lambda>a b. fst a = fst b) stable_fields then Inl (KeyRepeats node)
     else Inr (map snd stable_fields))"

fun add_node_constraint_ir ::
    "string \<Rightarrow> constraint_ir \<Rightarrow> constraint_acc \<Rightarrow> ir_catalog_error + constraint_acc" where
  "add_node_constraint_ir node (KeyIR fs) acc =
     r_bind (key_columns node fs) (\<lambda>cols.
       Inr (acc\<lparr>ca_key := Some cols, ca_indices := ca_indices acc @ [cols]\<rparr>))"
| "add_node_constraint_ir node c acc = Inr (add_node_constraint (constraint_from_ir c) acc)"

definition build_node_type_ir :: "node_ir \<Rightarrow> ir_catalog_error + node_type" where
  "build_node_type_ir node =
     r_bind (r_fold (add_node_constraint_ir (ni_name node)) (ni_constraints node)
               empty_constraint_acc) (\<lambda>acc.
     r_bind (r_map ir_field (ni_properties node)) (\<lambda>flds.
       Inr \<lparr>nt_name = ni_name node,
            nt_implements = map tr_type_name (ni_implements node),
            nt_properties = ir_properties (ni_properties node),
            nt_key = ca_key acc,
            nt_unique_constraints = ca_unique acc,
            nt_indices = ca_indices acc,
            nt_range_constraints = ca_range acc,
            nt_check_constraints = ca_check acc,
            nt_embed_sources = ir_embed_sources (ni_properties node),
            nt_blob_properties = ir_blob_properties (ni_properties node),
            nt_arrow_schema = system_field ''id'' # flds\<rparr>))"

definition build_edge_type_ir :: "edge_ir \<Rightarrow> ir_catalog_error + edge_type" where
  "build_edge_type_ir edge =
     (let acc = fold (\<lambda>c. add_edge_constraint (constraint_from_ir c)) (ei_constraints edge)
                  empty_constraint_acc in
      r_bind (r_map ir_field (ei_properties edge)) (\<lambda>flds.
        Inr \<lparr>et_name = ei_name edge,
             et_from_type = tr_type_name (ei_from_type edge),
             et_to_type = tr_type_name (ei_to_type edge),
             et_cardinality = ei_cardinality edge,
             et_properties = ir_properties (ei_properties edge),
             et_unique_constraints = ca_unique acc,
             et_indices = ca_indices acc,
             et_blob_properties = ir_blob_properties (ei_properties edge),
             et_arrow_schema =
               [system_field ''id'', system_field ''src'', system_field ''dst''] @ flds\<rparr>))"

definition add_node_ir ::
    "node_ir \<Rightarrow> (string, node_type) hmap \<Rightarrow> ir_catalog_error + (string, node_type) hmap" where
  "add_node_ir node m =
     r_bind (build_node_type_ir node) (\<lambda>nt. Inr (hm_insert (ni_name node) nt m))"

definition add_edge_ir ::
    "edge_ir \<Rightarrow> (string, edge_type) hmap \<times> (string, string) hmap \<Rightarrow>
       ir_catalog_error + (string, edge_type) hmap \<times> (string, string) hmap" where
  "add_edge_ir edge st =
     (let (edges, index) = st; normalized = normalize_edge_name (ei_name edge) in
      r_bind (build_edge_type_ir edge) (\<lambda>et.
      r_bind (case hm_get index normalized of
                Some existing \<Rightarrow> guard (existing = ei_name edge) (FoldedCollision (ei_name edge) existing)
              | None \<Rightarrow> Inr ()) (\<lambda>_.
      Inr (hm_insert (ei_name edge) et edges, hm_insert normalized (ei_name edge) index))))"

definition ir_interfaces :: "interface_ir list \<Rightarrow> (string, interface_type) hmap" where
  "ir_interfaces xs = fold (\<lambda>(k, v). hm_insert k v)
     (map (\<lambda>i. (ii_name i, \<lparr>it_name = ii_name i, it_properties = ir_properties (ii_properties i)\<rparr>)) xs)
     hm_empty"

definition build_catalog_from_ir :: "codec \<Rightarrow> schema_ir \<Rightarrow> ir_catalog_error + catalog" where
  "build_catalog_from_ir jc ir =
     r_bind (case validate_schema_ir jc ir of Inl e \<Rightarrow> Inl (InvalidSchema e) | Inr u \<Rightarrow> Inr u) (\<lambda>_.
     let interfaces = ir_interfaces (sir_interfaces ir) in
     r_bind (r_fold add_node_ir (sir_nodes ir) hm_empty) (\<lambda>nodes.
     r_bind (r_fold add_edge_ir (sir_edges ir) (hm_empty, hm_empty)) (\<lambda>(edges, index).
       Inr \<lparr>cat_node_types = nodes, cat_edge_types = edges, cat_edge_name_index = index,
            cat_interfaces = interfaces, cat_identity = Bound ir\<rparr>)))"

section \<open>What the passes insert\<close>

lemma ir_field_ok: "is_ok (r_map ir_field ps) \<longleftrightarrow> list_all (\<lambda>p. to_arrow (pi_prop_type p) \<noteq> None) ps"
  by (induction ps) (auto simp: ir_field_def is_ok_iff split: option.splits)

lemma ir_properties_wf:
  assumes "list_all (\<lambda>p. to_arrow (pi_prop_type p) \<noteq> None) ps"
  shows "props_wf (ir_properties ps)"
  unfolding props_wf_def
proof (intro conjI allI impI)
  show "hm_wf (ir_properties ps)"
    unfolding ir_properties_def by (rule hm.invar_fold_insert) simp
next
  fix p pt
  assume "hm_get (ir_properties ps) p = Some pt"
  then show "to_arrow pt \<noteq> None"
    unfolding ir_properties_def
    by (rule hm.get_fold_insert_all [rotated 3]) (use assms in \<open>auto simp: list_all_iff\<close>)
qed

lemma ir_properties_get:
  assumes "distinct (map pi_name ps)"
  shows "hm_get (ir_properties ps) p = Some pt \<longleftrightarrow> (\<exists>q \<in> set ps. pi_name q = p \<and> pi_prop_type q = pt)"
proof -
  have "hm_get (ir_properties ps) p = map_of (rev (map (\<lambda>q. (pi_name q, pi_prop_type q)) ps)) p"
    by (simp add: ir_properties_def hm.get_fold_insert split: option.splits)
  then show ?thesis using map_of_rev_keyed [OF assms, of pi_prop_type p pt] by auto
qed

lemma node_pass_ir:
  assumes "r_fold add_node_ir ns m = Inr m'" and "distinct (map ni_name ns)" and "hm_wf m"
  shows "hm_wf m'"
    and "hm_get m' k = Some nt \<longleftrightarrow>
      (\<exists>n \<in> set ns. ni_name n = k \<and> build_node_type_ir n = Inr nt) \<or>
      k \<notin> ni_name ` set ns \<and> hm_get m k = Some nt"
proof -
  have "hm_wf m' \<and> (hm_get m' k = Some nt \<longleftrightarrow>
      (\<exists>n \<in> set ns. ni_name n = k \<and> build_node_type_ir n = Inr nt) \<or>
      k \<notin> ni_name ` set ns \<and> hm_get m k = Some nt)"
    using assms
  proof (induction ns arbitrary: m)
    case (Cons n ns)
    from Cons.prems(1) obtain m1 where "add_node_ir n m = Inr m1" "r_fold add_node_ir ns m1 = Inr m'"
      by auto
    then obtain t where t: "build_node_type_ir n = Inr t"
      and rest: "r_fold add_node_ir ns (hm_insert (ni_name n) t m) = Inr m'"
      unfolding add_node_ir_def by auto
    from Cons.IH [OF rest] Cons.prems(2,3) t show ?case
      by (cases "k = ni_name n") (auto simp: hm_wf_insert image_iff)
  qed simp
  then show "hm_wf m'" and "hm_get m' k = Some nt \<longleftrightarrow>
      (\<exists>n \<in> set ns. ni_name n = k \<and> build_node_type_ir n = Inr nt) \<or>
      k \<notin> ni_name ` set ns \<and> hm_get m k = Some nt" by auto
qed

lemma build_node_type_ir_Inr:
  assumes "build_node_type_ir n = Inr nt"
  shows "nt_name nt = ni_name n" and "nt_properties nt = ir_properties (ni_properties n)"
    and "list_all (\<lambda>p. to_arrow (pi_prop_type p) \<noteq> None) (ni_properties n)"
  using assms ir_field_ok [of "ni_properties n"]
  by (auto simp: build_node_type_ir_def is_ok_iff)

lemma build_edge_type_ir_Inr:
  assumes "build_edge_type_ir e = Inr et"
  shows "et_name et = ei_name e" and "et_properties et = ir_properties (ei_properties e)"
    and "et_from_type et = tr_type_name (ei_from_type e)" and "et_to_type et = tr_type_name (ei_to_type e)"
    and "list_all (\<lambda>p. to_arrow (pi_prop_type p) \<noteq> None) (ei_properties e)"
  using assms ir_field_ok [of "ei_properties e"]
  by (auto simp: build_edge_type_ir_def Let_def is_ok_iff)

text \<open>
  The edge pass keeps the well-formedness that the type checker asks for, if the nodes hold the
  endpoints of every edge it visits and no edge name comes twice.
\<close>

lemma add_edge_ir_step:
  assumes wf: "edge_types_wf nodes s" and step: "add_edge_ir e s = Inr s'"
    and ends: "hm_contains nodes (tr_type_name (ei_from_type e))"
      "hm_contains nodes (tr_type_name (ei_to_type e))"
    and new: "\<not> hm_contains (fst s) (ei_name e)"
  shows "edge_types_wf nodes s'" and "\<exists>et. build_edge_type_ir e = Inr et \<and>
    s' = (hm_insert (ei_name e) et (fst s),
          hm_insert (normalize_edge_name (ei_name e)) (ei_name e) (snd s))"
proof -
  let ?n = "normalize_edge_name (ei_name e)"
  from step obtain et where et: "build_edge_type_ir e = Inr et"
    and s': "s' = (hm_insert (ei_name e) et (fst s), hm_insert ?n (ei_name e) (snd s))"
    and idx: "hm_get (snd s) ?n = None \<or> hm_get (snd s) ?n = Some (ei_name e)"
    by (cases s) (auto simp: add_edge_ir_def Let_def split: option.splits)
  from idx wf new have none: "hm_get (snd s) ?n = None" by (auto simp: edge_types_wf_def)
  have clash: "hm_get (fst s) k = None" if "normalize_edge_name k = ?n" for k
    using wf none that by (cases "hm_get (fst s) k") (fastforce simp: edge_types_wf_def)+
  show "edge_types_wf nodes s'"
    using wf build_edge_type_ir_Inr [OF et] ends none new clash ir_properties_wf
    unfolding s' edge_types_wf_def
    by (auto simp: hm_wf_insert hm_contains_def split: if_splits)
  show "\<exists>et. build_edge_type_ir e = Inr et \<and>
    s' = (hm_insert (ei_name e) et (fst s), hm_insert ?n (ei_name e) (snd s))"
    using et s' by blast
qed

lemma edge_pass_ir:
  assumes "r_fold add_edge_ir es s = Inr s'" and "distinct (map ei_name es)"
    and "edge_types_wf nodes s"
    and "\<And>e. e \<in> set es \<Longrightarrow> hm_contains nodes (tr_type_name (ei_from_type e)) \<and>
      hm_contains nodes (tr_type_name (ei_to_type e)) \<and> \<not> hm_contains (fst s) (ei_name e)"
  shows "edge_types_wf nodes s' \<and> (\<forall>k et. hm_get (fst s') k = Some et \<longleftrightarrow>
      (\<exists>e \<in> set es. ei_name e = k \<and> build_edge_type_ir e = Inr et) \<or> hm_get (fst s) k = Some et)"
  using assms
proof (induction es arbitrary: s)
  case (Cons e es)
  from Cons.prems(1) obtain s1 where step: "add_edge_ir e s = Inr s1"
    and rest: "r_fold add_edge_ir es s1 = Inr s'" by auto
  have head: "hm_contains nodes (tr_type_name (ei_from_type e))"
    "hm_contains nodes (tr_type_name (ei_to_type e))" "\<not> hm_contains (fst s) (ei_name e)"
    using Cons.prems(4) [of e] by auto
  note one = add_edge_ir_step [OF Cons.prems(3) step head]
  from one(2) obtain et where et: "build_edge_type_ir e = Inr et"
    and s1: "fst s1 = hm_insert (ei_name e) et (fst s)" by auto
  have later: "hm_contains nodes (tr_type_name (ei_from_type d)) \<and>
      hm_contains nodes (tr_type_name (ei_to_type d)) \<and> \<not> hm_contains (fst s1) (ei_name d)"
    if "d \<in> set es" for d
  proof -
    have "ei_name d \<noteq> ei_name e" using Cons.prems(2) that by (metis distinct.simps(2) image_eqI list.simps(9) set_map)
    with Cons.prems(4) [of d] that show ?thesis by (simp add: s1 hm_contains_def)
  qed
  have "distinct (map ei_name es)" using Cons.prems(2) by simp
  from Cons.IH [OF rest this one(1) later]
  have IH: "edge_types_wf nodes s'" "\<And>k t. hm_get (fst s') k = Some t \<longleftrightarrow>
      (\<exists>d \<in> set es. ei_name d = k \<and> build_edge_type_ir d = Inr t) \<or> hm_get (fst s1) k = Some t"
    by auto
  have "hm_get (fst s1) k = Some t \<longleftrightarrow> k = ei_name e \<and> t = et \<or> hm_get (fst s) k = Some t" for k t
    using head(3) by (auto simp: s1 hm_contains_def)
  with IH et show ?case by auto
qed simp

section \<open>Properties\<close>

lemma build_catalog_from_ir_Inr:
  assumes "build_catalog_from_ir jc ir = Inr cat"
  shows "validate_schema_ir jc ir = Inr ()"
    and "r_fold add_node_ir (sir_nodes ir) hm_empty = Inr (cat_node_types cat)"
    and "r_fold add_edge_ir (sir_edges ir) (hm_empty, hm_empty) =
      Inr (cat_edge_types cat, cat_edge_name_index cat)"
    and "cat_identity cat = Bound ir"
  using assms by (auto simp: build_catalog_from_ir_def Let_def split: sum.splits prod.splits)

lemma find_declared:
  assumes "distinct (map f xs)" and "x \<in> set xs"
  shows "find (\<lambda>y. f y = f x) xs = Some x"
  using assms by (induction xs) (auto simp: image_iff)

text \<open>
  A map of properties that holds what a list of declarations says, the Arrow columns of the
  declarations, and the catalog's view of a node and of an edge of the schema. The endpoints of an
  edge are given by the identities it refers to, not by the names stored next to them.
\<close>

definition declares :: "property_ir list \<Rightarrow> (string, prop_type) hmap \<Rightarrow> bool" where
  "declares ps m \<longleftrightarrow> (\<forall>p. hm_get m p = map_option pi_prop_type (find (\<lambda>q. pi_name q = p) ps))"

definition arrow_columns :: "property_ir list \<Rightarrow> arrow_field list" where
  "arrow_columns ps =
     map (\<lambda>p. Field (pi_name p) (the (to_arrow (pi_prop_type p))) (pt_nullable (pi_prop_type p))) ps"

definition blobs_of :: "property_ir list \<Rightarrow> string set" where
  "blobs_of ps = {pi_name p |p. p \<in> set ps \<and> pt_scalar (pi_prop_type p) = SBlob}"

definition node_matches :: "node_ir \<Rightarrow> node_type \<Rightarrow> bool" where
  "node_matches n nt \<longleftrightarrow>
     nt_name nt = ni_name n \<and> nt_implements nt = map tr_type_name (ni_implements n) \<and>
     declares (ni_properties n) (nt_properties nt) \<and> nt_blob_properties nt = blobs_of (ni_properties n) \<and>
     nt_arrow_schema nt = system_field ''id'' # arrow_columns (ni_properties n)"

definition names_node :: "schema_ir \<Rightarrow> type_ref_ir \<Rightarrow> string \<Rightarrow> bool" where
  "names_node ir r name \<longleftrightarrow> (\<exists>n \<in> set (sir_nodes ir). ni_type_id n = tr_type_id r \<and> ni_name n = name)"

definition edge_matches :: "schema_ir \<Rightarrow> edge_ir \<Rightarrow> edge_type \<Rightarrow> bool" where
  "edge_matches ir e et \<longleftrightarrow>
     et_name et = ei_name e \<and> et_cardinality et = ei_cardinality e \<and>
     names_node ir (ei_from_type e) (et_from_type et) \<and> names_node ir (ei_to_type e) (et_to_type et) \<and>
     declares (ei_properties e) (et_properties et) \<and> et_blob_properties et = blobs_of (ei_properties e) \<and>
     et_arrow_schema et =
       [system_field ''id'', system_field ''src'', system_field ''dst''] @ arrow_columns (ei_properties e)"

lemma ir_properties_declares:
  assumes "distinct (map pi_name ps)"
  shows "declares ps (ir_properties ps)"
  unfolding declares_def
proof
  fix p
  have found: "find (\<lambda>q. pi_name q = p) ps = Some q" if "q \<in> set ps" "pi_name q = p" for q
    using find_declared [OF assms that(1)] that(2) by simp
  show "hm_get (ir_properties ps) p = map_option pi_prop_type (find (\<lambda>q. pi_name q = p) ps)"
  proof (cases "find (\<lambda>q. pi_name q = p) ps")
    case None
    then show ?thesis
      using ir_properties_get [OF assms, of p] by (cases "hm_get (ir_properties ps) p") (auto simp: find_None_iff)
  next
    case (Some q)
    then have "q \<in> set ps" "pi_name q = p" by (auto simp: find_Some_iff)
    then show ?thesis
      using ir_properties_get [OF assms, of p "pi_prop_type q"] Some by auto
  qed
qed

lemma ir_fields_columns: "r_map ir_field ps = Inr fs \<Longrightarrow> fs = arrow_columns ps"
  by (induction ps arbitrary: fs) (auto simp: arrow_columns_def ir_field_def split: option.splits)

lemma ir_blobs: "ir_blob_properties ps = blobs_of ps"
  by (auto simp: ir_blob_properties_def blobs_of_def)

lemma build_node_type_ir_matches:
  assumes "build_node_type_ir n = Inr nt" and "distinct (map pi_name (ni_properties n))"
  shows "node_matches n nt"
  using assms(1) ir_properties_declares [OF assms(2)]
  by (auto simp: build_node_type_ir_def node_matches_def ir_blobs dest!: ir_fields_columns)

lemma build_edge_type_ir_matches:
  assumes "build_edge_type_ir e = Inr et" and "distinct (map pi_name (ei_properties e))"
    and "names_node ir (ei_from_type e) (tr_type_name (ei_from_type e))"
    and "names_node ir (ei_to_type e) (tr_type_name (ei_to_type e))"
  shows "edge_matches ir e et"
  using assms ir_properties_declares [OF assms(2)]
  by (auto simp: build_edge_type_ir_def edge_matches_def ir_blobs Let_def dest!: ir_fields_columns)

lemma validated_names_distinct:
  assumes "validate_schema_ir jc ir = Inr u"
  shows "n \<in> set (sir_nodes ir) \<Longrightarrow> distinct (map pi_name (ni_properties n))"
    and "e \<in> set (sir_edges ir) \<Longrightarrow> distinct (map pi_name (ei_properties e))"
  using validated_property_names [OF assms] by (force simp: accepted_types_def)+

text \<open>
  C24: a catalog built from an accepted schema is well formed and bound to it. Its node and edge
  types are exactly those of the schema, each under its name with the identity it was accepted with;
  a type has exactly the declared properties with their types, their Arrow columns in order and the
  blob ones marked; and the endpoints of an edge are the names of the nodes whose identities it
  refers to. What the type checker and the lowering guarantee for well-formed catalogs therefore
  holds at run time.
\<close>

theorem accepted_catalog_well_formed:
  assumes built: "build_catalog_from_ir jc ir = Inr cat"
  shows "catalog_wf cat \<and> bound_schema_ir cat = Some ir \<and>
     set (hm_keys (cat_node_types cat)) = ni_name ` set (sir_nodes ir) \<and>
     set (hm_keys (cat_edge_types cat)) = ei_name ` set (sir_edges ir) \<and>
     (\<forall>n \<in> set (sir_nodes ir). node_type_id cat (ni_name n) = Some (ni_type_id n) \<and>
        (\<exists>nt. hm_get (cat_node_types cat) (ni_name n) = Some nt \<and> node_matches n nt)) \<and>
     (\<forall>e \<in> set (sir_edges ir). edge_type_id cat (ei_name e) = Some (ei_type_id e) \<and>
        (\<exists>et. hm_get (cat_edge_types cat) (ei_name e) = Some et \<and> edge_matches ir e et))"
proof -
  note parts = build_catalog_from_ir_Inr [OF built]
  note valid = validate_schema_ir_parts [OF parts(1)]
  have names: "distinct (map ni_name (sir_nodes ir))" "distinct (map ei_name (sir_edges ir))"
    using valid(7,8) by simp_all
  note nodes = node_pass_ir [OF parts(2) names(1) hm_wf_empty(1), simplified]
  have node: "\<exists>nt. hm_get (cat_node_types cat) (ni_name n) = Some nt \<and> node_matches n nt"
    if n: "n \<in> set (sir_nodes ir)" for n
  proof -
    obtain nt where "build_node_type_ir n = Inr nt"
      using r_fold_in [OF parts(2) n] by (auto simp: add_node_ir_def)
    with n nodes(2) build_node_type_ir_matches [OF this validated_names_distinct(1) [OF parts(1) n]]
    show ?thesis by blast
  qed
  then have node_in: "hm_contains (cat_node_types cat) (ni_name n)" if "n \<in> set (sir_nodes ir)" for n
    using that unfolding hm_contains_iff by blast
  have ends: "hm_contains (cat_node_types cat) (tr_type_name (ei_from_type e)) \<and>
      hm_contains (cat_node_types cat) (tr_type_name (ei_to_type e)) \<and>
      \<not> hm_contains (fst (hm_empty, hm_empty)) (ei_name e)" if e: "e \<in> set (sir_edges ir)" for e
  proof -
    have "hm_contains (cat_node_types cat) (tr_type_name r)" if "r \<in> {ei_from_type e, ei_to_type e}" for r
      using validated_endpoint [OF parts(1) e that] node_in by metis
    then show ?thesis by (auto simp: hm_contains_def)
  qed
  have "edge_types_wf (cat_node_types cat) (hm_empty, hm_empty)" by (simp add: edge_types_wf_def)
  note edges = edge_pass_ir [OF parts(3) names(2) this ends, simplified]
  have "node_types_wf (cat_node_types cat)"
    using nodes build_node_type_ir_Inr ir_properties_wf by (auto simp: node_types_wf_def)
  with edges have "catalog_wf cat" by (simp add: catalog_wf_def)
  moreover have "bound_schema_ir cat = Some ir" by (simp add: bound_schema_ir_def parts(4))
  moreover have "\<exists>et. hm_get (cat_edge_types cat) (ei_name e) = Some et \<and> edge_matches ir e et"
    if e: "e \<in> set (sir_edges ir)" for e
  proof -
    obtain et where et: "build_edge_type_ir e = Inr et"
      using r_fold_in [OF parts(3) e] by (auto simp: add_edge_ir_def Let_def split: prod.splits)
    have "names_node ir r (tr_type_name r)" if "r \<in> {ei_from_type e, ei_to_type e}" for r
      using validated_endpoint [OF parts(1) e that] by (simp add: names_node_def)
    with et have "edge_matches ir e et"
      by (intro build_edge_type_ir_matches validated_names_distinct(2) [OF parts(1) e]) auto
    with et e edges show ?thesis by blast
  qed
  moreover have "set (hm_keys (cat_node_types cat)) = ni_name ` set (sir_nodes ir)"
    "set (hm_keys (cat_edge_types cat)) = ei_name ` set (sir_edges ir)"
    using nodes(2) edges node calculation(3) by (auto simp: hm_keys_get) blast+
  ultimately show ?thesis
    using node find_declared [OF names(1)] find_declared [OF names(2)]
    by (simp add: node_type_id_def edge_type_id_def)
qed

text \<open>The keys a catalog can carry: declared properties, at least one, none twice.\<close>

fun field_property_id :: "field_ref_ir \<Rightarrow> u64 option" where
  "field_property_id (FProperty r) = Some (pr_property_id r)"
| "field_property_id (FSystem r) = None"

fun key_ok :: "constraint_ir \<Rightarrow> bool" where
  "key_ok (KeyIR fs) \<longleftrightarrow>
     fs \<noteq> [] \<and> None \<notin> set (map field_property_id fs) \<and> distinct (map field_property_id fs)"
| "key_ok _ = True"

lemma any_window_sorted_eq:
  "sorted (map f xs) \<Longrightarrow> any_window (\<lambda>a b. f a = f b) xs \<longleftrightarrow> \<not> distinct (map (f :: 'a \<Rightarrow> 'k::linorder) xs)"
proof (induction "\<lambda>a b. f a = f b" xs rule: any_window.induct)
  case (1 x y zs)
  then show ?case by (auto simp: image_iff dest: order_antisym) (metis order_antisym)?
qed auto

lemma key_fields_Inr:
  "r_map (key_field node) fs = Inr ys \<longleftrightarrow>
     None \<notin> set (map field_property_id fs) \<and>
     ys = map (\<lambda>f. (the (field_property_id f), field_name f)) fs"
proof (induction fs arbitrary: ys)
  case (Cons f fs)
  then show ?case by (cases f) (auto simp: key_field_def)
qed auto

lemma key_columns_ok: "is_ok (key_columns node fs) \<longleftrightarrow> key_ok (KeyIR fs)"
proof (cases "None \<in> set (map field_property_id fs)")
  case False
  let ?ys = "map (\<lambda>f. (the (field_property_id f), field_name f)) fs"
  have ys: "r_map (key_field node) fs = Inr ?ys" using False by (simp only: key_fields_Inr simp_thms)
  have "inj_on the (set (map field_property_id fs))"
    using False by (auto intro!: inj_onI) (metis image_eqI option.collapse)
  then have dist: "distinct (map fst ?ys) \<longleftrightarrow> distinct (map field_property_id fs)"
    by (simp add: comp_def distinct_map inj_on_def image_iff) (metis option.expand)?
  have "any_window (\<lambda>a b. fst a = fst b) (sort_key fst ?ys) \<longleftrightarrow> \<not> distinct (map fst ?ys)"
    by (subst any_window_sorted_eq) (simp_all add: mset_eq_imp_distinct_iff [of "map fst (sort_key fst ?ys)"
          "map fst ?ys"] del: map_map)
  moreover have "sort_key fst ?ys = [] \<longleftrightarrow> fs = []"
    by (simp flip: length_0_conv)
  ultimately show ?thesis
    using False dist by (simp add: key_columns_def ys Let_def is_ok_iff)
next
  case True
  then have "\<not> is_ok (r_map (key_field node) fs)" by (auto simp: is_ok_iff key_fields_Inr)
  with True show ?thesis by (auto simp: key_columns_def is_ok_iff)
qed

lemma node_constraints_ok:
  "is_ok (r_fold (add_node_constraint_ir node) cs acc) \<longleftrightarrow> list_all key_ok cs"
proof (induction cs arbitrary: acc)
  case (Cons c cs)
  show ?case
  proof (cases "\<exists>fs. c = KeyIR fs")
    case True
    then obtain fs where c: "c = KeyIR fs" by blast
    show ?thesis
    proof (cases "key_columns node fs")
      case (Inl err)
      with key_columns_ok [of node fs] show ?thesis by (simp add: c del: key_ok.simps)
    next
      case (Inr cols)
      with key_columns_ok [of node fs] Cons.IH show ?thesis by (simp add: c del: key_ok.simps)
    qed
  next
    case False
    then show ?thesis using Cons.IH by (cases c) auto
  qed
qed simp

lemma build_node_type_ir_ok:
  "is_ok (build_node_type_ir n) \<longleftrightarrow> list_all key_ok (ni_constraints n) \<and>
     list_all (\<lambda>p. to_arrow (pi_prop_type p) \<noteq> None) (ni_properties n)"
  unfolding ir_field_ok [symmetric]
    node_constraints_ok [of "ni_name n" "ni_constraints n" empty_constraint_acc, symmetric]
  by (auto simp: build_node_type_ir_def is_ok_iff)

lemma node_pass_ir_ok:
  "is_ok (r_fold add_node_ir ns m) \<longleftrightarrow> list_all (\<lambda>n. is_ok (build_node_type_ir n)) ns"
proof (induction ns arbitrary: m)
  case (Cons n ns)
  then show ?case by (cases "build_node_type_ir n") (auto simp: add_node_ir_def)
qed simp

lemma build_edge_type_ir_ok:
  "is_ok (build_edge_type_ir e) \<longleftrightarrow>
     list_all (\<lambda>p. to_arrow (pi_prop_type p) \<noteq> None) (ei_properties e)"
  unfolding ir_field_ok [symmetric] by (auto simp: build_edge_type_ir_def Let_def is_ok_iff)

text \<open>The edge pass refuses two names that fold together; equal names are ruled out before it.\<close>

lemma edge_pass_ir_ok:
  assumes "distinct (map ei_name es)"
    and "\<And>n k. hm_get (snd s) n = Some k \<Longrightarrow> k \<notin> ei_name ` set es"
  shows "is_ok (r_fold add_edge_ir es s) \<longleftrightarrow>
     list_all (\<lambda>e. is_ok (build_edge_type_ir e)) es \<and>
     distinct (map (\<lambda>e. normalize_edge_name (ei_name e)) es) \<and>
     (\<forall>e \<in> set es. hm_get (snd s) (normalize_edge_name (ei_name e)) = None)"
  using assms
proof (induction es arbitrary: s)
  case (Cons e es)
  let ?n = "normalize_edge_name (ei_name e)"
  show ?case
  proof (cases "is_ok (build_edge_type_ir e) \<and> hm_get (snd s) ?n = None")
    case False
    have "hm_get (snd s) ?n \<noteq> Some (ei_name e)" using Cons.prems(2) [of ?n "ei_name e"] by auto
    with False have "\<not> is_ok (add_edge_ir e s)"
      by (auto simp: add_edge_ir_def Let_def is_ok_iff split: prod.splits option.splits)
    with False show ?thesis by (auto simp: is_ok_iff)
  next
    case True
    then obtain et where et: "build_edge_type_ir e = Inr et" by (auto simp: is_ok_iff)
    let ?s = "(hm_insert (ei_name e) et (fst s), hm_insert ?n (ei_name e) (snd s))"
    have step: "add_edge_ir e s = Inr ?s"
      using True et by (cases s) (simp add: add_edge_ir_def Let_def)
    have "k \<notin> ei_name ` set es" if "hm_get (snd ?s) n = Some k" for n k
      using that Cons.prems(1) Cons.prems(2) [of n k] by (auto split: if_splits)
    with Cons.IH [of ?s] Cons.prems(1) have
      "is_ok (r_fold add_edge_ir es ?s) \<longleftrightarrow>
        list_all (\<lambda>e. is_ok (build_edge_type_ir e)) es \<and>
        distinct (map (\<lambda>e. normalize_edge_name (ei_name e)) es) \<and>
        (\<forall>d \<in> set es. hm_get (snd ?s) (normalize_edge_name (ei_name d)) = None)" by simp
    with True show ?thesis by (auto simp: step image_iff split: if_splits)
  qed
qed simp

text \<open>
  C25: an accepted schema has a runtime catalog exactly when it validates, its keys name declared
  properties without repetition, its property types have Arrow forms and its edge names stay apart
  after case folding. Validation alone ensures none of the last three.
\<close>

theorem accepted_schema_has_catalog_iff:
  "is_ok (build_catalog_from_ir jc ir) \<longleftrightarrow>
     validate_schema_ir jc ir = Inr () \<and>
     list_all (\<lambda>n. list_all key_ok (ni_constraints n) \<and>
       list_all (\<lambda>p. to_arrow (pi_prop_type p) \<noteq> None) (ni_properties n)) (sir_nodes ir) \<and>
     list_all (\<lambda>e. list_all (\<lambda>p. to_arrow (pi_prop_type p) \<noteq> None) (ei_properties e)) (sir_edges ir) \<and>
     distinct (map (\<lambda>e. normalize_edge_name (ei_name e)) (sir_edges ir))"
proof (cases "validate_schema_ir jc ir")
  case (Inl err)
  then show ?thesis by (simp add: build_catalog_from_ir_def)
next
  case (Inr u)
  have "distinct (map ei_name (sir_edges ir))"
    using validate_schema_ir_parts(8) [OF Inr] by simp
  then have "is_ok (r_fold add_edge_ir (sir_edges ir) (hm_empty, hm_empty)) \<longleftrightarrow>
      list_all (\<lambda>e. is_ok (build_edge_type_ir e)) (sir_edges ir) \<and>
      distinct (map (\<lambda>e. normalize_edge_name (ei_name e)) (sir_edges ir))"
    by (subst edge_pass_ir_ok) simp_all
  moreover have "is_ok (build_catalog_from_ir jc ir) \<longleftrightarrow>
      is_ok (r_fold add_node_ir (sir_nodes ir) hm_empty) \<and>
      is_ok (r_fold add_edge_ir (sir_edges ir) (hm_empty, hm_empty))"
    by (auto simp: build_catalog_from_ir_def Inr Let_def is_ok_iff)
  ultimately show ?thesis
    by (simp add: Inr node_pass_ir_ok build_node_type_ir_ok build_edge_type_ir_ok)
qed

end
