(* ===== verification/Sample.thy ===== *)
theory Sample
  imports Catalog
begin

text \<open>
  A small schema for the closed instances of the theorems: the one of the compiler's own type
  checker tests (persons, companies, who knows whom and who works where), with a Blob, a list
  and a vector property added.
\<close>

definition plain_prop :: "string \<Rightarrow> prop_type \<Rightarrow> prop_decl" where
  "plain_prop n ty = \<lparr>pd_name = n, pd_type = ty, pd_annotations = []\<rparr>"

definition plain_node :: "string \<Rightarrow> prop_decl list \<Rightarrow> schema_decl" where
  "plain_node n ps = DNode \<lparr>nd_name = n, nd_annotations = [], nd_implements = [],
     nd_properties = ps, nd_constraints = [], nd_source_constraints = [],
     nd_property_origins = []\<rparr>"

definition plain_edge :: "string \<Rightarrow> string \<Rightarrow> string \<Rightarrow> prop_decl list \<Rightarrow> schema_decl" where
  "plain_edge n a b ps = DEdge \<lparr>ed_name = n, ed_from_type = a, ed_to_type = b,
     ed_cardinality = \<lparr>card_min = 0, card_max = None\<rparr>, ed_annotations = [],
     ed_properties = ps, ed_constraints = []\<rparr>"

definition sample_schema :: schema_file where
  "sample_schema = \<lparr>sf_declarations =
     [plain_node ''Person''
        [plain_prop ''name'' (pt_of_scalar SString False),
         plain_prop ''age'' (pt_of_scalar SI32 True),
         plain_prop ''tags'' (list_of SString True),
         plain_prop ''photo'' (pt_of_scalar SBlob True),
         plain_prop ''vec'' (pt_of_scalar (SVector 2) True)],
      plain_node ''Company'' [plain_prop ''name'' (list_of SString False)],
      plain_edge ''Knows'' ''Person'' ''Person'' [plain_prop ''since'' (pt_of_scalar SDate True)],
      plain_edge ''WorksAt'' ''Person'' ''Company''
        [plain_prop ''title'' (pt_of_scalar SString True)]]\<rparr>"

definition sample_catalog :: catalog where
  "sample_catalog = (case build_catalog sample_schema of
     Inr cat \<Rightarrow> cat
   | Inl _ \<Rightarrow> \<lparr>cat_node_types = [], cat_edge_types = [], cat_edge_name_index = [],
               cat_interfaces = [], cat_identity = SourceUnbound\<rparr>)"

lemma build_sample: "build_catalog sample_schema = Inr sample_catalog"
proof -
  have "is_ok (build_catalog sample_schema)" by code_simp
  then show ?thesis by (auto simp: sample_catalog_def is_ok_iff)
qed

end
