(* ===== verification/Schema_Resolve.thy ===== *)
theory Schema_Resolve
  imports Schema_Validate
begin

text \<open>
  Resolving a desired shape against the accepted schema
  (\<^verbatim>\<open>initialize_schema_ir\<close>, \<^verbatim>\<open>resolve_schema_ir\<close> and \<^verbatim>\<open>resolve\<close> in
  \<^verbatim>\<open>omnigraph-compiler/src/catalog/schema_ir.rs\<close>): types and properties are matched by name
  or by an explicit rename hint, what is matched keeps its identity and what is new draws the
  next values of one sequence in canonical order: types, then properties, then tables.
\<close>

section \<open>Data\<close>

datatype diagnostic_kind = InertInitializationRenameHint | IgnoredExactMatchRenameHint

record identity_diagnostic =
  dg_kind :: diagnostic_kind
  dg_entity :: string
  dg_hint :: string

record schema_resolution =
  sr_schema_ir :: schema_ir
  sr_diagnostics :: "identity_diagnostic list"

record assigned_type =
  at_type_id :: stable_type_id
  at_incarnation :: "table_incarnation_id option"
  at_matched :: bool

type_synonym type_assignments = "(type_kind \<times> string, assigned_type) bmap"
type_synonym property_assignments = "(stable_type_id \<times> string, stable_property_id) bmap"

abbreviation resolution_err :: "resolution_error \<Rightarrow> 'a identity_result" where
  "resolution_err e \<equiv> Inl (IdentityErr (ResolutionError e))"

section \<open>The allocator\<close>

record allocator =
  al_next :: u64

definition new_allocator :: "u64 \<Rightarrow> allocator identity_result" where
  "new_allocator n =
     (if n = 0 then Inl (IdentityErr (ZeroId ''next_identity_id'' n)) else Inr \<lparr>al_next = n\<rparr>)"

text \<open>\<^verbatim>\<open>u64::MAX\<close> is never handed out: the counter could not move past it.\<close>

definition allocate :: "allocator \<Rightarrow> (u64 \<times> allocator) identity_result" where
  "allocate al =
     (if al_next al = - 1 then Inl (IdentityErr AllocatorExhausted)
      else Inr (al_next al, al\<lparr>al_next := al_next al + 1\<rparr>))"

text \<open>\<^verbatim>\<open>TryFrom<u64>\<close> of the identity newtypes.\<close>

definition try_from_u64 :: "string \<Rightarrow> u64 \<Rightarrow> u64 identity_result" where
  "try_from_u64 label v = (if v = 0 then Inl (IdentityErr (ZeroId label v)) else Inr v)"

definition mint :: "string \<Rightarrow> allocator \<Rightarrow> (u64 \<times> allocator) identity_result" where
  "mint label al =
     r_bind (allocate al) (\<lambda>(v, al'). r_bind (try_from_u64 label v) (\<lambda>i. Inr (i, al')))"

section \<open>Matching types\<close>

definition shape_types :: "schema_shape \<Rightarrow> (type_kind \<times> string \<times> string option) list" where
  "shape_types shape =
     map (\<lambda>e. (KInterface, is_name e, None)) (ss_interfaces shape) @
     map (\<lambda>e. (KNode, ns_name e, ns_rename_from e)) (ss_nodes shape) @
     map (\<lambda>e. (KEdge, es_name e, es_rename_from e)) (ss_edges shape)"

definition shape_properties :: "schema_shape \<Rightarrow> (type_kind \<times> string \<times> property_shape list) list" where
  "shape_properties shape =
     map (\<lambda>e. (KInterface, is_name e, is_properties e)) (ss_interfaces shape) @
     map (\<lambda>e. (KNode, ns_name e, ns_properties e)) (ss_nodes shape) @
     map (\<lambda>e. (KEdge, es_name e, es_properties e)) (ss_edges shape)"

definition accepted_by_key ::
    "accepted_type list \<Rightarrow> (type_kind \<times> string, accepted_type) hmap" where
  "accepted_by_key types =
     fold (\<lambda>(k, v). hm_insert k v) (map (\<lambda>e. ((ac_kind e, ac_name e), e)) types) hm_empty"

definition accepted_by_name :: "accepted_type list \<Rightarrow> (string, accepted_type list) hmap" where
  "accepted_by_name types =
     fold (\<lambda>e m. hm_insert (ac_name e)
       ((case hm_get m (ac_name e) of None \<Rightarrow> [] | Some es \<Rightarrow> es) @ [e]) m) types hm_empty"

definition type_entity :: "type_kind \<Rightarrow> string \<Rightarrow> string" where
  "type_entity kind name = kind_label kind @ '':'' @ name"

definition property_entity :: "type_kind \<Rightarrow> string \<Rightarrow> string \<Rightarrow> string" where
  "property_entity kind owner name = kind_label kind @ '':'' @ owner @ ''.'' @ name"

definition hint_diagnostic ::
    "diagnostic_kind \<Rightarrow> string \<Rightarrow> string option \<Rightarrow> identity_diagnostic list" where
  "hint_diagnostic kind entity hint =
     (case hint of None \<Rightarrow> [] | Some h \<Rightarrow> [\<lparr>dg_kind = kind, dg_entity = entity, dg_hint = h\<rparr>])"

definition match_type ::
    "accepted_type list \<Rightarrow> bool \<Rightarrow> type_kind \<Rightarrow> string \<Rightarrow> string option \<Rightarrow>
       (accepted_type option \<times> identity_diagnostic list) identity_result" where
  "match_type accepted evolving kind name rename_from =
     (case hm_get (accepted_by_key accepted) (kind, name) of
        Some exact \<Rightarrow>
          Inr (Some exact,
               hint_diagnostic IgnoredExactMatchRenameHint (type_entity kind name) rename_from)
      | None \<Rightarrow>
          (case rename_from of
             None \<Rightarrow> Inr (None, [])
           | Some hint \<Rightarrow>
               if \<not> evolving then
                 Inr (None, hint_diagnostic InertInitializationRenameHint (type_entity kind name)
                              (Some hint))
               else
                 let candidates =
                       (case hm_get (accepted_by_name accepted) hint of None \<Rightarrow> [] | Some es \<Rightarrow> es);
                     same_kind = filter (\<lambda>c. ac_kind c = kind) candidates
                 in if candidates = [] then resolution_err (RenameSourceMissing kind name hint)
                    else if length same_kind \<noteq> 1 then resolution_err (RenameAcrossKinds kind name hint)
                    else r_bind (first_or_panic same_kind) (\<lambda>c. Inr (Some c, []))))"

record type_pass =
  tp_diagnostics :: "identity_diagnostic list"
  tp_assignments :: type_assignments
  tp_consumed :: "stable_type_id list"

definition assign_type ::
    "accepted_type list \<Rightarrow> bool \<Rightarrow> type_kind \<times> string \<times> string option \<Rightarrow> type_pass \<Rightarrow>
       type_pass identity_result" where
  "assign_type accepted evolving entry s =
     (let (kind, name, rename_from) = entry in
      r_bind (match_type accepted evolving kind name rename_from) (\<lambda>(matched, diags).
      let s1 = s\<lparr>tp_diagnostics := tp_diagnostics s @ diags\<rparr> in
      case matched of
        Some m \<Rightarrow>
          if ac_type_id m \<in> set (tp_consumed s1)
          then resolution_err (TypeConsumedTwice (ac_kind m) (ac_name m))
          else Inr (s1\<lparr>tp_consumed := ac_type_id m # tp_consumed s1,
                       tp_assignments := bm_insert (kind, name)
                         \<lparr>at_type_id = ac_type_id m, at_incarnation = ac_incarnation m,
                          at_matched = True\<rparr> (tp_assignments s1)\<rparr>)
      | None \<Rightarrow>
          r_bind (try_from_u64 ''stable type id'' 1) (\<lambda>placeholder.
          Inr (s1\<lparr>tp_assignments := bm_insert (kind, name)
                     \<lparr>at_type_id = placeholder, at_incarnation = None, at_matched = False\<rparr>
                     (tp_assignments s1)\<rparr>))))"

definition allocate_type ::
    "(type_kind \<times> string) \<times> assigned_type \<Rightarrow> allocator \<Rightarrow>
       (((type_kind \<times> string) \<times> assigned_type) \<times> allocator) identity_result" where
  "allocate_type entry al =
     (let (key, a) = entry in
      if at_matched a then Inr ((key, a), al)
      else r_bind (mint ''stable type id'' al) (\<lambda>(i, al').
        Inr ((key, a\<lparr>at_type_id := i\<rparr>), al')))"

section \<open>Matching properties\<close>

record property_pass =
  pp_diagnostics :: "identity_diagnostic list"
  pp_assignments :: property_assignments
  pp_consumed :: "stable_property_id list"
  pp_pending :: "(stable_type_id \<times> string) list"

definition match_property ::
    "accepted_type list \<Rightarrow> bool \<Rightarrow> type_kind \<Rightarrow> string \<Rightarrow> accepted_type option \<Rightarrow> property_shape \<Rightarrow>
       (property_ir option \<times> identity_diagnostic list) identity_result" where
  "match_property accepted evolving kind owner_name accepted_owner p =
     (case accepted_owner of
        Some ao \<Rightarrow>
          (case find (\<lambda>c. pi_name c = ps_name p) (ac_properties ao) of
             Some exact \<Rightarrow>
               Inr (Some exact,
                    hint_diagnostic IgnoredExactMatchRenameHint
                      (property_entity kind owner_name (ps_name p)) (ps_rename_from p))
           | None \<Rightarrow>
               (case ps_rename_from p of
                  None \<Rightarrow> Inr (None, [])
                | Some hint \<Rightarrow>
                    let local = filter (\<lambda>c. pi_name c = hint) (ac_properties ao) in
                    if length local \<noteq> 1 then
                      if list_ex (\<lambda>c. ac_type_id c \<noteq> ac_type_id ao \<and>
                            list_ex (\<lambda>q. pi_name q = hint) (ac_properties c)) accepted
                      then resolution_err (PropertyMovedOwner owner_name (ps_name p) hint)
                      else resolution_err (PropertyRenameSourceMissing owner_name (ps_name p) hint)
                    else r_bind (first_or_panic local) (\<lambda>c. Inr (Some c, []))))
      | None \<Rightarrow>
          (case ps_rename_from p of
             None \<Rightarrow> Inr (None, [])
           | Some hint \<Rightarrow>
               if evolving then resolution_err (NewOwnerImportsProperty kind owner_name hint)
               else Inr (None, hint_diagnostic InertInitializationRenameHint
                                 (property_entity kind owner_name (ps_name p)) (Some hint))))"

definition assign_property ::
    "accepted_type list \<Rightarrow> bool \<Rightarrow> type_kind \<Rightarrow> string \<Rightarrow> stable_type_id \<Rightarrow>
       accepted_type option \<Rightarrow> property_shape \<Rightarrow> property_pass \<Rightarrow> property_pass identity_result" where
  "assign_property accepted evolving kind owner_name owner_id accepted_owner p s =
     r_bind (match_property accepted evolving kind owner_name accepted_owner p) (\<lambda>(matched, diags).
     let s1 = s\<lparr>pp_diagnostics := pp_diagnostics s @ diags\<rparr> in
     case matched of
       Some m \<Rightarrow>
         if pi_property_id m \<in> set (pp_consumed s1)
         then resolution_err (PropertyConsumedTwice (pi_property_id m))
         else Inr (s1\<lparr>pp_consumed := pi_property_id m # pp_consumed s1,
                      pp_assignments := bm_insert (owner_id, ps_name p) (pi_property_id m)
                        (pp_assignments s1)\<rparr>)
     | None \<Rightarrow> Inr (s1\<lparr>pp_pending := pp_pending s1 @ [(owner_id, ps_name p)]\<rparr>))"

definition assign_owner_properties ::
    "accepted_type list \<Rightarrow> bool \<Rightarrow> type_assignments \<Rightarrow>
       type_kind \<times> string \<times> property_shape list \<Rightarrow> property_pass \<Rightarrow>
       property_pass identity_result" where
  "assign_owner_properties accepted evolving assignments entry s =
     (let (kind, owner_name, properties) = entry in
      r_bind (index_or_panic (bm_get assignments (kind, owner_name)) (NoAssignment kind owner_name))
        (\<lambda>owner.
      let accepted_owner = find (\<lambda>c. ac_type_id c = at_type_id owner) accepted in
      r_fold (assign_property accepted evolving kind owner_name (at_type_id owner) accepted_owner)
        properties s))"

definition allocate_property ::
    "stable_type_id \<times> string \<Rightarrow> property_assignments \<times> allocator \<Rightarrow>
       (property_assignments \<times> allocator) identity_result" where
  "allocate_property key st =
     (let (pa, al) = st in
      r_bind (mint ''stable property id'' al) (\<lambda>(i, al'). Inr (bm_insert key i pa, al')))"

section \<open>Table incarnations\<close>

definition pending_incarnations ::
    "type_assignments \<Rightarrow> (stable_type_id \<times> (type_kind \<times> string)) list" where
  "pending_incarnations assignments =
     sort_key fst
       (map (\<lambda>(key, a). (at_type_id a, key))
         (filter (\<lambda>(key, a). fst key \<in> {KNode, KEdge} \<and> at_incarnation a = None) assignments))"

definition allocate_incarnation ::
    "stable_type_id \<times> (type_kind \<times> string) \<Rightarrow> type_assignments \<times> allocator \<Rightarrow>
       (type_assignments \<times> allocator) identity_result" where
  "allocate_incarnation entry st =
     (let (_, key) = entry; (assignments, al) = st in
      r_bind (index_or_panic (bm_get assignments key) (NoAssignment (fst key) (snd key))) (\<lambda>a.
      r_bind (mint ''table incarnation id'' al) (\<lambda>(i, al').
        Inr (bm_insert key (a\<lparr>at_incarnation := Some i\<rparr>) assignments, al'))))"

section \<open>Building the accepted schema\<close>

definition type_ref :: "type_kind \<Rightarrow> string \<Rightarrow> type_assignments \<Rightarrow> type_ref_ir identity_result" where
  "type_ref kind name assignments =
     r_bind (ok_or (bm_get assignments (kind, name))
               (IdentityErr (ResolutionError (UnknownType kind name)))) (\<lambda>a.
       Inr \<lparr>tr_type_id = at_type_id a, tr_type_name = name\<rparr>)"

definition property_ref ::
    "stable_type_id \<Rightarrow> string \<Rightarrow> string \<Rightarrow> property_assignments \<Rightarrow>
       property_ref_ir identity_result" where
  "property_ref owner_id owner_name name pa =
     r_bind (ok_or (bm_get pa (owner_id, name))
               (IdentityErr (ResolutionError (UnknownPropertyRef owner_name name)))) (\<lambda>i.
       Inr \<lparr>pr_owner_type_id = owner_id, pr_owner_type_name = owner_name,
            pr_property_id = i, pr_property_name = name\<rparr>)"

definition satisfaction_ref ::
    "type_assignments \<Rightarrow> property_assignments \<Rightarrow> shape_property_ref \<Rightarrow>
       property_ref_ir identity_result" where
  "satisfaction_ref assignments pa r =
     r_bind (ok_or (bm_get assignments (KInterface, spr_owner_name r))
               (IdentityErr (ResolutionError (UnknownInterfaceRef (spr_owner_name r))))) (\<lambda>i.
       property_ref (at_type_id i) (spr_owner_name r) (spr_property_name r) pa)"

definition build_property ::
    "stable_type_id \<Rightarrow> string \<Rightarrow> type_assignments \<Rightarrow> property_assignments \<Rightarrow> property_shape \<Rightarrow>
       property_ir identity_result" where
  "build_property owner_id owner_name assignments pa p =
     r_bind (index_or_panic (bm_get pa (owner_id, ps_name p)) (NoPropertyAssignment owner_id (ps_name p)))
       (\<lambda>i.
     r_bind (case ps_embed_source p of
               None \<Rightarrow> Inr None
             | Some em \<Rightarrow>
                 r_bind (property_ref owner_id owner_name (ess_property_name em) pa) (\<lambda>src.
                   Inr (Some \<lparr>es_source = src, es_model = ess_model em\<rparr>))) (\<lambda>embed_source.
     r_bind (r_map (satisfaction_ref assignments pa) (ps_satisfies_interface_properties p)) (\<lambda>sats.
       Inr \<lparr>pi_name = ps_name p,
            pi_property_id = i,
            pi_prop_type = ps_prop_type p,
            pi_annotations = ps_annotations p,
            pi_property_constraints = ps_property_constraints p,
            pi_embed_source = embed_source,
            pi_declared_directly = ps_declared_directly p,
            pi_satisfies_interface_properties = sort_key property_ref_key sats\<rparr>)))"

definition build_properties ::
    "stable_type_id \<Rightarrow> string \<Rightarrow> property_shape list \<Rightarrow> type_assignments \<Rightarrow>
       property_assignments \<Rightarrow> property_ir list identity_result" where
  "build_properties owner_id owner_name props assignments pa =
     r_map (build_property owner_id owner_name assignments pa) props"

definition system_role :: "type_kind \<Rightarrow> string \<Rightarrow> system_field_role option" where
  "system_role kind name =
     (if name = ''id'' then Some RoleId
      else if name = ''src'' \<and> kind = KEdge then Some RoleSrc
      else if name = ''dst'' \<and> kind = KEdge then Some RoleDst
      else None)"

definition field_ref ::
    "type_kind \<Rightarrow> stable_type_id \<Rightarrow> string \<Rightarrow> table_incarnation_id \<Rightarrow> property_assignments \<Rightarrow>
       string \<Rightarrow> field_ref_ir identity_result" where
  "field_ref kind owner_id owner_name incarnation pa name =
     (case system_role kind name of
        Some role \<Rightarrow>
          Inr (FSystem \<lparr>sfr_stable_table_id = owner_id, sfr_table_type_name = owner_name,
                        sfr_table_incarnation_id = incarnation, sfr_role = role\<rparr>)
      | None \<Rightarrow> r_bind (property_ref owner_id owner_name name pa) (\<lambda>r. Inr (FProperty r)))"

fun build_constraint ::
    "(string \<Rightarrow> field_ref_ir identity_result) \<Rightarrow> constraint \<Rightarrow> constraint_ir identity_result" where
  "build_constraint field (Key names) = r_bind (r_map field names) (\<lambda>fs. Inr (KeyIR fs))"
| "build_constraint field (Unique names) = r_bind (r_map field names) (\<lambda>fs. Inr (UniqueIR fs))"
| "build_constraint field (Index names) = r_bind (r_map field names) (\<lambda>fs. Inr (IndexIR fs))"
| "build_constraint field (Range p mn mx) = r_bind (field p) (\<lambda>f. Inr (RangeIR f mn mx))"
| "build_constraint field (Check p pattern) = r_bind (field p) (\<lambda>f. Inr (CheckIR f pattern))"

definition build_constraints ::
    "type_kind \<Rightarrow> stable_type_id \<Rightarrow> string \<Rightarrow> table_incarnation_id \<Rightarrow> constraint list \<Rightarrow>
       property_assignments \<Rightarrow> constraint_ir list identity_result" where
  "build_constraints kind owner_id owner_name incarnation cs pa =
     r_map (build_constraint (field_ref kind owner_id owner_name incarnation pa)) cs"

definition build_interface ::
    "type_assignments \<Rightarrow> property_assignments \<Rightarrow> interface_shape \<Rightarrow>
       interface_ir identity_result" where
  "build_interface assignments pa i =
     r_bind (index_or_panic (bm_get assignments (KInterface, is_name i))
               (NoAssignment KInterface (is_name i))) (\<lambda>a.
     r_bind (build_properties (at_type_id a) (is_name i) (is_properties i) assignments pa) (\<lambda>ps.
       Inr \<lparr>ii_name = is_name i, ii_type_id = at_type_id a, ii_properties = ps\<rparr>))"

definition build_node ::
    "type_assignments \<Rightarrow> property_assignments \<Rightarrow> node_shape \<Rightarrow> node_ir identity_result" where
  "build_node assignments pa n =
     r_bind (index_or_panic (bm_get assignments (KNode, ns_name n)) (NoAssignment KNode (ns_name n)))
       (\<lambda>a.
     r_bind (index_or_panic (at_incarnation a) (NoIncarnation (ns_name n))) (\<lambda>inc.
     r_bind (r_map (\<lambda>i. type_ref KInterface i assignments) (ns_implements n)) (\<lambda>impls.
     r_bind (build_properties (at_type_id a) (ns_name n) (ns_properties n) assignments pa) (\<lambda>ps.
     r_bind (build_constraints KNode (at_type_id a) (ns_name n) inc (ns_constraints n) pa) (\<lambda>cs.
       Inr \<lparr>ni_name = ns_name n, ni_type_id = at_type_id a, ni_table_incarnation_id = inc,
            ni_annotations = ns_annotations n, ni_implements = sort_key type_ref_key impls,
            ni_properties = ps, ni_constraints = cs\<rparr>)))))"

definition build_edge ::
    "type_assignments \<Rightarrow> property_assignments \<Rightarrow> edge_shape \<Rightarrow> edge_ir identity_result" where
  "build_edge assignments pa e =
     r_bind (index_or_panic (bm_get assignments (KEdge, es_name e)) (NoAssignment KEdge (es_name e)))
       (\<lambda>a.
     r_bind (index_or_panic (at_incarnation a) (NoIncarnation (es_name e))) (\<lambda>inc.
     r_bind (type_ref KNode (es_from_type e) assignments) (\<lambda>from.
     r_bind (type_ref KNode (es_to_type e) assignments) (\<lambda>to.
     r_bind (build_properties (at_type_id a) (es_name e) (es_properties e) assignments pa) (\<lambda>ps.
     r_bind (build_constraints KEdge (at_type_id a) (es_name e) inc (es_constraints e) pa) (\<lambda>cs.
       Inr \<lparr>ei_name = es_name e, ei_type_id = at_type_id a, ei_table_incarnation_id = inc,
            ei_from_type = from, ei_to_type = to, ei_cardinality = es_cardinality e,
            ei_annotations = es_annotations e, ei_properties = ps, ei_constraints = cs\<rparr>))))))"

section \<open>Resolution\<close>

definition resolve_types ::
    "accepted_type list \<Rightarrow> bool \<Rightarrow> schema_shape \<Rightarrow> type_pass identity_result" where
  "resolve_types accepted evolving shape =
     r_fold (assign_type accepted evolving) (shape_types shape)
       \<lparr>tp_diagnostics = [], tp_assignments = bm_empty, tp_consumed = []\<rparr>"

definition resolve_properties ::
    "accepted_type list \<Rightarrow> bool \<Rightarrow> type_assignments \<Rightarrow> schema_shape \<Rightarrow> identity_diagnostic list \<Rightarrow>
       property_pass identity_result" where
  "resolve_properties accepted evolving assignments shape diags =
     r_fold (assign_owner_properties accepted evolving assignments) (shape_properties shape)
       \<lparr>pp_diagnostics = diags, pp_assignments = bm_empty, pp_consumed = [], pp_pending = []\<rparr>"

definition build_schema ::
    "string \<Rightarrow> u64 \<Rightarrow> type_assignments \<Rightarrow> property_assignments \<Rightarrow> schema_shape \<Rightarrow>
       schema_ir identity_result" where
  "build_schema domain next assignments pa shape =
     r_bind (r_map (build_interface assignments pa) (ss_interfaces shape)) (\<lambda>interfaces.
     r_bind (r_map (build_node assignments pa) (ss_nodes shape)) (\<lambda>nodes.
     r_bind (r_map (build_edge assignments pa) (ss_edges shape)) (\<lambda>edges.
       Inr \<lparr>sir_ir_version = SCHEMA_IR_VERSION, sir_schema_identity_domain = domain,
            sir_next_identity_id = next, sir_interfaces = interfaces, sir_nodes = nodes,
            sir_edges = edges\<rparr>)))"

definition resolve ::
    "codec \<Rightarrow> string \<Rightarrow> u64 \<Rightarrow> schema_ir option \<Rightarrow> schema_shape \<Rightarrow>
       schema_resolution identity_result" where
  "resolve jc domain next accepted shape =
     (let types = (case accepted of None \<Rightarrow> [] | Some ir \<Rightarrow> accepted_types ir);
          evolving = (accepted \<noteq> None)
      in r_bind (resolve_types types evolving shape) (\<lambda>tp.
         r_bind (new_allocator next) (\<lambda>al0.
         r_bind (r_thread allocate_type (tp_assignments tp) al0) (\<lambda>(assignments, al1).
         r_bind (resolve_properties types evolving assignments shape (tp_diagnostics tp)) (\<lambda>pp.
         r_bind (r_fold allocate_property (sort (pp_pending pp)) (pp_assignments pp, al1))
           (\<lambda>(pa, al2).
         r_bind (r_fold allocate_incarnation (pending_incarnations assignments) (assignments, al2))
           (\<lambda>(assignments', al3).
         r_bind (build_schema domain (al_next al3) assignments' pa shape) (\<lambda>ir.
         r_bind (validate_schema_ir jc ir) (\<lambda>_.
           Inr \<lparr>sr_schema_ir = ir, sr_diagnostics = pp_diagnostics pp\<rparr>)))))))))"

definition initialize_schema_ir ::
    "codec \<Rightarrow> string \<Rightarrow> schema_shape \<Rightarrow> schema_resolution identity_result" where
  "initialize_schema_ir jc domain shape = resolve jc domain 1 None shape"

definition resolve_schema_ir ::
    "codec \<Rightarrow> schema_ir \<Rightarrow> schema_shape \<Rightarrow> schema_resolution identity_result" where
  "resolve_schema_ir jc accepted shape =
     r_bind (validate_schema_ir jc accepted) (\<lambda>_.
       resolve jc (sir_schema_identity_domain accepted) (sir_next_identity_id accepted)
         (Some accepted) shape)"

end
