(* ===== verification/Schema_Shape_Properties.thy ===== *)
theory Schema_Shape_Properties
  imports Schema_Shape
begin

text \<open>
  What compiling a schema file promises: the shape is in canonical form, and it does not depend
  on the order the declarations are written in.
\<close>

section \<open>Loops over declarations\<close>

lemma r_map_iff_projr:
  "r_map f xs = Inr ys \<longleftrightarrow> (\<forall>x \<in> set xs. is_ok (f x)) \<and> ys = map (projr \<circ> f) xs"
  by (induction xs arbitrary: ys) (auto simp: is_ok_iff)

lemma r_map_list_all:
  "r_map f xs = Inr ys \<Longrightarrow> (\<And>x y. f x = Inr y \<Longrightarrow> P y) \<Longrightarrow> list_all P ys"
  by (induction xs arbitrary: ys) auto

lemma r_map_perm:
  assumes "r_map f xs = Inr ys" and "mset xs' = mset xs"
  shows "\<exists>ys'. r_map f xs' = Inr ys' \<and> mset ys' = mset ys"
proof -
  have "set xs' = set xs" using assms(2) by (rule mset_eq_setD)
  with assms show ?thesis by (auto simp: r_map_iff_projr)
qed

definition decl_interfaces :: "schema_decl list \<Rightarrow> interface_decl list" where
  "decl_interfaces ds = List.map_filter (\<lambda>d. case d of DInterface i \<Rightarrow> Some i | _ \<Rightarrow> None) ds"

definition decl_nodes :: "schema_decl list \<Rightarrow> node_decl list" where
  "decl_nodes ds = List.map_filter (\<lambda>d. case d of DNode n \<Rightarrow> Some n | _ \<Rightarrow> None) ds"

definition decl_edges :: "schema_decl list \<Rightarrow> edge_decl list" where
  "decl_edges ds = List.map_filter (\<lambda>d. case d of DEdge e \<Rightarrow> Some e | _ \<Rightarrow> None) ds"

lemmas decl_parts_def = decl_interfaces_def decl_nodes_def decl_edges_def

lemma decl_parts_simps [simp]:
  "decl_interfaces [] = []" "decl_nodes [] = []" "decl_edges [] = []"
  "decl_interfaces (DInterface i # ds) = i # decl_interfaces ds"
  "decl_interfaces (DNode n # ds) = decl_interfaces ds"
  "decl_interfaces (DEdge e # ds) = decl_interfaces ds"
  "decl_nodes (DInterface i # ds) = decl_nodes ds"
  "decl_nodes (DNode n # ds) = n # decl_nodes ds"
  "decl_nodes (DEdge e # ds) = decl_nodes ds"
  "decl_edges (DInterface i # ds) = decl_edges ds"
  "decl_edges (DNode n # ds) = decl_edges ds"
  "decl_edges (DEdge e # ds) = e # decl_edges ds"
  by (simp_all add: decl_parts_def List.map_filter_simps)

lemma mset_map_filter:
  "mset (List.map_filter f xs) = image_mset (the \<circ> f) (filter_mset (\<lambda>x. f x \<noteq> None) (mset xs))"
  by (simp add: List.map_filter_def)

lemma decl_parts_perm:
  assumes "mset ds = mset ds'"
  shows "mset (decl_interfaces ds) = mset (decl_interfaces ds')"
    and "mset (decl_nodes ds) = mset (decl_nodes ds')"
    and "mset (decl_edges ds) = mset (decl_edges ds')"
  by (simp_all only: decl_parts_def mset_map_filter assms)

text \<open>The loop over the declarations is three independent loops, one per kind.\<close>

lemma shape_declaration_simps [simp]:
  "shape_declaration jc I (DInterface i) acc =
     r_bind (interface_shape_of jc i) (\<lambda>s. Inr (acc\<lparr>ss_interfaces := ss_interfaces acc @ [s]\<rparr>))"
  "shape_declaration jc I (DNode n) acc =
     r_bind (node_shape_of jc I n) (\<lambda>s. Inr (acc\<lparr>ss_nodes := ss_nodes acc @ [s]\<rparr>))"
  "shape_declaration jc I (DEdge e) acc =
     r_bind (edge_shape_of jc e) (\<lambda>s. Inr (acc\<lparr>ss_edges := ss_edges acc @ [s]\<rparr>))"
  by (simp_all add: shape_declaration_def)

lemma shape_loop_iff:
  "r_fold (shape_declaration jc I) ds acc = Inr raw \<longleftrightarrow>
     (\<exists>ifs ns es. r_map (interface_shape_of jc) (decl_interfaces ds) = Inr ifs \<and>
        r_map (node_shape_of jc I) (decl_nodes ds) = Inr ns \<and>
        r_map (edge_shape_of jc) (decl_edges ds) = Inr es \<and>
        raw = \<lparr>ss_interfaces = ss_interfaces acc @ ifs, ss_nodes = ss_nodes acc @ ns,
               ss_edges = ss_edges acc @ es\<rparr>)"
proof (induction ds arbitrary: acc)
  case Nil
  then show ?case by auto
next
  case (Cons d ds)
  show ?case
    by (cases d) (auto simp: Cons.IH)
qed

lemma interfaces_by_name_fold:
  "interfaces_by_name ds =
     fold (\<lambda>(k, v). hm_insert k v) (map (\<lambda>i. (id_name i, i)) (decl_interfaces ds)) hm_empty"
proof -
  have "fold (\<lambda>d m. case d of DInterface i \<Rightarrow> hm_insert (id_name i) i m | _ \<Rightarrow> m) ds m =
      fold (\<lambda>(k, v). hm_insert k v) (map (\<lambda>i. (id_name i, i)) (decl_interfaces ds)) m" for m
    by (induction ds arbitrary: m) (auto split: schema_decl.splits)
  then show ?thesis by (simp add: interfaces_by_name_def)
qed

lemma interfaces_by_name_get:
  "hm_get (interfaces_by_name ds) n =
     map_of (rev (map (\<lambda>i. (id_name i, i)) (decl_interfaces ds))) n"
  by (simp add: interfaces_by_name_fold hm.get_fold_insert split: option.splits)

lemma interfaces_by_name_perm:
  assumes "mset ds = mset ds'" and "distinct (map id_name (decl_interfaces ds))"
  shows "hm_get (interfaces_by_name ds) = hm_get (interfaces_by_name ds')"
proof -
  let ?m = "\<lambda>ds. rev (map (\<lambda>i. (id_name i, i)) (decl_interfaces ds))"
  have perm: "mset (?m ds) = mset (?m ds')" using decl_parts_perm(1) [OF assms(1)] by simp
  have dist: "distinct (map fst (?m ds))" using assms(2) by (simp add: rev_map [symmetric] o_def)
  have "mset (map fst (?m ds)) = mset (map fst (?m ds'))" using perm by (simp only: mset_map)
  then have "distinct (map fst (?m ds'))" using dist mset_eq_imp_distinct_iff by blast
  then have "map_of (?m ds) = map_of (?m ds')"
    using dist mset_eq_setD [OF perm] map_of_inject_set by blast
  then show ?thesis by (simp add: interfaces_by_name_get fun_eq_iff)
qed

lemma node_shape_cong:
  assumes "hm_get I = hm_get I'"
  shows "node_shape_of jc I = node_shape_of jc I'"
proof -
  have "contributed_property n p I = contributed_property n p I'" for n p
    by (simp add: contributed_property_def fun_eq_iff assms)
  then have "canonical_interface_property jc n p cs I = canonical_interface_property jc n p cs I'"
    for n p cs
    by (simp add: canonical_interface_property_def)
  then have effective: "effective_property jc I = effective_property jc I'"
    by (simp only: effective_property_def fun_eq_iff) simp
  show ?thesis by (rule ext) (simp only: node_shape_of_def effective)
qed

section \<open>The order of declarations\<close>

lemma interface_shape_name: "interface_shape_of jc i = Inr s \<Longrightarrow> is_name s = id_name i"
  by (auto simp: interface_shape_of_def)

lemma validate_edges_distinct:
  assumes "validate_edges nodes edges = Inr seen"
  shows "distinct (map es_name edges)"
proof -
  have "distinct (map es_name edges) \<and> set (map es_name edges) \<inter> set acc = {}"
    if "r_fold (\<lambda>e seen.
       r_bind (guard (es_name e \<notin> set seen) (ShapeDuplicateEdge (es_name e))) (\<lambda>_.
       r_bind (guard (es_from_type e \<in> set nodes \<and> es_to_type e \<in> set nodes)
                (UnresolvedEndpoint (es_name e))) (\<lambda>_.
         Inr (es_name e # seen)))) edges acc = Inr seen" for acc
    using that by (induction edges arbitrary: acc) fastforce+
  then show ?thesis using assms by (auto simp: validate_edges_def)
qed

lemma length_remdups_map: "length (remdups (map f xs)) = length xs \<longleftrightarrow> distinct (map f xs)"
  by (metis length_map length_remdups_eq remdups_id_iff_distinct)

lemma validate_shape_distinct:
  assumes "validate_shape shape = Inr u"
  shows "distinct (map is_name (ss_interfaces shape))"
    and "distinct (map ns_name (ss_nodes shape))"
    and "distinct (map es_name (ss_edges shape))"
  using assms
  by (auto simp: validate_shape_def length_remdups_map Let_def dest: validate_edges_distinct)

text \<open>What a compiled shape is made of.\<close>

lemma compile_schema_shape_iff:
  "compile_schema_shape jc schema = Inr shape \<longleftrightarrow>
     (\<exists>ifs ns es.
        r_map (interface_shape_of jc) (decl_interfaces (sf_declarations schema)) = Inr ifs \<and>
        r_map (node_shape_of jc (interfaces_by_name (sf_declarations schema)))
          (decl_nodes (sf_declarations schema)) = Inr ns \<and>
        r_map (edge_shape_of jc) (decl_edges (sf_declarations schema)) = Inr es \<and>
        shape = \<lparr>ss_interfaces = sort_key is_name ifs, ss_nodes = sort_key ns_name ns,
                 ss_edges = sort_key es_name es\<rparr> \<and>
        validate_shape shape = Inr ())"
  by (auto simp: compile_schema_shape_def shape_loop_iff Let_def)

lemma distinct_sort_key: "distinct (map f (sort_key f xs)) \<longleftrightarrow> distinct (map f xs)"
  by (metis mset_map mset_sort mset_eq_imp_distinct_iff)

text \<open>
  The shape of a schema is the same whatever order its declarations are written in: when
  one order compiles, every permutation compiles to the same shape.
\<close>

theorem shape_ignores_declaration_order:
  assumes ok: "compile_schema_shape jc schema = Inr shape"
    and perm: "mset (sf_declarations schema') = mset (sf_declarations schema)"
  shows "compile_schema_shape jc schema' = Inr shape"
proof -
  let ?ds = "sf_declarations schema" and ?ds' = "sf_declarations schema'"
  from ok obtain ifs ns es where
    ifs: "r_map (interface_shape_of jc) (decl_interfaces ?ds) = Inr ifs" and
    ns: "r_map (node_shape_of jc (interfaces_by_name ?ds)) (decl_nodes ?ds) = Inr ns" and
    es: "r_map (edge_shape_of jc) (decl_edges ?ds) = Inr es" and
    shape: "shape = \<lparr>ss_interfaces = sort_key is_name ifs, ss_nodes = sort_key ns_name ns,
                 ss_edges = sort_key es_name es\<rparr>" and
    valid: "validate_shape shape = Inr ()"
    unfolding compile_schema_shape_iff by blast
  note parts = decl_parts_perm [OF perm]
  from validate_shape_distinct [OF valid]
  have dist: "distinct (map is_name ifs)" "distinct (map ns_name ns)" "distinct (map es_name es)"
    by (simp_all add: shape distinct_sort_key)
  obtain ifs' where ifs': "r_map (interface_shape_of jc) (decl_interfaces ?ds') = Inr ifs'"
      and mi: "mset ifs' = mset ifs"
    using r_map_perm [OF ifs parts(1)] by blast
  obtain es' where es': "r_map (edge_shape_of jc) (decl_edges ?ds') = Inr es'"
      and me: "mset es' = mset es"
    using r_map_perm [OF es parts(3)] by blast
  have "map is_name ifs = map id_name (decl_interfaces ?ds)"
    using ifs by (rule r_map_map_eq) (rule interface_shape_name)
  then have "hm_get (interfaces_by_name ?ds) = hm_get (interfaces_by_name ?ds')"
    using dist(1) perm by (intro interfaces_by_name_perm) simp_all
  then have node: "node_shape_of jc (interfaces_by_name ?ds') = node_shape_of jc (interfaces_by_name ?ds)"
    by (intro node_shape_cong) simp
  obtain ns' where ns': "r_map (node_shape_of jc (interfaces_by_name ?ds')) (decl_nodes ?ds') = Inr ns'"
      and mn: "mset ns' = mset ns"
    using r_map_perm [OF ns parts(2)] unfolding node by blast
  have "sort_key is_name ifs = sort_key is_name ifs'" "sort_key ns_name ns = sort_key ns_name ns'"
       "sort_key es_name es = sort_key es_name es'"
    using dist mi mn me by (auto intro: sort_key_perm_eq)
  then show ?thesis
    using ifs' ns' es' shape valid unfolding compile_schema_shape_iff by auto
qed

section \<open>Canonical form\<close>

definition ordered_annotations :: "codec \<Rightarrow> annotation list \<Rightarrow> bool" where
  "ordered_annotations jc anns \<longleftrightarrow>
     list_all (\<lambda>a. \<not> is_typed_annotation (ann_name a)) anns \<and>
     sorted (map (annotation_text jc) anns) \<and> distinct_adj anns"

fun ordered_columns :: "constraint \<Rightarrow> bool" where
  "ordered_columns (Key columns) = strictly_sorted columns"
| "ordered_columns (Unique columns) = strictly_sorted columns"
| "ordered_columns (Index columns) = strictly_sorted columns"
| "ordered_columns _ = True"

definition ordered_constraints :: "codec \<Rightarrow> constraint list \<Rightarrow> bool" where
  "ordered_constraints jc cs \<longleftrightarrow>
     list_all ordered_columns cs \<and> sorted (map (constraint_sort_key jc) cs) \<and> distinct_adj cs"

definition canonical_property :: "codec \<Rightarrow> property_shape \<Rightarrow> bool" where
  "canonical_property jc p \<longleftrightarrow>
     ordered_annotations jc (ps_annotations p) \<and>
     strictly_sorted (ps_property_constraints p) \<and>
     pred_option strictly_sorted (pt_enum_values (ps_prop_type p)) \<and>
     strictly_sorted (map shape_ref_key (ps_satisfies_interface_properties p))"

definition plain_property :: "property_shape \<Rightarrow> bool" where
  "plain_property p \<longleftrightarrow> ps_declared_directly p \<and> ps_satisfies_interface_properties p = []"

definition canonical_interface :: "codec \<Rightarrow> interface_shape \<Rightarrow> bool" where
  "canonical_interface jc i \<longleftrightarrow>
     strictly_sorted (map ps_name (is_properties i)) \<and>
     list_all (\<lambda>p. canonical_property jc p \<and> plain_property p) (is_properties i)"

definition canonical_node :: "codec \<Rightarrow> node_shape \<Rightarrow> bool" where
  "canonical_node jc n \<longleftrightarrow>
     sorted (map ps_name (ns_properties n)) \<and>
     list_all (canonical_property jc) (ns_properties n) \<and>
     strictly_sorted (ns_implements n) \<and>
     ordered_annotations jc (ns_annotations n) \<and> ordered_constraints jc (ns_constraints n)"

definition canonical_edge :: "codec \<Rightarrow> edge_shape \<Rightarrow> bool" where
  "canonical_edge jc e \<longleftrightarrow>
     strictly_sorted (map ps_name (es_properties e)) \<and>
     list_all (\<lambda>p. canonical_property jc p \<and> plain_property p) (es_properties e) \<and>
     ordered_annotations jc (es_annotations e) \<and> ordered_constraints jc (es_constraints e)"

definition canonical_shape :: "codec \<Rightarrow> schema_shape \<Rightarrow> bool" where
  "canonical_shape jc s \<longleftrightarrow>
     strictly_sorted (map is_name (ss_interfaces s)) \<and>
     strictly_sorted (map ns_name (ss_nodes s)) \<and>
     strictly_sorted (map es_name (ss_edges s)) \<and>
     list_all (canonical_interface jc) (ss_interfaces s) \<and>
     list_all (canonical_node jc) (ss_nodes s) \<and>
     list_all (canonical_edge jc) (ss_edges s)"

lemmas canonical_defs = canonical_property_def canonical_interface_def canonical_node_def
  canonical_edge_def canonical_shape_def plain_property_def

lemma sorted_map_remdups_adj: "sorted (map f xs) \<Longrightarrow> sorted (map f (remdups_adj xs))"
  by (induction xs rule: remdups_adj.induct) auto

lemma ordered_canonical_annotations:
  "canonical_annotations jc anns = Inr anns' \<Longrightarrow> ordered_annotations jc anns'"
  by (auto simp: ordered_annotations_def canonical_annotations_def list_all_iff Let_def
      sorted_map_remdups_adj)

lemma ordered_normalize [simp]: "ordered_columns (normalize_constraint c)"
  by (cases c) auto

lemma ordered_canonical_constraints [simp]:
  "ordered_constraints jc (canonical_constraints jc cs)"
  by (auto simp: ordered_constraints_def canonical_constraints_def list_all_iff
      sorted_map_remdups_adj)

lemma property_shape_canonical:
  "property_shape_of jc p direct = Inr s \<Longrightarrow>
     canonical_property jc s \<and> ps_name s = pd_name p \<and> ps_declared_directly s = direct \<and>
     ps_satisfies_interface_properties s = []"
  by (auto simp: property_shape_of_def canonical_property_def option.pred_map
      split: option.splits intro: ordered_canonical_annotations) (simp add: pred_option_def option.set_map)

lemma canonical_properties_canonical:
  assumes "canonical_properties jc owner props plain_provenance = Inr ps"
  shows "strictly_sorted (map ps_name ps)"
    and "list_all (\<lambda>p. canonical_property jc p \<and> plain_property p) ps"
proof -
  from assms obtain shapes where
    shapes: "r_map (\<lambda>p. r_bind (property_shape_of jc p True) (\<lambda>s.
        Inr (s\<lparr>ps_satisfies_interface_properties := []\<rparr>))) props = Inr shapes" and
    ps: "ps = sort_key ps_name shapes" and
    "\<not> any_window (\<lambda>a b. ps_name a = ps_name b) (sort_key ps_name shapes)"
    by (auto simp: canonical_properties_def plain_provenance_def Let_def split: if_splits)
  then show "strictly_sorted (map ps_name ps)"
    by (simp add: any_window_eq_sorted strict_sorted_iff)
  show "list_all (\<lambda>p. canonical_property jc p \<and> plain_property p) ps"
    unfolding list_all_iff
  proof
    fix q
    assume "q \<in> set ps"
    with ps shapes obtain p s where "property_shape_of jc p True = Inr s"
        and "q = s\<lparr>ps_satisfies_interface_properties := []\<rparr>"
      by (auto dest!: r_map_in)
    with property_shape_canonical [of jc p True s]
    show "canonical_property jc q \<and> plain_property q"
      by (auto simp: canonical_property_def plain_property_def)
  qed
qed

lemma origin_key_inject [simp]: "origin_key a = origin_key b \<longleftrightarrow> a = b"
  by (cases a; cases b) (auto simp: origin_key_def)

lemma strictly_sorted_map_dedup:
  assumes "inj f" and "sorted (map f xs)"
  shows "strictly_sorted (map f (remdups_adj xs))"
  using assms(2)
proof (induction xs rule: remdups_adj.induct)
  case (3 x y xs)
  then show ?case
    using assms(1) by (auto simp: order.strict_iff_order inj_def)
qed simp_all

lemma effective_property_canonical:
  assumes "effective_property jc I node p = Inr s"
  shows "canonical_property jc s"
proof -
  let ?origins = "\<lambda>os. remdups_adj (sort_key origin_key os)"
  from assms obtain q direct s0 os where
    s0: "property_shape_of jc q direct = Inr s0" and
    s: "s = s0\<lparr>ps_satisfies_interface_properties :=
           map (\<lambda>c. \<lparr>spr_owner_name = ipo_interface_name c,
                     spr_property_name = ipo_property_name c\<rparr>) (?origins os)\<rparr>"
    by (auto simp: effective_property_def Let_def)
  have "strictly_sorted (map origin_key (?origins os))"
    by (rule strictly_sorted_map_dedup) (auto simp: inj_def)
  moreover have "shape_ref_key \<circ> (\<lambda>c. \<lparr>spr_owner_name = ipo_interface_name c,
      spr_property_name = ipo_property_name c\<rparr>) = origin_key"
    by (simp add: fun_eq_iff shape_ref_key_def origin_key_def)
  ultimately show ?thesis
    using property_shape_canonical [OF s0] by (simp add: canonical_property_def s)
qed

lemma node_shape_canonical:
  assumes "node_shape_of jc I node = Inr n"
  shows "canonical_node jc n"
proof -
  from assms obtain shapes where
    shapes: "r_map (effective_property jc I node) (nd_properties node) = Inr shapes" and
    "ns_properties n = sort_key ps_name shapes" and
    "ns_constraints n = canonical_constraints jc
       ((if nd_property_origins node = [] then nd_constraints node
         else nd_source_constraints node) @ injected_constraints (sort_key ps_name shapes))" and
    "ns_implements n = sort_dedup (nd_implements node)" and
    "canonical_annotations jc (nd_annotations node) = Inr (ns_annotations n)"
    by (auto simp: node_shape_of_def Let_def)
  moreover have "list_all (canonical_property jc) shapes"
    using shapes by (rule r_map_list_all) (rule effective_property_canonical)
  ultimately show ?thesis
    by (auto simp: canonical_node_def list_all_iff intro: ordered_canonical_annotations)
qed

lemma interface_shape_canonical:
  "interface_shape_of jc i = Inr s \<Longrightarrow> canonical_interface jc s"
  using canonical_properties_canonical
  by (auto simp: interface_shape_of_def canonical_interface_def)

lemma edge_shape_canonical:
  "edge_shape_of jc e = Inr s \<Longrightarrow> canonical_edge jc s"
  using canonical_properties_canonical
  by (auto simp: edge_shape_of_def canonical_edge_def intro: ordered_canonical_annotations)

lemma compile_shape_canonical:
  assumes "compile_schema_shape jc schema = Inr shape"
  shows "canonical_shape jc shape"
proof -
  from assms obtain ifs ns es where
    ifs: "r_map (interface_shape_of jc) (decl_interfaces (sf_declarations schema)) = Inr ifs" and
    ns: "r_map (node_shape_of jc (interfaces_by_name (sf_declarations schema)))
          (decl_nodes (sf_declarations schema)) = Inr ns" and
    es: "r_map (edge_shape_of jc) (decl_edges (sf_declarations schema)) = Inr es" and
    shape: "shape = \<lparr>ss_interfaces = sort_key is_name ifs, ss_nodes = sort_key ns_name ns,
                 ss_edges = sort_key es_name es\<rparr>" and
    valid: "validate_shape shape = Inr ()"
    unfolding compile_schema_shape_iff by blast
  from validate_shape_distinct [OF valid]
  have "strictly_sorted (map is_name (ss_interfaces shape))"
    "strictly_sorted (map ns_name (ss_nodes shape))"
    "strictly_sorted (map es_name (ss_edges shape))"
    by (simp_all add: shape distinct_sort_key strictly_sorted_sort_key)
  moreover have "list_all (canonical_interface jc) ifs"
    using ifs by (rule r_map_list_all) (rule interface_shape_canonical)
  moreover have "list_all (canonical_edge jc) es"
    using es by (rule r_map_list_all) (rule edge_shape_canonical)
  moreover have "list_all (canonical_node jc) ns"
    using ns by (rule r_map_list_all) (rule node_shape_canonical)
  ultimately show ?thesis by (simp add: canonical_shape_def shape list_all_iff)
qed

text \<open>
  A compiled shape is canonical: interfaces, nodes and edges in strictly ascending name
  order, properties in name order (strictly for interfaces and edges), annotations and
  constraints in the order of their keys without repetitions and without typed annotations,
  enum values, implemented interfaces, constraint columns and interface contributions strictly
  ascending.
\<close>

theorem compiled_shape_canonical:
  "compile_schema_shape jc schema = Inr shape \<Longrightarrow> canonical_shape jc shape"
  by (rule compile_shape_canonical)

end
