(* ===== verification/Schema_Resolve_Facts.thy ===== *)
theory Schema_Resolve_Facts
  imports Schema_Resolve Schema_Validate_Facts Schema_Shape_Properties
begin

text \<open>
  The passes of the resolution one by one: what the allocator promises, what each loop leaves in
  the assignment maps, and how the built schema reads them.
\<close>

section \<open>The allocator's contract\<close>

text \<open>
  A supply of identities: each draw gives the current position and moves strictly past it, so
  the values of a run of draws are new, pairwise different and ascending.
\<close>

locale identity_supply =
  fixes position :: "'s \<Rightarrow> 'i::linorder"
    and draw :: "'s \<Rightarrow> 'e + 'i \<times> 's"
  assumes draw_at: "draw s = Inr (i, t) \<Longrightarrow> i = position s \<and> position s < position t"
begin

lemma draw_interval: "draw s = Inr (i, t) \<Longrightarrow> position s \<le> i \<and> i < position t"
  using draw_at by auto

lemma draw_moves: "draw s = Inr (i, t) \<Longrightarrow> position s < position t"
  using draw_at by auto

lemma draws_ascend:
  "r_thread (\<lambda>_. draw) xs s = Inr (ids, t) \<Longrightarrow>
     strictly_sorted ids \<and> position s \<le> position t \<and>
     (\<forall>i \<in> set ids. position s \<le> i \<and> i < position t)"
proof (induction xs arbitrary: s ids)
  case (Cons x xs)
  then obtain i s1 ids' where step: "draw s = Inr (i, s1)"
    and rest: "r_thread (\<lambda>_. draw) xs s1 = Inr (ids', t)" and ids: "ids = i # ids'"
    by auto
  with draw_at [OF step] Cons.IH [OF rest] show ?case by force
qed simp

text \<open>A loop that draws for some of its elements: what holds of a drawn value holds at the end.\<close>

lemma thread_interval:
  assumes "r_thread f xs s = Inr (ys, t)"
    and step: "\<And>x s1 y s2. f x s1 = Inr (y, s2) \<Longrightarrow>
      position s1 \<le> position s2 \<and> R x y (position s1) (position s2)"
    and mono: "\<And>x y a b a' b'. R x y a b \<Longrightarrow> a' \<le> a \<Longrightarrow> b \<le> b' \<Longrightarrow> R x y a' b'"
  shows "position s \<le> position t \<and> list_all2 (\<lambda>x y. R x y (position s) (position t)) xs ys"
  using assms(1)
proof (induction xs arbitrary: s ys)
  case (Cons x xs)
  then obtain y s1 ys' where 1: "f x s = Inr (y, s1)"
    and rest: "r_thread f xs s1 = Inr (ys', t)" and ys: "ys = y # ys'"
    by auto
  note IH = Cons.IH [OF rest]
  have "list_all2 (\<lambda>x y. R x y (position s) (position t)) xs ys'"
    using IH step [OF 1] by (auto elim!: list_all2_mono intro: mono)
  with IH step [OF 1] show ?case by (auto simp: ys intro: mono)
qed simp

end

lemma mint_iff:
  "mint label al = Inr (i, al') \<longleftrightarrow>
     al_next al \<noteq> - 1 \<and> al_next al \<noteq> 0 \<and> i = al_next al \<and> al' = al\<lparr>al_next := al_next al + 1\<rparr>"
  by (auto simp: mint_def allocate_def try_from_u64_def split: if_splits)

lemma word_less_Suc: "(w :: 'a::len word) \<noteq> - 1 \<Longrightarrow> w < w + 1"
  using unatSuc [of w] by (simp add: word_less_nat_alt add.commute add_eq_0_iff)

interpretation ids: identity_supply al_next "mint label" for label
  by unfold_locales (auto simp: mint_iff word_less_Suc)

section \<open>Keyed views of the accepted types\<close>

lemma accepted_by_key_get:
  "hm_get (accepted_by_key es) key = map_of (rev (map (\<lambda>e. ((ac_kind e, ac_name e), e)) es)) key"
  by (simp add: accepted_by_key_def hm.get_fold_insert split: option.splits)

lemma accepted_by_key_Some:
  assumes "hm_get (accepted_by_key es) (k, n) = Some e"
  shows "e \<in> set es \<and> ac_kind e = k \<and> ac_name e = n"
  using assms by (auto simp: accepted_by_key_get dest!: map_of_SomeD)

lemma accepted_by_key_None:
  "hm_get (accepted_by_key es) (k, n) = None \<longleftrightarrow>
     (\<forall>e \<in> set es. \<not> (ac_kind e = k \<and> ac_name e = n))"
  by (auto simp: accepted_by_key_get map_of_eq_None_iff image_image)

lemma accepted_by_name_get:
  "hm_get (accepted_by_name es) n =
     (let l = filter (\<lambda>e. ac_name e = n) es in if l = [] then None else Some l)"
proof -
  have "hm_get (fold (\<lambda>e m. hm_insert (ac_name e)
       ((case hm_get m (ac_name e) of None \<Rightarrow> [] | Some es \<Rightarrow> es) @ [e]) m) es m) n =
     (let l = (case hm_get m n of None \<Rightarrow> [] | Some es \<Rightarrow> es) @ filter (\<lambda>e. ac_name e = n) es
      in if l = [] then hm_get m n else Some l)" for m
    by (induction es arbitrary: m) (auto simp: Let_def split: option.splits)
  from this [of hm_empty] show ?thesis by (simp add: accepted_by_name_def Let_def)
qed

text \<open>Where a desired type takes its identity from: its own name first, its hint otherwise.\<close>

definition type_source ::
    "accepted_type list \<Rightarrow> type_kind \<Rightarrow> string \<Rightarrow> string option \<Rightarrow> accepted_type option" where
  "type_source es kind name hint =
     (case find (\<lambda>e. ac_kind e = kind \<and> ac_name e = name) es of
        Some e \<Rightarrow> Some e
      | None \<Rightarrow>
          (case hint of
             None \<Rightarrow> None
           | Some h \<Rightarrow> find (\<lambda>e. ac_kind e = kind \<and> ac_name e = h) es))"

lemma find_unique:
  assumes "x \<in> set xs" and "P x" and "\<And>y. y \<in> set xs \<Longrightarrow> P y \<Longrightarrow> y = x"
  shows "find P xs = Some x"
proof (cases "find P xs")
  case None
  with assms(1,2) show ?thesis by (auto simp: find_None_iff)
next
  case (Some y)
  then have "y \<in> set xs" "P y" by (auto simp: find_Some_iff)
  with Some assms(3) show ?thesis by blast
qed

lemma distinct_keyed_unique:
  "distinct (map f xs) \<Longrightarrow> x \<in> set xs \<Longrightarrow> y \<in> set xs \<Longrightarrow> f x = f y \<Longrightarrow> x = y"
  by (auto simp: distinct_map inj_on_def)

lemma match_type_source:
  assumes match: "match_type es evolving kind name hint = Inr (m, ds)"
    and distinct: "distinct (map (\<lambda>e. (ac_kind e, ac_name e)) es)"
    and "es \<noteq> [] \<Longrightarrow> evolving"
  shows "m = type_source es kind name hint"
proof (cases "hm_get (accepted_by_key es) (kind, name)")
  case (Some e)
  then have e: "e \<in> set es" "ac_kind e = kind" "ac_name e = name"
    by (auto dest: accepted_by_key_Some)
  then have "find (\<lambda>e. ac_kind e = kind \<and> ac_name e = name) es = Some e"
    using distinct by (intro find_unique) (auto dest: distinct_keyed_unique)
  moreover have "m = Some e" using match Some by (simp add: match_type_def)
  ultimately show ?thesis by (simp add: type_source_def)
next
  case None
  then have none: "find (\<lambda>e. ac_kind e = kind \<and> ac_name e = name) es = None"
    by (auto simp: accepted_by_key_None find_None_iff)
  show ?thesis
  proof (cases hint)
    case None
    with match none \<open>hm_get _ _ = None\<close> show ?thesis by (simp add: match_type_def type_source_def)
  next
    case (Some h)
    let ?same = "filter (\<lambda>c. ac_kind c = kind) (filter (\<lambda>e. ac_name e = h) es)"
    show ?thesis
    proof (cases "es = []")
      case True
      with match none Some show ?thesis
        by (auto simp: match_type_def type_source_def accepted_by_key_def accepted_by_name_def
            Let_def split: if_splits)
    next
      case False
      then have "evolving" using assms(3) by simp
      with match none Some \<open>hm_get _ _ = None\<close> have "length ?same = 1" and m: "m = Some (hd ?same)"
        by (auto simp: match_type_def accepted_by_name_get Let_def split: if_splits)
      then obtain x where x: "?same = [x]" by (auto simp: length_Suc_conv)
      then have "x \<in> set ?same" by simp
      then have "x \<in> set es" "ac_kind x = kind" "ac_name x = h" by auto
      then have "find (\<lambda>e. ac_kind e = kind \<and> ac_name e = h) es = Some x"
        using distinct by (intro find_unique) (auto dest: distinct_keyed_unique)
      with none Some m x show ?thesis by (simp add: type_source_def)
    qed
  qed
qed

section \<open>The type pass\<close>

definition assigned_of :: "accepted_type option \<Rightarrow> assigned_type" where
  "assigned_of m =
     (case m of
        None \<Rightarrow> \<lparr>at_type_id = 1, at_incarnation = None, at_matched = False\<rparr>
      | Some e \<Rightarrow> \<lparr>at_type_id = ac_type_id e, at_incarnation = ac_incarnation e, at_matched = True\<rparr>)"

lemma assign_type_step:
  assumes "assign_type es evolving (k, n, h) s = Inr t"
  shows "\<exists>m ds. match_type es evolving k n h = Inr (m, ds) \<and>
    tp_assignments t = bm_insert (k, n) (assigned_of m) (tp_assignments s)"
proof -
  from assms obtain m ds where m: "match_type es evolving k n h = Inr (m, ds)"
    by (auto simp: assign_type_def)
  with assms have "tp_assignments t = bm_insert (k, n) (assigned_of m) (tp_assignments s)"
    by (auto simp: assign_type_def assigned_of_def try_from_u64_def Let_def
        split: option.splits if_splits)
  with m show ?thesis by blast
qed

definition entry_key :: "type_kind \<times> string \<times> 'x \<Rightarrow> type_kind \<times> string" where
  "entry_key entry = (fst entry, fst (snd entry))"

lemma assign_types_get:
  assumes "r_fold (assign_type es evolving) entries s = Inr t"
    and "bm_wf (tp_assignments s)" and "distinct (map entry_key entries)"
  shows "bm_wf (tp_assignments t) \<and>
    (\<forall>(k, n, h) \<in> set entries. \<exists>m ds. match_type es evolving k n h = Inr (m, ds) \<and>
       bm_get (tp_assignments t) (k, n) = Some (assigned_of m)) \<and>
    (\<forall>key. key \<notin> entry_key ` set entries \<longrightarrow>
       bm_get (tp_assignments t) key = bm_get (tp_assignments s) key)"
  using assms
proof (induction entries arbitrary: s)
  case Nil
  then show ?case by simp
next
  case (Cons entry entries)
  obtain k n h where entry: "entry = (k, n, h)" by (cases entry) auto
  from Cons.prems(1) obtain s1 where step: "assign_type es evolving (k, n, h) s = Inr s1"
    and rest: "r_fold (assign_type es evolving) entries s1 = Inr t"
    by (auto simp: entry)
  obtain m ds where m: "match_type es evolving k n h = Inr (m, ds)"
    "tp_assignments s1 = bm_insert (k, n) (assigned_of m) (tp_assignments s)"
    using assign_type_step [OF step] by blast
  have IH: "bm_wf (tp_assignments t)"
    "\<forall>(k, n, h) \<in> set entries. \<exists>m ds. match_type es evolving k n h = Inr (m, ds) \<and>
       bm_get (tp_assignments t) (k, n) = Some (assigned_of m)"
    "\<forall>key. key \<notin> entry_key ` set entries \<longrightarrow>
       bm_get (tp_assignments t) key = bm_get (tp_assignments s1) key"
    using Cons.IH [OF rest] Cons.prems(2,3) m(2) by auto
  have "(k, n) \<notin> entry_key ` set entries"
    using Cons.prems(3) by (auto simp: entry entry_key_def)
  with IH(3) have "bm_get (tp_assignments t) (k, n) = Some (assigned_of m)"
    using m(2) Cons.prems(2) by (simp add: bm_get_insert)
  moreover have "bm_get (tp_assignments t) key = bm_get (tp_assignments s) key"
    if "key \<notin> entry_key ` set (entry # entries)" for key
  proof -
    have "key \<noteq> (k, n)" using that by (auto simp: entry entry_key_def)
    with that IH(3) m(2) Cons.prems(2) show ?thesis by (cases key) (auto simp: bm_get_insert)
  qed
  ultimately show ?case using IH(1,2) m(1) by (auto simp: entry)
qed

text \<open>Giving the unmatched types their identities changes nothing else.\<close>

definition type_allocated ::
    "(type_kind \<times> string) \<times> assigned_type \<Rightarrow> (type_kind \<times> string) \<times> assigned_type \<Rightarrow>
       u64 \<Rightarrow> u64 \<Rightarrow> bool" where
  "type_allocated x y lo hi \<longleftrightarrow>
     fst y = fst x \<and> at_incarnation (snd y) = at_incarnation (snd x) \<and>
     at_matched (snd y) = at_matched (snd x) \<and>
     (if at_matched (snd x) then at_type_id (snd y) = at_type_id (snd x)
      else lo \<le> at_type_id (snd y) \<and> at_type_id (snd y) < hi)"

lemma allocate_types:
  assumes "r_thread allocate_type A al = Inr (A', al')"
  shows "al_next al \<le> al_next al' \<and>
    list_all2 (\<lambda>x y. type_allocated x y (al_next al) (al_next al')) A A'"
  using assms
proof (rule ids.thread_interval)
  fix x s1 y s2
  assume "allocate_type x s1 = Inr (y, s2)"
  then show "al_next s1 \<le> al_next s2 \<and> type_allocated x y (al_next s1) (al_next s2)"
    by (auto simp: allocate_type_def type_allocated_def split: prod.splits if_splits
        dest!: ids.draw_interval)
qed (auto simp: type_allocated_def split: if_splits)

lemma list_all2_keys: "list_all2 P A A' \<Longrightarrow> (\<And>x y. P x y \<Longrightarrow> fst y = fst x) \<Longrightarrow> map fst A' = map fst A"
  by (induction A A' rule: list_all2_induct) auto

lemma list_all2_map_of:
  assumes "list_all2 P A A'" and "\<And>x y. P x y \<Longrightarrow> fst y = fst x"
  shows "(map_of A k = None \<longleftrightarrow> map_of A' k = None) \<and>
    (\<forall>a. map_of A k = Some a \<longrightarrow> (\<exists>a'. map_of A' k = Some a' \<and> P (k, a) (k, a')))"
  using assms(1)
proof (induction A A' rule: list_all2_induct)
  case (Cons x A y A')
  then show ?case using assms(2) [of x y] by (cases x; cases y) auto
qed simp

lemma allocate_types_get:
  assumes "r_thread allocate_type A al = Inr (A', al')"
  shows "map fst A' = map fst A"
    and "bm_get A key = None \<longleftrightarrow> bm_get A' key = None"
    and "bm_get A key = Some a \<Longrightarrow>
      \<exists>a'. bm_get A' key = Some a' \<and> type_allocated (key, a) (key, a') (al_next al) (al_next al')"
proof -
  note all2 = conjunct2 [OF allocate_types [OF assms]]
  have keys: "type_allocated x y lo hi \<Longrightarrow> fst y = fst x" for x y lo hi
    by (simp add: type_allocated_def)
  from list_all2_keys [OF all2 keys] list_all2_map_of [OF all2 keys, where k = key]
  show "map fst A' = map fst A" "bm_get A key = None \<longleftrightarrow> bm_get A' key = None"
    "bm_get A key = Some a \<Longrightarrow>
      \<exists>a'. bm_get A' key = Some a' \<and> type_allocated (key, a) (key, a') (al_next al) (al_next al')"
    by (auto simp: bm_get_def)
qed

section \<open>The property pass\<close>

definition flat_properties :: "schema_shape \<Rightarrow> (type_kind \<times> string \<times> property_shape) list" where
  "flat_properties shape =
     concat (map (\<lambda>(k, n, ps). map (\<lambda>p. (k, n, p)) ps) (shape_properties shape))"

definition owner_id :: "type_assignments \<Rightarrow> type_kind \<Rightarrow> string \<Rightarrow> stable_type_id" where
  "owner_id A k n = at_type_id (the (bm_get A (k, n)))"

definition owner_of ::
    "accepted_type list \<Rightarrow> type_assignments \<Rightarrow> type_kind \<Rightarrow> string \<Rightarrow> accepted_type option" where
  "owner_of es A k n = find (\<lambda>c. ac_type_id c = owner_id A k n) es"

definition assign_flat ::
    "accepted_type list \<Rightarrow> bool \<Rightarrow> type_assignments \<Rightarrow> type_kind \<times> string \<times> property_shape \<Rightarrow>
       property_pass \<Rightarrow> property_pass identity_result" where
  "assign_flat es evolving A =
     (\<lambda>(k, n, p). assign_property es evolving k n (owner_id A k n) (owner_of es A k n) p)"

definition flat_key ::
    "type_assignments \<Rightarrow> type_kind \<times> string \<times> property_shape \<Rightarrow> stable_type_id \<times> string" where
  "flat_key A = (\<lambda>(k, n, p). (owner_id A k n, ps_name p))"

lemma r_fold_map: "r_fold f (map g xs) s = r_fold (\<lambda>x. f (g x)) xs s"
proof (induction xs arbitrary: s)
  case (Cons x xs)
  then show ?case by (cases "f (g x) s") auto
qed simp

text \<open>The nested loop over owners and their properties is one loop over all properties.\<close>

lemma resolve_properties_flat:
  assumes "\<And>k n ps. (k, n, ps) \<in> set (shape_properties shape) \<Longrightarrow> bm_get A (k, n) \<noteq> None"
  shows "resolve_properties es evolving A shape ds =
    r_fold (assign_flat es evolving A) (flat_properties shape)
      \<lparr>pp_diagnostics = ds, pp_assignments = bm_empty, pp_consumed = [], pp_pending = []\<rparr>"
proof -
  have "r_fold (assign_owner_properties es evolving A) L s =
      r_fold (assign_flat es evolving A) (concat (map (\<lambda>(k, n, ps). map (\<lambda>p. (k, n, p)) ps) L)) s"
    if "\<forall>(k, n, ps) \<in> set L. bm_get A (k, n) \<noteq> None" for L s
    using that
  proof (induction L arbitrary: s)
    case (Cons entry L)
    obtain k n ps where entry: "entry = (k, n, ps)" by (cases entry) auto
    with Cons.prems obtain a where a: "bm_get A (k, n) = Some a" by auto
    have step: "assign_owner_properties es evolving A (k, n, ps) s =
        r_fold (assign_flat es evolving A) (map (\<lambda>p. (k, n, p)) ps) s"
      by (simp add: assign_owner_properties_def assign_flat_def owner_id_def owner_of_def a
          r_fold_map)
    have IH: "r_fold (assign_owner_properties es evolving A) L =
        r_fold (assign_flat es evolving A) (concat (map (\<lambda>(k, n, ps). map (\<lambda>p. (k, n, p)) ps) L))"
      using Cons by auto
    show ?case by (simp add: entry step IH r_fold_append)
  qed simp
  with assms show ?thesis by (fastforce simp: resolve_properties_def flat_properties_def)
qed

definition property_match ::
    "accepted_type list \<Rightarrow> bool \<Rightarrow> type_assignments \<Rightarrow> type_kind \<times> string \<times> property_shape \<Rightarrow>
       property_ir option \<Rightarrow> bool" where
  "property_match es evolving A = (\<lambda>(k, n, p) m.
     \<exists>ds. match_property es evolving k n (owner_of es A k n) p = Inr (m, ds))"

lemma assign_flat_step:
  assumes "assign_flat es evolving A x s = Inr t"
  shows "\<exists>m. property_match es evolving A x m \<and>
    (case m of
       Some q \<Rightarrow> pp_assignments t = bm_insert (flat_key A x) (pi_property_id q) (pp_assignments s) \<and>
         pp_pending t = pp_pending s
     | None \<Rightarrow> pp_assignments t = pp_assignments s \<and>
         pp_pending t = pp_pending s @ [flat_key A x])"
proof -
  obtain k n p where x: "x = (k, n, p)" by (cases x) auto
  from assms obtain m ds where m: "match_property es evolving k n (owner_of es A k n) p = Inr (m, ds)"
    by (auto simp: assign_flat_def assign_property_def x)
  then have "property_match es evolving A x m" by (auto simp: property_match_def x)
  moreover have "case m of
       Some q \<Rightarrow> pp_assignments t = bm_insert (flat_key A x) (pi_property_id q) (pp_assignments s) \<and>
         pp_pending t = pp_pending s
     | None \<Rightarrow> pp_assignments t = pp_assignments s \<and>
         pp_pending t = pp_pending s @ [flat_key A x]"
    using assms m
    by (auto simp: assign_flat_def assign_property_def x flat_key_def Let_def
        split: option.splits if_splits)
  ultimately show ?thesis by blast
qed

lemma property_match_functional:
  "property_match es evolving A x m \<Longrightarrow> property_match es evolving A x m' \<Longrightarrow> m = m'"
  by (auto simp: property_match_def split: prod.splits)

lemma assign_flat_get:
  assumes "r_fold (assign_flat es evolving A) xs s = Inr t"
    and "bm_wf (pp_assignments s)" and "distinct (map (flat_key A) xs)"
  shows "bm_wf (pp_assignments t) \<and>
    (\<forall>x \<in> set xs. \<exists>m. property_match es evolving A x m \<and>
       (\<forall>q. m = Some q \<longrightarrow> bm_get (pp_assignments t) (flat_key A x) = Some (pi_property_id q))) \<and>
    (\<forall>key. key \<notin> flat_key A ` set xs \<longrightarrow>
       bm_get (pp_assignments t) key = bm_get (pp_assignments s) key) \<and>
    pp_pending t =
      pp_pending s @ map (flat_key A) (filter (\<lambda>x. property_match es evolving A x None) xs)"
  using assms
proof (induction xs arbitrary: s)
  case Nil
  then show ?case by simp
next
  case (Cons x xs)
  from Cons.prems(1) obtain s1 where step: "assign_flat es evolving A x s = Inr s1"
    and rest: "r_fold (assign_flat es evolving A) xs s1 = Inr t"
    by auto
  obtain m where m: "property_match es evolving A x m"
    "case m of
       Some q \<Rightarrow> pp_assignments s1 = bm_insert (flat_key A x) (pi_property_id q) (pp_assignments s) \<and>
         pp_pending s1 = pp_pending s
     | None \<Rightarrow> pp_assignments s1 = pp_assignments s \<and>
         pp_pending s1 = pp_pending s @ [flat_key A x]"
    using assign_flat_step [OF step] by blast
  have wf1: "bm_wf (pp_assignments s1)"
    using m(2) Cons.prems(2) by (auto split: option.splits)
  note IH = Cons.IH [OF rest wf1]
  have notin: "flat_key A x \<notin> flat_key A ` set xs" and dist: "distinct (map (flat_key A) xs)"
    using Cons.prems(3) by auto
  have get1: "bm_get (pp_assignments t) (flat_key A x) = bm_get (pp_assignments s1) (flat_key A x)"
    using IH [OF dist] notin by blast
  have "\<forall>q. m = Some q \<longrightarrow> bm_get (pp_assignments t) (flat_key A x) = Some (pi_property_id q)"
    using get1 m(2) Cons.prems(2) by (auto simp: bm_get_insert)
  moreover have "bm_get (pp_assignments t) key = bm_get (pp_assignments s) key"
    if "key \<notin> flat_key A ` set (x # xs)" for key
  proof -
    have "bm_get (pp_assignments t) key = bm_get (pp_assignments s1) key"
      using that IH [OF dist] by (cases key) auto
    with that m(2) Cons.prems(2) show ?thesis by (auto simp: bm_get_insert split: option.splits)
  qed
  moreover have "pp_pending s1 =
      pp_pending s @ (if property_match es evolving A x None then [flat_key A x] else [])"
    using m property_match_functional by (fastforce split: option.splits)
  ultimately show ?case using IH [OF dist] m(1) by auto
qed

lemma allocate_property_iff:
  "allocate_property key (pa, al) = Inr st \<longleftrightarrow>
     (\<exists>i al1. mint ''stable property id'' al = Inr (i, al1) \<and> st = (bm_insert key i pa, al1))"
  by (auto simp: allocate_property_def)

lemma allocate_properties_get:
  assumes "r_fold allocate_property keys (pa, al) = Inr (pa', al')" and "bm_wf pa"
  shows "bm_wf pa' \<and> al_next al \<le> al_next al' \<and>
    (\<forall>k \<in> set keys. \<exists>i. bm_get pa' k = Some i \<and> al_next al \<le> i \<and> i < al_next al') \<and>
    (\<forall>k. k \<notin> set keys \<longrightarrow> bm_get pa' k = bm_get pa k)"
  using assms
proof (induction keys arbitrary: pa al)
  case Nil
  then show ?case by simp
next
  case (Cons key keys)
  from Cons.prems(1) obtain i al1 where draw: "mint ''stable property id'' al = Inr (i, al1)"
    and rest: "r_fold allocate_property keys (bm_insert key i pa, al1) = Inr (pa', al')"
    by (auto simp: allocate_property_iff)
  note IH = Cons.IH [OF rest] and i = ids.draw_interval [OF draw]
  show ?case
  proof (cases "key \<in> set keys")
    case True
    with IH i Cons.prems(2) show ?thesis by (fastforce simp: bm_get_insert)
  next
    case False
    with IH Cons.prems(2) have "bm_get pa' key = Some i"
      by (simp add: bm_get_insert del: split_paired_All)
    with IH i Cons.prems(2) show ?thesis by (fastforce simp: bm_get_insert)
  qed
qed

section \<open>The table pass\<close>

lemma allocate_incarnation_iff:
  "allocate_incarnation (t, key) (A, al) = Inr st \<longleftrightarrow>
     (\<exists>a i al1. bm_get A key = Some a \<and> mint ''table incarnation id'' al = Inr (i, al1) \<and>
        st = (bm_insert key (a\<lparr>at_incarnation := Some i\<rparr>) A, al1))"
  by (auto simp: allocate_incarnation_def)

lemma allocate_incarnations_get:
  assumes "r_fold allocate_incarnation es (A, al) = Inr (A', al')" and "bm_wf A"
  shows "bm_wf A' \<and> al_next al \<le> al_next al' \<and>
    (\<forall>k. k \<notin> snd ` set es \<longrightarrow> bm_get A' k = bm_get A k) \<and>
    (\<forall>k \<in> snd ` set es. \<exists>a i. bm_get A k = Some a \<and>
       bm_get A' k = Some (a\<lparr>at_incarnation := Some i\<rparr>) \<and> al_next al \<le> i \<and> i < al_next al')"
  using assms
proof (induction es arbitrary: A al)
  case Nil
  then show ?case by simp
next
  case (Cons e es)
  obtain t key where e: "e = (t, key)" by (cases e) auto
  from Cons.prems(1) obtain a i al1 where a: "bm_get A key = Some a"
    and draw: "mint ''table incarnation id'' al = Inr (i, al1)"
    and rest: "r_fold allocate_incarnation es
      (bm_insert key (a\<lparr>at_incarnation := Some i\<rparr>) A, al1) = Inr (A', al')"
    by (auto simp: allocate_incarnation_iff e)
  note IH = Cons.IH [OF rest bm_wf_insert [OF Cons.prems(2)]] and i = ids.draw_interval [OF draw]
  have other: "\<exists>a i. bm_get A k = Some a \<and> bm_get A' k = Some (a\<lparr>at_incarnation := Some i\<rparr>) \<and>
      al_next al \<le> i \<and> i < al_next al'" if k: "k \<in> snd ` set es" for k
  proof -
    from IH k obtain b j where b: "bm_get (bm_insert key (a\<lparr>at_incarnation := Some i\<rparr>) A) k = Some b"
      "bm_get A' k = Some (b\<lparr>at_incarnation := Some j\<rparr>)" "al_next al1 \<le> j" "j < al_next al'"
      by blast
    with a i Cons.prems(2) show ?thesis
      by (cases "k = key") (force simp: bm_get_insert)+
  qed
  have same: "bm_get A' k = bm_get A k" if k: "k \<notin> snd ` set (e # es)" for k
  proof -
    have "bm_get A' k = bm_get (bm_insert key (a\<lparr>at_incarnation := Some i\<rparr>) A) k"
      using IH k by (simp add: e del: split_paired_All)
    then show ?thesis using k Cons.prems(2) by (simp add: e bm_get_insert)
  qed
  have first: "\<exists>a i. bm_get A key = Some a \<and> bm_get A' key = Some (a\<lparr>at_incarnation := Some i\<rparr>) \<and>
      al_next al \<le> i \<and> i < al_next al'"
  proof (cases "key \<in> snd ` set es")
    case True
    then show ?thesis by (rule other)
  next
    case False
    with IH have "bm_get A' key = bm_get (bm_insert key (a\<lparr>at_incarnation := Some i\<rparr>) A) key"
      by blast
    with a i IH Cons.prems(2) show ?thesis by (auto simp: bm_get_insert)
  qed
  show ?case
    using IH i same first other by (auto simp: e)
qed

lemma pending_incarnations_in:
  "bm_wf A \<Longrightarrow> k \<in> snd ` set (pending_incarnations A) \<longleftrightarrow>
     (\<exists>a. bm_get A k = Some a \<and> fst k \<noteq> KInterface \<and> at_incarnation a = None)"
proof -
  assume wf: "bm_wf A"
  have "k \<in> snd ` set (pending_incarnations A) \<longleftrightarrow>
      (\<exists>a. (k, a) \<in> set A \<and> fst k \<in> {KNode, KEdge} \<and> at_incarnation a = None)"
    by (cases k) (auto simp: pending_incarnations_def image_iff)
  also have "\<dots> \<longleftrightarrow> (\<exists>a. bm_get A k = Some a \<and> fst k \<noteq> KInterface \<and> at_incarnation a = None)"
    using wf type_kind.exhaust by (auto dest: bm_get_in_set intro: bm_in_set_get)
  finally show ?thesis .
qed

end
