(* ===== verification/Schema_Resolution.thy ===== *)
theory Schema_Resolution
  imports Schema_Resolve_Facts
begin

text \<open>
  The passes put together: the abstract specification of a resolution (where every type,
  property and table takes its identity from) and the proof that \<^verbatim>\<open>resolve\<close> meets it.
\<close>

section \<open>The built schema\<close>

definition built_type ::
    "type_assignments \<Rightarrow> property_assignments \<Rightarrow> type_kind \<times> string \<times> property_shape list \<Rightarrow>
       accepted_type \<Rightarrow> bool" where
  "built_type A pa = (\<lambda>(k, n, ps) e.
     ac_kind e = k \<and> ac_name e = n \<and>
     (\<exists>a. bm_get A (k, n) = Some a \<and> ac_type_id e = at_type_id a \<and>
        ac_incarnation e = (if k = KInterface then None else at_incarnation a) \<and>
        (k \<noteq> KInterface \<longrightarrow> at_incarnation a \<noteq> None) \<and>
        list_all2 (\<lambda>p q. build_property (at_type_id a) n A pa p = Inr q) ps (ac_properties e)))"

lemma built_interface:
  "build_interface A pa x = Inr y \<Longrightarrow> built_type A pa (KInterface, is_name x, is_properties x)
     \<lparr>ac_kind = KInterface, ac_name = ii_name y, ac_type_id = ii_type_id y,
      ac_incarnation = None, ac_properties = ii_properties y\<rparr>"
  by (auto simp: built_type_def build_interface_def build_properties_def r_map_Inr_iff)

lemma built_node:
  "build_node A pa x = Inr y \<Longrightarrow> built_type A pa (KNode, ns_name x, ns_properties x)
     \<lparr>ac_kind = KNode, ac_name = ni_name y, ac_type_id = ni_type_id y,
      ac_incarnation = Some (ni_table_incarnation_id y), ac_properties = ni_properties y\<rparr>"
  by (auto simp: built_type_def build_node_def build_properties_def r_map_Inr_iff)

lemma built_edge:
  "build_edge A pa x = Inr y \<Longrightarrow> built_type A pa (KEdge, es_name x, es_properties x)
     \<lparr>ac_kind = KEdge, ac_name = ei_name y, ac_type_id = ei_type_id y,
      ac_incarnation = Some (ei_table_incarnation_id y), ac_properties = ei_properties y\<rparr>"
  by (auto simp: built_type_def build_edge_def build_properties_def r_map_Inr_iff)

lemma build_schema_Inr:
  "build_schema d nx A pa shape = Inr ir \<longleftrightarrow>
     sir_ir_version ir = SCHEMA_IR_VERSION \<and> sir_schema_identity_domain ir = d \<and>
     sir_next_identity_id ir = nx \<and>
     list_all2 (\<lambda>x y. build_interface A pa x = Inr y) (ss_interfaces shape) (sir_interfaces ir) \<and>
     list_all2 (\<lambda>x y. build_node A pa x = Inr y) (ss_nodes shape) (sir_nodes ir) \<and>
     list_all2 (\<lambda>x y. build_edge A pa x = Inr y) (ss_edges shape) (sir_edges ir)"
  by (cases ir) (auto simp: build_schema_def r_map_Inr_iff)

lemma build_schema_types:
  assumes "build_schema d nx A pa shape = Inr ir"
  shows "list_all2 (built_type A pa) (shape_properties shape) (accepted_types ir)"
  using assms unfolding shape_properties_def accepted_types_def build_schema_Inr
  by (intro list_all2_appendI)
    (auto simp: list_all2_map1 list_all2_map2 elim!: list_all2_mono
      intro: built_interface built_node built_edge)

lemma build_property_Inr:
  assumes "build_property oid n A pa p = Inr q"
  shows "pi_name q = ps_name p" and "bm_get pa (oid, ps_name p) = Some (pi_property_id q)"
  using assms by (auto simp: build_property_def)

lemma built_type_names:
  assumes "built_type A pa (k, n, ps) e"
  shows "ac_kind e = k" and "ac_name e = n" and "map pi_name (ac_properties e) = map ps_name ps"
proof -
  show "ac_kind e = k" "ac_name e = n" using assms by (auto simp: built_type_def)
  from assms obtain a :: assigned_type where
    "list_all2 (\<lambda>p q. build_property (at_type_id a) n A pa p = Inr q) ps (ac_properties e)"
    by (auto simp: built_type_def)
  then show "map pi_name (ac_properties e) = map ps_name ps"
    by (induction rule: list_all2_induct) (auto dest: build_property_Inr)
qed

lemma built_types_keys:
  assumes "list_all2 (built_type A pa) L es"
  shows "map (\<lambda>e. (ac_kind e, ac_name e)) es = map entry_key L"
  using assms
  by (induction rule: list_all2_induct) (auto simp: entry_key_def dest: built_type_names)

lemma shape_keys: "map entry_key (shape_properties shape) = map entry_key (shape_types shape)"
  by (simp add: shape_properties_def shape_types_def entry_key_def)

lemma built_owner_id:
  assumes "built_type A pa (k, n, ps) e"
  shows "ac_type_id e = owner_id A k n"
  using assms by (auto simp: built_type_def owner_id_def)

text \<open>Property keys are unique because the built schema passed the checks.\<close>

definition flatten ::
    "(type_kind \<times> string \<times> property_shape list) list \<Rightarrow>
       (type_kind \<times> string \<times> property_shape) list" where
  "flatten L = concat (map (\<lambda>(k, n, ps). map (\<lambda>p. (k, n, p)) ps) L)"

lemma flatten_simps [simp]:
  "flatten [] = []" "flatten ((k, n, ps) # L) = map (\<lambda>p. (k, n, p)) ps @ flatten L"
  by (simp_all add: flatten_def)

lemma flat_properties_flatten: "flat_properties shape = flatten (shape_properties shape)"
  by (simp add: flat_properties_def flatten_def)

lemma in_flatten: "(k, n, p) \<in> set (flatten L) \<longleftrightarrow> (\<exists>ps. (k, n, ps) \<in> set L \<and> p \<in> set ps)"
proof (induction L)
  case (Cons x L)
  then show ?case by (cases x) auto
qed simp

lemma flat_keys_owner:
  assumes "list_all2 (built_type A pa) L es"
  shows "\<forall>x \<in> set (flatten L). fst (flat_key A x) \<in> ac_type_id ` set es"
  using assms
proof (induction rule: list_all2_induct)
  case (Cons x xs e es)
  obtain k n ps where x: "x = (k, n, ps)" by (cases x) auto
  have "fst (flat_key A (k, n, p)) = ac_type_id e" for p
    using built_owner_id [OF Cons.hyps(1) [unfolded x]] by (simp add: flat_key_def)
  with Cons.IH show ?case by (auto simp: x)
qed simp

lemma flat_keys_distinct:
  assumes "list_all2 (built_type A pa) L es" and "distinct (map ac_type_id es)"
    and "\<forall>e \<in> set es. distinct (map pi_name (ac_properties e))"
  shows "distinct (map (flat_key A) (flatten L))"
  using assms
proof (induction rule: list_all2_induct)
  case (Cons x xs e es)
  obtain k n ps where x: "x = (k, n, ps)" by (cases x) auto
  have keys: "map (flat_key A) (map (\<lambda>p. (k, n, p)) ps) = map (Pair (ac_type_id e)) (map ps_name ps)"
    using built_owner_id [of A pa k n ps e] Cons.hyps(1) by (simp add: x flat_key_def)
  have dist: "distinct (map ps_name ps)"
    using Cons.prems(2) built_type_names(3) [OF Cons.hyps(1) [unfolded x]] by simp
  have "distinct (map (flat_key A) (map (\<lambda>p. (k, n, p)) ps))"
    unfolding keys using dist by (simp add: distinct_map inj_on_def)
  moreover have "set (map (flat_key A) (map (\<lambda>p. (k, n, p)) ps)) \<inter>
      set (map (flat_key A) (flatten xs)) = {}"
    unfolding keys using flat_keys_owner [OF Cons.hyps(2)] Cons.prems(1)
    by auto (metis fst_conv)
  moreover have "distinct (map (flat_key A) (flatten xs))"
    using Cons.IH Cons.prems by simp
  ultimately show ?case by (simp only: x flatten_simps map_append distinct_append)
qed simp

section \<open>The specification of a resolution\<close>

text \<open>Where a desired property takes its identity from, under the accepted owner of its type.\<close>

definition property_source :: "accepted_type \<Rightarrow> property_shape \<Rightarrow> property_ir option" where
  "property_source e p =
     (case find (\<lambda>c. pi_name c = ps_name p) (ac_properties e) of
        Some q \<Rightarrow> Some q
      | None \<Rightarrow>
          (case ps_rename_from p of
             None \<Rightarrow> None
           | Some h \<Rightarrow> find (\<lambda>c. pi_name c = h) (ac_properties e)))"

lemma match_property_source:
  assumes match: "match_property es evolving k n ao p = Inr (m, ds)"
    and distinct: "\<And>e. ao = Some e \<Longrightarrow> distinct (map pi_name (ac_properties e))"
  shows "m = Option.bind ao (\<lambda>e. property_source e p)"
proof (cases ao)
  case None
  with match show ?thesis by (auto simp: match_property_def split: option.splits if_splits)
next
  case (Some e)
  have find: "find (\<lambda>c. pi_name c = h) (ac_properties e) = Some x"
    if "filter (\<lambda>c. pi_name c = h) (ac_properties e) = [x]" for h x
  proof (rule find_unique)
    have x: "x \<in> set (filter (\<lambda>c. pi_name c = h) (ac_properties e))" using that by simp
    then show "x \<in> set (ac_properties e)" "pi_name x = h" by auto
    show "y = x" if "y \<in> set (ac_properties e)" "pi_name y = h" for y
      using distinct [OF Some] that x by (auto dest: distinct_keyed_unique)
  qed
  from match Some show ?thesis
    by (auto simp: match_property_def property_source_def Let_def length_Suc_conv find
        split: option.splits if_splits)
qed

text \<open>What the passes rely on about the accepted schema; the checks give all of it.\<close>

definition sound_base :: "accepted_type list \<Rightarrow> u64 \<Rightarrow> bool" where
  "sound_base es nx \<longleftrightarrow>
     distinct (map (\<lambda>e. (ac_kind e, ac_name e)) es) \<and>
     distinct (concat (map type_identities es)) \<and>
     (\<forall>i \<in> set (concat (map type_identities es)). i < nx) \<and>
     (\<forall>e \<in> set es. distinct (map pi_name (ac_properties e)) \<and>
        (ac_incarnation e = None \<longleftrightarrow> ac_kind e = KInterface))"

lemma sound_base_Nil [simp]: "sound_base [] nx"
  by (simp add: sound_base_def)

lemma sound_base_accepted:
  assumes "validate_schema_ir jc ir = Inr u"
  shows "sound_base (accepted_types ir) (sir_next_identity_id ir)"
proof -
  have "ac_incarnation e = None \<longleftrightarrow> ac_kind e = KInterface" if "e \<in> set (accepted_types ir)" for e
    using that by (auto simp: accepted_types_def)
  with validate_schema_ir_parts(3,4,5) [OF assms] validated_property_names [OF assms]
  show ?thesis by (auto simp: sound_base_def schema_identities_def)
qed

definition base_types :: "schema_ir option \<Rightarrow> accepted_type list" where
  "base_types accepted = (case accepted of None \<Rightarrow> [] | Some ir \<Rightarrow> accepted_types ir)"

lemma resolve_Inr:
  assumes "resolve jc d nx accepted shape = Inr res"
  obtains tp A1 al1 pp pa al2 A2 al3 where
    "resolve_types (base_types accepted) (accepted \<noteq> None) shape = Inr tp"
    "nx \<noteq> 0"
    "r_thread allocate_type (tp_assignments tp) \<lparr>al_next = nx\<rparr> = Inr (A1, al1)"
    "resolve_properties (base_types accepted) (accepted \<noteq> None) A1 shape (tp_diagnostics tp) = Inr pp"
    "r_fold allocate_property (sort (pp_pending pp)) (pp_assignments pp, al1) = Inr (pa, al2)"
    "r_fold allocate_incarnation (pending_incarnations A1) (A1, al2) = Inr (A2, al3)"
    "build_schema d (al_next al3) A2 pa shape = Inr (sr_schema_ir res)"
    "validate_schema_ir jc (sr_schema_ir res) = Inr ()"
  using assms
  by (auto simp: resolve_def base_types_def new_allocator_def Let_def split: if_splits)

definition type_resolved ::
    "accepted_type list \<Rightarrow> u64 \<Rightarrow> type_kind \<Rightarrow> string \<Rightarrow> string option \<Rightarrow> assigned_type \<Rightarrow> bool" where
  "type_resolved es nx k n h a \<longleftrightarrow>
     (case type_source es k n h of
        Some e \<Rightarrow> at_type_id a = ac_type_id e \<and> at_incarnation a = ac_incarnation e
      | None \<Rightarrow> nx \<le> at_type_id a \<and>
          (if k = KInterface then at_incarnation a = None
           else \<exists>i. at_incarnation a = Some i \<and> nx \<le> i))"

lemma type_source_in:
  "type_source es k n h = Some e \<Longrightarrow> e \<in> set es \<and> ac_kind e = k"
  by (auto simp: type_source_def find_Some_iff split: option.splits)

lemma property_source_in:
  "property_source e p = Some q \<Longrightarrow> q \<in> set (ac_properties e)"
  by (auto simp: property_source_def find_Some_iff split: option.splits)

section \<open>The passes meet the specification\<close>

lemma types_resolved:
  assumes tp: "resolve_types es evolving shape = Inr tp"
    and A1: "r_thread allocate_type (tp_assignments tp) \<lparr>al_next = nx\<rparr> = Inr (A1, al1)"
    and dist: "distinct (map entry_key (shape_types shape))"
    and base: "distinct (map (\<lambda>e. (ac_kind e, ac_name e)) es)" "es \<noteq> [] \<Longrightarrow> evolving"
    and entry: "(k, n, h) \<in> set (shape_types shape)"
  shows "\<exists>a. bm_get A1 (k, n) = Some a \<and>
    (case type_source es k n h of
       Some e \<Rightarrow> at_type_id a = ac_type_id e \<and> at_incarnation a = ac_incarnation e
     | None \<Rightarrow> nx \<le> at_type_id a \<and> at_incarnation a = None)"
proof -
  obtain m ds where m: "match_type es evolving k n h = Inr (m, ds)"
    "bm_get (tp_assignments tp) (k, n) = Some (assigned_of m)"
    using assign_types_get [OF tp [unfolded resolve_types_def]] dist entry by force
  have "m = type_source es k n h" using m(1) base by (rule match_type_source)
  with allocate_types_get(3) [OF A1 m(2)] show ?thesis
    by (auto simp: type_allocated_def assigned_of_def split: option.splits)
qed

lemma resolve_types_wf:
  assumes "resolve_types es evolving shape = Inr tp"
    and "distinct (map entry_key (shape_types shape))"
  shows "bm_wf (tp_assignments tp)"
  using assign_types_get [OF assms(1) [unfolded resolve_types_def]] assms(2) by simp

text \<open>The accepted owner found by identity is the source of the type.\<close>

lemma owner_of_source:
  assumes base: "sound_base es nx"
    and a: "bm_get A (k, n) = Some a"
    and resolved: "case type_source es k n h of
       Some e \<Rightarrow> at_type_id a = ac_type_id e
     | None \<Rightarrow> nx \<le> at_type_id a"
  shows "owner_of es A k n = type_source es k n h"
proof (cases "type_source es k n h")
  case None
  have "ac_type_id c < nx" if "c \<in> set es" for c
    using base that by (auto simp: sound_base_def type_identities_def)
  then have "find (\<lambda>c. ac_type_id c = at_type_id a) es = None"
    using None resolved by (force simp: find_None_iff)
  with None a show ?thesis by (simp add: owner_of_def owner_id_def)
next
  case (Some e)
  have "distinct (map ac_type_id es)"
    using base by (auto simp: sound_base_def intro: distinct_type_ids)
  then have "find (\<lambda>c. ac_type_id c = at_type_id a) es = Some e"
    using type_source_in [OF Some] Some resolved
    by (intro find_unique) (auto dest: distinct_keyed_unique)
  with Some a show ?thesis by (simp add: owner_of_def owner_id_def)
qed

lemma incarnations_resolved:
  assumes A2: "r_fold allocate_incarnation (pending_incarnations A1) (A1, al2) = Inr (A2, al3)"
    and wf: "bm_wf A1" and nx: "nx \<le> al_next al2"
    and a: "bm_get A1 (k, n) = Some a"
  shows "\<exists>a'. bm_get A2 (k, n) = Some a' \<and> at_type_id a' = at_type_id a \<and>
    (if k = KInterface \<or> at_incarnation a \<noteq> None then a' = a
     else \<exists>i. at_incarnation a' = Some i \<and> nx \<le> i)"
proof (cases "(k, n) \<in> snd ` set (pending_incarnations A1)")
  case True
  with allocate_incarnations_get [OF A2 wf] obtain a0 i where
    "bm_get A1 (k, n) = Some a0" "bm_get A2 (k, n) = Some (a0\<lparr>at_incarnation := Some i\<rparr>)"
    "al_next al2 \<le> i"
    by blast
  with a nx True show ?thesis by (auto simp: pending_incarnations_in [OF wf])
next
  case False
  with allocate_incarnations_get [OF A2 wf] have "bm_get A2 (k, n) = bm_get A1 (k, n)" by blast
  with a False show ?thesis by (auto simp: pending_incarnations_in [OF wf])
qed

lemma same_owner_ids:
  assumes A2: "r_fold allocate_incarnation (pending_incarnations A1) (A1, al2) = Inr (A2, al3)"
    and wf: "bm_wf A1"
  shows "owner_id A2 k n = owner_id A1 k n"
proof (cases "bm_get A1 (k, n)")
  case None
  then have "bm_get A2 (k, n) = None"
    using allocate_incarnations_get [OF A2 wf] pending_incarnations_in [OF wf, of "(k, n)"]
    by (metis option.distinct(1))
  with None show ?thesis by (simp add: owner_id_def)
next
  case (Some a)
  then show ?thesis
    using incarnations_resolved [OF A2 wf order_refl Some] by (auto simp: owner_id_def)
qed

lemma properties_resolved:
  assumes pp: "r_fold (assign_flat es evolving A) (flat_properties shape)
      \<lparr>pp_diagnostics = ds, pp_assignments = bm_empty, pp_consumed = [], pp_pending = []\<rparr> = Inr pp"
    and pa: "r_fold allocate_property (sort (pp_pending pp)) (pp_assignments pp, al1) = Inr (pa, al2)"
    and dist: "distinct (map (flat_key A) (flat_properties shape))"
    and names: "\<And>e. e \<in> set es \<Longrightarrow> distinct (map pi_name (ac_properties e))"
    and x: "(k, n, p) \<in> set (flat_properties shape)" and nx: "nx \<le> al_next al1"
  shows "\<exists>i. bm_get pa (owner_id A k n, ps_name p) = Some i \<and>
    (case Option.bind (owner_of es A k n) (\<lambda>e. property_source e p) of
       Some q \<Rightarrow> i = pi_property_id q
     | None \<Rightarrow> nx \<le> i)"
proof -
  note flat = assign_flat_get [OF pp _ dist, simplified]
  note alloc = allocate_properties_get [OF pa conjunct1 [OF flat]]
  let ?key = "(owner_id A k n, ps_name p)"
  have key: "flat_key A (k, n, p) = ?key" by (simp add: flat_key_def)
  from flat x obtain m where m: "property_match es evolving A (k, n, p) m"
    and get: "\<forall>q. m = Some q \<longrightarrow> bm_get (pp_assignments pp) ?key = Some (pi_property_id q)"
    by (force simp: flat_key_def)
  from m obtain ds' where "match_property es evolving k n (owner_of es A k n) p = Inr (m, ds')"
    by (auto simp: property_match_def)
  then have src: "m = Option.bind (owner_of es A k n) (\<lambda>e. property_source e p)"
    by (rule match_property_source) (auto simp: owner_of_def find_Some_iff intro: names)
  have pending: "?key \<in> set (pp_pending pp) \<longleftrightarrow> m = None"
  proof
    assume "?key \<in> set (pp_pending pp)"
    then obtain y where y: "y \<in> set (flat_properties shape)" "property_match es evolving A y None"
        "flat_key A y = flat_key A (k, n, p)"
      using flat by (force simp: key)
    with dist x have "y = (k, n, p)" by (blast dest: distinct_keyed_unique)
    with m y(2) show "m = None" by (blast dest: property_match_functional)
  next
    assume "m = None"
    with m x flat show "?key \<in> set (pp_pending pp)" by (force simp: flat_key_def)
  qed
  show ?thesis
  proof (cases m)
    case None
    then have "?key \<in> set (sort (pp_pending pp))" using pending by simp
    with alloc obtain i where "bm_get pa ?key = Some i" "al_next al1 \<le> i" by blast
    with None src nx show ?thesis by auto
  next
    case (Some q)
    then have "?key \<notin> set (sort (pp_pending pp))" using pending by simp
    with alloc have "bm_get pa ?key = bm_get (pp_assignments pp) ?key" by blast
    with Some src get show ?thesis by auto
  qed
qed

lemma entry_has_owner:
  "(k, n, ps) \<in> set (shape_properties shape) \<Longrightarrow> \<exists>h. (k, n, h) \<in> set (shape_types shape)"
  by (auto simp: shape_properties_def shape_types_def)

lemma resolution_spec:
  assumes res: "resolve jc d nx accepted shape = Inr res"
    and base: "sound_base (base_types accepted) nx"
  obtains A pa where
    "list_all2 (built_type A pa) (shape_properties shape) (accepted_types (sr_schema_ir res))"
    "\<And>k n h. (k, n, h) \<in> set (shape_types shape) \<Longrightarrow>
       \<exists>a. bm_get A (k, n) = Some a \<and> type_resolved (base_types accepted) nx k n h a"
    "\<And>k n h p. (k, n, h) \<in> set (shape_types shape) \<Longrightarrow> (k, n, p) \<in> set (flat_properties shape) \<Longrightarrow>
       \<exists>i. bm_get pa (owner_id A k n, ps_name p) = Some i \<and>
         (case Option.bind (type_source (base_types accepted) k n h) (\<lambda>e. property_source e p) of
            Some q \<Rightarrow> i = pi_property_id q
          | None \<Rightarrow> nx \<le> i)"
    "build_schema d (sir_next_identity_id (sr_schema_ir res)) A pa shape = Inr (sr_schema_ir res)"
    "nx \<le> sir_next_identity_id (sr_schema_ir res)"
    "validate_schema_ir jc (sr_schema_ir res) = Inr ()"
    "distinct (map entry_key (shape_types shape))"
    "\<And>key. key \<notin> entry_key ` set (shape_types shape) \<Longrightarrow> bm_get A key = None"
    "\<And>key. key \<notin> flat_key A ` set (flat_properties shape) \<Longrightarrow> bm_get pa key = None"
    "distinct (map (flat_key A) (flat_properties shape))"
proof -
  let ?es = "base_types accepted"
  from res obtain tp A1 al1 pp pa al2 A2 al3 where
    tp: "resolve_types ?es (accepted \<noteq> None) shape = Inr tp" and
    A1: "r_thread allocate_type (tp_assignments tp) \<lparr>al_next = nx\<rparr> = Inr (A1, al1)" and
    pp: "resolve_properties ?es (accepted \<noteq> None) A1 shape (tp_diagnostics tp) = Inr pp" and
    pa: "r_fold allocate_property (sort (pp_pending pp)) (pp_assignments pp, al1) = Inr (pa, al2)" and
    A2: "r_fold allocate_incarnation (pending_incarnations A1) (A1, al2) = Inr (A2, al3)" and
    build: "build_schema d (al_next al3) A2 pa shape = Inr (sr_schema_ir res)" and
    valid: "validate_schema_ir jc (sr_schema_ir res) = Inr ()"
    by (rule resolve_Inr)
  note built = build_schema_types [OF build]
  have dist: "distinct (map entry_key (shape_types shape))"
    using validate_schema_ir_parts(5) [OF valid] built_types_keys [OF built] shape_keys [of shape]
    by simp
  have wf1: "bm_wf A1"
    using resolve_types_wf [OF tp dist] allocate_types_get(1) [OF A1] by (rule bm_wf_same_keys)
  have evolving: "?es \<noteq> [] \<Longrightarrow> accepted \<noteq> None"
    by (auto simp: base_types_def split: option.splits)
  have types: "\<exists>a. bm_get A1 (k, n) = Some a \<and>
      (case type_source ?es k n h of
         Some e \<Rightarrow> at_type_id a = ac_type_id e \<and> at_incarnation a = ac_incarnation e
       | None \<Rightarrow> nx \<le> at_type_id a \<and> at_incarnation a = None)"
    if "(k, n, h) \<in> set (shape_types shape)" for k n h
    using types_resolved [OF tp A1 dist _ evolving that] base by (simp add: sound_base_def)
  have owners: "owner_of ?es A1 k n = type_source ?es k n h"
    if entry: "(k, n, h) \<in> set (shape_types shape)" for k n h
  proof -
    from types [OF entry] obtain a where "bm_get A1 (k, n) = Some a"
        "case type_source ?es k n h of
           Some e \<Rightarrow> at_type_id a = ac_type_id e | None \<Rightarrow> nx \<le> at_type_id a"
      by (auto split: option.splits)
    with base show ?thesis by (rule owner_of_source)
  qed
  have al1: "nx \<le> al_next al1" using allocate_types [OF A1] by simp
  have flat2: "distinct (map (flat_key A2) (flat_properties shape))"
    unfolding flat_properties_flatten
  proof (rule flat_keys_distinct [OF built])
    show "distinct (map ac_type_id (accepted_types (sr_schema_ir res)))"
      using validate_schema_ir_parts(3) [OF valid]
      by (auto simp: schema_identities_def intro: distinct_type_ids)
    show "\<forall>e \<in> set (accepted_types (sr_schema_ir res)). distinct (map pi_name (ac_properties e))"
      using validated_property_names [OF valid] by auto
  qed
  have keys: "flat_key A2 = flat_key A1"
    by (simp add: flat_key_def same_owner_ids [OF A2 wf1])
  with flat2 have flat: "distinct (map (flat_key A1) (flat_properties shape))" by simp
  have "bm_get A1 (k, n) \<noteq> None" if "(k, n, ps) \<in> set (shape_properties shape)" for k n ps
    using entry_has_owner [OF that] types by force
  then have pp': "r_fold (assign_flat ?es (accepted \<noteq> None) A1) (flat_properties shape)
      \<lparr>pp_diagnostics = tp_diagnostics tp, pp_assignments = bm_empty, pp_consumed = [],
       pp_pending = []\<rparr> = Inr pp"
    using pp resolve_properties_flat by metis
  have props: "\<exists>i. bm_get pa (owner_id A1 k n, ps_name p) = Some i \<and>
      (case Option.bind (owner_of ?es A1 k n) (\<lambda>e. property_source e p) of
         Some q \<Rightarrow> i = pi_property_id q | None \<Rightarrow> nx \<le> i)"
    if "(k, n, p) \<in> set (flat_properties shape)" for k n p
    using properties_resolved [OF pp' pa flat _ that al1] base by (simp add: sound_base_def)
  have wfp: "bm_wf (pp_assignments pp)" using assign_flat_get [OF pp' _ flat] by simp
  have al2: "nx \<le> al_next al2" using allocate_properties_get [OF pa wfp] al1 by auto
  have next': "sir_next_identity_id (sr_schema_ir res) = al_next al3"
    using build by (simp add: build_schema_Inr)
  have al3: "nx \<le> al_next al3" using allocate_incarnations_get [OF A2 wf1] al2 by auto
  have none1: "bm_get A2 key = None" if key: "key \<notin> entry_key ` set (shape_types shape)" for key
  proof -
    have "bm_get (tp_assignments tp) key = None"
      using assign_types_get [OF tp [unfolded resolve_types_def] _ dist] key by (cases key) auto
    then have "bm_get A1 key = None" using allocate_types_get(2) [OF A1] by simp
    then show ?thesis
      using allocate_incarnations_get [OF A2 wf1] pending_incarnations_in [OF wf1, of key]
      by (metis option.distinct(1))
  qed
  have none2: "bm_get pa key = None" if key: "key \<notin> flat_key A2 ` set (flat_properties shape)" for key
  proof -
    note flat_get = assign_flat_get [OF pp' _ flat, simplified]
    have "bm_get (pp_assignments pp) key = None"
      using flat_get key unfolding keys by (cases key) auto
    moreover have "key \<notin> set (sort (pp_pending pp))" using flat_get key unfolding keys by auto
    ultimately show ?thesis using allocate_properties_get [OF pa wfp] by (cases key) auto
  qed
  show thesis
  proof (rule that [OF built])
    fix k n h
    assume entry: "(k, n, h) \<in> set (shape_types shape)"
    from types [OF entry] obtain a where a: "bm_get A1 (k, n) = Some a"
      "case type_source ?es k n h of
         Some e \<Rightarrow> at_type_id a = ac_type_id e \<and> at_incarnation a = ac_incarnation e
       | None \<Rightarrow> nx \<le> at_type_id a \<and> at_incarnation a = None"
      by blast
    have "at_incarnation a = None \<Longrightarrow> k = KInterface" if "type_source ?es k n h = Some e" for e
      using a(2) that type_source_in [OF that] base by (auto simp: sound_base_def)
    with incarnations_resolved [OF A2 wf1 al2 a(1)] a(2)
    show "\<exists>a. bm_get A2 (k, n) = Some a \<and> type_resolved ?es nx k n h a"
      by (auto simp: type_resolved_def split: option.splits if_splits)
  next
    fix k n h p
    assume entry: "(k, n, h) \<in> set (shape_types shape)"
      and "(k, n, p) \<in> set (flat_properties shape)"
    from props [OF this(2)]
    show "\<exists>i. bm_get pa (owner_id A2 k n, ps_name p) = Some i \<and>
        (case Option.bind (type_source ?es k n h) (\<lambda>e. property_source e p) of
           Some q \<Rightarrow> i = pi_property_id q | None \<Rightarrow> nx \<le> i)"
      by (simp add: same_owner_ids [OF A2 wf1] owners [OF entry])
  qed (use build next' al3 valid dist none1 none2 flat2 in auto)
qed

end
