(* ===== verification/Schema_Resolution_Properties.thy ===== *)
theory Schema_Resolution_Properties
  imports Schema_Resolution
begin

text \<open>
  What the identity resolution promises to the rest of the engine: identities are never reused,
  what is matched keeps its identity, the accepted schema still means the desired shape, and
  resolving again changes nothing.
\<close>

section \<open>Identities are never reused\<close>

lemma built_in:
  assumes "list_all2 (built_type A pa) L es" and "e \<in> set es"
  shows "\<exists>k n ps. (k, n, ps) \<in> set L \<and> built_type A pa (k, n, ps) e"
  using assms by (induction rule: list_all2_induct) auto

lemma built_for:
  assumes "list_all2 (built_type A pa) L es" and "(k, n, ps) \<in> set L"
  shows "\<exists>e \<in> set es. built_type A pa (k, n, ps) e"
  using assms by (induction rule: list_all2_induct) auto

lemma built_property_for:
  assumes "list_all2 (\<lambda>p q. build_property oid n A pa p = Inr q) ps qs" and "q \<in> set qs"
  shows "\<exists>p \<in> set ps. build_property oid n A pa p = Inr q"
  using assms by (induction rule: list_all2_induct) auto

lemma identities_of_type:
  assumes "e \<in> set es"
  shows "ac_type_id e \<in> set (concat (map type_identities es))"
    and "ac_incarnation e = Some i \<Longrightarrow> i \<in> set (concat (map type_identities es))"
    and "q \<in> set (ac_properties e) \<Longrightarrow> pi_property_id q \<in> set (concat (map type_identities es))"
  using assms by (auto simp: type_identities_def intro!: bexI [of _ e])

lemma type_identity_old_or_new:
  assumes "type_resolved es nx k n h a"
  shows "at_type_id a \<in> set (concat (map type_identities es)) \<or> nx \<le> at_type_id a"
    and "at_incarnation a = Some i \<Longrightarrow> i \<in> set (concat (map type_identities es)) \<or> nx \<le> i"
  using assms
  by (auto simp: type_resolved_def simp del: set_concat split: option.splits if_splits
      dest: type_source_in intro: identities_of_type)

lemma resolved_identity_old_or_new:
  assumes res: "resolve jc d nx accepted shape = Inr res"
    and base: "sound_base (base_types accepted) nx"
    and i: "i \<in> set (schema_identities (sr_schema_ir res))"
  shows "i \<in> set (concat (map type_identities (base_types accepted))) \<or> nx \<le> i"
proof -
  let ?es = "base_types accepted"
  obtain A pa where
    built: "list_all2 (built_type A pa) (shape_properties shape) (accepted_types (sr_schema_ir res))" and
    types: "\<And>k n h. (k, n, h) \<in> set (shape_types shape) \<Longrightarrow>
       \<exists>a. bm_get A (k, n) = Some a \<and> type_resolved ?es nx k n h a" and
    props: "\<And>k n h p. (k, n, h) \<in> set (shape_types shape) \<Longrightarrow>
       (k, n, p) \<in> set (flat_properties shape) \<Longrightarrow>
       \<exists>i. bm_get pa (owner_id A k n, ps_name p) = Some i \<and>
         (case Option.bind (type_source ?es k n h) (\<lambda>e. property_source e p) of
            Some q \<Rightarrow> i = pi_property_id q | None \<Rightarrow> nx \<le> i)"
    using resolution_spec [OF res base] by metis
  from i obtain e where e: "e \<in> set (accepted_types (sr_schema_ir res))" "i \<in> set (type_identities e)"
    by (auto simp: schema_identities_def)
  from built_in [OF built e(1)] obtain k n ps where entry: "(k, n, ps) \<in> set (shape_properties shape)"
    and be: "built_type A pa (k, n, ps) e" by blast
  from entry_has_owner [OF entry] obtain h where h: "(k, n, h) \<in> set (shape_types shape)" by blast
  from types [OF h] obtain a where a: "bm_get A (k, n) = Some a" "type_resolved ?es nx k n h a"
    by blast
  from be a(1) have e_parts: "ac_type_id e = at_type_id a"
    "ac_incarnation e = (if k = KInterface then None else at_incarnation a)"
    "list_all2 (\<lambda>p q. build_property (at_type_id a) n A pa p = Inr q) ps (ac_properties e)"
    by (auto simp: built_type_def)
  from e(2) consider "i = ac_type_id e" | "ac_incarnation e = Some i"
    | q where "q \<in> set (ac_properties e)" "i = pi_property_id q"
    by (auto simp: type_identities_def split: option.splits)
  then show ?thesis
  proof cases
    case 1
    with e_parts type_identity_old_or_new(1) [OF a(2)] show ?thesis by simp
  next
    case 2
    with e_parts type_identity_old_or_new(2) [OF a(2)] show ?thesis by (auto split: if_splits)
  next
    case (3 q)
    from built_property_for [OF e_parts(3) 3(1)] obtain p where p: "p \<in> set ps"
      "build_property (at_type_id a) n A pa p = Inr q" by blast
    have "(k, n, p) \<in> set (flat_properties shape)"
      using entry p(1) by (auto simp: flat_properties_flatten in_flatten)
    from props [OF h this] build_property_Inr(2) [OF p(2)] 3(2)
    have "case Option.bind (type_source ?es k n h) (\<lambda>e. property_source e p) of
        Some q' \<Rightarrow> i = pi_property_id q' | None \<Rightarrow> nx \<le> i"
      using a(1) by (auto simp: owner_id_def)
    then show ?thesis
      by (auto simp del: set_concat split: option.splits bind_splits
          dest: property_source_in type_source_in intro: identities_of_type)
  qed
qed

text \<open>
  C29: resolving a shape against an accepted schema never reuses an identity: the identities of
  the result are pairwise different, each is one of the accepted schema or was drawn from its
  sequence, and the sequence only moves forward.
\<close>

theorem identities_never_reused:
  assumes "resolve_schema_ir jc accepted shape = Inr res"
  shows "distinct (schema_identities (sr_schema_ir res)) \<and>
    sir_next_identity_id accepted \<le> sir_next_identity_id (sr_schema_ir res) \<and>
    (\<forall>i \<in> set (schema_identities (sr_schema_ir res)). i < sir_next_identity_id (sr_schema_ir res) \<and>
       (i \<in> set (schema_identities accepted) \<or> sir_next_identity_id accepted \<le> i))"
proof -
  from assms have valid: "validate_schema_ir jc accepted = Inr ()" and
    res: "resolve jc (sir_schema_identity_domain accepted) (sir_next_identity_id accepted)
      (Some accepted) shape = Inr res"
    by (auto simp: resolve_schema_ir_def)
  have base: "sound_base (base_types (Some accepted)) (sir_next_identity_id accepted)"
    using sound_base_accepted [OF valid] by (simp add: base_types_def)
  obtain "validate_schema_ir jc (sr_schema_ir res) = Inr ()"
    "sir_next_identity_id accepted \<le> sir_next_identity_id (sr_schema_ir res)"
    using resolution_spec [OF res base] by metis
  with validate_schema_ir_parts(3,4) [of jc "sr_schema_ir res"]
    resolved_identity_old_or_new [OF res base]
  show ?thesis by (auto simp: base_types_def schema_identities_def)
qed

section \<open>Matched declarations keep their identity\<close>

text \<open>
  Every desired type is in the result, and it carries the identity (and for nodes and edges
  the table) of the accepted type of the same kind and name or, when there is none, of the
  accepted type its rename hint names; a type with no such source gets new ones.
\<close>

theorem type_identity_resolved:
  assumes "resolve_schema_ir jc accepted shape = Inr res" and "(k, n, h) \<in> set (shape_types shape)"
  shows "\<exists>e \<in> set (accepted_types (sr_schema_ir res)). ac_kind e = k \<and> ac_name e = n \<and>
    (case type_source (accepted_types accepted) k n h of
       Some old \<Rightarrow> ac_type_id e = ac_type_id old \<and> ac_incarnation e = ac_incarnation old
     | None \<Rightarrow> sir_next_identity_id accepted \<le> ac_type_id e \<and>
         (k \<noteq> KInterface \<longrightarrow> (\<exists>i. ac_incarnation e = Some i \<and> sir_next_identity_id accepted \<le> i)))"
proof -
  from assms have valid: "validate_schema_ir jc accepted = Inr ()" and
    res: "resolve jc (sir_schema_identity_domain accepted) (sir_next_identity_id accepted)
      (Some accepted) shape = Inr res"
    by (auto simp: resolve_schema_ir_def)
  have base: "sound_base (base_types (Some accepted)) (sir_next_identity_id accepted)"
    using sound_base_accepted [OF valid] by (simp add: base_types_def)
  obtain A pa where
    built: "list_all2 (built_type A pa) (shape_properties shape) (accepted_types (sr_schema_ir res))" and
    types: "\<And>k n h. (k, n, h) \<in> set (shape_types shape) \<Longrightarrow>
       \<exists>a. bm_get A (k, n) = Some a \<and>
         type_resolved (base_types (Some accepted)) (sir_next_identity_id accepted) k n h a"
    using resolution_spec [OF res base] by metis
  from assms(2) obtain ps where ps: "(k, n, ps) \<in> set (shape_properties shape)"
    by (auto simp: shape_properties_def shape_types_def)
  from built_for [OF built this] obtain e where e: "e \<in> set (accepted_types (sr_schema_ir res))"
    "built_type A pa (k, n, ps) e" by blast
  from types [OF assms(2)] obtain a where a: "bm_get A (k, n) = Some a"
    "type_resolved (accepted_types accepted) (sir_next_identity_id accepted) k n h a"
    by (auto simp: base_types_def)
  have "ac_incarnation old = None" if "type_source (accepted_types accepted) KInterface n h = Some old" for old
    using type_source_in [OF that] by (auto simp: accepted_types_def)
  with e a show ?thesis
    by (intro bexI [of _ e]) (auto simp: built_type_def type_resolved_def split: option.splits if_splits)
qed

text \<open>
  Every desired property of a desired type is in the result under that type, and it carries
  the identity of the property of the accepted type the type itself was resolved to: the one of
  the same name or, when there is none, the one its rename hint names. A property without such
  a source, and every property of a new type, gets a new identity.
\<close>

theorem property_identity_resolved:
  assumes "resolve_schema_ir jc accepted shape = Inr res"
    and entry: "(k, n, h) \<in> set (shape_types shape)" and p: "(k, n, p) \<in> set (flat_properties shape)"
  shows "\<exists>e \<in> set (accepted_types (sr_schema_ir res)). \<exists>q \<in> set (ac_properties e).
    ac_kind e = k \<and> ac_name e = n \<and> pi_name q = ps_name p \<and>
    (case Option.bind (type_source (accepted_types accepted) k n h) (\<lambda>e. property_source e p) of
       Some old \<Rightarrow> pi_property_id q = pi_property_id old
     | None \<Rightarrow> sir_next_identity_id accepted \<le> pi_property_id q)"
proof -
  from assms have valid: "validate_schema_ir jc accepted = Inr ()" and
    res: "resolve jc (sir_schema_identity_domain accepted) (sir_next_identity_id accepted)
      (Some accepted) shape = Inr res"
    by (auto simp: resolve_schema_ir_def)
  have base: "sound_base (base_types (Some accepted)) (sir_next_identity_id accepted)"
    using sound_base_accepted [OF valid] by (simp add: base_types_def)
  obtain A pa where
    built: "list_all2 (built_type A pa) (shape_properties shape) (accepted_types (sr_schema_ir res))" and
    props: "\<And>k n h p. (k, n, h) \<in> set (shape_types shape) \<Longrightarrow>
       (k, n, p) \<in> set (flat_properties shape) \<Longrightarrow>
       \<exists>i. bm_get pa (owner_id A k n, ps_name p) = Some i \<and>
         (case Option.bind (type_source (base_types (Some accepted)) k n h)
                 (\<lambda>e. property_source e p) of
            Some q \<Rightarrow> i = pi_property_id q | None \<Rightarrow> sir_next_identity_id accepted \<le> i)"
    using resolution_spec [OF res base] by metis
  from p obtain ps where ps: "(k, n, ps) \<in> set (shape_properties shape)" "p \<in> set ps"
    by (auto simp: flat_properties_flatten in_flatten)
  from built_for [OF built ps(1)] obtain e where e: "e \<in> set (accepted_types (sr_schema_ir res))"
    "built_type A pa (k, n, ps) e" by blast
  from e(2) obtain a :: assigned_type where a: "bm_get A (k, n) = Some a" "ac_kind e = k" "ac_name e = n"
    "list_all2 (\<lambda>p q. build_property (at_type_id a) n A pa p = Inr q) ps (ac_properties e)"
    by (auto simp: built_type_def)
  from a(4) ps(2) obtain q where q: "q \<in> set (ac_properties e)"
    "build_property (at_type_id a) n A pa p = Inr q"
    by (induction rule: list_all2_induct) auto
  from props [OF entry p] build_property_Inr [OF q(2)] a e(1) q(1) show ?thesis
    by (intro bexI [of _ e] bexI [of _ q]) (auto simp: owner_id_def base_types_def)
qed

section \<open>The life of a graph's schema\<close>

text \<open>
  One graph's schema over time: initialised once, then resolved against again and again.
\<close>

inductive evolves :: "codec \<Rightarrow> schema_ir \<Rightarrow> schema_ir \<Rightarrow> bool" for jc where
  evolves_refl: "evolves jc ir ir"
| evolves_step: "evolves jc ir ir1 \<Longrightarrow> resolve_schema_ir jc ir1 shape = Inr res \<Longrightarrow>
    evolves jc ir (sr_schema_ir res)"

lemma resolve_schema_ir_step:
  assumes "resolve_schema_ir jc accepted shape = Inr res"
  shows "validate_schema_ir jc accepted = Inr ()"
    and "validate_schema_ir jc (sr_schema_ir res) = Inr ()"
    and "sir_next_identity_id accepted \<le> sir_next_identity_id (sr_schema_ir res)"
    and "\<And>i. i \<in> set (schema_identities (sr_schema_ir res)) \<Longrightarrow>
      i \<in> set (schema_identities accepted) \<or> sir_next_identity_id accepted \<le> i"
proof -
  from assms show valid: "validate_schema_ir jc accepted = Inr ()"
    by (auto simp: resolve_schema_ir_def)
  from assms have res: "resolve jc (sir_schema_identity_domain accepted)
      (sir_next_identity_id accepted) (Some accepted) shape = Inr res"
    by (auto simp: resolve_schema_ir_def)
  have base: "sound_base (base_types (Some accepted)) (sir_next_identity_id accepted)"
    using sound_base_accepted [OF valid] by (simp add: base_types_def)
  show "validate_schema_ir jc (sr_schema_ir res) = Inr ()"
    "sir_next_identity_id accepted \<le> sir_next_identity_id (sr_schema_ir res)"
    using resolution_spec [OF res base] by metis+
  show "i \<in> set (schema_identities accepted) \<or> sir_next_identity_id accepted \<le> i"
    if "i \<in> set (schema_identities (sr_schema_ir res))" for i
    using resolved_identity_old_or_new [OF res base that]
    by (simp add: base_types_def schema_identities_def)
qed

lemma evolves_identities:
  assumes "evolves jc ir ir'"
  shows "sir_next_identity_id ir \<le> sir_next_identity_id ir' \<and>
    (\<forall>i \<in> set (schema_identities ir'). i \<in> set (schema_identities ir) \<or> sir_next_identity_id ir \<le> i)"
  using assms
proof (induction rule: evolves.induct)
  case (evolves_step ir ir1 shape res)
  with resolve_schema_ir_step(3,4) [OF evolves_step.hyps(2)] show ?case
    by (meson order_trans)
qed simp

text \<open>
  C30: an identity that was dropped never comes back: when one resolution retires a type,
  property or table identity, no schema the graph reaches afterwards carries it, whatever
  shapes are applied.
\<close>

theorem retired_identity_never_returns:
  assumes step: "resolve_schema_ir jc ir shape = Inr res"
    and later: "evolves jc (sr_schema_ir res) ir'"
    and old: "i \<in> set (schema_identities ir)" and retired: "i \<notin> set (schema_identities (sr_schema_ir res))"
  shows "i \<notin> set (schema_identities ir')"
proof
  assume "i \<in> set (schema_identities ir')"
  with evolves_identities [OF later] retired
  have "sir_next_identity_id (sr_schema_ir res) \<le> i" by blast
  moreover have "i < sir_next_identity_id ir"
    using validate_schema_ir_parts(4) [OF resolve_schema_ir_step(1) [OF step] old] .
  ultimately show False using resolve_schema_ir_step(3) [OF step] by auto
qed

section \<open>The accepted schema means the desired shape\<close>

definition erase_property_hint :: "property_shape \<Rightarrow> property_shape" where
  "erase_property_hint p = p\<lparr>ps_rename_from := None\<rparr>"

text \<open>A shape without its migration hints, which are not part of its meaning.\<close>

definition erase_hints :: "schema_shape \<Rightarrow> schema_shape" where
  "erase_hints shape =
     \<lparr>ss_interfaces =
        map (\<lambda>i. i\<lparr>is_properties := map erase_property_hint (is_properties i)\<rparr>) (ss_interfaces shape),
      ss_nodes =
        map (\<lambda>n. n\<lparr>ns_rename_from := None,
                   ns_properties := map erase_property_hint (ns_properties n)\<rparr>) (ss_nodes shape),
      ss_edges =
        map (\<lambda>e. e\<lparr>es_rename_from := None,
                   es_properties := map erase_property_hint (es_properties e)\<rparr>) (ss_edges shape)\<rparr>"

lemma property_ref_names:
  "property_ref oid n p pa = Inr r \<Longrightarrow> pr_owner_type_name r = n \<and> pr_property_name r = p"
  by (auto simp: property_ref_def)

lemma satisfaction_ref_names:
  "satisfaction_ref A pa s = Inr r \<Longrightarrow>
     \<lparr>spr_owner_name = pr_owner_type_name r, spr_property_name = pr_property_name r\<rparr> = s"
  by (auto simp: satisfaction_ref_def dest!: property_ref_names)

lemma sort_key_sorted_perm:
  assumes "mset xs = mset ys" and "strictly_sorted (map f ys)"
  shows "remdups_adj (sort_key f xs) = ys"
proof -
  have dist: "distinct (map f ys)" using assms(2) by simp
  have "sort_key f ys = sort_key f xs" using assms(1) dist by (intro sort_key_perm_eq) simp_all
  moreover have "sort_key f ys = ys" using assms(2) by (intro sort_key_id) (simp add: strict_sorted_iff)
  ultimately have "sort_key f xs = ys" by simp
  moreover have "distinct ys" using dist by (simp add: distinct_map)
  ultimately show ?thesis by (simp add: distinct_adj_conv_length_remdups_adj remdups_adj_distinct)
qed

lemma property_round_trip:
  assumes "build_property oid n A pa p = Inr q"
    and "strictly_sorted (map shape_ref_key (ps_satisfies_interface_properties p))"
  shows "property_shape_from_ir q = erase_property_hint p"
proof -
  let ?names = "map (\<lambda>r. \<lparr>spr_owner_name = pr_owner_type_name r, spr_property_name = pr_property_name r\<rparr>)"
  from assms(1) obtain i em rs where
    em: "(case ps_embed_source p of
        None \<Rightarrow> Inr None
      | Some em \<Rightarrow> r_bind (property_ref oid n (ess_property_name em) pa) (\<lambda>src.
          Inr (Some \<lparr>es_source = src, es_model = ess_model em\<rparr>))) = (Inr em :: _ identity_result)" and
    rs: "r_map (satisfaction_ref A pa) (ps_satisfies_interface_properties p) = Inr rs" and
    q: "q = \<lparr>pi_name = ps_name p, pi_property_id = i, pi_prop_type = ps_prop_type p,
      pi_annotations = ps_annotations p, pi_property_constraints = ps_property_constraints p,
      pi_embed_source = em, pi_declared_directly = ps_declared_directly p,
      pi_satisfies_interface_properties = sort_key property_ref_key rs\<rparr>"
    unfolding build_property_def by auto
  have embed: "map_option (\<lambda>em. \<lparr>ess_property_name = pr_property_name (es_source em),
      ess_model = es_model em\<rparr>) em = ps_embed_source p"
    using em by (cases "ps_embed_source p") (auto dest!: property_ref_names)
  have "?names rs = map (\<lambda>s. s) (ps_satisfies_interface_properties p)"
    using rs by (rule r_map_map_eq) (rule satisfaction_ref_names)
  then have "mset (?names rs) = mset (ps_satisfies_interface_properties p)" by simp
  then have "mset (?names (sort_key property_ref_key rs)) = mset (ps_satisfies_interface_properties p)"
    by (simp only: mset_map mset_sort)
  from sort_key_sorted_perm [OF this assms(2)] show ?thesis
    by (cases p) (simp add: property_shape_from_ir_def erase_property_hint_def q embed)
qed

lemma properties_round_trip:
  assumes "build_properties oid n ps A pa = Inr qs"
    and "list_all (\<lambda>p. strictly_sorted (map shape_ref_key (ps_satisfies_interface_properties p))) ps"
  shows "map property_shape_from_ir qs = map erase_property_hint ps"
  using assms(1) unfolding build_properties_def
  by (rule r_map_map_eq) (use assms(2) in \<open>auto simp: list_all_iff intro: property_round_trip\<close>)

lemma field_ref_name: "field_ref kind oid n inc pa name = Inr f \<Longrightarrow> field_name f = name"
  by (auto simp: field_ref_def system_role_def split: if_splits option.splits dest!: property_ref_names)

lemma fields_names: "r_map (field_ref kind oid n inc pa) names = Inr fs \<Longrightarrow> map field_name fs = names"
  using r_map_map_eq [of "field_ref kind oid n inc pa" names fs field_name "\<lambda>x. x"] field_ref_name
  by auto

lemma constraint_round_trip:
  "build_constraint (field_ref kind oid n inc pa) c = Inr c' \<Longrightarrow> constraint_from_ir c' = c"
  by (cases c) (auto dest: field_ref_name fields_names)

lemma constraints_round_trip:
  "build_constraints kind oid n inc cs pa = Inr cs' \<Longrightarrow> map constraint_from_ir cs' = cs"
  unfolding build_constraints_def
  using r_map_map_eq [of "build_constraint (field_ref kind oid n inc pa)" cs cs' constraint_from_ir
      "\<lambda>x. x"] constraint_round_trip by auto

lemma implements_round_trip:
  assumes "r_map (\<lambda>i. type_ref KInterface i A) names = Inr refs" and "strictly_sorted names"
  shows "sort_dedup (map tr_type_name (sort_key type_ref_key refs)) = names"
proof -
  have "map tr_type_name refs = map (\<lambda>x. x) names"
    using assms(1) by (rule r_map_map_eq) (auto simp: type_ref_def)
  then have "set (map tr_type_name (sort_key type_ref_key refs)) = set names"
    by (metis map_ident set_map set_sort)
  then have "sort_dedup (map tr_type_name (sort_key type_ref_key refs)) = sort_dedup names"
    by (rule sort_dedup_cong)
  with assms(2) show ?thesis by (simp add: sort_dedup_id)
qed

lemma canonical_satisfactions:
  "list_all (canonical_property jc) ps \<Longrightarrow>
     list_all (\<lambda>p. strictly_sorted (map shape_ref_key (ps_satisfies_interface_properties p))) ps"
  by (auto simp: list_all_iff canonical_property_def)

lemma plain_satisfactions:
  "list_all (\<lambda>p. canonical_property jc p \<and> plain_property p) ps \<Longrightarrow>
     list_all (\<lambda>p. strictly_sorted (map shape_ref_key (ps_satisfies_interface_properties p))) ps"
  by (auto simp: list_all_iff canonical_property_def)

lemma list_all2_map_eq:
  assumes "list_all2 P xs ys" and "\<And>x y. x \<in> set xs \<Longrightarrow> P x y \<Longrightarrow> g y = h x"
  shows "map g ys = map h xs"
  using assms by (induction rule: list_all2_induct) auto

definition interface_view :: "interface_ir \<Rightarrow> interface_shape" where
  "interface_view i =
     \<lparr>is_name = ii_name i, is_properties = map property_shape_from_ir (ii_properties i)\<rparr>"

definition node_view :: "node_ir \<Rightarrow> node_shape" where
  "node_view n =
     \<lparr>ns_name = ni_name n, ns_rename_from = None, ns_annotations = ni_annotations n,
      ns_implements = sort_dedup (map tr_type_name (ni_implements n)),
      ns_properties = map property_shape_from_ir (ni_properties n),
      ns_constraints = map constraint_from_ir (ni_constraints n)\<rparr>"

definition edge_view :: "edge_ir \<Rightarrow> edge_shape" where
  "edge_view e =
     \<lparr>es_name = ei_name e, es_rename_from = None,
      es_from_type = tr_type_name (ei_from_type e), es_to_type = tr_type_name (ei_to_type e),
      es_cardinality = ei_cardinality e, es_annotations = ei_annotations e,
      es_properties = map property_shape_from_ir (ei_properties e),
      es_constraints = map constraint_from_ir (ei_constraints e)\<rparr>"

lemma schema_shape_from_ir_views:
  "schema_shape_from_ir jc ir = r_bind (validate_schema_ir jc ir) (\<lambda>_. Inr
     \<lparr>ss_interfaces = map interface_view (sir_interfaces ir), ss_nodes = map node_view (sir_nodes ir),
      ss_edges = map edge_view (sir_edges ir)\<rparr>)"
  unfolding schema_shape_from_ir_def interface_view_def [abs_def] node_view_def [abs_def]
    edge_view_def [abs_def] ..

lemma interface_round_trip:
  assumes "build_interface A pa i = Inr y" and "canonical_interface jc i"
  shows "interface_view y = i\<lparr>is_properties := map erase_property_hint (is_properties i)\<rparr>"
proof -
  from assms(1) obtain a :: assigned_type and ps where
    "build_properties (at_type_id a) (is_name i) (is_properties i) A pa = Inr ps" and
    y: "y = \<lparr>ii_name = is_name i, ii_type_id = at_type_id a, ii_properties = ps\<rparr>"
    by (auto simp: build_interface_def)
  from properties_round_trip [OF this(1) plain_satisfactions] assms(2)
  have "map property_shape_from_ir ps = map erase_property_hint (is_properties i)"
    by (auto simp: canonical_interface_def)
  then show ?thesis by (cases i) (simp add: interface_view_def y)
qed

lemma node_round_trip:
  assumes "build_node A pa n = Inr y" and "canonical_node jc n"
  shows "node_view y = n\<lparr>ns_rename_from := None,
    ns_properties := map erase_property_hint (ns_properties n)\<rparr>"
proof -
  from assms(1) obtain a :: assigned_type and inc impls ps cs where
    impls: "r_map (\<lambda>i. type_ref KInterface i A) (ns_implements n) = Inr impls" and
    ps: "build_properties (at_type_id a) (ns_name n) (ns_properties n) A pa = Inr ps" and
    cs: "build_constraints KNode (at_type_id a) (ns_name n) inc (ns_constraints n) pa = Inr cs" and
    y: "y = \<lparr>ni_name = ns_name n, ni_type_id = at_type_id a, ni_table_incarnation_id = inc,
            ni_annotations = ns_annotations n, ni_implements = sort_key type_ref_key impls,
            ni_properties = ps, ni_constraints = cs\<rparr>"
    by (auto simp: build_node_def)
  have "map property_shape_from_ir ps = map erase_property_hint (ns_properties n)"
    using ps assms(2)
    by (intro properties_round_trip canonical_satisfactions) (auto simp: canonical_node_def)
  moreover have "sort_dedup (map tr_type_name (sort_key type_ref_key impls)) = ns_implements n"
    using impls assms(2) by (intro implements_round_trip) (auto simp: canonical_node_def)
  ultimately show ?thesis
    by (cases n) (simp add: node_view_def y constraints_round_trip [OF cs])
qed

lemma edge_round_trip:
  assumes "build_edge A pa e = Inr y" and "canonical_edge jc e"
  shows "edge_view y = e\<lparr>es_rename_from := None,
    es_properties := map erase_property_hint (es_properties e)\<rparr>"
proof -
  from assms(1) obtain a :: assigned_type and inc from' to' ps cs where
    refs: "type_ref KNode (es_from_type e) A = Inr from'" "type_ref KNode (es_to_type e) A = Inr to'" and
    ps: "build_properties (at_type_id a) (es_name e) (es_properties e) A pa = Inr ps" and
    cs: "build_constraints KEdge (at_type_id a) (es_name e) inc (es_constraints e) pa = Inr cs" and
    y: "y = \<lparr>ei_name = es_name e, ei_type_id = at_type_id a, ei_table_incarnation_id = inc,
            ei_from_type = from', ei_to_type = to', ei_cardinality = es_cardinality e,
            ei_annotations = es_annotations e, ei_properties = ps, ei_constraints = cs\<rparr>"
    by (auto simp: build_edge_def)
  have "map property_shape_from_ir ps = map erase_property_hint (es_properties e)"
    using ps assms(2)
    by (intro properties_round_trip plain_satisfactions) (auto simp: canonical_edge_def)
  moreover have "tr_type_name from' = es_from_type e" "tr_type_name to' = es_to_type e"
    using refs by (auto simp: type_ref_def)
  ultimately show ?thesis
    by (cases e) (simp add: edge_view_def y constraints_round_trip [OF cs])
qed

lemma build_schema_round_trip:
  assumes build: "build_schema d nx A pa shape = Inr ir" and valid: "validate_schema_ir jc ir = Inr ()"
    and canonical: "canonical_shape jc shape"
  shows "schema_shape_from_ir jc ir = Inr (erase_hints shape)"
proof -
  note parts = build [unfolded build_schema_Inr]
  have "map interface_view (sir_interfaces ir) =
      map (\<lambda>i. i\<lparr>is_properties := map erase_property_hint (is_properties i)\<rparr>) (ss_interfaces shape)"
    using parts canonical
    by (intro list_all2_map_eq [where P = "\<lambda>x y. build_interface A pa x = Inr y"])
      (auto simp: canonical_shape_def list_all_iff intro: interface_round_trip)
  moreover have "map node_view (sir_nodes ir) =
      map (\<lambda>n. n\<lparr>ns_rename_from := None,
                 ns_properties := map erase_property_hint (ns_properties n)\<rparr>) (ss_nodes shape)"
    using parts canonical
    by (intro list_all2_map_eq [where P = "\<lambda>x y. build_node A pa x = Inr y"])
      (auto simp: canonical_shape_def list_all_iff intro: node_round_trip)
  moreover have "map edge_view (sir_edges ir) =
      map (\<lambda>e. e\<lparr>es_rename_from := None,
                 es_properties := map erase_property_hint (es_properties e)\<rparr>) (ss_edges shape)"
    using parts canonical
    by (intro list_all2_map_eq [where P = "\<lambda>x y. build_edge A pa x = Inr y"])
      (auto simp: canonical_shape_def list_all_iff intro: edge_round_trip)
  ultimately show ?thesis
    using valid by (simp add: schema_shape_from_ir_views erase_hints_def)
qed

text \<open>
  C32: the accepted schema that results from a schema file means what the file says: projecting
  the result of a resolution (or of an initialisation) back to a shape gives the compiled shape
  without its rename hints.
\<close>

theorem resolved_schema_means_shape:
  assumes shape: "compile_schema_shape jc schema = Inr shape"
    and res: "resolve_schema_ir jc accepted shape = Inr res \<or>
      initialize_schema_ir jc domain shape = Inr res"
  shows "schema_shape_from_ir jc (sr_schema_ir res) = Inr (erase_hints shape)"
proof -
  obtain d nx acc where "resolve jc d nx acc shape = Inr res"
    using res by (auto simp: resolve_schema_ir_def initialize_schema_ir_def)
  then obtain A pa al where "build_schema d al A pa shape = Inr (sr_schema_ir res)"
    and "validate_schema_ir jc (sr_schema_ir res) = Inr ()"
    by (rule resolve_Inr)
  moreover have "canonical_shape jc shape" using compile_shape_canonical [OF shape] .
  ultimately show ?thesis by (rule build_schema_round_trip)
qed

end
