(* ===== verification/Schema_Stability.thy ===== *)
theory Schema_Stability
  imports Schema_Resolution_Properties
begin

text \<open>
  Resolving the same shape against its own result: every declaration is an exact match, nothing
  is drawn from the sequence and the accepted schema is reproduced unchanged. The resolution
  also never panics.
\<close>

section \<open>Passes in which everything matches\<close>

lemma assign_types_total:
  assumes "\<And>k n h. (k, n, h) \<in> set entries \<Longrightarrow>
      \<exists>ds. match_type es evolving k n h = Inr (Some (src (k, n)), ds)"
    and "distinct (map (\<lambda>x. ac_type_id (src (entry_key x))) entries)"
    and "set (tp_consumed s) \<inter> (\<lambda>x. ac_type_id (src (entry_key x))) ` set entries = {}"
  shows "\<exists>t. r_fold (assign_type es evolving) entries s = Inr t"
  using assms
proof (induction entries arbitrary: s)
  case (Cons x entries)
  obtain k n h where x: "x = (k, n, h)" by (cases x) auto
  from Cons.prems(1) [of k n h] obtain ds where
    m: "match_type es evolving k n h = Inr (Some (src (k, n)), ds)" by (auto simp: x)
  have "ac_type_id (src (k, n)) \<notin> set (tp_consumed s)"
    using Cons.prems(3) by (auto simp: x entry_key_def)
  with m obtain s1 where s1: "assign_type es evolving (k, n, h) s = Inr s1"
    "tp_consumed s1 = ac_type_id (src (k, n)) # tp_consumed s"
    by (auto simp: assign_type_def Let_def)
  have "\<exists>t. r_fold (assign_type es evolving) entries s1 = Inr t"
    using Cons.prems by (intro Cons.IH) (auto simp: x s1(2) entry_key_def)
  with s1(1) show ?case by (auto simp: x)
qed simp

lemma allocate_types_id:
  "(\<And>key a. (key, a) \<in> set A \<Longrightarrow> at_matched a) \<Longrightarrow> r_thread allocate_type A al = Inr (A, al)"
proof (induction A)
  case (Cons x A)
  then have "r_thread allocate_type A al = Inr (A, al)" by auto
  moreover have "at_matched (snd x)" using Cons.prems [of "fst x" "snd x"] by simp
  then have "allocate_type x al = Inr (x, al)" by (cases x) (simp add: allocate_type_def)
  ultimately show ?case by simp
qed simp

lemma assign_flat_total:
  assumes "\<And>x. x \<in> set xs \<Longrightarrow> property_match es evolving A x (Some (src x))"
    and "distinct (map (\<lambda>x. pi_property_id (src x)) xs)"
    and "set (pp_consumed s) \<inter> (\<lambda>x. pi_property_id (src x)) ` set xs = {}"
  shows "\<exists>t. r_fold (assign_flat es evolving A) xs s = Inr t"
  using assms
proof (induction xs arbitrary: s)
  case (Cons x xs)
  obtain k n p where x: "x = (k, n, p)" by (cases x) auto
  from Cons.prems(1) [of x] obtain ds where
    m: "match_property es evolving k n (owner_of es A k n) p = Inr (Some (src x), ds)"
    by (auto simp: x property_match_def)
  have "pi_property_id (src x) \<notin> set (pp_consumed s)" using Cons.prems(3) by auto
  with m obtain s1 where s1: "assign_flat es evolving A x s = Inr s1"
    "pp_consumed s1 = pi_property_id (src x) # pp_consumed s"
    by (auto simp: assign_flat_def assign_property_def x Let_def)
  have "\<exists>t. r_fold (assign_flat es evolving A) xs s1 = Inr t"
    using Cons.prems by (intro Cons.IH) (auto simp: s1(2))
  with s1(1) show ?case by auto
qed simp

section \<open>What the building steps read\<close>

lemma build_schema_cong:
  assumes ids: "\<And>key. map_option at_type_id (bm_get A key) = map_option at_type_id (bm_get A' key)"
    and incs: "\<And>k n. k \<noteq> KInterface \<Longrightarrow>
      Option.bind (bm_get A (k, n)) at_incarnation = Option.bind (bm_get A' (k, n)) at_incarnation"
    and props: "bm_get pa = bm_get pa'"
    and build: "build_schema d nx A pa shape = Inr ir"
  shows "build_schema d nx A' pa' shape = Inr ir"
proof -
  have type: "\<exists>a'. bm_get A' (k, n) = Some a' \<and> at_type_id a' = at_type_id a \<and>
      (k \<noteq> KInterface \<longrightarrow> at_incarnation a' = at_incarnation a)"
    if "bm_get A (k, n) = Some a" for k n a
    using ids [of "(k, n)"] incs [of k n] that by (auto simp: map_option_case split: option.splits)
  have tref: "type_ref k n A' = Inr r" if "type_ref k n A = Inr r" for k n r
    using that type by (fastforce simp: type_ref_def)
  have pref: "property_ref oid n p pa' = property_ref oid n p pa" for oid n p
    by (simp add: property_ref_def props)
  have sat: "satisfaction_ref A' pa' s = Inr r" if "satisfaction_ref A pa s = Inr r" for s r
    using that type by (fastforce simp: satisfaction_ref_def pref)
  have sats: "r_map (satisfaction_ref A' pa') ss = Inr rs" if "r_map (satisfaction_ref A pa) ss = Inr rs" for ss rs
    using that sat by (auto simp: r_map_Inr_iff elim: list_all2_mono)
  have bp: "build_property oid n A' pa' p = Inr q" if "build_property oid n A pa p = Inr q" for oid n p q
    using that
    by (cases "ps_embed_source p") (auto simp: build_property_def props pref sats)
  have bps: "build_properties oid n ps A' pa' = Inr qs" if "build_properties oid n ps A pa = Inr qs" for oid n ps qs
    using that bp by (auto simp: build_properties_def r_map_Inr_iff elim: list_all2_mono)
  have "field_ref kind oid n inc pa' = field_ref kind oid n inc pa" for kind oid n inc
    by (simp add: field_ref_def pref fun_eq_iff split: option.splits)
  then have cs: "build_constraints kind oid n inc c pa' = build_constraints kind oid n inc c pa" for kind oid n inc c
    by (simp add: build_constraints_def)
  have impls: "r_map (\<lambda>i. type_ref KInterface i A') ns = Inr rs" if "r_map (\<lambda>i. type_ref KInterface i A) ns = Inr rs" for ns rs
    using that tref by (auto simp: r_map_Inr_iff elim: list_all2_mono)
  have "build_interface A' pa' x = Inr y" if "build_interface A pa x = Inr y" for x y
    using that type bps by (fastforce simp: build_interface_def)
  moreover have "build_node A' pa' x = Inr y" if "build_node A pa x = Inr y" for x y
    using that type [of KNode "ns_name x"] bps impls by (fastforce simp: build_node_def cs)
  moreover have "build_edge A' pa' x = Inr y" if "build_edge A pa x = Inr y" for x y
    using that type [of KEdge "es_name x"] bps tref by (fastforce simp: build_edge_def cs)
  ultimately show ?thesis
    using build by (auto simp: build_schema_Inr elim: list_all2_mono)
qed

section \<open>Resolving again\<close>

lemma accepted_by_key_unique:
  assumes "distinct (map (\<lambda>e. (ac_kind e, ac_name e)) es)" and "e \<in> set es"
  shows "hm_get (accepted_by_key es) (ac_kind e, ac_name e) = Some e"
  using map_of_rev_keyed [OF assms(1), of "\<lambda>e. e" "(ac_kind e, ac_name e)" e] assms(2)
  by (auto simp: accepted_by_key_get)

lemma find_named:
  assumes "distinct (map pi_name qs)" and "q \<in> set qs"
  shows "find (\<lambda>c. pi_name c = pi_name q) qs = Some q"
  using assms by (intro find_unique) (auto dest: distinct_keyed_unique)

lemma assigned_keys_matched:
  assumes "r_fold (assign_type es evolving) entries
      \<lparr>tp_diagnostics = [], tp_assignments = bm_empty, tp_consumed = []\<rparr> = Inr tp"
    and dist: "distinct (map entry_key entries)"
    and match: "\<And>k n h. (k, n, h) \<in> set entries \<Longrightarrow>
      \<exists>ds. match_type es evolving k n h = Inr (Some (src (k, n)), ds)"
  shows "bm_get (tp_assignments tp) key =
      (if key \<in> entry_key ` set entries then Some (assigned_of (Some (src key))) else None)"
    and "bm_wf (tp_assignments tp)"
proof -
  note facts = assign_types_get [OF assms(1) _ dist, simplified]
  show "bm_wf (tp_assignments tp)" using facts by simp
  show "bm_get (tp_assignments tp) key =
      (if key \<in> entry_key ` set entries then Some (assigned_of (Some (src key))) else None)"
  proof (cases "key \<in> entry_key ` set entries")
    case True
    then obtain k n h where x: "(k, n, h) \<in> set entries" "key = (k, n)"
      by (auto simp: entry_key_def)
    with facts match show ?thesis using True by fastforce
  next
    case False
    with facts show ?thesis by (cases key) auto
  qed
qed

lemma no_pending_incarnations:
  assumes "bm_wf A" and "\<And>k n a. bm_get A (k, n) = Some a \<Longrightarrow> k \<noteq> KInterface \<Longrightarrow> at_incarnation a \<noteq> None"
  shows "pending_incarnations A = []"
proof -
  have "k \<notin> snd ` set (pending_incarnations A)" for k
    using assms(2) [of "fst k" "snd k"] by (auto simp: pending_incarnations_in [OF assms(1)])
  then show ?thesis by (metis image_eqI list.set_intros(1) neq_Nil_conv)
qed

text \<open>
  The situation after a resolution: the schema was built from the shape with the assignments
  \<open>A\<close> and \<open>pa\<close>, and it passed the checks.
\<close>

definition built_from ::
    "codec \<Rightarrow> schema_shape \<Rightarrow> schema_ir \<Rightarrow> type_assignments \<Rightarrow> property_assignments \<Rightarrow> bool" where
  "built_from jc shape ir A pa \<longleftrightarrow>
     list_all2 (built_type A pa) (shape_properties shape) (accepted_types ir) \<and>
     build_schema (sir_schema_identity_domain ir) (sir_next_identity_id ir) A pa shape = Inr ir \<and>
     validate_schema_ir jc ir = Inr () \<and>
     distinct (map entry_key (shape_types shape)) \<and>
     (\<forall>key. key \<notin> entry_key ` set (shape_types shape) \<longrightarrow> bm_get A key = None) \<and>
     (\<forall>key. key \<notin> flat_key A ` set (flat_properties shape) \<longrightarrow> bm_get pa key = None) \<and>
     distinct (map (flat_key A) (flat_properties shape))"

definition named_type :: "schema_ir \<Rightarrow> type_kind \<times> string \<Rightarrow> accepted_type" where
  "named_type ir key = the (hm_get (accepted_by_key (accepted_types ir)) key)"

definition named_property :: "schema_ir \<Rightarrow> type_kind \<times> string \<times> property_shape \<Rightarrow> property_ir" where
  "named_property ir = (\<lambda>(k, n, p).
     the (find (\<lambda>c. pi_name c = ps_name p) (ac_properties (named_type ir (k, n)))))"

lemma named_type_facts:
  assumes built: "built_from jc shape ir A pa" and ps: "(k, n, ps) \<in> set (shape_properties shape)"
  shows "hm_get (accepted_by_key (accepted_types ir)) (k, n) = Some (named_type ir (k, n))"
    and "named_type ir (k, n) \<in> set (accepted_types ir)"
    and "built_type A pa (k, n, ps) (named_type ir (k, n))"
proof -
  from built have all2: "list_all2 (built_type A pa) (shape_properties shape) (accepted_types ir)"
    and valid: "validate_schema_ir jc ir = Inr ()" by (auto simp: built_from_def)
  from built_for [OF all2 ps] obtain e where e: "e \<in> set (accepted_types ir)" "built_type A pa (k, n, ps) e"
    by blast
  with accepted_by_key_unique [OF validate_schema_ir_parts(5) [OF valid] e(1)] built_type_names [OF e(2)]
  show "hm_get (accepted_by_key (accepted_types ir)) (k, n) = Some (named_type ir (k, n))"
    "named_type ir (k, n) \<in> set (accepted_types ir)"
    "built_type A pa (k, n, ps) (named_type ir (k, n))"
    by (auto simp: named_type_def)
qed

lemma named_property_facts:
  assumes built: "built_from jc shape ir A pa" and x: "(k, n, p) \<in> set (flat_properties shape)"
  shows "find (\<lambda>c. pi_name c = ps_name p) (ac_properties (named_type ir (k, n))) =
      Some (named_property ir (k, n, p))"
    and "named_property ir (k, n, p) \<in> set (ac_properties (named_type ir (k, n)))"
    and "pi_name (named_property ir (k, n, p)) = ps_name p"
    and "bm_get pa (flat_key A (k, n, p)) = Some (pi_property_id (named_property ir (k, n, p)))"
proof -
  from x obtain ps where ps: "(k, n, ps) \<in> set (shape_properties shape)" "p \<in> set ps"
    by (auto simp: flat_properties_flatten in_flatten)
  note e = named_type_facts [OF built ps(1)]
  from e(3) obtain a :: assigned_type where a: "bm_get A (k, n) = Some a"
    "list_all2 (\<lambda>p q. build_property (at_type_id a) n A pa p = Inr q) ps
      (ac_properties (named_type ir (k, n)))"
    by (auto simp: built_type_def)
  from a(2) ps(2) obtain q where q: "q \<in> set (ac_properties (named_type ir (k, n)))"
    "build_property (at_type_id a) n A pa p = Inr q"
    by (induction rule: list_all2_induct) auto
  have "distinct (map pi_name (ac_properties (named_type ir (k, n))))"
    using built validated_property_names [OF _ e(2)] by (auto simp: built_from_def)
  from find_named [OF this q(1)] build_property_Inr(1) [OF q(2)]
  have find: "find (\<lambda>c. pi_name c = ps_name p) (ac_properties (named_type ir (k, n))) = Some q"
    by simp
  then have nq: "named_property ir (k, n, p) = q" by (simp add: named_property_def)
  show "find (\<lambda>c. pi_name c = ps_name p) (ac_properties (named_type ir (k, n))) =
      Some (named_property ir (k, n, p))"
    "named_property ir (k, n, p) \<in> set (ac_properties (named_type ir (k, n)))"
    "pi_name (named_property ir (k, n, p)) = ps_name p"
    "bm_get pa (flat_key A (k, n, p)) = Some (pi_property_id (named_property ir (k, n, p)))"
    using find q build_property_Inr [OF q(2)] a(1) by (auto simp: nq flat_key_def owner_id_def)
qed

lemma named_properties_distinct:
  assumes built: "built_from jc shape ir A pa"
  shows "distinct (map (\<lambda>x. pi_property_id (named_property ir x)) (flat_properties shape))"
  unfolding distinct_map
proof
  from built have flat: "distinct (map (flat_key A) (flat_properties shape))"
    and valid: "validate_schema_ir jc ir = Inr ()"
    by (auto simp: built_from_def)
  then show "distinct (flat_properties shape)" by (simp add: distinct_map)
  show "inj_on (\<lambda>x. pi_property_id (named_property ir x)) (set (flat_properties shape))"
  proof (rule inj_onI)
    fix x y
    assume x: "x \<in> set (flat_properties shape)" and y: "y \<in> set (flat_properties shape)"
      and eq: "pi_property_id (named_property ir x) = pi_property_id (named_property ir y)"
    obtain k n p k' n' p' where xy: "x = (k, n, p)" "y = (k', n', p')" by (cases x; cases y) auto
    obtain ps ps' where ps: "(k, n, ps) \<in> set (shape_properties shape)"
        "(k', n', ps') \<in> set (shape_properties shape)"
      using x y by (auto simp: xy flat_properties_flatten in_flatten)
    note e = named_type_facts [OF built ps(1)] and e' = named_type_facts [OF built ps(2)]
    note q = named_property_facts [OF built x [unfolded xy]]
      and q' = named_property_facts [OF built y [unfolded xy]]
    from property_index_validated [OF valid, of "pi_property_id (named_property ir x)"]
    have "(named_type ir (k, n), named_property ir x) = (named_type ir (k', n'), named_property ir y)"
      using e(2) e'(2) q(2) q'(2) eq by (metis option.inject xy)
    with built_type_names [OF e(3)] built_type_names [OF e'(3)] q(3) q'(3)
    have "flat_key A x = flat_key A y" by (auto simp: xy flat_key_def)
    with flat x y show "x = y" by (blast dest: distinct_keyed_unique)
  qed
qed

lemma types_again:
  assumes built: "built_from jc shape ir A pa"
  shows "\<exists>tp. resolve_types (accepted_types ir) True shape = Inr tp \<and> bm_wf (tp_assignments tp) \<and>
    (\<forall>key. bm_get (tp_assignments tp) key =
       (if key \<in> entry_key ` set (shape_types shape)
        then Some (assigned_of (Some (named_type ir key))) else None)) \<and>
    (\<forall>al. r_thread allocate_type (tp_assignments tp) al = Inr (tp_assignments tp, al))"
proof -
  let ?es = "accepted_types ir"
  from built have valid: "validate_schema_ir jc ir = Inr ()"
    and dist: "distinct (map entry_key (shape_types shape))" by (auto simp: built_from_def)
  have match: "\<exists>ds. match_type ?es True k n h = Inr (Some (named_type ir (k, n)), ds)"
    if "(k, n, h) \<in> set (shape_types shape)" for k n h
  proof -
    from that obtain ps where "(k, n, ps) \<in> set (shape_properties shape)"
      by (auto simp: shape_types_def shape_properties_def)
    from named_type_facts(1) [OF built this] show ?thesis by (simp add: match_type_def)
  qed
  have "inj_on (\<lambda>x. ac_type_id (named_type ir (entry_key x))) (set (shape_types shape))"
  proof (rule inj_onI)
    fix x y
    assume xy: "x \<in> set (shape_types shape)" "y \<in> set (shape_types shape)"
      "ac_type_id (named_type ir (entry_key x)) = ac_type_id (named_type ir (entry_key y))"
    from xy obtain ps ps' where
      ps: "(fst x, fst (snd x), ps) \<in> set (shape_properties shape)"
        "(fst y, fst (snd y), ps') \<in> set (shape_properties shape)"
      by (fastforce simp: shape_types_def shape_properties_def)
    note e = named_type_facts [OF built ps(1)] and e' = named_type_facts [OF built ps(2)]
    have "distinct (map ac_type_id ?es)"
      using validate_schema_ir_parts(3) [OF valid]
      by (auto simp: schema_identities_def intro: distinct_type_ids)
    with e(2) e'(2) xy(3) have "named_type ir (entry_key x) = named_type ir (entry_key y)"
      by (auto simp: entry_key_def dest: distinct_keyed_unique)
    with built_type_names [OF e(3)] built_type_names [OF e'(3)]
    have "entry_key x = entry_key y" by (simp add: entry_key_def)
    with dist xy show "x = y" by (blast dest: distinct_keyed_unique)
  qed
  then have "distinct (map (\<lambda>x. ac_type_id (named_type ir (entry_key x))) (shape_types shape))"
    using dist by (simp add: distinct_map)
  then obtain tp where tp: "resolve_types ?es True shape = Inr tp"
    using assign_types_total [of "shape_types shape" ?es True "named_type ir"
        "\<lparr>tp_diagnostics = [], tp_assignments = bm_empty, tp_consumed = []\<rparr>"] match
    by (auto simp: resolve_types_def)
  have get: "bm_get (tp_assignments tp) key =
      (if key \<in> entry_key ` set (shape_types shape)
       then Some (assigned_of (Some (named_type ir key))) else None)" for key
    by (rule assigned_keys_matched(1) [OF tp [unfolded resolve_types_def] dist]) (rule match)
  have wf: "bm_wf (tp_assignments tp)"
    by (rule assigned_keys_matched(2) [OF tp [unfolded resolve_types_def] dist]) (rule match)
  have "at_matched a" if "(key, a) \<in> set (tp_assignments tp)" for key a
  proof -
    have "a = assigned_of (Some (named_type ir key))"
      using bm_in_set_get [OF wf that] get [of key] by (simp split: if_splits)
    then show ?thesis by (simp add: assigned_of_def)
  qed
  then have "r_thread allocate_type (tp_assignments tp) al = Inr (tp_assignments tp, al)" for al
    by (rule allocate_types_id)
  with tp get wf show ?thesis by blast
qed

lemma properties_again:
  assumes built: "built_from jc shape ir A pa"
    and owner: "\<And>k n ps. (k, n, ps) \<in> set (shape_properties shape) \<Longrightarrow>
      bm_get A' (k, n) = Some (assigned_of (Some (named_type ir (k, n))))"
  shows "\<exists>pp. resolve_properties (accepted_types ir) True A' shape ds = Inr pp \<and>
    pp_pending pp = [] \<and> bm_get (pp_assignments pp) = bm_get pa"
proof -
  let ?es = "accepted_types ir"
  from built have valid: "validate_schema_ir jc ir = Inr ()"
    and flat: "distinct (map (flat_key A) (flat_properties shape))"
    and none: "\<And>key. key \<notin> flat_key A ` set (flat_properties shape) \<Longrightarrow> bm_get pa key = None"
    by (auto simp: built_from_def)
  have oid: "owner_id A' k n = owner_id A k n \<and> owner_of ?es A' k n = Some (named_type ir (k, n))"
    if ps: "(k, n, ps) \<in> set (shape_properties shape)" for k n ps
  proof -
    note e = named_type_facts [OF built ps]
    have id: "owner_id A' k n = ac_type_id (named_type ir (k, n))"
      using owner [OF ps] by (simp add: owner_id_def assigned_of_def)
    have "distinct (map ac_type_id ?es)"
      using validate_schema_ir_parts(3) [OF valid]
      by (auto simp: schema_identities_def intro: distinct_type_ids)
    then have "owner_of ?es A' k n = Some (named_type ir (k, n))"
      unfolding owner_of_def id using e(2) by (intro find_unique) (auto dest: distinct_keyed_unique)
    with id built_owner_id [OF e(3)] show ?thesis by simp
  qed
  have keys: "flat_key A' x = flat_key A x" if x: "x \<in> set (flat_properties shape)" for x
  proof -
    obtain k n p where kn: "x = (k, n, p)" by (cases x) auto
    from x obtain ps where "(k, n, ps) \<in> set (shape_properties shape)"
      by (auto simp: kn flat_properties_flatten in_flatten)
    with oid show ?thesis by (simp add: kn flat_key_def)
  qed
  have match: "property_match ?es True A' x (Some (named_property ir x))"
    if x: "x \<in> set (flat_properties shape)" for x
  proof -
    obtain k n p where kn: "x = (k, n, p)" by (cases x) auto
    from x obtain ps where "(k, n, ps) \<in> set (shape_properties shape)"
      by (auto simp: kn flat_properties_flatten in_flatten)
    with oid named_property_facts(1) [OF built x [unfolded kn]] show ?thesis
      by (auto simp: kn property_match_def match_property_def)
  qed
  have flat': "distinct (map (flat_key A') (flat_properties shape))"
    using flat keys by (simp cong: map_cong)
  let ?s0 = "\<lparr>pp_diagnostics = ds, pp_assignments = bm_empty, pp_consumed = [], pp_pending = []\<rparr>"
  obtain pp where pp: "r_fold (assign_flat ?es True A') (flat_properties shape) ?s0 = Inr pp"
    using assign_flat_total [OF match named_properties_distinct [OF built], of ?s0] by auto
  note facts = assign_flat_get [OF pp _ flat', simplified]
  have "\<not> property_match ?es True A' x None" if "x \<in> set (flat_properties shape)" for x
    using match [OF that] by (blast dest: property_match_functional)
  then have "pp_pending pp = []" using facts by (simp add: filter_empty_conv)
  moreover have "bm_get (pp_assignments pp) key = bm_get pa key" for key
  proof (cases "key \<in> flat_key A ` set (flat_properties shape)")
    case True
    then obtain x where x: "x \<in> set (flat_properties shape)" "key = flat_key A x" by blast
    from facts x(1) obtain m where m: "property_match ?es True A' x m"
      "\<forall>q. m = Some q \<longrightarrow> bm_get (pp_assignments pp) (flat_key A' x) = Some (pi_property_id q)"
      by blast
    have "m = Some (named_property ir x)" using m(1) match [OF x(1)] by (rule property_match_functional)
    with m(2) keys [OF x(1)] x have "bm_get (pp_assignments pp) key = Some (pi_property_id (named_property ir x))"
      by simp
    moreover have "bm_get pa key = Some (pi_property_id (named_property ir x))"
      using named_property_facts(4) [OF built, of "fst x" "fst (snd x)" "snd (snd x)"] x by simp
    ultimately show ?thesis by simp
  next
    case False
    then have "key \<notin> flat_key A' ` set (flat_properties shape)" using keys by (auto simp: image_iff)
    with facts none [OF False] show ?thesis by (cases key) auto
  qed
  moreover have "resolve_properties ?es True A' shape ds = Inr pp"
    using pp resolve_properties_flat [of shape A' ?es True ds] owner by auto
  ultimately show ?thesis by (auto simp: fun_eq_iff)
qed

lemma resolve_again:
  assumes built: "built_from jc shape ir A pa"
  shows "\<exists>res. resolve_schema_ir jc ir shape = Inr res \<and> sr_schema_ir res = ir"
proof -
  let ?es = "accepted_types ir" and ?al = "\<lparr>al_next = sir_next_identity_id ir\<rparr>"
  from built have valid: "validate_schema_ir jc ir = Inr ()"
    and build: "build_schema (sir_schema_identity_domain ir) (sir_next_identity_id ir) A pa shape = Inr ir"
    and none: "\<And>key. key \<notin> entry_key ` set (shape_types shape) \<Longrightarrow> bm_get A key = None"
    by (auto simp: built_from_def)
  obtain tp where tp: "resolve_types ?es True shape = Inr tp" and wf: "bm_wf (tp_assignments tp)"
    and get: "\<And>key. bm_get (tp_assignments tp) key =
       (if key \<in> entry_key ` set (shape_types shape)
        then Some (assigned_of (Some (named_type ir key))) else None)"
    and thread: "\<And>al. r_thread allocate_type (tp_assignments tp) al = Inr (tp_assignments tp, al)"
    using types_again [OF built] by blast
  let ?A = "tp_assignments tp"
  have in_keys: "(k, n) \<in> entry_key ` set (shape_types shape) \<longleftrightarrow>
      (\<exists>ps. (k, n, ps) \<in> set (shape_properties shape))" for k n
  proof -
    have "entry_key ` set (shape_types shape) = entry_key ` set (shape_properties shape)"
      using arg_cong [OF shape_keys [of shape], of set] by simp
    moreover have "(k, n) \<in> entry_key ` set (shape_properties shape) \<longleftrightarrow>
        (\<exists>ps. (k, n, ps) \<in> set (shape_properties shape))"
      by (force simp: entry_key_def)
    ultimately show ?thesis by simp
  qed
  have owner: "bm_get ?A (k, n) = Some (assigned_of (Some (named_type ir (k, n))))"
    if "(k, n, ps) \<in> set (shape_properties shape)" for k n ps
    using get in_keys that by auto
  obtain pp where pp: "resolve_properties ?es True ?A shape (tp_diagnostics tp) = Inr pp"
    "pp_pending pp = []" "bm_get (pp_assignments pp) = bm_get pa"
    using properties_again [OF built, of ?A "tp_diagnostics tp"] owner by blast
  have assigned: "bm_get A (k, n) = None \<and> bm_get ?A (k, n) = None \<or>
      (\<exists>a a'. bm_get A (k, n) = Some a \<and> bm_get ?A (k, n) = Some a' \<and> at_type_id a = at_type_id a' \<and>
        (k \<noteq> KInterface \<longrightarrow> at_incarnation a = at_incarnation a' \<and> at_incarnation a' \<noteq> None))" for k n
  proof (cases "(k, n) \<in> entry_key ` set (shape_types shape)")
    case True
    then obtain ps where ps: "(k, n, ps) \<in> set (shape_properties shape)" using in_keys by blast
    from named_type_facts(3) [OF built ps] owner [OF ps] show ?thesis
      by (auto simp: built_type_def assigned_of_def)
  next
    case False
    then show ?thesis using none get by simp
  qed
  have pending: "pending_incarnations ?A = []"
    using wf assigned by (intro no_pending_incarnations) (auto, metis option.distinct(1) option.inject)
  have "build_schema (sir_schema_identity_domain ir) (sir_next_identity_id ir) ?A (pp_assignments pp) shape = Inr ir"
  proof (rule build_schema_cong [OF _ _ _ build])
    show "map_option at_type_id (bm_get A key) = map_option at_type_id (bm_get ?A key)" for key
      using assigned [of "fst key" "snd key"] by auto
    show "Option.bind (bm_get A (k, n)) at_incarnation = Option.bind (bm_get ?A (k, n)) at_incarnation"
      if "k \<noteq> KInterface" for k n
      using assigned [of k n] that by auto
    show "bm_get pa = bm_get (pp_assignments pp)" using pp(3) by simp
  qed
  with tp thread pp pending valid validate_schema_ir_parts(12) [OF valid]
  have "resolve jc (sir_schema_identity_domain ir) (sir_next_identity_id ir) (Some ir) shape =
      Inr \<lparr>sr_schema_ir = ir, sr_diagnostics = pp_diagnostics pp\<rparr>"
    by (simp add: resolve_def new_allocator_def)
  with valid show ?thesis by (simp add: resolve_schema_ir_def)
qed

text \<open>
  C31: applying the same shape again changes nothing: resolving it against the schema it was
  resolved (or initialised) to succeeds, draws no identity and gives that very schema.
\<close>

theorem resolving_again_changes_nothing:
  assumes "resolve_schema_ir jc accepted shape = Inr res \<or>
    initialize_schema_ir jc domain shape = Inr res"
  shows "\<exists>again. resolve_schema_ir jc (sr_schema_ir res) shape = Inr again \<and>
    sr_schema_ir again = sr_schema_ir res"
proof -
  have "\<exists>d nx acc. resolve jc d nx acc shape = Inr res \<and> sound_base (base_types acc) nx"
    using assms
  proof
    assume r: "resolve_schema_ir jc accepted shape = Inr res"
    then have "sound_base (base_types (Some accepted)) (sir_next_identity_id accepted)"
      using sound_base_accepted [OF resolve_schema_ir_step(1) [OF r]] by (simp add: base_types_def)
    with r show ?thesis by (auto simp: resolve_schema_ir_def)
  next
    assume "initialize_schema_ir jc domain shape = Inr res"
    then show ?thesis
      by (intro exI [of _ domain] exI [of _ 1] exI [of _ None])
        (simp add: initialize_schema_ir_def base_types_def)
  qed
  then obtain d nx acc where res: "resolve jc d nx acc shape = Inr res"
    and base: "sound_base (base_types acc) nx" by blast
  obtain A pa where "built_from jc shape (sr_schema_ir res) A pa"
  proof (rule resolution_spec [OF res base])
    fix A pa
    assume "list_all2 (built_type A pa) (shape_properties shape) (accepted_types (sr_schema_ir res))"
      and build: "build_schema d (sir_next_identity_id (sr_schema_ir res)) A pa shape = Inr (sr_schema_ir res)"
      and "validate_schema_ir jc (sr_schema_ir res) = Inr ()"
      and "distinct (map entry_key (shape_types shape))"
      and "\<And>key. key \<notin> entry_key ` set (shape_types shape) \<Longrightarrow> bm_get A key = None"
      and "\<And>key. key \<notin> flat_key A ` set (flat_properties shape) \<Longrightarrow> bm_get pa key = None"
      and "distinct (map (flat_key A) (flat_properties shape))"
    moreover have "sir_schema_identity_domain (sr_schema_ir res) = d"
      using build by (simp add: build_schema_Inr)
    ultimately have "built_from jc shape (sr_schema_ir res) A pa"
      unfolding built_from_def by blast
    then show thesis by (rule that)
  qed
  from resolve_again [OF this] show ?thesis .
qed

section \<open>No panic\<close>

lemma assign_types_keys:
  assumes "r_fold (assign_type es evolving) entries s = Inr t" and "bm_wf (tp_assignments s)"
  shows "bm_wf (tp_assignments t) \<and>
    entry_key ` set entries \<union> set (bm_keys (tp_assignments s)) \<subseteq> set (bm_keys (tp_assignments t))"
  using assms
proof (induction entries arbitrary: s)
  case (Cons x entries)
  obtain k n h where x: "x = (k, n, h)" by (cases x) auto
  from Cons.prems obtain s1 where step: "assign_type es evolving (k, n, h) s = Inr s1"
    and rest: "r_fold (assign_type es evolving) entries s1 = Inr t" by (auto simp: x)
  from assign_type_step [OF step] obtain a where
    "tp_assignments s1 = bm_insert (k, n) a (tp_assignments s)" by blast
  with Cons.IH [OF rest] Cons.prems(2) show ?case by (auto simp: x entry_key_def)
qed simp

lemma assign_flat_keys:
  assumes "r_fold (assign_flat es evolving A) xs s = Inr t" and "bm_wf (pp_assignments s)"
  shows "bm_wf (pp_assignments t) \<and>
    set (bm_keys (pp_assignments s)) \<union> set (pp_pending s) \<union> flat_key A ` set xs \<subseteq>
      set (bm_keys (pp_assignments t)) \<union> set (pp_pending t)"
  using assms
proof (induction xs arbitrary: s)
  case (Cons x xs)
  from Cons.prems obtain s1 where step: "assign_flat es evolving A x s = Inr s1"
    and rest: "r_fold (assign_flat es evolving A) xs s1 = Inr t" by auto
  have "bm_wf (pp_assignments s1) \<and>
      set (bm_keys (pp_assignments s)) \<union> set (pp_pending s) \<union> {flat_key A x} \<subseteq>
        set (bm_keys (pp_assignments s1)) \<union> set (pp_pending s1)"
    using assign_flat_step [OF step] Cons.prems(2) by (auto split: option.splits)
  with Cons.IH [OF rest] show ?case by auto
qed simp

lemma no_panic_mint [simp]: "no_panic (mint label al)"
  by (auto simp: mint_def allocate_def try_from_u64_def intro!: no_panic_intros)

lemma no_panic_assign_type [simp]: "no_panic (assign_type es evolving entry s)"
  by (auto simp: assign_type_def match_type_def try_from_u64_def Let_def intro!: no_panic_intros no_panic_first
      split: prod.splits option.splits)

lemma no_panic_assign_property [simp]:
  "no_panic (assign_property es evolving k n oid ao p s)"
  by (auto simp: assign_property_def match_property_def Let_def intro!: no_panic_intros no_panic_first
      split: prod.splits option.splits)

lemma no_panic_incarnations:
  assumes "snd ` set es \<subseteq> set (bm_keys A)"
  shows "no_panic (r_fold allocate_incarnation es (A, al))"
  using assms
proof (induction es arbitrary: A al)
  case (Cons e es)
  obtain t key where e: "e = (t, key)" by (cases e) auto
  have "bm_get A key \<noteq> None" using Cons.prems by (auto simp: e bm_keys_get)
  then have "no_panic (allocate_incarnation (t, key) (A, al))"
    by (auto simp: allocate_incarnation_def intro!: no_panic_intros no_panic_index)
  moreover have "no_panic (r_fold allocate_incarnation es st)"
    if "allocate_incarnation (t, key) (A, al) = Inr st" for st
    using that Cons.prems by (auto simp: allocate_incarnation_iff intro!: Cons.IH)
  ultimately show ?case by (auto simp: e intro!: no_panic_bind)
qed simp

lemma no_panic_build_properties:
  assumes "\<And>p. p \<in> set ps \<Longrightarrow> bm_get pa (oid, ps_name p) \<noteq> None"
  shows "no_panic (build_properties oid n ps A pa)"
  using assms
  by (auto simp: build_properties_def build_property_def property_ref_def satisfaction_ref_def
      intro!: no_panic_intros no_panic_index split: option.splits)

lemma no_panic_build_constraints: "no_panic (build_constraints kind oid n inc cs pa)"
proof -
  have field: "no_panic (field_ref kind oid n inc pa name)" for name
    by (auto simp: field_ref_def property_ref_def intro!: no_panic_intros split: option.splits)
  have "no_panic (build_constraint (field_ref kind oid n inc pa) c)" for c
    by (cases c) (auto intro!: no_panic_intros field)
  then show ?thesis by (auto simp: build_constraints_def intro!: no_panic_intros)
qed

lemma no_panic_build_schema:
  assumes "\<And>k n ps. (k, n, ps) \<in> set (shape_properties shape) \<Longrightarrow>
      \<exists>a. bm_get A (k, n) = Some a \<and> (k \<noteq> KInterface \<longrightarrow> at_incarnation a \<noteq> None) \<and>
        (\<forall>p \<in> set ps. bm_get pa (at_type_id a, ps_name p) \<noteq> None)"
  shows "no_panic (build_schema d nx A pa shape)"
proof -
  have i: "no_panic (build_interface A pa i)" if "i \<in> set (ss_interfaces shape)" for i
    using assms [of KInterface "is_name i" "is_properties i"] that
    by (auto simp: shape_properties_def build_interface_def intro!: no_panic_intros no_panic_index
        no_panic_build_properties)
  have n: "no_panic (build_node A pa n)" if "n \<in> set (ss_nodes shape)" for n
    using assms [of KNode "ns_name n" "ns_properties n"] that
    by (auto simp: shape_properties_def build_node_def type_ref_def intro!: no_panic_intros no_panic_index
        no_panic_build_properties no_panic_build_constraints)
  have e: "no_panic (build_edge A pa e)" if "e \<in> set (ss_edges shape)" for e
    using assms [of KEdge "es_name e" "es_properties e"] that
    by (auto simp: shape_properties_def build_edge_def type_ref_def intro!: no_panic_intros no_panic_index
        no_panic_build_properties no_panic_build_constraints)
  show ?thesis by (auto simp: build_schema_def intro!: no_panic_intros i n e)
qed

text \<open>Every lookup of the resolution finds what an earlier pass put there.\<close>

lemma no_panic_resolve:
  assumes jc: "annotations_serialize jc"
  shows "no_panic (resolve jc d nx accepted shape)"
proof -
  let ?es = "base_types accepted" and ?ev = "accepted \<noteq> None"
  have types: "no_panic (resolve_types ?es ?ev shape)"
    by (auto simp: resolve_types_def intro!: no_panic_intros)
  have main: "no_panic (r_bind (resolve_properties ?es ?ev A1 shape ds) (\<lambda>pp.
         r_bind (r_fold allocate_property (sort (pp_pending pp)) (pp_assignments pp, al1))
           (\<lambda>(pa, al2).
         r_bind (r_fold allocate_incarnation (pending_incarnations A1) (A1, al2))
           (\<lambda>(A2, al3).
         r_bind (build_schema d (al_next al3) A2 pa shape) (\<lambda>ir.
         r_bind (validate_schema_ir jc ir) (\<lambda>_.
           Inr \<lparr>sr_schema_ir = ir, sr_diagnostics = pp_diagnostics pp\<rparr>))))))"
    if tp: "resolve_types ?es ?ev shape = Inr tp"
      and A1: "r_thread allocate_type (tp_assignments tp) al0 = Inr (A1, al1)" for tp A1 al0 al1 ds
  proof -
    have wf0: "bm_wf (tp_assignments tp)"
      and keys0: "entry_key ` set (shape_types shape) \<subseteq> set (bm_keys (tp_assignments tp))"
      using assign_types_keys [OF tp [unfolded resolve_types_def]] by auto
    have wf: "bm_wf A1" using wf0 allocate_types_get(1) [OF A1] by (rule bm_wf_same_keys)
    have owner: "bm_get A1 (k, n) \<noteq> None" if "(k, n, ps) \<in> set (shape_properties shape)" for k n ps
    proof -
      from entry_has_owner [OF that] have "(k, n) \<in> entry_key ` set (shape_types shape)"
        by (force simp: entry_key_def)
      with keys0 have "bm_get (tp_assignments tp) (k, n) \<noteq> None" by (auto simp: bm_keys_get)
      then show ?thesis using allocate_types_get(2) [OF A1, of "(k, n)"] by simp
    qed
    have flat: "resolve_properties ?es ?ev A1 shape ds =
        r_fold (assign_flat ?es ?ev A1) (flat_properties shape)
          \<lparr>pp_diagnostics = ds, pp_assignments = bm_empty, pp_consumed = [], pp_pending = []\<rparr>"
      by (rule resolve_properties_flat) (rule owner)
    show ?thesis
    proof (rule no_panic_bind, goal_cases)
      case 1
      show ?case unfolding flat assign_flat_def by (auto intro!: no_panic_intros split: prod.splits)
    next
      case (2 pp)
      then have pp: "r_fold (assign_flat ?es ?ev A1) (flat_properties shape)
        \<lparr>pp_diagnostics = ds, pp_assignments = bm_empty, pp_consumed = [], pp_pending = []\<rparr> = Inr pp"
        using flat by simp
      note keys = assign_flat_keys [OF pp, simplified]
      show ?case
      proof (rule no_panic_bind, goal_cases)
        case 1
        show ?case by (auto simp: allocate_property_def intro!: no_panic_intros)
      next
        case (2 st)
        obtain pa al2 where st: "st = (pa, al2)" by (cases st) auto
        have alloc: "(\<forall>k \<in> set (pp_pending pp). bm_get pa k \<noteq> None) \<and>
            (\<forall>k. k \<notin> set (pp_pending pp) \<longrightarrow> bm_get pa k = bm_get (pp_assignments pp) k)"
          using allocate_properties_get [OF 2 [unfolded st]] keys by auto
        have pa: "bm_get pa (flat_key A1 x) \<noteq> None" if "x \<in> set (flat_properties shape)" for x
        proof (cases "flat_key A1 x \<in> set (pp_pending pp)")
          case False
          with keys that have "flat_key A1 x \<in> set (bm_keys (pp_assignments pp))" by blast
          moreover have "bm_get pa (flat_key A1 x) = bm_get (pp_assignments pp) (flat_key A1 x)"
            using alloc False by blast
          ultimately show ?thesis by (simp add: bm_keys_get)
        qed (use alloc in blast)
        show ?case
          unfolding st prod.case
        proof (rule no_panic_bind, goal_cases)
          case 1
          show ?case
          proof (intro no_panic_incarnations subsetI)
            fix key
            assume "key \<in> snd ` set (pending_incarnations A1)"
            then show "key \<in> set (bm_keys A1)"
              unfolding pending_incarnations_in [OF wf] bm_keys_get by auto
          qed
        next
          case (2 st')
          obtain A2 al3 where st': "st' = (A2, al3)" by (cases st') auto
          note A2 = 2 [unfolded st']
          show ?case
            unfolding st' prod.case
          proof (intro no_panic_bind no_panic_validate [OF jc] no_panic_simps no_panic_build_schema)
            fix k n ps
            assume ps: "(k, n, ps) \<in> set (shape_properties shape)"
            from owner [OF ps] obtain a where a: "bm_get A1 (k, n) = Some a" by blast
            from incarnations_resolved [OF A2 wf order_refl a] obtain a' where
              a': "bm_get A2 (k, n) = Some a'" "at_type_id a' = at_type_id a"
                "k \<noteq> KInterface \<longrightarrow> at_incarnation a' \<noteq> None"
              by (auto split: if_splits)
            have "bm_get pa (at_type_id a', ps_name p) \<noteq> None" if "p \<in> set ps" for p
              using pa [of "(k, n, p)"] ps that a a'(2)
              by (auto simp: flat_properties_flatten in_flatten flat_key_def owner_id_def)
            with a' show "\<exists>a. bm_get A2 (k, n) = Some a \<and>
                (k \<noteq> KInterface \<longrightarrow> at_incarnation a \<noteq> None) \<and>
                (\<forall>p \<in> set ps. bm_get pa (at_type_id a, ps_name p) \<noteq> None)"
              by blast
          qed
        qed
      qed
    qed
  qed
  show ?thesis
    unfolding resolve_def Let_def base_types_def [symmetric]
  proof (intro no_panic_bind types, goal_cases)
    case (1 tp)
    show ?case by (auto simp: new_allocator_def)
  next
    case (2 tp al0)
    show ?case by (auto simp: allocate_type_def intro!: no_panic_intros split: prod.splits)
  next
    case (3 tp al0 st)
    then show ?case using main [of tp al0 "fst st" "snd st"] by (cases st) simp
  qed
qed

text \<open>Compiling a shape serializes annotations too, wherever it sorts them.\<close>

definition no_shape_panic :: "shape_error + 'a \<Rightarrow> bool" where
  "no_shape_panic r \<longleftrightarrow> r \<noteq> Inl SerializeAnnotationPanic"

lemma no_shape_panic_intros:
  "no_shape_panic (Inr x)" "e \<noteq> SerializeAnnotationPanic \<Longrightarrow> no_shape_panic (Inl e)"
  "e \<noteq> SerializeAnnotationPanic \<Longrightarrow> no_shape_panic (guard b e)"
  "e \<noteq> SerializeAnnotationPanic \<Longrightarrow> no_shape_panic (ok_or opt e)"
  "no_shape_panic m \<Longrightarrow> (\<And>x. no_shape_panic (f x)) \<Longrightarrow> no_shape_panic (r_bind m f)"
  by (auto simp: no_shape_panic_def r_bind_Inl_iff)

lemma no_shape_panic_lists:
  "(\<And>x. no_shape_panic (g x)) \<Longrightarrow> no_shape_panic (r_each g xs)"
  "(\<And>x. no_shape_panic (h x)) \<Longrightarrow> no_shape_panic (r_map h xs)"
  "(\<And>x s. no_shape_panic (k x s)) \<Longrightarrow> no_shape_panic (r_fold k xs s)"
  by (induction xs arbitrary: s) (auto intro!: no_shape_panic_intros)

lemma no_shape_panic_annotations:
  "annotations_serialize jc \<Longrightarrow> no_shape_panic (canonical_annotations jc anns)"
  by (auto simp: canonical_annotations_def no_shape_panic_def annotations_serialize_def Let_def list_all_iff
      r_bind_Inl_iff)

lemma no_shape_panic_compile:
  assumes jc: "annotations_serialize jc"
  shows "no_shape_panic (compile_schema_shape jc schema)"
proof -
  note intros = no_shape_panic_intros no_shape_panic_lists no_shape_panic_annotations [OF jc]
  have hint: "no_shape_panic (rename_hint anns t)" for anns t
    by (auto simp: rename_hint_def no_shape_panic_def split: sum.splits)
  have property: "no_shape_panic (property_shape_of jc p d)" for p d
    unfolding property_shape_of_def by (intro intros hint)
  have props: "no_shape_panic (canonical_properties jc owner ps pv)" for owner ps pv
    unfolding canonical_properties_def Let_def by (auto intro!: intros property split: prod.splits)
  have eff: "no_shape_panic (effective_property jc I node p)" for I node p
    unfolding effective_property_def canonical_interface_property_def contributed_property_def
      property_semantic_key_def Let_def
    by (auto intro!: intros property split: list.splits)
  have "no_shape_panic (shape_declaration jc I d s)" for I d s
    unfolding shape_declaration_def node_shape_of_def edge_shape_of_def interface_shape_of_def Let_def
    by (auto intro!: intros hint props eff split: schema_decl.splits)
  moreover have "no_shape_panic (validate_shape s)" for s
    unfolding validate_shape_def validate_edges_def validate_node_def validate_node_property_def Let_def
    by (auto intro!: intros split: option.splits)
  ultimately show ?thesis
    unfolding compile_schema_shape_def Let_def by (auto intro!: intros)
qed

text \<open>
  C33: the identity layer never panics, if serializing an annotation to JSON never fails: compiling a
  shape, validating a schema, projecting it to a shape, initialising a graph and resolving an
  evolution end in a result or in an error value, for every input. Every map lookup by key, every
  access to a first element and every expectation in that code is justified.
\<close>

theorem identity_layer_never_panics:
  assumes "annotations_serialize jc"
  shows "compile_schema_shape jc schema \<noteq> Inl SerializeAnnotationPanic \<and>
   validate_schema_ir jc ir \<noteq> Inl (IdentityPanic p) \<and>
   schema_shape_from_ir jc ir \<noteq> Inl (IdentityPanic p) \<and>
   initialize_schema_ir jc domain shape \<noteq> Inl (IdentityPanic p) \<and>
   resolve_schema_ir jc ir shape \<noteq> Inl (IdentityPanic p)"
proof -
  have "no_panic (schema_shape_from_ir jc ir)" "no_panic (resolve_schema_ir jc ir shape)"
    "no_panic (initialize_schema_ir jc domain shape)"
    by (auto simp: schema_shape_from_ir_def resolve_schema_ir_def initialize_schema_ir_def
        intro!: no_panic_intros no_panic_validate [OF assms] no_panic_resolve [OF assms])
  with no_panic_validate [OF assms, of ir] no_shape_panic_compile [OF assms, of schema] show ?thesis
    by (auto simp: no_panic_def no_shape_panic_def)
qed

end
