(* ===== verification/Sample_Identity.thy ===== *)
theory Sample_Identity
  imports Sample Schema_Stability
begin

text \<open>
  A small life of a schema for the closed instances: persons that implement an interface and
  know each other, and companies; then persons are renamed to humans, their age to years, and
  companies are dropped.
\<close>

definition sample_codec :: codec where
  "sample_codec =
     \<lparr>jc_annotation = (\<lambda>a. Some (ann_name a @ '':'' @ (case ann_value a of None \<Rightarrow> [] | Some v \<Rightarrow> v))),
      jc_property = (\<lambda>p. Some (ps_name p)),
      jc_f64 = (\<lambda>f. show_nat (unat f)),
      jc_ulid = (\<lambda>s. Some s)\<rparr>"

definition hinted_prop :: "string \<Rightarrow> prop_type \<Rightarrow> string \<Rightarrow> prop_decl" where
  "hinted_prop n ty old =
     \<lparr>pd_name = n, pd_type = ty,
      pd_annotations = [\<lparr>ann_name = ''rename_from'', ann_value = Some old, ann_kwargs = []\<rparr>]\<rparr>"

definition named_node :: "string \<Rightarrow> annotation list \<Rightarrow> prop_decl \<Rightarrow> schema_decl" where
  "named_node n anns p = DNode
     \<lparr>nd_name = n, nd_annotations = anns, nd_implements = [''Named''],
      nd_properties = [plain_prop ''name'' (pt_of_scalar SString False), p],
      nd_constraints = [], nd_source_constraints = [Index [pd_name p]],
      nd_property_origins =
        [(''name'', \<lparr>npo_declared_directly = False,
            npo_interface_properties =
              [\<lparr>ipo_interface_name = ''Named'', ipo_property_name = ''name''\<rparr>]\<rparr>),
         (pd_name p, \<lparr>npo_declared_directly = True, npo_interface_properties = []\<rparr>)]\<rparr>"

definition named_interface :: schema_decl where
  "named_interface = DInterface
     \<lparr>id_name = ''Named'', id_properties = [plain_prop ''name'' (pt_of_scalar SString False)]\<rparr>"

definition first_schema :: schema_file where
  "first_schema = \<lparr>sf_declarations =
     [named_node ''Person'' [] (plain_prop ''age'' (pt_of_scalar SI32 True)),
      named_interface,
      plain_node ''Company'' [],
      plain_edge ''Knows'' ''Person'' ''Person'' []]\<rparr>"

definition second_schema :: schema_file where
  "second_schema = \<lparr>sf_declarations =
     [named_interface,
      named_node ''Human'' [\<lparr>ann_name = ''rename_from'', ann_value = Some ''Person'', ann_kwargs = []\<rparr>]
        (hinted_prop ''years'' (pt_of_scalar SI32 True) ''age''),
      plain_edge ''Knows'' ''Human'' ''Human'' [plain_prop ''since'' (pt_of_scalar SDate True)]]\<rparr>"

definition first_shape :: schema_shape where
  "first_shape = projr (compile_schema_shape sample_codec first_schema)"

definition second_shape :: schema_shape where
  "second_shape = projr (compile_schema_shape sample_codec second_schema)"

definition first_resolution :: schema_resolution where
  "first_resolution = projr (initialize_schema_ir sample_codec ''D'' first_shape)"

definition second_resolution :: schema_resolution where
  "second_resolution =
     projr (resolve_schema_ir sample_codec (sr_schema_ir first_resolution) second_shape)"

lemma compile_first: "compile_schema_shape sample_codec first_schema = Inr first_shape"
proof -
  have "is_ok (compile_schema_shape sample_codec first_schema)" by code_simp
  then show ?thesis by (simp add: first_shape_def)
qed

lemma compile_second: "compile_schema_shape sample_codec second_schema = Inr second_shape"
proof -
  have "is_ok (compile_schema_shape sample_codec second_schema)" by code_simp
  then show ?thesis by (simp add: second_shape_def)
qed

lemma initialize_first: "initialize_schema_ir sample_codec ''D'' first_shape = Inr first_resolution"
proof -
  have "is_ok (initialize_schema_ir sample_codec ''D'' first_shape)" by code_simp
  then show ?thesis by (simp add: first_resolution_def)
qed

lemma resolve_second:
  "resolve_schema_ir sample_codec (sr_schema_ir first_resolution) second_shape =
     Inr second_resolution"
proof -
  have "is_ok (resolve_schema_ir sample_codec (sr_schema_ir first_resolution) second_shape)"
    by code_simp
  then show ?thesis by (simp add: second_resolution_def)
qed

section \<open>Closed instances\<close>

theorem shape_ignores_declaration_order_witness:
  "compile_schema_shape sample_codec
     \<lparr>sf_declarations = rev (sf_declarations first_schema)\<rparr> = Inr first_shape"
  by (rule shape_ignores_declaration_order [OF compile_first]) simp

theorem compiled_shape_canonical_witness: "canonical_shape sample_codec first_shape"
  by (rule compiled_shape_canonical [OF compile_first])

lemma first_valid: "validate_schema_ir sample_codec (sr_schema_ir first_resolution) = Inr ()"
  using resolve_schema_ir_step(1) [OF resolve_second] .

theorem validated_schema_sound_witness:
  "distinct (schema_identities (sr_schema_ir first_resolution)) \<and>
   list_all (\<lambda>i. i < sir_next_identity_id (sr_schema_ir first_resolution))
     (schema_identities (sr_schema_ir first_resolution))"
  using validated_schema_sound [OF first_valid] by (simp add: list_all_iff)

theorem identities_never_reused_witness:
  "list_all (\<lambda>i. i < sir_next_identity_id (sr_schema_ir second_resolution) \<and>
     (i \<in> set (schema_identities (sr_schema_ir first_resolution)) \<or>
      sir_next_identity_id (sr_schema_ir first_resolution) \<le> i))
     (schema_identities (sr_schema_ir second_resolution))"
  using identities_never_reused [OF resolve_second] by (simp add: list_all_iff)

theorem type_identity_resolved_witness:
  "list_ex (\<lambda>e. ac_name e = ''Human'' \<and> ac_type_id e = 3 \<and> ac_incarnation e = Some 9)
     (accepted_types (sr_schema_ir second_resolution))"
proof -
  have entry: "(KNode, ''Human'', Some ''Person'') \<in> set (shape_types second_shape)" by code_simp
  have old: "(case type_source (accepted_types (sr_schema_ir first_resolution)) KNode ''Human''
      (Some ''Person'') of Some e \<Rightarrow> ac_type_id e = 3 \<and> ac_incarnation e = Some 9 | None \<Rightarrow> False)"
    by code_simp
  from type_identity_resolved [OF resolve_second entry] old show ?thesis
    by (auto simp: list_ex_iff split: option.splits)
qed

theorem property_identity_resolved_witness:
  "list_ex (\<lambda>e. ac_name e = ''Human'' \<and>
       list_ex (\<lambda>q. pi_name q = ''years'' \<and> pi_property_id q = 6) (ac_properties e))
     (accepted_types (sr_schema_ir second_resolution))"
proof -
  let ?years = "hd (filter (\<lambda>p. ps_name p = ''years'')
    (concat (map ns_properties (ss_nodes second_shape))))"
  have entry: "(KNode, ''Human'', Some ''Person'') \<in> set (shape_types second_shape)" by code_simp
  have flat: "(KNode, ''Human'', ?years) \<in> set (flat_properties second_shape)" by code_simp
  have name: "ps_name ?years = ''years''" by code_simp
  have old: "(case Option.bind (type_source (accepted_types (sr_schema_ir first_resolution)) KNode
      ''Human'' (Some ''Person'')) (\<lambda>e. property_source e ?years) of
        Some q \<Rightarrow> pi_property_id q = 6 | None \<Rightarrow> False)"
    by code_simp
  from property_identity_resolved [OF resolve_second entry flat] old name show ?thesis
    by (auto simp: list_ex_iff split: option.splits)
qed

text \<open>The table of the dropped companies had identity 8.\<close>

theorem retired_identity_never_returns_witness:
  "8 \<notin> set (schema_identities (sr_schema_ir second_resolution))"
proof -
  have "8 \<in> set (schema_identities (sr_schema_ir first_resolution))"
    and "8 \<notin> set (schema_identities (sr_schema_ir second_resolution))" by code_simp+
  then show ?thesis
    by (rule retired_identity_never_returns [OF resolve_second evolves_refl])
qed

theorem resolved_schema_means_shape_witness:
  "schema_shape_from_ir sample_codec (sr_schema_ir second_resolution) =
     Inr (erase_hints second_shape)"
  by (rule resolved_schema_means_shape [OF compile_second disjI1 [OF resolve_second]])

theorem resolving_again_changes_nothing_witness:
  "\<exists>again. resolve_schema_ir sample_codec (sr_schema_ir second_resolution) second_shape = Inr again \<and>
     sr_schema_ir again = sr_schema_ir second_resolution"
  by (rule resolving_again_changes_nothing [OF disjI1 [OF resolve_second]])

theorem identity_layer_never_panics_witness:
  "resolve_schema_ir sample_codec (sr_schema_ir first_resolution) second_shape \<noteq>
     Inl (IdentityPanic NoFirstElement)"
proof -
  have "annotations_serialize sample_codec" by (simp add: annotations_serialize_def sample_codec_def)
  then show ?thesis using identity_layer_never_panics by blast
qed

end
