(* ===== verification/Sample_Catalog.thy ===== *)
theory Sample_Catalog
  imports Catalog_IR Sample_Identity
begin

text \<open>The catalog of a concrete accepted schema.\<close>

lemma sample_has_catalog: "is_ok (build_catalog_from_ir sample_codec (sr_schema_ir first_resolution))"
  by code_simp

theorem accepted_catalog_well_formed_witness:
  "\<exists>cat. build_catalog_from_ir sample_codec (sr_schema_ir first_resolution) = Inr cat \<and> catalog_wf cat \<and>
     bound_schema_ir cat = Some (sr_schema_ir first_resolution)"
proof -
  obtain cat where "build_catalog_from_ir sample_codec (sr_schema_ir first_resolution) = Inr cat"
    using sample_has_catalog unfolding is_ok_iff by blast
  with accepted_catalog_well_formed [OF this] show ?thesis by blast
qed

end
