(* ===== verification/Catalog_Properties.thy ===== *)
theory Catalog_Properties
  imports Sample
begin

text \<open>
  What a built catalog contains: exactly the declared types, each found under its name, and the
  edge types also under every spelling of their name that differs only in case.
\<close>

section \<open>The passes insert what is declared\<close>

lemma node_pass_content:
  "r_fold add_node ds m = Inr m' \<Longrightarrow>
     hm_get m' k = Some nt \<longleftrightarrow>
       hm_get m k = Some nt \<or>
       (\<exists>n \<in> set (nodes_of ds). nd_name n = k \<and> build_node_type n = Inr nt)"
proof (induction ds arbitrary: m)
  case (Cons d ds)
  then obtain m1 where step: "add_node d m = Inr m1" and rest: "r_fold add_node ds m1 = Inr m'"
    by auto
  show ?case
  proof (cases d)
    case (DNode n)
    with step obtain t where t: "build_node_type n = Inr t" "hm_get m (nd_name n) = None"
        "m1 = hm_insert (nd_name n) t m"
      by (auto simp: hm_contains_def split: if_splits)
    have "hm_get m1 k = Some nt \<longleftrightarrow>
        hm_get m k = Some nt \<or> nd_name n = k \<and> build_node_type n = Inr nt"
      using t by auto
    then show ?thesis by (auto simp: Cons.IH [OF rest] DNode)
  qed (use Cons.IH [OF rest] step in auto)
qed simp

lemma edge_pass_content:
  "r_fold (add_edge nodes) ds s = Inr s' \<Longrightarrow>
     hm_get (fst s') k = Some et \<longleftrightarrow>
       hm_get (fst s) k = Some et \<or>
       (\<exists>e \<in> set (edges_of ds). ed_name e = k \<and> build_edge_type e = Inr et)"
proof (induction ds arbitrary: s)
  case (Cons d ds)
  then obtain s1 where step: "add_edge nodes d s = Inr s1"
    and rest: "r_fold (add_edge nodes) ds s1 = Inr s'" by (auto simp del: add_edge.simps)
  show ?case
  proof (cases d)
    case (DEdge e)
    have ins: "add_edge nodes (DEdge e) (fst s, snd s) = Inr s1" using step by (simp add: DEdge)
    have "hm_get (fst s1) k = Some et \<longleftrightarrow>
        hm_get (fst s) k = Some et \<or> ed_name e = k \<and> build_edge_type e = Inr et"
      using add_edge_inserts [OF ins] by (auto simp: hm_contains_def split: if_splits)
    then show ?thesis by (auto simp: Cons.IH [OF rest] DEdge)
  qed (use Cons.IH [OF rest] step in auto)
qed simp

lemma lookup_edge_by_name_iff:
  assumes "catalog_wf cat"
  shows "lookup_edge_by_name cat n = Some et \<longleftrightarrow>
    (\<exists>k. hm_get (cat_edge_types cat) k = Some et \<and>
         normalize_edge_name k = normalize_edge_name n)"
proof -
  have index: "hm_get (cat_edge_name_index cat) (normalize_edge_name k) = Some k"
    if "hm_get (cat_edge_types cat) k = Some t" for k t
    using assms that by (auto simp: catalog_wf_def edge_types_wf_def)
  have folded: "normalize_edge_name k = m" if "hm_get (cat_edge_name_index cat) m = Some k" for k m
    using assms that by (auto simp: catalog_wf_def edge_types_wf_def)
  show ?thesis
  proof (cases "hm_get (cat_edge_types cat) n")
    case None
    then show ?thesis
      by (auto simp: lookup_edge_by_name_def dest: index folded split: option.splits)
         (metis index option.sel)?
  next
    case (Some t)
    then show ?thesis
      using index [OF Some] by (auto simp: lookup_edge_by_name_def) (metis index option.sel)
  qed
qed

section \<open>Properties\<close>

text \<open>
  A catalog that was built is well formed: names are unique, every type is stored under its
  own name, the endpoints of every edge are node types, every property type has an Arrow form,
  and the folded index holds every edge and nothing else.
\<close>

theorem built_catalog_well_formed:
  assumes "build_catalog schema = Inr cat"
  shows "catalog_wf cat \<and> cat_identity cat = SourceUnbound"
  using build_catalog_wf [OF assms] build_catalog_Inr(3) [OF assms] by blast

theorem built_catalog_well_formed_witness: "catalog_wf sample_catalog \<and> cat_identity sample_catalog = SourceUnbound"
  by (rule built_catalog_well_formed [OF build_sample])

text \<open>
  A node type is in the catalog exactly when the schema declares it, with the content its
  declaration builds; no declaration is lost or overwritten by another.
\<close>

theorem built_node_types:
  assumes "build_catalog schema = Inr cat"
  shows "hm_get (cat_node_types cat) k = Some nt \<longleftrightarrow>
    (\<exists>n. DNode n \<in> set (sf_declarations schema) \<and> nd_name n = k \<and> build_node_type n = Inr nt)"
  using node_pass_content [OF build_catalog_Inr(1) [OF assms], of k nt]
  by (auto simp: in_nodes_of)

theorem built_node_types_witness:
  "\<not> hm_contains (cat_node_types sample_catalog) ''Knows''"
  using built_node_types [OF build_sample, of "''Knows''"]
  by (auto simp: hm_contains_iff sample_schema_def plain_node_def plain_edge_def)

text \<open>
  Looking an edge up by name ignores case and finds exactly the declared edge types.
\<close>

theorem edge_lookup_ignores_case:
  assumes "build_catalog schema = Inr cat"
  shows "lookup_edge_by_name cat n = Some et \<longleftrightarrow>
    (\<exists>e. DEdge e \<in> set (sf_declarations schema) \<and>
         normalize_edge_name (ed_name e) = normalize_edge_name n \<and> build_edge_type e = Inr et)"
  using edge_pass_content [OF build_catalog_Inr(2) [OF assms], of _ et]
  by (auto simp: lookup_edge_by_name_iff [OF build_catalog_wf [OF assms]] in_edges_of [symmetric])

theorem edge_lookup_ignores_case_witness:
  "\<exists>et. lookup_edge_by_name sample_catalog ''worksAt'' = Some et"
proof -
  let ?e = "\<lparr>ed_name = ''WorksAt'', ed_from_type = ''Person'', ed_to_type = ''Company'',
    ed_cardinality = \<lparr>card_min = 0, card_max = None\<rparr>, ed_annotations = [],
    ed_properties = [plain_prop ''title'' (pt_of_scalar SString True)], ed_constraints = []\<rparr>"
  have "DEdge ?e \<in> set (sf_declarations sample_schema)"
    by (simp add: sample_schema_def plain_edge_def)
  moreover have "normalize_edge_name (ed_name ?e) = normalize_edge_name ''worksAt''" by code_simp
  moreover obtain et where "build_edge_type ?e = Inr et"
  proof -
    have "is_ok (build_edge_type ?e)" by code_simp
    with that show ?thesis by (auto simp: is_ok_iff)
  qed
  ultimately have "lookup_edge_by_name sample_catalog ''worksAt'' = Some et"
    using edge_lookup_ignores_case [OF build_sample, of "''worksAt''" et] by blast
  then show ?thesis ..
qed

end
