(* ===== verification/Typecheck_Expr.thy ===== *)
theory Typecheck_Expr
  imports Catalog
begin

text \<open>
  Types of expressions (\<^verbatim>\<open>omnigraph-compiler/src/query/typecheck.rs\<close>): literals, property
  accesses on node and edge bindings, the search and ranking functions, aggregates, aliases
  and the Arrow field an expression is projected to. \<open>resolve_expr_type\<close> follows the source's
  match arm by arm; each arm's checks are a definition of their own. The facts proved here are
  the ones the query checker builds on: what a resolved type can be, that resolution survives
  an extension of the context, and that a Blob never leaves as a value.
\<close>

section \<open>Contexts\<close>

datatype bound_variable = VNode string | VEdge string

record resolved_traversal =
  rt_src :: string
  rt_dst :: string
  rt_edge_type :: string
  rt_direction :: direction
  rt_min_hops :: u32
  rt_max_hops :: "u32 option"
  rt_edge_binding :: "string option"

record type_context =
  tc_bindings :: "(string, bound_variable) hmap"
  tc_aliases :: "(string, resolved_type) hmap"
  tc_traversals :: "resolved_traversal list"

type_synonym param_types = "(string, prop_type) hmap"

definition empty_ctx :: type_context where
  "empty_ctx = \<lparr>tc_bindings = hm_empty, tc_aliases = hm_empty, tc_traversals = []\<rparr>"

fun require_traversal_endpoint :: "bound_variable \<Rightarrow> string \<Rightarrow> string result" where
  "require_traversal_endpoint (VNode type_name) var = Inr type_name"
| "require_traversal_endpoint (VEdge type_name) var =
     Inl (type_err (TraversalErr (T23_endpoint var)))"

definition resolved_display_name :: "resolved_type \<Rightarrow> string" where
  "resolved_display_name r =
     (case r of
        RScalar p \<Rightarrow> display_name p
      | RNode type_name \<Rightarrow> ''node `'' @ type_name @ ''`''
      | RAggregate \<Rightarrow> ''aggregate'')"

section \<open>Literals\<close>

fun literal_type :: "literal \<Rightarrow> prop_type result" where
  "literal_type LNull = Inr (pt_of_scalar SString True)"
| "literal_type (LString _) = Inr (pt_of_scalar SString False)"
| "literal_type (LInteger _) = Inr (pt_of_scalar SI64 False)"
| "literal_type (LFloat _) = Inr (pt_of_scalar SF64 False)"
| "literal_type (LBool _) = Inr (pt_of_scalar SBool False)"
| "literal_type (LDate _) = Inr (pt_of_scalar SDate False)"
| "literal_type (LDateTime _) = Inr (pt_of_scalar SDateTime False)"
| "literal_type (LList []) = Inr (list_of SString False)"
| "literal_type (LList (x # xs)) =
     r_bind (literal_type x) (\<lambda>first.
     if pt_list first then Inl (type_err (ValueErr NestedListLiteral))
     else r_bind
       (r_each (\<lambda>item. r_bind (literal_type item) (\<lambda>item_type.
          guard (\<not> pt_list item_type \<and> types_compatible first item_type)
            (type_err (ValueErr ListLiteralTypes)))) xs)
       (\<lambda>_. Inr (list_of (pt_scalar first) False)))"

text \<open>The length is cast with \<^verbatim>\<open>as u32\<close>, which keeps the low 32 bits.\<close>

definition numeric_vector_literal_dim :: "literal \<Rightarrow> u32 option" where
  "numeric_vector_literal_dim lit =
     (case lit of
        LList items \<Rightarrow>
          if items = [] then None
          else if list_all (\<lambda>v. case v of LInteger _ \<Rightarrow> True | LFloat _ \<Rightarrow> True | _ \<Rightarrow> False) items
          then Some (of_nat (length items)) else None
      | _ \<Rightarrow> None)"

definition check_enum_literal :: "literal \<Rightarrow> prop_type \<Rightarrow> string \<Rightarrow> unit result" where
  "check_enum_literal lit expected prop_name =
     (case pt_enum_values expected of
        None \<Rightarrow> Inr ()
      | Some allowed \<Rightarrow>
          (case lit of
             LString v \<Rightarrow>
               guard (v \<in> set allowed) (type_err (ValueErr (T3_enum prop_name allowed v)))
           | LList items \<Rightarrow>
               if pt_list expected
               then r_each (\<lambda>item. case item of
                      LString v \<Rightarrow>
                        guard (v \<in> set allowed)
                          (type_err (ValueErr (T3_enum prop_name allowed v)))
                    | _ \<Rightarrow> Inr ()) items
               else Inr ()
           | _ \<Rightarrow> Inr ()))"

definition check_plain_literal :: "literal \<Rightarrow> prop_type \<Rightarrow> string \<Rightarrow> unit result" where
  "check_plain_literal lit expected prop_name =
     r_bind (literal_type lit) (\<lambda>lit_type.
     r_bind (guard (types_compatible lit_type expected)
              (type_err (ValueErr (T3_literal prop_name expected lit_type)))) (\<lambda>_.
     check_enum_literal lit expected prop_name))"

definition check_literal_type :: "literal \<Rightarrow> prop_type \<Rightarrow> string \<Rightarrow> unit result" where
  "check_literal_type lit expected prop_name =
     (if lit = LNull
      then guard (pt_nullable expected) (type_err (ValueErr (T3_null prop_name)))
      else
        case (pt_list expected, pt_scalar expected, numeric_vector_literal_dim lit) of
          (False, SVector expected_dim, Some actual_dim) \<Rightarrow>
            guard (actual_dim = expected_dim)
              (type_err (ValueErr (T3_vector_dim prop_name expected_dim actual_dim)))
        | _ \<Rightarrow> check_plain_literal lit expected prop_name)"

section \<open>Expressions\<close>

definition reject_blob_read_value :: "resolved_type \<Rightarrow> expr \<Rightarrow> unit result" where
  "reject_blob_read_value resolved e =
     (case resolved of
        RScalar p \<Rightarrow>
          guard (pt_scalar p \<noteq> SBlob) (type_err (ExprErr (T24_blob_value e)))
      | _ \<Rightarrow> Inr ())"

definition reject_edge_binding_search_field ::
    "type_context \<Rightarrow> expr \<Rightarrow> string \<Rightarrow> unit result" where
  "reject_edge_binding_search_field ctx field func =
     (case field of
        PropAccess variable property \<Rightarrow>
          (case hm_get (tc_bindings ctx) variable of
             Some (VEdge _) \<Rightarrow>
               Inl (type_err (SearchErr (T23_search_field func variable property)))
           | _ \<Rightarrow> Inr ())
      | _ \<Rightarrow> Inr ())"

definition resolve_prop_access ::
    "catalog \<Rightarrow> type_context \<Rightarrow> string \<Rightarrow> string \<Rightarrow> resolved_type result" where
  "resolve_prop_access cat ctx variable property =
     r_bind (ok_or (hm_get (tc_bindings ctx) variable) (type_err (ExprErr (T6_unbound variable))))
       (\<lambda>bv.
     r_bind
       (case bv of
          VNode type_name \<Rightarrow>
            r_bind (ok_or (hm_get (cat_node_types cat) type_name)
                     (type_err (ExprErr (T6_type_not_found type_name)))) (\<lambda>node_type.
            ok_or (hm_get (nt_properties node_type) property)
              (type_err (ExprErr (T6_no_property type_name property))))
        | VEdge type_name \<Rightarrow>
            r_bind (ok_or (lookup_edge_by_name cat type_name)
                     (type_err (ExprErr (T6_edge_not_found type_name)))) (\<lambda>edge_type.
            ok_or (hm_get (et_properties edge_type) property)
              (type_err (ExprErr (T6_edge_no_property type_name property)))))
       (\<lambda>prop.
     r_bind (guard (pt_scalar prop \<noteq> SBlob)
              (type_err (ExprErr (T24_blob_property variable property)))) (\<lambda>_.
     Inr (RScalar prop))))"

text \<open>The vector dimension of the property a \<^verbatim>\<open>nearest\<close> searches.\<close>

definition nearest_target ::
    "catalog \<Rightarrow> type_context \<Rightarrow> string \<Rightarrow> string \<Rightarrow> u32 result" where
  "nearest_target cat ctx variable property =
     r_bind
       (case hm_get (tc_bindings ctx) variable of
          Some (VNode type_name) \<Rightarrow> Inr type_name
        | Some (VEdge _) \<Rightarrow> Inl (type_err (NearestErr (T23_nearest variable)))
        | None \<Rightarrow> Inl (type_err (NearestErr (T15_unbound variable)))) (\<lambda>type_name.
     r_bind (ok_or (hm_get (cat_node_types cat) type_name)
              (type_err (NearestErr (T15_type_not_found type_name)))) (\<lambda>node_type.
     r_bind (ok_or (hm_get (nt_properties node_type) property)
              (type_err (NearestErr (T15_no_property type_name property)))) (\<lambda>prop_type.
     case pt_scalar prop_type of
       SVector dim \<Rightarrow>
         if pt_list prop_type then Inl (type_err (NearestErr T15_list_vector)) else Inr dim
     | _ \<Rightarrow> Inl (type_err (NearestErr (T15_not_vector type_name property prop_type))))))"

definition check_nearest_query :: "u32 \<Rightarrow> resolved_type \<Rightarrow> unit result" where
  "check_nearest_query vector_dim query_type =
     (case query_type of
        RScalar s \<Rightarrow>
          (case (pt_scalar s, pt_list s) of
             (SVector qdim, False) \<Rightarrow>
               guard (qdim = vector_dim) (type_err (NearestErr (T15_query_dim vector_dim qdim)))
           | (SString, False) \<Rightarrow> Inr ()
           | _ \<Rightarrow> Inl (type_err (NearestErr (T15_query_type vector_dim s))))
      | _ \<Rightarrow> Inl (type_err (NearestErr T15_query_non_scalar)))"

text \<open>A \<^verbatim>\<open>nearest\<close> query that is a numeric vector literal is checked by its length alone.\<close>

definition nearest_literal_dim :: "expr \<Rightarrow> u32 option" where
  "nearest_literal_dim query =
     (case query of Literal lit \<Rightarrow> numeric_vector_literal_dim lit | _ \<Rightarrow> None)"

definition require_string :: "string \<Rightarrow> string \<Rightarrow> resolved_type \<Rightarrow> unit result" where
  "require_string func role ty =
     (case ty of
        RScalar s \<Rightarrow>
          guard (pt_scalar s = SString \<and> \<not> pt_list s)
            (type_err (SearchErr (Text_arg func role s)))
      | _ \<Rightarrow> Inl (type_err (SearchErr (Text_arg_non_scalar func role))))"

definition is_integer :: "scalar_type \<Rightarrow> bool" where
  "is_integer s = (s = SI32 \<or> s = SI64 \<or> s = SU32 \<or> s = SU64)"

definition require_max_edits :: "resolved_type \<Rightarrow> unit result" where
  "require_max_edits ty =
     (case ty of
        RScalar s \<Rightarrow>
          guard (\<not> pt_list s \<and> is_integer (pt_scalar s)) (type_err (SearchErr (T19_max_edits s)))
      | _ \<Rightarrow> Inl (type_err (SearchErr T19_max_edits_non_scalar)))"

definition is_rank_expr :: "expr \<Rightarrow> bool" where
  "is_rank_expr e = (case e of Nearest _ _ _ \<Rightarrow> True | Bm25 _ _ \<Rightarrow> True | _ \<Rightarrow> False)"

definition require_rank :: "resolved_type \<Rightarrow> unit result" where
  "require_rank ty =
     (case ty of
        RScalar s \<Rightarrow>
          guard (pt_scalar s = SF64 \<and> \<not> pt_list s) (type_err (SearchErr (T21_rank s)))
      | _ \<Rightarrow> Inl (type_err (SearchErr T21_rank_non_scalar)))"

definition require_rrf_k :: "expr \<Rightarrow> resolved_type \<Rightarrow> unit result" where
  "require_rrf_k k_expr ty =
     r_bind
       (case ty of
          RScalar s \<Rightarrow>
            guard (\<not> pt_list s \<and> is_integer (pt_scalar s)) (type_err (SearchErr (T21_k s)))
        | _ \<Rightarrow> Inl (type_err (SearchErr T21_k_non_scalar))) (\<lambda>_.
     case k_expr of
       Literal (LInteger v) \<Rightarrow> guard (0 < sint v) (type_err (SearchErr T21_k_not_positive))
     | _ \<Rightarrow> Inr ())"

definition resolve_variable ::
    "type_context \<Rightarrow> param_types \<Rightarrow> string \<Rightarrow> resolved_type result" where
  "resolve_variable ctx params name =
     (case hm_get params name of
        Some prop_type \<Rightarrow> Inr (RScalar prop_type)
      | None \<Rightarrow>
          (case hm_get (tc_bindings ctx) name of
             Some (VNode type_name) \<Rightarrow> Inr (RNode type_name)
           | Some (VEdge _) \<Rightarrow> Inl (type_err (ExprErr (T23_bare name)))
           | None \<Rightarrow> Inl (type_err (ExprErr (VariableNotBound name)))))"

text \<open>T8: the sum and the average want a number, the extrema a number or a string.\<close>

definition check_aggregate_arg :: "agg_func \<Rightarrow> resolved_type \<Rightarrow> unit result" where
  "check_aggregate_arg func arg_type =
     (case arg_type of
        RScalar s \<Rightarrow>
          if func = AggSum \<or> func = AggAvg
          then guard (\<not> pt_list s \<and> is_numeric (pt_scalar s))
                 (type_err (ExprErr (T8_numeric func s)))
          else if func = AggMin \<or> func = AggMax
          then guard (\<not> pt_list s \<and> (is_numeric (pt_scalar s) \<or> pt_scalar s = SString))
                 (type_err (ExprErr (T8_numeric_or_string func s)))
          else Inr ()
      | _ \<Rightarrow> Inr ())"

abbreviation r_scalar :: "scalar_type \<Rightarrow> resolved_type result" where
  "r_scalar s \<equiv> Inr (RScalar (pt_of_scalar s False))"

fun resolve_expr_type ::
    "catalog \<Rightarrow> expr \<Rightarrow> type_context \<Rightarrow> param_types \<Rightarrow> resolved_type result" where
  "resolve_expr_type cat Now ctx params = r_scalar SDateTime"
| "resolve_expr_type cat (PropAccess variable property) ctx params =
     resolve_prop_access cat ctx variable property"
| "resolve_expr_type cat (Nearest variable property query) ctx params =
     r_bind (nearest_target cat ctx variable property) (\<lambda>vector_dim.
     case nearest_literal_dim query of
       Some dim \<Rightarrow>
         r_bind (guard (dim = vector_dim)
                  (type_err (NearestErr (T15_literal_dim vector_dim dim)))) (\<lambda>_.
         r_scalar SF64)
     | None \<Rightarrow>
         r_bind (resolve_expr_type cat query ctx params) (\<lambda>query_type.
         r_bind (check_nearest_query vector_dim query_type) (\<lambda>_.
         r_scalar SF64)))"
| "resolve_expr_type cat (Search field query) ctx params =
     r_bind (reject_edge_binding_search_field ctx field ''search'') (\<lambda>_.
     r_bind (resolve_expr_type cat field ctx params) (\<lambda>field_type.
     r_bind (require_string ''search'' ''field'' field_type) (\<lambda>_.
     r_bind (resolve_expr_type cat query ctx params) (\<lambda>query_type.
     r_bind (require_string ''search'' ''query'' query_type) (\<lambda>_.
     r_scalar SBool)))))"
| "resolve_expr_type cat (Fuzzy field query max_edits) ctx params =
     r_bind (reject_edge_binding_search_field ctx field ''fuzzy'') (\<lambda>_.
     r_bind (resolve_expr_type cat field ctx params) (\<lambda>field_type.
     r_bind (require_string ''fuzzy'' ''field'' field_type) (\<lambda>_.
     r_bind (resolve_expr_type cat query ctx params) (\<lambda>query_type.
     r_bind (require_string ''fuzzy'' ''query'' query_type) (\<lambda>_.
     r_bind (case max_edits of
               None \<Rightarrow> Inr ()
             | Some m \<Rightarrow> r_bind (resolve_expr_type cat m ctx params) require_max_edits) (\<lambda>_.
     r_scalar SBool))))))"
| "resolve_expr_type cat (MatchText field query) ctx params =
     r_bind (reject_edge_binding_search_field ctx field ''match_text'') (\<lambda>_.
     r_bind (resolve_expr_type cat field ctx params) (\<lambda>field_type.
     r_bind (require_string ''match_text'' ''field'' field_type) (\<lambda>_.
     r_bind (resolve_expr_type cat query ctx params) (\<lambda>query_type.
     r_bind (require_string ''match_text'' ''query'' query_type) (\<lambda>_.
     r_scalar SBool)))))"
| "resolve_expr_type cat (Bm25 field query) ctx params =
     r_bind (reject_edge_binding_search_field ctx field ''bm25'') (\<lambda>_.
     r_bind (resolve_expr_type cat field ctx params) (\<lambda>field_type.
     r_bind (require_string ''bm25'' ''field'' field_type) (\<lambda>_.
     r_bind (resolve_expr_type cat query ctx params) (\<lambda>query_type.
     r_bind (require_string ''bm25'' ''query'' query_type) (\<lambda>_.
     r_scalar SF64)))))"
| "resolve_expr_type cat (Rrf primary secondary k) ctx params =
     r_bind (guard (is_rank_expr primary) (type_err (SearchErr T21_primary))) (\<lambda>_.
     r_bind (guard (is_rank_expr secondary) (type_err (SearchErr T21_secondary))) (\<lambda>_.
     r_bind (resolve_expr_type cat primary ctx params) (\<lambda>primary_ty.
     r_bind (resolve_expr_type cat secondary ctx params) (\<lambda>secondary_ty.
     r_bind (r_each require_rank [primary_ty, secondary_ty]) (\<lambda>_.
     r_bind (case k of
               None \<Rightarrow> Inr ()
             | Some k_expr \<Rightarrow>
                 r_bind (resolve_expr_type cat k_expr ctx params) (require_rrf_k k_expr)) (\<lambda>_.
     r_scalar SF64))))))"
| "resolve_expr_type cat (Variable name) ctx params = resolve_variable ctx params name"
| "resolve_expr_type cat (Literal lit) ctx params =
     r_bind (literal_type lit) (\<lambda>ty. Inr (RScalar ty))"
| "resolve_expr_type cat (Aggregate func arg) ctx params =
     r_bind (resolve_expr_type cat arg ctx params) (\<lambda>arg_type.
     r_bind (reject_blob_read_value arg_type arg) (\<lambda>_.
     r_bind (check_aggregate_arg func arg_type) (\<lambda>_.
     Inr RAggregate)))"
| "resolve_expr_type cat (AliasRef name) ctx params =
     Inr (case hm_get (tc_aliases ctx) name of Some resolved \<Rightarrow> resolved | None \<Rightarrow> RAggregate)"

fun expr_references_any :: "expr \<Rightarrow> string list \<Rightarrow> bool" where
  "expr_references_any (PropAccess variable _) vars = (variable \<in> set vars)"
| "expr_references_any (Nearest variable _ query) vars =
     (variable \<in> set vars \<or> expr_references_any query vars)"
| "expr_references_any (Search field query) vars =
     (expr_references_any field vars \<or> expr_references_any query vars)"
| "expr_references_any (Fuzzy field query max_edits) vars =
     (expr_references_any field vars \<or> expr_references_any query vars \<or>
      (case max_edits of None \<Rightarrow> False | Some m \<Rightarrow> expr_references_any m vars))"
| "expr_references_any (MatchText field query) vars =
     (expr_references_any field vars \<or> expr_references_any query vars)"
| "expr_references_any (Bm25 field query) vars =
     (expr_references_any field vars \<or> expr_references_any query vars)"
| "expr_references_any (Rrf primary secondary k) vars =
     (expr_references_any primary vars \<or> expr_references_any secondary vars \<or>
      (case k of None \<Rightarrow> False | Some e \<Rightarrow> expr_references_any e vars))"
| "expr_references_any (Variable v) vars = (v \<in> set vars)"
| "expr_references_any (Aggregate _ arg) vars = expr_references_any arg vars"
| "expr_references_any _ vars = False"

section \<open>Projections\<close>

definition projection_name :: "expr \<Rightarrow> string option \<Rightarrow> string" where
  "projection_name e als =
     (case als of
        Some a \<Rightarrow> a
      | None \<Rightarrow>
          (case e of
             Now \<Rightarrow> ''now''
           | PropAccess _ property \<Rightarrow> property
           | Variable variable \<Rightarrow> variable
           | Literal _ \<Rightarrow> ''literal''
           | Nearest _ _ _ \<Rightarrow> ''nearest''
           | Search _ _ \<Rightarrow> ''search''
           | Fuzzy _ _ _ \<Rightarrow> ''fuzzy''
           | MatchText _ _ \<Rightarrow> ''match_text''
           | Bm25 _ _ \<Rightarrow> ''bm25''
           | Rrf _ _ _ \<Rightarrow> ''rrf''
           | Aggregate func _ \<Rightarrow> agg_func_display func
           | AliasRef name \<Rightarrow> name))"

definition resolved_type_to_field_shape ::
    "catalog \<Rightarrow> resolved_type \<Rightarrow> (data_type \<times> bool) result" where
  "resolved_type_to_field_shape cat resolved =
     (case resolved of
        RScalar prop_type \<Rightarrow>
          (case to_arrow prop_type of
             None \<Rightarrow> Inl (Panic VectorDimExceedsArrow)
           | Some dt \<Rightarrow> Inr (dt, pt_nullable prop_type))
      | RNode type_name \<Rightarrow>
          r_bind (ok_or (hm_get (cat_node_types cat) type_name)
                   (type_err (ExprErr (TypeNotFound type_name)))) (\<lambda>node_type.
          Inr (Struct (nt_arrow_schema node_type), False))
      | RAggregate \<Rightarrow> Inr (Int64, True))"

definition infer_projection_field ::
    "catalog \<Rightarrow> expr \<Rightarrow> string option \<Rightarrow> type_context \<Rightarrow> param_types \<Rightarrow> arrow_field result" where
  "infer_projection_field cat e als ctx params =
     (case e of
        Aggregate func arg \<Rightarrow>
          r_bind (resolve_expr_type cat arg ctx params) (\<lambda>resolved_arg.
          r_bind (reject_blob_read_value resolved_arg arg) (\<lambda>_.
          r_bind
            (case func of
               AggCount \<Rightarrow> Inr (Int64, True)
             | AggAvg \<Rightarrow> Inr (Float64, True)
             | AggSum \<Rightarrow> Inr (Float64, True)
             | _ \<Rightarrow> r_bind (resolved_type_to_field_shape cat resolved_arg)
                      (\<lambda>(dt, _). Inr (dt, True))) (\<lambda>(dt, nullable).
          Inr (Field (projection_name e als) dt nullable))))
      | _ \<Rightarrow>
          r_bind (resolve_expr_type cat e ctx params) (\<lambda>resolved.
          r_bind (reject_blob_read_value resolved e) (\<lambda>_.
          r_bind (resolved_type_to_field_shape cat resolved) (\<lambda>(dt, nullable).
          Inr (Field (projection_name e als) dt nullable)))))"

section \<open>Ranking functions behind aliases\<close>

text \<open>
  The two walks below follow aliases through the return clause. The set of seen aliases is a
  mutable set in the source; a name is removed again on the way back, so every call sees the
  names on its own path. The measure is the number of aliases not on the path.
\<close>

function (sequential) expr_contains_standalone_nearest_inner ::
    "(string, expr) hmap \<Rightarrow> string set \<Rightarrow> expr \<Rightarrow> bool" where
  "expr_contains_standalone_nearest_inner aliases seen (Nearest _ _ _) = True"
| "expr_contains_standalone_nearest_inner aliases seen (Aggregate _ arg) =
     expr_contains_standalone_nearest_inner aliases seen arg"
| "expr_contains_standalone_nearest_inner aliases seen (Search field query) =
     (expr_contains_standalone_nearest_inner aliases seen field \<or>
      expr_contains_standalone_nearest_inner aliases seen query)"
| "expr_contains_standalone_nearest_inner aliases seen (MatchText field query) =
     (expr_contains_standalone_nearest_inner aliases seen field \<or>
      expr_contains_standalone_nearest_inner aliases seen query)"
| "expr_contains_standalone_nearest_inner aliases seen (Bm25 field query) =
     (expr_contains_standalone_nearest_inner aliases seen field \<or>
      expr_contains_standalone_nearest_inner aliases seen query)"
| "expr_contains_standalone_nearest_inner aliases seen (Fuzzy field query max_edits) =
     (expr_contains_standalone_nearest_inner aliases seen field \<or>
      expr_contains_standalone_nearest_inner aliases seen query \<or>
      (case max_edits of
         None \<Rightarrow> False
       | Some e \<Rightarrow> expr_contains_standalone_nearest_inner aliases seen e))"
| "expr_contains_standalone_nearest_inner aliases seen (AliasRef name) =
     (if name \<in> seen then False
      else case hm_get aliases name of
             None \<Rightarrow> False
           | Some e \<Rightarrow> expr_contains_standalone_nearest_inner aliases (insert name seen) e)"
| "expr_contains_standalone_nearest_inner aliases seen _ = False"
  by pat_completeness auto

lemma unseen_decreases:
  assumes "name \<notin> seen" and "hm_get aliases name = Some e"
  shows "card (set (hm_keys aliases) - insert name seen) < card (set (hm_keys aliases) - seen)"
proof -
  have "name \<in> set (hm_keys aliases) - seen" using assms by (simp add: hm_keys_get)
  then show ?thesis by (intro psubset_card_mono) auto
qed

termination expr_contains_standalone_nearest_inner
  by (relation "measures [\<lambda>(m, s, e). card (set (hm_keys m) - s), \<lambda>(m, s, e). size e]")
    (auto simp: unseen_decreases)

function (sequential) expr_contains_rrf_inner ::
    "(string, expr) hmap \<Rightarrow> string set \<Rightarrow> expr \<Rightarrow> bool" where
  "expr_contains_rrf_inner aliases seen (Rrf _ _ _) = True"
| "expr_contains_rrf_inner aliases seen (Aggregate _ arg) =
     expr_contains_rrf_inner aliases seen arg"
| "expr_contains_rrf_inner aliases seen (Search field query) =
     (expr_contains_rrf_inner aliases seen field \<or> expr_contains_rrf_inner aliases seen query)"
| "expr_contains_rrf_inner aliases seen (MatchText field query) =
     (expr_contains_rrf_inner aliases seen field \<or> expr_contains_rrf_inner aliases seen query)"
| "expr_contains_rrf_inner aliases seen (Bm25 field query) =
     (expr_contains_rrf_inner aliases seen field \<or> expr_contains_rrf_inner aliases seen query)"
| "expr_contains_rrf_inner aliases seen (Fuzzy field query max_edits) =
     (expr_contains_rrf_inner aliases seen field \<or> expr_contains_rrf_inner aliases seen query \<or>
      (case max_edits of None \<Rightarrow> False | Some e \<Rightarrow> expr_contains_rrf_inner aliases seen e))"
| "expr_contains_rrf_inner aliases seen (AliasRef name) =
     (if name \<in> seen then False
      else case hm_get aliases name of
             None \<Rightarrow> False
           | Some e \<Rightarrow> expr_contains_rrf_inner aliases (insert name seen) e)"
| "expr_contains_rrf_inner aliases seen _ = False"
  by pat_completeness auto

termination expr_contains_rrf_inner
  by (relation "measures [\<lambda>(m, s, e). card (set (hm_keys m) - s), \<lambda>(m, s, e). size e]")
    (auto simp: unseen_decreases)

definition expr_contains_standalone_nearest_with_aliases ::
    "expr \<Rightarrow> (string, expr) hmap \<Rightarrow> bool" where
  "expr_contains_standalone_nearest_with_aliases e aliases =
     expr_contains_standalone_nearest_inner aliases {} e"

definition expr_contains_rrf_with_aliases :: "expr \<Rightarrow> (string, expr) hmap \<Rightarrow> bool" where
  "expr_contains_rrf_with_aliases e aliases = expr_contains_rrf_inner aliases {} e"

text \<open>
  The specification of such a walk: \<open>mentions hit kids aliases n e\<close> says that a hit is found
  below \<open>e\<close> when aliases are unfolded to depth \<open>n\<close>, with no bookkeeping of what was seen. The
  locale's law is the one-step equation of a walk that refuses to enter an alias twice on a
  path; its result is that such a walk finds exactly what unbounded unfolding finds, cyclic
  alias definitions included.
\<close>

primrec mentions ::
    "(expr \<Rightarrow> bool) \<Rightarrow> (expr \<Rightarrow> expr list) \<Rightarrow> (string, expr) hmap \<Rightarrow> nat \<Rightarrow> expr \<Rightarrow> bool" where
  "mentions hit kids aliases 0 e = hit e"
| "mentions hit kids aliases (Suc n) e \<longleftrightarrow>
     mentions hit kids aliases n e \<or> list_ex (mentions hit kids aliases n) (kids e) \<or>
     (case e of
        AliasRef name \<Rightarrow>
          (case hm_get aliases name of
             None \<Rightarrow> False
           | Some e' \<Rightarrow> mentions hit kids aliases n e')
      | _ \<Rightarrow> False)"

lemma mentions_Suc_iff:
  "mentions hit kids aliases (Suc n) e \<longleftrightarrow>
     mentions hit kids aliases n e \<or> (\<exists>c \<in> set (kids e). mentions hit kids aliases n c) \<or>
     (\<exists>name e'. e = AliasRef name \<and> hm_get aliases name = Some e' \<and>
                mentions hit kids aliases n e')"
  by (auto simp: list_ex_iff split: expr.splits option.splits)

declare mentions.simps(2) [simp del]

locale alias_search =
  fixes hit :: "expr \<Rightarrow> bool"
    and kids :: "expr \<Rightarrow> expr list"
    and walk :: "(string, expr) hmap \<Rightarrow> string set \<Rightarrow> expr \<Rightarrow> bool"
  assumes kids_smaller: "c \<in> set (kids e) \<Longrightarrow> size c < size e"
    and walk_step: "walk aliases seen e \<longleftrightarrow>
      hit e \<or> (\<exists>c \<in> set (kids e). walk aliases seen c) \<or>
      (\<exists>name e'. e = AliasRef name \<and> name \<notin> seen \<and> hm_get aliases name = Some e' \<and>
                 walk aliases (insert name seen) e')"
begin

lemma walk_sound: "walk aliases seen e \<Longrightarrow> \<exists>n. mentions hit kids aliases n e"
proof (induction "(card (set (hm_keys aliases) - seen), size e)" arbitrary: seen e
    rule: wf_induct_rule [OF wf_lex_prod [OF wf_less_than wf_less_than]])
  case 1
  from 1(2) [unfolded walk_step [of aliases seen e]] consider "hit e"
    | c where "c \<in> set (kids e)" "walk aliases seen c"
    | name e' where "e = AliasRef name" "name \<notin> seen" "hm_get aliases name = Some e'"
        "walk aliases (insert name seen) e'"
    by blast
  then show ?case
  proof cases
    case 1
    then show ?thesis by (metis mentions.simps(1))
  next
    case (2 c)
    with 1(1) [of seen c] kids_smaller [of c e] show ?thesis
      by (metis in_lex_prod less_than_iff mentions_Suc_iff)
  next
    case (3 name e')
    with 1(1) [of "insert name seen" e'] unseen_decreases [of name seen aliases e'] show ?thesis
      by (metis in_lex_prod less_than_iff mentions_Suc_iff)
  qed
qed

lemma walk_complete:
  "mentions hit kids aliases n e \<Longrightarrow>
     \<forall>a \<in> seen. \<not> mentions hit kids aliases n (AliasRef a) \<Longrightarrow> walk aliases seen e"
proof (induction n arbitrary: e seen)
  case 0
  then show ?case by (simp add: walk_step [of aliases seen e])
next
  case (Suc n)
  have seen: "\<forall>a \<in> seen. \<not> mentions hit kids aliases n (AliasRef a)"
    using Suc.prems(2) by (auto simp: mentions_Suc_iff)
  show ?case
  proof (cases "mentions hit kids aliases n e")
    case True
    then show ?thesis by (rule Suc.IH [OF _ seen])
  next
    case False
    with Suc.prems(1) consider c where "c \<in> set (kids e)" "mentions hit kids aliases n c"
      | name e' where "e = AliasRef name" "hm_get aliases name = Some e'"
          "mentions hit kids aliases n e'"
      by (auto simp: mentions_Suc_iff)
    then show ?thesis
    proof cases
      case (1 c)
      then show ?thesis using Suc.IH [OF _ seen] walk_step [of aliases seen e] by blast
    next
      case (2 name e')
      then have "walk aliases (insert name seen) e'"
        using Suc.IH [of e' "insert name seen"] seen False by simp
      moreover have "name \<notin> seen" using Suc.prems 2 by auto
      ultimately show ?thesis using 2 walk_step [of aliases seen e] by blast
    qed
  qed
qed

lemma walk_iff_mentions: "walk aliases {} e \<longleftrightarrow> (\<exists>n. mentions hit kids aliases n e)"
  using walk_sound walk_complete by blast

end

text \<open>Where both walks look: not below \<^verbatim>\<open>nearest\<close> and not below \<^verbatim>\<open>rrf\<close>.\<close>

fun ranked_below :: "expr \<Rightarrow> expr list" where
  "ranked_below (Aggregate _ arg) = [arg]"
| "ranked_below (Search field query) = [field, query]"
| "ranked_below (MatchText field query) = [field, query]"
| "ranked_below (Bm25 field query) = [field, query]"
| "ranked_below (Fuzzy field query max_edits) =
     [field, query] @ (case max_edits of None \<Rightarrow> [] | Some e \<Rightarrow> [e])"
| "ranked_below _ = []"

definition is_nearest :: "expr \<Rightarrow> bool" where
  "is_nearest e = (case e of Nearest _ _ _ \<Rightarrow> True | _ \<Rightarrow> False)"

definition is_rrf :: "expr \<Rightarrow> bool" where
  "is_rrf e = (case e of Rrf _ _ _ \<Rightarrow> True | _ \<Rightarrow> False)"

lemma ranked_below_smaller: "c \<in> set (ranked_below e) \<Longrightarrow> size c < size e"
  by (cases e rule: ranked_below.cases) (auto split: option.splits)

interpretation nearest_walk: alias_search is_nearest ranked_below
    expr_contains_standalone_nearest_inner
proof unfold_locales
  fix aliases seen e
  show "expr_contains_standalone_nearest_inner aliases seen e \<longleftrightarrow>
    is_nearest e \<or>
    (\<exists>c \<in> set (ranked_below e). expr_contains_standalone_nearest_inner aliases seen c) \<or>
    (\<exists>name e'. e = AliasRef name \<and> name \<notin> seen \<and> hm_get aliases name = Some e' \<and>
               expr_contains_standalone_nearest_inner aliases (insert name seen) e')"
    by (cases e) (auto simp: is_nearest_def split: option.splits)
qed (rule ranked_below_smaller)

interpretation rrf_walk: alias_search is_rrf ranked_below expr_contains_rrf_inner
proof unfold_locales
  fix aliases seen e
  show "expr_contains_rrf_inner aliases seen e \<longleftrightarrow>
    is_rrf e \<or> (\<exists>c \<in> set (ranked_below e). expr_contains_rrf_inner aliases seen c) \<or>
    (\<exists>name e'. e = AliasRef name \<and> name \<notin> seen \<and> hm_get aliases name = Some e' \<and>
               expr_contains_rrf_inner aliases (insert name seen) e')"
    by (cases e) (auto simp: is_rrf_def split: option.splits)
qed (rule ranked_below_smaller)

section \<open>Well-formed contexts\<close>

definition binding_wf :: "catalog \<Rightarrow> bound_variable \<Rightarrow> bool" where
  "binding_wf cat bv =
     (case bv of
        VNode t \<Rightarrow> hm_contains (cat_node_types cat) t
      | VEdge t \<Rightarrow> hm_contains (cat_edge_types cat) t)"

definition resolved_wf :: "catalog \<Rightarrow> resolved_type \<Rightarrow> bool" where
  "resolved_wf cat r =
     (case r of
        RScalar p \<Rightarrow> to_arrow p \<noteq> None
      | RNode t \<Rightarrow> hm_contains (cat_node_types cat) t
      | RAggregate \<Rightarrow> True)"

definition blob_free :: "resolved_type \<Rightarrow> bool" where
  "blob_free r = (case r of RScalar p \<Rightarrow> pt_scalar p \<noteq> SBlob | _ \<Rightarrow> True)"

definition bindings_wf :: "catalog \<Rightarrow> type_context \<Rightarrow> bool" where
  "bindings_wf cat ctx \<longleftrightarrow>
     (\<forall>v bv. hm_get (tc_bindings ctx) v = Some bv \<longrightarrow> binding_wf cat bv)"

definition aliases_wf :: "catalog \<Rightarrow> type_context \<Rightarrow> bool" where
  "aliases_wf cat ctx \<longleftrightarrow>
     (\<forall>a r. hm_get (tc_aliases ctx) a = Some r \<longrightarrow> resolved_wf cat r \<and> blob_free r)"

definition params_wf :: "param_types \<Rightarrow> bool" where
  "params_wf params \<longleftrightarrow> (\<forall>v p. hm_get params v = Some p \<longrightarrow> pt_wf p)"

lemma reject_blob_read_value_iff [simp]:
  "reject_blob_read_value r e = Inr u \<longleftrightarrow> blob_free r"
  by (auto simp: reject_blob_read_value_def blob_free_def split: resolved_type.splits)

lemma literal_type_plain:
  "literal_type lit = Inr p \<Longrightarrow>
     pt_scalar p \<noteq> SBlob \<and> \<not> is_vector (pt_scalar p) \<and> pt_enum_values p = None"
proof (induction lit arbitrary: p rule: literal_type.induct)
  case (9 x xs)
  from "9.prems" obtain first
    where "literal_type x = Inr first" "p = list_of (pt_scalar first) False"
    by (auto split: if_splits)
  with "9.IH"(1) [of first] show ?case by simp
qed (auto simp: is_vector_def)

lemma plain_to_arrow: "\<not> is_vector (pt_scalar p) \<Longrightarrow> to_arrow p \<noteq> None"
  by (cases "pt_scalar p") (auto simp: is_vector_def to_arrow_def)

lemma lookup_edge_by_name_wf:
  assumes "catalog_wf cat" and "lookup_edge_by_name cat n = Some et"
  shows "hm_get (cat_edge_types cat) (et_name et) = Some et"
    and "props_wf (et_properties et)"
    and "hm_contains (cat_node_types cat) (et_from_type et)"
    and "hm_contains (cat_node_types cat) (et_to_type et)"
  using assms
  by (auto simp: catalog_wf_def edge_types_wf_def lookup_edge_by_name_def
      split: option.splits)

lemma node_props_wf:
  "catalog_wf cat \<Longrightarrow> hm_get (cat_node_types cat) t = Some nt \<Longrightarrow> props_wf (nt_properties nt)"
  by (auto simp: catalog_wf_def node_types_wf_def)

lemma props_wf_get: "props_wf m \<Longrightarrow> hm_get m k = Some p \<Longrightarrow> \<exists>dt. to_arrow p = Some dt"
  by (auto simp: props_wf_def)

lemma resolve_prop_access_Inr_iff:
  "resolve_prop_access cat ctx v p = Inr r \<longleftrightarrow>
     (\<exists>pt. r = RScalar pt \<and> pt_scalar pt \<noteq> SBlob \<and>
       ((\<exists>t nt. hm_get (tc_bindings ctx) v = Some (VNode t) \<and>
                hm_get (cat_node_types cat) t = Some nt \<and> hm_get (nt_properties nt) p = Some pt) \<or>
        (\<exists>t et. hm_get (tc_bindings ctx) v = Some (VEdge t) \<and>
                lookup_edge_by_name cat t = Some et \<and> hm_get (et_properties et) p = Some pt)))"
proof (cases "hm_get (tc_bindings ctx) v")
  case (Some bv)
  then show ?thesis by (cases bv) (auto simp: resolve_prop_access_def)
qed (auto simp: resolve_prop_access_def)

lemma resolve_prop_access_wf:
  assumes "catalog_wf cat" and "resolve_prop_access cat ctx v p = Inr r"
  shows "resolved_wf cat r \<and> blob_free r"
  using assms
  by (auto simp: resolve_prop_access_Inr_iff resolved_wf_def blob_free_def
      dest: props_wf_get [OF lookup_edge_by_name_wf(2)] props_wf_get [OF node_props_wf])

lemma pt_of_scalar_arrow [simp]:
  "\<not> is_vector s \<Longrightarrow> resolved_wf cat (RScalar (pt_of_scalar s n))"
  by (simp add: resolved_wf_def plain_to_arrow)

lemma resolve_wf:
  assumes "catalog_wf cat" and "bindings_wf cat ctx" and "aliases_wf cat ctx"
    and "params_wf params" and "resolve_expr_type cat e ctx params = Inr r"
  shows "resolved_wf cat r"
proof (cases e)
  case (Variable v)
  with assms show ?thesis
    by (auto simp: resolve_variable_def resolved_wf_def params_wf_def bindings_wf_def
        binding_wf_def split: option.splits bound_variable.splits) (metis pt_wf_to_arrow)?
next
  case (Literal l)
  with assms(5) show ?thesis
    by (auto simp: resolved_wf_def dest!: literal_type_plain plain_to_arrow)
next
  case (PropAccess v p)
  with assms show ?thesis by (auto dest: resolve_prop_access_wf)
next
  case (AliasRef n)
  with assms show ?thesis
    by (auto simp: aliases_wf_def resolved_wf_def split: option.splits)
qed (use assms(5) in \<open>auto simp: is_vector_def resolved_wf_def [of _ RAggregate]
      split: option.splits\<close>)

text \<open>The only expression that may have a Blob type is a bare Blob parameter.\<close>

lemma resolve_blob:
  assumes "catalog_wf cat" and "aliases_wf cat ctx"
    and "resolve_expr_type cat e ctx params = Inr r"
  shows "blob_free r \<or> (\<exists>v p. e = Variable v \<and> hm_get params v = Some p \<and> r = RScalar p)"
proof (cases e)
  case (Variable v)
  with assms show ?thesis
    by (auto simp: resolve_variable_def blob_free_def
        split: option.splits bound_variable.splits)
next
  case (Literal l)
  with assms(3) show ?thesis by (auto simp: blob_free_def dest!: literal_type_plain)
next
  case (PropAccess v p)
  with assms show ?thesis by (auto dest: resolve_prop_access_wf)
next
  case (AliasRef n)
  with assms show ?thesis by (auto simp: aliases_wf_def blob_free_def split: option.splits)
qed (use assms(3) in \<open>auto simp: blob_free_def split: option.splits\<close>)

lemma numeric_literal_type:
  assumes "numeric_vector_literal_dim lit = Some d"
  shows "is_ok (literal_type lit)"
proof -
  obtain items where lit: "lit = LList items" "items \<noteq> []"
    and nums: "list_all (\<lambda>v. case v of LInteger _ \<Rightarrow> True | LFloat _ \<Rightarrow> True | _ \<Rightarrow> False) items"
    using assms by (cases lit) (auto simp: numeric_vector_literal_dim_def split: if_splits)
  then obtain x xs where items: "items = x # xs" by (cases items) auto
  have "\<exists>s n. literal_type v = Inr (pt_of_scalar s n) \<and> is_numeric s" if "v \<in> set items" for v
    using nums that by (cases v) (auto simp: list_all_iff)
  then have typed: "\<exists>s n. literal_type v = Inr (pt_of_scalar s n) \<and> is_numeric s"
    if "v \<in> insert x (set xs)" for v
    using that by (simp add: items)
  then obtain s n where x: "literal_type x = Inr (pt_of_scalar s n)" "is_numeric s" by blast
  have "r_each (\<lambda>item. r_bind (literal_type item) (\<lambda>ty.
      guard (\<not> pt_list ty \<and> types_compatible (pt_of_scalar s n) ty) e)) xs = Inr ()" for e :: fault
    using x typed by (fastforce simp: types_compatible_iff)
  with x show ?thesis by (auto simp: lit items is_ok_iff)
qed

text \<open>An expression resolves only when every expression below it does.\<close>

lemma resolve_subexprs:
  "resolve_expr_type cat e ctx params = Inr r \<Longrightarrow> s \<in> set (subexprs e) \<Longrightarrow>
     \<exists>r'. resolve_expr_type cat s ctx params = Inr r'"
proof (induction e arbitrary: r)
  case (Nearest v p q)
  have "\<exists>rq. resolve_expr_type cat q ctx params = Inr rq"
  proof (cases "nearest_literal_dim q")
    case None
    with Nearest.prems(1) show ?thesis by auto
  next
    case (Some d)
    then obtain lit where "q = Literal lit" "numeric_vector_literal_dim lit = Some d"
      by (auto simp: nearest_literal_dim_def split: expr.splits)
    then show ?thesis using numeric_literal_type [of lit d] by (auto simp: is_ok_iff)
  qed
  then obtain rq where "resolve_expr_type cat q ctx params = Inr rq" by blast
  with Nearest.IH [of rq] Nearest.prems show ?case by auto
qed (auto split: option.splits)

text \<open>Resolution survives more bindings and, without alias references, other aliases.\<close>

definition alias_free :: "expr \<Rightarrow> bool" where
  "alias_free e = list_all (\<lambda>s. case s of AliasRef _ \<Rightarrow> False | _ \<Rightarrow> True) (subexprs e)"

lemma reject_edge_binding_search_field_weaken:
  assumes "map_extends (tc_bindings ctx) (tc_bindings ctx')"
    and "reject_edge_binding_search_field ctx f s = Inr ()"
    and "resolve_expr_type cat f ctx params = Inr r"
  shows "reject_edge_binding_search_field ctx' f s = Inr ()"
  using assms
  by (auto simp: reject_edge_binding_search_field_def resolve_prop_access_Inr_iff map_extends_def
      split: expr.splits option.splits bound_variable.splits)

lemma resolve_weaken:
  assumes "map_extends (tc_bindings ctx) (tc_bindings ctx')"
  shows "resolve_expr_type cat e ctx params = Inr r \<Longrightarrow>
    alias_free e \<or> tc_aliases ctx' = tc_aliases ctx \<Longrightarrow>
    resolve_expr_type cat e ctx' params = Inr r"
  using assms
proof (induction e arbitrary: r)
  case (PropAccess v p)
  then show ?case
    by (auto simp: resolve_prop_access_Inr_iff map_extends_def)
next
  case (Nearest v p q)
  have "nearest_target cat ctx v p = Inr d \<Longrightarrow> nearest_target cat ctx' v p = Inr d" for d
    using assms by (auto simp: nearest_target_def map_extends_def
        split: option.splits bound_variable.splits)
  with Nearest show ?case
    by (fastforce simp: alias_free_def split: option.splits)
next
  case (Variable x)
  then show ?case
    by (auto simp: resolve_variable_def map_extends_def
        split: option.splits bound_variable.splits)
next
  case (AliasRef x)
  then show ?case by (auto simp: alias_free_def)
next
  case (Search f q)
  then show ?case
    by (fastforce simp: alias_free_def dest: reject_edge_binding_search_field_weaken)
next
  case (MatchText f q)
  then show ?case
    by (fastforce simp: alias_free_def dest: reject_edge_binding_search_field_weaken)
next
  case (Bm25 f q)
  then show ?case
    by (fastforce simp: alias_free_def dest: reject_edge_binding_search_field_weaken)
next
  case (Fuzzy f q m)
  then show ?case
    by (cases m) (fastforce simp: alias_free_def dest: reject_edge_binding_search_field_weaken)+
next
  case (Rrf a b k)
  then show ?case by (cases k) (fastforce simp: alias_free_def)+
next
  case (Aggregate f a)
  then show ?case by (fastforce simp: alias_free_def)
qed auto

lemma field_shape_ok:
  "resolved_wf cat r \<Longrightarrow> is_ok (resolved_type_to_field_shape cat r)"
  by (auto simp: resolved_wf_def resolved_type_to_field_shape_def hm_contains_def is_ok_iff
      split: resolved_type.splits)

text \<open>An expression that was accepted has an Arrow field: inference neither fails nor panics.\<close>

lemma infer_projection_field_ok:
  assumes "catalog_wf cat" and "bindings_wf cat ctx" and "aliases_wf cat ctx"
    and "params_wf params" and "resolve_expr_type cat e ctx params = Inr r" and "blob_free r"
  shows "\<exists>dt n. infer_projection_field cat e als ctx params =
    Inr (Field (projection_name e als) dt n)"
proof -
  have shape: "\<exists>dt n. resolved_type_to_field_shape cat r' = Inr (dt, n)"
    if "resolve_expr_type cat e' ctx params = Inr r'" for e' r'
    using field_shape_ok [OF resolve_wf [OF assms(1-4) that]] by (auto simp: is_ok_iff)
  show ?thesis
  proof (cases "\<exists>f a. e = Aggregate f a")
    case True
    then obtain f a where e: "e = Aggregate f a" by blast
    then obtain ra where "resolve_expr_type cat a ctx params = Inr ra" "blob_free ra"
      using assms(5) by auto
    with shape [of a ra] show ?thesis
      by (cases f) (auto simp: e infer_projection_field_def)
  next
    case False
    then have "infer_projection_field cat e als ctx params =
      r_bind (resolve_expr_type cat e ctx params) (\<lambda>resolved.
      r_bind (reject_blob_read_value resolved e) (\<lambda>_.
      r_bind (resolved_type_to_field_shape cat resolved) (\<lambda>(dt, nullable).
      Inr (Field (projection_name e als) dt nullable))))"
      by (cases e) (auto simp: infer_projection_field_def)
    with shape [OF assms(5)] assms(5,6) show ?thesis by auto
  qed
qed

end
