(* ===== verification/Typecheck_Mutation.thy ===== *)
theory Typecheck_Mutation
  imports Typecheck_Expr
begin

text \<open>
  Type checking of insert, update and delete mutations
  (\<^verbatim>\<open>omnigraph-compiler/src/query/typecheck.rs\<close>): the declared parameters, the values
  assigned to properties, the required properties of an insert and the predicate of an update
  or a delete. \<open>typecheck_insert_node_iff\<close> and its companions characterise what is accepted.
\<close>

section \<open>Parameters\<close>

definition declare_param :: "param \<Rightarrow> param_types \<Rightarrow> param_types result" where
  "declare_param p out =
     (if prm_name p = NOW_PARAM_NAME then Inl (type_err (ParamErr ReservedParameter))
      else r_bind (ok_or (from_param_type_name (prm_type_name p) (prm_nullable p))
                    (type_err (ParamErr (UnknownParameterType (prm_type_name p) (prm_name p)))))
             (\<lambda>prop_type. Inr (hm_insert (prm_name p) prop_type out)))"

definition parse_declared_param_types :: "param list \<Rightarrow> param_types result" where
  "parse_declared_param_types params = r_fold declare_param params hm_empty"

section \<open>Assigned values\<close>

datatype mutation_target = TNode string | TEdge string

definition check_now_match_value_type :: "prop_type \<Rightarrow> string \<Rightarrow> unit result" where
  "check_now_match_value_type expected property =
     guard (\<not> pt_list expected \<and> pt_scalar expected = SDateTime)
       (type_err (ValueErr (T7_now expected property)))"

text \<open>A String parameter may be assigned to a Blob property: it is the URI of the content.\<close>

definition check_match_value_type ::
    "match_value \<Rightarrow> param_types \<Rightarrow> prop_type \<Rightarrow> string \<Rightarrow> unit result" where
  "check_match_value_type value params expected property =
     (case value of
        MVLiteral lit \<Rightarrow> check_literal_type lit expected property
      | MVVariable v \<Rightarrow>
          (case hm_get params v of
             None \<Rightarrow> Inl (type_err (ValueErr (T14_undeclared_variable v)))
           | Some actual \<Rightarrow>
               guard (types_compatible actual expected \<or>
                      (pt_scalar expected = SBlob \<and> pt_scalar actual = SString \<and>
                       \<not> pt_list actual))
                 (type_err (ValueErr (T7_assign actual expected property))))
      | MVNow \<Rightarrow> check_now_match_value_type expected property)"

fun ensure_no_duplicate_from ::
    "string set \<Rightarrow> mutation_assignment list \<Rightarrow> unit result" where
  "ensure_no_duplicate_from seen [] = Inr ()"
| "ensure_no_duplicate_from seen (a # as) =
     (if ma_property a \<in> seen
      then Inl (type_err (MutationErr (T13_duplicate_assignment (ma_property a))))
      else ensure_no_duplicate_from (insert (ma_property a) seen) as)"

definition ensure_no_duplicate_assignment_names :: "mutation_assignment list \<Rightarrow> unit result" where
  "ensure_no_duplicate_assignment_names as = ensure_no_duplicate_from {} as"

definition check_assignment ::
    "string \<Rightarrow> (string, prop_type) hmap \<Rightarrow> param_types \<Rightarrow> mutation_assignment \<Rightarrow> unit result" where
  "check_assignment type_name props params a =
     r_bind (ok_or (hm_get props (ma_property a))
              (type_err (MutationErr (T11_no_property type_name (ma_property a))))) (\<lambda>prop_type.
     check_match_value_type (ma_value a) params prop_type (ma_property a))"

section \<open>Insert\<close>

definition require_node_property ::
    "string \<Rightarrow> node_type \<Rightarrow> string set \<Rightarrow> string \<times> prop_type \<Rightarrow> unit result" where
  "require_node_property type_name node_type assigned np =
     (case np of (prop_name, prop_type) \<Rightarrow>
        if pt_nullable prop_type then Inr ()
        else if prop_name \<in> assigned then Inr ()
        else
          case hm_get (nt_embed_sources node_type) prop_name of
            Some emb \<Rightarrow>
              guard (emb_source emb \<in> assigned)
                (type_err (MutationErr (T12_missing_embed type_name prop_name (emb_source emb))))
          | None \<Rightarrow> Inl (type_err (MutationErr (T12_missing_property type_name prop_name))))"

definition typecheck_insert_node ::
    "insert_mutation \<Rightarrow> node_type \<Rightarrow> param_types \<Rightarrow> mutation_target result" where
  "typecheck_insert_node im node_type params =
     r_bind (r_each (check_assignment (im_type_name im) (nt_properties node_type) params)
              (im_assignments im)) (\<lambda>_.
     r_bind (r_each (require_node_property (im_type_name im) node_type
                       (set (map ma_property (im_assignments im)))) (nt_properties node_type)) (\<lambda>_.
     Inr (TNode (im_type_name im))))"

text \<open>The endpoints of an edge are assigned as the reserved names \<open>from\<close> and \<open>to\<close>.\<close>

definition check_edge_assignment ::
    "string \<Rightarrow> edge_type \<Rightarrow> param_types \<Rightarrow> mutation_assignment \<Rightarrow> bool \<times> bool \<Rightarrow>
     (bool \<times> bool) result" where
  "check_edge_assignment type_name edge_type params a flags =
     (case flags of (has_from, has_to) \<Rightarrow>
        if ma_property a = ''from''
        then r_bind (check_match_value_type (ma_value a) params (pt_of_scalar SString False) ''from'')
               (\<lambda>_. Inr (True, has_to))
        else if ma_property a = ''to''
        then r_bind (check_match_value_type (ma_value a) params (pt_of_scalar SString False) ''to'')
               (\<lambda>_. Inr (has_from, True))
        else r_bind (check_assignment type_name (et_properties edge_type) params a)
               (\<lambda>_. Inr (has_from, has_to)))"

definition require_edge_property ::
    "insert_mutation \<Rightarrow> string \<times> prop_type \<Rightarrow> unit result" where
  "require_edge_property im np =
     (case np of (prop_name, prop_type) \<Rightarrow>
        if pt_nullable prop_type then Inr ()
        else guard (list_ex (\<lambda>a. ma_property a = prop_name) (im_assignments im))
               (type_err (MutationErr (T12_missing_property (im_type_name im) prop_name))))"

definition typecheck_insert_edge ::
    "insert_mutation \<Rightarrow> edge_type \<Rightarrow> param_types \<Rightarrow> mutation_target result" where
  "typecheck_insert_edge im edge_type params =
     r_bind (r_fold (check_edge_assignment (im_type_name im) edge_type params)
              (im_assignments im) (False, False)) (\<lambda>(has_from, has_to).
     r_bind (guard has_from (type_err (MutationErr (T12_missing_from (im_type_name im))))) (\<lambda>_.
     r_bind (guard has_to (type_err (MutationErr (T12_missing_to (im_type_name im))))) (\<lambda>_.
     r_bind (r_each (require_edge_property im) (et_properties edge_type)) (\<lambda>_.
     Inr (TEdge (im_type_name im))))))"

definition typecheck_insert ::
    "catalog \<Rightarrow> insert_mutation \<Rightarrow> param_types \<Rightarrow> mutation_target result" where
  "typecheck_insert cat im params =
     r_bind (guard (im_assignments im \<noteq> []) (type_err (MutationErr T10_insert_empty))) (\<lambda>_.
     r_bind (ensure_no_duplicate_assignment_names (im_assignments im)) (\<lambda>_.
     case hm_get (cat_node_types cat) (im_type_name im) of
       Some node_type \<Rightarrow> typecheck_insert_node im node_type params
     | None \<Rightarrow>
         (case hm_get (cat_edge_types cat) (im_type_name im) of
            Some edge_type \<Rightarrow> typecheck_insert_edge im edge_type params
          | None \<Rightarrow> Inl (type_err (MutationErr (T10_unknown_type (im_type_name im)))))))"

section \<open>Update and delete\<close>

definition check_predicate ::
    "string \<Rightarrow> (string, prop_type) hmap \<Rightarrow> param_types \<Rightarrow> mutation_predicate \<Rightarrow> unit result" where
  "check_predicate type_name props params predicate =
     r_bind (ok_or (hm_get props (mp_property predicate))
              (type_err (MutationErr (T11_no_property type_name (mp_property predicate)))))
       (\<lambda>prop_type.
     r_bind (guard (pt_scalar prop_type \<noteq> SBlob)
              (type_err (MutationErr (T11_blob_predicate (mp_property predicate))))) (\<lambda>_.
     check_match_value_type (mp_value predicate) params prop_type (mp_property predicate)))"

definition typecheck_mutation_predicate ::
    "string \<Rightarrow> mutation_predicate \<Rightarrow> node_type \<Rightarrow> param_types \<Rightarrow> unit result" where
  "typecheck_mutation_predicate type_name predicate node_type params =
     check_predicate type_name (nt_properties node_type) params predicate"

definition typecheck_edge_mutation_predicate ::
    "string \<Rightarrow> mutation_predicate \<Rightarrow> edge_type \<Rightarrow> param_types \<Rightarrow> unit result" where
  "typecheck_edge_mutation_predicate type_name predicate edge_type params =
     (if mp_property predicate = ''from'' \<or> mp_property predicate = ''to''
      then check_match_value_type (mp_value predicate) params (pt_of_scalar SString False)
             (mp_property predicate)
      else check_predicate type_name (et_properties edge_type) params predicate)"

definition typecheck_update ::
    "catalog \<Rightarrow> update_mutation \<Rightarrow> param_types \<Rightarrow> mutation_target result" where
  "typecheck_update cat um params =
     r_bind
       (case hm_get (cat_node_types cat) (um_type_name um) of
          Some node_type \<Rightarrow> Inr node_type
        | None \<Rightarrow>
            if hm_contains (cat_edge_types cat) (um_type_name um)
            then Inl (type_err (MutationErr (T16_edge_update (um_type_name um))))
            else Inl (type_err (MutationErr (T10_unknown_type (um_type_name um))))) (\<lambda>node_type.
     r_bind (guard (um_assignments um \<noteq> []) (type_err (MutationErr T10_update_empty))) (\<lambda>_.
     r_bind (ensure_no_duplicate_assignment_names (um_assignments um)) (\<lambda>_.
     r_bind (r_each (check_assignment (um_type_name um) (nt_properties node_type) params)
              (um_assignments um)) (\<lambda>_.
     r_bind (typecheck_mutation_predicate (um_type_name um) (um_predicate um) node_type params) (\<lambda>_.
     Inr (TNode (um_type_name um)))))))"

definition typecheck_delete ::
    "catalog \<Rightarrow> delete_mutation \<Rightarrow> param_types \<Rightarrow> mutation_target result" where
  "typecheck_delete cat dm params =
     (case hm_get (cat_node_types cat) (dm_type_name dm) of
        Some node_type \<Rightarrow>
          r_bind (typecheck_mutation_predicate (dm_type_name dm) (dm_predicate dm) node_type params)
            (\<lambda>_. Inr (TNode (dm_type_name dm)))
      | None \<Rightarrow>
          (case hm_get (cat_edge_types cat) (dm_type_name dm) of
             Some edge_type \<Rightarrow>
               r_bind (typecheck_edge_mutation_predicate (dm_type_name dm) (dm_predicate dm)
                         edge_type params)
                 (\<lambda>_. Inr (TEdge (dm_type_name dm)))
           | None \<Rightarrow> Inl (type_err (MutationErr (T10_unknown_type (dm_type_name dm))))))"

definition typecheck_mutation ::
    "catalog \<Rightarrow> mutation \<Rightarrow> param list \<Rightarrow> mutation_target result" where
  "typecheck_mutation cat m params =
     r_bind (parse_declared_param_types params) (\<lambda>param_types.
     case m of
       MInsert im \<Rightarrow> typecheck_insert cat im param_types
     | MUpdate um \<Rightarrow> typecheck_update cat um param_types
     | MDelete dm \<Rightarrow> typecheck_delete cat dm param_types)"

section \<open>Parameters are well formed\<close>

interpretation declare_params: checked_loop declare_param params_wf "\<lambda>_ _. True"
  by unfold_locales
    (auto simp: declare_param_def params_wf_def dest: from_param_type_name_wf split: if_splits)

lemma parse_declared_param_types_wf:
  "parse_declared_param_types ps = Inr params \<Longrightarrow> params_wf params"
  unfolding parse_declared_param_types_def
  by (rule declare_params.loop_inv) (auto simp: params_wf_def)

text \<open>The reserved timestamp parameter is never declared, and every declared name is typed.\<close>

lemma declared_params_keys:
  "r_fold declare_param ps out = Inr params \<Longrightarrow>
     set (hm_keys params) = set (hm_keys out) \<union> prm_name ` set ps \<and>
     NOW_PARAM_NAME \<notin> prm_name ` set ps"
proof (induction ps arbitrary: out)
  case (Cons p ps)
  then obtain out' where out': "declare_param p out = Inr out'"
    and rest: "r_fold declare_param ps out' = Inr params" by auto
  have "set (hm_keys out') = insert (prm_name p) (set (hm_keys out))"
      "prm_name p \<noteq> NOW_PARAM_NAME"
    using out' by (auto simp: declare_param_def hm_keys_get set_eq_iff split: if_splits)
  with Cons.IH [OF rest] show ?case by auto
qed auto

section \<open>What is accepted\<close>

lemma ensure_no_duplicate_from_iff:
  "ensure_no_duplicate_from seen as = Inr () \<longleftrightarrow>
     distinct (map ma_property as) \<and> set (map ma_property as) \<inter> seen = {}"
  by (induction as arbitrary: seen) auto

lemma ensure_no_duplicate_iff:
  "ensure_no_duplicate_assignment_names as = Inr u \<longleftrightarrow> distinct (map ma_property as)"
  by (simp add: ensure_no_duplicate_assignment_names_def ensure_no_duplicate_from_iff)

text \<open>Every assignment names a property of the type, with a value that fits it.\<close>

definition assignments_typed ::
    "(string, prop_type) hmap \<Rightarrow> param_types \<Rightarrow> mutation_assignment list \<Rightarrow> bool" where
  "assignments_typed props params as =
     list_all (\<lambda>a. case hm_get props (ma_property a) of
       None \<Rightarrow> False
     | Some pt \<Rightarrow> is_ok (check_match_value_type (ma_value a) params pt (ma_property a))) as"

lemma check_assignment_iff:
  "check_assignment t props params a = Inr () \<longleftrightarrow>
     (case hm_get props (ma_property a) of
        None \<Rightarrow> False
      | Some pt \<Rightarrow> is_ok (check_match_value_type (ma_value a) params pt (ma_property a)))"
  by (auto simp: check_assignment_def is_ok_iff split: option.splits)

lemma check_assignments_iff:
  "r_each (check_assignment t props params) as = Inr () \<longleftrightarrow> assignments_typed props params as"
  by (auto simp: assignments_typed_def list_all_iff check_assignment_iff)

text \<open>A property an insert may leave out: nullable, or embedded from an assigned source.\<close>

definition may_omit :: "node_type \<Rightarrow> string set \<Rightarrow> string \<Rightarrow> prop_type \<Rightarrow> bool" where
  "may_omit nt assigned p pt \<longleftrightarrow>
     pt_nullable pt \<or>
     (case hm_get (nt_embed_sources nt) p of None \<Rightarrow> False | Some e \<Rightarrow> emb_source e \<in> assigned)"

lemma require_node_property_iff:
  "require_node_property t nt assigned (p, pt) = Inr u \<longleftrightarrow>
     p \<in> assigned \<or> may_omit nt assigned p pt"
  by (auto simp: require_node_property_def may_omit_def split: option.splits)

lemma typecheck_insert_node_iff:
  "typecheck_insert_node im nt params = Inr t \<longleftrightarrow>
     t = TNode (im_type_name im) \<and>
     assignments_typed (nt_properties nt) params (im_assignments im) \<and>
     (\<forall>(p, pt) \<in> set (nt_properties nt).
        p \<in> ma_property ` set (im_assignments im) \<or>
        may_omit nt (ma_property ` set (im_assignments im)) p pt)"
  unfolding typecheck_insert_node_def
  by (auto simp: check_assignments_iff [simplified] require_node_property_iff)

definition edge_value_typed :: "edge_type \<Rightarrow> param_types \<Rightarrow> mutation_assignment \<Rightarrow> bool" where
  "edge_value_typed et params a =
     (if ma_property a = ''from'' \<or> ma_property a = ''to''
      then is_ok (check_match_value_type (ma_value a) params (pt_of_scalar SString False)
                   (ma_property a))
      else assignments_typed (et_properties et) params [a])"

lemma check_edge_assignment_iff:
  "check_edge_assignment t et params a (f, g) = Inr flags \<longleftrightarrow>
     edge_value_typed et params a \<and>
     flags = (f \<or> ma_property a = ''from'', g \<or> ma_property a = ''to'')"
proof -
  consider "ma_property a = ''from''" | "ma_property a = ''to''"
    | "ma_property a \<noteq> ''from''" "ma_property a \<noteq> ''to''" by blast
  then show ?thesis
  proof cases
    case 3
    then show ?thesis
      using check_assignment_iff [of t "et_properties et" params a]
      by (auto simp: check_edge_assignment_def edge_value_typed_def assignments_typed_def)
  qed (auto simp: check_edge_assignment_def edge_value_typed_def is_ok_iff)
qed

lemma check_edge_assignments_iff:
  "r_fold (check_edge_assignment t et params) as (f, g) = Inr flags \<longleftrightarrow>
     (\<forall>a \<in> set as. edge_value_typed et params a) \<and>
     flags = (f \<or> ''from'' \<in> ma_property ` set as, g \<or> ''to'' \<in> ma_property ` set as)"
  by (induction as arbitrary: f g) (auto simp: check_edge_assignment_iff)

lemma require_edge_property_iff:
  "require_edge_property im (p, pt) = Inr u \<longleftrightarrow>
     pt_nullable pt \<or> p \<in> ma_property ` set (im_assignments im)"
  by (auto simp: require_edge_property_def list_ex_iff)

lemma typecheck_insert_edge_iff:
  "typecheck_insert_edge im et params = Inr t \<longleftrightarrow>
     t = TEdge (im_type_name im) \<and>
     (\<forall>a \<in> set (im_assignments im). edge_value_typed et params a) \<and>
     {''from'', ''to''} \<subseteq> ma_property ` set (im_assignments im) \<and>
     (\<forall>(p, pt) \<in> set (et_properties et).
        pt_nullable pt \<or> p \<in> ma_property ` set (im_assignments im))"
  unfolding typecheck_insert_edge_def
  by (auto simp: check_edge_assignments_iff require_edge_property_iff)

end
