(* ===== verification/Mutation_Properties.thy ===== *)
theory Mutation_Properties
  imports Sample Typecheck_Mutation
begin

text \<open>
  What an accepted mutation guarantees: an insert assigns known properties once each, with
  values of their types, and leaves out nothing that is required; a mutation targets the kind
  of type the catalog has under its name; predicates never look at a Blob.
\<close>

section \<open>Values\<close>

text \<open>
  A literal list of numbers is accepted for a vector property exactly when it has as many
  elements as the vector has dimensions. The length is cast to 32 bits, so this is stated for
  lists shorter than \<open>2\<^sup>3\<^sup>2\<close>.
\<close>

theorem vector_literal_length_checked:
  assumes "items \<noteq> []" and "length items < 2 ^ 32"
    and "list_all (\<lambda>v. case v of LInteger _ \<Rightarrow> True | LFloat _ \<Rightarrow> True | _ \<Rightarrow> False) items"
  shows "is_ok (check_literal_type (LList items) (pt_of_scalar (SVector d) n) p) \<longleftrightarrow>
    length items = unat d"
proof -
  have "unat (of_nat (length items) :: u32) = length items"
    using assms(2) by (simp add: unsigned_of_nat take_bit_nat_eq_self)
  then have "(of_nat (length items) = d) \<longleftrightarrow> length items = unat d" by auto
  moreover have "numeric_vector_literal_dim (LList items) = Some (of_nat (length items))"
    using assms by (simp add: numeric_vector_literal_dim_def)
  ultimately show ?thesis by (simp add: check_literal_type_def guard_def)
qed

theorem vector_literal_length_checked_witness:
  "is_ok (check_literal_type (LList [LInteger 1, LFloat 0]) (pt_of_scalar (SVector 2) True) ''vec'')"
  using vector_literal_length_checked [of "[LInteger 1, LFloat 0]" 2 True "''vec''"] by simp

text \<open>
  A string literal is accepted for an enum property exactly when it is one of the allowed
  values; null is accepted exactly when the property is nullable.
\<close>

theorem enum_literal_checked:
  assumes "pt_enum_values pt = Some allowed" and "pt_scalar pt = SString" and "\<not> pt_list pt"
  shows "(is_ok (check_literal_type (LString v) pt p) \<longleftrightarrow> v \<in> set allowed) \<and>
    (is_ok (check_literal_type LNull pt p) \<longleftrightarrow> pt_nullable pt)"
  using assms
  by (simp add: check_literal_type_def check_plain_literal_def check_enum_literal_def
      types_compatible_iff guard_def)

theorem enum_literal_checked_witness:
  "\<not> is_ok (check_literal_type (LString ''purple'') (enum_type [''red'', ''blue''] False) ''colour'')"
proof -
  have "set (remdups_adj (sort [''red'', ''blue''])) = {''red'', ''blue''}" by auto
  then show ?thesis
    using enum_literal_checked [of "enum_type [''red'', ''blue''] False"
        "remdups_adj (sort [''red'', ''blue''])" "''purple''" "''colour''"]
    by (auto simp: enum_type_def)
qed

section \<open>Parameters\<close>

text \<open>
  When the declared parameters are accepted, exactly the declared names have a type, every
  such type has an Arrow form and none is the name reserved for the timestamp of the request.
\<close>

theorem declared_parameters:
  assumes "parse_declared_param_types ps = Inr params"
  shows "set (hm_keys params) = prm_name ` set ps \<and> NOW_PARAM_NAME \<notin> set (hm_keys params) \<and>
    (hm_get params v = Some pt \<longrightarrow> to_arrow pt \<noteq> None)"
proof -
  have "set (hm_keys params) = prm_name ` set ps \<and> NOW_PARAM_NAME \<notin> prm_name ` set ps"
    using declared_params_keys [OF assms [unfolded parse_declared_param_types_def]]
    by (simp add: hm_keys_def hm_empty_def)
  then show ?thesis
    using parse_declared_param_types_wf [OF assms] pt_wf_to_arrow by (fastforce simp: params_wf_def)
qed

definition name_param :: param where
  "name_param = \<lparr>prm_name = ''name'', prm_type_name = ''String'', prm_nullable = False\<rparr>"

lemma parse_name_param:
  "parse_declared_param_types [name_param] = Inr [(''name'', pt_of_scalar SString False)]"
  by code_simp

theorem declared_parameters_witness:
  "set (hm_keys [(''name'', pt_of_scalar SString False)]) = prm_name ` set [name_param]"
  using declared_parameters [OF parse_name_param] by blast

section \<open>Inserts\<close>

lemma forall_props: "(\<forall>(p, pt) \<in> set m. P p pt) \<longleftrightarrow> list_all (\<lambda>(p, pt). P p pt) m"
  by (simp add: list_all_iff)

text \<open>
  An insert into a node type is accepted exactly when it assigns at least one property, none
  twice, each a property of the type with a value of its type, and every property it leaves out
  is nullable or embedded from one it assigns.
\<close>

theorem insert_node_accepted_iff:
  assumes "hm_get (cat_node_types cat) (im_type_name im) = Some nt"
  shows "typecheck_insert cat im params = Inr t \<longleftrightarrow>
    t = TNode (im_type_name im) \<and> im_assignments im \<noteq> [] \<and>
    distinct (map ma_property (im_assignments im)) \<and>
    assignments_typed (nt_properties nt) params (im_assignments im) \<and>
    list_all (\<lambda>(p, pt). p \<in> ma_property ` set (im_assignments im) \<or>
        may_omit nt (ma_property ` set (im_assignments im)) p pt) (nt_properties nt)"
  using assms typecheck_insert_node_iff [of im nt params t]
  by (auto simp: typecheck_insert_def ensure_no_duplicate_iff forall_props)

definition insert_person :: insert_mutation where
  "insert_person = \<lparr>im_type_name = ''Person'',
     im_assignments = [\<lparr>ma_property = ''name'', ma_value = MVVariable ''name''\<rparr>]\<rparr>"

definition person_type :: node_type where
  "person_type = (case hm_get (cat_node_types sample_catalog) ''Person'' of
     Some nt \<Rightarrow> nt
   | None \<Rightarrow> \<lparr>nt_name = [], nt_implements = [], nt_properties = [], nt_key = None,
       nt_unique_constraints = [], nt_indices = [], nt_range_constraints = [],
       nt_check_constraints = [], nt_embed_sources = [], nt_blob_properties = {},
       nt_arrow_schema = []\<rparr>)"

lemma sample_person: "hm_get (cat_node_types sample_catalog) ''Person'' = Some person_type"
proof -
  have "hm_contains (cat_node_types sample_catalog) ''Person''" by code_simp
  then show ?thesis by (auto simp: person_type_def hm_contains_iff)
qed

theorem insert_node_accepted_iff_witness:
  "typecheck_insert sample_catalog insert_person [(''name'', pt_of_scalar SString False)] =
     Inr (TNode ''Person'')"
proof -
  have "assignments_typed (nt_properties person_type) [(''name'', pt_of_scalar SString False)]
      (im_assignments insert_person)" by code_simp
  moreover have "list_all (\<lambda>(p, pt). p \<in> ma_property ` set (im_assignments insert_person) \<or>
      may_omit person_type (ma_property ` set (im_assignments insert_person)) p pt)
      (nt_properties person_type)" by code_simp
  ultimately show ?thesis
    using insert_node_accepted_iff [of sample_catalog insert_person person_type] sample_person
    by (simp add: insert_person_def)
qed

text \<open>
  An insert into an edge type is accepted exactly when it assigns both endpoints, none of
  its properties twice, only properties of the edge with values of their types, and every
  property that is not nullable.
\<close>

theorem insert_edge_accepted_iff:
  assumes "hm_get (cat_node_types cat) (im_type_name im) = None"
    and "hm_get (cat_edge_types cat) (im_type_name im) = Some et"
  shows "typecheck_insert cat im params = Inr t \<longleftrightarrow>
    t = TEdge (im_type_name im) \<and>
    distinct (map ma_property (im_assignments im)) \<and>
    list_all (edge_value_typed et params) (im_assignments im) \<and>
    {''from'', ''to''} \<subseteq> ma_property ` set (im_assignments im) \<and>
    list_all (\<lambda>(p, pt). pt_nullable pt \<or> p \<in> ma_property ` set (im_assignments im))
      (et_properties et)"
proof -
  have "typecheck_insert cat im params = Inr t \<longleftrightarrow>
      im_assignments im \<noteq> [] \<and> distinct (map ma_property (im_assignments im)) \<and>
      typecheck_insert_edge im et params = Inr t"
    using assms by (auto simp: typecheck_insert_def ensure_no_duplicate_iff)
  moreover have "{''from'', ''to''} \<subseteq> ma_property ` set (im_assignments im) \<Longrightarrow> im_assignments im \<noteq> []"
    by (cases "im_assignments im") auto
  ultimately show ?thesis
    unfolding typecheck_insert_edge_iff forall_props list_all_iff [of "edge_value_typed et params"]
    by blast
qed

definition insert_knows :: insert_mutation where
  "insert_knows = \<lparr>im_type_name = ''Knows'',
     im_assignments = [\<lparr>ma_property = ''from'', ma_value = MVVariable ''name''\<rparr>]\<rparr>"

theorem insert_edge_accepted_iff_witness:
  "\<not> is_ok (typecheck_insert sample_catalog insert_knows [(''name'', pt_of_scalar SString False)])"
proof -
  have "\<not> hm_contains (cat_node_types sample_catalog) ''Knows''" by code_simp
  moreover have "hm_contains (cat_edge_types sample_catalog) ''Knows''" by code_simp
  ultimately obtain et where "hm_get (cat_node_types sample_catalog) (im_type_name insert_knows) = None"
      "hm_get (cat_edge_types sample_catalog) (im_type_name insert_knows) = Some et"
    by (auto simp: hm_contains_def insert_knows_def)
  from insert_edge_accepted_iff [OF this] show ?thesis
    by (auto simp: is_ok_iff insert_knows_def)
qed

section \<open>Targets and predicates\<close>

definition mutation_type_name :: "mutation \<Rightarrow> string" where
  "mutation_type_name m =
     (case m of MInsert im \<Rightarrow> im_type_name im | MUpdate um \<Rightarrow> um_type_name um
      | MDelete dm \<Rightarrow> dm_type_name dm)"

text \<open>
  The target of an accepted mutation is of the kind the catalog has under the name: a node
  type when there is one, else an edge type, and an edge type is never updated.
\<close>

theorem mutation_target_resolved:
  assumes "typecheck_mutation cat m ps = Inr target"
  shows "(case target of
      TNode t \<Rightarrow> t = mutation_type_name m \<and> hm_contains (cat_node_types cat) t
    | TEdge t \<Rightarrow> t = mutation_type_name m \<and> \<not> hm_contains (cat_node_types cat) t \<and>
        hm_contains (cat_edge_types cat) t \<and> \<not> (\<exists>um. m = MUpdate um))"
  using assms
  by (cases m)
    (auto simp: typecheck_mutation_def typecheck_insert_def typecheck_insert_node_iff
      typecheck_insert_edge_iff typecheck_update_def typecheck_delete_def mutation_type_name_def
      hm_contains_def split: option.splits if_splits)

theorem mutation_target_resolved_witness:
  "hm_contains (cat_node_types sample_catalog) ''Person''"
proof -
  have "typecheck_mutation sample_catalog (MInsert insert_person) [name_param] = Inr (TNode ''Person'')"
    by code_simp
  from mutation_target_resolved [OF this, unfolded mutation_target.case] show ?thesis by blast
qed

definition predicate_of :: "mutation \<Rightarrow> mutation_predicate option" where
  "predicate_of m =
     (case m of MInsert _ \<Rightarrow> None | MUpdate um \<Rightarrow> Some (um_predicate um)
      | MDelete dm \<Rightarrow> Some (dm_predicate dm))"

definition target_property :: "catalog \<Rightarrow> mutation_target \<Rightarrow> string \<Rightarrow> prop_type option" where
  "target_property cat target p =
     (case target of
        TNode t \<Rightarrow> Option.bind (hm_get (cat_node_types cat) t) (\<lambda>nt. hm_get (nt_properties nt) p)
      | TEdge t \<Rightarrow>
          if p = ''from'' \<or> p = ''to'' then Some (pt_of_scalar SString False)
          else Option.bind (hm_get (cat_edge_types cat) t) (\<lambda>et. hm_get (et_properties et) p))"

text \<open>
  The predicate of an accepted update or delete names a property of the target (or an
  endpoint of an edge) that is not a Blob, and compares it with a value of its type.
\<close>

theorem mutation_predicate_checked:
  assumes "typecheck_mutation cat m ps = Inr target" and "predicate_of m = Some pred"
    and "parse_declared_param_types ps = Inr params"
  shows "\<exists>pt. target_property cat target (mp_property pred) = Some pt \<and> pt_scalar pt \<noteq> SBlob \<and>
    is_ok (check_match_value_type (mp_value pred) params pt (mp_property pred))"
proof (cases m)
  case (MUpdate um)
  with assms show ?thesis
    by (auto simp: typecheck_mutation_def typecheck_update_def predicate_of_def target_property_def
        typecheck_mutation_predicate_def check_predicate_def split: option.splits if_splits)
next
  case (MDelete dm)
  with assms show ?thesis
    by (auto simp: typecheck_mutation_def typecheck_delete_def predicate_of_def target_property_def
        typecheck_mutation_predicate_def typecheck_edge_mutation_predicate_def check_predicate_def
        split: option.splits if_splits)
qed (use assms(2) in \<open>simp add: predicate_of_def\<close>)

definition delete_person :: mutation where
  "delete_person = MDelete \<lparr>dm_type_name = ''Person'',
     dm_predicate = \<lparr>mp_property = ''name'', mp_op = OpEq, mp_value = MVVariable ''name''\<rparr>\<rparr>"

theorem mutation_predicate_checked_witness:
  "\<exists>pt. target_property sample_catalog (TNode ''Person'') ''name'' = Some pt \<and> pt_scalar pt \<noteq> SBlob"
proof -
  have "typecheck_mutation sample_catalog delete_person [name_param] = Inr (TNode ''Person'')"
    by code_simp
  from mutation_predicate_checked [OF this _ parse_name_param] show ?thesis
    by (auto simp: delete_person_def predicate_of_def)
qed

end
