(* ===== verification/Typecheck.thy ===== *)
theory Typecheck
  imports Typecheck_Mutation
begin

text \<open>
  Type checking of read queries (\<^verbatim>\<open>omnigraph-compiler/src/query/typecheck.rs\<close>): bindings,
  traversals, filters and negation blocks of the match clause, then projections, orderings and
  the rules that tie them to a limit. The checker threads a type context; the context it
  returns satisfies \<open>ctx_wf\<close>: every variable has a type of the catalog and every resolved
  traversal has bounded hops and endpoints of the edge's types in the direction recorded.
\<close>

section \<open>Bindings\<close>

definition check_binding_literal_type :: "literal \<Rightarrow> prop_type \<Rightarrow> string \<Rightarrow> unit result" where
  "check_binding_literal_type lit expected property =
     (if pt_list expected
      then r_bind (literal_type lit) (\<lambda>lit_type.
           r_bind (guard (\<not> pt_list lit_type) (type_err (ValueErr (T3_list_equality property)))) (\<lambda>_.
           guard (types_compatible lit_type
                   (pt_of_scalar (pt_scalar expected) (pt_nullable expected)))
             (type_err (ValueErr (T3_membership property expected lit_type)))))
      else check_literal_type lit expected property)"

definition check_binding_variable_type :: "prop_type \<Rightarrow> prop_type \<Rightarrow> string \<Rightarrow> unit result" where
  "check_binding_variable_type actual expected property =
     (if pt_list expected
      then r_bind (guard (\<not> pt_list actual) (type_err (ValueErr (T7_list_equality property)))) (\<lambda>_.
           guard (types_compatible actual
                   (pt_of_scalar (pt_scalar expected) (pt_nullable expected)))
             (type_err (ValueErr (T7_membership actual expected property))))
      else guard (types_compatible actual expected)
             (type_err (ValueErr (T7_assign actual expected property))))"

text \<open>A variable that is no parameter is not checked here: it is left to the lowering.\<close>

definition check_prop_match ::
    "string \<Rightarrow> node_type \<Rightarrow> param_types \<Rightarrow> prop_match \<Rightarrow> unit result" where
  "check_prop_match type_name node_type params pm =
     r_bind (ok_or (hm_get (nt_properties node_type) (pm_prop_name pm))
              (type_err (BindingErr (T2_no_property type_name (pm_prop_name pm))))) (\<lambda>prop.
     r_bind (guard (pt_scalar prop \<noteq> SBlob)
              (type_err (BindingErr (T3_blob_match type_name (pm_prop_name pm))))) (\<lambda>_.
     case pm_value pm of
       MVLiteral lit \<Rightarrow> check_binding_literal_type lit prop (pm_prop_name pm)
     | MVVariable v \<Rightarrow>
         (case hm_get params v of
            Some actual \<Rightarrow> check_binding_variable_type actual prop (pm_prop_name pm)
          | None \<Rightarrow> Inr ())
     | MVNow \<Rightarrow> check_now_match_value_type prop (pm_prop_name pm)))"

definition check_rebinding :: "binding \<Rightarrow> type_context \<Rightarrow> unit result" where
  "check_rebinding b ctx =
     (case hm_get (tc_bindings ctx) (b_variable b) of
        None \<Rightarrow> Inr ()
      | Some (VEdge type_name) \<Rightarrow>
          Inl (type_err (BindingErr (T23_rebind_edge (b_variable b) type_name (b_type_name b))))
      | Some (VNode type_name) \<Rightarrow>
          guard (type_name = b_type_name b)
            (type_err (BindingErr (AlreadyBound (b_variable b) type_name (b_type_name b)))))"

definition bind_variable :: "string \<Rightarrow> bound_variable \<Rightarrow> type_context \<Rightarrow> type_context" where
  "bind_variable v bv ctx = ctx\<lparr>tc_bindings := hm_insert v bv (tc_bindings ctx)\<rparr>"

definition typecheck_binding ::
    "catalog \<Rightarrow> param_types \<Rightarrow> binding \<Rightarrow> type_context \<Rightarrow> type_context result" where
  "typecheck_binding cat params b ctx =
     r_bind (ok_or (hm_get (cat_node_types cat) (b_type_name b))
              (type_err (BindingErr (T1_unknown_node_type (b_type_name b))))) (\<lambda>node_type.
     r_bind (r_each (check_prop_match (b_type_name b) node_type params) (b_prop_matches b)) (\<lambda>_.
     r_bind (check_rebinding b ctx) (\<lambda>_.
     Inr (bind_variable (b_variable b) (VNode (b_type_name b)) ctx))))"

section \<open>Traversals\<close>

definition check_hop_bounds :: "traversal \<Rightarrow> unit result" where
  "check_hop_bounds t =
     (if t_min_hops t = 0 then Inl (type_err (TraversalErr T15_min_hops))
      else case t_max_hops t of
             Some max_hops \<Rightarrow>
               guard (t_min_hops t \<le> max_hops)
                 (type_err (TraversalErr (T15_hop_bounds (t_min_hops t) max_hops)))
           | None \<Rightarrow> Inl (type_err (TraversalErr T15_unbounded)))"

definition bind_edge_variable ::
    "edge_type \<Rightarrow> traversal \<Rightarrow> type_context \<Rightarrow> type_context result" where
  "bind_edge_variable edge t ctx =
     r_bind (guard (\<not> (t_edge_binding t \<noteq> None \<and> (t_min_hops t \<noteq> 1 \<or> t_max_hops t \<noteq> Some 1)))
              (type_err (TraversalErr (T23_bounds
                (case t_edge_binding t of Some b \<Rightarrow> b | None \<Rightarrow> wildcard))))) (\<lambda>_.
     case named_edge_binding t of
       None \<Rightarrow> Inr ctx
     | Some b \<Rightarrow>
         if b = t_src t \<or> b = t_dst t
         then Inl (type_err (TraversalErr (T23_endpoint_name b)))
         else if hm_contains (tc_bindings ctx) b
         then Inl (type_err (TraversalErr (T23_already_bound b)))
         else Inr (bind_variable b (VEdge (et_name edge)) ctx))"

definition bind_traversal_endpoint ::
    "type_context \<Rightarrow> string \<Rightarrow> string \<Rightarrow> edge_type \<Rightarrow> type_context result" where
  "bind_traversal_endpoint ctx var expected_type edge =
     (if var = wildcard then Inr ctx
      else case hm_get (tc_bindings ctx) var of
             Some existing \<Rightarrow>
               r_bind (require_traversal_endpoint existing var) (\<lambda>existing_type.
               if existing_type \<noteq> expected_type
               then Inl (type_err (TraversalErr
                      (T5_endpoint_type var existing_type (et_name edge) expected_type)))
               else Inr ctx)
           | None \<Rightarrow> Inr (bind_variable var (VNode expected_type) ctx))"

definition not_an_endpoint :: "string \<Rightarrow> string \<Rightarrow> edge_type \<Rightarrow> fault" where
  "not_an_endpoint var ty edge = type_err (TraversalErr
     (T5_not_endpoint var ty (et_name edge) (et_from_type edge) (et_to_type edge)))"

text \<open>The direction follows from the endpoint that is bound first; the other one is bound to
  the type the edge has at its other end.\<close>

definition orient_traversal ::
    "edge_type \<Rightarrow> traversal \<Rightarrow> type_context \<Rightarrow> (direction \<times> type_context) result" where
  "orient_traversal edge t ctx =
     (case hm_get (tc_bindings ctx) (t_src t) of
        Some src_bv \<Rightarrow>
          r_bind (require_traversal_endpoint src_bv (t_src t)) (\<lambda>src_type.
          if src_type = et_from_type edge
          then r_bind (bind_traversal_endpoint ctx (t_dst t) (et_to_type edge) edge)
                 (\<lambda>ctx'. Inr (Out, ctx'))
          else if src_type = et_to_type edge
          then r_bind (bind_traversal_endpoint ctx (t_dst t) (et_from_type edge) edge)
                 (\<lambda>ctx'. Inr (In, ctx'))
          else Inl (not_an_endpoint (t_src t) src_type edge))
      | None \<Rightarrow>
          (case hm_get (tc_bindings ctx) (t_dst t) of
             Some dst_bv \<Rightarrow>
               r_bind (require_traversal_endpoint dst_bv (t_dst t)) (\<lambda>dst_type.
               if dst_type = et_to_type edge
               then r_bind (bind_traversal_endpoint ctx (t_src t) (et_from_type edge) edge)
                      (\<lambda>ctx'. Inr (Out, ctx'))
               else if dst_type = et_from_type edge
               then r_bind (bind_traversal_endpoint ctx (t_src t) (et_to_type edge) edge)
                      (\<lambda>ctx'. Inr (In, ctx'))
               else Inl (not_an_endpoint (t_dst t) dst_type edge))
           | None \<Rightarrow>
               r_bind (bind_traversal_endpoint ctx (t_src t) (et_from_type edge) edge) (\<lambda>ctx1.
               r_bind (bind_traversal_endpoint ctx1 (t_dst t) (et_to_type edge) edge) (\<lambda>ctx2.
               Inr (Out, ctx2)))))"

definition typecheck_traversal ::
    "catalog \<Rightarrow> traversal \<Rightarrow> type_context \<Rightarrow> type_context result" where
  "typecheck_traversal cat t ctx =
     r_bind (ok_or (lookup_edge_by_name cat (t_edge_name t))
              (type_err (TraversalErr (T4_unknown_edge (t_edge_name t))))) (\<lambda>edge.
     r_bind (check_hop_bounds t) (\<lambda>_.
     r_bind (guard (\<not> (t_undirected t \<and> et_from_type edge \<noteq> et_to_type edge))
              (type_err (TraversalErr
                (T22_asymmetric (et_name edge) (et_from_type edge) (et_to_type edge))))) (\<lambda>_.
     r_bind (bind_edge_variable edge t ctx) (\<lambda>ctx1.
     r_bind (orient_traversal edge t ctx1) (\<lambda>(dir, ctx2).
     Inr (ctx2\<lparr>tc_traversals := tc_traversals ctx2 @
       [\<lparr>rt_src = t_src t, rt_dst = t_dst t, rt_edge_type = et_name edge,
         rt_direction = (if t_undirected t then Both else dir),
         rt_min_hops = t_min_hops t, rt_max_hops = t_max_hops t,
         rt_edge_binding = named_edge_binding t\<rparr>]\<rparr>))))))"

section \<open>Filters\<close>

definition check_contains_filter :: "prop_type \<Rightarrow> prop_type \<Rightarrow> unit result" where
  "check_contains_filter l r =
     (if \<not> pt_list l \<and> pt_scalar l = SString
      then guard (\<not> pt_list r \<and> pt_scalar r = SString)
             (type_err (FilterErr (T7_string_contains_right r)))
      else if \<not> pt_list l then Inl (type_err (FilterErr (T7_contains_left l)))
      else if pt_list r then Inl (type_err (FilterErr T7_contains_right_list))
      else if is_vector (pt_scalar l) \<or> is_vector (pt_scalar r)
      then Inl (type_err (FilterErr T7_vector_membership))
      else guard (types_compatible (pt_of_scalar (pt_scalar l) (pt_nullable l)) r)
             (type_err (FilterErr (T7_member r l))))"

definition check_string_filter :: "comp_op \<Rightarrow> prop_type \<Rightarrow> prop_type \<Rightarrow> unit result" where
  "check_string_filter op l r =
     (if pt_list l \<or> pt_scalar l \<noteq> SString then Inl (type_err (FilterErr (T7_string_op_left op l)))
      else if pt_list r \<or> pt_scalar r \<noteq> SString
      then Inl (type_err (FilterErr (T7_string_op_right op r)))
      else Inr ())"

definition check_compare_filter :: "prop_type \<Rightarrow> prop_type \<Rightarrow> unit result" where
  "check_compare_filter l r =
     (if pt_list l \<or> pt_list r then Inl (type_err (FilterErr T7_list_comparison))
      else if is_vector (pt_scalar l) \<or> is_vector (pt_scalar r)
      then Inl (type_err (FilterErr T7_vector_comparison))
      else guard (types_compatible l r) (type_err (FilterErr (T7_compare l r))))"

definition check_filter_types :: "comp_op \<Rightarrow> resolved_type \<Rightarrow> resolved_type \<Rightarrow> unit result" where
  "check_filter_types op left_type right_type =
     (case (left_type, right_type) of
        (RScalar l, RScalar r) \<Rightarrow>
          if pt_scalar l = SBlob \<or> pt_scalar r = SBlob
          then Inl (type_err (FilterErr T7_blob_comparison))
          else if op = OpContains then check_contains_filter l r
          else if op = OpStartsWith \<or> op = OpStringContains then check_string_filter op l r
          else check_compare_filter l r
      | _ \<Rightarrow> Inl (type_err (FilterErr (T7_non_scalar left_type right_type))))"

definition typecheck_filter ::
    "catalog \<Rightarrow> param_types \<Rightarrow> filter_clause \<Rightarrow> type_context \<Rightarrow> unit result" where
  "typecheck_filter cat params f ctx =
     r_bind (resolve_expr_type cat (f_left f) ctx params) (\<lambda>left_type.
     r_bind (resolve_expr_type cat (f_right f) ctx params) (\<lambda>right_type.
     check_filter_types (f_op f) left_type right_type))"

section \<open>Clauses\<close>

fun clause_has_outer :: "string list \<Rightarrow> clause \<Rightarrow> bool" where
  "clause_has_outer outer_vars (CTraversal t) =
     (t_src t \<in> set outer_vars \<or> t_dst t \<in> set outer_vars)"
| "clause_has_outer outer_vars (CFilter f) =
     (expr_references_any (f_left f) outer_vars \<or> expr_references_any (f_right f) outer_vars)"
| "clause_has_outer outer_vars (CBinding b) = (b_variable b \<in> set outer_vars)"
| "clause_has_outer outer_vars (CNegation _) = False"

text \<open>A negation block is checked in a copy of the context, which is then dropped.\<close>

fun typecheck_clause ::
    "catalog \<Rightarrow> param_types \<Rightarrow> clause \<Rightarrow> type_context \<Rightarrow> type_context result" where
  "typecheck_clause cat params (CBinding b) ctx = typecheck_binding cat params b ctx"
| "typecheck_clause cat params (CTraversal t) ctx = typecheck_traversal cat t ctx"
| "typecheck_clause cat params (CFilter f) ctx =
     r_bind (typecheck_filter cat params f ctx) (\<lambda>_. Inr ctx)"
| "typecheck_clause cat params (CNegation inner) ctx =
     r_bind (r_fold (\<lambda>c. typecheck_clause cat params c) inner ctx) (\<lambda>_.
     r_bind (guard (list_ex (clause_has_outer (hm_keys (tc_bindings ctx))) inner)
              (type_err (BindingErr T9_negation))) (\<lambda>_.
     Inr ctx))"

definition typecheck_clauses ::
    "catalog \<Rightarrow> param_types \<Rightarrow> clause list \<Rightarrow> type_context \<Rightarrow> type_context result" where
  "typecheck_clauses cat params clauses ctx = r_fold (typecheck_clause cat params) clauses ctx"

section \<open>Queries\<close>

definition typecheck_projection ::
    "catalog \<Rightarrow> param_types \<Rightarrow> projection \<Rightarrow> type_context \<times> (string, expr) hmap \<Rightarrow>
     (type_context \<times> (string, expr) hmap) result" where
  "typecheck_projection cat params proj s =
     (case s of (ctx, alias_exprs) \<Rightarrow>
        r_bind (resolve_expr_type cat (proj_expr proj) ctx params) (\<lambda>resolved.
        r_bind (reject_blob_read_value resolved (proj_expr proj)) (\<lambda>_.
        case proj_alias proj of
          None \<Rightarrow> Inr (ctx, alias_exprs)
        | Some a \<Rightarrow>
            Inr (ctx\<lparr>tc_aliases := hm_insert a resolved (tc_aliases ctx)\<rparr>,
                 hm_insert a (proj_expr proj) alias_exprs))))"

definition typecheck_ordering ::
    "catalog \<Rightarrow> param_types \<Rightarrow> type_context \<Rightarrow> ordering \<Rightarrow> unit result" where
  "typecheck_ordering cat params ctx ord =
     r_bind (resolve_expr_type cat (ord_expr ord) ctx params) (\<lambda>resolved.
     reject_blob_read_value resolved (ord_expr ord))"

definition is_aggregate :: "expr \<Rightarrow> bool" where
  "is_aggregate e = (case e of Aggregate _ _ \<Rightarrow> True | _ \<Rightarrow> False)"

definition is_group_key :: "expr \<Rightarrow> bool" where
  "is_group_key e = (case e of PropAccess _ _ \<Rightarrow> True | Variable _ \<Rightarrow> True | _ \<Rightarrow> False)"

definition is_alias_ref :: "expr \<Rightarrow> bool" where
  "is_alias_ref e = (case e of AliasRef _ \<Rightarrow> True | _ \<Rightarrow> False)"

text \<open>The rules on ranked orderings (T21, T17, T18) and on aggregate queries (T9).\<close>

definition check_ranked_ordering :: "query_decl \<Rightarrow> (string, expr) hmap \<Rightarrow> unit result" where
  "check_ranked_ordering query alias_exprs =
     (let has_standalone_nearest =
            list_ex (\<lambda>ord. expr_contains_standalone_nearest_with_aliases (ord_expr ord) alias_exprs)
              (q_order_clause query);
          has_rrf =
            list_ex (\<lambda>ord. expr_contains_rrf_with_aliases (ord_expr ord) alias_exprs)
              (q_order_clause query)
      in if has_rrf \<and> q_limit query = None then Inl (type_err (QueryErr T21_rrf_limit))
         else if has_standalone_nearest \<and> q_limit query = None
         then Inl (type_err (QueryErr T17_nearest_limit))
         else if has_standalone_nearest \<and>
                 list_ex (\<lambda>ord. is_alias_ref (ord_expr ord)) (q_order_clause query)
         then Inl (type_err (QueryErr T18_alias_with_nearest))
         else Inr ())"

definition check_group_keys :: "query_decl \<Rightarrow> unit result" where
  "check_group_keys query =
     (if list_ex (\<lambda>p. is_aggregate (proj_expr p)) (q_return_clause query)
      then r_each (\<lambda>p. guard (is_aggregate (proj_expr p) \<or> is_group_key (proj_expr p))
                       (type_err (QueryErr T9_group_key))) (q_return_clause query)
      else Inr ())"

definition typecheck_read_query :: "catalog \<Rightarrow> query_decl \<Rightarrow> type_context result" where
  "typecheck_read_query cat query =
     r_bind (parse_declared_param_types (q_params query)) (\<lambda>params.
     r_bind (typecheck_clauses cat params (q_match_clause query) empty_ctx) (\<lambda>ctx1.
     r_bind (r_fold (typecheck_projection cat params) (q_return_clause query) (ctx1, hm_empty))
       (\<lambda>(ctx, alias_exprs).
     r_bind (r_each (typecheck_ordering cat params ctx) (q_order_clause query)) (\<lambda>_.
     r_bind (check_ranked_ordering query alias_exprs) (\<lambda>_.
     r_bind (check_group_keys query) (\<lambda>_.
     Inr ctx))))))"

definition typecheck_query :: "catalog \<Rightarrow> query_decl \<Rightarrow> type_context result" where
  "typecheck_query cat query =
     (if q_mutations query \<noteq> [] then Inl (type_err (QueryErr MutationWithReadApi))
      else typecheck_read_query cat query)"

datatype checked_query = CheckedRead type_context | CheckedMutation "mutation_target list"

definition typecheck_query_decl :: "catalog \<Rightarrow> query_decl \<Rightarrow> checked_query result" where
  "typecheck_query_decl cat query =
     (if q_mutations query \<noteq> []
      then r_bind (r_map (\<lambda>m. typecheck_mutation cat m (q_params query)) (q_mutations query))
             (\<lambda>targets. Inr (CheckedMutation targets))
      else r_bind (typecheck_read_query cat query) (\<lambda>ctx. Inr (CheckedRead ctx)))"

definition infer_query_result_schema ::
    "catalog \<Rightarrow> query_decl \<Rightarrow> type_context \<Rightarrow> arrow_field list result" where
  "infer_query_result_schema cat query ctx =
     r_bind (parse_declared_param_types (q_params query)) (\<lambda>params.
     r_map (\<lambda>proj. infer_projection_field cat (proj_expr proj) (proj_alias proj) ctx params)
       (q_return_clause query))"

section \<open>The invariant of the context\<close>

text \<open>The node types at the source and destination of a traversal, by its direction.\<close>

definition endpoint_types :: "edge_type \<Rightarrow> direction \<Rightarrow> string \<times> string" where
  "endpoint_types et dir =
     (if dir = In then (et_to_type et, et_from_type et) else (et_from_type et, et_to_type et))"

definition has_node_type :: "type_context \<Rightarrow> string \<Rightarrow> string \<Rightarrow> bool" where
  "has_node_type ctx v ty \<longleftrightarrow> v \<noteq> wildcard \<longrightarrow> hm_get (tc_bindings ctx) v = Some (VNode ty)"

definition edge_var_wf :: "type_context \<Rightarrow> resolved_traversal \<Rightarrow> bool" where
  "edge_var_wf ctx rt =
     (case rt_edge_binding rt of
        None \<Rightarrow> True
      | Some b \<Rightarrow> b \<noteq> wildcard \<and> b \<noteq> rt_src rt \<and> b \<noteq> rt_dst rt \<and>
          rt_min_hops rt = 1 \<and> rt_max_hops rt = Some 1 \<and>
          hm_get (tc_bindings ctx) b = Some (VEdge (rt_edge_type rt)))"

definition hops_wf :: "resolved_traversal \<Rightarrow> bool" where
  "hops_wf rt =
     (case rt_max_hops rt of
        None \<Rightarrow> False
      | Some m \<Rightarrow> 1 \<le> rt_min_hops rt \<and> rt_min_hops rt \<le> m)"

definition traversal_wf :: "catalog \<Rightarrow> type_context \<Rightarrow> resolved_traversal \<Rightarrow> bool" where
  "traversal_wf cat ctx rt =
     (case hm_get (cat_edge_types cat) (rt_edge_type rt) of
        None \<Rightarrow> False
      | Some et \<Rightarrow>
          hops_wf rt \<and> edge_var_wf ctx rt \<and>
          (rt_direction rt = Both \<longrightarrow> et_from_type et = et_to_type et) \<and>
          has_node_type ctx (rt_src rt) (fst (endpoint_types et (rt_direction rt))) \<and>
          has_node_type ctx (rt_dst rt) (snd (endpoint_types et (rt_direction rt))))"

definition ctx_wf :: "catalog \<Rightarrow> type_context \<Rightarrow> bool" where
  "ctx_wf cat ctx \<longleftrightarrow> hm_wf (tc_bindings ctx) \<and> bindings_wf cat ctx \<and> aliases_wf cat ctx \<and>
     list_all (traversal_wf cat ctx) (tc_traversals ctx)"

text \<open>What a step of the checker keeps: bindings, aliases and the traversals so far.\<close>

definition ctx_le :: "type_context \<Rightarrow> type_context \<Rightarrow> bool" where
  "ctx_le c d \<longleftrightarrow> map_extends (tc_bindings c) (tc_bindings d) \<and> tc_aliases d = tc_aliases c \<and>
     (\<exists>ts. tc_traversals d = tc_traversals c @ ts)"

lemma ctx_le_refl [simp]: "ctx_le c c"
  by (simp add: ctx_le_def)

lemma ctx_le_trans: "ctx_le a b \<Longrightarrow> ctx_le b c \<Longrightarrow> ctx_le a c"
  by (auto simp: ctx_le_def intro: map_extends_trans)

lemma ctx_le_get:
  "ctx_le c d \<Longrightarrow> hm_get (tc_bindings c) v = Some bv \<Longrightarrow> hm_get (tc_bindings d) v = Some bv"
  by (simp add: ctx_le_def map_extends_def)

lemma traversal_wf_mono:
  "ctx_le c d \<Longrightarrow> traversal_wf cat c rt \<Longrightarrow> traversal_wf cat d rt"
  by (auto simp: traversal_wf_def edge_var_wf_def has_node_type_def dest: ctx_le_get
      split: option.splits)

lemma bind_variable_sel [simp]:
  "tc_bindings (bind_variable v bv ctx) = hm_insert v bv (tc_bindings ctx)"
  "tc_aliases (bind_variable v bv ctx) = tc_aliases ctx"
  "tc_traversals (bind_variable v bv ctx) = tc_traversals ctx"
  by (simp_all add: bind_variable_def)

lemma bind_variable_le:
  "hm_get (tc_bindings ctx) v = None \<or> hm_get (tc_bindings ctx) v = Some bv \<Longrightarrow>
     ctx_le ctx (bind_variable v bv ctx)"
  by (auto simp: ctx_le_def map_extends_def)

lemma bind_variable_wf:
  assumes "ctx_wf cat ctx" and "binding_wf cat bv"
    and "hm_get (tc_bindings ctx) v = None \<or> hm_get (tc_bindings ctx) v = Some bv"
  shows "ctx_wf cat (bind_variable v bv ctx)"
  using assms traversal_wf_mono [OF bind_variable_le [OF assms(3)], of cat]
  by (auto simp: ctx_wf_def bindings_wf_def aliases_wf_def hm_wf_insert list_all_iff)

lemma typecheck_binding_step:
  assumes "ctx_wf cat ctx" and "typecheck_binding cat params b ctx = Inr ctx'"
  shows "ctx_wf cat ctx' \<and> ctx_le ctx ctx' \<and>
    hm_get (tc_bindings ctx') (b_variable b) = Some (VNode (b_type_name b))"
proof -
  from assms(2) have *: "hm_get (tc_bindings ctx) (b_variable b) = None \<or>
      hm_get (tc_bindings ctx) (b_variable b) = Some (VNode (b_type_name b))"
    and ctx': "ctx' = bind_variable (b_variable b) (VNode (b_type_name b)) ctx"
    and ty: "binding_wf cat (VNode (b_type_name b))"
    by (auto simp: typecheck_binding_def check_rebinding_def binding_wf_def hm_contains_def
        split: option.splits bound_variable.splits)
  then show ?thesis
    using bind_variable_wf [OF assms(1) ty *] bind_variable_le [OF *] by simp
qed

lemma require_traversal_endpoint_iff [simp]:
  "require_traversal_endpoint bv v = Inr ty \<longleftrightarrow> bv = VNode ty"
  by (cases bv) auto

lemma bind_traversal_endpoint_step:
  assumes "ctx_wf cat ctx" and "hm_contains (cat_node_types cat) ty"
    and "bind_traversal_endpoint ctx v ty edge = Inr ctx'"
  shows "ctx_wf cat ctx' \<and> ctx_le ctx ctx' \<and> has_node_type ctx' v ty \<and>
    tc_traversals ctx' = tc_traversals ctx"
  using assms bind_variable_wf [OF assms(1), of "VNode ty" v] bind_variable_le [of ctx v "VNode ty"]
  by (auto simp: bind_traversal_endpoint_def has_node_type_def binding_wf_def
      split: if_splits option.splits)

lemma bind_edge_variable_step:
  assumes "ctx_wf cat ctx" and "hm_get (cat_edge_types cat) (et_name edge) = Some edge"
    and "bind_edge_variable edge t ctx = Inr ctx'"
  shows "ctx_wf cat ctx' \<and> ctx_le ctx ctx' \<and> tc_traversals ctx' = tc_traversals ctx \<and>
    (\<forall>b. named_edge_binding t = Some b \<longrightarrow>
       b \<noteq> wildcard \<and> b \<noteq> t_src t \<and> b \<noteq> t_dst t \<and> t_min_hops t = 1 \<and> t_max_hops t = Some 1 \<and>
       hm_get (tc_bindings ctx') b = Some (VEdge (et_name edge)))"
proof (cases "named_edge_binding t")
  case None
  with assms show ?thesis by (auto simp: bind_edge_variable_def)
next
  case (Some b)
  then have named: "t_edge_binding t = Some b" "b \<noteq> wildcard"
    by (auto simp: named_edge_binding_def split: option.splits if_splits)
  from assms(3) Some named have "ctx' = bind_variable b (VEdge (et_name edge)) ctx"
    and fresh: "hm_get (tc_bindings ctx) b = None"
    and "b \<noteq> t_src t" "b \<noteq> t_dst t" "t_min_hops t = 1" "t_max_hops t = Some 1"
    by (auto simp: bind_edge_variable_def hm_contains_def split: if_splits)
  with Some named show ?thesis
    using bind_variable_wf [OF assms(1), of "VEdge (et_name edge)" b]
      bind_variable_le [of ctx b "VEdge (et_name edge)"] assms(2)
    by (simp add: binding_wf_def hm_contains_def)
qed

text \<open>Orientation binds both endpoints to the types the edge has at the two ends.\<close>

lemma has_node_type_mono: "ctx_le c d \<Longrightarrow> has_node_type c v ty \<Longrightarrow> has_node_type d v ty"
  by (auto simp: has_node_type_def dest: ctx_le_get)

lemma orient_traversal_step:
  assumes wf: "ctx_wf cat ctx" and ends: "hm_contains (cat_node_types cat) (et_from_type edge)"
      "hm_contains (cat_node_types cat) (et_to_type edge)"
    and res: "orient_traversal edge t ctx = Inr (dir, ctx')"
  shows "ctx_wf cat ctx' \<and> ctx_le ctx ctx' \<and> dir \<noteq> Both \<and>
    tc_traversals ctx' = tc_traversals ctx \<and>
    has_node_type ctx' (t_src t) (fst (endpoint_types edge dir)) \<and>
    has_node_type ctx' (t_dst t) (snd (endpoint_types edge dir))"
proof (cases "hm_get (tc_bindings ctx) (t_src t)")
  case (Some bv)
  then obtain ty where bv: "bv = VNode ty" using res by (auto simp: orient_traversal_def)
  with Some res obtain other where "bind_traversal_endpoint ctx (t_dst t) other edge = Inr ctx'"
    and dir: "(dir = Out \<and> ty = et_from_type edge \<and> other = et_to_type edge) \<or>
      (dir = In \<and> ty = et_to_type edge \<and> other = et_from_type edge)"
    by (auto simp: orient_traversal_def split: if_splits)
  moreover have "has_node_type ctx (t_src t) ty" using Some bv by (simp add: has_node_type_def)
  ultimately show ?thesis
    using bind_traversal_endpoint_step [OF wf] ends has_node_type_mono
    by (fastforce simp: endpoint_types_def)
next
  case src: None
  show ?thesis
  proof (cases "hm_get (tc_bindings ctx) (t_dst t)")
    case (Some bv)
    then obtain ty where bv: "bv = VNode ty" using res src by (auto simp: orient_traversal_def)
    with Some src res obtain other where "bind_traversal_endpoint ctx (t_src t) other edge = Inr ctx'"
      and dir: "(dir = Out \<and> ty = et_to_type edge \<and> other = et_from_type edge) \<or>
        (dir = In \<and> ty = et_from_type edge \<and> other = et_to_type edge)"
      by (auto simp: orient_traversal_def split: if_splits)
    moreover have "has_node_type ctx (t_dst t) ty" using Some bv by (simp add: has_node_type_def)
    ultimately show ?thesis
      using bind_traversal_endpoint_step [OF wf] ends has_node_type_mono
      by (fastforce simp: endpoint_types_def)
  next
    case None
    with src res obtain ctx1 where
      1: "bind_traversal_endpoint ctx (t_src t) (et_from_type edge) edge = Inr ctx1"
      and 2: "bind_traversal_endpoint ctx1 (t_dst t) (et_to_type edge) edge = Inr ctx'"
      and dir: "dir = Out"
      by (auto simp: orient_traversal_def)
    have s1: "ctx_wf cat ctx1 \<and> ctx_le ctx ctx1 \<and> has_node_type ctx1 (t_src t) (et_from_type edge)
        \<and> tc_traversals ctx1 = tc_traversals ctx"
      by (rule bind_traversal_endpoint_step [OF wf ends(1) 1])
    have "ctx_wf cat ctx' \<and> ctx_le ctx1 ctx' \<and> has_node_type ctx' (t_dst t) (et_to_type edge)
        \<and> tc_traversals ctx' = tc_traversals ctx1"
      using s1 by (intro bind_traversal_endpoint_step [OF _ ends(2) 2]) simp
    with s1 show ?thesis
      by (auto simp: dir endpoint_types_def intro: ctx_le_trans has_node_type_mono)
  qed
qed

lemma one_le_word: "1 \<le> (w :: u32) \<longleftrightarrow> w \<noteq> 0"
  by (simp add: word_le_nat_alt Suc_le_eq flip: unat_gt_0)

lemma check_hop_bounds_iff:
  "check_hop_bounds t = Inr u \<longleftrightarrow>
     (\<exists>m. t_max_hops t = Some m \<and> 1 \<le> t_min_hops t \<and> t_min_hops t \<le> m)"
  by (auto simp: check_hop_bounds_def one_le_word split: option.splits)

lemma typecheck_traversal_Inr:
  assumes "typecheck_traversal cat t ctx = Inr ctx'"
  shows "\<exists>edge ctx1 ctx2 dir. lookup_edge_by_name cat (t_edge_name t) = Some edge \<and>
    check_hop_bounds t = Inr () \<and>
    (t_undirected t \<longrightarrow> et_from_type edge = et_to_type edge) \<and>
    bind_edge_variable edge t ctx = Inr ctx1 \<and> orient_traversal edge t ctx1 = Inr (dir, ctx2) \<and>
    ctx' = ctx2\<lparr>tc_traversals := tc_traversals ctx2 @
      [\<lparr>rt_src = t_src t, rt_dst = t_dst t, rt_edge_type = et_name edge,
        rt_direction = (if t_undirected t then Both else dir),
        rt_min_hops = t_min_hops t, rt_max_hops = t_max_hops t,
        rt_edge_binding = named_edge_binding t\<rparr>]\<rparr>"
  using assms by (fastforce simp: typecheck_traversal_def split: prod.splits)

lemma push_traversal_wf:
  assumes "ctx_wf cat ctx" and "traversal_wf cat ctx rt"
  shows "ctx_wf cat (ctx\<lparr>tc_traversals := tc_traversals ctx @ [rt]\<rparr>) \<and>
    ctx_le ctx (ctx\<lparr>tc_traversals := tc_traversals ctx @ [rt]\<rparr>)"
proof -
  have le: "ctx_le ctx (ctx\<lparr>tc_traversals := tc_traversals ctx @ [rt]\<rparr>)" by (simp add: ctx_le_def)
  with assms traversal_wf_mono [OF le, of cat] show ?thesis
    by (auto simp: ctx_wf_def bindings_wf_def aliases_wf_def list_all_iff)
qed

lemma typecheck_traversal_step:
  assumes cat: "catalog_wf cat" and wf: "ctx_wf cat ctx"
    and res: "typecheck_traversal cat t ctx = Inr ctx'"
  shows "ctx_wf cat ctx' \<and> ctx_le ctx ctx'"
proof -
  obtain edge ctx1 ctx2 dir where edge: "lookup_edge_by_name cat (t_edge_name t) = Some edge"
    and hops: "check_hop_bounds t = Inr ()"
    and sym: "t_undirected t \<longrightarrow> et_from_type edge = et_to_type edge"
    and ev: "bind_edge_variable edge t ctx = Inr ctx1"
    and ori: "orient_traversal edge t ctx1 = Inr (dir, ctx2)"
    and ctx': "ctx' = ctx2\<lparr>tc_traversals := tc_traversals ctx2 @
      [\<lparr>rt_src = t_src t, rt_dst = t_dst t, rt_edge_type = et_name edge,
        rt_direction = (if t_undirected t then Both else dir),
        rt_min_hops = t_min_hops t, rt_max_hops = t_max_hops t,
        rt_edge_binding = named_edge_binding t\<rparr>]\<rparr>" (is "_ = ctx2\<lparr>tc_traversals := _ @ [?rt]\<rparr>")
    using typecheck_traversal_Inr [OF res] by blast
  note et = lookup_edge_by_name_wf [OF cat edge]
  note s1 = bind_edge_variable_step [OF wf et(1) ev]
  have s2: "ctx_wf cat ctx2 \<and> ctx_le ctx1 ctx2 \<and> dir \<noteq> Both \<and>
      tc_traversals ctx2 = tc_traversals ctx1 \<and>
      has_node_type ctx2 (t_src t) (fst (endpoint_types edge dir)) \<and>
      has_node_type ctx2 (t_dst t) (snd (endpoint_types edge dir))"
    using s1 by (intro orient_traversal_step [OF _ et(3,4) ori]) simp
  have "edge_var_wf ctx2 ?rt"
    using s1 s2 by (auto simp: edge_var_wf_def dest: ctx_le_get split: option.splits)
  moreover have "hops_wf ?rt" using hops by (auto simp: hops_wf_def check_hop_bounds_iff)
  ultimately have "traversal_wf cat ctx2 ?rt"
    using et(1) s2 sym by (auto simp: traversal_wf_def endpoint_types_def split: if_splits)
  from push_traversal_wf [OF _ this] s1 s2 show ?thesis
    unfolding ctx' by (blast intro: ctx_le_trans)
qed

lemma typecheck_clause_step:
  assumes "catalog_wf cat" and "ctx_wf cat ctx" and "typecheck_clause cat params c ctx = Inr ctx'"
  shows "ctx_wf cat ctx' \<and> ctx_le ctx ctx'"
  using assms typecheck_binding_step [OF assms(2)] typecheck_traversal_step [OF assms(1,2)]
  by (cases c) auto

text \<open>
  The checker of a clause list is a loop that keeps the invariant and only adds to the context.
  The catalog is fixed, so the contract is stated for catalogs that are well formed.
\<close>

definition checked_ctx :: "catalog \<Rightarrow> type_context \<Rightarrow> bool" where
  "checked_ctx cat ctx \<longleftrightarrow> catalog_wf cat \<and> ctx_wf cat ctx"

interpretation clauses: checked_loop "typecheck_clause cat params" "checked_ctx cat" ctx_le
  for cat params
  by unfold_locales
    (auto simp: checked_ctx_def dest: typecheck_clause_step intro: ctx_le_trans)

lemma empty_ctx_wf: "ctx_wf cat empty_ctx"
  by (simp add: ctx_wf_def empty_ctx_def bindings_wf_def aliases_wf_def)

lemma typecheck_clauses_wf:
  assumes "catalog_wf cat" and "ctx_wf cat ctx" and "typecheck_clauses cat params cs ctx = Inr ctx'"
  shows "ctx_wf cat ctx' \<and> ctx_le ctx ctx'"
  using clauses.loop_inv [of cat params cs ctx ctx'] clauses.loop_le [of cat params cs ctx ctx'] assms
  by (simp add: checked_ctx_def typecheck_clauses_def)

section \<open>The invariant of a read query\<close>

definition projected :: "catalog \<Rightarrow> param_types \<Rightarrow> type_context \<times> (string, expr) hmap \<Rightarrow> bool" where
  "projected cat params s \<longleftrightarrow> catalog_wf cat \<and> params_wf params \<and> ctx_wf cat (fst s)"

definition projected_le ::
    "type_context \<times> (string, expr) hmap \<Rightarrow> type_context \<times> (string, expr) hmap \<Rightarrow> bool" where
  "projected_le s t \<longleftrightarrow> tc_bindings (fst t) = tc_bindings (fst s) \<and>
     tc_traversals (fst t) = tc_traversals (fst s)"

lemma traversal_wf_bindings:
  "tc_bindings c = tc_bindings d \<Longrightarrow> traversal_wf cat c = traversal_wf cat d"
  by (rule ext) (auto simp: traversal_wf_def edge_var_wf_def has_node_type_def split: option.splits)

lemma typecheck_projection_step:
  assumes "projected cat params s" and "typecheck_projection cat params proj s = Inr t"
  shows "projected cat params t \<and> projected_le s t"
proof -
  obtain ctx al where s: "s = (ctx, al)" by (cases s)
  from assms(2) obtain r where r: "resolve_expr_type cat (proj_expr proj) ctx params = Inr r"
      "blob_free r"
    and t: "t = (case proj_alias proj of None \<Rightarrow> s
      | Some a \<Rightarrow> (ctx\<lparr>tc_aliases := hm_insert a r (tc_aliases ctx)\<rparr>, hm_insert a (proj_expr proj) al))"
    by (auto simp: typecheck_projection_def s split: option.splits)
  have wf: "catalog_wf cat" "params_wf params" "ctx_wf cat ctx"
    using assms(1) by (auto simp: projected_def s)
  then have "resolved_wf cat r" using resolve_wf [OF _ _ _ _ r(1)] by (simp add: ctx_wf_def)
  with wf r(2) have "ctx_wf cat (ctx\<lparr>tc_aliases := hm_insert a r (tc_aliases ctx)\<rparr>)" for a
    using traversal_wf_bindings [of "ctx\<lparr>tc_aliases := hm_insert a r (tc_aliases ctx)\<rparr>" ctx cat]
    by (simp add: ctx_wf_def bindings_wf_def aliases_wf_def)
  with wf show ?thesis by (auto simp: t s projected_def projected_le_def split: option.splits)
qed

interpretation projections: checked_loop "typecheck_projection cat params" "projected cat params"
    projected_le
  for cat params
  by unfold_locales (auto simp: projected_le_def dest: typecheck_projection_step)

lemma typecheck_read_query_Inr:
  assumes "typecheck_read_query cat query = Inr ctx"
  shows "\<exists>params ctx1 al. parse_declared_param_types (q_params query) = Inr params \<and>
    typecheck_clauses cat params (q_match_clause query) empty_ctx = Inr ctx1 \<and>
    r_fold (typecheck_projection cat params) (q_return_clause query) (ctx1, hm_empty) = Inr (ctx, al) \<and>
    (\<forall>ord \<in> set (q_order_clause query). typecheck_ordering cat params ctx ord = Inr ()) \<and>
    check_ranked_ordering query al = Inr () \<and> check_group_keys query = Inr ()"
  using assms by (fastforce simp: typecheck_read_query_def split: prod.splits)

lemma typecheck_read_query_wf:
  assumes cat: "catalog_wf cat"
    and params: "parse_declared_param_types (q_params query) = Inr params"
    and clauses: "typecheck_clauses cat params (q_match_clause query) empty_ctx = Inr ctx1"
    and projs: "r_fold (typecheck_projection cat params) (q_return_clause query) (ctx1, hm_empty)
      = Inr (ctx, al)"
  shows "ctx_wf cat ctx1" and "ctx_wf cat ctx" and "tc_bindings ctx = tc_bindings ctx1"
    and "tc_traversals ctx = tc_traversals ctx1" and "params_wf params"
proof -
  show p: "params_wf params" by (rule parse_declared_param_types_wf [OF params])
  show 1: "ctx_wf cat ctx1" using typecheck_clauses_wf [OF cat empty_ctx_wf clauses] by blast
  then have inv: "projected cat params (ctx1, hm_empty)" using cat p by (simp add: projected_def)
  from projections.loop_inv [OF projs inv] show "ctx_wf cat ctx" by (simp add: projected_def)
  from projections.loop_le [OF projs inv] show "tc_bindings ctx = tc_bindings ctx1"
    and "tc_traversals ctx = tc_traversals ctx1" by (simp_all add: projected_le_def)
qed

end
