(* ===== verification/IR.thy ===== *)
theory IR
  imports Query_Ast
begin

text \<open>
  The intermediate representation of queries and mutations
  (\<^verbatim>\<open>omnigraph-compiler/src/ir/mod.rs\<close>): a pipeline of scans, expansions, filters and
  anti-joins whose operators name variables of the query, and the views of a pipeline the
  lowering theorems speak about.
\<close>

datatype ir_expr =
    IPropAccess string string
  | INearest string string ir_expr
  | ISearch ir_expr ir_expr
  | IFuzzy ir_expr ir_expr "ir_expr option"
  | IMatchText ir_expr ir_expr
  | IBm25 ir_expr ir_expr
  | IRrf ir_expr ir_expr "ir_expr option"
  | IVariable string
  | IParam string
  | ILiteral literal
  | IAggregate agg_func ir_expr
  | IAliasRef string

record ir_filter =
  if_left :: ir_expr
  if_op :: comp_op
  if_right :: ir_expr

record expand_op =
  ex_src_var :: string
  ex_dst_var :: string
  ex_edge_type :: string
  ex_direction :: direction
  ex_dst_type :: string
  ex_min_hops :: u32
  ex_max_hops :: "u32 option"
  ex_dst_filters :: "ir_filter list"
  ex_edge_binding :: "string option"

datatype ir_op =
    NodeScan string string "ir_filter list"
  | Expand expand_op
  | IFilter ir_filter
  | AntiJoin string "ir_op list"

record ir_projection =
  ip_expr :: ir_expr
  ip_alias :: "string option"

record ir_ordering =
  io_expr :: ir_expr
  io_descending :: bool

record query_ir =
  qir_name :: string
  qir_params :: "param list"
  qir_pipeline :: "ir_op list"
  qir_return_exprs :: "ir_projection list"
  qir_order_by :: "ir_ordering list"
  qir_limit :: "u64 option"

record ir_assignment =
  ia_property :: string
  ia_value :: ir_expr

record ir_mutation_predicate =
  imp_property :: string
  imp_op :: comp_op
  imp_value :: ir_expr

datatype mutation_op_ir =
    InsertIR string "ir_assignment list"
  | UpdateIR string "ir_assignment list" ir_mutation_predicate
  | DeleteIR string ir_mutation_predicate

record mutation_ir =
  mir_name :: string
  mir_params :: "param list"
  mir_ops :: "mutation_op_ir list"

text \<open>The variable an operator introduces into the rows that flow past it.\<close>

fun op_introduces :: "ir_op \<Rightarrow> string list" where
  "op_introduces (NodeScan v _ _) = [v]"
| "op_introduces (Expand x) = [ex_dst_var x]"
| "op_introduces _ = []"

text \<open>
  A pipeline is scoped from a set of variables when every expansion starts from a variable that
  the rows already carry; an anti-join runs its inner pipeline from the same variables.
\<close>

fun scoped :: "string set \<Rightarrow> ir_op list \<Rightarrow> bool" and
    op_scoped :: "string set \<Rightarrow> ir_op \<Rightarrow> bool" where
  "scoped vs [] = True"
| "scoped vs (op # ops) = (op_scoped vs op \<and> scoped (vs \<union> set (op_introduces op)) ops)"
| "op_scoped vs (NodeScan _ _ _) = True"
| "op_scoped vs (Expand x) = (ex_src_var x \<in> vs)"
| "op_scoped vs (IFilter _) = True"
| "op_scoped vs (AntiJoin _ inner) = scoped vs inner"

lemma scoped_append:
  "scoped vs (xs @ ys) \<longleftrightarrow> scoped vs xs \<and> scoped (vs \<union> \<Union> (set ` op_introduces ` set xs)) ys"
  by (induction xs arbitrary: vs) (auto simp: Un_assoc)

lemma scoped_mono: "scoped vs ops \<Longrightarrow> vs \<subseteq> ws \<Longrightarrow> scoped ws ops"
  and op_scoped_mono: "op_scoped vs op \<Longrightarrow> vs \<subseteq> ws \<Longrightarrow> op_scoped ws op"
proof (induction vs ops and vs op arbitrary: ws and ws rule: scoped_op_scoped.induct)
  case (2 vs op ops)
  have "op_scoped ws op" using "2.IH"(1) "2.prems" by simp
  moreover have "scoped (ws \<union> set (op_introduces op)) ops"
    by (rule "2.IH"(2)) (use "2.prems" in auto)
  ultimately show ?case by simp
qed auto

end
