(* ===== verification/Lower.thy ===== *)
theory Lower
  imports Typecheck IR
begin

text \<open>
  Lowering of checked queries and mutations to the intermediate representation
  (\<^verbatim>\<open>omnigraph-compiler/src/ir/lower.rs\<close>). The bindings of a clause list that are connected by
  traversals share one scan: a breadth-first walk over the traversal graph picks the first
  binding of each component, the others wait for the expansion that reaches them. The
  traversals are then placed in passes until no pass makes progress, filters follow with the
  overloaded \<^verbatim>\<open>contains\<close> resolved, and negation blocks become anti-joins.
\<close>

section \<open>Expressions\<close>

definition lower_variable :: "string \<Rightarrow> string set \<Rightarrow> ir_expr" where
  "lower_variable v param_names = (if v \<in> param_names then IParam v else IVariable v)"

fun lower_expr :: "expr \<Rightarrow> string set \<Rightarrow> ir_expr" where
  "lower_expr Now ps = IParam NOW_PARAM_NAME"
| "lower_expr (PropAccess variable property) ps = IPropAccess variable property"
| "lower_expr (Nearest variable property query) ps =
     INearest variable property (lower_expr query ps)"
| "lower_expr (Search field query) ps = ISearch (lower_expr field ps) (lower_expr query ps)"
| "lower_expr (Fuzzy field query max_edits) ps =
     IFuzzy (lower_expr field ps) (lower_expr query ps)
       (case max_edits of None \<Rightarrow> None | Some e \<Rightarrow> Some (lower_expr e ps))"
| "lower_expr (MatchText field query) ps = IMatchText (lower_expr field ps) (lower_expr query ps)"
| "lower_expr (Bm25 field query) ps = IBm25 (lower_expr field ps) (lower_expr query ps)"
| "lower_expr (Rrf primary secondary k) ps =
     IRrf (lower_expr primary ps) (lower_expr secondary ps)
       (case k of None \<Rightarrow> None | Some e \<Rightarrow> Some (lower_expr e ps))"
| "lower_expr (Variable v) ps = lower_variable v ps"
| "lower_expr (Literal l) ps = ILiteral l"
| "lower_expr (Aggregate func arg) ps = IAggregate func (lower_expr arg ps)"
| "lower_expr (AliasRef name) ps = IAliasRef name"

definition lower_match_value :: "match_value \<Rightarrow> string set \<Rightarrow> ir_expr" where
  "lower_match_value value param_names =
     (case value of
        MVNow \<Rightarrow> IParam NOW_PARAM_NAME
      | MVLiteral l \<Rightarrow> ILiteral l
      | MVVariable v \<Rightarrow> lower_variable v param_names)"

fun expr_var :: "expr \<Rightarrow> string option" where
  "expr_var (PropAccess variable _) = Some variable"
| "expr_var (Variable v) = Some v"
| "expr_var (Nearest variable _ _) = Some variable"
| "expr_var (Search field query) =
     (case expr_var field of Some v \<Rightarrow> Some v | None \<Rightarrow> expr_var query)"
| "expr_var (Fuzzy field query max_edits) =
     (case expr_var field of
        Some v \<Rightarrow> Some v
      | None \<Rightarrow>
          (case expr_var query of
             Some v \<Rightarrow> Some v
           | None \<Rightarrow> (case max_edits of None \<Rightarrow> None | Some m \<Rightarrow> expr_var m)))"
| "expr_var (MatchText field query) =
     (case expr_var field of Some v \<Rightarrow> Some v | None \<Rightarrow> expr_var query)"
| "expr_var (Bm25 field query) =
     (case expr_var field of Some v \<Rightarrow> Some v | None \<Rightarrow> expr_var query)"
| "expr_var (Rrf primary secondary k) =
     (case expr_var primary of
        Some v \<Rightarrow> Some v
      | None \<Rightarrow>
          (case expr_var secondary of
             Some v \<Rightarrow> Some v
           | None \<Rightarrow> (case k of None \<Rightarrow> None | Some e \<Rightarrow> expr_var e)))"
| "expr_var (Aggregate _ arg) = expr_var arg"
| "expr_var _ = None"

section \<open>Mutations\<close>

definition lower_assignment :: "string set \<Rightarrow> mutation_assignment \<Rightarrow> ir_assignment" where
  "lower_assignment param_names a =
     \<lparr>ia_property = ma_property a, ia_value = lower_match_value (ma_value a) param_names\<rparr>"

definition lower_predicate :: "string set \<Rightarrow> mutation_predicate \<Rightarrow> ir_mutation_predicate" where
  "lower_predicate param_names p =
     \<lparr>imp_property = mp_property p, imp_op = mp_op p,
      imp_value = lower_match_value (mp_value p) param_names\<rparr>"

definition lower_single_mutation :: "mutation \<Rightarrow> string set \<Rightarrow> mutation_op_ir result" where
  "lower_single_mutation m param_names =
     (case m of
        MInsert im \<Rightarrow>
          Inr (InsertIR (im_type_name im) (map (lower_assignment param_names) (im_assignments im)))
      | MUpdate um \<Rightarrow>
          Inr (UpdateIR (um_type_name um) (map (lower_assignment param_names) (um_assignments um))
                (lower_predicate param_names (um_predicate um)))
      | MDelete dm \<Rightarrow>
          Inr (DeleteIR (dm_type_name dm) (lower_predicate param_names (dm_predicate dm))))"

definition lower_mutation_query :: "query_decl \<Rightarrow> mutation_ir result" where
  "lower_mutation_query query =
     (if q_mutations query = [] then Inl (plan_err NotAMutation)
      else
        let param_names = set (map prm_name (q_params query)) in
        r_bind (r_map (\<lambda>m. lower_single_mutation m param_names) (q_mutations query)) (\<lambda>ops.
        Inr \<lparr>mir_name = q_name query, mir_params = q_params query, mir_ops = ops\<rparr>))"

section \<open>Components of the traversal graph\<close>

text \<open>\<^verbatim>\<open>adj.entry(a).or_default().push(b)\<close>\<close>

definition push_neighbour ::
    "string \<Rightarrow> string \<Rightarrow> (string, string list) hmap \<Rightarrow> (string, string list) hmap" where
  "push_neighbour a b adj =
     hm_insert a ((case hm_get adj a of None \<Rightarrow> [] | Some ns \<Rightarrow> ns) @ [b]) adj"

definition add_adjacency ::
    "traversal \<Rightarrow> (string, string list) hmap \<Rightarrow> (string, string list) hmap" where
  "add_adjacency t adj =
     (if t_src t \<noteq> wildcard \<and> t_dst t \<noteq> wildcard
      then push_neighbour (t_dst t) (t_src t) (push_neighbour (t_src t) (t_dst t) adj)
      else adj)"

definition build_adjacency :: "traversal list \<Rightarrow> (string, string list) hmap" where
  "build_adjacency ts = fold add_adjacency ts hm_empty"

definition neighbours :: "(string, string list) hmap \<Rightarrow> string \<Rightarrow> string list" where
  "neighbours adj v = (case hm_get adj v of None \<Rightarrow> [] | Some ns \<Rightarrow> ns)"

definition adj_nodes :: "(string, string list) hmap \<Rightarrow> string set" where
  "adj_nodes adj = set (concat (map snd adj))"

text \<open>
  The queue loop: a variable already visited is skipped, a new one is recorded and its unvisited
  neighbours are queued. Each round visits a new variable or shortens the queue.
\<close>

function walk_component ::
    "(string, string list) hmap \<Rightarrow> string set \<Rightarrow> string list \<Rightarrow> string set \<Rightarrow> string list \<Rightarrow>
     string set \<times> string list" where
  "walk_component adj binding_set [] visited found = (visited, found)"
| "walk_component adj binding_set (var # queue) visited found =
     (if var \<in> visited then walk_component adj binding_set queue visited found
      else
        let visited' = insert var visited in
        walk_component adj binding_set
          (queue @ filter (\<lambda>n. n \<notin> visited') (neighbours adj var)) visited'
          (if var \<in> binding_set then found @ [var] else found))"
  by pat_completeness auto

lemma neighbours_in_nodes: "set (neighbours adj v) \<subseteq> adj_nodes adj"
  by (cases "hm_get adj v") (force simp: neighbours_def adj_nodes_def dest: hm_get_in_set)+

lemma unvisited_decreases:
  assumes "var \<notin> visited"
  shows "card ((set (queue @ filter P (neighbours adj var)) \<union> adj_nodes adj) - insert var visited)
       < card ((set (var # queue) \<union> adj_nodes adj) - visited)"
proof (rule psubset_card_mono)
  show "finite ((set (var # queue) \<union> adj_nodes adj) - visited)" by (simp add: adj_nodes_def)
  show "(set (queue @ filter P (neighbours adj var)) \<union> adj_nodes adj) - insert var visited
      \<subset> (set (var # queue) \<union> adj_nodes adj) - visited"
    using assms neighbours_in_nodes [of adj var] by auto
qed

lemma visited_shrinks:
  "var \<in> visited \<Longrightarrow>
     (set queue \<union> adj_nodes adj) - visited = (set (var # queue) \<union> adj_nodes adj) - visited"
  by auto

termination walk_component
proof (relation "measures
    [\<lambda>(adj, bs, queue, visited, found). card ((set queue \<union> adj_nodes adj) - visited),
     \<lambda>(adj, bs, queue, visited, found). length queue]")
  fix adj bs var queue and visited :: "string set" and found :: "string list"
  assume "var \<in> visited"
  then show "((adj, bs, queue, visited, found), adj, bs, var # queue, visited, found) \<in> measures
      [\<lambda>(adj, bs, queue, visited, found). card ((set queue \<union> adj_nodes adj) - visited),
       \<lambda>(adj, bs, queue, visited, found). length queue]"
    using visited_shrinks [of var visited queue adj] by simp
next
  fix adj var queue x and bs visited :: "string set" and found :: "string list"
  assume "var \<notin> visited" and "x = insert var visited"
  then show "((adj, bs, queue @ filter (\<lambda>n. n \<notin> x) (neighbours adj var), x,
        if var \<in> bs then found @ [var] else found), adj, bs, var # queue, visited, found) \<in> measures
      [\<lambda>(adj, bs, queue, visited, found). card ((set queue \<union> adj_nodes adj) - visited),
       \<lambda>(adj, bs, queue, visited, found). length queue]"
    using unvisited_decreases [of var visited queue "\<lambda>n. n \<notin> x" adj] by simp
qed simp

text \<open>One round of the outer loop: all bindings of the component but the first are deferred.\<close>

definition defer_component ::
    "(string, string list) hmap \<Rightarrow> string set \<Rightarrow> binding \<Rightarrow> string set \<times> string set \<Rightarrow>
     string set \<times> string set" where
  "defer_component adj binding_set b s =
     (case s of (deferred, visited) \<Rightarrow>
        if b_variable b \<in> visited then s
        else
          case walk_component adj binding_set [b_variable b] visited [] of
            (visited', found) \<Rightarrow> (deferred \<union> set (drop 1 found), visited'))"

definition deferred_bindings :: "binding list \<Rightarrow> traversal list \<Rightarrow> string set" where
  "deferred_bindings bindings traversals =
     fst (fold (defer_component (build_adjacency traversals) (set (map b_variable bindings)))
            bindings ({}, {}))"

section \<open>Bindings\<close>

record lower_state =
  ls_pipeline :: "ir_op list"
  ls_bound :: "string set"
  ls_deferred :: "(string, ir_filter list) hmap"

definition emit :: "ir_op \<Rightarrow> lower_state \<Rightarrow> lower_state" where
  "emit op s = s\<lparr>ls_pipeline := ls_pipeline s @ [op]\<rparr>"

definition mark_bound :: "string \<Rightarrow> lower_state \<Rightarrow> lower_state" where
  "mark_bound v s = s\<lparr>ls_bound := insert v (ls_bound s)\<rparr>"

text \<open>\<^verbatim>\<open>expect\<close> on the property of a match is a panic.\<close>

definition binding_filter ::
    "binding \<Rightarrow> node_type \<Rightarrow> string set \<Rightarrow> prop_match \<Rightarrow> ir_filter result" where
  "binding_filter b node_type param_names pm =
     r_bind (ok_or (hm_get (nt_properties node_type) (pm_prop_name pm))
              (Panic BindingPropertyMissing)) (\<lambda>prop.
     Inr \<lparr>if_left = IPropAccess (b_variable b) (pm_prop_name pm),
          if_op = (if pt_list prop then OpContains else OpEq),
          if_right = lower_match_value (pm_value pm) param_names\<rparr>)"

definition build_binding_filters ::
    "binding \<Rightarrow> node_type \<Rightarrow> string set \<Rightarrow> ir_filter list result" where
  "build_binding_filters b node_type param_names =
     r_map (binding_filter b node_type param_names) (b_prop_matches b)"

definition lower_binding ::
    "catalog \<Rightarrow> string set \<Rightarrow> string set \<Rightarrow> binding \<Rightarrow> lower_state \<Rightarrow> lower_state result" where
  "lower_binding cat param_names deferred_set b s =
     r_bind (ok_or (hm_get (cat_node_types cat) (b_type_name b)) (Panic BindingTypeMissing))
       (\<lambda>node_type.
     r_bind (build_binding_filters b node_type param_names) (\<lambda>fs.
     if b_variable b \<in> deferred_set
     then Inr (if fs \<noteq> []
               then s\<lparr>ls_deferred := hm_insert (b_variable b) fs (ls_deferred s)\<rparr> else s)
     else Inr (mark_bound (b_variable b) (emit (NodeScan (b_variable b) (b_type_name b) fs) s))))"

section \<open>Traversals\<close>

definition traversal_direction :: "type_context \<Rightarrow> traversal \<Rightarrow> edge_type \<Rightarrow> direction" where
  "traversal_direction type_ctx t edge =
     (if t_undirected t then Both
      else
        case find (\<lambda>rt. rt_src rt = t_src t \<and> rt_dst rt = t_dst t \<and>
                        rt_edge_type rt = et_name edge) (tc_traversals type_ctx) of
          Some rt \<Rightarrow> rt_direction rt
        | None \<Rightarrow> Out)"

fun reverse_direction :: "direction \<Rightarrow> direction" where
  "reverse_direction Out = In"
| "reverse_direction In = Out"
| "reverse_direction Both = Both"

definition dst_end :: "edge_type \<Rightarrow> direction \<Rightarrow> string" where
  "dst_end edge dir = (if dir = In then et_from_type edge else et_to_type edge)"

definition src_end :: "edge_type \<Rightarrow> direction \<Rightarrow> string" where
  "src_end edge dir = (if dir = In then et_to_type edge else et_from_type edge)"

definition temp_var :: "string \<Rightarrow> string" where
  "temp_var v = ''__temp_'' @ v"

text \<open>Both endpoints are bound: expand into a temporary variable and compare the ids.\<close>

definition close_cycle :: "edge_type \<Rightarrow> direction \<Rightarrow> traversal \<Rightarrow> lower_state \<Rightarrow> lower_state" where
  "close_cycle edge dir t s =
     emit (IFilter \<lparr>if_left = IPropAccess (temp_var (t_dst t)) ''id'', if_op = OpEq,
                    if_right = IPropAccess (t_dst t) ''id''\<rparr>)
      (emit (Expand \<lparr>ex_src_var = t_src t, ex_dst_var = temp_var (t_dst t),
                     ex_edge_type = et_name edge, ex_direction = dir,
                     ex_dst_type = dst_end edge dir,
                     ex_min_hops = t_min_hops t, ex_max_hops = t_max_hops t,
                     ex_dst_filters = [], ex_edge_binding = named_edge_binding t\<rparr>) s)"

text \<open>One endpoint is bound: the expansion introduces the other and takes its filters.\<close>

definition expand_to ::
    "edge_type \<Rightarrow> traversal \<Rightarrow> string \<Rightarrow> string \<Rightarrow> direction \<Rightarrow> string \<Rightarrow> lower_state \<Rightarrow>
     lower_state" where
  "expand_to edge t from to dir to_type s =
     (let fs = (case hm_get (ls_deferred s) to of None \<Rightarrow> [] | Some fs \<Rightarrow> fs);
          s1 = emit (Expand \<lparr>ex_src_var = from, ex_dst_var = to,
                     ex_edge_type = et_name edge, ex_direction = dir, ex_dst_type = to_type,
                     ex_min_hops = t_min_hops t, ex_max_hops = t_max_hops t,
                     ex_dst_filters = fs, ex_edge_binding = named_edge_binding t\<rparr>)
                 (s\<lparr>ls_deferred := hm_remove to (ls_deferred s)\<rparr>)
      in if to \<noteq> wildcard then mark_bound to s1 else s1)"

definition lower_traversal ::
    "catalog \<Rightarrow> type_context \<Rightarrow> traversal \<Rightarrow> lower_state \<times> traversal list \<Rightarrow>
     (lower_state \<times> traversal list) result" where
  "lower_traversal cat type_ctx t sn =
     (case sn of (s, next_remaining) \<Rightarrow>
        let src_bound = t_src t \<in> ls_bound s; dst_bound = t_dst t \<in> ls_bound s in
        if \<not> src_bound \<and> \<not> dst_bound then Inr (s, next_remaining @ [t])
        else
          r_bind (ok_or (lookup_edge_by_name cat (t_edge_name t))
                   (plan_err (MissingEdge (t_edge_name t)))) (\<lambda>edge.
          let dir = traversal_direction type_ctx t edge in
          Inr (if src_bound \<and> dst_bound then close_cycle edge dir t s
               else if \<not> src_bound
               then expand_to edge t (t_dst t) (t_src t) (reverse_direction dir)
                      (src_end edge dir) s
               else expand_to edge t (t_src t) (t_dst t) dir (dst_end edge dir) s,
               next_remaining)))"

definition lower_pass ::
    "catalog \<Rightarrow> type_context \<Rightarrow> traversal list \<Rightarrow> lower_state \<Rightarrow>
     (lower_state \<times> traversal list) result" where
  "lower_pass cat type_ctx remaining s = r_fold (lower_traversal cat type_ctx) remaining (s, [])"

lemma lower_traversal_length:
  "lower_traversal cat type_ctx t (s, next) = Inr (s', next') \<Longrightarrow>
     length next' \<le> Suc (length next)"
  by (auto simp: lower_traversal_def Let_def split: if_splits)

lemma lower_pass_length:
  "r_fold (lower_traversal cat type_ctx) ts (s, next) = Inr (s', next') \<Longrightarrow>
     length next' \<le> length next + length ts"
proof (induction ts arbitrary: s "next")
  case (Cons t ts)
  then obtain s1 n1 where 1: "lower_traversal cat type_ctx t (s, next) = Inr (s1, n1)"
    and 2: "r_fold (lower_traversal cat type_ctx) ts (s1, n1) = Inr (s', next')" by auto
  show ?case using Cons.IH [OF 2] lower_traversal_length [OF 1] by simp
qed simp

text \<open>Passes are repeated until one makes no progress; what remains then is given up.\<close>

function lower_traversals ::
    "catalog \<Rightarrow> type_context \<Rightarrow> traversal list \<Rightarrow> lower_state \<Rightarrow> lower_state result" where
  "lower_traversals cat type_ctx remaining s =
     (if remaining = [] then Inr s
      else r_bind (lower_pass cat type_ctx remaining s) (\<lambda>(s', next_remaining).
        if length next_remaining = length remaining then Inr s'
        else lower_traversals cat type_ctx next_remaining s'))"
  by pat_completeness auto

termination lower_traversals
  by (relation "measure (\<lambda>(cat, type_ctx, remaining, s). length remaining)")
    (auto simp: lower_pass_def dest!: lower_pass_length)

declare lower_traversals.simps [simp del]

text \<open>For evaluation, the equation is split by the shape of the list.\<close>

lemma lower_traversals_code [code]:
  "lower_traversals cat type_ctx [] s = Inr s"
  "lower_traversals cat type_ctx (t # ts) s =
     r_bind (lower_pass cat type_ctx (t # ts) s) (\<lambda>(s', next_remaining).
       if length next_remaining = length (t # ts) then Inr s'
       else lower_traversals cat type_ctx next_remaining s')"
  by (simp_all add: lower_traversals.simps)

section \<open>Filters\<close>

definition is_scalar_string :: "prop_type \<Rightarrow> bool" where
  "is_scalar_string p \<longleftrightarrow> \<not> pt_list p \<and> pt_scalar p = SString"

definition is_scalar_string_property :: "catalog \<Rightarrow> bound_variable \<Rightarrow> string \<Rightarrow> bool" where
  "is_scalar_string_property cat bv property =
     (case (case bv of
              VNode type_name \<Rightarrow>
                Option.bind (hm_get (cat_node_types cat) type_name)
                  (\<lambda>nt. hm_get (nt_properties nt) property)
            | VEdge type_name \<Rightarrow>
                Option.bind (lookup_edge_by_name cat type_name)
                  (\<lambda>et. hm_get (et_properties et) property)) of
        None \<Rightarrow> False
      | Some p \<Rightarrow> is_scalar_string p)"

definition add_local_traversal ::
    "catalog \<Rightarrow> traversal \<Rightarrow> (string, bound_variable) hmap \<Rightarrow> (string, bound_variable) hmap" where
  "add_local_traversal cat t local =
     (case lookup_edge_by_name cat (t_edge_name t) of
        None \<Rightarrow> local
      | Some edge \<Rightarrow>
          let l1 = hm_or_insert (t_src t) (VNode (et_from_type edge)) local;
              l2 = hm_or_insert (t_dst t) (VNode (et_to_type edge)) l1
          in case t_edge_binding t of
               None \<Rightarrow> l2
             | Some eb \<Rightarrow> hm_or_insert eb (VEdge (et_name edge)) l2)"

definition local_bindings ::
    "catalog \<Rightarrow> traversal list \<Rightarrow> binding list \<Rightarrow> (string, bound_variable) hmap" where
  "local_bindings cat traversals bindings =
     fold (\<lambda>b. hm_insert (b_variable b) (VNode (b_type_name b))) bindings
       (fold (add_local_traversal cat) traversals hm_empty)"

definition left_is_scalar_string ::
    "catalog \<Rightarrow> type_context \<Rightarrow> param_types \<Rightarrow> (string, bound_variable) hmap \<Rightarrow> expr \<Rightarrow> bool" where
  "left_is_scalar_string cat type_ctx param_types local e =
     (case e of
        PropAccess variable property \<Rightarrow>
          (case (case hm_get local variable of
                   Some bv \<Rightarrow> Some bv
                 | None \<Rightarrow> hm_get (tc_bindings type_ctx) variable) of
             None \<Rightarrow> False
           | Some bv \<Rightarrow> is_scalar_string_property cat bv property)
      | Literal (LString _) \<Rightarrow> True
      | Variable v \<Rightarrow>
          (case hm_get param_types v of None \<Rightarrow> False | Some t \<Rightarrow> is_scalar_string t)
      | _ \<Rightarrow> False)"

definition resolve_filter_op ::
    "catalog \<Rightarrow> type_context \<Rightarrow> param_types \<Rightarrow> (string, bound_variable) hmap \<Rightarrow> filter_clause \<Rightarrow>
     comp_op" where
  "resolve_filter_op cat type_ctx param_types local f =
     (if f_op f \<noteq> OpContains then f_op f
      else if left_is_scalar_string cat type_ctx param_types local (f_left f)
      then OpStringContains else OpContains)"

definition lower_filter ::
    "catalog \<Rightarrow> type_context \<Rightarrow> string set \<Rightarrow> param_types \<Rightarrow> (string, bound_variable) hmap \<Rightarrow>
     filter_clause \<Rightarrow> ir_op" where
  "lower_filter cat type_ctx param_names param_types local f =
     IFilter \<lparr>if_left = lower_expr (f_left f) param_names,
              if_op = resolve_filter_op cat type_ctx param_types local f,
              if_right = lower_expr (f_right f) param_names\<rparr>"

section \<open>Clauses\<close>

definition bindings_of :: "clause list \<Rightarrow> binding list" where
  "bindings_of cs = List.map_filter (\<lambda>c. case c of CBinding b \<Rightarrow> Some b | _ \<Rightarrow> None) cs"

definition traversals_of :: "clause list \<Rightarrow> traversal list" where
  "traversals_of cs = List.map_filter (\<lambda>c. case c of CTraversal t \<Rightarrow> Some t | _ \<Rightarrow> None) cs"

definition filters_of :: "clause list \<Rightarrow> filter_clause list" where
  "filters_of cs = List.map_filter (\<lambda>c. case c of CFilter f \<Rightarrow> Some f | _ \<Rightarrow> None) cs"

definition negations_of :: "clause list \<Rightarrow> clause list list" where
  "negations_of cs = List.map_filter (\<lambda>c. case c of CNegation n \<Rightarrow> Some n | _ \<Rightarrow> None) cs"

definition bound_expr_var :: "expr \<Rightarrow> string set \<Rightarrow> string option" where
  "bound_expr_var e outer =
     (case expr_var e of None \<Rightarrow> None | Some v \<Rightarrow> if v \<in> outer then Some v else None)"

definition clause_outer_var :: "clause \<Rightarrow> string set \<Rightarrow> string option" where
  "clause_outer_var c outer =
     (case c of
        CTraversal t \<Rightarrow>
          if t_src t \<in> outer then Some (t_src t)
          else if t_dst t \<in> outer then Some (t_dst t) else None
      | CFilter f \<Rightarrow>
          (case bound_expr_var (f_left f) outer of
             Some v \<Rightarrow> Some v
           | None \<Rightarrow> bound_expr_var (f_right f) outer)
      | CBinding b \<Rightarrow> if b_variable b \<in> outer then Some (b_variable b) else None
      | CNegation _ \<Rightarrow> None)"

fun find_outer_var :: "clause list \<Rightarrow> string set \<Rightarrow> string option" where
  "find_outer_var [] outer = None"
| "find_outer_var (c # cs) outer =
     (case clause_outer_var c outer of Some v \<Rightarrow> Some v | None \<Rightarrow> find_outer_var cs outer)"

text \<open>The part of a clause list before its negation blocks.\<close>

definition lower_flat ::
    "catalog \<Rightarrow> type_context \<Rightarrow> string set \<Rightarrow> param_types \<Rightarrow> clause list \<Rightarrow> string set \<Rightarrow>
     lower_state result" where
  "lower_flat cat type_ctx param_names param_types clauses bound_vars =
     (let bs = bindings_of clauses; ts = traversals_of clauses in
      r_bind (r_fold (lower_binding cat param_names (deferred_bindings bs ts)) bs
               \<lparr>ls_pipeline = [], ls_bound = bound_vars, ls_deferred = hm_empty\<rparr>) (\<lambda>s1.
      r_bind (lower_traversals cat type_ctx ts s1) (\<lambda>s2.
      Inr (s2\<lparr>ls_pipeline := ls_pipeline s2 @
        map (lower_filter cat type_ctx param_names param_types (local_bindings cat ts bs))
          (filters_of clauses)\<rparr>))))"

lemma negations_smaller:
  "n \<in> set (negations_of cs) \<Longrightarrow> size_list size n < size_list size cs"
proof (induction cs)
  case (Cons c cs)
  then show ?case
    by (cases c) (auto simp: negations_of_def map_filter_simps)
qed (simp add: negations_of_def map_filter_simps)

text \<open>
  A clause list appends its operators to the pipeline and extends the bound variables; the
  inner pipeline of a negation block starts empty from the variables bound so far.
\<close>

function lower_clauses ::
    "catalog \<Rightarrow> type_context \<Rightarrow> string set \<Rightarrow> param_types \<Rightarrow> clause list \<Rightarrow> string set \<Rightarrow>
     (ir_op list \<times> string set) result" where
  "lower_clauses cat type_ctx param_names param_types clauses bound_vars =
     r_bind (lower_flat cat type_ctx param_names param_types clauses bound_vars) (\<lambda>s.
     r_bind (r_map (\<lambda>neg.
               r_bind (lower_clauses cat type_ctx param_names param_types neg (ls_bound s))
                 (\<lambda>(inner, _).
               Inr (AntiJoin (case find_outer_var neg (ls_bound s) of Some v \<Rightarrow> v | None \<Rightarrow> [])
                      inner))) (negations_of clauses)) (\<lambda>joins.
     Inr (ls_pipeline s @ joins, ls_bound s)))"
  by pat_completeness auto

termination lower_clauses
  by (relation "measure (\<lambda>(cat, type_ctx, pn, pt, clauses, bound). size_list size clauses)")
    (auto simp: negations_smaller)

declare lower_clauses.simps [simp del]

lemma lower_clauses_Nil:
  "lower_clauses cat type_ctx param_names param_types [] bound_vars = Inr ([], bound_vars)"
  by (subst lower_clauses.simps)
    (simp add: lower_flat_def bindings_of_def traversals_of_def filters_of_def negations_of_def
      map_filter_simps lower_traversals.simps)

lemmas lower_clauses_code [code] =
  lower_clauses_Nil
  lower_clauses.simps [of cat type_ctx param_names param_types "c # cs" bound_vars
    for cat type_ctx param_names param_types c cs bound_vars]

section \<open>Queries\<close>

definition lower_param_types :: "param list \<Rightarrow> param_types" where
  "lower_param_types params =
     fold (\<lambda>p m. case from_param_type_name (prm_type_name p) (prm_nullable p) of
            None \<Rightarrow> m
          | Some t \<Rightarrow> hm_insert (prm_name p) t m) params hm_empty"

definition lower_query :: "catalog \<Rightarrow> query_decl \<Rightarrow> type_context \<Rightarrow> query_ir result" where
  "lower_query cat query type_ctx =
     (if q_mutations query \<noteq> [] then Inl (plan_err NotAReadQuery)
      else
        let param_names = set (map prm_name (q_params query)) in
        r_bind (lower_clauses cat type_ctx param_names (lower_param_types (q_params query))
                  (q_match_clause query) {}) (\<lambda>(pipeline, _).
        Inr \<lparr>qir_name = q_name query, qir_params = q_params query, qir_pipeline = pipeline,
             qir_return_exprs =
               map (\<lambda>p. \<lparr>ip_expr = lower_expr (proj_expr p) param_names, ip_alias = proj_alias p\<rparr>)
                 (q_return_clause query),
             qir_order_by =
               map (\<lambda>d. \<lparr>io_expr = lower_expr (ord_expr d) param_names,
                         io_descending = ord_descending d\<rparr>) (q_order_clause query),
             qir_limit = q_limit query\<rparr>))"

end
