(* ===== verification/Lower_Facts.thy ===== *)
theory Lower_Facts
  imports Lower
begin

text \<open>
  Facts about the lowering: the component walk against reachability in the traversal graph,
  which bindings are deferred, and what the placement of scans and expansions does to the
  pipeline and to the set of bound variables.
\<close>

section \<open>The traversal graph\<close>

definition adjacent :: "traversal list \<Rightarrow> string \<Rightarrow> string \<Rightarrow> bool" where
  "adjacent ts a b \<longleftrightarrow>
     (\<exists>t \<in> set ts. t_src t \<noteq> wildcard \<and> t_dst t \<noteq> wildcard \<and>
        (a = t_src t \<and> b = t_dst t \<or> a = t_dst t \<and> b = t_src t))"

abbreviation connected :: "traversal list \<Rightarrow> string \<Rightarrow> string \<Rightarrow> bool" where
  "connected ts \<equiv> (adjacent ts)\<^sup>*\<^sup>*"

lemma neighbours_push:
  "set (neighbours (push_neighbour a b adj) v) =
     set (neighbours adj v) \<union> (if v = a then {b} else {})"
  by (auto simp: neighbours_def push_neighbour_def split: option.splits)

lemma neighbours_fold:
  "b \<in> set (neighbours (fold add_adjacency ts adj) a) \<longleftrightarrow>
     b \<in> set (neighbours adj a) \<or> adjacent ts a b"
proof (induction ts arbitrary: adj)
  case (Cons t ts)
  have "b \<in> set (neighbours (add_adjacency t adj) a) \<longleftrightarrow>
      b \<in> set (neighbours adj a) \<or> adjacent [t] a b"
    by (auto simp: add_adjacency_def neighbours_push adjacent_def split: if_splits)
  moreover have "adjacent (t # ts) a b \<longleftrightarrow> adjacent [t] a b \<or> adjacent ts a b"
    by (auto simp: adjacent_def)
  ultimately show ?case by (auto simp: Cons.IH)
qed (simp add: adjacent_def)

lemma neighbours_build: "b \<in> set (neighbours (build_adjacency ts) a) \<longleftrightarrow> adjacent ts a b"
  by (simp add: build_adjacency_def neighbours_fold) (simp add: neighbours_def)

section \<open>The component walk\<close>

text \<open>
  What a run adds: a list of new binding variables, in the order they are reached, and only
  variables connected to the queue; the walk ends with a set closed under adjacency when it
  starts from one, up to the queue.
\<close>

lemma walk_component_found:
  assumes "walk_component adj bs queue visited found = (visited', found')"
  shows "visited \<subseteq> visited' \<and> set queue \<subseteq> visited' \<and>
    (\<exists>new. found' = found @ new \<and> distinct new \<and> set new = (visited' - visited) \<inter> bs)"
  using assms
proof (induction adj bs queue visited found rule: walk_component.induct)
  case (2 adj bs var queue visited found)
  show ?case
  proof (cases "var \<in> visited")
    case True
    with "2.prems" have run: "walk_component adj bs queue visited found = (visited', found')"
      by simp
    show ?thesis using "2.IH"(1) [OF True run] True by auto
  next
    case False
    let ?found = "if var \<in> bs then found @ [var] else found"
    from False "2.prems" have run: "walk_component adj bs
        (queue @ filter (\<lambda>n. n \<notin> insert var visited) (neighbours adj var)) (insert var visited) ?found
        = (visited', found')"
      by (simp add: Let_def)
    obtain new where sub: "insert var visited \<subseteq> visited'" "set queue \<subseteq> visited'"
      and new: "found' = ?found @ new" "distinct new"
        "set new = (visited' - insert var visited) \<inter> bs"
      using "2.IH"(2) [OF False refl run] by auto
    show ?thesis
    proof (cases "var \<in> bs")
      case True
      then have "found' = found @ (var # new)" "distinct (var # new)"
          "set (var # new) = (visited' - visited) \<inter> bs"
        using new sub False by auto
      then have "\<exists>new. found' = found @ new \<and> distinct new \<and> set new = (visited' - visited) \<inter> bs"
        by (intro exI [of _ "var # new"] conjI)
      then show ?thesis using sub by simp
    next
      case not_bs: False
      then have "found' = found @ new" "set new = (visited' - visited) \<inter> bs"
        using new sub False by auto
      then show ?thesis using sub new(2) by auto
    qed
  qed
qed simp

lemma walk_component_first:
  assumes "walk_component adj bs [r] visited [] = (visited', found)" and "r \<notin> visited" "r \<in> bs"
  shows "\<exists>new. found = r # new"
proof -
  have run: "walk_component adj bs (filter (\<lambda>n. n \<notin> insert r visited) (neighbours adj r))
      (insert r visited) [r] = (visited', found)"
    using assms(1) unfolding walk_component.simps(2) Let_def if_not_P [OF assms(2)] if_P [OF assms(3)]
    by simp
  show ?thesis using walk_component_found [OF run] by auto
qed

lemma walk_component_reaches:
  assumes "walk_component (build_adjacency ts) bs queue visited found = (visited', found')"
  shows "\<forall>v \<in> visited' - visited. \<exists>q \<in> set queue. connected ts q v"
  using assms
proof (induction "build_adjacency ts" bs queue visited found rule: walk_component.induct)
  case (2 bs var queue visited found)
  show ?case
  proof (cases "var \<in> visited")
    case True
    with "2.prems" have run:
        "walk_component (build_adjacency ts) bs queue visited found = (visited', found')"
      by simp
    show ?thesis using "2.hyps"(1) [OF True run] by auto
  next
    case False
    let ?q = "queue @ filter (\<lambda>n. n \<notin> insert var visited) (neighbours (build_adjacency ts) var)"
    from False "2.prems" have run: "walk_component (build_adjacency ts) bs ?q (insert var visited)
        (if var \<in> bs then found @ [var] else found) = (visited', found')"
      by (simp add: Let_def)
    have ih: "\<exists>q \<in> set ?q. connected ts q v" if "v \<in> visited' - insert var visited" for v
      using "2.hyps"(2) [OF False refl run] that by blast
    show ?thesis
    proof
      fix v
      assume v: "v \<in> visited' - visited"
      show "\<exists>q \<in> set (var # queue). connected ts q v"
      proof (cases "v = var")
        case True
        then show ?thesis by auto
      next
        case False
        then obtain q where "q \<in> set ?q" "connected ts q v" using ih v by auto
        then show ?thesis
          by (auto simp: neighbours_build intro: converse_rtranclp_into_rtranclp)
      qed
    qed
  qed
qed simp

lemma walk_component_closed:
  assumes "walk_component adj bs queue visited found = (visited', found')"
    and "\<forall>a \<in> visited. set (neighbours adj a) \<subseteq> visited \<union> set queue"
  shows "\<forall>a \<in> visited'. set (neighbours adj a) \<subseteq> visited'"
  using assms
proof (induction adj bs queue visited found rule: walk_component.induct)
  case (2 adj bs var queue visited found)
  show ?case
  proof (cases "var \<in> visited")
    case True
    then show ?thesis using "2.IH"(1) [OF True] "2.prems" by auto
  next
    case False
    show ?thesis
      by (rule "2.IH"(2) [OF False refl]) (use False "2.prems" in \<open>auto simp: Let_def\<close>)
  qed
qed simp

text \<open>From one variable and nothing visited, the walk visits exactly its component.\<close>

lemma walk_component_visits:
  "fst (walk_component (build_adjacency ts) bs [r] {} []) = {v. connected ts r v}"
proof -
  obtain vis found where run: "walk_component (build_adjacency ts) bs [r] {} [] = (vis, found)"
    by (cases "walk_component (build_adjacency ts) bs [r] {} []")
  have "v \<in> vis" if "connected ts r v" for v
    using that
  proof (induction rule: rtranclp_induct)
    case base
    then show ?case using walk_component_found [OF run] by simp
  next
    case (step y z)
    then have "z \<in> set (neighbours (build_adjacency ts) y)" by (simp add: neighbours_build)
    then show ?case using walk_component_closed [OF run] step.IH by auto
  qed
  moreover have "connected ts r v" if "v \<in> vis" for v
    using walk_component_reaches [OF run] that by auto
  ultimately show ?thesis unfolding run by auto
qed

section \<open>Deferred bindings\<close>

text \<open>
  The invariant of the outer loop, over the roots picked so far: roots are visited and never
  deferred, every visited binding is a root or deferred, and a deferred one is connected to a
  root.
\<close>

definition deferral_inv ::
    "traversal list \<Rightarrow> string set \<Rightarrow> string set \<times> string set \<Rightarrow> string set \<Rightarrow> bool" where
  "deferral_inv ts bs s roots \<longleftrightarrow>
     (case s of (deferred, visited) \<Rightarrow>
        roots \<inter> deferred = {} \<and> roots \<union> deferred = visited \<inter> bs \<and>
        (\<forall>v \<in> deferred. \<exists>r \<in> roots. connected ts r v))"

lemma defer_component_step:
  assumes inv: "deferral_inv ts bs s roots" and "b_variable b \<in> bs"
  shows "\<exists>roots'. deferral_inv ts bs (defer_component (build_adjacency ts) bs b s) roots' \<and>
    snd s \<subseteq> snd (defer_component (build_adjacency ts) bs b s) \<and>
    b_variable b \<in> snd (defer_component (build_adjacency ts) bs b s)"
proof -
  obtain deferred visited where s: "s = (deferred, visited)" by (cases s)
  show ?thesis
  proof (cases "b_variable b \<in> visited")
    case True
    then show ?thesis using inv by (auto simp: defer_component_def s)
  next
    case False
    obtain vis found where
      run: "walk_component (build_adjacency ts) bs [b_variable b] visited [] = (vis, found)"
      by (cases "walk_component (build_adjacency ts) bs [b_variable b] visited []")
    obtain new where found: "found = b_variable b # new"
      using walk_component_first [OF run False assms(2)] by blast
    have vis: "visited \<subseteq> vis" "b_variable b \<in> vis" "distinct found"
        "set found = (vis - visited) \<inter> bs"
      using walk_component_found [OF run] by auto
    have conn: "connected ts (b_variable b) v" if "v \<in> vis - visited" for v
      using walk_component_reaches [OF run] that by auto
    have "deferral_inv ts bs (deferred \<union> set new, vis) (insert (b_variable b) roots)"
      using inv vis conn False assms(2) unfolding deferral_inv_def s found by auto
    moreover have "defer_component (build_adjacency ts) bs b s = (deferred \<union> set new, vis)"
      using False by (simp add: defer_component_def s run found del: walk_component.simps)
    ultimately show ?thesis using vis by (auto simp: s)
  qed
qed

lemma deferral_inv_fold:
  assumes "deferral_inv ts bs s roots" and "b_variable ` set bl \<subseteq> bs"
  shows "\<exists>roots'. deferral_inv ts bs (fold (defer_component (build_adjacency ts) bs) bl s) roots' \<and>
    snd s \<union> b_variable ` set bl \<subseteq> snd (fold (defer_component (build_adjacency ts) bs) bl s)"
  using assms
proof (induction bl arbitrary: s roots)
  case (Cons b bl)
  obtain roots1 where
    1: "deferral_inv ts bs (defer_component (build_adjacency ts) bs b s) roots1"
      "snd s \<subseteq> snd (defer_component (build_adjacency ts) bs b s)"
      "b_variable b \<in> snd (defer_component (build_adjacency ts) bs b s)"
    using defer_component_step [OF Cons.prems(1), of b] Cons.prems(2) by auto
  obtain roots' where
    2: "deferral_inv ts bs (fold (defer_component (build_adjacency ts) bs) (b # bl) s) roots'"
    and 3: "snd (defer_component (build_adjacency ts) bs b s) \<union> b_variable ` set bl
      \<subseteq> snd (fold (defer_component (build_adjacency ts) bs) (b # bl) s)"
    using Cons.IH [OF 1(1)] Cons.prems(2) by auto
  from 3 1(2,3) have "snd s \<union> b_variable ` set (b # bl)
      \<subseteq> snd (fold (defer_component (build_adjacency ts) bs) (b # bl) s)"
    by auto
  with 2 show ?case by blast
qed auto

text \<open>Every deferred binding hangs on a binding that is scanned.\<close>

lemma deferred_has_root:
  assumes "v \<in> deferred_bindings bs ts"
  shows "v \<in> b_variable ` set bs \<and>
    (\<exists>r \<in> b_variable ` set bs - deferred_bindings bs ts. connected ts r v)"
proof -
  let ?s = "fold (defer_component (build_adjacency ts) (set (map b_variable bs))) bs ({}, {})"
  have "deferral_inv ts (set (map b_variable bs)) ({}, {}) {}" by (simp add: deferral_inv_def)
  then obtain roots where inv: "deferral_inv ts (set (map b_variable bs)) ?s roots"
    using deferral_inv_fold by (metis image_set subset_refl)
  obtain deferred visited where s: "?s = (deferred, visited)" by (cases ?s)
  have "deferred = deferred_bindings bs ts" unfolding deferred_bindings_def s by simp
  with inv have "roots \<inter> deferred_bindings bs ts = {}"
    and "roots \<union> deferred_bindings bs ts = visited \<inter> b_variable ` set bs"
    and "\<exists>r \<in> roots. connected ts r v"
    using assms unfolding deferral_inv_def s by auto
  then show ?thesis using assms by blast
qed

section \<open>What a step adds to the pipeline\<close>

definition introduced :: "ir_op list \<Rightarrow> string set" where
  "introduced ops = set (concat (map op_introduces ops))"

definition is_expand :: "ir_op \<Rightarrow> bool" where
  "is_expand op = (case op of Expand _ \<Rightarrow> True | _ \<Rightarrow> False)"

definition expands :: "ir_op list \<Rightarrow> nat" where
  "expands ops = length (filter is_expand ops)"

lemma introduced_simps [simp]:
  "introduced [] = {}" "introduced (op # ops) = set (op_introduces op) \<union> introduced ops"
  "introduced (xs @ ys) = introduced xs \<union> introduced ys"
  by (auto simp: introduced_def)

lemma expands_simps [simp]:
  "expands [] = 0" "expands (xs @ ys) = expands xs + expands ys"
  "expands (op # ops) = (if is_expand op then 1 else 0) + expands ops"
  by (simp_all add: expands_def)

lemma is_expand_simps [simp]:
  "is_expand (Expand x)" "\<not> is_expand (NodeScan v ty fs)" "\<not> is_expand (IFilter f)"
  "\<not> is_expand (AntiJoin v ops)"
  by (simp_all add: is_expand_def)

lemma scoped_append_introduced:
  "scoped vs (xs @ ys) \<longleftrightarrow> scoped vs xs \<and> scoped (vs \<union> introduced xs) ys"
  by (induction xs arbitrary: vs) (auto simp: Un_assoc)

text \<open>
  \<open>grows s s'\<close>: the pipeline of \<open>s'\<close> continues that of \<open>s\<close> with operators that only start from
  bound variables, and every newly bound variable is introduced by one of them.
\<close>

definition grows :: "lower_state \<Rightarrow> lower_state \<Rightarrow> bool" where
  "grows s s' \<longleftrightarrow> ls_bound s \<subseteq> ls_bound s' \<and>
     (\<exists>ops. ls_pipeline s' = ls_pipeline s @ ops \<and> scoped (ls_bound s) ops \<and>
            ls_bound s' \<subseteq> ls_bound s \<union> introduced ops)"

lemma grows_refl: "grows s s"
  by (auto simp: grows_def intro: exI [of _ "[]"])

lemma grows_trans:
  assumes "grows a b" and "grows b c"
  shows "grows a c"
proof -
  obtain xs ys where xs: "ls_pipeline b = ls_pipeline a @ xs" "scoped (ls_bound a) xs"
      "ls_bound b \<subseteq> ls_bound a \<union> introduced xs"
    and ys: "ls_pipeline c = ls_pipeline b @ ys" "scoped (ls_bound b) ys"
      "ls_bound c \<subseteq> ls_bound b \<union> introduced ys"
    using assms by (auto simp: grows_def)
  have "scoped (ls_bound a) (xs @ ys)"
    using xs ys(2) scoped_mono [OF ys(2) xs(3)] by (simp add: scoped_append_introduced)
  with xs ys have "ls_pipeline c = ls_pipeline a @ (xs @ ys) \<and> scoped (ls_bound a) (xs @ ys) \<and>
      ls_bound c \<subseteq> ls_bound a \<union> introduced (xs @ ys)"
    by auto
  with assms show ?thesis unfolding grows_def by blast
qed

lemma lower_state_sel [simp]:
  "ls_pipeline (emit op s) = ls_pipeline s @ [op]" "ls_bound (emit op s) = ls_bound s"
  "ls_deferred (emit op s) = ls_deferred s"
  "ls_pipeline (mark_bound v s) = ls_pipeline s" "ls_bound (mark_bound v s) = insert v (ls_bound s)"
  "ls_deferred (mark_bound v s) = ls_deferred s"
  by (simp_all add: emit_def mark_bound_def)

lemma lower_binding_step:
  assumes "lower_binding cat ps deferred b s = Inr s'"
  shows "grows s s' \<and>
    ls_bound s' = ls_bound s \<union> (if b_variable b \<in> deferred then {} else {b_variable b})"
proof -
  obtain fs where s': "(if b_variable b \<in> deferred
      then Inr (if fs \<noteq> [] then s\<lparr>ls_deferred := hm_insert (b_variable b) fs (ls_deferred s)\<rparr> else s)
      else Inr (mark_bound (b_variable b) (emit (NodeScan (b_variable b) (b_type_name b) fs) s)))
      = (Inr s' :: lower_state result)"
    using assms unfolding lower_binding_def r_bind_Inr_iff by blast
  show ?thesis
    by (cases "b_variable b \<in> deferred"; cases fs) (use s' in \<open>auto simp: grows_def\<close>)
qed

interpretation scans: checked_loop "lower_binding cat ps deferred" "\<lambda>_. True" grows
  for cat ps deferred
  by unfold_locales (auto intro: grows_refl grows_trans dest: lower_binding_step)

lemma lower_bindings_bound:
  "r_fold (lower_binding cat ps deferred) bs s = Inr s' \<Longrightarrow>
     ls_bound s' = ls_bound s \<union> (b_variable ` set bs - deferred)"
proof (induction bs arbitrary: s)
  case (Cons b bs)
  then obtain s1 where 1: "lower_binding cat ps deferred b s = Inr s1"
    and 2: "r_fold (lower_binding cat ps deferred) bs s1 = Inr s'" by auto
  show ?case using Cons.IH [OF 2] lower_binding_step [OF 1] by auto
qed simp

lemma lower_bindings_expands:
  "r_fold (lower_binding cat ps deferred) bs s = Inr s' \<Longrightarrow>
     expands (ls_pipeline s') = expands (ls_pipeline s)"
proof (induction bs arbitrary: s)
  case (Cons b bs)
  then obtain s1 where 1: "lower_binding cat ps deferred b s = Inr s1"
    and 2: "r_fold (lower_binding cat ps deferred) bs s1 = Inr s'" by auto
  have "expands (ls_pipeline s1) = expands (ls_pipeline s)"
    using 1 by (auto simp: lower_binding_def split: if_splits)
  with Cons.IH [OF 2] show ?case by simp
qed simp

section \<open>Placing the traversals\<close>

text \<open>A traversal that cannot be placed: neither endpoint is bound.\<close>

definition unplaced :: "string set \<Rightarrow> traversal \<Rightarrow> bool" where
  "unplaced bound t \<longleftrightarrow> t_src t \<notin> bound \<and> t_dst t \<notin> bound"

definition endpoints :: "traversal \<Rightarrow> string set" where
  "endpoints t = {t_src t, t_dst t} - {wildcard}"

lemma close_cycle_step:
  assumes "t_src t \<in> ls_bound s"
  shows "grows s (close_cycle edge dir t s)"
    and "ls_bound (close_cycle edge dir t s) = ls_bound s"
    and "expands (ls_pipeline (close_cycle edge dir t s)) = Suc (expands (ls_pipeline s))"
  using assms by (auto simp: close_cycle_def grows_def)

lemma expand_to_step:
  assumes "from \<in> ls_bound s"
  shows "grows s (expand_to edge t from to dir ty s)"
    and "ls_bound (expand_to edge t from to dir ty s) = ls_bound s \<union> ({to} - {wildcard})"
    and "expands (ls_pipeline (expand_to edge t from to dir ty s)) = Suc (expands (ls_pipeline s))"
  using assms by (auto simp: expand_to_def grows_def Let_def)

lemma lower_traversal_step:
  assumes "lower_traversal cat ctx t (s, n) = Inr (s', n')"
  shows "if unplaced (ls_bound s) t then s' = s \<and> n' = n @ [t]
    else n' = n \<and> grows s s' \<and> ls_bound s' = ls_bound s \<union> endpoints t \<and>
         expands (ls_pipeline s') = Suc (expands (ls_pipeline s))"
proof (cases "unplaced (ls_bound s) t")
  case True
  with assms show ?thesis by (simp add: lower_traversal_def unplaced_def)
next
  case False
  with assms obtain edge where n': "n' = n" and s': "s' =
      (let dir = traversal_direction ctx t edge in
       if t_src t \<in> ls_bound s \<and> t_dst t \<in> ls_bound s then close_cycle edge dir t s
       else if t_src t \<notin> ls_bound s
       then expand_to edge t (t_dst t) (t_src t) (reverse_direction dir) (src_end edge dir) s
       else expand_to edge t (t_src t) (t_dst t) dir (dst_end edge dir) s)"
    by (auto simp: lower_traversal_def unplaced_def Let_def)
  from False consider "t_src t \<in> ls_bound s" "t_dst t \<in> ls_bound s"
    | "t_src t \<notin> ls_bound s" "t_dst t \<in> ls_bound s"
    | "t_src t \<in> ls_bound s" "t_dst t \<notin> ls_bound s"
    by (auto simp: unplaced_def)
  then show ?thesis
    using False n' unfolding s' Let_def
    by cases (auto simp: close_cycle_step expand_to_step endpoints_def)
qed

lemma grows_bound: "grows s s' \<Longrightarrow> ls_bound s \<subseteq> ls_bound s'"
  by (simp add: grows_def)

text \<open>A pass over a list: what is placed has its endpoints bound, the rest keeps its order.\<close>

lemma lower_pass_step:
  assumes "r_fold (lower_traversal cat ctx) ts (s, n) = Inr (s', n')"
  shows "\<exists>m. n' = n @ m \<and> set m \<subseteq> set ts \<and> grows s s' \<and>
    expands (ls_pipeline s') + length m = expands (ls_pipeline s) + length ts \<and>
    (\<forall>B. ls_bound s' \<subseteq> B \<longrightarrow> filter (unplaced B) m = filter (unplaced B) ts) \<and>
    (\<forall>t \<in> set ts. t \<in> set m \<or> endpoints t \<subseteq> ls_bound s') \<and>
    (length m = length ts \<longrightarrow> s' = s \<and> (\<forall>t \<in> set ts. unplaced (ls_bound s) t))"
  using assms
proof (induction ts arbitrary: s n)
  case Nil
  then show ?case by (auto simp: grows_refl)
next
  case (Cons t ts)
  then obtain s1 n1 where 1: "lower_traversal cat ctx t (s, n) = Inr (s1, n1)"
    and 2: "r_fold (lower_traversal cat ctx) ts (s1, n1) = Inr (s', n')" by auto
  obtain m where m: "n' = n1 @ m" "set m \<subseteq> set ts" "grows s1 s'"
      "expands (ls_pipeline s') + length m = expands (ls_pipeline s1) + length ts"
      "\<forall>B. ls_bound s' \<subseteq> B \<longrightarrow> filter (unplaced B) m = filter (unplaced B) ts"
      "\<forall>t \<in> set ts. t \<in> set m \<or> endpoints t \<subseteq> ls_bound s'"
      "length m = length ts \<longrightarrow> s' = s1 \<and> (\<forall>t \<in> set ts. unplaced (ls_bound s1) t)"
    using Cons.IH [OF 2] by blast
  have len: "length m \<le> length ts" using lower_pass_length [OF 2] m(1) by simp
  note step = lower_traversal_step [OF 1]
  show ?case
  proof (cases "unplaced (ls_bound s) t")
    case True
    with step have [simp]: "s1 = s" "n1 = n @ [t]" by auto
    show ?thesis by (rule exI [of _ "t # m"]) (use m True in auto)
  next
    case False
    with step have s1: "n1 = n" "grows s s1" "ls_bound s1 = ls_bound s \<union> endpoints t"
        "expands (ls_pipeline s1) = Suc (expands (ls_pipeline s))" by auto
    have "\<not> unplaced B t" if "ls_bound s' \<subseteq> B" for B
      using False that grows_bound [OF m(3)] grows_bound [OF s1(2)] by (auto simp: unplaced_def)
    moreover have "endpoints t \<subseteq> ls_bound s'" using s1(3) grows_bound [OF m(3)] by blast
    ultimately show ?thesis
      by (intro exI [of _ m]) (use m s1 len in \<open>auto intro: grows_trans\<close>)
  qed
qed

text \<open>
  The whole loop: an expansion for each traversal but those both of whose endpoints stay
  unbound, and the bound variables end up closed under the traversals.
\<close>

lemma lower_traversals_step:
  assumes "lower_traversals cat ctx ts s = Inr s'"
  shows "grows s s' \<and>
    expands (ls_pipeline s') + length (filter (unplaced (ls_bound s')) ts) =
      expands (ls_pipeline s) + length ts \<and>
    (\<forall>t \<in> set ts. unplaced (ls_bound s') t \<or> endpoints t \<subseteq> ls_bound s')"
  using assms
proof (induction cat ctx ts s rule: lower_traversals.induct)
  case (1 cat ctx ts s)
  show ?case
  proof (cases "ts = []")
    case True
    with "1.prems" show ?thesis by (simp add: lower_traversals.simps grows_refl)
  next
    case False
    with "1.prems" obtain s1 n1 where pass: "lower_pass cat ctx ts s = Inr (s1, n1)"
      and rest: "(if length n1 = length ts then Inr s1 else lower_traversals cat ctx n1 s1) = Inr s'"
      by (auto simp: lower_traversals.simps [of cat ctx ts])
    have p: "set n1 \<subseteq> set ts" "grows s s1"
      "expands (ls_pipeline s1) + length n1 = expands (ls_pipeline s) + length ts"
      "\<forall>B. ls_bound s1 \<subseteq> B \<longrightarrow> filter (unplaced B) n1 = filter (unplaced B) ts"
      "\<forall>t \<in> set ts. t \<in> set n1 \<or> endpoints t \<subseteq> ls_bound s1"
      "length n1 = length ts \<longrightarrow> s1 = s \<and> (\<forall>t \<in> set ts. unplaced (ls_bound s) t)"
      using lower_pass_step [OF pass [unfolded lower_pass_def]] by auto
    show ?thesis
    proof (cases "length n1 = length ts")
      case True
      with rest p(6) have "s' = s" "\<forall>t \<in> set ts. unplaced (ls_bound s') t" by auto
      then show ?thesis by (simp add: grows_refl)
    next
      case progress: False
      with rest have "lower_traversals cat ctx n1 s1 = Inr s'" by simp
      then have ih: "grows s1 s'"
          "expands (ls_pipeline s') + length (filter (unplaced (ls_bound s')) n1) =
            expands (ls_pipeline s1) + length n1"
          "\<forall>t \<in> set n1. unplaced (ls_bound s') t \<or> endpoints t \<subseteq> ls_bound s'"
        using "1.IH" [OF False pass refl progress] by auto
      have "filter (unplaced (ls_bound s')) n1 = filter (unplaced (ls_bound s')) ts"
        using p(4) grows_bound [OF ih(1)] by blast
      moreover have "endpoints t \<subseteq> ls_bound s'" if "t \<in> set ts" "\<not> unplaced (ls_bound s') t" for t
        using p(5) ih(3) grows_bound [OF ih(1)] that by blast
      ultimately show ?thesis using ih(2) p(3) grows_trans [OF p(2) ih(1)] by auto
    qed
  qed
qed

lemma lower_flat_Inr:
  assumes "lower_flat cat ctx ps pt cs bound = Inr s"
  shows "\<exists>s1 s2. r_fold (lower_binding cat ps (deferred_bindings (bindings_of cs) (traversals_of cs)))
      (bindings_of cs) \<lparr>ls_pipeline = [], ls_bound = bound, ls_deferred = hm_empty\<rparr> = Inr s1 \<and>
    lower_traversals cat ctx (traversals_of cs) s1 = Inr s2 \<and>
    s = s2\<lparr>ls_pipeline := ls_pipeline s2 @
      map (lower_filter cat ctx ps pt (local_bindings cat (traversals_of cs) (bindings_of cs)))
        (filters_of cs)\<rparr>"
  using assms by (auto simp: lower_flat_def Let_def)

lemma lower_filter_ops:
  "expands (map (lower_filter cat ctx ps pt l) fs) = 0"
  "introduced (map (lower_filter cat ctx ps pt l) fs) = {}"
  "scoped vs (map (lower_filter cat ctx ps pt l) fs)"
  by (induction fs arbitrary: vs) (auto simp: lower_filter_def)

text \<open>The summary of the flat part of a clause list.\<close>

lemma lower_flat_facts:
  assumes "lower_flat cat ctx ps pt cs bound = Inr s"
  shows "bound \<subseteq> ls_bound s" and "scoped bound (ls_pipeline s)"
    and "ls_bound s \<subseteq> bound \<union> introduced (ls_pipeline s)"
    and "b_variable ` set (bindings_of cs) \<subseteq> ls_bound s"
    and "expands (ls_pipeline s) + length (filter (unplaced (ls_bound s)) (traversals_of cs)) =
      length (traversals_of cs)"
    and "t \<in> set (traversals_of cs) \<Longrightarrow>
      unplaced (ls_bound s) t \<or> endpoints t \<subseteq> ls_bound s"
proof -
  let ?s0 = "\<lparr>ls_pipeline = [], ls_bound = bound, ls_deferred = hm_empty\<rparr>"
  let ?def = "deferred_bindings (bindings_of cs) (traversals_of cs)"
  obtain s1 s2 where 1: "r_fold (lower_binding cat ps ?def) (bindings_of cs) ?s0 = Inr s1"
    and 2: "lower_traversals cat ctx (traversals_of cs) s1 = Inr s2"
    and s: "s = s2\<lparr>ls_pipeline := ls_pipeline s2 @
      map (lower_filter cat ctx ps pt (local_bindings cat (traversals_of cs) (bindings_of cs)))
        (filters_of cs)\<rparr>"
    using lower_flat_Inr [OF assms] by blast
  note step = lower_traversals_step [OF 2]
  have g: "grows ?s0 s2" using scans.loop_le [OF 1] step by (blast intro: grows_trans)
  then show "bound \<subseteq> ls_bound s" and "scoped bound (ls_pipeline s)"
    and "ls_bound s \<subseteq> bound \<union> introduced (ls_pipeline s)"
    by (auto simp: s grows_def scoped_append_introduced lower_filter_ops)
  show "expands (ls_pipeline s) + length (filter (unplaced (ls_bound s)) (traversals_of cs)) =
      length (traversals_of cs)"
    using step lower_bindings_expands [OF 1] by (simp add: s lower_filter_ops)
  show closed: "unplaced (ls_bound s) t \<or> endpoints t \<subseteq> ls_bound s"
    if "t \<in> set (traversals_of cs)" for t
    using step that by (simp add: s)
  have "v \<in> ls_bound s" if "connected (traversals_of cs) r v" and "r \<in> ls_bound s" for r v
    using that
  proof (induction rule: rtranclp_induct)
    case (step y z)
    then obtain t where t: "t \<in> set (traversals_of cs)" "t_src t \<noteq> wildcard" "t_dst t \<noteq> wildcard"
      "y = t_src t \<and> z = t_dst t \<or> y = t_dst t \<and> z = t_src t"
      by (auto simp: adjacent_def)
    then show ?case using closed [OF t(1)] step by (auto simp: unplaced_def endpoints_def)
  qed
  moreover have "b_variable ` set (bindings_of cs) - ?def \<subseteq> ls_bound s"
    using lower_bindings_bound [OF 1] grows_bound step by (auto simp: s grows_def)
  ultimately show "b_variable ` set (bindings_of cs) \<subseteq> ls_bound s"
    using deferred_has_root by blast
qed

end
