(* ===== verification/Lower_Clauses.thy ===== *)
theory Lower_Clauses
  imports Lower_Facts
begin

text \<open>
  Lowering of whole clause lists: it cannot fail on clauses that were accepted by the type
  checker, the panics included, and what it produces is scoped. The clauses of a negation block
  are covered at every depth.
\<close>

section \<open>The four kinds of clauses\<close>

lemma bindings_of_simps [simp]:
  "bindings_of [] = []"
  "bindings_of (c # cs) = (case c of CBinding b \<Rightarrow> b # bindings_of cs | _ \<Rightarrow> bindings_of cs)"
  by (simp_all add: bindings_of_def map_filter_simps split: clause.splits)

lemma traversals_of_simps [simp]:
  "traversals_of [] = []"
  "traversals_of (c # cs) = (case c of CTraversal t \<Rightarrow> t # traversals_of cs | _ \<Rightarrow> traversals_of cs)"
  by (simp_all add: traversals_of_def map_filter_simps split: clause.splits)

lemma filters_of_simps [simp]:
  "filters_of [] = []"
  "filters_of (c # cs) = (case c of CFilter f \<Rightarrow> f # filters_of cs | _ \<Rightarrow> filters_of cs)"
  by (simp_all add: filters_of_def map_filter_simps split: clause.splits)

lemma negations_of_simps [simp]:
  "negations_of [] = []"
  "negations_of (c # cs) = (case c of CNegation n \<Rightarrow> n # negations_of cs | _ \<Rightarrow> negations_of cs)"
  by (simp_all add: negations_of_def map_filter_simps split: clause.splits)

lemma in_clause_kinds:
  "b \<in> set (bindings_of cs) \<longleftrightarrow> CBinding b \<in> set cs"
  "t \<in> set (traversals_of cs) \<longleftrightarrow> CTraversal t \<in> set cs"
  "f \<in> set (filters_of cs) \<longleftrightarrow> CFilter f \<in> set cs"
  "n \<in> set (negations_of cs) \<longleftrightarrow> CNegation n \<in> set cs"
  by (induction cs) (auto split: clause.splits)

section \<open>Clauses whose names are known\<close>

definition binding_known :: "catalog \<Rightarrow> binding \<Rightarrow> bool" where
  "binding_known cat b =
     (case hm_get (cat_node_types cat) (b_type_name b) of
        None \<Rightarrow> False
      | Some nt \<Rightarrow> list_all (\<lambda>pm. hm_contains (nt_properties nt) (pm_prop_name pm)) (b_prop_matches b))"

fun clause_known :: "catalog \<Rightarrow> clause \<Rightarrow> bool" where
  "clause_known cat (CBinding b) = binding_known cat b"
| "clause_known cat (CTraversal t) = (lookup_edge_by_name cat (t_edge_name t) \<noteq> None)"
| "clause_known cat (CFilter f) = True"
| "clause_known cat (CNegation cs) = list_all (\<lambda>c. clause_known cat c) cs"

lemma typecheck_clause_known:
  "typecheck_clause cat params c ctx = Inr ctx' \<Longrightarrow> clause_known cat c"
proof (induction c arbitrary: ctx ctx')
  case (CBinding b)
  then show ?case
    by (auto simp: typecheck_binding_def binding_known_def list_all_iff check_prop_match_def
        hm_contains_def) blast
next
  case (CTraversal t)
  then show ?case by (auto simp: typecheck_traversal_def)
next
  case (CNegation cs)
  then obtain ctx1 where "r_fold (typecheck_clause cat params) cs ctx = Inr ctx1" by auto
  then show ?case using CNegation.IH r_fold_in by (fastforce simp: list_all_iff)
qed simp

lemma typecheck_clauses_known:
  "typecheck_clauses cat params cs ctx = Inr ctx' \<Longrightarrow> list_all (clause_known cat) cs"
  unfolding typecheck_clauses_def list_all_iff
  by (metis r_fold_in typecheck_clause_known)

section \<open>Totality\<close>

lemma lower_binding_ok: "binding_known cat b \<Longrightarrow> is_ok (lower_binding cat ps deferred b s)"
proof -
  assume known: "binding_known cat b"
  then obtain nt where nt: "hm_get (cat_node_types cat) (b_type_name b) = Some nt"
    and props: "\<forall>pm \<in> set (b_prop_matches b). hm_contains (nt_properties nt) (pm_prop_name pm)"
    by (auto simp: binding_known_def list_all_iff split: option.splits)
  have "is_ok (build_binding_filters b nt ps)"
    unfolding build_binding_filters_def
    by (rule r_map_is_ok) (use props in \<open>auto simp: binding_filter_def hm_contains_iff\<close>)
  then show ?thesis using nt by (auto simp: lower_binding_def is_ok_iff)
qed

lemma lower_traversal_ok:
  "lookup_edge_by_name cat (t_edge_name t) \<noteq> None \<Longrightarrow> is_ok (lower_traversal cat ctx t sn)"
  by (cases sn) (auto simp: lower_traversal_def Let_def)

lemma lower_traversals_ok:
  "\<forall>t \<in> set ts. lookup_edge_by_name cat (t_edge_name t) \<noteq> None \<Longrightarrow>
     \<exists>s'. lower_traversals cat ctx ts s = Inr s'"
proof (induction cat ctx ts s rule: lower_traversals.induct)
  case (1 cat ctx ts s)
  show ?case
  proof (cases "ts = []")
    case False
    obtain s1 n1 where pass: "lower_pass cat ctx ts s = Inr (s1, n1)"
      using r_fold_ok [of ts "lower_traversal cat ctx" "(s, [])"] lower_traversal_ok "1.prems"
      by (auto simp: lower_pass_def)
    then have sub: "set n1 \<subseteq> set ts"
      using lower_pass_step [OF pass [unfolded lower_pass_def]] by auto
    show ?thesis
    proof (cases "length n1 = length ts")
      case True
      with False pass show ?thesis by (simp add: lower_traversals.simps [of cat ctx ts])
    next
      case progress: False
      have "\<exists>s'. lower_traversals cat ctx n1 s1 = Inr s'"
        by (rule "1.IH" [OF False pass refl progress]) (use "1.prems" sub in blast)
      with False pass progress show ?thesis by (simp add: lower_traversals.simps [of cat ctx ts])
    qed
  qed (simp add: lower_traversals.simps)
qed

lemma lower_flat_ok:
  assumes "list_all (clause_known cat) cs"
  shows "\<exists>s. lower_flat cat ctx ps pt cs bound = Inr s"
proof -
  let ?bs = "bindings_of cs" and ?ts = "traversals_of cs"
  obtain s1 where "r_fold (lower_binding cat ps (deferred_bindings ?bs ?ts)) ?bs
      \<lparr>ls_pipeline = [], ls_bound = bound, ls_deferred = hm_empty\<rparr> = Inr s1"
    using r_fold_ok [of ?bs "lower_binding cat ps (deferred_bindings ?bs ?ts)"] lower_binding_ok assms
    by (fastforce simp: in_clause_kinds list_all_iff)
  moreover obtain s2 where "lower_traversals cat ctx ?ts s1 = Inr s2"
    using lower_traversals_ok [of ?ts cat ctx s1] assms
    by (fastforce simp: in_clause_kinds list_all_iff)
  ultimately show ?thesis by (simp add: lower_flat_def)
qed

lemma lower_clauses_ok:
  "list_all (clause_known cat) cs \<Longrightarrow>
     \<exists>ops bound'. lower_clauses cat ctx ps pt cs bound = Inr (ops, bound')"
proof (induction cat ctx ps pt cs bound rule: lower_clauses.induct)
  case (1 cat ctx ps pt cs bound)
  obtain s where s: "lower_flat cat ctx ps pt cs bound = Inr s"
    using lower_flat_ok [OF "1.prems"] by blast
  have "is_ok (r_map (\<lambda>neg. r_bind (lower_clauses cat ctx ps pt neg (ls_bound s)) (\<lambda>(inner, _).
      Inr (AntiJoin (case find_outer_var neg (ls_bound s) of Some v \<Rightarrow> v | None \<Rightarrow> []) inner)))
      (negations_of cs))"
  proof (rule r_map_is_ok)
    fix neg
    assume neg: "neg \<in> set (negations_of cs)"
    then have "list_all (clause_known cat) neg"
      using "1.prems" by (auto simp: in_clause_kinds list_all_iff)
    with "1.IH" [OF s neg] show "is_ok (r_bind (lower_clauses cat ctx ps pt neg (ls_bound s))
        (\<lambda>(inner, _). Inr (AntiJoin (case find_outer_var neg (ls_bound s) of Some v \<Rightarrow> v | None \<Rightarrow> [])
          inner)))"
      by (auto simp: is_ok_iff)
  qed
  then show ?case by (auto simp: lower_clauses.simps [of cat ctx ps pt cs] s is_ok_iff)
qed

section \<open>The shape of the result\<close>

text \<open>The result of a clause list: the flat part, then one anti-join for each negation block.\<close>

lemma lower_clauses_Inr:
  assumes "lower_clauses cat ctx ps pt cs bound = Inr (ops, bound')"
  shows "\<exists>s joins. lower_flat cat ctx ps pt cs bound = Inr s \<and> ops = ls_pipeline s @ joins \<and>
    bound' = ls_bound s \<and>
    list_all2 (\<lambda>neg op. \<exists>inner b. lower_clauses cat ctx ps pt neg (ls_bound s) = Inr (inner, b) \<and>
        op = AntiJoin (case find_outer_var neg (ls_bound s) of Some v \<Rightarrow> v | None \<Rightarrow> []) inner)
      (negations_of cs) joins"
  using assms
  by (auto simp: lower_clauses.simps [of cat ctx ps pt cs] r_map_Inr_iff elim!: list_all2_mono)

lemma lower_clauses_scoped:
  "lower_clauses cat ctx ps pt cs bound = Inr (ops, bound') \<Longrightarrow> scoped bound ops"
proof (induction cat ctx ps pt cs bound arbitrary: ops bound' rule: lower_clauses.induct)
  case (1 cat ctx ps pt cs bound)
  obtain s joins where s: "lower_flat cat ctx ps pt cs bound = Inr s"
    and ops: "ops = ls_pipeline s @ joins"
    and joins: "list_all2 (\<lambda>neg op. \<exists>inner b.
        lower_clauses cat ctx ps pt neg (ls_bound s) = Inr (inner, b) \<and>
        op = AntiJoin (case find_outer_var neg (ls_bound s) of Some v \<Rightarrow> v | None \<Rightarrow> []) inner)
      (negations_of cs) joins"
    using lower_clauses_Inr [OF "1.prems"] by blast
  have "op_scoped (ls_bound s) op \<and> op_introduces op = []" if "op \<in> set joins" for op
    using joins that "1.IH" [OF s] by (fastforce simp: list_all2_conv_all_nth in_set_conv_nth)
  then have "scoped (ls_bound s) joins" by (induction joins) auto
  then show ?case
    using lower_flat_facts(2,3) [OF s] by (auto simp: ops scoped_append_introduced intro: scoped_mono)
qed

end
