(* ===== verification/Sample_Queries.thy ===== *)
theory Sample_Queries
  imports Sample Typecheck
begin

text \<open>
  Queries over the sample schema, for the closed instances of the theorems about checking and
  lowering.
\<close>

definition simple_binding :: "string \<Rightarrow> string \<Rightarrow> prop_match list \<Rightarrow> clause" where
  "simple_binding v ty pms =
     CBinding \<lparr>b_variable = v, b_type_name = ty, b_prop_matches = pms\<rparr>"

definition one_hop :: "string \<Rightarrow> string \<Rightarrow> string \<Rightarrow> clause" where
  "one_hop a e b = CTraversal \<lparr>t_src = a, t_edge_name = e, t_dst = b, t_min_hops = 1,
     t_max_hops = Some 1, t_undirected = False, t_edge_binding = None\<rparr>"

definition read_query :: "clause list \<Rightarrow> projection list \<Rightarrow> query_decl" where
  "read_query cs ps = \<lparr>q_name = ''q'', q_description = None, q_instruction = None,
     q_params = [\<lparr>prm_name = ''name'', prm_type_name = ''String'', prm_nullable = False\<rparr>],
     q_match_clause = cs, q_return_clause = ps, q_order_clause = [], q_limit = None,
     q_mutations = []\<rparr>"

definition project :: "expr \<Rightarrow> projection" where
  "project e = \<lparr>proj_expr = e, proj_alias = None\<rparr>"

text \<open>
  Friends over thirty of a named person, with the edge bound, who work nowhere.
\<close>

definition friends_clauses :: "clause list" where
  "friends_clauses =
     [simple_binding ''p'' ''Person''
        [\<lparr>pm_prop_name = ''name'', pm_value = MVVariable ''name''\<rparr>],
      CTraversal \<lparr>t_src = ''p'', t_edge_name = ''knows'', t_dst = ''f'', t_min_hops = 1,
        t_max_hops = Some 1, t_undirected = False, t_edge_binding = Some ''w''\<rparr>,
      CFilter \<lparr>f_left = PropAccess ''f'' ''age'', f_op = OpGt, f_right = Literal (LInteger 30)\<rparr>,
      CNegation [one_hop ''f'' ''worksAt'' ''c'']]"

definition friends_query :: query_decl where
  "friends_query =
     (read_query friends_clauses
       [project (PropAccess ''f'' ''name''), project (PropAccess ''w'' ''since'')])
     \<lparr>q_order_clause := [\<lparr>ord_expr = PropAccess ''f'' ''age'', ord_descending = True\<rparr>],
      q_limit := Some 10\<rparr>"

definition friends_ctx :: type_context where
  "friends_ctx = (case typecheck_query sample_catalog friends_query of
     Inr ctx \<Rightarrow> ctx | Inl _ \<Rightarrow> empty_ctx)"

lemma check_friends: "typecheck_query sample_catalog friends_query = Inr friends_ctx"
proof -
  have "is_ok (typecheck_query sample_catalog friends_query)" by code_simp
  then show ?thesis by (auto simp: friends_ctx_def is_ok_iff)
qed

lemma sample_catalog_wf: "catalog_wf sample_catalog"
  by (rule build_catalog_wf [OF build_sample])

end
