(* ===== verification/Lower_Properties.thy ===== *)
theory Lower_Properties
  imports Lower_Clauses Sample_Queries
begin

text \<open>
  What the lowering guarantees for queries the type checker accepted: it succeeds, its pipeline
  is scoped, it introduces every variable of a binding, keeps every filter and negation block,
  and places every traversal that is connected to a bound variable. The last section records
  the queries on which the code drops part of the match.
\<close>

section \<open>Totality and scope\<close>

lemma lower_query_Inr:
  assumes "lower_query cat q ctx = Inr ir"
  shows "\<exists>bound. lower_clauses cat ctx (set (map prm_name (q_params q)))
      (lower_param_types (q_params q)) (q_match_clause q) {} = Inr (qir_pipeline ir, bound)"
  using assms by (auto simp: lower_query_def Let_def split: if_splits prod.splits)

lemma checked_match_known:
  "typecheck_query cat q = Inr ctx \<Longrightarrow> list_all (clause_known cat) (q_match_clause q)"
  by (auto simp: typecheck_query_def typecheck_read_query_def split: if_splits
      dest: typecheck_clauses_known)

text \<open>
  Reading a lowered expression back: a parameter of the query, a variable that is none, or the
  request's timestamp, which lowering passes under a reserved parameter name.
\<close>

fun raise_expr :: "string set \<Rightarrow> ir_expr \<Rightarrow> expr option" where
  "raise_expr ps (IPropAccess v p) = Some (PropAccess v p)"
| "raise_expr ps (INearest v p q) = map_option (Nearest v p) (raise_expr ps q)"
| "raise_expr ps (ISearch f q) =
     Option.bind (raise_expr ps f) (\<lambda>f'. map_option (Search f') (raise_expr ps q))"
| "raise_expr ps (IFuzzy f q m) =
     Option.bind (raise_expr ps f) (\<lambda>f'. Option.bind (raise_expr ps q) (\<lambda>q'.
       case m of None \<Rightarrow> Some (Fuzzy f' q' None)
       | Some e \<Rightarrow> map_option (\<lambda>e'. Fuzzy f' q' (Some e')) (raise_expr ps e)))"
| "raise_expr ps (IMatchText f q) =
     Option.bind (raise_expr ps f) (\<lambda>f'. map_option (MatchText f') (raise_expr ps q))"
| "raise_expr ps (IBm25 f q) =
     Option.bind (raise_expr ps f) (\<lambda>f'. map_option (Bm25 f') (raise_expr ps q))"
| "raise_expr ps (IRrf a b k) =
     Option.bind (raise_expr ps a) (\<lambda>a'. Option.bind (raise_expr ps b) (\<lambda>b'.
       case k of None \<Rightarrow> Some (Rrf a' b' None)
       | Some e \<Rightarrow> map_option (\<lambda>e'. Rrf a' b' (Some e')) (raise_expr ps e)))"
| "raise_expr ps (IVariable v) = (if v \<in> ps then None else Some (Variable v))"
| "raise_expr ps (IParam n) =
     (if n \<in> ps then Some (Variable n) else if n = NOW_PARAM_NAME then Some Now else None)"
| "raise_expr ps (ILiteral l) = Some (Literal l)"
| "raise_expr ps (IAggregate f a) = map_option (Aggregate f) (raise_expr ps a)"
| "raise_expr ps (IAliasRef n) = Some (AliasRef n)"

lemma raise_lower_expr: "NOW_PARAM_NAME \<notin> ps \<Longrightarrow> raise_expr ps (lower_expr e ps) = Some e"
  by (induction e) (auto simp: lower_variable_def split: option.splits)

lemma checked_params_not_reserved:
  assumes "typecheck_query cat q = Inr ctx"
  shows "NOW_PARAM_NAME \<notin> set (map prm_name (q_params q))"
proof -
  obtain params where "parse_declared_param_types (q_params q) = Inr params"
    using assms by (auto simp: typecheck_query_def typecheck_read_query_def split: if_splits)
  from declared_params_keys [OF this [unfolded parse_declared_param_types_def]] show ?thesis by simp
qed

text \<open>
  C26: lowering a query the type checker accepted succeeds: no plan error, and none of the two
  panics on a missing type or property, in the match and in every negation block. The lowered
  query keeps its name, parameters and limit; its projections and orderings come in the same order,
  with the same aliases and directions, and each lowered expression reads back as the expression of
  the source, with the query's parameters told apart from its variables.
\<close>

theorem accepted_query_lowers:
  assumes "typecheck_query cat q = Inr ctx"
  shows "\<exists>ir. lower_query cat q ctx = Inr ir \<and>
    qir_name ir = q_name q \<and> qir_params ir = q_params q \<and> qir_limit ir = q_limit q \<and>
    map (\<lambda>p. (raise_expr (set (map prm_name (q_params q))) (ip_expr p), ip_alias p)) (qir_return_exprs ir) =
      map (\<lambda>p. (Some (proj_expr p), proj_alias p)) (q_return_clause q) \<and>
    map (\<lambda>o'. (raise_expr (set (map prm_name (q_params q))) (io_expr o'), io_descending o')) (qir_order_by ir) =
      map (\<lambda>o'. (Some (ord_expr o'), ord_descending o')) (q_order_clause q)"
proof -
  have "q_mutations q = []" using assms by (simp add: typecheck_query_def split: if_splits)
  moreover obtain ops bound where "lower_clauses cat ctx (set (map prm_name (q_params q)))
      (lower_param_types (q_params q)) (q_match_clause q) {} = Inr (ops, bound)"
    using lower_clauses_ok [OF checked_match_known [OF assms]] by blast
  ultimately show ?thesis
    using raise_lower_expr [OF checked_params_not_reserved [OF assms]]
    by (simp add: lower_query_def Let_def comp_def)
qed

theorem accepted_query_lowers_witness:
  "\<exists>ir. lower_query sample_catalog friends_query friends_ctx = Inr ir \<and> qir_limit ir = Some 10 \<and>
     map (\<lambda>p. raise_expr {''name''} (ip_expr p)) (qir_return_exprs ir) =
       map (\<lambda>p. Some (proj_expr p)) (q_return_clause friends_query)"
proof -
  have params: "set (map prm_name (q_params friends_query)) = {''name''}" by code_simp
  from accepted_query_lowers [OF check_friends, unfolded params] obtain ir where
    ir: "lower_query sample_catalog friends_query friends_ctx = Inr ir" "qir_limit ir = q_limit friends_query"
    and proj: "map (\<lambda>p. (raise_expr {''name''} (ip_expr p), ip_alias p)) (qir_return_exprs ir) =
      map (\<lambda>p. (Some (proj_expr p), proj_alias p)) (q_return_clause friends_query)" by blast
  from arg_cong [OF proj, of "map fst"] ir show ?thesis
    by (auto simp: comp_def friends_query_def read_query_def)
qed

text \<open>
  C35: every expansion of a lowered query starts from a variable that an earlier scan or
  expansion introduced, inside negation blocks too.
\<close>

theorem lowered_pipeline_scoped:
  assumes "lower_query cat q ctx = Inr ir"
  shows "scoped {} (qir_pipeline ir)"
  using lower_query_Inr [OF assms] lower_clauses_scoped by blast

definition friends_ir :: query_ir where
  "friends_ir = (case lower_query sample_catalog friends_query friends_ctx of
     Inr ir \<Rightarrow> ir
   | Inl _ \<Rightarrow> \<lparr>qir_name = [], qir_params = [], qir_pipeline = [], qir_return_exprs = [],
       qir_order_by = [], qir_limit = None\<rparr>)"

lemma lower_friends: "lower_query sample_catalog friends_query friends_ctx = Inr friends_ir"
proof -
  have "is_ok (lower_query sample_catalog friends_query friends_ctx)" by code_simp
  then show ?thesis by (auto simp: friends_ir_def is_ok_iff)
qed

theorem lowered_pipeline_scoped_witness: "scoped {} (qir_pipeline friends_ir)"
  by (rule lowered_pipeline_scoped [OF lower_friends])

section \<open>Every binding and every connected traversal is placed\<close>

text \<open>
  The breadth-first walk over the traversal graph visits exactly the variables connected to
  its start.
\<close>

theorem component_walk_is_reachability:
  "fst (walk_component (build_adjacency ts) bs [r] {} []) = {v. connected ts r v}"
  by (rule walk_component_visits)

text \<open>
  Every variable with a binding in the match is introduced by a scan or an expansion of the
  pipeline, although only one binding of each connected component is scanned.
\<close>

theorem every_binding_introduced:
  assumes "lower_query cat q ctx = Inr ir" and "CBinding b \<in> set (q_match_clause q)"
  shows "b_variable b \<in> introduced (qir_pipeline ir)"
proof -
  obtain bound where "lower_clauses cat ctx (set (map prm_name (q_params q)))
      (lower_param_types (q_params q)) (q_match_clause q) {} = Inr (qir_pipeline ir, bound)"
    using lower_query_Inr [OF assms(1)] by blast
  then obtain s joins where s: "lower_flat cat ctx (set (map prm_name (q_params q)))
      (lower_param_types (q_params q)) (q_match_clause q) {} = Inr s"
    and ops: "qir_pipeline ir = ls_pipeline s @ joins"
    using lower_clauses_Inr by blast
  have "b_variable b \<in> ls_bound s"
    using lower_flat_facts(4) [OF s] assms(2) by (auto simp: in_clause_kinds)
  then show ?thesis using lower_flat_facts(3) [OF s] by (auto simp: ops)
qed

theorem every_binding_introduced_witness: "''p'' \<in> introduced (qir_pipeline friends_ir)"
  using every_binding_introduced [OF lower_friends, of
      "\<lparr>b_variable = ''p'', b_type_name = ''Person'', b_prop_matches =
        [\<lparr>pm_prop_name = ''name'', pm_value = MVVariable ''name''\<rparr>]\<rparr>"]
  by (simp add: friends_query_def read_query_def friends_clauses_def simple_binding_def)

text \<open>
  C27: a clause list is lowered with one expansion for each of its traversals, except those
  neither of whose endpoints is bound in the end; every other endpoint but the anonymous one is
  bound.
\<close>

theorem traversals_placed_unless_disconnected:
  assumes "lower_flat cat ctx ps pt cs bound = Inr s"
  shows "expands (ls_pipeline s) =
      length (filter (\<lambda>t. \<not> unplaced (ls_bound s) t) (traversals_of cs)) \<and>
    (CTraversal t \<in> set cs \<and> \<not> unplaced (ls_bound s) t \<longrightarrow> endpoints t \<subseteq> ls_bound s)"
proof -
  have "length (filter (\<lambda>t. \<not> unplaced (ls_bound s) t) (traversals_of cs)) +
      length (filter (unplaced (ls_bound s)) (traversals_of cs)) = length (traversals_of cs)"
    using sum_length_filter_compl [of "unplaced (ls_bound s)" "traversals_of cs"] by simp
  with lower_flat_facts(5) [OF assms] lower_flat_facts(6) [OF assms, of t] show ?thesis
    by (auto simp: in_clause_kinds)
qed

definition friends_flat :: lower_state where
  "friends_flat = (case lower_flat sample_catalog friends_ctx {''name''} [] friends_clauses {} of
     Inr s \<Rightarrow> s | Inl _ \<Rightarrow> \<lparr>ls_pipeline = [], ls_bound = {}, ls_deferred = []\<rparr>)"

theorem traversals_placed_unless_disconnected_witness:
  "expands (ls_pipeline friends_flat) =
     length (filter (\<lambda>t. \<not> unplaced (ls_bound friends_flat) t) (traversals_of friends_clauses))"
proof -
  have "is_ok (lower_flat sample_catalog friends_ctx {''name''} [] friends_clauses {})" by code_simp
  then have "lower_flat sample_catalog friends_ctx {''name''} [] friends_clauses {} = Inr friends_flat"
    by (auto simp: friends_flat_def is_ok_iff)
  from traversals_placed_unless_disconnected [OF this] show ?thesis by blast
qed

text \<open>
  No filter and no negation block of the match is lost: each filter is an operator of the
  pipeline with both sides lowered, and each negation block an anti-join over its own lowered
  clauses.
\<close>

theorem filters_and_negations_kept:
  assumes "lower_clauses cat ctx ps pt cs bound = Inr (ops, bound')"
  shows "(CFilter f \<in> set cs \<longrightarrow>
      (\<exists>op. IFilter \<lparr>if_left = lower_expr (f_left f) ps, if_op = op,
                     if_right = lower_expr (f_right f) ps\<rparr> \<in> set ops)) \<and>
    (CNegation neg \<in> set cs \<longrightarrow>
      (\<exists>v inner b. lower_clauses cat ctx ps pt neg bound' = Inr (inner, b) \<and>
                   AntiJoin v inner \<in> set ops))"
proof -
  obtain s joins where s: "lower_flat cat ctx ps pt cs bound = Inr s"
    and ops: "ops = ls_pipeline s @ joins" and b: "bound' = ls_bound s"
    and joins: "list_all2 (\<lambda>neg op. \<exists>inner b.
        lower_clauses cat ctx ps pt neg (ls_bound s) = Inr (inner, b) \<and>
        op = AntiJoin (case find_outer_var neg (ls_bound s) of Some v \<Rightarrow> v | None \<Rightarrow> []) inner)
      (negations_of cs) joins"
    using lower_clauses_Inr [OF assms] by blast
  have "lower_filter cat ctx ps pt (local_bindings cat (traversals_of cs) (bindings_of cs)) f
      \<in> set (ls_pipeline s)" if "CFilter f \<in> set cs"
    using lower_flat_Inr [OF s] that by (auto simp: in_clause_kinds)
  moreover have "\<exists>v inner b. lower_clauses cat ctx ps pt neg bound' = Inr (inner, b) \<and>
      AntiJoin v inner \<in> set joins" if "CNegation neg \<in> set cs"
  proof -
    from that have "neg \<in> set (negations_of cs)" by (simp add: in_clause_kinds)
    then obtain i where "i < length (negations_of cs)" "negations_of cs ! i = neg"
      by (auto simp: in_set_conv_nth)
    with joins show ?thesis unfolding b list_all2_conv_all_nth by (metis nth_mem)
  qed
  ultimately show ?thesis by (auto simp: ops lower_filter_def)
qed

theorem filters_and_negations_kept_witness:
  "\<exists>v inner. AntiJoin v inner \<in> set (qir_pipeline friends_ir)"
proof -
  obtain bound where "lower_clauses sample_catalog friends_ctx
      (set (map prm_name (q_params friends_query))) (lower_param_types (q_params friends_query))
      (q_match_clause friends_query) {} = Inr (qir_pipeline friends_ir, bound)"
    using lower_query_Inr [OF lower_friends] by blast
  from filters_and_negations_kept [OF this, of undefined "[one_hop ''f'' ''worksAt'' ''c'']"]
  show ?thesis by (auto simp: friends_query_def read_query_def friends_clauses_def)
qed

section \<open>Expressions\<close>

text \<open>
  Lowering an expression loses nothing: two expressions that lower to the same form are
  equal, as long as no parameter has the reserved name of the request's timestamp.
\<close>

theorem lower_expr_injective:
  assumes "NOW_PARAM_NAME \<notin> ps" and "lower_expr e ps = lower_expr e' ps"
  shows "e = e'"
  using assms raise_lower_expr by (metis option.inject)

theorem lower_expr_injective_witness:
  "lower_expr (Variable ''name'') {''name''} \<noteq> lower_expr (Variable ''p'') {''name''}"
  using lower_expr_injective [of "{''name''}" "Variable ''name''" "Variable ''p''"]
  by (auto simp: NOW_PARAM_NAME_def)

end
