(* ===== verification/Typecheck_Properties.thy ===== *)
theory Typecheck_Properties
  imports Sample_Queries
begin

text \<open>
  What an accepted query guarantees: variables and traversals that fit the catalog, Blob values
  that never leave, negation blocks tied to the outer match, ranked orderings with a limit and
  a result schema that can always be inferred.
\<close>

section \<open>Queries\<close>

lemma typecheck_query_read: "typecheck_query cat q = Inr ctx \<Longrightarrow> typecheck_read_query cat q = Inr ctx"
  by (simp add: typecheck_query_def split: if_splits)

lemma checked_query_wf:
  assumes "catalog_wf cat" and "typecheck_query cat q = Inr ctx"
  shows "ctx_wf cat ctx"
proof -
  obtain params ctx1 al where "parse_declared_param_types (q_params q) = Inr params"
      "typecheck_clauses cat params (q_match_clause q) empty_ctx = Inr ctx1"
      "r_fold (typecheck_projection cat params) (q_return_clause q) (ctx1, hm_empty) = Inr (ctx, al)"
    using typecheck_read_query_Inr [OF typecheck_query_read [OF assms(2)]] by blast
  from typecheck_read_query_wf(2) [OF assms(1) this] show ?thesis .
qed

text \<open>The declared type of a property of a bound variable.\<close>

definition declared_property ::
    "catalog \<Rightarrow> type_context \<Rightarrow> string \<Rightarrow> string \<Rightarrow> prop_type option" where
  "declared_property cat ctx v p =
     (case hm_get (tc_bindings ctx) v of
        Some (VNode t) \<Rightarrow>
          Option.bind (hm_get (cat_node_types cat) t) (\<lambda>nt. hm_get (nt_properties nt) p)
      | Some (VEdge t) \<Rightarrow>
          Option.bind (lookup_edge_by_name cat t) (\<lambda>et. hm_get (et_properties et) p)
      | None \<Rightarrow> None)"

lemma resolve_prop_access_declared:
  "resolve_prop_access cat ctx v p = Inr r \<longleftrightarrow>
     (\<exists>pt. declared_property cat ctx v p = Some pt \<and> pt_scalar pt \<noteq> SBlob \<and> r = RScalar pt)"
  by (auto simp: resolve_prop_access_Inr_iff declared_property_def
      split: option.splits bound_variable.splits bind_splits)

lemma declared_property_bindings:
  "tc_bindings c = tc_bindings d \<Longrightarrow> declared_property cat c = declared_property cat d"
  by (intro ext) (simp add: declared_property_def)

lemma accepted_reads_no_blob:
  assumes "resolve_expr_type cat e ctx params = Inr r" and "PropAccess v p \<in> set (subexprs e)"
  shows "\<exists>pt. declared_property cat ctx v p = Some pt \<and> pt_scalar pt \<noteq> SBlob"
  using resolve_subexprs [OF assms] by (auto simp: resolve_prop_access_declared)

text \<open>The expressions a query returns or orders by, each accepted in some checked context.\<close>

definition output_exprs :: "query_decl \<Rightarrow> expr list" where
  "output_exprs q = map proj_expr (q_return_clause q) @ map ord_expr (q_order_clause q)"

lemma output_expr_accepted:
  assumes cat: "catalog_wf cat" and q: "typecheck_query cat q = Inr ctx"
    and e: "e \<in> set (output_exprs q)"
  shows "\<exists>params ctx' r. parse_declared_param_types (q_params q) = Inr params \<and>
    ctx_wf cat ctx' \<and> tc_bindings ctx' = tc_bindings ctx \<and>
    resolve_expr_type cat e ctx' params = Inr r \<and> blob_free r"
proof -
  obtain params ctx1 al where params: "parse_declared_param_types (q_params q) = Inr params"
    and clauses: "typecheck_clauses cat params (q_match_clause q) empty_ctx = Inr ctx1"
    and projs: "r_fold (typecheck_projection cat params) (q_return_clause q) (ctx1, hm_empty)
      = Inr (ctx, al)"
    and ords: "\<forall>ord \<in> set (q_order_clause q). typecheck_ordering cat params ctx ord = Inr ()"
    using typecheck_read_query_Inr [OF typecheck_query_read [OF q]] by blast
  note wf = typecheck_read_query_wf [OF cat params clauses projs]
  from e consider p where "p \<in> set (q_return_clause q)" "e = proj_expr p"
    | d where "d \<in> set (q_order_clause q)" "e = ord_expr d"
    by (auto simp: output_exprs_def)
  then show ?thesis
  proof cases
    case (1 p)
    have "projected cat params (ctx1, hm_empty)" using wf cat by (simp add: projected_def)
    then obtain s1 s2 where s: "projected cat params s1" "typecheck_projection cat params p s1 = Inr s2"
      "projected_le (ctx1, hm_empty) s1"
      using projections.loop_step [OF projs _ 1(1)] by blast
    then obtain r where "resolve_expr_type cat e (fst s1) params = Inr r" "blob_free r"
      by (auto simp: typecheck_projection_def 1 split: prod.splits)
    then show ?thesis
      using s(1,3) wf(3) params by (auto simp: projected_def projected_le_def)
  next
    case (2 d)
    then show ?thesis using ords wf(2) params by (fastforce simp: typecheck_ordering_def)
  qed
qed

text \<open>
  In an accepted query every variable is bound to a node or edge type of the catalog.
\<close>

theorem checked_variables_have_types:
  assumes "build_catalog schema = Inr cat" and "typecheck_query cat q = Inr ctx"
    and "hm_get (tc_bindings ctx) v = Some bv"
  shows "case bv of VNode t \<Rightarrow> hm_contains (cat_node_types cat) t
                  | VEdge t \<Rightarrow> hm_contains (cat_edge_types cat) t"
  using checked_query_wf [OF build_catalog_wf [OF assms(1)] assms(2)] assms(3)
  by (auto simp: ctx_wf_def bindings_wf_def binding_wf_def split: bound_variable.splits)

theorem checked_variables_have_types_witness:
  "hm_contains (cat_edge_types sample_catalog) ''Knows''"
proof -
  have "hm_get (tc_bindings friends_ctx) ''w'' = Some (VEdge ''Knows'')" by code_simp
  from checked_variables_have_types [OF build_sample check_friends this] show ?thesis by simp
qed

text \<open>
  Every traversal of an accepted query has finite hop bounds with a lower bound of at
  least one, an edge type of the catalog, and endpoints of the node types that edge has in the
  direction recorded; an undirected one runs over an edge between equal types, and a bound edge
  variable only over a single hop.
\<close>

theorem checked_traversals_fit_schema:
  assumes "build_catalog schema = Inr cat" and "typecheck_query cat q = Inr ctx"
    and "rt \<in> set (tc_traversals ctx)"
  shows "\<exists>et m. hm_get (cat_edge_types cat) (rt_edge_type rt) = Some et \<and>
    rt_max_hops rt = Some m \<and> 1 \<le> rt_min_hops rt \<and> rt_min_hops rt \<le> m \<and>
    (rt_direction rt = Both \<longrightarrow> et_from_type et = et_to_type et) \<and>
    has_node_type ctx (rt_src rt) (if rt_direction rt = In then et_to_type et else et_from_type et) \<and>
    has_node_type ctx (rt_dst rt) (if rt_direction rt = In then et_from_type et else et_to_type et) \<and>
    edge_var_wf ctx rt"
proof -
  have "traversal_wf cat ctx rt"
    using checked_query_wf [OF build_catalog_wf [OF assms(1)] assms(2)] assms(3)
    by (simp add: ctx_wf_def list_all_iff)
  then show ?thesis
    by (auto simp: traversal_wf_def hops_wf_def endpoint_types_def split: option.splits if_splits)
qed

theorem checked_traversals_fit_schema_witness:
  "\<exists>et. hm_get (cat_edge_types sample_catalog) ''Knows'' = Some et"
proof -
  have "\<lparr>rt_src = ''p'', rt_dst = ''f'', rt_edge_type = ''Knows'', rt_direction = Out,
      rt_min_hops = 1, rt_max_hops = Some 1, rt_edge_binding = Some ''w''\<rparr>
    \<in> set (tc_traversals friends_ctx)" by code_simp
  from checked_traversals_fit_schema [OF build_sample check_friends this] show ?thesis by auto
qed

text \<open>
  C28: Blob containment. No property read anywhere below an expression that an accepted query returns
  or orders by is a Blob property.
\<close>

theorem no_blob_in_output:
  assumes "build_catalog schema = Inr cat" and "typecheck_query cat q = Inr ctx"
    and "e \<in> set (output_exprs q)" and "PropAccess v p \<in> set (subexprs e)"
  shows "\<exists>pt. declared_property cat ctx v p = Some pt \<and> pt_scalar pt \<noteq> SBlob"
proof -
  obtain params ctx' r where "tc_bindings ctx' = tc_bindings ctx"
      "resolve_expr_type cat e ctx' params = Inr r"
    using output_expr_accepted [OF build_catalog_wf [OF assms(1)] assms(2,3)] by blast
  with accepted_reads_no_blob [OF this(2) assms(4)] declared_property_bindings show ?thesis by metis
qed

theorem no_blob_in_output_witness:
  "\<exists>pt. declared_property sample_catalog friends_ctx ''f'' ''name'' = Some pt \<and> pt_scalar pt \<noteq> SBlob"
  by (rule no_blob_in_output [OF build_sample check_friends, of "PropAccess ''f'' ''name''"])
    (simp_all add: output_exprs_def friends_query_def read_query_def project_def)

section \<open>Filters\<close>

text \<open>The table of operand types a filter accepts.\<close>

definition filter_operands_ok :: "comp_op \<Rightarrow> prop_type \<Rightarrow> prop_type \<Rightarrow> bool" where
  "filter_operands_ok op l r \<longleftrightarrow>
     pt_scalar l \<noteq> SBlob \<and> pt_scalar r \<noteq> SBlob \<and> \<not> pt_list r \<and>
     (if pt_list l
      then op = OpContains \<and> \<not> is_vector (pt_scalar l) \<and> \<not> is_vector (pt_scalar r) \<and>
           (pt_scalar l = pt_scalar r \<or> is_numeric (pt_scalar l) \<and> is_numeric (pt_scalar r))
      else if op = OpContains \<or> op = OpStartsWith \<or> op = OpStringContains
      then pt_scalar l = SString \<and> pt_scalar r = SString
      else \<not> is_vector (pt_scalar l) \<and> \<not> is_vector (pt_scalar r) \<and> types_compatible l r)"

lemma check_filter_types_iff:
  "check_filter_types op lt rt = Inr u \<longleftrightarrow>
     (\<exists>l r. lt = RScalar l \<and> rt = RScalar r \<and> filter_operands_ok op l r)"
proof (cases "\<exists>l r. lt = RScalar l \<and> rt = RScalar r")
  case True
  then obtain l r where lr: "lt = RScalar l" "rt = RScalar r" by blast
  show ?thesis
    by (cases op; cases "pt_list l"; cases "pt_list r")
      (auto simp: lr check_filter_types_def filter_operands_ok_def check_contains_filter_def
        check_string_filter_def check_compare_filter_def types_compatible_iff)
qed (auto simp: check_filter_types_def split: resolved_type.splits)

text \<open>
  A filter is accepted exactly when both operands resolve to scalars that fit its operator:
  equal or numeric types for comparisons, strings for the string operators, a member type for
  list membership, and never a Blob, a vector or two lists.
\<close>

theorem filter_accepted_iff:
  "is_ok (typecheck_filter cat params f ctx) \<longleftrightarrow>
     (\<exists>l r. resolve_expr_type cat (f_left f) ctx params = Inr (RScalar l) \<and>
            resolve_expr_type cat (f_right f) ctx params = Inr (RScalar r) \<and>
            filter_operands_ok (f_op f) l r)"
  by (auto simp: typecheck_filter_def is_ok_iff check_filter_types_iff)

section \<open>Negation blocks\<close>

definition expr_head_var :: "expr \<Rightarrow> string option" where
  "expr_head_var e =
     (case e of PropAccess v _ \<Rightarrow> Some v | Nearest v _ _ \<Rightarrow> Some v | Variable v \<Rightarrow> Some v
      | _ \<Rightarrow> None)"

definition expr_vars :: "expr \<Rightarrow> string set" where
  "expr_vars e = {v. \<exists>s \<in> set (subexprs e). expr_head_var s = Some v}"

lemma expr_references_any_iff:
  "expr_references_any e vars \<longleftrightarrow> expr_vars e \<inter> set vars \<noteq> {}"
  unfolding expr_vars_def
  by (induction e) (auto simp: expr_head_var_def split: option.splits)

definition clause_vars :: "clause \<Rightarrow> string set" where
  "clause_vars c =
     (case c of
        CBinding b \<Rightarrow> {b_variable b}
      | CTraversal t \<Rightarrow> {t_src t, t_dst t}
      | CFilter f \<Rightarrow> expr_vars (f_left f) \<union> expr_vars (f_right f)
      | CNegation _ \<Rightarrow> {})"

lemma clause_has_outer_iff: "clause_has_outer vars c \<longleftrightarrow> clause_vars c \<inter> set vars \<noteq> {}"
  by (cases c) (auto simp: clause_vars_def expr_references_any_iff)

text \<open>
  An accepted negation block has a clause that mentions a variable bound before the block,
  and nothing the block binds is visible after it.
\<close>

theorem negation_is_correlated:
  assumes "typecheck_clause cat params (CNegation inner) ctx = Inr ctx'"
  shows "ctx' = ctx \<and>
    (\<exists>c v. c \<in> set inner \<and> v \<in> clause_vars c \<and> hm_contains (tc_bindings ctx) v)"
proof -
  from assms have "ctx' = ctx" and ex: "list_ex (clause_has_outer (hm_keys (tc_bindings ctx))) inner"
    by auto
  then show ?thesis
    by (auto simp: list_ex_iff clause_has_outer_iff hm_keys_get hm_contains_def disjoint_iff)
qed

definition pf_ctx :: type_context where
  "pf_ctx = \<lparr>tc_bindings = [(''f'', VNode ''Person'')], tc_aliases = [], tc_traversals = []\<rparr>"

theorem negation_is_correlated_witness:
  "\<exists>v. hm_contains (tc_bindings pf_ctx) v"
proof -
  have "is_ok (typecheck_clause sample_catalog [] (CNegation [one_hop ''f'' ''worksAt'' ''c'']) pf_ctx)"
    by code_simp
  then obtain ctx' where
    "typecheck_clause sample_catalog [] (CNegation [one_hop ''f'' ''worksAt'' ''c'']) pf_ctx = Inr ctx'"
    by (auto simp: is_ok_iff)
  from negation_is_correlated [OF this] show ?thesis by blast
qed

section \<open>Ranked orderings\<close>

text \<open>
  C36: the two walks that look for ranking functions behind aliases find exactly what unfolding
  the aliases without any limit finds, cyclic alias definitions included.
\<close>

theorem alias_walks_find_all:
  "(expr_contains_rrf_with_aliases e aliases \<longleftrightarrow>
      (\<exists>n. mentions is_rrf ranked_below aliases n e)) \<and>
   (expr_contains_standalone_nearest_with_aliases e aliases \<longleftrightarrow>
      (\<exists>n. mentions is_nearest ranked_below aliases n e))"
  by (simp_all add: expr_contains_rrf_with_aliases_def rrf_walk.walk_iff_mentions
      expr_contains_standalone_nearest_with_aliases_def nearest_walk.walk_iff_mentions)

definition add_alias_expr :: "projection \<Rightarrow> (string, expr) hmap \<Rightarrow> (string, expr) hmap" where
  "add_alias_expr p m =
     (case proj_alias p of None \<Rightarrow> m | Some a \<Rightarrow> hm_insert a (proj_expr p) m)"

definition alias_exprs :: "query_decl \<Rightarrow> (string, expr) hmap" where
  "alias_exprs q = fold add_alias_expr (q_return_clause q) hm_empty"

lemma projections_collect_aliases:
  "r_fold (typecheck_projection cat params) ps (ctx, al) = Inr (ctx', al') \<Longrightarrow>
     al' = fold add_alias_expr ps al"
proof (induction ps arbitrary: ctx al)
  case (Cons p ps)
  then obtain c1 a1 where 1: "typecheck_projection cat params p (ctx, al) = Inr (c1, a1)"
    and 2: "r_fold (typecheck_projection cat params) ps (c1, a1) = Inr (ctx', al')" by auto
  have "a1 = add_alias_expr p al"
    using 1 by (auto simp: typecheck_projection_def add_alias_expr_def split: option.splits)
  with Cons.IH [OF 2] show ?case by simp
qed simp

lemma accepted_ranked_ordering:
  assumes "typecheck_query cat q = Inr ctx"
  shows "check_ranked_ordering q (alias_exprs q) = Inr ()"
  using typecheck_read_query_Inr [OF typecheck_query_read [OF assms]]
  by (auto simp: alias_exprs_def dest: projections_collect_aliases)

text \<open>
  When an accepted query orders by a ranking function, directly or through any chain of
  aliases, it has a limit; next to a standalone \<^verbatim>\<open>nearest\<close> no ordering is an alias.
\<close>

theorem ranked_ordering_has_limit:
  assumes "typecheck_query cat q = Inr ctx" and "ord \<in> set (q_order_clause q)"
  shows "(mentions is_rrf ranked_below (alias_exprs q) n (ord_expr ord) \<longrightarrow> q_limit q \<noteq> None) \<and>
    (mentions is_nearest ranked_below (alias_exprs q) n (ord_expr ord) \<longrightarrow>
       q_limit q \<noteq> None \<and> (\<forall>d \<in> set (q_order_clause q). \<not> is_alias_ref (ord_expr d)))"
proof -
  have "check_ranked_ordering q (alias_exprs q) = Inr ()"
    by (rule accepted_ranked_ordering [OF assms(1)])
  moreover have "mentions is_rrf ranked_below al n e \<Longrightarrow> expr_contains_rrf_with_aliases e al"
      "mentions is_nearest ranked_below al n e \<Longrightarrow>
        expr_contains_standalone_nearest_with_aliases e al" for al e
    unfolding expr_contains_rrf_with_aliases_def expr_contains_standalone_nearest_with_aliases_def
      rrf_walk.walk_iff_mentions nearest_walk.walk_iff_mentions by blast+
  ultimately show ?thesis
    using assms(2) by (auto simp: check_ranked_ordering_def Let_def list_ex_iff split: if_splits)
qed

definition ranked_query :: query_decl where
  "ranked_query =
     (read_query [simple_binding ''p'' ''Person'' []]
       [\<lparr>proj_expr = Bm25 (PropAccess ''p'' ''name'') (Variable ''name''), proj_alias = Some ''s''\<rparr>])
     \<lparr>q_order_clause := [\<lparr>ord_expr = Rrf (Nearest ''p'' ''vec'' (Literal (LList [LInteger 1, LFloat 0])))
          (Bm25 (PropAccess ''p'' ''name'') (Variable ''name'')) None, ord_descending = True\<rparr>],
      q_limit := Some 5\<rparr>"

theorem ranked_ordering_has_limit_witness: "q_limit ranked_query \<noteq> None"
proof -
  have "is_ok (typecheck_query sample_catalog ranked_query)" by code_simp
  then obtain ctx where ok: "typecheck_query sample_catalog ranked_query = Inr ctx"
    by (auto simp: is_ok_iff)
  obtain ord where ord: "ord \<in> set (q_order_clause ranked_query)" "is_rrf (ord_expr ord)"
    by (simp add: ranked_query_def is_rrf_def)
  then show ?thesis using ranked_ordering_has_limit [OF ok ord(1), of 0] by simp
qed

section \<open>The result schema\<close>

text \<open>
  An expression keeps its type when more variables are bound: what was accepted in a
  context is accepted, with the same type, in every context that extends it.
\<close>

theorem resolution_is_stable:
  assumes "resolve_expr_type cat e ctx params = Inr r" and "ctx_le ctx ctx'"
  shows "resolve_expr_type cat e ctx' params = Inr r"
  using resolve_weaken [OF _ assms(1), of ctx'] assms(2) by (simp add: ctx_le_def)

theorem resolution_is_stable_witness:
  "resolve_expr_type sample_catalog (PropAccess ''f'' ''age'') friends_ctx [] =
     Inr (RScalar (pt_of_scalar SI32 True))"
proof (rule resolution_is_stable [of _ _ pf_ctx])
  show "resolve_expr_type sample_catalog (PropAccess ''f'' ''age'') pf_ctx [] =
      Inr (RScalar (pt_of_scalar SI32 True))" by code_simp
  have "hm_get (tc_bindings friends_ctx) ''f'' = Some (VNode ''Person'')" by code_simp
  moreover have "tc_aliases friends_ctx = []" by code_simp
  ultimately show "ctx_le pf_ctx friends_ctx"
    by (auto simp: ctx_le_def map_extends_def pf_ctx_def hm_get_def)
qed

text \<open>
  The result schema of an accepted query can be inferred, with one field for each
  projection, named as the projection is; this covers every query whose projections do not
  refer to other projections by alias.
\<close>

theorem result_schema_inferred:
  assumes "build_catalog schema = Inr cat" and "typecheck_query cat q = Inr ctx"
    and "list_all (\<lambda>p. alias_free (proj_expr p)) (q_return_clause q)"
  shows "\<exists>flds. infer_query_result_schema cat q ctx = Inr flds \<and>
    list_all2 (\<lambda>p fld. \<exists>dt n. fld = Field (projection_name (proj_expr p) (proj_alias p)) dt n)
      (q_return_clause q) flds"
proof -
  note cat = build_catalog_wf [OF assms(1)]
  note wf = checked_query_wf [OF cat assms(2)]
  obtain params where params: "parse_declared_param_types (q_params q) = Inr params"
    using typecheck_read_query_Inr [OF typecheck_query_read [OF assms(2)]] by blast
  let ?infer = "\<lambda>p. infer_projection_field cat (proj_expr p) (proj_alias p) ctx params"
  have each: "\<exists>dt n. ?infer p = Inr (Field (projection_name (proj_expr p) (proj_alias p)) dt n)"
    if p: "p \<in> set (q_return_clause q)" for p
  proof -
    obtain ctx' r where b: "tc_bindings ctx' = tc_bindings ctx"
      and res: "resolve_expr_type cat (proj_expr p) ctx' params = Inr r" and r: "blob_free r"
      using output_expr_accepted [OF cat assms(2), of "proj_expr p"] p params
      by (auto simp: output_exprs_def)
    have "alias_free (proj_expr p)" using assms(3) p by (simp add: list_all_iff)
    then have "resolve_expr_type cat (proj_expr p) ctx params = Inr r"
      using resolve_weaken [OF _ res, of ctx] b by simp
    then show ?thesis
      using infer_projection_field_ok [OF cat _ _ _ _ r] wf parse_declared_param_types_wf [OF params]
      by (simp add: ctx_wf_def)
  qed
  have "is_ok (r_map ?infer (q_return_clause q))"
    by (rule r_map_is_ok) (use each in \<open>auto simp: is_ok_iff\<close>)
  then obtain flds where flds: "r_map ?infer (q_return_clause q) = Inr flds"
    by (auto simp: is_ok_iff)
  then have "list_all2 (\<lambda>p fld. ?infer p = Inr fld) (q_return_clause q) flds"
    by (simp add: r_map_Inr_iff)
  then have "list_all2 (\<lambda>p fld. \<exists>dt n. fld = Field (projection_name (proj_expr p) (proj_alias p)) dt n)
      (q_return_clause q) flds"
  proof (rule list.rel_mono_strong)
    fix p fld
    assume "p \<in> set (q_return_clause q)" and "?infer p = Inr fld"
    with each [of p] show "\<exists>dt n. fld = Field (projection_name (proj_expr p) (proj_alias p)) dt n"
      by auto
  qed
  with flds show ?thesis by (simp add: infer_query_result_schema_def params)
qed

theorem result_schema_inferred_witness:
  "\<exists>flds. infer_query_result_schema sample_catalog friends_query friends_ctx = Inr flds"
  using result_schema_inferred [OF build_sample check_friends]
  by (auto simp: friends_query_def read_query_def project_def alias_free_def)

end
