(* ===== verification/Lower_Contains.thy ===== *)
theory Lower_Contains
  imports Lower_Properties Typecheck_Properties
begin

text \<open>
  The overloaded \<^verbatim>\<open>contains\<close>: the type checker decides by the left operand's type whether a
  filter is list membership or a substring test, and the lowering decides again from its own
  table of variable types. The two agree whenever that table agrees with the type context,
  which it does unless a traversal runs against the direction of its edge.
\<close>

section \<open>Parameter types\<close>

lemma lower_param_types_fold:
  "r_fold declare_param ps out = Inr params \<Longrightarrow>
     fold (\<lambda>p m. case from_param_type_name (prm_type_name p) (prm_nullable p) of
             None \<Rightarrow> m
           | Some t \<Rightarrow> hm_insert (prm_name p) t m) ps out = params"
proof (induction ps arbitrary: out)
  case (Cons p ps)
  then obtain out' where 1: "declare_param p out = Inr out'"
    and 2: "r_fold declare_param ps out' = Inr params" by auto
  from 1 have "(case from_param_type_name (prm_type_name p) (prm_nullable p) of
      None \<Rightarrow> out | Some t \<Rightarrow> hm_insert (prm_name p) t out) = out'"
    by (auto simp: declare_param_def split: if_splits option.splits)
  with Cons.IH [OF 2] show ?case by simp
qed simp

lemma lower_param_types_eq:
  "parse_declared_param_types ps = Inr params \<Longrightarrow> lower_param_types ps = params"
  by (simp add: parse_declared_param_types_def lower_param_types_def lower_param_types_fold)

text \<open>The left operand of an accepted \<^verbatim>\<open>contains\<close> refers to no alias, so its type is stable.\<close>

lemma resolve_scalar_weaken:
  assumes "resolve_expr_type cat (f_left f) c1 params = Inr (RScalar l)"
    and "tc_aliases c1 = hm_empty" and "map_extends (tc_bindings c1) (tc_bindings ctx)"
    and "typecheck_filter cat params f c1 = Inr ()" and "f_op f = OpContains"
  shows "resolve_expr_type cat (f_left f) ctx params = Inr (RScalar l)"
proof -
  have ops: "\<exists>r. filter_operands_ok OpContains l r"
    using assms(1,4,5) by (auto simp: typecheck_filter_def check_filter_types_iff)
  then have "alias_free (f_left f)"
    using assms(1,2)
    by (cases "f_left f")
      (auto simp: alias_free_def filter_operands_ok_def split: option.splits if_splits)
  then show ?thesis using resolve_weaken [OF assms(3,1)] by simp
qed

section \<open>The local table of variable types\<close>

definition agrees ::
    "(string, bound_variable) hmap \<Rightarrow> (string, bound_variable) hmap \<Rightarrow> bool" where
  "agrees local global \<longleftrightarrow>
     (\<forall>v a b. hm_get local v = Some a \<longrightarrow> hm_get global v = Some b \<longrightarrow> a = b)"

lemma agrees_or_insert:
  "agrees local g \<Longrightarrow> (\<And>b. hm_get g v = Some b \<Longrightarrow> b = a) \<Longrightarrow> agrees (hm_or_insert v a local) g"
  by (auto simp: agrees_def split: if_splits)

lemma agrees_insert:
  "agrees local g \<Longrightarrow> (\<And>b. hm_get g v = Some b \<Longrightarrow> b = a) \<Longrightarrow> agrees (hm_insert v a local) g"
  by (auto simp: agrees_def)

text \<open>Removing one variable from a table, to set the anonymous variable aside.\<close>

definition without :: "string \<Rightarrow> (string, 'v) hmap \<Rightarrow> (string, 'v) hmap" where
  "without v m = hm_remove v m"

lemma agrees_traversal:
  assumes "agrees local (without wildcard g)"
    and edge: "lookup_edge_by_name cat (t_edge_name t) = Some et"
    and src: "t_src t \<noteq> wildcard \<Longrightarrow> hm_get g (t_src t) = Some (VNode (et_from_type et))"
    and dst: "t_dst t \<noteq> wildcard \<Longrightarrow> hm_get g (t_dst t) = Some (VNode (et_to_type et))"
    and eb: "\<And>b. named_edge_binding t = Some b \<Longrightarrow> hm_get g b = Some (VEdge (et_name et))"
  shows "agrees (add_local_traversal cat t local) (without wildcard g)"
proof -
  have "agrees (hm_or_insert (t_dst t) (VNode (et_to_type et))
      (hm_or_insert (t_src t) (VNode (et_from_type et)) local)) (without wildcard g)"
    by (intro agrees_or_insert) (use assms in \<open>auto simp: without_def split: if_splits\<close>)
  moreover have "b' = VEdge (et_name et)"
    if "t_edge_binding t = Some b" "hm_get (without wildcard g) b = Some b'" for b b'
    using that eb [of b] by (auto simp: without_def named_edge_binding_def split: if_splits)
  ultimately show ?thesis
    by (auto simp: add_local_traversal_def edge Let_def intro: agrees_or_insert split: option.splits)
qed

lemma local_insert_fold:
  "hm_get (fold (\<lambda>b. hm_insert (b_variable b) (VNode (b_type_name b))) bs m) v = Some a \<Longrightarrow>
     (\<exists>b \<in> set bs. b_variable b = v \<and> a = VNode (b_type_name b)) \<or>
     (v \<notin> b_variable ` set bs \<and> hm_get m v = Some a)"
proof (induction bs arbitrary: m)
  case (Cons b bs)
  then show ?case by (fastforce split: if_splits)
qed simp

text \<open>
  A match whose traversals all run along their edges: the table the lowering builds agrees with
  the context the checker returned.
\<close>

lemma checked_clause_in_ctx:
  assumes "catalog_wf cat" and "typecheck_clauses cat params cs empty_ctx = Inr ctx" and "c \<in> set cs"
  shows "\<exists>c1 c2. ctx_wf cat c1 \<and> typecheck_clause cat params c c1 = Inr c2 \<and> ctx_le c2 ctx \<and>
    ctx_le empty_ctx c1"
  using clauses.loop_step [of cat params cs empty_ctx ctx c] assms empty_ctx_wf
  by (auto simp: typecheck_clauses_def checked_ctx_def)

lemma checked_traversal_in_ctx:
  assumes "catalog_wf cat" and "typecheck_clauses cat params cs empty_ctx = Inr ctx"
    and "CTraversal t \<in> set cs"
  shows "\<exists>edge rt. lookup_edge_by_name cat (t_edge_name t) = Some edge \<and>
    hm_get (cat_edge_types cat) (et_name edge) = Some edge \<and>
    rt \<in> set (tc_traversals ctx) \<and> rt_src rt = t_src t \<and> rt_dst rt = t_dst t \<and>
    rt_edge_type rt = et_name edge \<and> rt_edge_binding rt = named_edge_binding t"
proof -
  obtain c1 c2 where step: "typecheck_traversal cat t c1 = Inr c2" and le: "ctx_le c2 ctx"
    using checked_clause_in_ctx [OF assms] by auto
  obtain edge dir ctx2 where edge: "lookup_edge_by_name cat (t_edge_name t) = Some edge"
    and c2: "c2 = ctx2\<lparr>tc_traversals := tc_traversals ctx2 @
      [\<lparr>rt_src = t_src t, rt_dst = t_dst t, rt_edge_type = et_name edge,
        rt_direction = (if t_undirected t then Both else dir),
        rt_min_hops = t_min_hops t, rt_max_hops = t_max_hops t,
        rt_edge_binding = named_edge_binding t\<rparr>]\<rparr>" (is "_ = _\<lparr>tc_traversals := _ @ [?rt]\<rparr>")
    using typecheck_traversal_Inr [OF step] by blast
  have "?rt \<in> set (tc_traversals ctx)" using le by (auto simp: c2 ctx_le_def)
  then show ?thesis using edge lookup_edge_by_name_wf(1) [OF assms(1) edge] by force
qed

lemma local_table_agrees:
  assumes cat: "catalog_wf cat" and cs: "typecheck_clauses cat params cs empty_ctx = Inr ctx"
    and fwd: "\<forall>rt \<in> set (tc_traversals ctx). rt_direction rt \<noteq> In"
  shows "agrees (local_bindings cat (traversals_of cs) (bindings_of cs))
    (without wildcard (tc_bindings ctx))"
proof -
  let ?g = "without wildcard (tc_bindings ctx)"
  have wf: "ctx_wf cat ctx" using typecheck_clauses_wf [OF cat empty_ctx_wf cs] by blast
  have trav: "agrees (add_local_traversal cat t l) ?g" 
    if t: "CTraversal t \<in> set cs" and l: "agrees l ?g" for t l
  proof -
    obtain edge rt where e: "lookup_edge_by_name cat (t_edge_name t) = Some edge"
        "hm_get (cat_edge_types cat) (et_name edge) = Some edge"
      and rt: "rt \<in> set (tc_traversals ctx)" "rt_src rt = t_src t" "rt_dst rt = t_dst t"
        "rt_edge_type rt = et_name edge" "rt_edge_binding rt = named_edge_binding t"
      using checked_traversal_in_ctx [OF cat cs t] by blast
    have "traversal_wf cat ctx rt" using wf rt(1) by (simp add: ctx_wf_def list_all_iff)
    then have "has_node_type ctx (t_src t) (et_from_type edge)"
        "has_node_type ctx (t_dst t) (et_to_type edge)" "edge_var_wf ctx rt"
      using e rt fwd by (auto simp: traversal_wf_def endpoint_types_def)
    then show ?thesis
      by (intro agrees_traversal [OF l e(1)])
        (use rt in \<open>auto simp: has_node_type_def edge_var_wf_def\<close>)
  qed
  have step: "agrees (fold (add_local_traversal cat) ts l) ?g"
    if "set ts \<subseteq> set (traversals_of cs)" "agrees l ?g" for ts l
    using that by (induction ts arbitrary: l) (auto simp: in_clause_kinds trav)
  have travs: "agrees (fold (add_local_traversal cat) (traversals_of cs) hm_empty) ?g"
    by (rule step) (auto simp: agrees_def)
  have binds: "hm_get (tc_bindings ctx) (b_variable b) = Some (VNode (b_type_name b))"
    if b: "b \<in> set (bindings_of cs)" for b
  proof -
    obtain c1 c2 where "ctx_wf cat c1" "typecheck_binding cat params b c1 = Inr c2" "ctx_le c2 ctx"
      using checked_clause_in_ctx [OF cat cs, of "CBinding b"] b by (auto simp: in_clause_kinds)
    then show ?thesis using typecheck_binding_step ctx_le_get by blast
  qed
  show ?thesis
    unfolding agrees_def local_bindings_def
  proof (intro allI impI)
    fix v a b
    assume loc: "hm_get (fold (\<lambda>b. hm_insert (b_variable b) (VNode (b_type_name b))) (bindings_of cs)
        (fold (add_local_traversal cat) (traversals_of cs) hm_empty)) v = Some a"
      and glob: "hm_get ?g v = Some b"
    from local_insert_fold [OF loc] show "a = b"
      using travs binds glob by (auto simp: agrees_def without_def split: if_splits)
  qed
qed

section \<open>Agreement on \<^verbatim>\<open>contains\<close>\<close>

lemma scalar_string_property_declared:
  "is_scalar_string_property cat bv p \<longleftrightarrow>
     (\<exists>pt. (case bv of
              VNode t \<Rightarrow> Option.bind (hm_get (cat_node_types cat) t) (\<lambda>nt. hm_get (nt_properties nt) p)
            | VEdge t \<Rightarrow> Option.bind (lookup_edge_by_name cat t) (\<lambda>et. hm_get (et_properties et) p))
          = Some pt \<and> is_scalar_string pt)"
  by (auto simp: is_scalar_string_property_def split: option.splits)

lemma list_literal_list: "literal_type (LList xs) = Inr p \<Longrightarrow> pt_list p"
  by (cases xs) (auto split: if_splits)

lemma left_is_scalar_string_iff:
  assumes "typecheck_filter cat params f ctx = Inr ()" and "f_op f = OpContains"
    and "f_left f \<noteq> Literal LNull" and "tc_aliases ctx = hm_empty"
    and "expr_head_var (f_left f) \<noteq> Some wildcard"
    and "agrees local (without wildcard (tc_bindings ctx'))"
    and "map_extends (tc_bindings ctx) (tc_bindings ctx')"
    and left: "resolve_expr_type cat (f_left f) ctx params = Inr (RScalar l)"
  shows "left_is_scalar_string cat ctx' params local (f_left f) \<longleftrightarrow> \<not> pt_list l"
proof -
  obtain r where ok: "filter_operands_ok OpContains l r"
    using assms(1,2) left by (auto simp: typecheck_filter_def check_filter_types_iff)
  then have str: "\<not> pt_list l \<longleftrightarrow> is_scalar_string l"
    by (auto simp: filter_operands_ok_def is_scalar_string_def split: if_splits)
  show ?thesis
  proof (cases "f_left f")
    case (PropAccess v p)
    then obtain bv where bv: "hm_get (tc_bindings ctx) v = Some bv"
        "is_scalar_string_property cat bv p \<longleftrightarrow> is_scalar_string l"
      using left
      by (auto simp: resolve_prop_access_Inr_iff scalar_string_property_declared)
    have v: "v \<noteq> wildcard" using assms(5) PropAccess by (simp add: expr_head_var_def)
    have bv': "hm_get (tc_bindings ctx') v = Some bv" using bv assms(7) by (simp add: map_extends_def)
    then have "(case hm_get local v of Some b \<Rightarrow> Some b | None \<Rightarrow> hm_get (tc_bindings ctx') v) = Some bv"
      using assms(6) v by (auto simp: agrees_def without_def split: option.splits)
    then show ?thesis using bv(2) str by (simp add: left_is_scalar_string_def PropAccess)
  next
    case (Literal lit)
    with left assms(3) ok show ?thesis
      by (cases lit)
        (auto simp: left_is_scalar_string_def filter_operands_ok_def dest!: list_literal_list
          split: if_splits)
  next
    case (Variable v)
    with left str show ?thesis
      by (auto simp: left_is_scalar_string_def resolve_variable_def
          split: option.splits bound_variable.splits)
  qed (use left ok assms(4) in \<open>auto simp: filter_operands_ok_def left_is_scalar_string_def
      split: option.splits if_splits\<close>)
qed


text \<open>
  Where the traversals of an accepted match all run along their edges, every \<^verbatim>\<open>contains\<close>
  filter is lowered to the operator the type checker meant: list membership when the left
  operand's type is a list, the substring test when it is a string. (A literal null on the left
  cannot be written, and the anonymous variable has no properties.)
\<close>

theorem contains_lowered_as_checked:
  assumes "build_catalog schema = Inr cat" and "typecheck_query cat q = Inr ctx"
    and "list_all (\<lambda>rt. rt_direction rt \<noteq> In) (tc_traversals ctx)"
    and "CFilter f \<in> set (q_match_clause q)" and "f_op f = OpContains"
    and "f_left f \<noteq> Literal LNull" and "expr_head_var (f_left f) \<noteq> Some wildcard"
    and "parse_declared_param_types (q_params q) = Inr params"
  shows "\<exists>l. resolve_expr_type cat (f_left f) ctx params = Inr (RScalar l) \<and>
    resolve_filter_op cat ctx (lower_param_types (q_params q))
      (local_bindings cat (traversals_of (q_match_clause q)) (bindings_of (q_match_clause q))) f =
      (if pt_list l then OpContains else OpStringContains)"
proof -
  note cat = build_catalog_wf [OF assms(1)]
  obtain ctx1 al where cs: "typecheck_clauses cat params (q_match_clause q) empty_ctx = Inr ctx1"
    and projs: "r_fold (typecheck_projection cat params) (q_return_clause q) (ctx1, hm_empty)
      = Inr (ctx, al)"
    using typecheck_read_query_Inr [OF typecheck_query_read [OF assms(2)]] assms(8) by auto
  note same = typecheck_read_query_wf(3,4) [OF cat assms(8) cs projs]
  obtain c1 where filt: "typecheck_filter cat params f c1 = Inr ()" and c1: "ctx_le c1 ctx1"
      "ctx_le empty_ctx c1"
    using checked_clause_in_ctx [OF cat cs assms(4)] by auto
  then obtain l where l: "resolve_expr_type cat (f_left f) c1 params = Inr (RScalar l)"
    by (auto simp: typecheck_filter_def check_filter_types_iff)
  have al: "tc_aliases c1 = hm_empty" using c1(2) by (simp add: ctx_le_def empty_ctx_def)
  have ext: "map_extends (tc_bindings c1) (tc_bindings ctx)"
    using c1(1) same(1) by (simp add: ctx_le_def)
  have "agrees (local_bindings cat (traversals_of (q_match_clause q)) (bindings_of (q_match_clause q)))
      (without wildcard (tc_bindings ctx))"
    using local_table_agrees [OF cat cs] assms(3) same by (simp add: list_all_iff)
  from left_is_scalar_string_iff [OF filt assms(5,6) al assms(7) this ext l]
  have "resolve_filter_op cat ctx (lower_param_types (q_params q))
      (local_bindings cat (traversals_of (q_match_clause q)) (bindings_of (q_match_clause q))) f =
      (if pt_list l then OpContains else OpStringContains)"
    using assms(5) lower_param_types_eq [OF assms(8)] by (simp add: resolve_filter_op_def)
  moreover have "resolve_expr_type cat (f_left f) ctx params = Inr (RScalar l)"
    by (rule resolve_scalar_weaken [OF l al ext filt assms(5)])
  ultimately show ?thesis by blast
qed

definition tag_query :: query_decl where
  "tag_query = read_query
     [simple_binding ''p'' ''Person'' [],
      CFilter \<lparr>f_left = PropAccess ''p'' ''tags'', f_op = OpContains, f_right = Variable ''name''\<rparr>]
     [project (PropAccess ''p'' ''name'')]"

definition tag_ctx :: type_context where
  "tag_ctx = (case typecheck_query sample_catalog tag_query of Inr ctx \<Rightarrow> ctx | Inl _ \<Rightarrow> empty_ctx)"

theorem contains_lowered_as_checked_witness:
  "\<exists>l. resolve_expr_type sample_catalog (PropAccess ''p'' ''tags'') tag_ctx
         [(''name'', pt_of_scalar SString False)] = Inr (RScalar l)"
proof -
  have "is_ok (typecheck_query sample_catalog tag_query)" by code_simp
  then have ok: "typecheck_query sample_catalog tag_query = Inr tag_ctx"
    by (auto simp: tag_ctx_def is_ok_iff)
  have fwd: "list_all (\<lambda>rt. rt_direction rt \<noteq> In) (tc_traversals tag_ctx)" by code_simp
  have params: "parse_declared_param_types (q_params tag_query) =
      Inr [(''name'', pt_of_scalar SString False)]" by code_simp
  show ?thesis
    using contains_lowered_as_checked [OF build_sample ok fwd _ _ _ _ params,
        of "\<lparr>f_left = PropAccess ''p'' ''tags'', f_op = OpContains, f_right = Variable ''name''\<rparr>"]
    by (auto simp: tag_query_def read_query_def expr_head_var_def wildcard_def)
qed

end
