(* ===== verification/Findings.thy ===== *)
theory Findings
  imports Lower_Contains
begin

text \<open>
  Accepted queries on which the compiler does not do what its comments or its rules say, each
  evaluated on the sample schema. They bound the hypotheses of the general theorems: a
  traversal that is connected to no bound variable, a second binding of a deferred variable, a
  deferred binding of a variable the outer match bound, a traversal against its edge's
  direction and an aggregate over an alias that is defined after it.
\<close>

section \<open>Filters of a pipeline\<close>

fun op_filters :: "ir_op \<Rightarrow> ir_filter list" where
  "op_filters (NodeScan _ _ fs) = fs"
| "op_filters (Expand x) = ex_dst_filters x"
| "op_filters (IFilter f) = [f]"
| "op_filters (AntiJoin _ inner) = concat (map op_filters inner)"

definition tests_property :: "ir_op list \<Rightarrow> string \<Rightarrow> string \<Rightarrow> bool" where
  "tests_property ops v p =
     list_ex (\<lambda>f. if_left f = IPropAccess v p) (concat (map op_filters ops))"

definition compiled :: "query_decl \<Rightarrow> query_ir option" where
  "compiled q =
     (case typecheck_query sample_catalog q of
        Inl _ \<Rightarrow> None
      | Inr ctx \<Rightarrow>
          (case lower_query sample_catalog q ctx of Inl _ \<Rightarrow> None | Inr ir \<Rightarrow> Some ir))"

definition eq_match :: "string \<Rightarrow> literal \<Rightarrow> prop_match" where
  "eq_match p l = \<lparr>pm_prop_name = p, pm_value = MVLiteral l\<rparr>"

section \<open>Parts of the match that are dropped\<close>

definition disconnected_query :: query_decl where
  "disconnected_query = read_query
     [simple_binding ''p'' ''Person'' [], one_hop ''a'' ''knows'' ''b'']
     [project (PropAccess ''p'' ''name''), project (PropAccess ''a'' ''name'')]"

text \<open>
  A traversal between two variables that no binding is connected to is accepted and then
  left out of the pipeline, although the query returns a property of one of them.
\<close>

theorem disconnected_traversal_dropped:
  "(case compiled disconnected_query of
      None \<Rightarrow> False
    | Some ir \<Rightarrow> expands (qir_pipeline ir) = 0 \<and> ''a'' \<notin> introduced (qir_pipeline ir)) \<and>
   length (traversals_of (q_match_clause disconnected_query)) = 1"
  by code_simp

definition rebinding_query :: query_decl where
  "rebinding_query = read_query
     [simple_binding ''p'' ''Person'' [],
      one_hop ''p'' ''knows'' ''f'',
      simple_binding ''f'' ''Person'' [eq_match ''name'' (LString ''Ada'')],
      simple_binding ''f'' ''Person'' [eq_match ''age'' (LInteger 36)]]
     [project (PropAccess ''f'' ''name'')]"

text \<open>
  When a variable that is reached by a traversal is bound twice, which the type checker
  allows, the property matches of the first binding are not in the pipeline.
\<close>

theorem rebinding_loses_filters:
  "case compiled rebinding_query of
     None \<Rightarrow> False
   | Some ir \<Rightarrow> tests_property (qir_pipeline ir) ''f'' ''age'' \<and>
               \<not> tests_property (qir_pipeline ir) ''f'' ''name''"
  by code_simp

definition outer_rebinding_query :: query_decl where
  "outer_rebinding_query = read_query
     [simple_binding ''p'' ''Person'' [],
      CNegation
        [simple_binding ''f'' ''Person'' [],
         simple_binding ''p'' ''Person'' [eq_match ''age'' (LInteger 36)],
         one_hop ''p'' ''knows'' ''f'']]
     [project (PropAccess ''p'' ''name'')]"

text \<open>
  A binding inside a negation block that repeats a variable of the outer match and is not
  the first of its component loses its property matches.
\<close>

theorem outer_rebinding_loses_filters:
  "case compiled outer_rebinding_query of
     None \<Rightarrow> False
   | Some ir \<Rightarrow> \<not> tests_property (qir_pipeline ir) ''p'' ''age''"
  by code_simp

section \<open>The wrong operator\<close>

definition reversed_query :: query_decl where
  "reversed_query = read_query
     [simple_binding ''c'' ''Company'' [],
      one_hop ''c'' ''worksAt'' ''p'',
      CFilter \<lparr>f_left = PropAccess ''p'' ''name'', f_op = OpContains, f_right = Variable ''name''\<rparr>]
     [project (PropAccess ''p'' ''name'')]"

definition contains_ops :: "ir_op list \<Rightarrow> comp_op list" where
  "contains_ops ops = map if_op (filter (\<lambda>f. if_left f = IPropAccess ''p'' ''name'')
     (concat (map op_filters ops)))"

text \<open>
  On a traversal written against the direction of its edge, the lowering looks a string
  property up in the type at the wrong end: the substring filter the checker accepted becomes
  list membership.
\<close>

theorem reversed_contains_misresolved:
  "(case compiled reversed_query of
      None \<Rightarrow> False
    | Some ir \<Rightarrow> contains_ops (qir_pipeline ir) = [OpContains]) \<and>
   hm_get (nt_properties (case hm_get (cat_node_types sample_catalog) ''Person'' of
             Some nt \<Rightarrow> nt)) ''name'' = Some (pt_of_scalar SString False)"
  by code_simp

section \<open>Aggregates over later aliases\<close>

definition sum_alias :: "projection list" where
  "sum_alias =
     [project (Aggregate AggSum (AliasRef ''x'')),
      \<lparr>proj_expr = PropAccess ''p'' ''name'', proj_alias = Some ''x''\<rparr>]"

text \<open>
  The rule that a sum needs a numeric argument depends on the order of the projections: a
  sum over an alias of a string is accepted when the alias is defined after it and refused when
  it is defined before.
\<close>

theorem sum_over_later_alias_accepted:
  "is_ok (typecheck_query sample_catalog
      (read_query [simple_binding ''p'' ''Person'' []] sum_alias)) \<and>
   typecheck_query sample_catalog
      (read_query [simple_binding ''p'' ''Person'' []] (rev sum_alias)) =
     Inl (type_err (ExprErr (T8_numeric AggSum (pt_of_scalar SString False))))"
  by code_simp

end
