(* ===== verification/Schema_Lint.thy ===== *)
theory Schema_Lint
  imports Prelude
begin

text \<open>
  The catalog of stable schema-lint codes
  (\<^verbatim>\<open>omnigraph-compiler/src/lint/diagnostic.rs\<close> and \<^verbatim>\<open>codes.rs\<close>): a code carries its family, its
  safety tier and its default severity, and is found again by its text.
\<close>

datatype family = DS | MF | CD | BC | NM | OW | NL | VE | ED | LK

fun family_prefix :: "family \<Rightarrow> string" where
  "family_prefix DS = ''DS''"
| "family_prefix MF = ''MF''"
| "family_prefix CD = ''CD''"
| "family_prefix BC = ''BC''"
| "family_prefix NM = ''NM''"
| "family_prefix OW = ''OW''"
| "family_prefix NL = ''NL''"
| "family_prefix VE = ''VE''"
| "family_prefix ED = ''ED''"
| "family_prefix LK = ''LK''"

datatype safety_tier = Safe | Validated | Destructive

datatype severity = SevError | SevWarn | SevInfo

record diagnostic_code =
  dc_code :: string
  dc_family :: family
  dc_tier :: safety_tier
  dc_default_severity :: severity
  dc_short :: string

definition OG_DS_101 :: diagnostic_code where
  "OG_DS_101 = \<lparr>dc_code = ''OG-DS-101'', dc_family = DS, dc_tier = Destructive,
     dc_default_severity = SevError, dc_short = ''drop graph type with rows''\<rparr>"

definition OG_DS_102 :: diagnostic_code where
  "OG_DS_102 = \<lparr>dc_code = ''OG-DS-102'', dc_family = DS, dc_tier = Destructive,
     dc_default_severity = SevError, dc_short = ''drop node type with rows''\<rparr>"

definition OG_DS_103 :: diagnostic_code where
  "OG_DS_103 = \<lparr>dc_code = ''OG-DS-103'', dc_family = DS, dc_tier = Destructive,
     dc_default_severity = SevError, dc_short = ''drop edge type with rows''\<rparr>"

definition OG_DS_104 :: diagnostic_code where
  "OG_DS_104 = \<lparr>dc_code = ''OG-DS-104'', dc_family = DS, dc_tier = Destructive,
     dc_default_severity = SevError, dc_short = ''drop property with rows''\<rparr>"

definition OG_DS_105 :: diagnostic_code where
  "OG_DS_105 = \<lparr>dc_code = ''OG-DS-105'', dc_family = DS, dc_tier = Destructive,
     dc_default_severity = SevError, dc_short = ''drop populated vector column''\<rparr>"

definition OG_MF_103 :: diagnostic_code where
  "OG_MF_103 = \<lparr>dc_code = ''OG-MF-103'', dc_family = MF, dc_tier = Validated,
     dc_default_severity = SevError,
     dc_short = ''add required property without @default to populated type''\<rparr>"

definition OG_MF_104 :: diagnostic_code where
  "OG_MF_104 = \<lparr>dc_code = ''OG-MF-104'', dc_family = MF, dc_tier = Validated,
     dc_default_severity = SevError, dc_short = ''tighten nullable to non-nullable''\<rparr>"

definition OG_MF_106 :: diagnostic_code where
  "OG_MF_106 = \<lparr>dc_code = ''OG-MF-106'', dc_family = MF, dc_tier = Destructive,
     dc_default_severity = SevError, dc_short = ''narrowing scalar type''\<rparr>"

definition ALL_CODES :: "diagnostic_code list" where
  "ALL_CODES = [OG_DS_101, OG_DS_102, OG_DS_103, OG_DS_104, OG_DS_105, OG_MF_103, OG_MF_104, OG_MF_106]"

definition EMITTED_IN_V0 :: "string list" where
  "EMITTED_IN_V0 = [''OG-DS-102'', ''OG-DS-103'', ''OG-DS-104'', ''OG-MF-103'', ''OG-MF-106'']"

definition lookup :: "string \<Rightarrow> diagnostic_code option" where
  "lookup code = find (\<lambda>c. dc_code c = code) ALL_CODES"

lemma all_codes_distinct: "distinct (map dc_code ALL_CODES)"
  by code_simp

lemma lookup_Some_iff: "lookup code = Some c \<longleftrightarrow> c \<in> set ALL_CODES \<and> dc_code c = code"
proof
  assume "lookup code = Some c"
  then show "c \<in> set ALL_CODES \<and> dc_code c = code"
    by (auto simp: lookup_def find_Some_iff)
next
  assume c: "c \<in> set ALL_CODES \<and> dc_code c = code"
  then obtain d where d: "lookup code = Some d"
    by (cases "lookup code") (auto simp: lookup_def find_None_iff)
  then have "d \<in> set ALL_CODES" "dc_code d = code" by (auto simp: lookup_def find_Some_iff)
  with c all_codes_distinct show "lookup code = Some c"
    using d by (auto simp: distinct_map inj_on_def)
qed

end
