(* ===== verification/Schema_Plan.thy ===== *)
theory Schema_Plan
  imports Schema_Validate Schema_Lint
begin

text \<open>
  The migration planner (\<^verbatim>\<open>omnigraph-compiler/src/catalog/schema_plan.rs\<close>): the steps that lead
  from an accepted schema to a desired one, matched by stable identity. The functions that push
  onto the shared vector of steps take it and give it back extended.
\<close>

section \<open>Data\<close>

datatype schema_type_kind = SInterface | SNode | SEdge

datatype drop_mode = Soft | Hard

datatype migration_step =
    AddType schema_type_kind string
  | RenameType schema_type_kind string string
  | AddProperty schema_type_kind string string prop_type
  | RenameProperty schema_type_kind string string string
  | AddConstraint schema_type_kind string constraint
  | ExtendEnum schema_type_kind string string "string list"
  | UpdateTypeMetadata schema_type_kind string "annotation list"
  | UpdatePropertyMetadata schema_type_kind string string "annotation list"
  | DropType schema_type_kind string drop_mode
  | DropProperty schema_type_kind string string drop_mode
  | UnsupportedChange string string "string option"

record migration_plan =
  mp_supported :: bool
  mp_steps :: "migration_step list"

type_synonym steps = "migration_step list"

fun is_unsupported :: "migration_step \<Rightarrow> bool" where
  "is_unsupported (UnsupportedChange entity reason code) = True"
| "is_unsupported _ = False"

fun unsupported_error_message :: "migration_step \<Rightarrow> string option" where
  "unsupported_error_message (UnsupportedChange entity reason code) =
     Some (case code of Some c \<Rightarrow> ''['' @ c @ ''] '' @ reason | None \<Rightarrow> reason)"
| "unsupported_error_message _ = None"

fun diagnostic :: "migration_step \<Rightarrow> diagnostic_code option" where
  "diagnostic (UnsupportedChange entity reason (Some c)) = lookup c"
| "diagnostic _ = None"

section \<open>Texts and keys\<close>

definition push :: "migration_step \<Rightarrow> steps \<Rightarrow> steps" where
  "push s steps = steps @ [s]"

definition push_when :: "bool \<Rightarrow> migration_step \<Rightarrow> steps \<Rightarrow> steps" where
  "push_when b s steps = (if b then push s steps else steps)"

definition push_new :: "migration_step \<Rightarrow> steps \<Rightarrow> steps" where
  "push_new s steps = (if s \<in> set steps then steps else push s steps)"

definition quoted :: "string \<Rightarrow> string" where
  "quoted s = CHR 0x27 # s @ [CHR 0x27]"

definition not_supported_v1 :: string where
  "not_supported_v1 = '' is not supported in schema migration v1''"

fun schema_type_kind_key :: "schema_type_kind \<Rightarrow> string" where
  "schema_type_kind_key SInterface = ''interface''"
| "schema_type_kind_key SNode = ''node''"
| "schema_type_kind_key SEdge = ''edge''"

definition type_label :: "schema_type_kind \<Rightarrow> string \<Rightarrow> string" where
  "type_label kind name = schema_type_kind_key kind @ '':'' @ name"

definition property_label :: "schema_type_kind \<Rightarrow> string \<Rightarrow> string \<Rightarrow> string" where
  "property_label kind type_name name = schema_type_kind_key kind @ '':'' @ type_name @ ''.'' @ name"

fun field_key :: "field_ref_ir \<Rightarrow> string" where
  "field_key (FProperty r) =
     ''property:'' @ show_nat (unat (pr_owner_type_id r)) @ '':'' @ show_nat (unat (pr_property_id r))"
| "field_key (FSystem r) =
     ''system:'' @ show_nat (unat (sfr_stable_table_id r)) @ '':'' @
     show_nat (unat (sfr_table_incarnation_id r)) @ '':'' @ role_name (sfr_role r)"

definition fields_key :: "field_ref_ir list \<Rightarrow> string" where
  "fields_key fs = join '','' (sort (map field_key fs))"

fun constraint_ir_key :: "codec \<Rightarrow> constraint_ir \<Rightarrow> string" where
  "constraint_ir_key jc (KeyIR fs) = ''key:'' @ fields_key fs"
| "constraint_ir_key jc (UniqueIR fs) = ''unique:'' @ fields_key fs"
| "constraint_ir_key jc (IndexIR fs) = ''index:'' @ fields_key fs"
| "constraint_ir_key jc (RangeIR f mn mx) =
     ''range:'' @ field_key f @ '':'' @ debug_bound jc mn @ '':'' @ debug_bound jc mx"
| "constraint_ir_key jc (CheckIR f pattern) = ''check:'' @ field_key f @ '':'' @ pattern"

section \<open>Annotations and enums\<close>

definition is_metadata :: "annotation \<Rightarrow> bool" where
  "is_metadata a \<longleftrightarrow> ann_name a = ''description'' \<or> ann_name a = ''instruction''"

definition strip_metadata_annotations :: "annotation list \<Rightarrow> annotation list" where
  "strip_metadata_annotations anns =
     filter (\<lambda>a. ann_name a \<notin>
       {''description'', ''instruction'', ''rename_from'', ''key'', ''unique'', ''index''}) anns"

definition metadata_annotations :: "annotation list \<Rightarrow> annotation list" where
  "metadata_annotations anns = filter is_metadata anns"

datatype annotation_change_kind =
    NoChange
  | MetadataOnly "annotation list"
  | UnsupportedAnnotations string

definition annotation_change :: "annotation list \<Rightarrow> annotation list \<Rightarrow> annotation_change_kind" where
  "annotation_change accepted desired =
     (if strip_metadata_annotations accepted \<noteq> strip_metadata_annotations desired
      then UnsupportedAnnotations
        (''changing annotations beyond @description/@instruction'' @ not_supported_v1)
      else if metadata_annotations accepted = metadata_annotations desired then NoChange
      else MetadataOnly (metadata_annotations desired))"

definition plan_type_metadata ::
    "schema_type_kind \<Rightarrow> string \<Rightarrow> annotation list \<Rightarrow> annotation list \<Rightarrow> steps \<Rightarrow> steps" where
  "plan_type_metadata kind name accepted desired steps =
     (case annotation_change accepted desired of
        NoChange \<Rightarrow> steps
      | MetadataOnly metadata \<Rightarrow> push (UpdateTypeMetadata kind name metadata) steps
      | UnsupportedAnnotations reason \<Rightarrow>
          push (UnsupportedChange (type_label kind name) reason None) steps)"

definition plan_property_metadata ::
    "schema_type_kind \<Rightarrow> string \<Rightarrow> string \<Rightarrow> annotation list \<Rightarrow> annotation list \<Rightarrow> steps \<Rightarrow> steps"
    where
  "plan_property_metadata kind type_name name accepted desired steps =
     (case annotation_change accepted desired of
        NoChange \<Rightarrow> steps
      | MetadataOnly metadata \<Rightarrow> push (UpdatePropertyMetadata kind type_name name metadata) steps
      | UnsupportedAnnotations reason \<Rightarrow>
          push (UnsupportedChange (property_label kind type_name name) reason None) steps)"

definition enum_widening :: "prop_type \<Rightarrow> prop_type \<Rightarrow> string list option" where
  "enum_widening accepted desired =
     (case pt_enum_values accepted of
        None \<Rightarrow> None
      | Some accepted_values \<Rightarrow>
          (case pt_enum_values desired of
             None \<Rightarrow> None
           | Some desired_values \<Rightarrow>
               if pt_scalar accepted \<noteq> pt_scalar desired \<or>
                  pt_nullable accepted \<noteq> pt_nullable desired \<or> pt_list accepted \<noteq> pt_list desired
               then None
               else if accepted_values = desired_values then None
               else if \<not> list_all (\<lambda>v. v \<in> set desired_values) accepted_values then None
               else Some (filter (\<lambda>v. v \<notin> set accepted_values) desired_values)))"

section \<open>Constraints\<close>

fun relation_label :: "property_constraint_shape \<Rightarrow> string" where
  "relation_label PCKey = ''key''"
| "relation_label PCUnique = ''unique''"
| "relation_label PCIndex = ''index''"

definition add_property_constraint ::
    "schema_type_kind \<Rightarrow> string \<Rightarrow> string \<Rightarrow> property_constraint_shape \<Rightarrow> steps \<Rightarrow> steps" where
  "add_property_constraint kind type_name name addition steps =
     (case addition of
        PCIndex \<Rightarrow> push_new (AddConstraint kind type_name (Index [name])) steps
      | _ \<Rightarrow> push (UnsupportedChange (property_label kind type_name name)
                 (''adding a property-level @'' @ relation_label addition @ '' constraint to '' @
                  quoted (type_name @ ''.'' @ name) @ not_supported_v1) None) steps)"

definition plan_property_constraints ::
    "schema_type_kind \<Rightarrow> string \<Rightarrow> string \<Rightarrow> property_constraint_shape list \<Rightarrow>
       property_constraint_shape list \<Rightarrow> steps \<Rightarrow> steps" where
  "plan_property_constraints kind type_name name accepted desired steps =
     (let acc = sort_dedup accepted; des = sort_dedup desired;
          removed = filter (\<lambda>c. c \<notin> set des) acc;
          added = filter (\<lambda>c. c \<notin> set acc) des
      in fold (add_property_constraint kind type_name name) added
           (push_when (removed \<noteq> [])
             (UnsupportedChange (property_label kind type_name name)
               (''removing property constraints from '' @ quoted (type_name @ ''.'' @ name) @
                not_supported_v1) None) steps))"

definition constraint_map :: "codec \<Rightarrow> constraint_ir list \<Rightarrow> (string, constraint_ir) bmap" where
  "constraint_map jc cs =
     fold (\<lambda>(k, v). bm_insert k v) (map (\<lambda>c. (constraint_ir_key jc c, c)) cs) bm_empty"

definition add_constraint ::
    "schema_type_kind \<Rightarrow> string \<Rightarrow> (string, constraint_ir) bmap \<Rightarrow> string \<times> constraint_ir \<Rightarrow>
       steps \<Rightarrow> steps" where
  "add_constraint kind type_name accepted_map entry steps =
     (let (key, constraint) = entry in
      if bm_contains accepted_map key then steps
      else case constraint of
        IndexIR fs \<Rightarrow> push_new (AddConstraint kind type_name (constraint_from_ir constraint)) steps
      | _ \<Rightarrow> push (UnsupportedChange (type_label kind type_name)
                 (''adding constraint '' @ quoted key @ '' to '' @ quoted type_name @
                  not_supported_v1) None) steps)"

definition plan_constraints ::
    "codec \<Rightarrow> schema_type_kind \<Rightarrow> string \<Rightarrow> constraint_ir list \<Rightarrow> constraint_ir list \<Rightarrow> steps \<Rightarrow> steps"
    where
  "plan_constraints jc kind type_name accepted desired steps =
     (let desired_map = constraint_map jc desired;
          accepted_map = constraint_map jc accepted;
          removed = filter (\<lambda>k. \<not> bm_contains desired_map k) (bm_keys accepted_map)
      in fold (add_constraint kind type_name accepted_map) desired_map
           (push_when (removed \<noteq> [])
             (UnsupportedChange (type_label kind type_name)
               (''removing constraints from '' @ quoted type_name @ not_supported_v1) None) steps))"

section \<open>Properties\<close>

fun embed_sources_semantically_equal :: "embed_source_ir option \<Rightarrow> embed_source_ir option \<Rightarrow> bool" where
  "embed_sources_semantically_equal None None = True"
| "embed_sources_semantically_equal (Some a) (Some d) \<longleftrightarrow>
     pr_owner_type_id (es_source a) = pr_owner_type_id (es_source d) \<and>
     pr_property_id (es_source a) = pr_property_id (es_source d) \<and>
     es_model a = es_model d"
| "embed_sources_semantically_equal _ _ = False"

definition stable_property_refs :: "property_ref_ir list \<Rightarrow> (stable_type_id \<times> stable_property_id) list"
    where
  "stable_property_refs rs = sort_dedup (map (\<lambda>r. (pr_owner_type_id r, pr_property_id r)) rs)"

definition plan_new_property :: "schema_type_kind \<Rightarrow> string \<Rightarrow> property_ir \<Rightarrow> steps \<Rightarrow> steps" where
  "plan_new_property kind type_name p steps =
     (if pt_nullable (pi_prop_type p)
      then push (AddProperty kind type_name (pi_name p) (pi_prop_type p)) steps
      else push (UnsupportedChange (property_label kind type_name (pi_name p))
             (''adding required property '' @ quoted (type_name @ ''.'' @ pi_name p) @
              '' requires a backfill and'' @ not_supported_v1)
             (Some (dc_code OG_MF_103))) steps)"

definition plan_property_type ::
    "schema_type_kind \<Rightarrow> string \<Rightarrow> property_ir \<Rightarrow> property_ir \<Rightarrow> steps \<Rightarrow> steps" where
  "plan_property_type kind type_name existing p steps =
     (case enum_widening (pi_prop_type existing) (pi_prop_type p) of
        Some added \<Rightarrow> push (ExtendEnum kind type_name (pi_name p) added) steps
      | None \<Rightarrow>
          push_when (pi_prop_type existing \<noteq> pi_prop_type p)
            (UnsupportedChange (property_label kind type_name (pi_name p))
              (''changing property type for '' @ quoted (type_name @ ''.'' @ pi_name p) @
               not_supported_v1) (Some (dc_code OG_MF_106))) steps)"

definition plan_existing_property ::
    "schema_type_kind \<Rightarrow> string \<Rightarrow> property_ir \<Rightarrow> property_ir \<Rightarrow> steps \<Rightarrow> steps" where
  "plan_existing_property kind type_name existing p steps =
     (let label = property_label kind type_name (pi_name p);
          shown = quoted (type_name @ ''.'' @ pi_name p);
          s1 = push_when (pi_name existing \<noteq> pi_name p)
                 (RenameProperty kind type_name (pi_name existing) (pi_name p)) steps;
          s2 = plan_property_type kind type_name existing p s1;
          s3 = push_when
                 (\<not> embed_sources_semantically_equal (pi_embed_source existing) (pi_embed_source p))
                 (UnsupportedChange label
                   (''changing @embed source or model for '' @ shown @ not_supported_v1 @
                    ''; rebuild the graph so stored vectors and their declared embedding space cannot diverge'')
                   None) s2;
          s4 = plan_property_constraints kind type_name (pi_name p)
                 (pi_property_constraints existing) (pi_property_constraints p) s3;
          s5 = push_when (pi_declared_directly existing \<noteq> pi_declared_directly p)
                 (UnsupportedChange label
                   (''changing declaration provenance for '' @ shown @ not_supported_v1) None) s4;
          s6 = push_when
                 (stable_property_refs (pi_satisfies_interface_properties existing) \<noteq>
                  stable_property_refs (pi_satisfies_interface_properties p))
                 (UnsupportedChange label
                   (''changing interface-property satisfaction links for '' @ shown @
                    not_supported_v1) None) s5
      in plan_property_metadata kind type_name (pi_name p) (pi_annotations existing)
           (pi_annotations p) s6)"

text \<open>The accepted entries by identity, and the loop over the desired ones with what it consumed.\<close>

definition by_id :: "('a \<Rightarrow> u64) \<Rightarrow> 'a list \<Rightarrow> (u64, 'a) hmap" where
  "by_id i xs = fold (\<lambda>(k, v). hm_insert k v) (map (\<lambda>x. (i x, x)) xs) hm_empty"

definition plan_property ::
    "schema_type_kind \<Rightarrow> string \<Rightarrow> (u64, property_ir) hmap \<Rightarrow> property_ir \<Rightarrow>
       u64 list \<times> steps \<Rightarrow> u64 list \<times> steps" where
  "plan_property kind type_name accepted_by_id p st =
     (let (consumed, steps) = st in
      case hm_get accepted_by_id (pi_property_id p) of
        None \<Rightarrow> (consumed, plan_new_property kind type_name p steps)
      | Some existing \<Rightarrow>
          (pi_property_id existing # consumed,
           plan_existing_property kind type_name existing p steps))"

definition plan_properties ::
    "schema_type_kind \<Rightarrow> string \<Rightarrow> property_ir list \<Rightarrow> property_ir list \<Rightarrow> steps \<Rightarrow> steps" where
  "plan_properties kind type_name accepted desired steps =
     (let (consumed, steps1) =
            fold (plan_property kind type_name (by_id pi_property_id accepted)) desired ([], steps)
      in fold (\<lambda>p. push (DropProperty kind type_name (pi_name p) Soft))
           (filter (\<lambda>p. pi_property_id p \<notin> set consumed) accepted) steps1)"

section \<open>Types\<close>

definition plan_existing_interface :: "interface_ir \<Rightarrow> interface_ir \<Rightarrow> steps \<Rightarrow> steps" where
  "plan_existing_interface existing i steps =
     plan_properties SInterface (ii_name i) (ii_properties existing) (ii_properties i)
       (push_when (ii_name existing \<noteq> ii_name i)
         (UnsupportedChange (''interface:'' @ ii_name i)
           (''renaming interfaces'' @ not_supported_v1) None) steps)"

definition plan_interface ::
    "(u64, interface_ir) hmap \<Rightarrow> interface_ir \<Rightarrow> u64 list \<times> steps \<Rightarrow> u64 list \<times> steps" where
  "plan_interface accepted_by_id i st =
     (let (consumed, steps) = st in
      case hm_get accepted_by_id (ii_type_id i) of
        Some existing \<Rightarrow> (ii_type_id existing # consumed, plan_existing_interface existing i steps)
      | None \<Rightarrow> (consumed, push (AddType SInterface (ii_name i)) steps))"

definition plan_interfaces :: "interface_ir list \<Rightarrow> interface_ir list \<Rightarrow> steps \<Rightarrow> steps" where
  "plan_interfaces accepted desired steps =
     (let (consumed, steps1) = fold (plan_interface (by_id ii_type_id accepted)) desired ([], steps)
      in fold (\<lambda>i. push (UnsupportedChange (''interface:'' @ ii_name i)
             (''removing interface '' @ quoted (ii_name i) @ not_supported_v1) None))
           (filter (\<lambda>i. ii_type_id i \<notin> set consumed) accepted) steps1)"

definition plan_existing_node :: "codec \<Rightarrow> node_ir \<Rightarrow> node_ir \<Rightarrow> steps \<Rightarrow> steps" where
  "plan_existing_node jc existing n steps =
     (let s1 = push_when (ni_name existing \<noteq> ni_name n)
                 (RenameType SNode (ni_name existing) (ni_name n)) steps;
          s2 = push_when
                 (sort_dedup (map tr_type_id (ni_implements existing)) \<noteq>
                  sort_dedup (map tr_type_id (ni_implements n)))
                 (UnsupportedChange (''node:'' @ ni_name n)
                   (''changing implemented interfaces on node '' @ quoted (ni_name n) @
                    not_supported_v1) None) s1;
          s3 = plan_type_metadata SNode (ni_name n) (ni_annotations existing) (ni_annotations n) s2;
          s4 = plan_properties SNode (ni_name n) (ni_properties existing) (ni_properties n) s3
      in plan_constraints jc SNode (ni_name n) (ni_constraints existing) (ni_constraints n) s4)"

definition plan_node ::
    "codec \<Rightarrow> (u64, node_ir) hmap \<Rightarrow> node_ir \<Rightarrow> u64 list \<times> steps \<Rightarrow> u64 list \<times> steps" where
  "plan_node jc accepted_by_id n st =
     (let (consumed, steps) = st in
      case hm_get accepted_by_id (ni_type_id n) of
        None \<Rightarrow> (consumed, push (AddType SNode (ni_name n)) steps)
      | Some existing \<Rightarrow>
          (ni_type_id existing # consumed, plan_existing_node jc existing n steps))"

definition plan_nodes :: "codec \<Rightarrow> node_ir list \<Rightarrow> node_ir list \<Rightarrow> steps \<Rightarrow> steps" where
  "plan_nodes jc accepted desired steps =
     (let (consumed, steps1) = fold (plan_node jc (by_id ni_type_id accepted)) desired ([], steps)
      in fold (\<lambda>n. push (DropType SNode (ni_name n) Soft))
           (filter (\<lambda>n. ni_type_id n \<notin> set consumed) accepted) steps1)"

definition plan_existing_edge :: "codec \<Rightarrow> edge_ir \<Rightarrow> edge_ir \<Rightarrow> steps \<Rightarrow> steps" where
  "plan_existing_edge jc existing e steps =
     (let s1 = push_when (ei_name existing \<noteq> ei_name e)
                 (RenameType SEdge (ei_name existing) (ei_name e)) steps;
          s2 = push_when
                 (tr_type_id (ei_from_type existing) \<noteq> tr_type_id (ei_from_type e) \<or>
                  tr_type_id (ei_to_type existing) \<noteq> tr_type_id (ei_to_type e))
                 (UnsupportedChange (''edge:'' @ ei_name e)
                   (''changing edge endpoints on '' @ quoted (ei_name e) @ not_supported_v1) None) s1;
          s3 = push_when (ei_cardinality existing \<noteq> ei_cardinality e)
                 (UnsupportedChange (''edge:'' @ ei_name e)
                   (''changing cardinality on edge '' @ quoted (ei_name e) @ not_supported_v1) None) s2;
          s4 = plan_type_metadata SEdge (ei_name e) (ei_annotations existing) (ei_annotations e) s3;
          s5 = plan_properties SEdge (ei_name e) (ei_properties existing) (ei_properties e) s4
      in plan_constraints jc SEdge (ei_name e) (ei_constraints existing) (ei_constraints e) s5)"

definition plan_edge ::
    "codec \<Rightarrow> (u64, edge_ir) hmap \<Rightarrow> edge_ir \<Rightarrow> u64 list \<times> steps \<Rightarrow> u64 list \<times> steps" where
  "plan_edge jc accepted_by_id e st =
     (let (consumed, steps) = st in
      case hm_get accepted_by_id (ei_type_id e) of
        None \<Rightarrow> (consumed, push (AddType SEdge (ei_name e)) steps)
      | Some existing \<Rightarrow>
          (ei_type_id existing # consumed, plan_existing_edge jc existing e steps))"

definition plan_edges :: "codec \<Rightarrow> edge_ir list \<Rightarrow> edge_ir list \<Rightarrow> steps \<Rightarrow> steps" where
  "plan_edges jc accepted desired steps =
     (let (consumed, steps1) = fold (plan_edge jc (by_id ei_type_id accepted)) desired ([], steps)
      in fold (\<lambda>e. push (DropType SEdge (ei_name e) Soft))
           (filter (\<lambda>e. ei_type_id e \<notin> set consumed) accepted) steps1)"

section \<open>The identity checks\<close>

definition evolution_types :: "schema_ir \<Rightarrow> (u64 \<times> type_kind \<times> u64 option) list" where
  "evolution_types ir =
     map (\<lambda>e. (ii_type_id e, KInterface, None)) (sir_interfaces ir) @
     map (\<lambda>e. (ni_type_id e, KNode, Some (ni_table_incarnation_id e))) (sir_nodes ir) @
     map (\<lambda>e. (ei_type_id e, KEdge, Some (ei_table_incarnation_id e))) (sir_edges ir)"

definition evolution_properties :: "schema_ir \<Rightarrow> (u64 \<times> property_ir list) list" where
  "evolution_properties ir =
     map (\<lambda>e. (ii_type_id e, ii_properties e)) (sir_interfaces ir) @
     map (\<lambda>e. (ni_type_id e, ni_properties e)) (sir_nodes ir) @
     map (\<lambda>e. (ei_type_id e, ei_properties e)) (sir_edges ir)"

abbreviation evolution_check :: "bool \<Rightarrow> resolution_error \<Rightarrow> unit identity_result" where
  "evolution_check b e \<equiv> guard b (IdentityErr (ResolutionError e))"

definition check_evolved_type ::
    "u64 \<Rightarrow> (u64, type_kind \<times> u64 option) hmap \<Rightarrow> u64 \<times> type_kind \<times> u64 option \<Rightarrow>
       unit identity_result" where
  "check_evolved_type next accepted entry =
     (let (type_id, kind, incarnation) = entry in
      r_bind (case hm_get accepted type_id of
                Some old \<Rightarrow> evolution_check (\<not> (fst old \<noteq> kind \<or> snd old \<noteq> incarnation))
                               (TypeIdentityChanges type_id)
              | None \<Rightarrow> evolution_check (\<not> type_id < next) (TypeIdentityReused type_id)) (\<lambda>_.
      case incarnation of
        None \<Rightarrow> Inr ()
      | Some inc \<Rightarrow>
          evolution_check
            (\<not> ((case hm_get accepted type_id of None \<Rightarrow> True | Some old \<Rightarrow> snd old \<noteq> Some inc) \<and>
                inc < next))
            (IncarnationReused inc)))"

definition check_evolved_property ::
    "u64 \<Rightarrow> (u64, u64) hmap \<Rightarrow> u64 \<Rightarrow> property_ir \<Rightarrow> unit identity_result" where
  "check_evolved_property next accepted owner p =
     (case hm_get accepted (pi_property_id p) of
        Some old \<Rightarrow> evolution_check (\<not> old \<noteq> owner) (PropertyMovesOwner (pi_property_id p))
      | None \<Rightarrow> evolution_check (\<not> pi_property_id p < next)
                   (PropertyIdentityReused (pi_property_id p)))"

definition accepted_owners :: "schema_ir \<Rightarrow> (u64, u64) hmap" where
  "accepted_owners ir =
     fold (\<lambda>(k, v). hm_insert k v)
       (concat (map (\<lambda>(owner, ps). map (\<lambda>p. (pi_property_id p, owner)) ps) (evolution_properties ir)))
       hm_empty"

definition validate_evolution_identity :: "schema_ir \<Rightarrow> schema_ir \<Rightarrow> unit identity_result" where
  "validate_evolution_identity accepted desired =
     (let next = sir_next_identity_id accepted in
      r_bind (evolution_check (\<not> sir_next_identity_id desired < next)
                (NextRegresses (sir_next_identity_id desired) next)) (\<lambda>_.
      r_bind (r_each (check_evolved_type next
                (fold (\<lambda>(k, v). hm_insert k v) (evolution_types accepted) hm_empty))
                (evolution_types desired)) (\<lambda>_.
      r_each (\<lambda>(owner, ps). r_each (check_evolved_property next (accepted_owners accepted) owner) ps)
        (evolution_properties desired))))"

section \<open>The plan\<close>

definition unclassified_change :: migration_step where
  "unclassified_change =
     UnsupportedChange ''schema'' ''schema migration contains an unclassified semantic IR change'' None"

definition plan_schema_migration ::
    "codec \<Rightarrow> schema_ir \<Rightarrow> schema_ir \<Rightarrow> migration_plan identity_result" where
  "plan_schema_migration jc accepted desired =
     r_bind (validate_schema_ir jc accepted) (\<lambda>_.
     r_bind (validate_schema_ir jc desired) (\<lambda>_.
     r_bind (evolution_check
               (\<not> sir_schema_identity_domain accepted \<noteq> sir_schema_identity_domain desired)
               DomainMismatch) (\<lambda>_.
     r_bind (validate_evolution_identity accepted desired) (\<lambda>_.
     let steps = plan_edges jc (sir_edges accepted) (sir_edges desired)
           (plan_nodes jc (sir_nodes accepted) (sir_nodes desired)
             (plan_interfaces (sir_interfaces accepted) (sir_interfaces desired) []));
         steps' = push_when (steps = [] \<and> accepted \<noteq> desired) unclassified_change steps
     in Inr \<lparr>mp_supported = \<not> list_ex is_unsupported steps', mp_steps = steps'\<rparr>))))"

end
