(* ===== verification/Schema_Plan_Facts.thy ===== *)
theory Schema_Plan_Facts
  imports Schema_Plan Schema_Validate_Facts
begin

text \<open>
  The steps a plan has, as sets: every planning function adds to the steps it is given exactly
  the steps it would emit alone. The loop that all kinds share, matching desired entries with
  accepted ones by identity, is the locale \<open>matched_loop\<close>.
\<close>

named_theorems step_simps \<open>the steps a planning function emits\<close>

section \<open>Pushing\<close>

lemma set_push [simp]: "set (push s st) = insert s (set st)"
  by (simp add: push_def)

lemma set_push_when [simp]: "set (push_when b s st) = (if b then insert s (set st) else set st)"
  by (simp add: push_when_def)

lemma set_push_new [simp]: "set (push_new s st) = insert s (set st)"
  by (auto simp: push_new_def)

lemma set_fold_push [simp]: "set (fold (\<lambda>x. push (g x)) xs st) = set st \<union> g ` set xs"
  by (induction xs arbitrary: st) auto

lemma set_fold_emit:
  assumes "\<And>x st. set (f x st) = set st \<union> S x"
  shows "set (fold f xs st) = set st \<union> (\<Union>x \<in> set xs. S x)"
  by (induction xs arbitrary: st) (auto simp: assms)

lemma sort_dedup_eq_iff: "sort_dedup xs = sort_dedup ys \<longleftrightarrow> set xs = set ys"
  using sort_dedup_cong [of xs ys] by (metis set_sort_dedup)

section \<open>Entries by identity\<close>

lemma hm_get_collected:
  "hm_get (fold (\<lambda>(k, v). hm_insert k v) kvs hm_empty) k = map_of (rev kvs) k"
  by (simp add: hm.get_fold_insert split: option.splits)

lemma by_id_get:
  assumes "distinct (map i xs)"
  shows "hm_get (by_id i xs) k = Some x \<longleftrightarrow> x \<in> set xs \<and> i x = k"
proof -
  have "hm_get (by_id i xs) k = map_of (rev (map (\<lambda>x. (i x, x)) xs)) k"
    by (simp add: by_id_def hm_get_collected)
  then show ?thesis using map_of_rev_keyed [OF assms, of "\<lambda>x. x" k x] by auto
qed

lemma by_id_Some: "hm_get (by_id i xs) k = Some x \<Longrightarrow> x \<in> set xs \<and> i x = k"
  by (auto simp: by_id_def hm.get_fold_insert split: option.splits dest!: map_of_SomeD)

lemma by_id_None: "hm_get (by_id i xs) k = None \<longleftrightarrow> k \<notin> i ` set xs"
proof -
  have "hm_get (by_id i xs) k = map_of (rev (map (\<lambda>x. (i x, x)) xs)) k"
    by (simp add: by_id_def hm_get_collected)
  then show ?thesis by (auto simp: map_of_eq_None_iff image_iff)
qed

text \<open>
  The loop over the desired entries: an entry whose identity is accepted is compared with the
  accepted entry, which is consumed; the others are new.
\<close>

locale matched_loop =
  fixes step :: "'a \<Rightarrow> u64 list \<times> steps \<Rightarrow> u64 list \<times> steps"
    and accepted :: "'a list"
    and identity :: "'a \<Rightarrow> u64"
    and fresh :: "'a \<Rightarrow> steps \<Rightarrow> steps"
    and kept :: "'a \<Rightarrow> 'a \<Rightarrow> steps \<Rightarrow> steps"
  assumes step_eq: "step x (c, st) =
      (case hm_get (by_id identity accepted) (identity x) of
         None \<Rightarrow> (c, fresh x st)
       | Some e \<Rightarrow> (identity e # c, kept e x st))"
    and set_fresh: "set (fresh x st) = set st \<union> set (fresh x [])"
    and set_kept: "set (kept e x st) = set st \<union> set (kept e x [])"
begin

definition entry_steps :: "'a \<Rightarrow> migration_step set" where
  "entry_steps x =
     (case hm_get (by_id identity accepted) (identity x) of
        None \<Rightarrow> set (fresh x [])
      | Some e \<Rightarrow> set (kept e x []))"

lemma loop_steps: "set (snd (fold step xs (c, st))) = set st \<union> (\<Union>x \<in> set xs. entry_steps x)"
proof (induction xs arbitrary: c st)
  case (Cons x xs)
  then show ?case
    using set_fresh [of x st] set_kept [of _ x st]
    by (cases "hm_get (by_id identity accepted) (identity x)")
      (auto simp: step_eq entry_steps_def)
qed simp

lemma loop_consumed:
  "set (fst (fold step xs (c, st))) = set c \<union> (identity ` set xs \<inter> identity ` set accepted)"
proof (induction xs arbitrary: c st)
  case (Cons x xs)
  show ?case
  proof (cases "hm_get (by_id identity accepted) (identity x)")
    case None
    moreover have "identity x \<notin> identity ` set accepted" using None by (simp add: by_id_None)
    ultimately show ?thesis using Cons by (auto simp: step_eq)
  next
    case (Some e)
    from by_id_Some [OF Some] have "identity e = identity x" "identity x \<in> identity ` set accepted"
      by (metis imageI)+
    with Some Cons show ?thesis by (auto simp: step_eq)
  qed
qed simp

text \<open>What is left over are the accepted entries no desired entry has the identity of.\<close>

lemma leftover:
  "{x \<in> set accepted. identity x \<notin> set (fst (fold step xs ([], st)))} =
     {x \<in> set accepted. identity x \<notin> identity ` set xs}"
  by (auto simp: loop_consumed)

text \<open>An entry that is there already, with distinct identities, is compared with itself.\<close>

lemma entry_steps_self:
  "distinct (map identity accepted) \<Longrightarrow> x \<in> set accepted \<Longrightarrow> entry_steps x = set (kept x x [])"
  using by_id_get [of identity accepted "identity x" x] by (simp add: entry_steps_def)

lemma entry_steps_fresh:
  "identity x \<notin> identity ` set accepted \<Longrightarrow> entry_steps x = set (fresh x [])"
  using by_id_None [of identity accepted "identity x"] by (simp add: entry_steps_def)

lemma entry_steps_kept:
  "distinct (map identity accepted) \<Longrightarrow> e \<in> set accepted \<Longrightarrow> identity e = identity x \<Longrightarrow>
     entry_steps x = set (kept e x [])"
  using by_id_get [of identity accepted "identity x" e] by (simp add: entry_steps_def)

lemma entry_steps_iff:
  assumes "distinct (map identity accepted)"
  shows "Q (entry_steps x) \<longleftrightarrow>
    (identity x \<notin> identity ` set accepted \<longrightarrow> Q (set (fresh x []))) \<and>
    (\<forall>a \<in> set accepted. identity a = identity x \<longrightarrow> Q (set (kept a x [])))"
proof (cases "identity x \<in> identity ` set accepted")
  case True
  then obtain a where "a \<in> set accepted" "identity a = identity x" by auto
  then show ?thesis using True entry_steps_kept [OF assms] by metis
next
  case False
  then have "identity a \<noteq> identity x" if "a \<in> set accepted" for a using that by (metis imageI)
  with False entry_steps_fresh [OF False] show ?thesis by simp
qed

lemma entry_steps_ex:
  assumes "distinct (map identity accepted)"
  shows "Q (entry_steps x) \<longleftrightarrow>
    (identity x \<notin> identity ` set accepted \<and> Q (set (fresh x []))) \<or>
    (\<exists>a \<in> set accepted. identity a = identity x \<and> Q (set (kept a x [])))"
  using entry_steps_iff [OF assms, of "\<lambda>S. \<not> Q S" x] by blast

end

section \<open>Metadata and constraints\<close>

lemma set_plan_type_metadata [step_simps]:
  "NO_MATCH [] st \<Longrightarrow>
     set (plan_type_metadata k n a d st) = set st \<union> set (plan_type_metadata k n a d [])"
  by (auto simp: plan_type_metadata_def split: annotation_change_kind.splits)

lemma set_plan_property_metadata [step_simps]:
  "NO_MATCH [] st \<Longrightarrow>
     set (plan_property_metadata k t n a d st) = set st \<union> set (plan_property_metadata k t n a d [])"
  by (auto simp: plan_property_metadata_def split: annotation_change_kind.splits)

lemma set_add_property_constraint:
  "set (add_property_constraint k t n c st) = set st \<union> set (add_property_constraint k t n c [])"
  by (auto simp: add_property_constraint_def split: property_constraint_shape.splits)

lemmas set_add_property_constraints =
  set_fold_emit [of "add_property_constraint k t n" "\<lambda>c. set (add_property_constraint k t n c [])"
    for k t n, OF set_add_property_constraint]

lemma set_plan_property_constraints [step_simps]:
  "NO_MATCH [] st \<Longrightarrow>
     set (plan_property_constraints k t n a d st) =
       set st \<union> set (plan_property_constraints k t n a d [])"
  by (auto simp: plan_property_constraints_def Let_def set_add_property_constraints)

lemma set_add_constraint:
  "set (add_constraint k t m e st) = set st \<union> set (add_constraint k t m e [])"
  by (cases e; cases "snd e") (simp_all add: add_constraint_def)

lemmas set_add_constraints =
  set_fold_emit [of "add_constraint k t m" "\<lambda>e. set (add_constraint k t m e [])"
    for k t m, OF set_add_constraint]

lemma set_plan_constraints [step_simps]:
  "NO_MATCH [] st \<Longrightarrow>
     set (plan_constraints jc k t a d st) = set st \<union> set (plan_constraints jc k t a d [])"
  by (auto simp: plan_constraints_def Let_def set_add_constraints)

section \<open>Properties\<close>

lemma set_plan_new_property:
  "set (plan_new_property k t p st) = set st \<union> set (plan_new_property k t p [])"
  by (simp add: plan_new_property_def)

lemma set_plan_property_type [step_simps]:
  "NO_MATCH [] st \<Longrightarrow>
     set (plan_property_type k t e p st) = set st \<union> set (plan_property_type k t e p [])"
  by (auto simp: plan_property_type_def split: option.splits)

lemma set_plan_existing_property:
  "set (plan_existing_property k t e p st) = set st \<union> set (plan_existing_property k t e p [])"
  by (simp add: plan_existing_property_def Let_def step_simps Un_assoc)

interpretation properties: matched_loop "plan_property k t (by_id pi_property_id acc)" acc
    pi_property_id "plan_new_property k t" "plan_existing_property k t" for k t acc
  by unfold_locales
    (simp_all add: plan_property_def set_plan_new_property [symmetric]
      set_plan_existing_property [symmetric])

definition dropped_property_steps ::
    "schema_type_kind \<Rightarrow> string \<Rightarrow> property_ir list \<Rightarrow> property_ir list \<Rightarrow> migration_step set" where
  "dropped_property_steps k t acc des =
     (\<lambda>p. DropProperty k t (pi_name p) Soft) `
       {p \<in> set acc. pi_property_id p \<notin> pi_property_id ` set des}"

lemma set_plan_properties:
  "set (plan_properties k t acc des st) =
     set st \<union> (\<Union>p \<in> set des. properties.entry_steps acc k t p) \<union> dropped_property_steps k t acc des"
  using properties.leftover [of acc k t des st]
  by (auto simp: plan_properties_def dropped_property_steps_def case_prod_beta properties.loop_steps)

lemma set_plan_properties_only [step_simps]:
  "NO_MATCH [] st \<Longrightarrow>
     set (plan_properties k t acc des st) = set st \<union> set (plan_properties k t acc des [])"
  by (auto simp: set_plan_properties)

section \<open>Types\<close>

lemma set_plan_existing_interface:
  "set (plan_existing_interface e i st) = set st \<union> set (plan_existing_interface e i [])"
  by (simp add: plan_existing_interface_def step_simps Un_assoc)

lemma set_plan_existing_node:
  "set (plan_existing_node jc e n st) = set st \<union> set (plan_existing_node jc e n [])"
  by (simp add: plan_existing_node_def Let_def step_simps Un_assoc)

lemma set_plan_existing_edge:
  "set (plan_existing_edge jc d e st) = set st \<union> set (plan_existing_edge jc d e [])"
  by (simp add: plan_existing_edge_def Let_def step_simps Un_assoc)

interpretation interfaces: matched_loop "plan_interface (by_id ii_type_id acc)" acc ii_type_id
    "\<lambda>i. push (AddType SInterface (ii_name i))" plan_existing_interface for acc
  by unfold_locales
    (simp_all add: plan_interface_def set_plan_existing_interface [symmetric] split: option.splits)

interpretation nodes: matched_loop "plan_node jc (by_id ni_type_id acc)" acc ni_type_id
    "\<lambda>n. push (AddType SNode (ni_name n))" "plan_existing_node jc" for jc acc
  by unfold_locales (simp_all add: plan_node_def set_plan_existing_node [symmetric])

interpretation edges: matched_loop "plan_edge jc (by_id ei_type_id acc)" acc ei_type_id
    "\<lambda>e. push (AddType SEdge (ei_name e))" "plan_existing_edge jc" for jc acc
  by unfold_locales (simp_all add: plan_edge_def set_plan_existing_edge [symmetric])

definition removed_interface_step :: "interface_ir \<Rightarrow> migration_step" where
  "removed_interface_step i = UnsupportedChange (''interface:'' @ ii_name i)
     (''removing interface '' @ quoted (ii_name i) @ not_supported_v1) None"

text \<open>The accepted entries whose identity the desired ones do not have.\<close>

definition retired :: "('a \<Rightarrow> u64) \<Rightarrow> 'a list \<Rightarrow> 'a list \<Rightarrow> 'a set" where
  "retired i acc des = {x \<in> set acc. i x \<notin> i ` set des}"

lemma set_plan_interfaces:
  "set (plan_interfaces acc des st) =
     set st \<union> (\<Union>i \<in> set des. interfaces.entry_steps acc i) \<union>
     removed_interface_step ` retired ii_type_id acc des"
  using interfaces.leftover [of acc des st]
  by (simp add: plan_interfaces_def removed_interface_step_def retired_def case_prod_beta
      interfaces.loop_steps)

lemma set_plan_nodes:
  "set (plan_nodes jc acc des st) =
     set st \<union> (\<Union>n \<in> set des. nodes.entry_steps acc jc n) \<union>
     (\<lambda>n. DropType SNode (ni_name n) Soft) ` retired ni_type_id acc des"
  using nodes.leftover [of acc jc des st]
  by (simp add: plan_nodes_def retired_def case_prod_beta nodes.loop_steps)

lemma set_plan_edges:
  "set (plan_edges jc acc des st) =
     set st \<union> (\<Union>e \<in> set des. edges.entry_steps acc jc e) \<union>
     (\<lambda>e. DropType SEdge (ei_name e) Soft) ` retired ei_type_id acc des"
  using edges.leftover [of acc jc des st]
  by (simp add: plan_edges_def retired_def case_prod_beta edges.loop_steps)

section \<open>The whole plan\<close>

definition interface_steps :: "schema_ir \<Rightarrow> schema_ir \<Rightarrow> migration_step set" where
  "interface_steps acc des =
     (\<Union>i \<in> set (sir_interfaces des). interfaces.entry_steps (sir_interfaces acc) i) \<union>
     removed_interface_step ` retired ii_type_id (sir_interfaces acc) (sir_interfaces des)"

definition node_steps :: "codec \<Rightarrow> schema_ir \<Rightarrow> schema_ir \<Rightarrow> migration_step set" where
  "node_steps jc acc des =
     (\<Union>n \<in> set (sir_nodes des). nodes.entry_steps (sir_nodes acc) jc n) \<union>
     (\<lambda>n. DropType SNode (ni_name n) Soft) ` retired ni_type_id (sir_nodes acc) (sir_nodes des)"

definition edge_steps :: "codec \<Rightarrow> schema_ir \<Rightarrow> schema_ir \<Rightarrow> migration_step set" where
  "edge_steps jc acc des =
     (\<Union>e \<in> set (sir_edges des). edges.entry_steps (sir_edges acc) jc e) \<union>
     (\<lambda>e. DropType SEdge (ei_name e) Soft) ` retired ei_type_id (sir_edges acc) (sir_edges des)"

definition change_steps :: "codec \<Rightarrow> schema_ir \<Rightarrow> schema_ir \<Rightarrow> migration_step set" where
  "change_steps jc acc des = interface_steps acc des \<union> node_steps jc acc des \<union> edge_steps jc acc des"

lemma plan_schema_migration_Inr:
  assumes "plan_schema_migration jc acc des = Inr plan"
  shows "validate_schema_ir jc acc = Inr ()" and "validate_schema_ir jc des = Inr ()"
    and "validate_evolution_identity acc des = Inr ()"
    and "set (mp_steps plan) = (if change_steps jc acc des = {} \<and> acc \<noteq> des
           then {unclassified_change} else change_steps jc acc des)"
    and "mp_supported plan \<longleftrightarrow> (\<forall>s \<in> set (mp_steps plan). \<not> is_unsupported s)"
proof -
  let ?st = "plan_edges jc (sir_edges acc) (sir_edges des)
    (plan_nodes jc (sir_nodes acc) (sir_nodes des)
      (plan_interfaces (sir_interfaces acc) (sir_interfaces des) []))"
  have st: "set ?st = change_steps jc acc des"
    by (simp add: set_plan_edges set_plan_nodes set_plan_interfaces change_steps_def
        interface_steps_def node_steps_def edge_steps_def Un_assoc)
  then have empty: "?st = [] \<longleftrightarrow> change_steps jc acc des = {}" by (metis set_empty)
  from assms show "validate_schema_ir jc acc = Inr ()" "validate_schema_ir jc des = Inr ()"
    "validate_evolution_identity acc des = Inr ()"
    by (simp_all add: plan_schema_migration_def)
  from assms have steps: "mp_steps plan = push_when (?st = [] \<and> acc \<noteq> des) unclassified_change ?st"
    and supported: "mp_supported plan \<longleftrightarrow> \<not> list_ex is_unsupported (mp_steps plan)"
    by (auto simp: plan_schema_migration_def Let_def)
  from steps st empty show "set (mp_steps plan) = (if change_steps jc acc des = {} \<and> acc \<noteq> des
       then {unclassified_change} else change_steps jc acc des)"
    by simp
  from supported show "mp_supported plan \<longleftrightarrow> (\<forall>s \<in> set (mp_steps plan). \<not> is_unsupported s)"
    by (simp add: list_ex_iff)
qed

end
