(* ===== verification/Schema_Compatible.thy ===== *)
theory Schema_Compatible
  imports Schema_Plan_Facts
begin

text \<open>
  The changes the first version of schema migration supports, stated without plans: when an
  evolution of an accepted schema is compatible. The planner supports exactly these.
\<close>

section \<open>Compatible changes\<close>

text \<open>An enum may gain values; every other change of a type is refused.\<close>

definition widens :: "prop_type \<Rightarrow> prop_type \<Rightarrow> bool" where
  "widens a d \<longleftrightarrow>
     (\<exists>old new. pt_enum_values a = Some old \<and> d = a\<lparr>pt_enum_values := Some new\<rparr> \<and> set old \<subseteq> set new)"

definition compatible_property :: "property_ir \<Rightarrow> property_ir \<Rightarrow> bool" where
  "compatible_property a d \<longleftrightarrow>
     (pi_prop_type a = pi_prop_type d \<or> widens (pi_prop_type a) (pi_prop_type d)) \<and>
     embed_sources_semantically_equal (pi_embed_source a) (pi_embed_source d) \<and>
     set (pi_property_constraints a) \<subseteq> set (pi_property_constraints d) \<and>
     set (pi_property_constraints d) \<subseteq> set (pi_property_constraints a) \<union> {PCIndex} \<and>
     pi_declared_directly a = pi_declared_directly d \<and>
     (\<lambda>r. (pr_owner_type_id r, pr_property_id r)) ` set (pi_satisfies_interface_properties a) =
     (\<lambda>r. (pr_owner_type_id r, pr_property_id r)) ` set (pi_satisfies_interface_properties d) \<and>
     strip_metadata_annotations (pi_annotations a) = strip_metadata_annotations (pi_annotations d)"

definition compatible_properties :: "property_ir list \<Rightarrow> property_ir list \<Rightarrow> bool" where
  "compatible_properties acc des \<longleftrightarrow>
     (\<forall>d \<in> set des.
        (pi_property_id d \<notin> pi_property_id ` set acc \<longrightarrow> pt_nullable (pi_prop_type d)) \<and>
        (\<forall>a \<in> set acc. pi_property_id a = pi_property_id d \<longrightarrow> compatible_property a d))"

fun is_index :: "constraint_ir \<Rightarrow> bool" where
  "is_index (IndexIR fs) = True"
| "is_index _ = False"

definition compatible_constraints :: "codec \<Rightarrow> constraint_ir list \<Rightarrow> constraint_ir list \<Rightarrow> bool" where
  "compatible_constraints jc acc des \<longleftrightarrow>
     constraint_ir_key jc ` set acc \<subseteq> constraint_ir_key jc ` set des \<and>
     (\<forall>c \<in> set des. constraint_ir_key jc c \<notin> constraint_ir_key jc ` set acc \<longrightarrow> is_index c)"

definition compatible_interface :: "interface_ir \<Rightarrow> interface_ir \<Rightarrow> bool" where
  "compatible_interface a d \<longleftrightarrow>
     ii_name a = ii_name d \<and> compatible_properties (ii_properties a) (ii_properties d)"

definition compatible_node :: "codec \<Rightarrow> node_ir \<Rightarrow> node_ir \<Rightarrow> bool" where
  "compatible_node jc a d \<longleftrightarrow>
     tr_type_id ` set (ni_implements a) = tr_type_id ` set (ni_implements d) \<and>
     strip_metadata_annotations (ni_annotations a) = strip_metadata_annotations (ni_annotations d) \<and>
     compatible_properties (ni_properties a) (ni_properties d) \<and>
     compatible_constraints jc (ni_constraints a) (ni_constraints d)"

definition compatible_edge :: "codec \<Rightarrow> edge_ir \<Rightarrow> edge_ir \<Rightarrow> bool" where
  "compatible_edge jc a d \<longleftrightarrow>
     tr_type_id (ei_from_type a) = tr_type_id (ei_from_type d) \<and>
     tr_type_id (ei_to_type a) = tr_type_id (ei_to_type d) \<and>
     ei_cardinality a = ei_cardinality d \<and>
     strip_metadata_annotations (ei_annotations a) = strip_metadata_annotations (ei_annotations d) \<and>
     compatible_properties (ei_properties a) (ei_properties d) \<and>
     compatible_constraints jc (ei_constraints a) (ei_constraints d)"

definition compatible_schema :: "codec \<Rightarrow> schema_ir \<Rightarrow> schema_ir \<Rightarrow> bool" where
  "compatible_schema jc acc des \<longleftrightarrow>
     retired ii_type_id (sir_interfaces acc) (sir_interfaces des) = {} \<and>
     (\<forall>a \<in> set (sir_interfaces acc). \<forall>d \<in> set (sir_interfaces des).
        ii_type_id a = ii_type_id d \<longrightarrow> compatible_interface a d) \<and>
     (\<forall>a \<in> set (sir_nodes acc). \<forall>d \<in> set (sir_nodes des).
        ni_type_id a = ni_type_id d \<longrightarrow> compatible_node jc a d) \<and>
     (\<forall>a \<in> set (sir_edges acc). \<forall>d \<in> set (sir_edges des).
        ei_type_id a = ei_type_id d \<longrightarrow> compatible_edge jc a d)"

section \<open>Steps without an unsupported change\<close>

definition clean :: "migration_step set \<Rightarrow> bool" where
  "clean S \<longleftrightarrow> (\<forall>s \<in> S. \<not> is_unsupported s)"

named_theorems clean_simps \<open>when a planning function emits no unsupported change\<close>

lemma clean_basic [simp]:
  "clean {}" "clean (insert s S) \<longleftrightarrow> \<not> is_unsupported s \<and> clean S"
  "clean (A \<union> B) \<longleftrightarrow> clean A \<and> clean B" "clean (\<Union>x \<in> X. F x) \<longleftrightarrow> (\<forall>x \<in> X. clean (F x))"
  "clean (if b then A else B) \<longleftrightarrow> (if b then clean A else clean B)"
  by (auto simp: clean_def)

lemma clean_image [simp]: "clean (f ` X) \<longleftrightarrow> (\<forall>x \<in> X. \<not> is_unsupported (f x))"
  by (auto simp: clean_def)

lemma clean_type_metadata [clean_simps]:
  "clean (set (plan_type_metadata k n a d [])) \<longleftrightarrow>
     strip_metadata_annotations a = strip_metadata_annotations d"
  by (simp add: plan_type_metadata_def annotation_change_def split: annotation_change_kind.splits)

lemma clean_property_metadata [clean_simps]:
  "clean (set (plan_property_metadata k t n a d [])) \<longleftrightarrow>
     strip_metadata_annotations a = strip_metadata_annotations d"
  by (simp add: plan_property_metadata_def annotation_change_def
      split: annotation_change_kind.splits)

lemma clean_property_constraints [clean_simps]:
  "clean (set (plan_property_constraints k t n a d [])) \<longleftrightarrow>
     set a \<subseteq> set d \<and> set d \<subseteq> set a \<union> {PCIndex}"
proof -
  have "clean (set (add_property_constraint k t n c [])) \<longleftrightarrow> c = PCIndex" for c
    by (cases c) (simp_all add: add_property_constraint_def)
  then show ?thesis
    by (auto simp: plan_property_constraints_def Let_def set_add_property_constraints
        filter_empty_conv)
qed

lemma constraint_key_kind:
  "constraint_ir_key jc c = constraint_ir_key jc d \<Longrightarrow> is_index c = is_index d"
  by (cases c; cases d) simp_all

lemma constraint_map_get:
  "bm_contains (constraint_map jc cs) k \<longleftrightarrow> k \<in> constraint_ir_key jc ` set cs"
  "(k, c) \<in> set (constraint_map jc cs) \<Longrightarrow> constraint_ir_key jc c = k \<and> c \<in> set cs"
  "bm_wf (constraint_map jc cs)"
proof -
  let ?kvs = "map (\<lambda>c. (constraint_ir_key jc c, c)) cs"
  show wf: "bm_wf (constraint_map jc cs)"
    unfolding constraint_map_def by (rule bm.invar_fold_insert) simp
  have get: "bm_get (constraint_map jc cs) k = map_of (rev ?kvs) k" for k
    by (simp add: constraint_map_def bm.get_fold_insert split: option.splits)
  show "bm_contains (constraint_map jc cs) k \<longleftrightarrow> k \<in> constraint_ir_key jc ` set cs"
    by (auto simp: bm_contains_def get map_of_eq_None_iff image_iff)
  show "constraint_ir_key jc c = k \<and> c \<in> set cs" if "(k, c) \<in> set (constraint_map jc cs)"
    using bm_in_set_get [OF wf that] by (auto simp: get dest!: map_of_SomeD)
qed

lemma clean_constraints [clean_simps]:
  "clean (set (plan_constraints jc k t acc des [])) \<longleftrightarrow> compatible_constraints jc acc des"
proof -
  let ?am = "constraint_map jc acc" and ?dm = "constraint_map jc des"
  have one: "clean (set (add_constraint k t m (key, c) [])) \<longleftrightarrow> bm_contains m key \<or> is_index c"
    for m key c by (cases c) (simp_all add: add_constraint_def)
  have keys: "set (bm_keys ?am) = constraint_ir_key jc ` set acc"
    using constraint_map_get(1) [of jc acc] bm_keys_get [of _ ?am] by (auto simp: bm_contains_def)
  have in_dm: "\<exists>c'. (constraint_ir_key jc c, c') \<in> set ?dm" if "c \<in> set des" for c
    using constraint_map_get(1) [of jc des] that
    by (auto simp: bm_contains_def dest!: bm_get_in_set)
  have "(\<forall>(key, c) \<in> set ?dm. bm_contains ?am key \<or> is_index c) \<longleftrightarrow>
      (\<forall>c \<in> set des. constraint_ir_key jc c \<notin> constraint_ir_key jc ` set acc \<longrightarrow> is_index c)"
    (is "?l \<longleftrightarrow> ?r")
  proof
    assume ?l
    then show ?r
      using in_dm constraint_map_get(2) [of _ _ jc des] constraint_key_kind
      unfolding constraint_map_get(1) by (metis (no_types, lifting) case_prodD)
  next
    assume ?r
    then show ?l
      using constraint_map_get(2) [of _ _ jc des] unfolding constraint_map_get(1) by blast
  qed
  then show ?thesis
    by (auto simp: plan_constraints_def Let_def set_add_constraints compatible_constraints_def
        filter_empty_conv keys constraint_map_get(1) one split_beta)
qed

lemma enum_widening_iff: "enum_widening a d \<noteq> None \<longleftrightarrow> a \<noteq> d \<and> widens a d"
  by (cases a; cases d) (auto simp: enum_widening_def widens_def list_all_iff split: option.splits)

lemma clean_property_type [clean_simps]:
  "clean (set (plan_property_type k t a d [])) \<longleftrightarrow>
     pi_prop_type a = pi_prop_type d \<or> widens (pi_prop_type a) (pi_prop_type d)"
  using enum_widening_iff [of "pi_prop_type a" "pi_prop_type d"]
  by (auto simp: plan_property_type_def split: option.splits)

lemma clean_existing_property [clean_simps]:
  "clean (set (plan_existing_property k t a d [])) \<longleftrightarrow> compatible_property a d"
  by (simp add: plan_existing_property_def Let_def step_simps clean_simps compatible_property_def
      stable_property_refs_def sort_dedup_eq_iff conj_ac)

lemma clean_properties [clean_simps]:
  assumes "distinct (map pi_property_id acc)"
  shows "clean (set (plan_properties k t acc des [])) \<longleftrightarrow> compatible_properties acc des"
proof -
  have "clean (properties.entry_steps acc k t d) \<longleftrightarrow>
      (pi_property_id d \<notin> pi_property_id ` set acc \<longrightarrow> pt_nullable (pi_prop_type d)) \<and>
      (\<forall>a \<in> set acc. pi_property_id a = pi_property_id d \<longrightarrow> compatible_property a d)" for d
    using properties.entry_steps_iff [OF assms, of clean k t d]
    by (simp add: clean_existing_property plan_new_property_def)
  then show ?thesis
    by (simp add: set_plan_properties compatible_properties_def dropped_property_steps_def)
qed

section \<open>The planner supports exactly the compatible evolutions\<close>

lemma clean_existing_interface [clean_simps]:
  assumes "distinct (map pi_property_id (ii_properties a))"
  shows "clean (set (plan_existing_interface a d [])) \<longleftrightarrow> compatible_interface a d"
  using clean_properties [OF assms]
  by (simp add: plan_existing_interface_def step_simps compatible_interface_def)

lemma clean_existing_node [clean_simps]:
  assumes "distinct (map pi_property_id (ni_properties a))"
  shows "clean (set (plan_existing_node jc a d [])) \<longleftrightarrow> compatible_node jc a d"
  using clean_properties [OF assms]
  by (simp add: plan_existing_node_def Let_def step_simps clean_simps compatible_node_def
      sort_dedup_eq_iff conj_ac)

lemma clean_existing_edge [clean_simps]:
  assumes "distinct (map pi_property_id (ei_properties a))"
  shows "clean (set (plan_existing_edge jc a d [])) \<longleftrightarrow> compatible_edge jc a d"
  using clean_properties [OF assms]
  by (auto simp: plan_existing_edge_def Let_def step_simps clean_simps compatible_edge_def)

text \<open>Identities are distinct within every list of a validated schema.\<close>

lemma validated_distinct:
  assumes "validate_schema_ir jc ir = Inr ()"
  shows "distinct (map ii_type_id (sir_interfaces ir))" "distinct (map ni_type_id (sir_nodes ir))"
    "distinct (map ei_type_id (sir_edges ir))"
    and "i \<in> set (sir_interfaces ir) \<Longrightarrow> distinct (map pi_property_id (ii_properties i))"
    and "n \<in> set (sir_nodes ir) \<Longrightarrow> distinct (map pi_property_id (ni_properties n))"
    and "e \<in> set (sir_edges ir) \<Longrightarrow> distinct (map pi_property_id (ei_properties e))"
proof -
  have ids: "distinct (concat (map type_identities (accepted_types ir)))"
    using validate_schema_ir_parts(3) [OF assms] by (simp add: schema_identities_def)
  from distinct_type_ids [OF this]
  show "distinct (map ii_type_id (sir_interfaces ir))" "distinct (map ni_type_id (sir_nodes ir))"
    "distinct (map ei_type_id (sir_edges ir))"
    by (simp_all add: accepted_types_def o_def)
  have "list_all (\<lambda>t. distinct (map pi_property_id (ac_properties t))) (accepted_types ir)"
    unfolding list_all_iff
  proof
    fix t
    assume that: "t \<in> set (accepted_types ir)"
    from ids that have "distinct (type_identities t)" by (simp add: distinct_concat_iff)
    then show "distinct (map pi_property_id (ac_properties t))"
      by (auto simp: type_identities_def split: option.splits)
  qed
  then show "i \<in> set (sir_interfaces ir) \<Longrightarrow> distinct (map pi_property_id (ii_properties i))"
    "n \<in> set (sir_nodes ir) \<Longrightarrow> distinct (map pi_property_id (ni_properties n))"
    "e \<in> set (sir_edges ir) \<Longrightarrow> distinct (map pi_property_id (ei_properties e))"
    by (simp_all add: accepted_types_def list_all_iff ball_Un)
qed

lemma clean_change_steps:
  assumes acc: "validate_schema_ir jc acc = Inr ()"
  shows "clean (change_steps jc acc des) \<longleftrightarrow> compatible_schema jc acc des"
proof -
  note d = validated_distinct [OF acc]
  have interfaces: "clean (interfaces.entry_steps (sir_interfaces acc) x) \<longleftrightarrow>
      (\<forall>a \<in> set (sir_interfaces acc). ii_type_id a = ii_type_id x \<longrightarrow> compatible_interface a x)" for x
    using interfaces.entry_steps_iff [OF d(1), of clean x] clean_existing_interface [OF d(4)] by simp
  have nodes: "clean (nodes.entry_steps (sir_nodes acc) jc x) \<longleftrightarrow>
      (\<forall>a \<in> set (sir_nodes acc). ni_type_id a = ni_type_id x \<longrightarrow> compatible_node jc a x)" for x
    using nodes.entry_steps_iff [OF d(2), of clean jc x] clean_existing_node [OF d(5)] by simp
  have edges: "clean (edges.entry_steps (sir_edges acc) jc x) \<longleftrightarrow>
      (\<forall>a \<in> set (sir_edges acc). ei_type_id a = ei_type_id x \<longrightarrow> compatible_edge jc a x)" for x
    using edges.entry_steps_iff [OF d(3), of clean jc x] clean_existing_edge [OF d(6)] by simp
  show ?thesis
    by (simp add: change_steps_def interface_steps_def node_steps_def edge_steps_def
        removed_interface_step_def interfaces nodes edges compatible_schema_def)
      blast
qed

text \<open>
  C14: a plan is supported exactly when the evolution is compatible (no interface disappears or
  changes its name; kept nodes and edges keep their interfaces, endpoints and cardinality; kept
  properties keep their type up to new enum values, their relations up to new indexes, their
  embedding source and their provenance; new properties are nullable; constraints only gain
  indexes) and the plan is not the report of a change it could not classify.
\<close>

theorem supported_plan_iff:
  assumes "plan_schema_migration jc acc des = Inr plan"
  shows "mp_supported plan \<longleftrightarrow>
    compatible_schema jc acc des \<and> set (mp_steps plan) \<noteq> {unclassified_change}"
proof -
  note parts = plan_schema_migration_Inr [OF assms]
  have "mp_supported plan \<longleftrightarrow> clean (set (mp_steps plan))"
    using parts(5) by (simp add: clean_def)
  moreover have "clean (change_steps jc acc des) \<longleftrightarrow> compatible_schema jc acc des"
    using parts(1) by (rule clean_change_steps)
  moreover have "\<not> clean {unclassified_change}" by (simp add: unclassified_change_def)
  ultimately show ?thesis using parts(4) by (auto split: if_splits)
qed

end
