(* ===== verification/Schema_Plan_Properties.thy ===== *)
theory Schema_Plan_Properties
  imports Schema_Compatible Schema_Resolution_Properties
begin

text \<open>
  What a migration plan promises: it is empty exactly for an unchanged schema, it reports every
  type and property that disappears, and planning succeeds on whatever the identity resolution
  produces.
\<close>

section \<open>Nothing to do for an unchanged schema\<close>

lemma enum_widening_self [simp]: "enum_widening a a = None"
  by (simp add: enum_widening_def split: option.splits)

lemma embed_equal_self [simp]: "embed_sources_semantically_equal e e"
  by (cases e) simp_all

lemma metadata_self [simp]:
  "plan_type_metadata k n a a st = st" "plan_property_metadata k t n a a st = st"
  by (simp_all add: plan_type_metadata_def plan_property_metadata_def annotation_change_def)

lemma property_constraints_self [simp]: "plan_property_constraints k t n cs cs st = st"
  by (simp add: plan_property_constraints_def Let_def push_when_def)

lemma existing_property_self [simp]: "plan_existing_property k t p p st = st"
  by (simp add: plan_existing_property_def Let_def push_when_def plan_property_type_def)

lemma constraints_self [simp]: "set (plan_constraints jc k t cs cs []) = {}"
proof -
  have "bm_contains (constraint_map jc cs) key" if "(key, c) \<in> set (constraint_map jc cs)" for key c
    using constraint_map_get(2) [OF that] by (auto simp: constraint_map_get(1))
  moreover have "bm_contains (constraint_map jc cs) k" if "k \<in> set (bm_keys (constraint_map jc cs))" for k
    using that bm_keys_get [of k "constraint_map jc cs"] by (simp add: bm_contains_def)
  ultimately show ?thesis
    by (auto simp: plan_constraints_def Let_def set_add_constraints add_constraint_def
        filter_empty_conv)
qed

lemma retired_self [simp]: "retired i xs xs = {}"
  by (auto simp: retired_def)

lemma properties_self [simp]:
  "distinct (map pi_property_id ps) \<Longrightarrow> set (plan_properties k t ps ps []) = {}"
  by (auto simp: set_plan_properties dropped_property_steps_def properties.entry_steps_self)

lemma change_steps_self:
  assumes "validate_schema_ir jc ir = Inr ()"
  shows "change_steps jc ir ir = {}"
proof -
  note d = validated_distinct [OF assms]
  have "set (plan_existing_interface i i []) = {}" if "i \<in> set (sir_interfaces ir)" for i
    using d(4) [OF that] by (simp add: plan_existing_interface_def push_when_def)
  moreover have "set (plan_existing_node jc n n []) = {}" if "n \<in> set (sir_nodes ir)" for n
    using d(5) [OF that] by (simp add: plan_existing_node_def push_when_def step_simps)
  moreover have "set (plan_existing_edge jc e e []) = {}" if "e \<in> set (sir_edges ir)" for e
    using d(6) [OF that] by (simp add: plan_existing_edge_def push_when_def step_simps)
  ultimately show ?thesis
    using interfaces.entry_steps_self [OF d(1)] nodes.entry_steps_self [OF d(2)]
      edges.entry_steps_self [OF d(3)]
    by (auto simp: change_steps_def interface_steps_def node_steps_def edge_steps_def)
qed

text \<open>
  C21: a plan has no steps exactly when the desired schema is the accepted one: an unchanged
  schema is never migrated, and no difference between the two goes without a step.
\<close>

theorem empty_plan_iff_unchanged:
  assumes "plan_schema_migration jc acc des = Inr plan"
  shows "mp_steps plan = [] \<longleftrightarrow> acc = des"
proof -
  note parts = plan_schema_migration_Inr [OF assms]
  have "set (mp_steps plan) = {} \<longleftrightarrow> acc = des"
    using parts(4) change_steps_self [OF parts(1)] by auto
  then show ?thesis by simp
qed

section \<open>Every drop is reported\<close>

named_theorems drop_simps \<open>which drops a planning function emits\<close>

fun is_drop :: "migration_step \<Rightarrow> bool" where
  "is_drop (DropType k n m) = True"
| "is_drop (DropProperty k t n m) = True"
| "is_drop _ = False"

fun step_code :: "migration_step \<Rightarrow> string option" where
  "step_code (UnsupportedChange entity reason code) = code"
| "step_code _ = None"

definition known_code :: "migration_step \<Rightarrow> bool" where
  "known_code s \<longleftrightarrow> step_code s \<in> {None, Some (dc_code OG_MF_103), Some (dc_code OG_MF_106)}"

lemma known_code_simps [simp]:
  "step_code s = None \<Longrightarrow> known_code s" "known_code (UnsupportedChange e r None)"
  "known_code (UnsupportedChange e r (Some (dc_code OG_MF_103)))"
  "known_code (UnsupportedChange e r (Some (dc_code OG_MF_106)))"
  by (simp_all add: known_code_def)

text \<open>Steps that drop nothing and carry one of the two codes or none.\<close>

abbreviation keeps :: "migration_step set \<Rightarrow> bool" where
  "keeps S \<equiv> (\<forall>s \<in> S. \<not> is_drop s \<and> known_code s)"

lemma keeps_metadata [drop_simps]:
  "keeps (set (plan_type_metadata k n a d []))" "keeps (set (plan_property_metadata k t n a d []))"
  by (simp_all add: plan_type_metadata_def plan_property_metadata_def
      split: annotation_change_kind.splits)

lemma keeps_constraints [drop_simps]:
  "keeps (set (plan_property_constraints k t n a d []))" "keeps (set (plan_constraints jc k t c e []))"
proof -
  have "keeps (set (add_property_constraint k t n x []))" for x
    by (cases x) (simp_all add: add_property_constraint_def)
  then show "keeps (set (plan_property_constraints k t n a d []))"
    by (simp add: plan_property_constraints_def Let_def set_add_property_constraints)
  have "keeps (set (add_constraint k t m x []))" for m x
    by (cases x; cases "snd x") (simp_all add: add_constraint_def)
  then show "keeps (set (plan_constraints jc k t c e []))"
    by (simp add: plan_constraints_def Let_def set_add_constraints)
qed

lemma keeps_property [drop_simps]:
  "keeps (set (plan_existing_property k t a d []))" "keeps (set (plan_new_property k t d []))"
proof -
  have "keeps (set (plan_property_type k t a d []))"
    by (simp add: plan_property_type_def split: option.split)
  then show "keeps (set (plan_existing_property k t a d []))"
    by (simp add: plan_existing_property_def Let_def step_simps ball_Un drop_simps)
  show "keeps (set (plan_new_property k t d []))"
    by (simp add: plan_new_property_def)
qed

lemma drops_of_properties [drop_simps]:
  "s \<in> set (plan_properties k t acc des []) \<and> is_drop s \<longleftrightarrow> s \<in> dropped_property_steps k t acc des"
proof -
  have "keeps (properties.entry_steps acc k t p)" for p
    using keeps_property by (simp add: properties.entry_steps_def split: option.splits)
  moreover have "is_drop s" if "s \<in> dropped_property_steps k t acc des"
    using that by (auto simp: dropped_property_steps_def)
  ultimately show ?thesis by (auto simp: set_plan_properties)
qed

lemma drops_of_types [drop_simps]:
  "s \<in> set (plan_existing_interface i j []) \<and> is_drop s \<longleftrightarrow>
     s \<in> dropped_property_steps SInterface (ii_name j) (ii_properties i) (ii_properties j)"
  "s \<in> set (plan_existing_node jc m n []) \<and> is_drop s \<longleftrightarrow>
     s \<in> dropped_property_steps SNode (ni_name n) (ni_properties m) (ni_properties n)"
  "s \<in> set (plan_existing_edge jc d e []) \<and> is_drop s \<longleftrightarrow>
     s \<in> dropped_property_steps SEdge (ei_name e) (ei_properties d) (ei_properties e)"
  using keeps_metadata(1) keeps_constraints(2)
  by (auto simp: plan_existing_interface_def plan_existing_node_def plan_existing_edge_def Let_def
      step_simps drops_of_properties [symmetric])

fun kind_of :: "schema_type_kind \<Rightarrow> type_kind" where
  "kind_of SInterface = KInterface"
| "kind_of SNode = KNode"
| "kind_of SEdge = KEdge"

text \<open>The types whose identity, and the properties below a kept type whose identity, disappear.\<close>

definition dropped_type :: "schema_ir \<Rightarrow> schema_ir \<Rightarrow> type_kind \<Rightarrow> string \<Rightarrow> bool" where
  "dropped_type acc des k n \<longleftrightarrow>
     (\<exists>a \<in> set (accepted_types acc). ac_kind a = k \<and> ac_name a = n \<and>
        (\<forall>d \<in> set (accepted_types des). ac_kind d = k \<longrightarrow> ac_type_id a \<noteq> ac_type_id d))"

definition dropped_property :: "schema_ir \<Rightarrow> schema_ir \<Rightarrow> type_kind \<Rightarrow> string \<Rightarrow> string \<Rightarrow> bool" where
  "dropped_property acc des k t n \<longleftrightarrow>
     (\<exists>a \<in> set (accepted_types acc). \<exists>d \<in> set (accepted_types des).
        ac_kind a = k \<and> ac_kind d = k \<and> ac_type_id a = ac_type_id d \<and> ac_name d = t \<and>
        (\<exists>p \<in> set (ac_properties a). pi_name p = n \<and>
           pi_property_id p \<notin> pi_property_id ` set (ac_properties d)))"

definition drop_steps :: "schema_ir \<Rightarrow> schema_ir \<Rightarrow> migration_step set" where
  "drop_steps acc des =
     {DropType k n Soft | k n. k \<noteq> SInterface \<and> dropped_type acc des (kind_of k) n} \<union>
     {DropProperty k t n Soft | k t n. dropped_property acc des (kind_of k) t n}"

lemma dropped_type_simps:
  "dropped_type acc des KNode n \<longleftrightarrow> n \<in> ni_name ` retired ni_type_id (sir_nodes acc) (sir_nodes des)"
  "dropped_type acc des KEdge n \<longleftrightarrow> n \<in> ei_name ` retired ei_type_id (sir_edges acc) (sir_edges des)"
  by (auto simp: dropped_type_def accepted_types_def retired_def image_iff ball_Un bex_Un)

definition kept_drops ::
    "schema_type_kind \<Rightarrow> ('a \<Rightarrow> u64) \<Rightarrow> ('a \<Rightarrow> string) \<Rightarrow> ('a \<Rightarrow> property_ir list) \<Rightarrow> 'a list \<Rightarrow>
       'a list \<Rightarrow> migration_step set" where
  "kept_drops k i nm ps acc des =
     (\<Union>d \<in> set des. \<Union>a \<in> {a \<in> set acc. i a = i d}. dropped_property_steps k (nm d) (ps a) (ps d))"

lemma kept_drops_iff:
  "DropProperty k t n Soft \<in>
     kept_drops SInterface ii_type_id ii_name ii_properties (sir_interfaces acc) (sir_interfaces des) \<longleftrightarrow>
     k = SInterface \<and> dropped_property acc des KInterface t n"
  "DropProperty k t n Soft \<in>
     kept_drops SNode ni_type_id ni_name ni_properties (sir_nodes acc) (sir_nodes des) \<longleftrightarrow>
     k = SNode \<and> dropped_property acc des KNode t n"
  "DropProperty k t n Soft \<in>
     kept_drops SEdge ei_type_id ei_name ei_properties (sir_edges acc) (sir_edges des) \<longleftrightarrow>
     k = SEdge \<and> dropped_property acc des KEdge t n"
  by (auto simp: kept_drops_def dropped_property_steps_def dropped_property_def accepted_types_def
      image_iff bex_Un)

lemma filtered_entries:
  assumes "\<And>s x. s \<in> E x \<and> P s \<longleftrightarrow> (\<exists>a \<in> A. i a = i x \<and> s \<in> D a x)"
  shows "{s \<in> (\<Union>x \<in> X. E x) \<union> R. P s} = (\<Union>x \<in> X. \<Union>a \<in> {a \<in> A. i a = i x}. D a x) \<union> {s \<in> R. P s}"
proof -
  have "{s \<in> E x. P s} = (\<Union>a \<in> {a \<in> A. i a = i x}. D a x)" for x
    using assms [of _ x] by (auto simp: Bex_def)
  moreover have "{s \<in> (\<Union>x \<in> X. E x) \<union> R. P s} = (\<Union>x \<in> X. {s \<in> E x. P s}) \<union> {s \<in> R. P s}" by auto
  ultimately show ?thesis by simp
qed

lemma drops_of_entries:
  assumes "validate_schema_ir jc acc = Inr ()"
  shows "{s \<in> interface_steps acc des. is_drop s} =
      kept_drops SInterface ii_type_id ii_name ii_properties (sir_interfaces acc) (sir_interfaces des)"
    and "{s \<in> node_steps jc acc des. is_drop s} =
      kept_drops SNode ni_type_id ni_name ni_properties (sir_nodes acc) (sir_nodes des) \<union>
      (\<lambda>n. DropType SNode (ni_name n) Soft) ` retired ni_type_id (sir_nodes acc) (sir_nodes des)"
    and "{s \<in> edge_steps jc acc des. is_drop s} =
      kept_drops SEdge ei_type_id ei_name ei_properties (sir_edges acc) (sir_edges des) \<union>
      (\<lambda>e. DropType SEdge (ei_name e) Soft) ` retired ei_type_id (sir_edges acc) (sir_edges des)"
proof -
  note d = validated_distinct [OF assms]
  have i: "s \<in> interfaces.entry_steps (sir_interfaces acc) x \<and> is_drop s \<longleftrightarrow>
      (\<exists>a \<in> set (sir_interfaces acc). ii_type_id a = ii_type_id x \<and>
         s \<in> dropped_property_steps SInterface (ii_name x) (ii_properties a) (ii_properties x))" for s x
    using interfaces.entry_steps_ex [OF d(1), of "\<lambda>S. s \<in> S \<and> is_drop s" x]
    by (auto simp: drops_of_types)
  have n: "s \<in> nodes.entry_steps (sir_nodes acc) jc x \<and> is_drop s \<longleftrightarrow>
      (\<exists>a \<in> set (sir_nodes acc). ni_type_id a = ni_type_id x \<and>
         s \<in> dropped_property_steps SNode (ni_name x) (ni_properties a) (ni_properties x))" for s x
    using nodes.entry_steps_ex [OF d(2), of "\<lambda>S. s \<in> S \<and> is_drop s" jc x]
    by (auto simp: drops_of_types)
  have e: "s \<in> edges.entry_steps (sir_edges acc) jc x \<and> is_drop s \<longleftrightarrow>
      (\<exists>a \<in> set (sir_edges acc). ei_type_id a = ei_type_id x \<and>
         s \<in> dropped_property_steps SEdge (ei_name x) (ei_properties a) (ei_properties x))" for s x
    using edges.entry_steps_ex [OF d(3), of "\<lambda>S. s \<in> S \<and> is_drop s" jc x]
    by (auto simp: drops_of_types)
  show "{s \<in> interface_steps acc des. is_drop s} =
      kept_drops SInterface ii_type_id ii_name ii_properties (sir_interfaces acc) (sir_interfaces des)"
    unfolding interface_steps_def kept_drops_def filtered_entries [OF i]
    by (auto simp: removed_interface_step_def)
  show "{s \<in> node_steps jc acc des. is_drop s} =
      kept_drops SNode ni_type_id ni_name ni_properties (sir_nodes acc) (sir_nodes des) \<union>
      (\<lambda>n. DropType SNode (ni_name n) Soft) ` retired ni_type_id (sir_nodes acc) (sir_nodes des)"
    unfolding node_steps_def kept_drops_def filtered_entries [OF n] by auto
  show "{s \<in> edge_steps jc acc des. is_drop s} =
      kept_drops SEdge ei_type_id ei_name ei_properties (sir_edges acc) (sir_edges des) \<union>
      (\<lambda>e. DropType SEdge (ei_name e) Soft) ` retired ei_type_id (sir_edges acc) (sir_edges des)"
    unfolding edge_steps_def kept_drops_def filtered_entries [OF e] by auto
qed

lemma kept_drops_properties [simp]:
  "DropType k n m \<notin> kept_drops k' i nm ps acc des"
  "DropProperty k t n Hard \<notin> kept_drops k' i nm ps acc des"
  "s \<in> kept_drops k' i nm ps acc des \<Longrightarrow> is_drop s"
  by (auto simp: kept_drops_def dropped_property_steps_def)

lemma drop_steps_eq:
  "kept_drops SInterface ii_type_id ii_name ii_properties (sir_interfaces acc) (sir_interfaces des) \<union>
   (kept_drops SNode ni_type_id ni_name ni_properties (sir_nodes acc) (sir_nodes des) \<union>
    (\<lambda>n. DropType SNode (ni_name n) Soft) ` retired ni_type_id (sir_nodes acc) (sir_nodes des)) \<union>
   (kept_drops SEdge ei_type_id ei_name ei_properties (sir_edges acc) (sir_edges des) \<union>
    (\<lambda>e. DropType SEdge (ei_name e) Soft) ` retired ei_type_id (sir_edges acc) (sir_edges des)) =
   drop_steps acc des" (is "?l = ?r")
proof (intro set_eqI)
  fix s
  show "s \<in> ?l \<longleftrightarrow> s \<in> ?r"
  proof (cases s)
    case (DropType k n m)
    then show ?thesis by (cases k) (auto simp: drop_steps_def dropped_type_simps)
  next
    case (DropProperty k t n m)
    then show ?thesis
      by (cases k; cases m) (auto simp: drop_steps_def kept_drops_iff)
  qed (auto simp: drop_steps_def dest: kept_drops_properties(3))
qed

text \<open>
  C20: the drops of a plan are exactly the node and edge types whose identity disappears and the
  properties whose identity disappears below a type that stays, each under its own name and
  never as more than a soft drop; an interface is never dropped.
\<close>

theorem plan_reports_exactly_the_drops:
  assumes "plan_schema_migration jc acc des = Inr plan"
  shows "{s \<in> set (mp_steps plan). is_drop s} = drop_steps acc des"
proof -
  note parts = plan_schema_migration_Inr [OF assms]
  have "{s \<in> set (mp_steps plan). is_drop s} = {s \<in> change_steps jc acc des. is_drop s}"
    using parts(4) by (auto simp: unclassified_change_def split: if_splits)
  also have "\<dots> = {s \<in> interface_steps acc des. is_drop s} \<union> {s \<in> node_steps jc acc des. is_drop s} \<union>
      {s \<in> edge_steps jc acc des. is_drop s}"
    by (auto simp: change_steps_def)
  also have "\<dots> = drop_steps acc des"
    unfolding drops_of_entries [OF parts(1)] by (rule drop_steps_eq)
  finally show ?thesis .
qed

section \<open>Planning what the resolution gives\<close>

lemma evolution_types_eq:
  "evolution_types ir = map (\<lambda>e. (ac_type_id e, ac_kind e, ac_incarnation e)) (accepted_types ir)"
  "evolution_properties ir = map (\<lambda>e. (ac_type_id e, ac_properties e)) (accepted_types ir)"
  by (simp_all add: evolution_types_def evolution_properties_def accepted_types_def)

lemma accepted_evolution_type:
  assumes "validate_schema_ir jc ir = Inr ()"
  shows "hm_get (fold (\<lambda>(k, v). hm_insert k v) (evolution_types ir) hm_empty) i = Some (k, inc) \<longleftrightarrow>
    (\<exists>e \<in> set (accepted_types ir). ac_type_id e = i \<and> ac_kind e = k \<and> ac_incarnation e = inc)"
proof -
  have "distinct (map ac_type_id (accepted_types ir))"
    using validate_schema_ir_parts(3) [OF assms]
    by (simp add: schema_identities_def distinct_type_ids)
  from map_of_rev_keyed [OF this, of "\<lambda>e. (ac_kind e, ac_incarnation e)" i "(k, inc)"]
  show ?thesis
    by (simp add: evolution_types_eq hm_get_collected)
qed

lemma accepted_owner_get:
  assumes "validate_schema_ir jc ir = Inr ()"
  shows "hm_get (accepted_owners ir) i = Some t \<longleftrightarrow>
    (\<exists>e \<in> set (accepted_types ir). ac_type_id e = t \<and> i \<in> pi_property_id ` set (ac_properties e))"
proof -
  let ?kvs = "concat (map (\<lambda>(owner, ps). map (\<lambda>p. (pi_property_id p, owner)) ps) (evolution_properties ir))"
  have kvs: "?kvs = concat (map (\<lambda>e. map (\<lambda>p. (pi_property_id p, ac_type_id e)) (ac_properties e))
      (accepted_types ir))"
    by (simp add: evolution_types_eq o_def)
  have "distinct (concat (map type_identities (accepted_types ir)))"
    using validate_schema_ir_parts(3) [OF assms] by (simp add: schema_identities_def)
  from distinct_property_ids [OF this]
  have "distinct (map fst (rev ?kvs))"
    by (simp add: kvs map_concat o_def rev_map [symmetric])
  then have "map_of (rev ?kvs) i = Some t \<longleftrightarrow> (i, t) \<in> set (rev ?kvs)" by (rule map_of_eq_Some_iff)
  moreover have "hm_get (accepted_owners ir) i = map_of (rev ?kvs) i"
    by (simp add: accepted_owners_def hm_get_collected)
  ultimately show ?thesis by (auto simp: kvs)
qed

text \<open>
  Where a resolved type and its properties take their identities from: one accepted type, or
  all of them new.
\<close>

definition evolved_from :: "schema_ir \<Rightarrow> accepted_type \<Rightarrow> bool" where
  "evolved_from acc e \<longleftrightarrow>
     (\<exists>a \<in> set (accepted_types acc). ac_type_id e = ac_type_id a \<and> ac_kind e = ac_kind a \<and>
        ac_incarnation e = ac_incarnation a \<and>
        (\<forall>q \<in> set (ac_properties e). pi_property_id q \<in> pi_property_id ` set (ac_properties a) \<or>
           sir_next_identity_id acc \<le> pi_property_id q)) \<or>
     (sir_next_identity_id acc \<le> ac_type_id e \<and>
        (\<forall>i. ac_incarnation e = Some i \<longrightarrow> sir_next_identity_id acc \<le> i) \<and>
        (\<forall>q \<in> set (ac_properties e). sir_next_identity_id acc \<le> pi_property_id q))"

lemma resolved_types_evolved:
  assumes step: "resolve_schema_ir jc acc shape = Inr res"
    and e: "e \<in> set (accepted_types (sr_schema_ir res))"
  shows "evolved_from acc e"
proof -
  let ?es = "accepted_types acc" and ?nx = "sir_next_identity_id acc"
  have res: "resolve jc (sir_schema_identity_domain acc) ?nx (Some acc) shape = Inr res"
    using step by (auto simp: resolve_schema_ir_def)
  have base: "sound_base (base_types (Some acc)) ?nx"
    using sound_base_accepted [OF resolve_schema_ir_step(1) [OF step]] by (simp add: base_types_def)
  have es: "base_types (Some acc) = ?es" by (simp add: base_types_def)
  obtain A pa where
    built: "list_all2 (built_type A pa) (shape_properties shape) (accepted_types (sr_schema_ir res))" and
    types: "\<And>k n h. (k, n, h) \<in> set (shape_types shape) \<Longrightarrow>
       \<exists>a. bm_get A (k, n) = Some a \<and> type_resolved ?es ?nx k n h a" and
    props: "\<And>k n h p. (k, n, h) \<in> set (shape_types shape) \<Longrightarrow>
       (k, n, p) \<in> set (flat_properties shape) \<Longrightarrow>
       \<exists>i. bm_get pa (owner_id A k n, ps_name p) = Some i \<and>
         (case Option.bind (type_source ?es k n h) (\<lambda>e. property_source e p) of
            Some q \<Rightarrow> i = pi_property_id q | None \<Rightarrow> ?nx \<le> i)"
    using resolution_spec [OF res base] unfolding es by metis
  from built_in [OF built e] obtain k n ps where entry: "(k, n, ps) \<in> set (shape_properties shape)"
    and be: "built_type A pa (k, n, ps) e" by blast
  from entry_has_owner [OF entry] obtain h where h: "(k, n, h) \<in> set (shape_types shape)" by blast
  from types [OF h] obtain a where a: "bm_get A (k, n) = Some a" "type_resolved ?es ?nx k n h a"
    by blast
  from be a(1) have e_parts: "ac_type_id e = at_type_id a" "ac_kind e = k"
    "ac_incarnation e = (if k = KInterface then None else at_incarnation a)"
    "list_all2 (\<lambda>p q. build_property (at_type_id a) n A pa p = Inr q) ps (ac_properties e)"
    by (auto simp: built_type_def)
  have q: "case type_source ?es k n h of
      None \<Rightarrow> ?nx \<le> pi_property_id q
    | Some old \<Rightarrow> pi_property_id q \<in> pi_property_id ` set (ac_properties old) \<or> ?nx \<le> pi_property_id q"
    if "q \<in> set (ac_properties e)" for q
  proof -
    from built_property_for [OF e_parts(4) that] obtain p where p: "p \<in> set ps"
      "build_property (at_type_id a) n A pa p = Inr q" by blast
    have "(k, n, p) \<in> set (flat_properties shape)"
      using entry p(1) by (auto simp: flat_properties_flatten in_flatten)
    from props [OF h this] build_property_Inr(2) [OF p(2)] a(1) show ?thesis
      by (auto simp: owner_id_def split: option.splits bind_splits dest: property_source_in)
  qed
  show ?thesis
  proof (cases "type_source ?es k n h")
    case None
    with q a(2) e_parts show ?thesis
      by (auto simp: evolved_from_def type_resolved_def split: if_splits)
  next
    case (Some old)
    have old: "old \<in> set ?es" "ac_kind old = k" using type_source_in [OF Some] by simp_all
    moreover have "k = KInterface \<Longrightarrow> ac_incarnation old = None"
      using base old unfolding es by (auto simp: sound_base_def)
    ultimately show ?thesis
      using q a(2) e_parts Some by (auto simp: evolved_from_def type_resolved_def intro!: bexI [of _ old])
  qed
qed

lemma validated_evolution:
  assumes acc: "validate_schema_ir jc acc = Inr ()"
    and evolved: "\<And>e. e \<in> set (accepted_types des) \<Longrightarrow> evolved_from acc e"
    and later: "sir_next_identity_id acc \<le> sir_next_identity_id des"
  shows "validate_evolution_identity acc des = Inr ()"
proof -
  let ?nx = "sir_next_identity_id acc"
  let ?types = "fold (\<lambda>(k, v). hm_insert k v) (evolution_types acc) hm_empty"
  have below: "i < ?nx" if "i \<in> set (schema_identities acc)" for i
    using validate_schema_ir_parts(4) [OF acc that] .
  have type_ok: "check_evolved_type ?nx ?types (ac_type_id e, ac_kind e, ac_incarnation e) = Inr ()"
    if e: "e \<in> set (accepted_types des)" for e
  proof (cases "hm_get ?types (ac_type_id e)")
    case None
    have "\<not> (\<exists>a \<in> set (accepted_types acc). ac_type_id a = ac_type_id e)"
      using None accepted_evolution_type [OF acc, of "ac_type_id e"] by force
    with evolved [OF e] None show ?thesis
      by (auto simp: evolved_from_def check_evolved_type_def split: option.splits)
  next
    case (Some old)
    then obtain a where a: "a \<in> set (accepted_types acc)" "ac_type_id a = ac_type_id e"
      "old = (ac_kind a, ac_incarnation a)"
      using accepted_evolution_type [OF acc] by (cases old) auto
    from a(1) have "ac_type_id a < ?nx"
      by (intro below) (auto simp: schema_identities_def simp del: set_concat intro: identities_of_type)
    with evolved [OF e] a obtain b where b: "b \<in> set (accepted_types acc)" "ac_type_id e = ac_type_id b"
      "ac_kind e = ac_kind b" "ac_incarnation e = ac_incarnation b"
      by (auto simp: evolved_from_def)
    have "hm_get ?types (ac_type_id e) = Some (ac_kind b, ac_incarnation b)"
      using b accepted_evolution_type [OF acc] by auto
    with b show ?thesis by (auto simp: check_evolved_type_def split: option.splits)
  qed
  have property_ok: "check_evolved_property ?nx (accepted_owners acc) (ac_type_id e) q = Inr ()"
    if e: "e \<in> set (accepted_types des)" and q: "q \<in> set (ac_properties e)" for e q
  proof (cases "hm_get (accepted_owners acc) (pi_property_id q)")
    case None
    have "\<not> (\<exists>a \<in> set (accepted_types acc). pi_property_id q \<in> pi_property_id ` set (ac_properties a))"
      using None accepted_owner_get [OF acc, of "pi_property_id q"] by force
    with evolved [OF e] q None show ?thesis
      by (fastforce simp: evolved_from_def check_evolved_property_def)
  next
    case (Some t)
    then obtain a where a: "a \<in> set (accepted_types acc)" "ac_type_id a = t"
      "pi_property_id q \<in> pi_property_id ` set (ac_properties a)"
      using accepted_owner_get [OF acc] by auto
    from a(1,3) have "pi_property_id q < ?nx"
      by (intro below) (auto simp: schema_identities_def simp del: set_concat intro: identities_of_type)
    with evolved [OF e] q obtain b where b: "b \<in> set (accepted_types acc)" "ac_type_id e = ac_type_id b"
      "pi_property_id q \<in> pi_property_id ` set (ac_properties b)"
      by (fastforce simp: evolved_from_def)
    then have "hm_get (accepted_owners acc) (pi_property_id q) = Some (ac_type_id e)"
      using accepted_owner_get [OF acc] by auto
    with Some show ?thesis by (simp add: check_evolved_property_def)
  qed
  from later type_ok property_ok show ?thesis
    by (auto simp: validate_evolution_identity_def Let_def evolution_types_eq)
qed

text \<open>
  C22: planning never fails on an evolution the identity layer produced: whatever shape is
  resolved against an accepted schema, the planner accepts the pair and gives a plan.
\<close>

theorem resolved_evolution_can_be_planned:
  assumes "resolve_schema_ir jc acc shape = Inr res"
  shows "\<exists>plan. plan_schema_migration jc acc (sr_schema_ir res) = Inr plan"
proof -
  note step = resolve_schema_ir_step [OF assms]
  have "validate_evolution_identity acc (sr_schema_ir res) = Inr ()"
    using step(1) resolved_types_evolved [OF assms] step(3) by (rule validated_evolution)
  moreover have "sir_schema_identity_domain (sr_schema_ir res) = sir_schema_identity_domain acc"
    using assms by (auto simp: resolve_schema_ir_def elim!: resolve_Inr simp: build_schema_Inr)
  ultimately show ?thesis
    using step(1,2) by (simp add: plan_schema_migration_def Let_def)
qed

section \<open>The codes a plan carries\<close>

lemma coded_properties: "\<forall>s \<in> set (plan_properties k t acc des []). known_code s"
proof -
  have "keeps (properties.entry_steps acc k t p)" for p
    using keeps_property by (simp add: properties.entry_steps_def split: option.splits)
  then show ?thesis
    by (auto simp: set_plan_properties dropped_property_steps_def)
qed

lemma coded_types:
  "\<forall>s \<in> set (plan_existing_interface i j []). known_code s"
  "\<forall>s \<in> set (plan_existing_node jc m n []). known_code s"
  "\<forall>s \<in> set (plan_existing_edge jc d e []). known_code s"
  using coded_properties keeps_metadata(1) keeps_constraints(2)
  by (simp_all add: plan_existing_interface_def plan_existing_node_def plan_existing_edge_def
      Let_def step_simps ball_Un)

text \<open>
  C40: the only lint codes a plan ever carries are the two of the maybe-fail family; the three
  destructive codes that the catalog lists as emitted are not, although types and properties are
  dropped.
\<close>

theorem destructive_codes_never_emitted:
  assumes "plan_schema_migration jc acc des = Inr plan"
  shows "{c. \<exists>s \<in> set (mp_steps plan). step_code s = Some c} \<subseteq> {''OG-MF-103'', ''OG-MF-106''} \<and>
    set EMITTED_IN_V0 - {''OG-MF-103'', ''OG-MF-106''} = {''OG-DS-102'', ''OG-DS-103'', ''OG-DS-104''}"
proof -
  have "\<forall>s \<in> interfaces.entry_steps acc' x. known_code s" for acc' x
    using coded_types(1) by (simp add: interfaces.entry_steps_def split: option.splits)
  moreover have "\<forall>s \<in> nodes.entry_steps acc' jc x. known_code s" for acc' x
    using coded_types(2) by (simp add: nodes.entry_steps_def split: option.splits)
  moreover have "\<forall>s \<in> edges.entry_steps acc' jc x. known_code s" for acc' x
    using coded_types(3) by (simp add: edges.entry_steps_def split: option.splits)
  ultimately have "\<forall>s \<in> change_steps jc acc des. known_code s"
    by (auto simp: change_steps_def interface_steps_def node_steps_def edge_steps_def
        removed_interface_step_def)
  then have "\<forall>s \<in> set (mp_steps plan). known_code s"
    using plan_schema_migration_Inr(4) [OF assms]
    by (auto simp: unclassified_change_def split: if_splits)
  then show ?thesis
    by (auto simp: known_code_def OG_MF_103_def OG_MF_106_def EMITTED_IN_V0_def)
qed

end
