(* ===== verification/Sample_Plan.thy ===== *)
theory Sample_Plan
  imports Schema_Plan_Properties Sample_Identity
begin

text \<open>The migration between the two schemas of the sample, and closed instances on it.\<close>

definition sample_plan :: migration_plan where
  "sample_plan = projr (plan_schema_migration sample_codec (sr_schema_ir first_resolution)
     (sr_schema_ir second_resolution))"

lemma plan_sample:
  "plan_schema_migration sample_codec (sr_schema_ir first_resolution)
     (sr_schema_ir second_resolution) = Inr sample_plan"
proof -
  have "is_ok (plan_schema_migration sample_codec (sr_schema_ir first_resolution)
     (sr_schema_ir second_resolution))" by code_simp
  then show ?thesis by (simp add: sample_plan_def)
qed

theorem supported_plan_iff_witness:
  "compatible_schema sample_codec (sr_schema_ir first_resolution) (sr_schema_ir second_resolution)"
proof -
  have "mp_supported sample_plan" by code_simp
  with supported_plan_iff [OF plan_sample] show ?thesis by simp
qed

theorem empty_plan_iff_unchanged_witness:
  "sr_schema_ir first_resolution \<noteq> sr_schema_ir second_resolution"
proof -
  have "mp_steps sample_plan \<noteq> []" by code_simp
  with empty_plan_iff_unchanged [OF plan_sample] show ?thesis by simp
qed

theorem plan_reports_exactly_the_drops_witness:
  "drop_steps (sr_schema_ir first_resolution) (sr_schema_ir second_resolution) =
     {DropType SNode ''Company'' Soft}"
proof -
  have "filter is_drop (mp_steps sample_plan) = [DropType SNode ''Company'' Soft]" by code_simp
  then have "set (filter is_drop (mp_steps sample_plan)) = {DropType SNode ''Company'' Soft}" by simp
  with plan_reports_exactly_the_drops [OF plan_sample] show ?thesis by simp
qed

theorem resolved_evolution_can_be_planned_witness:
  "\<exists>plan. plan_schema_migration sample_codec (sr_schema_ir first_resolution)
     (sr_schema_ir second_resolution) = Inr plan"
  by (rule resolved_evolution_can_be_planned [OF resolve_second])

theorem destructive_codes_never_emitted_witness:
  "{c. \<exists>s \<in> set (mp_steps sample_plan). step_code s = Some c} \<subseteq> {''OG-MF-103'', ''OG-MF-106''}"
  using destructive_codes_never_emitted [OF plan_sample] by simp

end
