(* ===== verification/Commit_Graph.thy ===== *)
theory Commit_Graph
  imports Ordered_Map
begin

text \<open>
  The projection of the graph lineage kept in memory
  (\<^verbatim>\<open>omnigraph/src/db/commit_graph.rs\<close>) and the decision a branch merge takes from it
  (\<^verbatim>\<open>omnigraph/src/exec/merge.rs\<close>). Reading the lineage rows from the manifest is storage: it is
  the parameter \<open>read_lineage\<close>, a function of the root and the branch that may fail.
\<close>

section \<open>Data\<close>

record lineage_row =
  lr_graph_commit_id :: string
  lr_manifest_branch :: "string option"
  lr_manifest_version :: u64
  lr_parent_commit_id :: "string option"
  lr_merged_parent_commit_id :: "string option"
  lr_actor_id :: "string option"
  lr_created_at :: i64

record graph_commit =
  gc_graph_commit_id :: string
  gc_manifest_branch :: "string option"
  gc_manifest_version :: u64
  gc_parent_commit_id :: "string option"
  gc_merged_parent_commit_id :: "string option"
  gc_actor_id :: "string option"
  gc_created_at :: i64

text \<open>Versions compare unsigned, time stamps signed.\<close>

definition lineage_key :: "graph_commit \<Rightarrow> u64 \<times> int \<times> string" where
  "lineage_key c = (gc_manifest_version c, sint (gc_created_at c), gc_graph_commit_id c)"

record commit_graph =
  cg_root_uri :: string
  cg_active_branch :: "string option"
  cg_commit_by_id :: "(string, graph_commit) hmap"
  cg_head_commit :: "graph_commit option"

type_synonym 'e read_lineage = "string \<Rightarrow> string option \<Rightarrow> 'e + lineage_row list"

section \<open>The cache\<close>

definition should_replace_head :: "graph_commit option \<Rightarrow> graph_commit \<Rightarrow> bool" where
  "should_replace_head current candidate =
     (case current of None \<Rightarrow> True | Some existing \<Rightarrow> lineage_key existing < lineage_key candidate)"

definition commit_of_row :: "lineage_row \<Rightarrow> graph_commit" where
  "commit_of_row r =
     \<lparr>gc_graph_commit_id = lr_graph_commit_id r,
      gc_manifest_branch = lr_manifest_branch r,
      gc_manifest_version = lr_manifest_version r,
      gc_parent_commit_id = lr_parent_commit_id r,
      gc_merged_parent_commit_id = lr_merged_parent_commit_id r,
      gc_actor_id = lr_actor_id r,
      gc_created_at = lr_created_at r\<rparr>"

definition cache_commit ::
    "graph_commit \<Rightarrow> (string, graph_commit) hmap \<times> graph_commit option \<Rightarrow>
       (string, graph_commit) hmap \<times> graph_commit option" where
  "cache_commit c st =
     (let (commits, head) = st in
      (hm_insert (gc_graph_commit_id c) c commits,
       if should_replace_head head c then Some c else head))"

definition build_commit_cache ::
    "lineage_row list \<Rightarrow> (string, graph_commit) hmap \<times> graph_commit option" where
  "build_commit_cache rows = fold (\<lambda>r. cache_commit (commit_of_row r)) rows (hm_empty, None)"

definition trim_end_slashes :: "string \<Rightarrow> string" where
  "trim_end_slashes s = rev (dropWhile (\<lambda>c. c = CHR ''/'') (rev s))"

definition from_manifest_rows :: "string \<Rightarrow> string option \<Rightarrow> lineage_row list \<Rightarrow> commit_graph" where
  "from_manifest_rows root branch rows =
     (let (commits, head) = build_commit_cache rows in
      \<lparr>cg_root_uri = trim_end_slashes root, cg_active_branch = branch,
       cg_commit_by_id = commits, cg_head_commit = head\<rparr>)"

definition replace_from_manifest_rows :: "lineage_row list \<Rightarrow> commit_graph \<Rightarrow> commit_graph" where
  "replace_from_manifest_rows rows g =
     (let (commits, head) = build_commit_cache rows in
      g\<lparr>cg_commit_by_id := commits, cg_head_commit := head\<rparr>)"

text \<open>The assertion on the branch is compiled into debug builds only.\<close>

definition insert_committed :: "graph_commit \<Rightarrow> commit_graph \<Rightarrow> commit_graph" where
  "insert_committed c g =
     g\<lparr>cg_head_commit := (if should_replace_head (cg_head_commit g) c then Some c
                           else cg_head_commit g),
       cg_commit_by_id := hm_insert (gc_graph_commit_id c) c (cg_commit_by_id g)\<rparr>"

definition load_commit_cache ::
    "'e read_lineage \<Rightarrow> string \<Rightarrow> string option \<Rightarrow>
       'e + (string, graph_commit) hmap \<times> graph_commit option" where
  "load_commit_cache read_lineage root branch =
     r_bind (read_lineage root branch) (\<lambda>rows. Inr (build_commit_cache rows))"

definition open_graph :: "'e read_lineage \<Rightarrow> string \<Rightarrow> string option \<Rightarrow> 'e + commit_graph" where
  "open_graph read_lineage root_uri branch =
     (let root = trim_end_slashes root_uri in
      r_bind (load_commit_cache read_lineage root branch) (\<lambda>(commits, head).
        Inr \<lparr>cg_root_uri = root, cg_active_branch = branch,
             cg_commit_by_id = commits, cg_head_commit = head\<rparr>))"

definition init_graph :: "'e read_lineage \<Rightarrow> string \<Rightarrow> 'e + commit_graph" where
  "init_graph read_lineage root_uri = open_graph read_lineage root_uri None"

definition open_at_branch :: "'e read_lineage \<Rightarrow> string \<Rightarrow> string \<Rightarrow> 'e + commit_graph" where
  "open_at_branch read_lineage root_uri branch = open_graph read_lineage root_uri (Some branch)"

definition refresh :: "'e read_lineage \<Rightarrow> commit_graph \<Rightarrow> 'e + commit_graph" where
  "refresh read_lineage g =
     r_bind (load_commit_cache read_lineage (cg_root_uri g) (cg_active_branch g))
       (\<lambda>(commits, head). Inr (g\<lparr>cg_commit_by_id := commits, cg_head_commit := head\<rparr>))"

definition open_for_branch :: "'e read_lineage \<Rightarrow> string \<Rightarrow> string option \<Rightarrow> 'e + commit_graph" where
  "open_for_branch read_lineage root_uri branch =
     (case branch of
        Some b \<Rightarrow> if b \<noteq> ''main'' then open_at_branch read_lineage root_uri b
                   else open_graph read_lineage root_uri None
      | None \<Rightarrow> open_graph read_lineage root_uri None)"

definition head_commit_id :: "commit_graph \<Rightarrow> string option" where
  "head_commit_id g = map_option gc_graph_commit_id (cg_head_commit g)"

definition hm_values :: "('k, 'v) hmap \<Rightarrow> 'v list" where
  "hm_values m = map snd m"

definition load_commits :: "commit_graph \<Rightarrow> graph_commit list" where
  "load_commits g = sort_key lineage_key (hm_values (cg_commit_by_id g))"

text \<open>\<^verbatim>\<open>max_by\<close> keeps the last of several maxima.\<close>

definition max_by_key :: "('a \<Rightarrow> 'k::linorder) \<Rightarrow> 'a list \<Rightarrow> 'a option" where
  "max_by_key key xs =
     fold (\<lambda>x best. case best of None \<Rightarrow> Some x
                     | Some b \<Rightarrow> if key b \<le> key x then Some x else Some b) xs None"

definition latest_commit_matching :: "(graph_commit \<Rightarrow> bool) \<Rightarrow> commit_graph \<Rightarrow> graph_commit option" where
  "latest_commit_matching pred g =
     max_by_key lineage_key (filter pred (hm_values (cg_commit_by_id g)))"

definition get_commit :: "commit_graph \<Rightarrow> string \<Rightarrow> graph_commit option" where
  "get_commit g i = hm_get (cg_commit_by_id g) i"

section \<open>Distances to ancestors\<close>

definition parent_ids :: "graph_commit \<Rightarrow> string list" where
  "parent_ids c =
     (case gc_parent_commit_id c of None \<Rightarrow> [] | Some p \<Rightarrow> [p]) @
     (case gc_merged_parent_commit_id c of None \<Rightarrow> [] | Some p \<Rightarrow> [p])"

definition parents_at :: "(string, graph_commit) hmap \<Rightarrow> string \<Rightarrow> string list" where
  "parents_at commits i = (case hm_get commits i of None \<Rightarrow> [] | Some c \<Rightarrow> parent_ids c)"

definition already_nearer :: "(string, u64) hmap \<Rightarrow> string \<Rightarrow> u64 \<Rightarrow> bool" where
  "already_nearer ds i d = (case hm_get ds i of None \<Rightarrow> False | Some e \<Rightarrow> e \<le> d)"

text \<open>
  The breadth-first loop. It ends for every graph, cycles included: an entry is expanded only when
  it lowers the distance of its commit.
\<close>

definition slack :: "(string, u64) hmap \<Rightarrow> string \<Rightarrow> nat" where
  "slack ds i = (case hm_get ds i of None \<Rightarrow> 2 ^ 64 | Some e \<Rightarrow> unat e)"

lemma slack_insert:
  assumes "\<not> already_nearer ds i d"
  shows "slack (hm_insert i d ds) i < slack ds i"
    and "j \<noteq> i \<Longrightarrow> slack (hm_insert i d ds) j = slack ds j"
proof -
  have "unat d < 2 ^ 64" using unsigned_less [of d] by simp
  then show "slack (hm_insert i d ds) i < slack ds i"
    using assms by (auto simp: slack_def already_nearer_def not_le word_less_nat_alt split: option.splits)
qed (simp add: slack_def)

function distances_loop ::
    "(string, graph_commit) hmap \<Rightarrow> (string \<times> u64) list \<Rightarrow> (string, u64) hmap \<Rightarrow>
       (string, u64) hmap" where
  "distances_loop commits [] ds = ds"
| "distances_loop commits ((i, d) # queue) ds =
     (if already_nearer ds i d then distances_loop commits queue ds
      else distances_loop commits (queue @ map (\<lambda>p. (p, d + 1)) (parents_at commits i))
             (hm_insert i d ds))"
  by pat_completeness auto

termination
proof (relation "measures
    [\<lambda>(commits, queue, ds). \<Sum>i \<in> fst ` set commits. slack ds i, \<lambda>(commits, queue, ds). length queue]")
  show "wf (measures [\<lambda>(commits, queue, ds). \<Sum>i \<in> fst ` set commits. slack ds i,
      \<lambda>(commits, queue, ds). length queue])" by (rule wf_measures)
next
  fix commits :: "(string, graph_commit) hmap" and i d queue ds
  assume far: "\<not> already_nearer ds i d"
  let ?sum = "\<lambda>ds. \<Sum>i \<in> fst ` set commits. slack ds i"
  show "((commits, queue @ map (\<lambda>p. (p, d + 1)) (parents_at commits i), hm_insert i d ds),
      commits, (i, d) # queue, ds) \<in> measures
        [\<lambda>(commits, queue, ds). \<Sum>i \<in> fst ` set commits. slack ds i,
         \<lambda>(commits, queue, ds). length queue]"
  proof (cases "hm_get commits i")
    case None
    have "?sum (hm_insert i d ds) = ?sum ds"
      using None slack_insert(2) [OF far]
      by (intro sum.cong) (auto simp: hm_get_def map_of_eq_None_iff image_iff)
    then show ?thesis using None by (simp add: parents_at_def)
  next
    case (Some c)
    then have i: "i \<in> fst ` set commits" by (force simp: hm_get_def dest: map_of_SomeD)
    have "slack (hm_insert i d ds) j \<le> slack ds j" for j
      using slack_insert [OF far] by (cases "j = i") (auto intro: less_imp_le)
    with i slack_insert(1) [OF far] have "?sum (hm_insert i d ds) < ?sum ds"
      by (intro sum_strict_mono_ex1) auto
    then show ?thesis by simp
  qed
qed auto

definition ancestor_distances :: "string \<Rightarrow> (string, graph_commit) hmap \<Rightarrow> (string, u64) hmap" where
  "ancestor_distances start_id commits = distances_loop commits [(start_id, 0)] hm_empty"

section \<open>The merge base\<close>

text \<open>\<^verbatim>\<open>min_by_key\<close> keeps the first of several minima.\<close>

definition min_by_key :: "('a \<Rightarrow> 'k::linorder) \<Rightarrow> 'a list \<Rightarrow> 'a option" where
  "min_by_key key xs =
     fold (\<lambda>x best. case best of None \<Rightarrow> Some x
                     | Some b \<Rightarrow> if key x < key b then Some x else Some b) xs None"

definition collect_commits :: "graph_commit list \<Rightarrow> graph_commit list \<Rightarrow> (string, graph_commit) hmap" where
  "collect_commits source target =
     fold (\<lambda>c. hm_insert (gc_graph_commit_id c) c) target
       (fold (\<lambda>c. hm_insert (gc_graph_commit_id c) c) source hm_empty)"

definition merge_candidate ::
    "(string, graph_commit) hmap \<Rightarrow> (string, u64) hmap \<Rightarrow> string \<times> u64 \<Rightarrow>
       ((u64 \<times> u64) \<times> graph_commit) option" where
  "merge_candidate commits target_distances entry =
     (let (i, source_distance) = entry in
      case hm_get target_distances i of
        None \<Rightarrow> None
      | Some target_distance \<Rightarrow>
          map_option (\<lambda>c. ((source_distance + target_distance, - 1 - gc_manifest_version c), c))
            (hm_get commits i))"

definition merge_base_from_commits ::
    "graph_commit list \<Rightarrow> graph_commit list \<Rightarrow> string \<Rightarrow> string \<Rightarrow> graph_commit option" where
  "merge_base_from_commits source_commits target_commits source_id target_id =
     (let commits = collect_commits source_commits target_commits in
      if \<not> hm_contains commits source_id \<or> \<not> hm_contains commits target_id then None
      else
        let source_distances = ancestor_distances source_id commits;
            target_distances = ancestor_distances target_id commits
        in map_option snd
             (min_by_key fst (List.map_filter (merge_candidate commits target_distances)
               source_distances)))"

definition merge_base ::
    "'e read_lineage \<Rightarrow> string \<Rightarrow> string option \<Rightarrow> string option \<Rightarrow> 'e + graph_commit option" where
  "merge_base read_lineage root_uri source_branch target_branch =
     r_bind (open_for_branch read_lineage root_uri source_branch) (\<lambda>source.
     r_bind (open_for_branch read_lineage root_uri target_branch) (\<lambda>target.
     case cg_head_commit source of
       None \<Rightarrow> Inr None
     | Some source_head \<Rightarrow>
         (case cg_head_commit target of
            None \<Rightarrow> Inr None
          | Some target_head \<Rightarrow>
              Inr (merge_base_from_commits (load_commits source) (load_commits target)
                (gc_graph_commit_id source_head) (gc_graph_commit_id target_head)))))"

section \<open>What a branch merge does with it\<close>

datatype merge_outcome = AlreadyUpToDate | FastForward | Merged

datatype merge_error = NoSourceHead | NoTargetHead | NoCommonAncestor

text \<open>
  The outcome of \<^verbatim>\<open>branch_merge\<close> from the captured heads and lineages; the work between the decision
  and the outcome (staging and publishing the merged tables) may still fail.
\<close>

definition merge_decision ::
    "string option \<Rightarrow> string option \<Rightarrow> graph_commit list \<Rightarrow> graph_commit list \<Rightarrow>
       merge_error + (graph_commit \<times> merge_outcome)" where
  "merge_decision source_head target_head source_commits target_commits =
     r_bind (ok_or source_head NoSourceHead) (\<lambda>source_id.
     r_bind (ok_or target_head NoTargetHead) (\<lambda>target_id.
     r_bind (ok_or (merge_base_from_commits source_commits target_commits source_id target_id)
               NoCommonAncestor) (\<lambda>base.
     if source_id = target_id \<or> gc_graph_commit_id base = source_id
     then Inr (base, AlreadyUpToDate)
     else if gc_graph_commit_id base = target_id then Inr (base, FastForward)
     else Inr (base, Merged))))"

end
