(* ===== verification/Commit_Graph_Facts.thy ===== *)
theory Commit_Graph_Facts
  imports Commit_Graph
begin

text \<open>
  The breadth-first loop computes shortest distances: its invariant, and what the distances and
  the choice of a merge base mean in terms of paths along parent links.
\<close>

section \<open>Paths\<close>

definition parent_link :: "(string, graph_commit) hmap \<Rightarrow> string \<Rightarrow> string \<Rightarrow> bool" where
  "parent_link commits x y \<longleftrightarrow> y \<in> set (parents_at commits x)"

definition path :: "(string, graph_commit) hmap \<Rightarrow> nat \<Rightarrow> string \<Rightarrow> string \<Rightarrow> bool" where
  "path commits n x y \<longleftrightarrow> (parent_link commits ^^ n) x y"

lemma path_0 [simp]: "path commits 0 x y \<longleftrightarrow> x = y"
  by (simp add: path_def eq_OO)

lemma path_SucI: "path commits n x y \<Longrightarrow> parent_link commits y z \<Longrightarrow> path commits (Suc n) x z"
  unfolding path_def by (rule relpowp_Suc_I)

lemma path_SucE:
  assumes "path commits (Suc n) x z"
  obtains y where "path commits n x y" and "parent_link commits y z"
  using assms unfolding path_def by (rule relpowp_Suc_E)

lemma ancestor_iff_path: "(parent_link commits)\<^sup>*\<^sup>* x y \<longleftrightarrow> (\<exists>n. path commits n x y)"
  by (simp add: path_def rtranclp_power)

definition shortest :: "(string, graph_commit) hmap \<Rightarrow> string \<Rightarrow> string \<Rightarrow> nat \<Rightarrow> bool" where
  "shortest commits x y n \<longleftrightarrow> path commits n x y \<and> (\<forall>m. path commits m x y \<longrightarrow> n \<le> m)"

lemma shortest_unique: "shortest commits x y n \<Longrightarrow> shortest commits x y m \<Longrightarrow> n = m"
  by (simp add: shortest_def order_antisym)

lemma shortest_exists: "path commits n x y \<Longrightarrow> \<exists>m \<le> n. shortest commits x y m"
  unfolding shortest_def
  by (rule exI [of _ "LEAST m. path commits m x y"]) (auto intro: LeastI Least_le)

lemma shortest_prefix:
  assumes "shortest commits x y (Suc n)"
  obtains z where "shortest commits x z n" and "parent_link commits z y"
proof -
  from assms obtain z where z: "path commits n x z" "parent_link commits z y"
    by (auto simp: shortest_def elim: path_SucE)
  have "n \<le> m" if "path commits m x z" for m
    using assms path_SucI [OF that z(2)] by (auto simp: shortest_def)
  with z show ?thesis by (intro that) (auto simp: shortest_def)
qed

lemma parent_link_stored: "parent_link commits x y \<Longrightarrow> hm_get commits x \<noteq> None"
  by (cases "hm_get commits x") (auto simp: parent_link_def parents_at_def)

section \<open>The loop\<close>

definition covered :: "(string \<times> u64) list \<Rightarrow> (string, u64) hmap \<Rightarrow> string \<Rightarrow> nat \<Rightarrow> bool" where
  "covered queue ds y n \<longleftrightarrow>
     (\<exists>e. (hm_get ds y = Some e \<or> (y, e) \<in> set queue) \<and> unat e \<le> n)"

text \<open>
  Everything noted is a path, every link out of a noted commit is noted or waits in the queue, the
  queue holds two neighbouring levels in order, and every level below it has been noted.
\<close>

definition bfs_inv ::
    "(string, graph_commit) hmap \<Rightarrow> string \<Rightarrow> (string \<times> u64) list \<Rightarrow> (string, u64) hmap \<Rightarrow> bool" where
  "bfs_inv commits start queue ds \<longleftrightarrow>
     (\<forall>x d. (x, d) \<in> set queue \<or> hm_get ds x = Some d \<longrightarrow> path commits (unat d) start x) \<and>
     (\<forall>x d y. hm_get ds x = Some d \<longrightarrow> parent_link commits x y \<longrightarrow>
        covered queue ds y (Suc (unat d))) \<and>
     covered queue ds start 0 \<and>
     sorted (map (unat \<circ> snd) queue) \<and>
     (\<forall>x d y e. (x, d) \<in> set queue \<longrightarrow> (y, e) \<in> set queue \<longrightarrow> unat e \<le> Suc (unat d)) \<and>
     (\<forall>x e y d. hm_get ds x = Some e \<longrightarrow> (y, d) \<in> set queue \<longrightarrow> unat e \<le> unat d) \<and>
     (\<forall>x d j. (x, d) \<in> set queue \<longrightarrow> j < unat d \<longrightarrow>
        (\<exists>z e. hm_get commits z \<noteq> None \<and> hm_get ds z = Some e \<and> unat e = j))"

lemma bfs_invD:
  assumes "bfs_inv commits start queue ds"
  shows "(x, d) \<in> set queue \<Longrightarrow> path commits (unat d) start x"
    and "hm_get ds x = Some d \<Longrightarrow> path commits (unat d) start x"
    and "hm_get ds x = Some d \<Longrightarrow> parent_link commits x y \<Longrightarrow> covered queue ds y (Suc (unat d))"
    and "covered queue ds start 0"
    and "sorted (map (unat \<circ> snd) queue)"
    and "(x, d) \<in> set queue \<Longrightarrow> (y, e) \<in> set queue \<Longrightarrow> unat e \<le> Suc (unat d)"
    and "hm_get ds x = Some e \<Longrightarrow> (y, d) \<in> set queue \<Longrightarrow> unat e \<le> unat d"
    and "(x, d) \<in> set queue \<Longrightarrow> j < unat d \<Longrightarrow>
      \<exists>z e. hm_get commits z \<noteq> None \<and> hm_get ds z = Some e \<and> unat e = j"
  using assms unfolding bfs_inv_def by blast+

lemma bfs_invI:
  assumes "\<And>x d. (x, d) \<in> set queue \<Longrightarrow> path commits (unat d) start x"
    and "\<And>x d. hm_get ds x = Some d \<Longrightarrow> path commits (unat d) start x"
    and "\<And>x d y. hm_get ds x = Some d \<Longrightarrow> parent_link commits x y \<Longrightarrow>
      covered queue ds y (Suc (unat d))"
    and "covered queue ds start 0"
    and "sorted (map (unat \<circ> snd) queue)"
    and "\<And>x d y e. (x, d) \<in> set queue \<Longrightarrow> (y, e) \<in> set queue \<Longrightarrow> unat e \<le> Suc (unat d)"
    and "\<And>x e y d. hm_get ds x = Some e \<Longrightarrow> (y, d) \<in> set queue \<Longrightarrow> unat e \<le> unat d"
    and "\<And>x d j. (x, d) \<in> set queue \<Longrightarrow> j < unat d \<Longrightarrow>
      \<exists>z e. hm_get commits z \<noteq> None \<and> hm_get ds z = Some e \<and> unat e = j"
  shows "bfs_inv commits start queue ds"
  using assms unfolding bfs_inv_def by blast

lemma bfs_inv_init: "bfs_inv commits start [(start, 0)] hm_empty"
  by (rule bfs_invI) (auto simp: covered_def)

lemma bfs_inv_skip:
  assumes inv: "bfs_inv commits start ((i, d) # queue) ds" and near: "already_nearer ds i d"
  shows "bfs_inv commits start queue ds"
proof -
  from near obtain e where e: "hm_get ds i = Some e" "unat e \<le> unat d"
    by (auto simp: already_nearer_def word_le_nat_alt split: option.splits)
  have cov: "covered queue ds y n" if c: "covered ((i, d) # queue) ds y n" for y n
  proof (cases "y = i")
    case True
    from c obtain f where f: "hm_get ds y = Some f \<or> (y, f) \<in> set ((i, d) # queue)" "unat f \<le> n"
      by (auto simp: covered_def)
    then consider "hm_get ds y = Some f" | "(y, f) \<in> set queue" | "f = d" by auto
    then show ?thesis
    proof cases
      case 3
      with e f(2) True show ?thesis by (auto simp: covered_def)
    qed (use f in \<open>auto simp: covered_def\<close>)
  next
    case False
    with c show ?thesis by (auto simp: covered_def)
  qed
  note D = bfs_invD [OF inv]
  show ?thesis
  proof (rule bfs_invI)
    show "sorted (map (unat \<circ> snd) queue)" using D(5) by simp
    show "covered queue ds y (Suc (unat f))" if "hm_get ds x = Some f" "parent_link commits x y" for x f y
      using D(3) [OF that] by (rule cov)
    show "covered queue ds start 0" using D(4) by (rule cov)
    show "path commits (unat f) start x" if "(x, f) \<in> set queue" for x f
      using D(1) [of x f] that by simp
    show "path commits (unat f) start x" if "hm_get ds x = Some f" for x f
      using D(2) [OF that] .
    show "unat g \<le> Suc (unat f)" if "(x, f) \<in> set queue" "(y, g) \<in> set queue" for x f y g
      using D(6) [of x f y g] that by simp
    show "unat f \<le> unat g" if "hm_get ds x = Some f" "(y, g) \<in> set queue" for x f y g
      using D(7) [of x f y g] that by simp
    show "\<exists>z g. hm_get commits z \<noteq> None \<and> hm_get ds z = Some g \<and> unat g = j"
      if "(x, f) \<in> set queue" "j < unat f" for x f j
      using D(8) [of x f j] that by simp
  qed
qed

text \<open>Levels are noted by different commits, so a queued distance is at most their number.\<close>

lemma levels_bound:
  assumes "\<And>j. j < n \<Longrightarrow> \<exists>z. hm_get commits z \<noteq> None \<and> level z j"
    and unique: "\<And>z j k. level z j \<Longrightarrow> level z k \<Longrightarrow> j = k"
  shows "n \<le> length commits"
proof -
  from assms(1) obtain f where f: "\<And>j. j < n \<Longrightarrow> hm_get commits (f j) \<noteq> None \<and> level (f j) j"
    by metis
  have "inj_on f {..<n}"
    using f unique by (intro inj_onI) (metis lessThan_iff)
  moreover have "f ` {..<n} \<subseteq> fst ` set commits"
    using f by (force simp: hm_get_def map_of_eq_None_iff)
  ultimately have "card {..<n} \<le> card (fst ` set commits)"
    by (intro card_inj_on_le) auto
  also have "\<dots> \<le> length commits"
    by (metis card_length length_map set_map)
  finally show ?thesis by simp
qed

lemma queued_bound:
  assumes inv: "bfs_inv commits start ((i, d) # queue) ds"
  shows "unat d \<le> length commits"
proof (rule levels_bound [where level = "\<lambda>z j. map_option unat (hm_get ds z) = Some j"])
  show "\<exists>z. hm_get commits z \<noteq> None \<and> map_option unat (hm_get ds z) = Some j" if "j < unat d" for j
    using bfs_invD(8) [OF inv, of i d, OF _ that] by fastforce
qed simp

lemma bfs_inv_expand:
  assumes inv: "bfs_inv commits start ((i, d) # queue) ds" and far: "\<not> already_nearer ds i d"
    and bound: "length commits < 2 ^ 64 - 1"
  shows "bfs_inv commits start (queue @ map (\<lambda>p. (p, d + 1)) (parents_at commits i)) (hm_insert i d ds)"
proof -
  let ?q = "queue @ map (\<lambda>p. (p, d + 1)) (parents_at commits i)" and ?ds = "hm_insert i d ds"
  note D = bfs_invD [OF inv]
  have "unat d < 2 ^ 64 - 1" using queued_bound [OF inv] bound by simp
  then have suc: "unat (d + 1) = Suc (unat d)" by (subst unat_word_ariths) simp
  have noted: "unat e \<le> unat d" if "hm_get ds x = Some e" for x e
    using D(7) [OF that, of i d] by simp
  have fresh: "hm_get ds i = None"
    using far noted by (auto simp: already_nearer_def word_le_nat_alt split: option.splits)
  have new: "hm_get ?ds x = Some e \<longleftrightarrow> (x = i \<and> e = d) \<or> (x \<noteq> i \<and> hm_get ds x = Some e)" for x e
    by auto
  have queue: "(x, e) \<in> set ?q \<longleftrightarrow> (x, e) \<in> set queue \<or> (e = d + 1 \<and> parent_link commits i x)" for x e
    by (auto simp: parent_link_def)
  have mono: "covered ?q ?ds y n" if "covered ((i, d) # queue) ds y n" for y n
    using that fresh unfolding covered_def by (auto split: if_splits)
  have lower: "unat d \<le> unat e" "unat e \<le> Suc (unat d)" if "(y, e) \<in> set queue" for y e
    using D(5) D(6) [of i d y e] that by auto
  have known: "\<exists>z f. hm_get commits z \<noteq> None \<and> hm_get ?ds z = Some f \<and> unat f = k"
    if "(y, g) \<in> set ((i, d) # queue)" "k < unat g" for y g k
    using D(8) [OF that] fresh by (metis hm_get_insert option.distinct(1))
  show ?thesis
  proof (rule bfs_invI)
    show "path commits (unat e) start x" if "(x, e) \<in> set ?q" for x e
      using that D(1) [of i d] D(1) [of x e] unfolding queue by (auto simp: suc intro: path_SucI)
    show "path commits (unat e) start x" if "hm_get ?ds x = Some e" for x e
      using that D(1) [of i d] D(2) [of x e] unfolding new by auto
    show "covered ?q ?ds y (Suc (unat e))"
      if "hm_get ?ds x = Some e" "parent_link commits x y" for x e y
    proof (cases "x = i")
      case True
      then have "(y, d + 1) \<in> set ?q" "e = d" using that unfolding queue by auto
      then show ?thesis using suc by (auto simp: covered_def)
    next
      case False
      with that D(3) [of x e y] show ?thesis by (auto intro: mono)
    qed
    show "covered ?q ?ds start 0" using D(4) by (rule mono)
    have "sorted (map (unat \<circ> snd \<circ> (\<lambda>p. (p, d + 1))) ps)" for ps :: "string list"
      by (induction ps) auto
    then show "sorted (map (unat \<circ> snd) ?q)"
      using D(5) lower by (auto simp: sorted_append suc)
    show "unat f \<le> Suc (unat e)" if "(x, e) \<in> set ?q" "(y, f) \<in> set ?q" for x e y f
      using that D(6) [of x e y f] lower [of x e] lower [of y f] unfolding queue by (auto simp: suc)
    show "unat e \<le> unat f" if "hm_get ?ds x = Some e" "(y, f) \<in> set ?q" for x e y f
    proof -
      have "unat e \<le> unat d" using that(1) noted unfolding new by auto
      also have "\<dots> \<le> unat f" using that(2) lower unfolding queue by (auto simp: suc)
      finally show ?thesis .
    qed
    show "\<exists>z f. hm_get commits z \<noteq> None \<and> hm_get ?ds z = Some f \<and> unat f = j"
      if x: "(x, e) \<in> set ?q" and j: "j < unat e" for x e j
    proof (cases "(x, e) \<in> set queue")
      case True
      then have "(x, e) \<in> set ((i, d) # queue)" by simp
      then show ?thesis using j by (rule known)
    next
      case False
      with x have e: "e = d + 1" "parent_link commits i x" unfolding queue by auto
      then have "hm_get commits i \<noteq> None" by (auto dest: parent_link_stored)
      moreover have "j < unat d \<or> j = unat d" using j e(1) suc by auto
      ultimately show ?thesis
      proof (elim disjE)
        assume "j < unat d"
        then show ?thesis by (intro known [of i d]) simp_all
      qed (auto intro!: exI [of _ i])
    qed
  qed
qed

lemma bfs_inv_loop:
  assumes "bfs_inv commits start queue ds" and "length commits < 2 ^ 64 - 1"
  shows "bfs_inv commits start [] (distances_loop commits queue ds)"
  using assms
proof (induction commits queue ds rule: distances_loop.induct)
  case (2 commits i d queue ds)
  then show ?case
    using bfs_inv_skip [OF 2(3)] bfs_inv_expand [OF 2(3)] by simp
qed simp

lemma ancestor_distances_iff:
  assumes "length commits < 2 ^ 64 - 1"
  shows "hm_get (ancestor_distances start commits) x = Some d \<longleftrightarrow> shortest commits start x (unat d)"
proof -
  let ?ds = "ancestor_distances start commits"
  have inv: "bfs_inv commits start [] ?ds"
    unfolding ancestor_distances_def using bfs_inv_init assms by (rule bfs_inv_loop)
  have reached: "\<exists>e. hm_get ?ds y = Some e \<and> unat e \<le> n" if "path commits n start y" for n y
    using that
  proof (induction n arbitrary: y)
    case 0
    then show ?case using bfs_invD(4) [OF inv] by (auto simp: covered_def)
  next
    case (Suc n)
    from Suc.prems obtain z where "path commits n start z" "parent_link commits z y"
      by (rule path_SucE)
    with Suc.IH obtain e where e: "hm_get ?ds z = Some e" "unat e \<le> n" by blast
    from bfs_invD(3) [OF inv e(1) \<open>parent_link commits z y\<close>]
    have "covered [] ?ds y (Suc (unat e))" .
    with e(2) show ?case by (auto simp: covered_def intro: order_trans)
  qed
  have is_path: "path commits (unat e) start y" if "hm_get ?ds y = Some e" for y e
    using bfs_invD(2) [OF inv that] .
  show ?thesis
  proof
    assume "hm_get ?ds x = Some d"
    then show "shortest commits start x (unat d)"
      using is_path reached unfolding shortest_def by (metis option.inject)
  next
    assume s: "shortest commits start x (unat d)"
    then obtain e where e: "hm_get ?ds x = Some e" "unat e \<le> unat d"
      using reached unfolding shortest_def by blast
    with s is_path have "unat d \<le> unat e" unfolding shortest_def by blast
    with e show "hm_get ?ds x = Some d" by (simp add: word_unat_eq_iff)
  qed
qed

lemma shortest_levels:
  "shortest commits x y n \<Longrightarrow> j < n \<Longrightarrow> \<exists>z. hm_get commits z \<noteq> None \<and> shortest commits x z j"
proof (induction n arbitrary: y)
  case (Suc n)
  from Suc.prems(1) obtain z where z: "shortest commits x z n" "parent_link commits z y"
    by (rule shortest_prefix)
  show ?case
  proof (cases "j = n")
    case True
    with z show ?thesis using parent_link_stored by blast
  next
    case False
    with Suc z(1) show ?thesis by simp
  qed
qed simp

lemma shortest_bound: "shortest commits x y n \<Longrightarrow> n \<le> length commits"
  by (rule levels_bound [where level = "shortest commits x"]) (rule shortest_levels, assumption+,
      rule shortest_unique)

section \<open>Smallest and largest by a key\<close>

lemma min_by_key_fold:
  "fold (\<lambda>x best. case best of None \<Rightarrow> Some x
           | Some b \<Rightarrow> if key x < key b then Some x else Some b) xs (Some y) = Some m \<Longrightarrow>
     m \<in> set (y # xs) \<and> (\<forall>z \<in> set (y # xs). key m \<le> (key z :: 'k::linorder))"
proof (induction xs arbitrary: y)
  case (Cons x xs)
  show ?case
  proof (cases "key x < key y")
    case True
    with Cons.prems have "fold (\<lambda>x best. case best of None \<Rightarrow> Some x
           | Some b \<Rightarrow> if key x < key b then Some x else Some b) xs (Some x) = Some m" by simp
    from Cons.IH [OF this] True show ?thesis by auto
  next
    case False
    with Cons.prems have "fold (\<lambda>x best. case best of None \<Rightarrow> Some x
           | Some b \<Rightarrow> if key x < key b then Some x else Some b) xs (Some y) = Some m" by simp
    from Cons.IH [OF this] False show ?thesis by auto
  qed
qed simp

lemma min_by_key_Some:
  assumes "min_by_key key xs = Some m"
  shows "m \<in> set xs" and "\<And>z. z \<in> set xs \<Longrightarrow> key m \<le> key z"
  using assms min_by_key_fold [of key _ _ m] by (cases xs; fastforce simp: min_by_key_def)+

lemma min_by_key_None [simp]: "min_by_key key xs = None \<longleftrightarrow> xs = []"
proof -
  have "fold (\<lambda>x best. case best of None \<Rightarrow> Some x
           | Some b \<Rightarrow> if key x < key b then Some x else Some b) ys (Some y) \<noteq> None" for ys y
    by (induction ys arbitrary: y) auto
  then show ?thesis by (cases xs) (auto simp: min_by_key_def)
qed

section \<open>The commits of both sides\<close>

lemma length_hm_insert: "length (hm_insert k v m) \<le> Suc (length m)"
  by (induction m) (auto simp: hm_insert_def)

lemma hm_wf_fold_insert: "hm_wf m \<Longrightarrow> hm_wf (fold (\<lambda>c. hm_insert (f c) c) cs m)"
  by (induction cs arbitrary: m) (auto simp: hm_wf_insert)

lemma length_collect_commits: "length (collect_commits ss ts) \<le> length ss + length ts"
proof -
  have "length (fold (\<lambda>c. hm_insert (gc_graph_commit_id c) c) cs m) \<le> length m + length cs" for cs m
  proof (induction cs arbitrary: m)
    case (Cons c cs)
    show ?case
      using Cons.IH [of "hm_insert (gc_graph_commit_id c) c m"]
        length_hm_insert [of "gc_graph_commit_id c" c m] by simp
  qed simp
  from this [of ts "fold (\<lambda>c. hm_insert (gc_graph_commit_id c) c) ss hm_empty"] this [of ss hm_empty]
  show ?thesis by (simp add: collect_commits_def hm_empty_def)
qed

lemma hm_get_collected_commits:
  "(\<And>i c. hm_get m i = Some c \<Longrightarrow> gc_graph_commit_id c = i \<and> c \<in> A) \<Longrightarrow>
     hm_get (fold (\<lambda>c. hm_insert (gc_graph_commit_id c) c) cs m) i = Some c \<Longrightarrow>
     gc_graph_commit_id c = i \<and> c \<in> A \<union> set cs"
proof (induction cs arbitrary: m A)
  case (Cons x cs)
  have "gc_graph_commit_id d = j \<and> d \<in> insert x A"
    if "hm_get (hm_insert (gc_graph_commit_id x) x m) j = Some d" for j d
    using that Cons.prems(1) [of j d] by (simp split: if_splits)
  then have "gc_graph_commit_id c = i \<and> c \<in> insert x A \<union> set cs"
    by (rule Cons.IH) (use Cons.prems(2) in simp_all)
  then show ?case by simp
qed simp

lemma collect_commits_Some:
  assumes "hm_get (collect_commits ss ts) i = Some c"
  shows "gc_graph_commit_id c = i" and "c \<in> set ss \<union> set ts"
proof -
  have source: "gc_graph_commit_id d = j \<and> d \<in> {} \<union> set ss"
    if "hm_get (fold (\<lambda>c. hm_insert (gc_graph_commit_id c) c) ss hm_empty) j = Some d" for j d
    using that by (rule hm_get_collected_commits [rotated]) simp
  have "gc_graph_commit_id c = i \<and> c \<in> ({} \<union> set ss) \<union> set ts"
    using source assms unfolding collect_commits_def by (rule hm_get_collected_commits)
  then show "gc_graph_commit_id c = i" "c \<in> set ss \<union> set ts" by auto
qed

lemma collect_commits_None:
  "hm_get (collect_commits ss ts) i = None \<longleftrightarrow> i \<notin> gc_graph_commit_id ` (set ss \<union> set ts)"
proof -
  have "hm_get (fold (\<lambda>c. hm_insert (gc_graph_commit_id c) c) cs m) i = None \<longleftrightarrow>
      hm_get m i = None \<and> i \<notin> gc_graph_commit_id ` set cs" for cs m
    by (induction cs arbitrary: m) auto
  then show ?thesis by (auto simp: collect_commits_def)
qed

end
