(* ===== verification/Commit_Graph_Properties.thy ===== *)
theory Commit_Graph_Properties
  imports Commit_Graph_Facts
begin

text \<open>
  What the commit graph promises: distances are shortest path lengths, the merge base is a nearest
  common ancestor, and the cache kept in memory is the one a reload of the manifest would build.
\<close>

section \<open>Nearest common ancestors\<close>

text \<open>A commit on record that both sides descend from, with the two distances added up.\<close>

definition common_ancestor ::
    "(string, graph_commit) hmap \<Rightarrow> string \<Rightarrow> string \<Rightarrow> graph_commit \<Rightarrow> nat \<Rightarrow> bool" where
  "common_ancestor commits s t c n \<longleftrightarrow>
     hm_get commits (gc_graph_commit_id c) = Some c \<and>
     (\<exists>a b. shortest commits s (gc_graph_commit_id c) a \<and>
            shortest commits t (gc_graph_commit_id c) b \<and> n = a + b)"

definition nearest_common_ancestor ::
    "(string, graph_commit) hmap \<Rightarrow> string \<Rightarrow> string \<Rightarrow> graph_commit \<Rightarrow> bool" where
  "nearest_common_ancestor commits s t c \<longleftrightarrow>
     (\<exists>n. common_ancestor commits s t c n \<and>
        (\<forall>c' n'. common_ancestor commits s t c' n' \<longrightarrow>
           n < n' \<or> n = n' \<and> gc_manifest_version c' \<le> gc_manifest_version c))"

lemma ancestor_distances_wf: "hm_wf (ancestor_distances start commits)"
proof -
  have "hm_wf ds \<Longrightarrow> hm_wf (distances_loop commits queue ds)" for queue ds
    by (induction commits queue ds rule: distances_loop.induct) (simp_all add: hm_wf_insert)
  then show ?thesis unfolding ancestor_distances_def using hm_wf_empty(1) .
qed

lemma in_set_map_filter: "y \<in> set (List.map_filter f xs) \<longleftrightarrow> (\<exists>x \<in> set xs. f x = Some y)"
  by (force simp: List.map_filter_def)

lemma merge_candidate_Some:
  "merge_candidate commits distances (i, a) = Some ((n, v), c) \<longleftrightarrow>
     (\<exists>b. hm_get distances i = Some b \<and> hm_get commits i = Some c \<and> n = a + b \<and>
          v = - 1 - gc_manifest_version c)"
  by (auto simp: merge_candidate_def split: option.splits)

lemma common_ancestor_bound:
  assumes "length commits < 2 ^ 63" and "common_ancestor commits s t c n"
  obtains m :: u64 where "n = unat m"
proof -
  from assms(2) obtain a b where ab: "shortest commits s (gc_graph_commit_id c) a"
      "shortest commits t (gc_graph_commit_id c) b" "n = a + b"
    by (auto simp: common_ancestor_def)
  have "n < 2 ^ 64"
    using shortest_bound [OF ab(1)] shortest_bound [OF ab(2)] ab(3) assms(1) by simp
  then have "n = unat (of_nat n :: u64)" by (simp add: unat_of_nat)
  then show ?thesis by (rule that)
qed

text \<open>The candidates scored by the search are the common ancestors with their summed distances.\<close>

lemma merge_candidates:
  assumes small: "length commits < 2 ^ 63"
    and ids: "\<And>i c. hm_get commits i = Some c \<Longrightarrow> gc_graph_commit_id c = i"
  shows "((n, v), c) \<in> set (List.map_filter
           (merge_candidate commits (ancestor_distances t commits)) (ancestor_distances s commits)) \<longleftrightarrow>
         common_ancestor commits s t c (unat n) \<and> v = - 1 - gc_manifest_version c"
    (is "?l \<longleftrightarrow> ?r")
proof -
  have few: "length commits < 2 ^ 64 - 1" using small by simp
  note dist = ancestor_distances_iff [OF few]
  have entry: "(i, a) \<in> set (ancestor_distances s commits) \<longleftrightarrow> shortest commits s i (unat a)" for i a
    using dist hm_in_set_get [OF ancestor_distances_wf] hm_get_in_set by metis
  have sum: "unat (a + b) = unat a + unat b"
    if "shortest commits s i (unat a)" "shortest commits t j (unat b)" for a b :: u64 and i j
  proof -
    have "unat a + unat b < 2 ^ 64"
      using shortest_bound [OF that(1)] shortest_bound [OF that(2)] small by simp
    then show ?thesis by (simp add: unat_word_ariths)
  qed
  have "?l \<longleftrightarrow> (\<exists>i a b. shortest commits s i (unat a) \<and> shortest commits t i (unat b) \<and>
      hm_get commits i = Some c \<and> n = a + b \<and> v = - 1 - gc_manifest_version c)"
    unfolding in_set_map_filter Bex_def split_paired_Ex merge_candidate_Some entry dist by blast
  also have "\<dots> \<longleftrightarrow> ?r"
  proof
    assume r: ?r
    then obtain a b where ab: "shortest commits s (gc_graph_commit_id c) a"
      "shortest commits t (gc_graph_commit_id c) b" "unat n = a + b"
      "hm_get commits (gc_graph_commit_id c) = Some c"
      by (auto simp: common_ancestor_def)
    have "a < 2 ^ 64" "b < 2 ^ 64"
      using ab(3) unsigned_less [of n, where ?'a = nat] by simp_all
    then have "unat (of_nat a :: u64) = a" "unat (of_nat b :: u64) = b"
      by (simp_all add: unat_of_nat)
    with ab r sum [of _ "of_nat a" _ "of_nat b"]
    show "\<exists>i a b. shortest commits s i (unat a) \<and> shortest commits t i (unat b) \<and>
      hm_get commits i = Some c \<and> n = a + b \<and> v = - 1 - gc_manifest_version c"
      by (intro exI [of _ "gc_graph_commit_id c"] exI [of _ "of_nat a"] exI [of _ "of_nat b"])
        (simp add: word_unat_eq_iff)
  next
    assume "\<exists>i a b. shortest commits s i (unat a) \<and> shortest commits t i (unat b) \<and>
      hm_get commits i = Some c \<and> n = a + b \<and> v = - 1 - gc_manifest_version c"
    then show ?r using ids unfolding common_ancestor_def by (metis sum)
  qed
  finally show ?thesis .
qed

lemma inverted_version_le:
  fixes v w :: u64
  shows "- 1 - v \<le> - 1 - w \<longleftrightarrow> w \<le> v"
proof -
  have "unat (- 1 :: u64) = 2 ^ 64 - 1"
    by (simp add: unsigned_minus_1_eq_mask mask_eq_exp_minus_1)
  then show ?thesis
    using unsigned_less [of v, where ?'a = nat] unsigned_less [of w, where ?'a = nat]
    by (simp add: word_le_nat_alt unat_sub word_order.extremum) linarith
qed

text \<open>
  The distances recorded for the ancestors of a commit are the lengths of the shortest chains of
  parent and merged-parent links, whatever the shape of the graph, cycles and missing commits
  included.
\<close>

theorem distances_are_shortest_paths:
  assumes "length commits < 2 ^ 64 - 1"
  shows "hm_get (ancestor_distances start commits) x = Some d \<longleftrightarrow>
     (parent_link commits ^^ unat d) start x \<and>
     (\<forall>m. (parent_link commits ^^ m) start x \<longrightarrow> unat d \<le> m)"
  using ancestor_distances_iff [OF assms] by (simp add: shortest_def path_def)

lemma merge_base_nearest:
  assumes "length source_commits + length target_commits < 2 ^ 63"
  shows "case merge_base_from_commits source_commits target_commits s t of
       None \<Rightarrow>
         (let commits = collect_commits source_commits target_commits in
          hm_get commits s = None \<or> hm_get commits t = None \<or>
          (\<nexists>c n. common_ancestor commits s t c n))
     | Some c \<Rightarrow>
         c \<in> set source_commits \<union> set target_commits \<and>
         nearest_common_ancestor (collect_commits source_commits target_commits) s t c"
proof -
  let ?commits = "collect_commits source_commits target_commits"
  let ?cands = "List.map_filter (merge_candidate ?commits (ancestor_distances t ?commits))
    (ancestor_distances s ?commits)"
  have small: "length ?commits < 2 ^ 63"
    using length_collect_commits assms by (rule le_less_trans)
  have ids: "gc_graph_commit_id c = i" if "hm_get ?commits i = Some c" for i c
    using that by (rule collect_commits_Some)
  note cands = merge_candidates [OF small ids, of _ _ _ t s]
  show ?thesis
  proof (cases "hm_contains ?commits s \<and> hm_contains ?commits t")
    case False
    then show ?thesis
      by (auto simp: merge_base_from_commits_def Let_def hm_contains_def)
  next
    case True
    then have base: "merge_base_from_commits source_commits target_commits s t =
        map_option snd (min_by_key fst ?cands)"
      by (simp add: merge_base_from_commits_def Let_def)
    show ?thesis
    proof (cases "min_by_key fst ?cands")
      case None
      have none: "merge_base_from_commits source_commits target_commits s t = None"
        unfolding base None by simp
      from None have "?cands = []" by simp
      then have "\<not> common_ancestor ?commits s t c (unat n)" for c and n :: u64
        using cands [of n "- 1 - gc_manifest_version c" c] by simp
      then have "\<not> common_ancestor ?commits s t c n" for c n
        using common_ancestor_bound [OF small] by blast
      then show ?thesis using none by (simp add: Let_def)
    next
      case (Some m)
      obtain n v c where m: "m = ((n, v), c)" by (metis prod.exhaust)
      note min = min_by_key_Some [OF Some]
      have c: "common_ancestor ?commits s t c (unat n)" "v = - 1 - gc_manifest_version c"
        using min(1) cands [of n v c] unfolding m by simp_all
      have "unat n < n' \<or> unat n = n' \<and> gc_manifest_version c' \<le> gc_manifest_version c"
        if c': "common_ancestor ?commits s t c' n'" for c' n'
      proof -
        obtain k :: u64 where k: "n' = unat k" using small c' by (rule common_ancestor_bound)
        with c' have "((k, - 1 - gc_manifest_version c'), c') \<in> set ?cands"
          by (simp add: cands)
        from min(2) [OF this] have "n < k \<or> n = k \<and> gc_manifest_version c' \<le> gc_manifest_version c"
          unfolding m c(2) by (auto simp: inverted_version_le)
        then show ?thesis unfolding k by (auto simp: word_less_nat_alt)
      qed
      with c(1) have "nearest_common_ancestor ?commits s t c"
        unfolding nearest_common_ancestor_def by blast
      moreover have "c \<in> set source_commits \<union> set target_commits"
        using c(1) collect_commits_Some(2) unfolding common_ancestor_def by blast
      ultimately show ?thesis using Some base m by simp
    qed
  qed
qed

text \<open>
  C18: the merge base of two captured lineages is a commit that both heads descend from with the
  smallest sum of distances, and among those one of the highest manifest version; none is found
  exactly when a head is not on record or no recorded commit is an ancestor of both.
\<close>

theorem merge_base_is_nearest_common_ancestor:
  assumes "length source_commits + length target_commits < 2 ^ 63"
  shows "case merge_base_from_commits source_commits target_commits s t of
       None \<Rightarrow>
         (let commits = collect_commits source_commits target_commits in
          hm_get commits s = None \<or> hm_get commits t = None \<or>
          (\<nexists>c n. common_ancestor commits s t c n))
     | Some c \<Rightarrow>
         c \<in> set source_commits \<union> set target_commits \<and>
         nearest_common_ancestor (collect_commits source_commits target_commits) s t c"
  using assms by (rule merge_base_nearest)

section \<open>The cache\<close>

lemma build_commit_cache_snoc:
  "build_commit_cache (rows @ [r]) = cache_commit (commit_of_row r) (build_commit_cache rows)"
  by (simp add: build_commit_cache_def)


lemma trim_end_slashes_idem [simp]: "trim_end_slashes (trim_end_slashes s) = trim_end_slashes s"
  by (simp add: trim_end_slashes_def)

lemma open_graph_Inr:
  "open_graph read_lineage root branch = Inr g \<longleftrightarrow>
     (\<exists>rows. read_lineage (trim_end_slashes root) branch = Inr rows \<and>
             g = from_manifest_rows root branch rows)"
proof (cases "read_lineage (trim_end_slashes root) branch")
  case (Inr rows)
  then show ?thesis
    by (cases "build_commit_cache rows")
      (auto simp: open_graph_def load_commit_cache_def from_manifest_rows_def Let_def)
qed (simp add: open_graph_def load_commit_cache_def Let_def)


lemma cache_head_latest:
  "case snd (build_commit_cache rows) of
     None \<Rightarrow> rows = []
   | Some h \<Rightarrow> h \<in> commit_of_row ` set rows \<and>
       (\<forall>r \<in> set rows. lineage_key (commit_of_row r) \<le> lineage_key h)"
  by (induction rows rule: rev_induct)
    (auto simp: build_commit_cache_snoc cache_commit_def should_replace_head_def
      build_commit_cache_def split: option.splits prod.splits)

text \<open>The maximum by a key that tells the elements apart is the last element in key order.\<close>

lemma max_by_key_fold:
  "\<exists>m. fold (\<lambda>x best. case best of None \<Rightarrow> Some x
           | Some b \<Rightarrow> if key b \<le> key x then Some x else Some b) xs (Some y) = Some m \<and>
     m \<in> set (y # xs) \<and> (\<forall>z \<in> set (y # xs). (key z :: 'k::linorder) \<le> key m)"
proof (induction xs arbitrary: y)
  case (Cons x xs)
  let ?w = "if key y \<le> key x then x else y"
  from Cons.IH [of ?w] obtain m where
    m: "fold (\<lambda>x best. case best of None \<Rightarrow> Some x
           | Some b \<Rightarrow> if key b \<le> key x then Some x else Some b) xs (Some ?w) = Some m"
      "m \<in> set (?w # xs)" "\<And>z. z \<in> set (?w # xs) \<Longrightarrow> key z \<le> key m"
    by blast
  have "key x \<le> key ?w" "key y \<le> key ?w" by auto
  with m(3) [of ?w] have "key x \<le> key m" "key y \<le> key m" by (force intro: order_trans)+
  with m show ?case by (intro exI [of _ m]) (auto split: if_splits)
qed simp

lemma max_by_key_Some:
  assumes "xs \<noteq> []"
  obtains m where "max_by_key key xs = Some m" "m \<in> set xs" "\<And>z. z \<in> set xs \<Longrightarrow> key z \<le> key m"
  using assms max_by_key_fold [of key "tl xs" "hd xs"]
  by (cases xs) (auto simp: max_by_key_def)

lemma last_sorted_greatest: "sorted (map key xs) \<Longrightarrow> z \<in> set xs \<Longrightarrow> key z \<le> key (last xs)"
  by (induction xs) (auto split: if_splits)

lemma max_by_key_last:
  assumes "inj_on key (set xs)" and "set ys = set xs" and "sorted (map key ys)"
  shows "max_by_key key xs = (if ys = [] then None else Some (last ys))"
proof (cases "xs = []")
  case False
  with assms(2) have ys: "ys \<noteq> []" by auto
  obtain m where m: "max_by_key key xs = Some m" "m \<in> set xs" "\<And>z. z \<in> set xs \<Longrightarrow> key z \<le> key m"
    using max_by_key_Some [OF False, of key] by blast
  have "last ys \<in> set xs" using ys assms(2) last_in_set by blast
  moreover have "key m \<le> key (last ys)" using m(2) assms by (simp add: last_sorted_greatest)
  ultimately have "key m = key (last ys)" using m(3) by (simp add: order_antisym)
  with assms(1) m(2) \<open>last ys \<in> set xs\<close> have "m = last ys" by (metis inj_onD)
  with m(1) ys show ?thesis by simp
qed (use assms(2) in \<open>simp add: max_by_key_def\<close>)

lemma greatest_is_max_by_key:
  assumes "case h of None \<Rightarrow> rows = []
      | Some m \<Rightarrow> m \<in> f ` set rows \<and> (\<forall>r \<in> set rows. key (f r) \<le> key m)"
    and "inj_on key (f ` set rows)" and "set xs = f ` set rows"
  shows "h = max_by_key key xs"
proof (cases h)
  case None
  with assms show ?thesis by (simp add: max_by_key_def)
next
  case (Some m)
  with assms(1,3) have m: "m \<in> set xs" "\<And>z. z \<in> set xs \<Longrightarrow> key z \<le> key m" by auto
  then have "xs \<noteq> []" by auto
  from max_by_key_Some [OF this, of key] obtain k where
    k: "max_by_key key xs = Some k" "k \<in> set xs" "\<And>z. z \<in> set xs \<Longrightarrow> key z \<le> key k" by blast
  from m k have "key m = key k" by (simp add: order_antisym)
  with assms(2,3) m(1) k(2) have "m = k" by (metis inj_onD)
  with Some k(1) show ?thesis by simp
qed

lemma cached_commits:
  assumes "distinct (map lr_graph_commit_id rows)"
  shows "set (hm_values (cg_commit_by_id (from_manifest_rows root branch rows))) = commit_of_row ` set rows"
proof -
  let ?m = "fst (build_commit_cache rows)"
  have map: "?m = fold (\<lambda>(k, v). hm_insert k v)
      (map (\<lambda>r. (lr_graph_commit_id r, commit_of_row r)) rows) hm_empty"
    by (induction rows rule: rev_induct)
      (auto simp: build_commit_cache_snoc cache_commit_def commit_of_row_def
        build_commit_cache_def split: prod.splits)
  then have wf: "hm_wf ?m" by (simp add: hm.invar_fold_insert)
  have "hm_get ?m k = map_of (rev (map (\<lambda>r. (lr_graph_commit_id r, commit_of_row r)) rows)) k" for k
    unfolding map by (simp add: hm.get_fold_insert split: option.splits)
  moreover have "distinct (map fst (rev (map (\<lambda>r. (lr_graph_commit_id r, commit_of_row r)) rows)))"
    using assms by (simp add: comp_def flip: rev_map)
  ultimately have "hm_get ?m k = Some v \<longleftrightarrow> (k, v) \<in> (\<lambda>r. (lr_graph_commit_id r, commit_of_row r)) ` set rows"
    for k v by (simp only: map_of_eq_Some_iff) simp
  then have "(k, v) \<in> set ?m \<longleftrightarrow> (k, v) \<in> (\<lambda>r. (lr_graph_commit_id r, commit_of_row r)) ` set rows" for k v
    using hm_in_set_get [OF wf, of k v] hm_get_in_set [of ?m k v] by blast
  then have "set ?m = (\<lambda>r. (lr_graph_commit_id r, commit_of_row r)) ` set rows" by auto
  then show ?thesis
    by (cases "build_commit_cache rows")
      (simp add: hm_values_def from_manifest_rows_def image_image)
qed

text \<open>
  For a lineage without repeated commit ids, the ordered listing of an opened graph holds every
  recorded commit in strictly ascending lineage order, the latest commit with a given quality is the
  last one of the listing that has it, and the head is the last of them all.
\<close>

theorem listing_and_head_agree:
  assumes "open_graph read_lineage root branch = Inr g"
    and "read_lineage (trim_end_slashes root) branch = Inr rows"
    and "distinct (map lr_graph_commit_id rows)"
  shows "set (load_commits g) = commit_of_row ` set rows \<and>
     sorted (map lineage_key (load_commits g)) \<and> inj_on lineage_key (set (load_commits g)) \<and>
     latest_commit_matching P g =
       (if filter P (load_commits g) = [] then None else Some (last (filter P (load_commits g)))) \<and>
     cg_head_commit g = latest_commit_matching (\<lambda>_. True) g"
proof -
  have g: "g = from_manifest_rows root branch rows" using assms by (simp add: open_graph_Inr)
  let ?vs = "hm_values (cg_commit_by_id g)"
  have vs: "set ?vs = commit_of_row ` set rows" unfolding g using assms(3) by (rule cached_commits)
  have inj: "inj_on lineage_key (commit_of_row ` set rows)"
    using assms(3) by (auto simp: inj_on_def lineage_key_def commit_of_row_def distinct_map)
  have listed: "set (load_commits g) = commit_of_row ` set rows"
    by (simp add: load_commits_def vs)
  have sorted: "sorted (map lineage_key (load_commits g))" by (simp add: load_commits_def)
  have latest: "latest_commit_matching Q g =
      (if filter Q (load_commits g) = [] then None else Some (last (filter Q (load_commits g))))" for Q
    unfolding latest_commit_matching_def
    by (rule max_by_key_last)
      (use inj vs listed sorted in \<open>auto intro: inj_on_subset sorted_filter\<close>)
  have "cg_head_commit g = snd (build_commit_cache rows)"
    by (simp add: g from_manifest_rows_def split: prod.splits)
  then have "cg_head_commit g = max_by_key lineage_key ?vs"
    using cache_head_latest [of rows] inj vs by (simp add: greatest_is_max_by_key)
  then have "cg_head_commit g = latest_commit_matching (\<lambda>_. True) g"
    by (simp add: latest_commit_matching_def)
  with listed sorted inj latest show ?thesis by simp
qed

end
