(* ===== verification/Branch_History.thy ===== *)
theory Branch_History
  imports Commit_Graph_Properties
begin

text \<open>
  Lineages of several branches as commits, forks and merges build them: a fork starts from a copy of
  the lineage of its parent, a write appends a commit to one lineage, and a merge that is neither up
  to date nor refused appends to the target a commit whose second parent is the head of the source
  (\<^verbatim>\<open>omnigraph/src/exec/merge.rs\<close>). The lineage of the source is not copied to the target.
\<close>

section \<open>Histories\<close>

type_synonym lineages = "(string, graph_commit list) hmap"

definition lineage_of :: "lineages \<Rightarrow> string \<Rightarrow> graph_commit list" where
  "lineage_of h b = (case hm_get h b of None \<Rightarrow> [] | Some cs \<Rightarrow> cs)"

definition branch_head :: "lineages \<Rightarrow> string \<Rightarrow> string option" where
  "branch_head h b = map_option gc_graph_commit_id (max_by_key lineage_key (lineage_of h b))"

definition all_commits :: "lineages \<Rightarrow> graph_commit list" where
  "all_commits h = concat (hm_values h)"

definition append_commit :: "string \<Rightarrow> graph_commit \<Rightarrow> lineages \<Rightarrow> lineages" where
  "append_commit b c h = hm_insert b (lineage_of h b @ [c]) h"

definition newer :: "graph_commit \<Rightarrow> graph_commit list \<Rightarrow> bool" where
  "newer c cs \<longleftrightarrow> (\<forall>d \<in> set cs. gc_manifest_version d < gc_manifest_version c)"

definition merge_of :: "lineages \<Rightarrow> string \<Rightarrow> string \<Rightarrow> merge_error + graph_commit \<times> merge_outcome" where
  "merge_of h s t =
     merge_decision (branch_head h s) (branch_head h t) (lineage_of h s) (lineage_of h t)"

inductive history :: "lineages \<Rightarrow> bool" where
  init: "parent_ids c = [] \<Longrightarrow> history (hm_insert ''main'' [c] hm_empty)"
| fork: "history h \<Longrightarrow> hm_contains h a \<Longrightarrow> \<not> hm_contains h b \<Longrightarrow>
     history (hm_insert b (lineage_of h a) h)"
| commit: "history h \<Longrightarrow> hm_contains h b \<Longrightarrow>
     gc_graph_commit_id c \<notin> gc_graph_commit_id ` set (all_commits h) \<Longrightarrow>
     newer c (lineage_of h b) \<Longrightarrow>
     gc_parent_commit_id c = branch_head h b \<Longrightarrow> gc_merged_parent_commit_id c = None \<Longrightarrow>
     history (append_commit b c h)"
| merge: "history h \<Longrightarrow> s \<noteq> t \<Longrightarrow> merge_of h s t = Inr (base, out) \<Longrightarrow> out \<noteq> AlreadyUpToDate \<Longrightarrow>
     gc_graph_commit_id c \<notin> gc_graph_commit_id ` set (all_commits h) \<Longrightarrow>
     newer c (lineage_of h t) \<Longrightarrow>
     gc_parent_commit_id c = branch_head h t \<Longrightarrow> gc_merged_parent_commit_id c = branch_head h s \<Longrightarrow>
     history (append_commit t c h)"

section \<open>Every lineage is a chain from the first commit\<close>

inductive grown :: "graph_commit \<Rightarrow> graph_commit list \<Rightarrow> bool" for c0 where
  first: "grown c0 [c0]"
| grow: "grown c0 cs \<Longrightarrow> gc_manifest_version (last cs) < gc_manifest_version c \<Longrightarrow>
     gc_parent_commit_id c = Some (gc_graph_commit_id (last cs)) \<Longrightarrow> grown c0 (cs @ [c])"

lemma grown_not_empty: "grown c0 cs \<Longrightarrow> cs \<noteq> []"
  by (induction rule: grown.induct) auto

lemma grown_first: "grown c0 cs \<Longrightarrow> c0 \<in> set cs"
  by (induction rule: grown.induct) auto

lemma max_by_key_snoc:
  "max_by_key key (xs @ [x]) =
     (case max_by_key key xs of None \<Rightarrow> Some x
      | Some b \<Rightarrow> if key b \<le> key x then Some x else Some b)"
  by (simp add: max_by_key_def)

lemma grown_head: "grown c0 cs \<Longrightarrow> max_by_key lineage_key cs = Some (last cs)"
proof (induction rule: grown.induct)
  case (grow cs c)
  then show ?case by (simp add: max_by_key_snoc lineage_key_def)
qed (simp add: max_by_key_def)

lemma grown_path:
  assumes "grown c0 cs" and "\<And>c. c \<in> set cs \<Longrightarrow> hm_get m (gc_graph_commit_id c) = Some c"
  shows "(parent_link m)\<^sup>*\<^sup>* (gc_graph_commit_id (last cs)) (gc_graph_commit_id c0)"
  using assms
proof (induction rule: grown.induct)
  case (grow cs c)
  then have "parent_link m (gc_graph_commit_id c) (gc_graph_commit_id (last cs))"
    by (simp add: parent_link_def parents_at_def parent_ids_def)
  with grow show ?case by (simp add: converse_rtranclp_into_rtranclp)
qed simp

definition history_inv :: "graph_commit \<Rightarrow> lineages \<Rightarrow> bool" where
  "history_inv c0 h \<longleftrightarrow>
     hm_wf h \<and> (\<forall>b cs. hm_get h b = Some cs \<longrightarrow> grown c0 cs) \<and>
     inj_on gc_graph_commit_id (set (all_commits h))"

lemma in_all_commits:
  assumes "hm_wf h"
  shows "c \<in> set (all_commits h) \<longleftrightarrow> (\<exists>b cs. hm_get h b = Some cs \<and> c \<in> set cs)"
proof -
  have "(b, cs) \<in> set h \<longleftrightarrow> hm_get h b = Some cs" for b cs
    using hm_in_set_get [OF assms, of b cs] hm_get_in_set [of h b cs] by blast
  then show ?thesis by (simp add: all_commits_def hm_values_def Bex_def)
qed

lemma lineage_in_all: "hm_wf h \<Longrightarrow> set (lineage_of h b) \<subseteq> set (all_commits h)"
  by (cases "hm_get h b") (simp_all add: lineage_of_def in_all_commits subset_iff, blast)

lemma all_commits_insert:
  assumes "hm_wf h" and old: "set (lineage_of h b) \<subseteq> set cs"
  shows "set (all_commits (hm_insert b cs h)) = set cs \<union> set (all_commits h)"
proof (rule set_eqI)
  fix c
  have "c \<in> set cs" if "hm_get h b = Some ds" "c \<in> set ds" for ds
    using that old by (auto simp: lineage_of_def)
  then show "c \<in> set (all_commits (hm_insert b cs h)) \<longleftrightarrow> c \<in> set cs \<union> set (all_commits h)"
    using assms(1) by (simp add: in_all_commits hm_wf_insert) (metis option.inject)
qed

lemma branch_head_grown:
  assumes "history_inv c0 h" and "hm_get h b = Some cs"
  shows "branch_head h b = Some (gc_graph_commit_id (last cs))"
proof -
  from assms have "grown c0 cs" by (simp add: history_inv_def)
  with assms(2) show ?thesis by (simp add: branch_head_def lineage_of_def grown_head)
qed

lemma history_inv_append:
  assumes inv: "history_inv c0 h" and b: "hm_get h b = Some cs"
    and fresh: "gc_graph_commit_id c \<notin> gc_graph_commit_id ` set (all_commits h)"
    and newer: "newer c (lineage_of h b)" and parent: "gc_parent_commit_id c = branch_head h b"
  shows "history_inv c0 (append_commit b c h)"
proof -
  from inv b have wf: "hm_wf h" and cs: "grown c0 cs" by (auto simp: history_inv_def)
  have "grown c0 (cs @ [c])"
    using cs newer parent b grown_not_empty [OF cs]
    by (intro grow) (simp_all add: branch_head_grown [OF inv b] newer_def lineage_of_def)
  moreover have "set (all_commits (append_commit b c h)) = insert c (set (all_commits h))"
    using all_commits_insert [OF wf, of b "lineage_of h b @ [c]"] lineage_in_all [OF wf, of b]
    by (auto simp: append_commit_def)
  ultimately show ?thesis
    using inv fresh b
    by (auto simp: history_inv_def append_commit_def lineage_of_def hm_wf_insert split: if_splits)
qed

lemma history_inv: "history h \<Longrightarrow> \<exists>c0. history_inv c0 h"
proof (induction rule: history.induct)
  case (init c)
  have "set (all_commits (hm_insert ''main'' [c] hm_empty)) = {c}"
    by (subst all_commits_insert) (simp_all add: lineage_of_def all_commits_def hm_values_def hm_empty_def)
  then show ?case
    by (intro exI [of _ c]) (auto simp: history_inv_def hm_wf_insert first split: if_splits)
next
  case (fork h a b)
  then obtain c0 cs where inv: "history_inv c0 h" and cs: "hm_get h a = Some cs"
    by (auto simp: hm_contains_iff)
  then have "set (all_commits (hm_insert b (lineage_of h a) h)) = set (all_commits h)"
    using fork lineage_in_all [of h a]
    by (subst all_commits_insert) (auto simp: history_inv_def lineage_of_def hm_contains_def)
  with inv cs have "history_inv c0 (hm_insert b (lineage_of h a) h)"
    by (auto simp: history_inv_def hm_wf_insert lineage_of_def split: if_splits)
  then show ?case ..
next
  case (commit h b c)
  then show ?case using history_inv_append unfolding hm_contains_iff by blast
next
  case (merge h s t base out c)
  then have "hm_get h t \<noteq> None"
    by (auto simp: merge_of_def merge_decision_def branch_head_def lineage_of_def max_by_key_def
        split: option.splits)
  with merge show ?case using history_inv_append by blast
qed

section \<open>Merging any two branches\<close>

lemma collected_lineages:
  assumes inv: "history_inv c0 h" and c: "c \<in> set (lineage_of h s) \<union> set (lineage_of h t)"
  shows "hm_get (collect_commits (lineage_of h s) (lineage_of h t)) (gc_graph_commit_id c) = Some c"
proof -
  let ?m = "collect_commits (lineage_of h s) (lineage_of h t)"
  from inv have wf: "hm_wf h" and inj: "inj_on gc_graph_commit_id (set (all_commits h))"
    by (auto simp: history_inv_def)
  have all: "d \<in> set (all_commits h)" if "d \<in> set (lineage_of h s) \<union> set (lineage_of h t)" for d
    using that lineage_in_all [OF wf] by blast
  from c obtain d where d: "hm_get ?m (gc_graph_commit_id c) = Some d"
    using collect_commits_None by (metis imageI not_Some_eq)
  have "gc_graph_commit_id d = gc_graph_commit_id c"
    using d by (rule collect_commits_Some)
  moreover have "d \<in> set (all_commits h)" using all collect_commits_Some(2) [OF d] by blast
  ultimately have "d = c" using inj all [OF c] by (metis inj_onD)
  with d show ?thesis by simp
qed

text \<open>
  C19: whatever commits, forks and merges came before, two branches of a graph always have a merge
  base, so a merge is never refused for a missing head or a missing common ancestor.
\<close>

theorem branches_always_have_a_base:
  assumes "history h" and "hm_contains h s" and "hm_contains h t"
    and "length (lineage_of h s) + length (lineage_of h t) < 2 ^ 63"
  shows "\<exists>base out. merge_of h s t = Inr (base, out) \<and>
     base \<in> set (lineage_of h s) \<union> set (lineage_of h t)"
proof -
  from assms(1) obtain c0 where inv: "history_inv c0 h" using history_inv by blast
  from assms(2,3) obtain cs ds where cs: "hm_get h s = Some cs" and ds: "hm_get h t = Some ds"
    by (auto simp: hm_contains_iff)
  then have grown: "grown c0 cs" "grown c0 ds" and lin: "lineage_of h s = cs" "lineage_of h t = ds"
    using inv by (auto simp: history_inv_def lineage_of_def)
  let ?m = "collect_commits cs ds"
  have stored: "hm_get ?m (gc_graph_commit_id c) = Some c" if "c \<in> set cs \<union> set ds" for c
    using collected_lineages [OF inv, of c s t] that unfolding lin by blast
  have "(parent_link ?m)\<^sup>*\<^sup>* (gc_graph_commit_id (last cs)) (gc_graph_commit_id c0)"
    "(parent_link ?m)\<^sup>*\<^sup>* (gc_graph_commit_id (last ds)) (gc_graph_commit_id c0)"
    using grown stored by (auto intro!: grown_path)
  then have "\<exists>n. common_ancestor ?m (gc_graph_commit_id (last cs)) (gc_graph_commit_id (last ds)) c0 n"
    using stored [of c0] grown_first [OF grown(1)]
    unfolding ancestor_iff_path common_ancestor_def by (blast dest: shortest_exists)
  moreover have "hm_get ?m (gc_graph_commit_id (last cs)) \<noteq> None"
    "hm_get ?m (gc_graph_commit_id (last ds)) \<noteq> None"
    using stored grown grown_not_empty by auto
  ultimately obtain base where "merge_base_from_commits cs ds (gc_graph_commit_id (last cs))
      (gc_graph_commit_id (last ds)) = Some base" "base \<in> set cs \<union> set ds"
    using merge_base_nearest [OF assms(4), unfolded lin, of "gc_graph_commit_id (last cs)"
        "gc_graph_commit_id (last ds)"]
    by (auto simp: Let_def split: option.splits)
  then show ?thesis
    by (auto simp: merge_of_def merge_decision_def lin branch_head_grown [OF inv cs]
        branch_head_grown [OF inv ds] ok_or_def)
qed

section \<open>What an outcome means\<close>

definition is_parent :: "lineages \<Rightarrow> string \<Rightarrow> string \<Rightarrow> bool" where
  "is_parent h x y \<longleftrightarrow> (\<exists>c \<in> set (all_commits h). gc_graph_commit_id c = x \<and> y \<in> set (parent_ids c))"

lemma parent_link_is_parent:
  assumes "hm_wf h" and "parent_link (collect_commits (lineage_of h s) (lineage_of h t)) x y"
  shows "is_parent h x y"
proof -
  obtain c where c: "hm_get (collect_commits (lineage_of h s) (lineage_of h t)) x = Some c"
    "y \<in> set (parent_ids c)"
    using assms(2)
    by (cases "hm_get (collect_commits (lineage_of h s) (lineage_of h t)) x") (auto simp: parent_link_def parents_at_def)
  have "c \<in> set (all_commits h)"
    using collect_commits_Some(2) [OF c(1)] lineage_in_all [OF assms(1)] by auto
  moreover have "gc_graph_commit_id c = x" by (rule collect_commits_Some(1) [OF c(1)])
  ultimately show ?thesis using c(2) by (auto simp: is_parent_def)
qed

lemma shortest_is_ancestor:
  assumes "hm_wf h" and "shortest (collect_commits (lineage_of h s) (lineage_of h t)) x y n"
  shows "(is_parent h)\<^sup>*\<^sup>* x y"
proof -
  have "(parent_link (collect_commits (lineage_of h s) (lineage_of h t)))\<^sup>*\<^sup>* x y"
    using assms(2) unfolding ancestor_iff_path shortest_def by blast
  then show ?thesis
  proof (induction rule: rtranclp_induct)
    case (step y z)
    then show ?case using parent_link_is_parent [OF assms(1) step.hyps(2)] by simp
  qed simp
qed

text \<open>
  C39: the outcome of a merge is sound whatever came before. The base is an ancestor of both heads; the
  merge is up to date exactly when the base is the head of the source, which is then an ancestor of
  the head of the target, so nothing of the source is missing there; and it is a fast-forward exactly
  when the heads differ and the base is the head of the target, which is then an ancestor of the head
  of the source, so no commit of the target is lost. The converse fails: a contained branch can be
  merged again.
\<close>

theorem merge_outcome_sound:
  assumes hist: "history h" and merge: "merge_of h s t = Inr (base, out)"
    and small: "length (lineage_of h s) + length (lineage_of h t) < 2 ^ 63"
  shows "\<exists>i j. branch_head h s = Some i \<and> branch_head h t = Some j \<and>
     (is_parent h)\<^sup>*\<^sup>* i (gc_graph_commit_id base) \<and> (is_parent h)\<^sup>*\<^sup>* j (gc_graph_commit_id base) \<and>
     (out = AlreadyUpToDate \<longleftrightarrow> gc_graph_commit_id base = i) \<and>
     (out = FastForward \<longleftrightarrow> gc_graph_commit_id base = j \<and> i \<noteq> j) \<and>
     (out = AlreadyUpToDate \<longrightarrow> (is_parent h)\<^sup>*\<^sup>* j i) \<and> (out = FastForward \<longrightarrow> (is_parent h)\<^sup>*\<^sup>* i j)"
proof -
  let ?m = "collect_commits (lineage_of h s) (lineage_of h t)"
  obtain c0 where inv: "history_inv c0 h" using history_inv [OF hist] by blast
  then have wf: "hm_wf h" by (simp add: history_inv_def)
  obtain i j where heads: "branch_head h s = Some i" "branch_head h t = Some j"
    and base: "merge_base_from_commits (lineage_of h s) (lineage_of h t) i j = Some base"
    and out: "out = (if i = j \<or> gc_graph_commit_id base = i then AlreadyUpToDate
       else if gc_graph_commit_id base = j then FastForward else Merged)"
    using merge by (auto simp: merge_of_def merge_decision_def split: if_splits)
  obtain n where n: "common_ancestor ?m i j base n"
    "\<And>c n'. common_ancestor ?m i j c n' \<Longrightarrow> n \<le> n'"
    using merge_base_nearest [OF small, of i j] base unfolding nearest_common_ancestor_def by fastforce
  have anc: "(is_parent h)\<^sup>*\<^sup>* i (gc_graph_commit_id base)" "(is_parent h)\<^sup>*\<^sup>* j (gc_graph_commit_id base)"
    using n(1) shortest_is_ancestor [OF wf] unfolding common_ancestor_def by blast+
  have "gc_graph_commit_id base = i" if "i = j"
  proof -
    obtain c where c: "c \<in> set (lineage_of h s)" "gc_graph_commit_id c = i"
    proof (cases "hm_get h s")
      case (Some cs)
      then have "cs \<noteq> []" using inv grown_not_empty by (auto simp: history_inv_def)
      with heads(1) branch_head_grown [OF inv Some] Some show ?thesis
        by (intro that [of "last cs"]) (simp_all add: lineage_of_def)
    qed (use heads(1) in \<open>simp add: branch_head_def lineage_of_def max_by_key_def\<close>)
    then have "common_ancestor ?m i j c 0"
      using collected_lineages [OF inv, of c s t] \<open>i = j\<close>
      by (auto simp: common_ancestor_def shortest_def intro!: exI [of _ 0])
    then have "n = 0" using n(2) by fastforce
    then show ?thesis using n(1) by (auto simp: common_ancestor_def shortest_def)
  qed
  with heads anc out show ?thesis by (auto split: if_splits)
qed

end
