(* ===== verification/Sample_Commits.thy ===== *)
theory Sample_Commits
  imports Branch_History
begin

text \<open>
  Concrete lineages: the theorems on the commit graph applied to them, and a history in which a
  branch the target already contains is merged again.
\<close>

definition a_commit :: "string \<Rightarrow> u64 \<Rightarrow> string option \<Rightarrow> string option \<Rightarrow> graph_commit" where
  "a_commit i v p m =
     \<lparr>gc_graph_commit_id = i, gc_manifest_branch = None, gc_manifest_version = v,
      gc_parent_commit_id = p, gc_merged_parent_commit_id = m, gc_actor_id = None,
      gc_created_at = 0\<rparr>"

definition a_row :: "string \<Rightarrow> u64 \<Rightarrow> string option \<Rightarrow> lineage_row" where
  "a_row i v p =
     \<lparr>lr_graph_commit_id = i, lr_manifest_branch = None, lr_manifest_version = v,
      lr_parent_commit_id = p, lr_merged_parent_commit_id = None, lr_actor_id = None,
      lr_created_at = 0\<rparr>"

text \<open>Two branches that diverged after \<open>q\<close>.\<close>

definition sample_source :: "graph_commit list" where
  "sample_source = [a_commit ''z'' 1 None None, a_commit ''q'' 2 (Some ''z'') None,
     a_commit ''s'' 3 (Some ''q'') None]"

definition sample_target :: "graph_commit list" where
  "sample_target = [a_commit ''z'' 1 None None, a_commit ''q'' 2 (Some ''z'') None,
     a_commit ''t'' 3 (Some ''q'') None]"

theorem distances_are_shortest_paths_witness:
  "(parent_link (collect_commits sample_source sample_target) ^^ 2) ''s'' ''z''"
proof -
  let ?m = "collect_commits sample_source sample_target"
  have "length ?m = 4" by code_simp
  then have "length ?m < 2 ^ 64 - 1" by simp
  moreover have "hm_get (ancestor_distances ''s'' ?m) ''z'' = Some 2" by code_simp
  ultimately show ?thesis
    using distances_are_shortest_paths [of ?m "''s''" "''z''" 2] by simp
qed

theorem merge_base_is_nearest_common_ancestor_witness:
  "nearest_common_ancestor (collect_commits sample_source sample_target) ''s'' ''t''
     (a_commit ''q'' 2 (Some ''z'') None)"
proof -
  have "length sample_source + length sample_target < 2 ^ 63"
    by (simp add: sample_source_def sample_target_def)
  moreover have "merge_base_from_commits sample_source sample_target ''s'' ''t'' =
      Some (a_commit ''q'' 2 (Some ''z'') None)" by code_simp
  ultimately show ?thesis
    using merge_base_is_nearest_common_ancestor [of sample_source sample_target "''s''" "''t''"]
    by simp
qed

definition sample_rows :: "lineage_row list" where
  "sample_rows = [a_row ''z'' 1 None, a_row ''q'' 2 (Some ''z'')]"

definition sample_read :: "lineage_row list \<Rightarrow> string read_lineage" where
  "sample_read rows = (\<lambda>root branch. if root = ''mem'' then Inr rows else Inl ''unknown root'')"

lemma sample_opens:
  "open_graph (sample_read rows) ''mem/'' None = Inr (from_manifest_rows ''mem/'' None rows)"
  by (simp add: open_graph_Inr sample_read_def trim_end_slashes_def)


theorem listing_and_head_agree_witness:
  "cg_head_commit (from_manifest_rows ''mem/'' None sample_rows) =
     Some (commit_of_row (a_row ''q'' 2 (Some ''z'')))"
proof -
  let ?g = "from_manifest_rows ''mem/'' None sample_rows"
  have "sample_read sample_rows (trim_end_slashes ''mem/'') None = Inr sample_rows"
    by (simp add: sample_read_def trim_end_slashes_def)
  moreover have "distinct (map lr_graph_commit_id sample_rows)" by code_simp
  moreover have "latest_commit_matching (\<lambda>_. True) ?g =
      Some (commit_of_row (a_row ''q'' 2 (Some ''z'')))" by code_simp
  ultimately show ?thesis
    using listing_and_head_agree [OF sample_opens, of sample_rows] by simp
qed

section \<open>A history\<close>

text \<open>
  \<^verbatim>\<open>main\<close> holds \<open>z\<close>; \<open>S\<close> is forked from it and commits \<open>q\<close>; \<open>R\<close> is forked from \<open>S\<close>; \<open>S\<close> commits
  \<open>s\<close> and is merged into \<^verbatim>\<open>main\<close> by the commit \<open>m\<close>.
\<close>

definition history_1 :: lineages where
  "history_1 = hm_insert ''main'' [a_commit ''z'' 1 None None] hm_empty"

definition history_2 :: lineages where
  "history_2 = append_commit ''S'' (a_commit ''q'' 2 (Some ''z'') None)
     (hm_insert ''S'' (lineage_of history_1 ''main'') history_1)"

definition history_3 :: lineages where
  "history_3 = append_commit ''S'' (a_commit ''s'' 3 (Some ''q'') None)
     (hm_insert ''R'' (lineage_of history_2 ''S'') history_2)"

definition history_4 :: lineages where
  "history_4 = append_commit ''main'' (a_commit ''m'' 2 (Some ''z'') (Some ''s'')) history_3"

lemma history_1_reached: "history history_1"
  unfolding history_1_def by (rule history.init) code_simp

lemma history_2_reached: "history history_2"
  unfolding history_2_def
  by (rule history.commit, rule history.fork, rule history_1_reached; code_simp)

lemma history_3_reached: "history history_3"
  unfolding history_3_def
  by (rule history.commit, rule history.fork, rule history_2_reached; code_simp)

lemma history_4_reached: "history history_4"
  unfolding history_4_def
  by (rule history.merge [where s = "''S''" and base = "a_commit ''z'' 1 None None" and
        out = FastForward], rule history_3_reached; code_simp)

theorem branches_always_have_a_base_witness:
  "\<exists>base out. merge_of history_4 ''R'' ''main'' = Inr (base, out) \<and>
     base \<in> set (lineage_of history_4 ''R'') \<union> set (lineage_of history_4 ''main'')"
proof -
  have "hm_contains history_4 ''R''" "hm_contains history_4 ''main''" by code_simp+
  moreover have "length (lineage_of history_4 ''R'') = 2" "length (lineage_of history_4 ''main'') = 2"
    by code_simp+
  then have "length (lineage_of history_4 ''R'') + length (lineage_of history_4 ''main'') < 2 ^ 63"
    by simp
  ultimately show ?thesis by (rule branches_always_have_a_base [OF history_4_reached])
qed

theorem merge_outcome_sound_witness:
  "(is_parent history_4)\<^sup>*\<^sup>* ''m'' ''z'' \<and> (is_parent history_4)\<^sup>*\<^sup>* ''q'' ''z''"
proof -
  have merge: "merge_of history_4 ''R'' ''main'' = Inr (a_commit ''z'' 1 None None, Merged)"
    and heads: "branch_head history_4 ''R'' = Some ''q''" "branch_head history_4 ''main'' = Some ''m''"
    and "length (lineage_of history_4 ''R'') = 2" "length (lineage_of history_4 ''main'') = 2"
    by code_simp+
  then have "length (lineage_of history_4 ''R'') + length (lineage_of history_4 ''main'') < 2 ^ 63" by simp
  from merge_outcome_sound [OF history_4_reached merge this] heads show ?thesis by (auto simp: a_commit_def)
qed

text \<open>
  A branch whose head the target already contains can be reported as merged instead of already
  up to date. Branch \<open>R\<close> stops at \<open>q\<close>, an ancestor of the head of \<^verbatim>\<open>main\<close> through the merged parent
  \<open>s\<close>; but \<open>s\<close> is on record only in the lineage of \<open>S\<close>, which the merge of \<open>R\<close> into \<^verbatim>\<open>main\<close> does not
  read, so the base it finds is \<open>z\<close> and the rows of \<open>q\<close> are merged a second time.
\<close>

theorem contained_branch_merged_again:
  "history history_4 \<and>
   (parent_link (collect_commits (all_commits history_4) []))\<^sup>*\<^sup>* ''m'' ''q'' \<and>
   branch_head history_4 ''main'' = Some ''m'' \<and> branch_head history_4 ''R'' = Some ''q'' \<and>
   merge_of history_4 ''R'' ''main'' = Inr (a_commit ''z'' 1 None None, Merged)"
proof -
  let ?m = "collect_commits (all_commits history_4) []"
  have "''s'' \<in> set (parents_at ?m ''m'')" "''q'' \<in> set (parents_at ?m ''s'')" by code_simp+
  then have "(parent_link ?m)\<^sup>*\<^sup>* ''m'' ''q''"
    unfolding parent_link_def by (meson converse_rtranclp_into_rtranclp rtranclp.rtrancl_refl)
  moreover have "branch_head history_4 ''main'' = Some ''m''" "branch_head history_4 ''R'' = Some ''q''"
    "merge_of history_4 ''R'' ''main'' = Inr (a_commit ''z'' 1 None None, Merged)"
    by code_simp+
  ultimately show ?thesis using history_4_reached by blast
qed

end
