(* ===== verification/Graph_Index.thy ===== *)
theory Graph_Index
  imports Prelude
begin

text \<open>
  The topology index of the query engine (\<^verbatim>\<open>omnigraph/src/graph_index/mod.rs\<close>): dense numbers for the
  identifiers of each node type, and compressed sparse rows for the adjacency of each edge type.
  Indexing a vector out of range is a panic, an error value here; 32-bit counters wrap. Opening and
  scanning a table is storage: \<open>has_entry\<close> and \<open>scan\<close> are parameters, and a record batch is what the
  code reads of Arrow's, its columns and its number of rows.
\<close>

datatype 'e index_error = IndexPanic | Storage 'e | MissingColumn string | NotUtf8 string

definition vec_get :: "'a list \<Rightarrow> nat \<Rightarrow> 'e index_error + 'a" where
  "vec_get xs i = (if i < length xs then Inr (xs ! i) else Inl IndexPanic)"

definition vec_set :: "nat \<Rightarrow> 'a \<Rightarrow> 'a list \<Rightarrow> 'e index_error + 'a list" where
  "vec_set i x xs = (if i < length xs then Inr (xs[i := x]) else Inl IndexPanic)"

section \<open>Dense numbers of a node type\<close>

record node_type_index =
  ti_id_to_dense :: "(string, u32) hmap"
  ti_dense_to_id :: "string list"

definition type_index_new :: node_type_index where
  "type_index_new = \<lparr>ti_id_to_dense = hm_empty, ti_dense_to_id = []\<rparr>"

definition get_or_insert :: "string \<Rightarrow> node_type_index \<Rightarrow> u32 \<times> node_type_index" where
  "get_or_insert i t =
     (case hm_get (ti_id_to_dense t) i of
        Some idx \<Rightarrow> (idx, t)
      | None \<Rightarrow>
          let idx = word_of_nat (length (ti_dense_to_id t)) in
          (idx, t\<lparr>ti_dense_to_id := ti_dense_to_id t @ [i],
                  ti_id_to_dense := hm_insert i idx (ti_id_to_dense t)\<rparr>))"

definition to_dense :: "node_type_index \<Rightarrow> string \<Rightarrow> u32 option" where
  "to_dense t i = hm_get (ti_id_to_dense t) i"

definition to_id :: "node_type_index \<Rightarrow> u32 \<Rightarrow> string option" where
  "to_id t dense =
     (if unat dense < length (ti_dense_to_id t) then Some (ti_dense_to_id t ! unat dense) else None)"

definition type_index_len :: "node_type_index \<Rightarrow> nat" where
  "type_index_len t = length (ti_dense_to_id t)"

section \<open>Compressed sparse rows\<close>

record csr_index =
  csr_offsets :: "u32 list"
  csr_targets :: "u32 list"

definition count_edge :: "u32 \<times> u32 \<Rightarrow> u32 list \<Rightarrow> 'e index_error + u32 list" where
  "count_edge e counts =
     r_bind (vec_get counts (unat (fst e))) (\<lambda>c. vec_set (unat (fst e)) (c + 1) counts)"

definition count_edges :: "nat \<Rightarrow> (u32 \<times> u32) list \<Rightarrow> 'e index_error + u32 list" where
  "count_edges num_nodes edges = r_fold count_edge edges (replicate num_nodes 0)"

definition prefix_offsets :: "u32 list \<Rightarrow> u32 list" where
  "prefix_offsets counts = fold (\<lambda>c offsets. offsets @ [last offsets + c]) counts [0]"

definition place_edge ::
    "u32 list \<Rightarrow> u32 \<times> u32 \<Rightarrow> u32 list \<times> u32 list \<Rightarrow> 'e index_error + u32 list \<times> u32 list" where
  "place_edge offsets e st =
     (let (targets, cursors) = st; s = unat (fst e) in
      r_bind (vec_get offsets s) (\<lambda>off.
      r_bind (vec_get cursors s) (\<lambda>cur.
      r_bind (vec_set (unat (off + cur)) (snd e) targets) (\<lambda>targets.
      r_bind (vec_set s (cur + 1) cursors) (\<lambda>cursors.
      Inr (targets, cursors))))))"

definition csr_build :: "nat \<Rightarrow> (u32 \<times> u32) list \<Rightarrow> 'e index_error + csr_index" where
  "csr_build num_nodes edges =
     r_bind (count_edges num_nodes edges) (\<lambda>counts.
     let offsets = prefix_offsets counts in
     r_bind (r_fold (place_edge offsets) edges
               (replicate (length edges) 0, replicate num_nodes 0)) (\<lambda>(targets, cursors).
     Inr \<lparr>csr_offsets = offsets, csr_targets = targets\<rparr>))"

text \<open>A slice panics when its bounds are reversed or past the end.\<close>

definition neighbors :: "csr_index \<Rightarrow> u32 \<Rightarrow> 'e index_error + u32 list" where
  "neighbors c node =
     r_bind (vec_get (csr_offsets c) (unat node)) (\<lambda>start.
     r_bind (vec_get (csr_offsets c) (unat node + 1)) (\<lambda>stop.
     if unat start \<le> unat stop \<and> unat stop \<le> length (csr_targets c)
     then Inr (take (unat stop - unat start) (drop (unat start) (csr_targets c)))
     else Inl IndexPanic))"

definition has_neighbors :: "csr_index \<Rightarrow> u32 \<Rightarrow> 'e index_error + bool" where
  "has_neighbors c node =
     r_bind (vec_get (csr_offsets c) (unat node + 1)) (\<lambda>stop.
     r_bind (vec_get (csr_offsets c) (unat node)) (\<lambda>start.
     Inr (start < stop)))"

section \<open>The index of a graph\<close>

datatype column = Utf8Column "string list" | OtherColumn

record record_batch =
  rb_columns :: "(string \<times> column) list"
  rb_num_rows :: nat

definition string_column :: "record_batch \<Rightarrow> string \<Rightarrow> 'e index_error + string list" where
  "string_column batch name =
     r_bind (ok_or (map_of (rb_columns batch) name) (MissingColumn name)) (\<lambda>col.
     case col of Utf8Column vs \<Rightarrow> Inr vs | OtherColumn \<Rightarrow> Inl (NotUtf8 name))"

record graph_index =
  gi_type_indices :: "(string, node_type_index) hmap"
  gi_csr :: "(string, csr_index) hmap"
  gi_csc :: "(string, csr_index) hmap"

definition dense_of ::
    "string \<Rightarrow> string \<Rightarrow> (string, node_type_index) hmap \<Rightarrow>
       'e index_error + u32 \<times> (string, node_type_index) hmap" where
  "dense_of type_name i tis =
     r_bind (ok_or (hm_get tis type_name) IndexPanic) (\<lambda>t.
     let (idx, t') = get_or_insert i t in Inr (idx, hm_insert type_name t' tis))"

definition index_row ::
    "string \<Rightarrow> string \<Rightarrow> string list \<Rightarrow> string list \<Rightarrow> nat \<Rightarrow>
       (string, node_type_index) hmap \<times> (u32 \<times> u32) list \<Rightarrow>
       'e index_error + (string, node_type_index) hmap \<times> (u32 \<times> u32) list" where
  "index_row from_type to_type srcs dsts i st =
     (let (tis, edges) = st in
      r_bind (vec_get srcs i) (\<lambda>src.
      r_bind (dense_of from_type src tis) (\<lambda>(src_dense, tis).
      r_bind (vec_get dsts i) (\<lambda>dst.
      r_bind (dense_of to_type dst tis) (\<lambda>(dst_dense, tis).
      Inr (tis, edges @ [(src_dense, dst_dense)]))))))"

definition index_batch ::
    "string \<Rightarrow> string \<Rightarrow> record_batch \<Rightarrow>
       (string, node_type_index) hmap \<times> (u32 \<times> u32) list \<Rightarrow>
       'e index_error + (string, node_type_index) hmap \<times> (u32 \<times> u32) list" where
  "index_batch from_type to_type batch st =
     r_bind (string_column batch ''src'') (\<lambda>srcs.
     r_bind (string_column batch ''dst'') (\<lambda>dsts.
     r_fold (index_row from_type to_type srcs dsts) [0..<rb_num_rows batch] st))"

definition edge_table_key :: "string \<Rightarrow> string" where
  "edge_table_key edge_name = ''edge:'' @ edge_name"

type_synonym edge_types = "(string \<times> string \<times> string) list"

definition index_edge_table ::
    "(string \<Rightarrow> bool) \<Rightarrow> (string \<Rightarrow> 'e + record_batch list) \<Rightarrow> string \<times> string \<times> string \<Rightarrow>
       (string, node_type_index) hmap \<times> (string, (u32 \<times> u32) list) hmap \<Rightarrow>
       'e index_error + (string, node_type_index) hmap \<times> (string, (u32 \<times> u32) list) hmap" where
  "index_edge_table has_entry scan entry st =
     (let (edge_name, from_type, to_type) = entry; (tis, pairs) = st;
          table_key = edge_table_key edge_name
      in
      if \<not> has_entry table_key then Inr (tis, pairs)
      else
        r_bind (case scan table_key of Inl e \<Rightarrow> Inl (Storage e) | Inr bs \<Rightarrow> Inr bs) (\<lambda>batches.
        let tis = hm_or_insert to_type type_index_new (hm_or_insert from_type type_index_new tis) in
        r_bind (r_fold (index_batch from_type to_type) batches (tis, [])) (\<lambda>(tis, edges).
        Inr (tis, hm_insert edge_name edges pairs))))"

definition build_rows ::
    "(string, node_type_index) hmap \<Rightarrow> (string, (u32 \<times> u32) list) hmap \<Rightarrow> string \<times> string \<times> string \<Rightarrow>
       (string, csr_index) hmap \<times> (string, csr_index) hmap \<Rightarrow>
       'e index_error + (string, csr_index) hmap \<times> (string, csr_index) hmap" where
  "build_rows tis pairs entry st =
     (let (edge_name, from_type, to_type) = entry; (csr, csc) = st in
      case hm_get pairs edge_name of
        None \<Rightarrow> Inr (csr, csc)
      | Some edges \<Rightarrow>
          r_bind (ok_or (hm_get tis from_type) IndexPanic) (\<lambda>from_index.
          r_bind (ok_or (hm_get tis to_type) IndexPanic) (\<lambda>to_index.
          r_bind (csr_build (type_index_len from_index) edges) (\<lambda>out.
          r_bind (csr_build (type_index_len to_index) (map (\<lambda>(s, d). (d, s)) edges)) (\<lambda>inc.
          Inr (hm_insert edge_name out csr, hm_insert edge_name inc csc))))))"

definition graph_index_build ::
    "(string \<Rightarrow> bool) \<Rightarrow> (string \<Rightarrow> 'e + record_batch list) \<Rightarrow> edge_types \<Rightarrow>
       'e index_error + graph_index" where
  "graph_index_build has_entry scan edge_types =
     r_bind (r_fold (index_edge_table has_entry scan) edge_types (hm_empty, hm_empty)) (\<lambda>(tis, pairs).
     r_bind (r_fold (build_rows tis pairs) edge_types (hm_empty, hm_empty)) (\<lambda>(csr, csc).
     Inr \<lparr>gi_type_indices = tis, gi_csr = csr, gi_csc = csc\<rparr>))"

definition gi_type_index :: "graph_index \<Rightarrow> string \<Rightarrow> node_type_index option" where
  "gi_type_index g type_name = hm_get (gi_type_indices g) type_name"

definition gi_csr_of :: "graph_index \<Rightarrow> string \<Rightarrow> csr_index option" where
  "gi_csr_of g edge_type = hm_get (gi_csr g) edge_type"

definition gi_csc_of :: "graph_index \<Rightarrow> string \<Rightarrow> csr_index option" where
  "gi_csc_of g edge_type = hm_get (gi_csc g) edge_type"

end
