(* ===== verification/Graph_Index_Facts.thy ===== *)
theory Graph_Index_Facts
  imports Graph_Index "HOL-Library.Sublist"
begin

text \<open>
  The two structures of the topology index, each against what it stands for: a type index is a
  numbering of distinct identifiers that only tis_le, and compressed sparse rows are the lists of
  successors laid end to end.
\<close>

lemma vec_get_ok [simp]: "i < length xs \<Longrightarrow> vec_get xs i = Inr (xs ! i)"
  by (simp add: vec_get_def)

lemma vec_set_ok [simp]: "i < length xs \<Longrightarrow> vec_set i x xs = Inr (xs[i := x])"
  by (simp add: vec_set_def)

section \<open>Numberings\<close>

definition ti_wf :: "node_type_index \<Rightarrow> bool" where
  "ti_wf t \<longleftrightarrow>
     distinct (ti_dense_to_id t) \<and> length (ti_dense_to_id t) \<le> 2 ^ 32 \<and>
     (\<forall>i d. hm_get (ti_id_to_dense t) i = Some d \<longleftrightarrow>
        unat d < length (ti_dense_to_id t) \<and> ti_dense_to_id t ! unat d = i)"

text \<open>A later state of the numbering: identifiers are only added, at the end.\<close>

definition ti_le :: "node_type_index \<Rightarrow> node_type_index \<Rightarrow> bool" where
  "ti_le t t' \<longleftrightarrow> prefix (ti_dense_to_id t) (ti_dense_to_id t')"

lemma ti_le_refl [simp]: "ti_le t t"
  by (simp add: ti_le_def)

lemma ti_le_trans: "ti_le t t' \<Longrightarrow> ti_le t' t'' \<Longrightarrow> ti_le t t''"
  by (auto simp: ti_le_def intro: prefix_order.trans)

lemma ti_wf_new [simp]: "ti_wf type_index_new"
  by (simp add: ti_wf_def type_index_new_def)

lemma to_dense_iff:
  "ti_wf t \<Longrightarrow> to_dense t i = Some d \<longleftrightarrow> to_id t d = Some i"
  by (auto simp: to_dense_def to_id_def ti_wf_def)

lemma to_dense_bound: "ti_wf t \<Longrightarrow> to_dense t i = Some d \<Longrightarrow> unat d < type_index_len t"
  by (simp add: to_dense_def ti_wf_def type_index_len_def)

lemma to_dense_inj:
  "ti_wf t \<Longrightarrow> to_dense t i = Some d \<Longrightarrow> to_dense t j = Some d \<Longrightarrow> i = j"
  by (simp add: to_dense_iff)

lemma to_dense_mono:
  assumes "ti_le t t'" and "ti_wf t" and "ti_wf t'" and "to_dense t i = Some d"
  shows "to_dense t' i = Some d"
  using assms by (auto simp: to_dense_iff to_id_def ti_le_def prefix_def nth_append split: if_splits)

lemma to_dense_None: "ti_wf t \<Longrightarrow> to_dense t i = None \<longleftrightarrow> i \<notin> set (ti_dense_to_id t)"
proof -
  assume wf: "ti_wf t"
  have "\<exists>d. to_dense t i = Some d" if "i \<in> set (ti_dense_to_id t)"
  proof -
    from that obtain k where k: "k < length (ti_dense_to_id t)" "ti_dense_to_id t ! k = i"
      by (auto simp: in_set_conv_nth)
    with wf have "unat (word_of_nat k :: u32) = k" by (simp add: ti_wf_def unat_of_nat)
    with wf k show ?thesis
      by (intro exI [of _ "word_of_nat k"]) (simp add: to_dense_iff to_id_def)
  qed
  moreover have "i \<in> set (ti_dense_to_id t)" if "to_dense t i = Some d" for d
    using wf that by (auto simp: to_dense_iff to_id_def split: if_splits)
  ultimately show ?thesis by (cases "to_dense t i") auto
qed

lemma get_or_insert_ok:
  assumes wf: "ti_wf t" and room: "type_index_len t < 2 ^ 32" and get: "get_or_insert i t = (d, t')"
  shows "ti_wf t'" and "ti_le t t'" and "to_dense t' i = Some d"
    and "type_index_len t' \<le> Suc (type_index_len t)"
proof -
  have "ti_wf t' \<and> ti_le t t' \<and> to_dense t' i = Some d \<and> type_index_len t' \<le> Suc (type_index_len t)"
  proof (cases "hm_get (ti_id_to_dense t) i")
    case None
    let ?n = "length (ti_dense_to_id t)"
    from None wf have new: "i \<notin> set (ti_dense_to_id t)"
      using to_dense_None by (simp add: to_dense_def)
    have d: "d = word_of_nat ?n" "unat d = ?n"
      using get None room by (auto simp: get_or_insert_def Let_def type_index_len_def unat_of_nat)
    have t': "ti_dense_to_id t' = ti_dense_to_id t @ [i]"
      "ti_id_to_dense t' = hm_insert i d (ti_id_to_dense t)"
      using get None d(1) by (auto simp: get_or_insert_def Let_def)
    have "hm_get (ti_id_to_dense t') j = Some e \<longleftrightarrow>
        unat e < length (ti_dense_to_id t') \<and> ti_dense_to_id t' ! unat e = j" for j e
    proof (cases "j = i")
      case True
      have "e = d \<longleftrightarrow> unat e = ?n" using d(2) by (metis word_unat_eq_iff)
      moreover have "ti_dense_to_id t ! unat e \<noteq> i" if "unat e < ?n"
        using that new nth_mem by blast
      ultimately show ?thesis using True by (auto simp: t' nth_append)
    next
      case False
      then show ?thesis using wf by (auto simp: t' nth_append ti_wf_def)
    qed
    then have "ti_wf t'" using wf new room by (simp add: ti_wf_def t' type_index_len_def)
    then show ?thesis by (simp add: ti_le_def t' type_index_len_def to_dense_def)
  qed (use get wf in \<open>auto simp: get_or_insert_def to_dense_def\<close>)
  then show "ti_wf t'" "ti_le t t'" "to_dense t' i = Some d"
    "type_index_len t' \<le> Suc (type_index_len t)" by auto
qed

section \<open>Compressed sparse rows\<close>

text \<open>The successors of a node, in the order of the edges.\<close>

definition succs :: "(u32 \<times> u32) list \<Rightarrow> nat \<Rightarrow> u32 list" where
  "succs edges i = map snd (filter (\<lambda>e. unat (fst e) = i) edges)"

abbreviation degree :: "(u32 \<times> u32) list \<Rightarrow> nat \<Rightarrow> nat" where
  "degree edges i \<equiv> length (succs edges i)"

abbreviation row_start :: "(u32 \<times> u32) list \<Rightarrow> nat \<Rightarrow> nat" where
  "row_start edges i \<equiv> \<Sum>j<i. degree edges j"

definition sources_below :: "nat \<Rightarrow> (u32 \<times> u32) list \<Rightarrow> bool" where
  "sources_below n edges \<longleftrightarrow> list_all (\<lambda>e. unat (fst e) < n) edges"

lemma succs_simps [simp]:
  "succs [] i = []"
  "succs (e # es) i = (if unat (fst e) = i then snd e # succs es i else succs es i)"
  "succs (es @ es') i = succs es i @ succs es' i"
  by (auto simp: succs_def)

lemma sum_degrees: "sources_below n edges \<Longrightarrow> row_start edges n = length edges"
proof (induction edges)
  case (Cons e es)
  have "row_start (e # es) n = (\<Sum>j<n. degree es j + (if unat (fst e) = j then 1 else 0))"
    by (rule sum.cong) auto
  also have "\<dots> = row_start es n + 1"
    using Cons.prems by (simp add: sum.distrib sources_below_def)
  finally show ?case using Cons by (simp add: sources_below_def)
qed simp

lemma row_start_mono: "i \<le> j \<Longrightarrow> row_start edges i \<le> row_start edges j"
  by (intro sum_mono2) auto

lemma row_bound:
  assumes "sources_below n edges" and "i < n"
  shows "row_start edges i + degree edges i \<le> length edges"
  using row_start_mono [of "Suc i" n edges] assms sum_degrees by simp

lemma count_edge_ok:
  "unat (fst e) < n \<Longrightarrow>
     count_edge e (map f [0..<n]) = Inr (map (f(unat (fst e) := f (unat (fst e)) + 1)) [0..<n])"
  by (auto simp: count_edge_def vec_get_def vec_set_def intro!: nth_equalityI)

lemma count_edges_from:
  "sources_below n edges \<Longrightarrow>
     r_fold count_edge edges (map f [0..<n]) =
       Inr (map (\<lambda>i. f i + word_of_nat (degree edges i)) [0..<n])"
proof (induction edges arbitrary: f)
  case (Cons e es)
  let ?s = "unat (fst e)"
  from Cons.prems have s: "?s < n" and es: "sources_below n es" by (auto simp: sources_below_def)
  show ?case
    unfolding r_fold.simps count_edge_ok [OF s] r_bind.simps Cons.IH [OF es]
    by (auto simp: algebra_simps)
qed simp

lemma count_edges_ok:
  "sources_below n edges \<Longrightarrow>
     count_edges n edges = Inr (map (\<lambda>i. word_of_nat (degree edges i)) [0..<n])"
  using count_edges_from [of n edges "\<lambda>_. 0"] by (simp add: count_edges_def map_replicate_const)

lemma prefix_offsets_eq:
  "prefix_offsets (map (\<lambda>i. word_of_nat (f i)) [0..<n]) =
     map (\<lambda>i. word_of_nat (\<Sum>j<i. f j)) [0..<Suc n]"
  by (induction n) (simp_all add: prefix_offsets_def add.commute)

text \<open>Replacing one element of rows laid end to end.\<close>

lemma length_concat_rows: "length (concat (map f [0..<n])) = (\<Sum>j<n. length (f j))"
  by (simp add: length_concat comp_def interv_sum_list_conv_sum_set_nat atLeast0LessThan)

lemma concat_rows_update:
  assumes "r < n" and "k < length (f r)"
  shows "list_update (concat (map f [0..<n])) ((\<Sum>j<r. length (f j)) + k) v =
    concat (map (f(r := (f r)[k := v])) [0..<n])"
proof -
  have split: "[0..<n] = [0..<r] @ r # [Suc r..<n]"
    using assms(1) by (metis le_add_same_cancel1 less_imp_le upt_add_eq_append upt_conv_Cons
        add_0 le_add_diff_inverse zero_le)
  have other: "map (f(r := g)) [0..<r] = map f [0..<r]" "map (f(r := g)) [Suc r..<n] = map f [Suc r..<n]"
    for g by auto
  show ?thesis
    unfolding split using assms(2)
    by (simp add: other list_update_append length_concat_rows)
qed

definition placed :: "(u32 \<times> u32) list \<Rightarrow> nat \<Rightarrow> (u32 \<times> u32) list \<Rightarrow> nat \<Rightarrow> u32 list" where
  "placed edges n done_edges i =
     succs done_edges i @ replicate (degree edges i - degree done_edges i) 0"

lemma u32_add: "a + b < 2 ^ 32 \<Longrightarrow> unat (word_of_nat a + word_of_nat b :: u32) = a + b"
  by (simp add: unat_of_nat flip: of_nat_add)

lemma place_edge_step:
  assumes below: "sources_below n edges" and small: "length edges < 2 ^ 32"
    and edges: "edges = p @ e # q"
  shows "place_edge (prefix_offsets (map (\<lambda>i. word_of_nat (degree edges i)) [0..<n])) e
      (concat (map (placed edges n p) [0..<n]), map (\<lambda>i. word_of_nat (degree p i)) [0..<n]) =
    Inr (concat (map (placed edges n (p @ [e])) [0..<n]),
         map (\<lambda>i. word_of_nat (degree (p @ [e]) i)) [0..<n])"
proof -
  let ?s = "unat (fst e)"
  have s: "?s < n" using below by (simp add: edges sources_below_def)
  have room: "degree p ?s < degree edges ?s" by (simp add: edges)
  have len: "length (placed edges n p i) = degree edges i" for i
    by (auto simp: placed_def edges)
  have "row_start edges ?s + degree p ?s < length edges"
    using row_bound [OF below s] room by simp
  then have pos: "unat (word_of_nat (row_start edges ?s) + word_of_nat (degree p ?s) :: u32) =
      row_start edges ?s + degree p ?s"
    using small by (intro u32_add) simp
  have inside: "row_start edges ?s + degree p ?s < length (concat (map (placed edges n p) [0..<n]))"
    using \<open>_ < length edges\<close> sum_degrees [OF below] by (simp add: length_concat_rows len)
  have row: "(placed edges n p ?s)[degree p ?s := snd e] = placed edges n (p @ [e]) ?s"
  proof -
    have "degree edges ?s - degree p ?s = Suc (degree edges ?s - Suc (degree p ?s))"
      using room by simp
    then show ?thesis by (simp add: placed_def)
  qed
  have "(concat (map (placed edges n p) [0..<n]))[row_start edges ?s + degree p ?s := snd e] =
      concat (map ((placed edges n p)(?s := placed edges n (p @ [e]) ?s)) [0..<n])"
    using concat_rows_update [OF s, of "degree p ?s" "placed edges n p" "snd e"] room
    by (simp add: len row)
  also have "(placed edges n p)(?s := placed edges n (p @ [e]) ?s) = placed edges n (p @ [e])"
    by (auto simp: placed_def)
  finally have targets: "(concat (map (placed edges n p) [0..<n]))[row_start edges ?s + degree p ?s := snd e] =
      concat (map (placed edges n (p @ [e])) [0..<n])" .
  have cursors: "(map (\<lambda>i. word_of_nat (degree p i)) [0..<n])[?s := word_of_nat (degree p ?s) + 1] =
      map (\<lambda>i. word_of_nat (degree (p @ [e]) i) :: u32) [0..<n]"
    using s by (auto intro!: nth_equalityI simp: nth_list_update add.commute)
  let ?offsets = "prefix_offsets (map (\<lambda>i. word_of_nat (degree edges i)) [0..<n])"
  let ?cursors = "map (\<lambda>i. word_of_nat (degree p i) :: u32) [0..<n]"
  have reads: "?s < length ?offsets" "?s < length ?cursors"
    "?offsets ! ?s = word_of_nat (row_start edges ?s)" "?cursors ! ?s = word_of_nat (degree p ?s)"
    using s by (simp_all add: prefix_offsets_eq del: upt_Suc of_nat_sum)
  show ?thesis
    by (simp only: place_edge_def Let_def prod.case vec_get_ok vec_set_ok r_bind.simps reads pos inside
        targets cursors)
qed

lemma place_edges:
  assumes below: "sources_below n edges" and small: "length edges < 2 ^ 32"
    and edges: "edges = p @ q"
  shows "r_fold (place_edge (prefix_offsets (map (\<lambda>i. word_of_nat (degree edges i)) [0..<n]))) q
      (concat (map (placed edges n p) [0..<n]), map (\<lambda>i. word_of_nat (degree p i)) [0..<n]) =
    Inr (concat (map (succs edges) [0..<n]), map (\<lambda>i. word_of_nat (degree edges i)) [0..<n])"
  using edges
proof (induction q arbitrary: p)
  case Nil
  then show ?case by (simp add: placed_def)
next
  case (Cons e q)
  show ?case
    unfolding r_fold.simps place_edge_step [OF below small Cons.prems] r_bind.simps
    by (rule Cons.IH) (simp add: Cons.prems)
qed

lemma csr_build_ok:
  assumes "sources_below n edges" and "length edges < 2 ^ 32"
  shows "csr_build n edges =
    Inr \<lparr>csr_offsets = map (\<lambda>i. word_of_nat (row_start edges i)) [0..<Suc n],
         csr_targets = concat (map (succs edges) [0..<n])\<rparr>"
proof -
  have "concat (map (placed edges n []) [0..<n]) = replicate (length edges) 0"
  proof -
    have "concat (map (\<lambda>i. replicate (f i) x) ks) = replicate (sum_list (map f ks)) x"
      for f :: "nat \<Rightarrow> nat" and x :: u32 and ks
      by (induction ks) (simp_all add: replicate_add)
    moreover have "placed edges n [] = (\<lambda>i. replicate (degree edges i) 0)"
      by (auto simp: placed_def)
    ultimately show ?thesis
      using sum_degrees [OF assms(1)] by (simp add: interv_sum_list_conv_sum_set_nat atLeast0LessThan)
  qed
  moreover have "map (\<lambda>i. word_of_nat (degree [] i)) [0..<n] = replicate n (0 :: u32)"
    by (simp add: map_replicate_const)
  ultimately have start: "(replicate (length edges) 0, replicate n 0) =
      (concat (map (placed edges n []) [0..<n]), map (\<lambda>i. word_of_nat (degree [] i) :: u32) [0..<n])"
    by simp
  show ?thesis
    unfolding csr_build_def count_edges_ok [OF assms(1)] r_bind.simps Let_def start
    by (subst place_edges [OF assms]) (simp_all add: prefix_offsets_eq del: upt_Suc of_nat_sum)
qed

lemma concat_rows_slice:
  "r < n \<Longrightarrow> take (length (f r)) (drop (\<Sum>j<r. length (f j)) (concat (map f [0..<n]))) = f r"
proof -
  assume "r < n"
  then have "[0..<n] = [0..<r] @ r # [Suc r..<n]"
    by (metis le_add_same_cancel1 less_imp_le upt_add_eq_append upt_conv_Cons
        add_0 le_add_diff_inverse zero_le)
  then show ?thesis by (simp add: length_concat_rows)
qed

lemma neighbors_ok:
  assumes below: "sources_below n edges" and small: "length edges < 2 ^ 32" and node: "unat v < n"
    and build: "csr_build n edges = Inr c"
  shows "neighbors c v = Inr (succs edges (unat v))"
    and "has_neighbors c v = Inr (succs edges (unat v) \<noteq> [])"
proof -
  let ?v = "unat v"
  from build csr_build_ok [OF below small] have c:
    "csr_offsets c = map (\<lambda>i. word_of_nat (row_start edges i)) [0..<Suc n]"
    "csr_targets c = concat (map (succs edges) [0..<n])"
    by (metis Inr_inject csr_index.select_convs)+
  have start: "?v < length (csr_offsets c)" "Suc ?v < length (csr_offsets c)" using node c(1) by simp_all
  have fits: "unat (word_of_nat (row_start edges i) :: u32) = row_start edges i" if "i \<le> n" for i
    using row_start_mono [OF that, of edges] sum_degrees [OF below] small
    by (simp add: unat_of_nat del: of_nat_sum)
  have reads: "unat (csr_offsets c ! ?v) = row_start edges ?v"
    "unat (csr_offsets c ! Suc ?v) = row_start edges ?v + degree edges ?v"
    using node fits [of ?v] fits [of "Suc ?v"] by (simp_all add: c del: upt_Suc of_nat_sum of_nat_add)
  have "row_start edges ?v + degree edges ?v \<le> length (csr_targets c)"
    using row_bound [OF below node] sum_degrees [OF below] by (simp add: c length_concat_rows)
  then show "neighbors c v = Inr (succs edges ?v)"
    using concat_rows_slice [OF node, of "succs edges"]
    by (simp add: neighbors_def start reads flip: c(2))
  show "has_neighbors c v = Inr (succs edges ?v \<noteq> [])"
    by (simp add: has_neighbors_def start reads word_less_nat_alt)
qed

end
