(* ===== verification/Graph_Index_Build.thy ===== *)
theory Graph_Index_Build
  imports Graph_Index_Facts
begin

text \<open>
  Building the index of a graph from the scanned edge tables: the numberings grow from row to row
  and from table to table, so a number given out early is still valid when the rows are laid out.
\<close>

section \<open>What the tables hold\<close>

definition batch_rows :: "record_batch \<Rightarrow> (string \<times> string) list" where
  "batch_rows b =
     (case (map_of (rb_columns b) ''src'', map_of (rb_columns b) ''dst'') of
        (Some (Utf8Column ss), Some (Utf8Column ds)) \<Rightarrow> zip ss ds
      | _ \<Rightarrow> [])"

text \<open>Both columns present, of strings, and as long as the batch: what Arrow guarantees of a scan.\<close>

definition batch_ok :: "record_batch \<Rightarrow> bool" where
  "batch_ok b =
     (case (map_of (rb_columns b) ''src'', map_of (rb_columns b) ''dst'') of
        (Some (Utf8Column ss), Some (Utf8Column ds)) \<Rightarrow>
          length ss = rb_num_rows b \<and> length ds = rb_num_rows b
      | _ \<Rightarrow> False)"

definition edge_rows :: "(string \<Rightarrow> 'e + record_batch list) \<Rightarrow> string \<Rightarrow> (string \<times> string) list" where
  "edge_rows scan e =
     (case scan (edge_table_key e) of Inl _ \<Rightarrow> [] | Inr bs \<Rightarrow> concat (map batch_rows bs))"

definition table_ok :: "(string \<Rightarrow> bool) \<Rightarrow> (string \<Rightarrow> 'e + record_batch list) \<Rightarrow> string \<Rightarrow> bool" where
  "table_ok has_entry scan e \<longleftrightarrow>
     has_entry (edge_table_key e) \<longrightarrow>
       (case scan (edge_table_key e) of Inl _ \<Rightarrow> False | Inr bs \<Rightarrow> list_all batch_ok bs)"

definition row_count :: "(string \<Rightarrow> bool) \<Rightarrow> (string \<Rightarrow> 'e + record_batch list) \<Rightarrow> string \<Rightarrow> nat" where
  "row_count has_entry scan e =
     (if has_entry (edge_table_key e) then length (edge_rows scan e) else 0)"

section \<open>Growing numberings\<close>

type_synonym numberings = "(string, node_type_index) hmap"

definition sized :: "nat \<Rightarrow> numberings \<Rightarrow> bool" where
  "sized n tis \<longleftrightarrow> (\<forall>k t. hm_get tis k = Some t \<longrightarrow> ti_wf t \<and> type_index_len t \<le> n)"

definition tis_le :: "numberings \<Rightarrow> numberings \<Rightarrow> bool" where
  "tis_le tis tis' \<longleftrightarrow>
     (\<forall>k t. hm_get tis k = Some t \<longrightarrow> (\<exists>t'. hm_get tis' k = Some t' \<and> ti_le t t'))"

definition numbered :: "numberings \<Rightarrow> string \<Rightarrow> string \<Rightarrow> u32 \<Rightarrow> bool" where
  "numbered tis k i d \<longleftrightarrow> (\<exists>t. hm_get tis k = Some t \<and> to_dense t i = Some d)"

abbreviation pair_numbered :: "numberings \<Rightarrow> string \<Rightarrow> string \<Rightarrow> u32 \<times> u32 \<Rightarrow> string \<times> string \<Rightarrow> bool" where
  "pair_numbered tis f t p r \<equiv> numbered tis f (fst r) (fst p) \<and> numbered tis t (snd r) (snd p)"

lemma tis_le_refl [simp]: "tis_le tis tis"
  by (simp add: tis_le_def)

lemma tis_le_trans: "tis_le a b \<Longrightarrow> tis_le b c \<Longrightarrow> tis_le a c"
  unfolding tis_le_def by (metis ti_le_trans)

lemma tis_le_contains: "tis_le a b \<Longrightarrow> hm_contains a k \<Longrightarrow> hm_contains b k"
  unfolding tis_le_def hm_contains_iff by blast

lemma numbered_mono:
  assumes "tis_le a b" and "sized n a" and "sized m b" and "numbered a k i d"
  shows "numbered b k i d"
proof -
  from assms(4) obtain t where t: "hm_get a k = Some t" "to_dense t i = Some d"
    by (auto simp: numbered_def)
  with assms(1) obtain t' where t': "hm_get b k = Some t'" "ti_le t t'"
    unfolding tis_le_def by blast
  with t assms(2,3) have "to_dense t' i = Some d"
    using to_dense_mono unfolding sized_def by blast
  with t' show ?thesis by (auto simp: numbered_def)
qed

lemma pairs_numbered_mono:
  assumes "tis_le a b" and "sized n a" and "sized m b" and "list_all2 (pair_numbered a f t) ps rs"
  shows "list_all2 (pair_numbered b f t) ps rs"
  using assms(4) by (rule list_all2_mono) (use numbered_mono [OF assms(1-3)] in blast)

lemma dense_of_ok:
  assumes "sized n tis" and "n < 2 ^ 32" and "hm_contains tis k"
  obtains d tis' where "dense_of k i tis = Inr (d, tis')" and "sized (Suc n) tis'"
    and "tis_le tis tis'" and "numbered tis' k i d"
proof -
  from assms(3) obtain t where t: "hm_get tis k = Some t" by (auto simp: hm_contains_iff)
  with assms(1) have wf: "ti_wf t" "type_index_len t \<le> n" by (auto simp: sized_def)
  obtain d t' where get: "get_or_insert i t = (d, t')" by (cases "get_or_insert i t")
  have "type_index_len t < 2 ^ 32" using wf(2) assms(2) by simp
  note ok = get_or_insert_ok [OF wf(1) this get]
  show ?thesis
  proof (rule that)
    show "dense_of k i tis = Inr (d, hm_insert k t' tis)"
      by (simp add: dense_of_def t get)
    show "sized (Suc n) (hm_insert k t' tis)"
      using assms(1) ok(1,4) wf(2) by (auto simp: sized_def split: if_splits intro: le_SucI)
    show "tis_le tis (hm_insert k t' tis)" using t ok(2) by (auto simp: tis_le_def)
    show "numbered (hm_insert k t' tis) k i d" using ok(3) by (auto simp: numbered_def)
  qed
qed

section \<open>Rows, batches and tables\<close>

text \<open>A step of the scan that appends the pairs of \<open>rows\<close>, numbered, to the edges so far.\<close>

definition numbers_rows ::
    "string \<Rightarrow> string \<Rightarrow> (numberings \<times> (u32 \<times> u32) list \<Rightarrow>
       'e index_error + numberings \<times> (u32 \<times> u32) list) \<Rightarrow> (string \<times> string) list \<Rightarrow> bool" where
  "numbers_rows f t step rows \<longleftrightarrow>
     (\<forall>n tis edges. sized n tis \<longrightarrow> n + 2 * length rows < 2 ^ 32 \<longrightarrow>
        hm_contains tis f \<longrightarrow> hm_contains tis t \<longrightarrow>
        (\<exists>tis' es. step (tis, edges) = Inr (tis', edges @ es) \<and>
           sized (n + 2 * length rows) tis' \<and> tis_le tis tis' \<and>
           list_all2 (pair_numbered tis' f t) es rows))"

lemma numbers_rowsD:
  assumes "numbers_rows f t step rows" and "sized n tis" and "n + 2 * length rows < 2 ^ 32"
    and "hm_contains tis f" and "hm_contains tis t"
  shows "\<exists>tis' es. step (tis, edges) = Inr (tis', edges @ es) \<and>
           sized (n + 2 * length rows) tis' \<and> tis_le tis tis' \<and>
           list_all2 (pair_numbered tis' f t) es rows"
  using assms unfolding numbers_rows_def by simp

lemma numbers_rows_fold:
  assumes "\<And>x. x \<in> set xs \<Longrightarrow> numbers_rows f t (step x) (rows x)"
  shows "numbers_rows f t (r_fold step xs) (concat (map rows xs))"
  unfolding numbers_rows_def
proof (intro allI impI)
  fix n tis and edges :: "(u32 \<times> u32) list"
  assume "sized n tis" "n + 2 * length (concat (map rows xs)) < 2 ^ 32"
    "hm_contains tis f" "hm_contains tis t"
  then show "\<exists>tis' es. r_fold step xs (tis, edges) = Inr (tis', edges @ es) \<and>
      sized (n + 2 * length (concat (map rows xs))) tis' \<and> tis_le tis tis' \<and>
      list_all2 (pair_numbered tis' f t) es (concat (map rows xs))"
    using assms
  proof (induction xs arbitrary: n tis edges)
    case (Cons x xs)
    have room: "n + 2 * length (rows x) < 2 ^ 32" using Cons.prems(2) by simp
    have "numbers_rows f t (step x) (rows x)" by (rule Cons.prems(5)) simp
    from numbers_rowsD [OF this Cons.prems(1) room Cons.prems(3,4), of edges]
    obtain tis1 es1 where one: "step x (tis, edges) = Inr (tis1, edges @ es1)"
      "sized (n + 2 * length (rows x)) tis1" "tis_le tis tis1"
      "list_all2 (pair_numbered tis1 f t) es1 (rows x)"
      by blast
    have "n + 2 * length (rows x) + 2 * length (concat (map rows xs)) < 2 ^ 32"
      using Cons.prems(2) by simp
    from Cons.IH [OF one(2) this, of "edges @ es1"] Cons.prems(3-5) one(3)
    obtain tis2 es2 where two: "r_fold step xs (tis1, edges @ es1) = Inr (tis2, (edges @ es1) @ es2)"
      "sized (n + 2 * length (rows x) + 2 * length (concat (map rows xs))) tis2" "tis_le tis1 tis2"
      "list_all2 (pair_numbered tis2 f t) es2 (concat (map rows xs))"
      by (auto dest: tis_le_contains)
    have "list_all2 (pair_numbered tis2 f t) es1 (rows x)"
      using two(3) one(2) two(2) one(4) by (rule pairs_numbered_mono)
    with one two show ?case
      by (intro exI [of _ tis2] exI [of _ "es1 @ es2"])
        (auto simp: algebra_simps intro: tis_le_trans list_all2_appendI)
  qed simp
qed

lemma index_row_numbers:
  assumes "i < length ss" and "i < length ds"
  shows "numbers_rows f t (index_row f t ss ds i :: _ \<Rightarrow> 'e index_error + _) [(ss ! i, ds ! i)]"
  unfolding numbers_rows_def
proof (intro allI impI)
  fix n tis and edges :: "(u32 \<times> u32) list"
  assume tis: "sized n tis" "n + 2 * length [(ss ! i, ds ! i)] < 2 ^ 32"
    "hm_contains tis f" "hm_contains tis t"
  from tis obtain d tis1 where
    one: "(dense_of f (ss ! i) tis :: 'e index_error + _) = Inr (d, tis1)" "sized (Suc n) tis1"
    "tis_le tis tis1" "numbered tis1 f (ss ! i) d"
    using dense_of_ok [of n tis f "ss ! i"] by auto
  from tis one obtain e tis2 where
    two: "(dense_of t (ds ! i) tis1 :: 'e index_error + _) = Inr (e, tis2)"
    "sized (Suc (Suc n)) tis2" "tis_le tis1 tis2" "numbered tis2 t (ds ! i) e"
    using dense_of_ok [of "Suc n" tis1 t "ds ! i"] tis_le_contains by auto
  have "numbered tis2 f (ss ! i) d" using two(3) one(2) two(2) one(4) by (rule numbered_mono)
  with one two assms show "\<exists>tis' es.
      (index_row f t ss ds i (tis, edges) :: 'e index_error + _) = Inr (tis', edges @ es) \<and>
      sized (n + 2 * length [(ss ! i, ds ! i)]) tis' \<and> tis_le tis tis' \<and>
      list_all2 (pair_numbered tis' f t) es [(ss ! i, ds ! i)]"
    by (intro exI [of _ tis2] exI [of _ "[(d, e)]"])
      (auto simp: index_row_def intro: tis_le_trans)
qed

lemma index_batch_numbers:
  assumes "batch_ok b"
  shows "numbers_rows f t (index_batch f t b :: _ \<Rightarrow> 'e index_error + _) (batch_rows b)"
proof -
  from assms obtain ss ds where cols: "map_of (rb_columns b) ''src'' = Some (Utf8Column ss)"
    "map_of (rb_columns b) ''dst'' = Some (Utf8Column ds)"
    and len: "length ss = rb_num_rows b" "length ds = rb_num_rows b"
    unfolding batch_ok_def
    by (cases "map_of (rb_columns b) ''src''"; cases "map_of (rb_columns b) ''dst''")
      (auto split: column.splits)
  have "numbers_rows f t
      (r_fold (index_row f t ss ds) [0..<rb_num_rows b] :: _ \<Rightarrow> 'e index_error + _)
      (concat (map (\<lambda>i. [(ss ! i, ds ! i)]) [0..<rb_num_rows b]))"
    by (rule numbers_rows_fold, rule index_row_numbers) (use len in auto)
  moreover have "concat (map (\<lambda>i. [(ss ! i, ds ! i)]) [0..<rb_num_rows b]) = batch_rows b"
    using len by (auto simp: batch_rows_def cols concat_map_singleton intro!: nth_equalityI)
  moreover have "(index_batch f t b :: _ \<Rightarrow> 'e index_error + _) = r_fold (index_row f t ss ds) [0..<rb_num_rows b]"
    by (rule ext) (simp add: index_batch_def string_column_def cols)
  ultimately show ?thesis by (simp only:)
qed

lemma sized_or_insert: "sized n tis \<Longrightarrow> sized n (hm_or_insert k type_index_new tis)"
  by (auto simp: sized_def type_index_len_def type_index_new_def ti_wf_def split: if_splits)

lemma tis_le_or_insert: "tis_le tis (hm_or_insert k t tis)"
  by (auto simp: tis_le_def)

lemma contains_or_insert [simp]:
  "hm_contains (hm_or_insert k t tis) k' \<longleftrightarrow> k' = k \<or> hm_contains tis k'"
  by (auto simp: hm_contains_iff)

definition indexed ::
    "(string \<Rightarrow> bool) \<Rightarrow> (string \<Rightarrow> 'e + record_batch list) \<Rightarrow> numberings \<Rightarrow>
       (string, (u32 \<times> u32) list) hmap \<Rightarrow> string \<times> string \<times> string \<Rightarrow> bool" where
  "indexed has_entry scan tis pairs x \<longleftrightarrow>
     (case x of (e, f, t) \<Rightarrow>
        if has_entry (edge_table_key e) then
          hm_contains tis f \<and> hm_contains tis t \<and>
          (\<exists>ps. hm_get pairs e = Some ps \<and> list_all2 (pair_numbered tis f t) ps (edge_rows scan e))
        else hm_get pairs e = None)"

lemma indexed_mono:
  assumes "tis_le a b" and "sized n a" and "sized m b" and "indexed has_entry scan a pairs x"
    and "hm_get pairs' (fst x) = hm_get pairs (fst x)"
  shows "indexed has_entry scan b pairs' x"
  using assms(4,5) pairs_numbered_mono [OF assms(1-3)] tis_le_contains [OF assms(1)]
  by (auto simp: indexed_def split: if_splits prod.splits)

lemma index_edge_table_ok:
  fixes scan :: "string \<Rightarrow> 'e + record_batch list"
  assumes table: "table_ok has_entry scan e" and tis: "sized n tis"
    and room: "n + 2 * row_count has_entry scan e < 2 ^ 32" and new: "hm_get pairs e = None"
  shows "\<exists>tis' pairs'. index_edge_table has_entry scan (e, f, t) (tis, pairs) = Inr (tis', pairs') \<and>
      sized (n + 2 * row_count has_entry scan e) tis' \<and> tis_le tis tis' \<and>
      indexed has_entry scan tis' pairs' (e, f, t) \<and>
      (\<forall>k. k \<noteq> e \<longrightarrow> hm_get pairs' k = hm_get pairs k)"
proof (cases "has_entry (edge_table_key e)")
  case True
  let ?tis = "hm_or_insert t type_index_new (hm_or_insert f type_index_new tis)"
  from table True obtain bs where bs: "scan (edge_table_key e) = Inr bs" "list_all batch_ok bs"
    by (auto simp: table_ok_def split: sum.splits)
  have rows: "edge_rows scan e = concat (map batch_rows bs)" by (simp add: edge_rows_def bs)
  have count: "row_count has_entry scan e = length (concat (map batch_rows bs))"
    by (simp add: row_count_def True rows)
  have "numbers_rows f t (r_fold (index_batch f t) bs :: _ \<Rightarrow> 'e index_error + _) (concat (map batch_rows bs))"
    by (rule numbers_rows_fold, rule index_batch_numbers) (use bs(2) in \<open>auto simp: list_all_iff\<close>)
  from numbers_rowsD [OF this, of n ?tis "[]"] tis room obtain tis' es where
    ok: "(r_fold (index_batch f t) bs (?tis, []) :: 'e index_error + _) = Inr (tis', es)"
      "sized (n + 2 * length (concat (map batch_rows bs))) tis'" "tis_le ?tis tis'"
      "list_all2 (pair_numbered tis' f t) es (concat (map batch_rows bs))"
    by (auto simp: count sized_or_insert simp del: length_concat)
  have "tis_le tis ?tis" by (rule tis_le_trans [OF tis_le_or_insert tis_le_or_insert])
  then have "tis_le tis tis'" using ok(3) by (rule tis_le_trans)
  moreover have "hm_contains tis' f" "hm_contains tis' t"
    using tis_le_contains [OF ok(3)] by simp_all
  ultimately show ?thesis
    using ok True bs
    by (intro exI [of _ tis'] exI [of _ "hm_insert e es pairs"])
      (auto simp: index_edge_table_def indexed_def rows count simp del: length_concat)
qed (use tis new in \<open>auto simp: index_edge_table_def row_count_def indexed_def intro!: exI\<close>)

section \<open>The two phases\<close>

lemma index_tables_ok:
  fixes scan :: "string \<Rightarrow> 'e + record_batch list"
  assumes "distinct (map fst xs)" and "list_all (\<lambda>x. table_ok has_entry scan (fst x)) xs"
    and "sized n tis" and "n + 2 * sum_list (map (\<lambda>x. row_count has_entry scan (fst x)) xs) < 2 ^ 32"
    and "\<forall>x \<in> set xs. hm_get pairs (fst x) = None"
  shows "\<exists>tis' pairs'. r_fold (index_edge_table has_entry scan) xs (tis, pairs) = Inr (tis', pairs') \<and>
      sized (n + 2 * sum_list (map (\<lambda>x. row_count has_entry scan (fst x)) xs)) tis' \<and> tis_le tis tis' \<and>
      (\<forall>x \<in> set xs. indexed has_entry scan tis' pairs' x) \<and>
      (\<forall>k. k \<notin> fst ` set xs \<longrightarrow> hm_get pairs' k = hm_get pairs k)"
  using assms
proof (induction xs arbitrary: n tis pairs)
  case (Cons x xs)
  obtain e f t where x: "x = (e, f, t)" by (metis prod.exhaust)
  let ?n = "n + 2 * row_count has_entry scan e"
  let ?rest = "2 * sum_list (map (\<lambda>x. row_count has_entry scan (fst x)) xs)"
  have "table_ok has_entry scan e" "?n < 2 ^ 32" "hm_get pairs e = None"
    using Cons.prems(1-4) Cons.prems(5) x by auto
  from index_edge_table_ok [OF this(1) Cons.prems(3) this(2,3), of f t]
  obtain tis1 pairs1 where
    one: "index_edge_table has_entry scan x (tis, pairs) = Inr (tis1, pairs1)" "sized ?n tis1"
      "tis_le tis tis1" "indexed has_entry scan tis1 pairs1 x"
      "\<And>k. k \<noteq> e \<Longrightarrow> hm_get pairs1 k = hm_get pairs k"
    unfolding x by blast
  have rest: "distinct (map fst xs)" "list_all (\<lambda>x. table_ok has_entry scan (fst x)) xs"
    "?n + ?rest < 2 ^ 32"
    using Cons.prems(1,2,4) x by auto
  have fresh: "\<forall>y \<in> set xs. hm_get pairs1 (fst y) = None"
  proof
    fix y assume that: "y \<in> set xs"
    have "fst y \<noteq> e" using Cons.prems(1) that x by auto
    then show "hm_get pairs1 (fst y) = None" using Cons.prems(5) one(5) [of "fst y"] that by simp
  qed
  from Cons.IH [OF rest(1,2) one(2) rest(3) fresh] obtain tis2 pairs2 where
    two: "r_fold (index_edge_table has_entry scan) xs (tis1, pairs1) = Inr (tis2, pairs2)"
      "sized (?n + ?rest) tis2" "tis_le tis1 tis2" "\<forall>x \<in> set xs. indexed has_entry scan tis2 pairs2 x"
      "\<forall>k. k \<notin> fst ` set xs \<longrightarrow> hm_get pairs2 k = hm_get pairs1 k"
    by blast
  have "fst x \<notin> fst ` set xs" using Cons.prems(1) by auto
  with two(5) have "hm_get pairs2 (fst x) = hm_get pairs1 (fst x)" by blast
  then have "indexed has_entry scan tis2 pairs2 x"
    by (rule indexed_mono [OF two(3) one(2) two(2) one(4)])
  moreover have "tis_le tis tis2" using one(3) two(3) by (rule tis_le_trans)
  moreover have "hm_get pairs2 k = hm_get pairs k" if "k \<notin> fst ` set (x # xs)" for k
    using that one(5) [of k] two(5) x by simp
  ultimately show ?case
    using one(1) two(1,2,4) x by (intro exI [of _ tis2] exI [of _ pairs2]) (simp add: algebra_simps)
qed simp

text \<open>The rows laid out for one edge type, read through the numberings, are the rows of its table.\<close>

definition answers ::
    "node_type_index \<Rightarrow> node_type_index \<Rightarrow> csr_index \<Rightarrow> (string \<times> string) list \<Rightarrow> bool" where
  "answers near far c rows \<longleftrightarrow>
     (\<forall>i d. to_dense near i = Some d \<longrightarrow>
        (\<exists>ns. neighbors c d = (Inr ns :: unit index_error + u32 list) \<and>
              map (to_id far) ns = map (\<lambda>r. Some (snd r)) (filter (\<lambda>r. fst r = i) rows) \<and>
              has_neighbors c d = (Inr (ns \<noteq> []) :: unit index_error + bool)))"

lemma numbered_succs:
  assumes near: "ti_wf near" and far: "ti_wf far" and i: "to_dense near i = Some d"
    and pairs: "list_all2 (\<lambda>p r. to_dense near (fst r) = Some (fst p) \<and>
      to_dense far (snd r) = Some (snd p)) ps rows"
  shows "map (to_id far) (succs ps (unat d)) = map (\<lambda>r. Some (snd r)) (filter (\<lambda>r. fst r = i) rows)"
  using pairs
proof (induction rule: list_all2_induct)
  case (Cons p ps r rows)
  have "unat (fst p) = unat d \<longleftrightarrow> fst r = i"
    using Cons(1) near i to_dense_inj [OF near] by (metis option.inject word_unat_eq_iff)
  with Cons far show ?case by (simp add: to_dense_iff)
qed simp

lemma numbered_rows_answer:
  assumes near: "ti_wf near" and far: "ti_wf far"
    and pairs: "list_all2 (\<lambda>p r. to_dense near (fst r) = Some (fst p) \<and>
      to_dense far (snd r) = Some (snd p)) ps rows"
    and small: "length rows < 2 ^ 32"
  shows "\<exists>c. csr_build (type_index_len near) ps = Inr c \<and> answers near far c rows"
proof -
  have below: "sources_below (type_index_len near) ps"
    using pairs unfolding sources_below_def
    by (induction rule: list_all2_induct) (auto dest: to_dense_bound [OF near])
  have few: "length ps < 2 ^ 32" using list_all2_lengthD [OF pairs] small by simp
  note built = csr_build_ok [OF below few]
  have "answers near far \<lparr>csr_offsets = map (\<lambda>i. word_of_nat (row_start ps i))
      [0..<Suc (type_index_len near)], csr_targets = concat (map (succs ps) [0..<type_index_len near])\<rparr> rows"
    unfolding answers_def
    using neighbors_ok [OF below few to_dense_bound [OF near] built] numbered_succs [OF near far _ pairs]
    by blast
  with built show ?thesis by blast
qed

definition adjacency ::
    "(string \<Rightarrow> bool) \<Rightarrow> (string \<Rightarrow> 'e + record_batch list) \<Rightarrow> graph_index \<Rightarrow>
       string \<times> string \<times> string \<Rightarrow> bool" where
  "adjacency has_entry scan g x \<longleftrightarrow>
     (case x of (e, f, t) \<Rightarrow>
        has_entry (edge_table_key e) \<longrightarrow>
        (\<exists>fi ti out inc. gi_type_index g f = Some fi \<and> gi_type_index g t = Some ti \<and>
           gi_csr_of g e = Some out \<and> gi_csc_of g e = Some inc \<and>
           list_all (\<lambda>r. to_dense fi (fst r) \<noteq> None \<and> to_dense ti (snd r) \<noteq> None) (edge_rows scan e) \<and>
           answers fi ti out (edge_rows scan e) \<and>
           answers ti fi inc (map prod.swap (edge_rows scan e))))"

lemma build_rows_step:
  fixes scan :: "string \<Rightarrow> 'e + record_batch list"
  assumes sized: "sized n tis" and x: "indexed has_entry scan tis pairs x"
    and few: "row_count has_entry scan (fst x) < 2 ^ 32"
  shows "\<exists>csr' csc'. (build_rows tis pairs x (csr, csc) :: 'e index_error + _) = Inr (csr', csc') \<and>
      (\<forall>csr'' csc''. hm_get csr'' (fst x) = hm_get csr' (fst x) \<longrightarrow>
         hm_get csc'' (fst x) = hm_get csc' (fst x) \<longrightarrow>
         adjacency has_entry scan \<lparr>gi_type_indices = tis, gi_csr = csr'', gi_csc = csc''\<rparr> x) \<and>
      (\<forall>k. k \<noteq> fst x \<longrightarrow> hm_get csr' k = hm_get csr k \<and> hm_get csc' k = hm_get csc k)"
proof -
  obtain e f t where [simp]: "x = (e, f, t)" by (metis prod.exhaust)
  show ?thesis
  proof (cases "has_entry (edge_table_key e)")
    case False
    with x show ?thesis by (auto simp: indexed_def build_rows_def adjacency_def)
  next
    case True
    let ?rows = "edge_rows scan e"
    from x True obtain ps fi ti where
      found: "hm_get pairs e = Some ps" "hm_get tis f = Some fi" "hm_get tis t = Some ti"
      and pairs: "list_all2 (pair_numbered tis f t) ps ?rows"
      by (auto simp: indexed_def hm_contains_iff)
    have small: "length ?rows < 2 ^ 32" using few True by (simp add: row_count_def)
    from found sized have wf: "ti_wf fi" "ti_wf ti" by (auto simp: sized_def)
    have num: "list_all2 (\<lambda>p r. to_dense fi (fst r) = Some (fst p) \<and>
        to_dense ti (snd r) = Some (snd p)) ps ?rows"
      using pairs by (rule list_all2_mono) (auto simp: numbered_def found)
    then have swapped: "list_all2 (\<lambda>p r. to_dense ti (fst r) = Some (fst p) \<and>
        to_dense fi (snd r) = Some (snd p)) (map (\<lambda>(s, d). (d, s)) ps) (map prod.swap ?rows)"
      by (simp add: list_all2_map1 list_all2_map2 case_prod_beta conj_commute)
    obtain out where out: "(csr_build (type_index_len fi) ps :: 'e index_error + _) = Inr out"
        "answers fi ti out ?rows"
      using numbered_rows_answer [OF wf num small] by blast
    obtain inc where inc:
        "(csr_build (type_index_len ti) (map (\<lambda>(s, d). (d, s)) ps) :: 'e index_error + _) = Inr inc"
        "answers ti fi inc (map prod.swap ?rows)"
      using numbered_rows_answer [OF wf(2,1) swapped] small by auto
    have known: "list_all (\<lambda>r. to_dense fi (fst r) \<noteq> None \<and> to_dense ti (snd r) \<noteq> None) ?rows"
      using num by (induction rule: list_all2_induct) auto
    have built: "(build_rows tis pairs x (csr, csc) :: 'e index_error + _) =
        Inr (hm_insert e out csr, hm_insert e inc csc)"
      by (simp add: build_rows_def found out(1) inc(1))
    show ?thesis
      unfolding built using out(2) inc(2) known found
      by (intro exI conjI) (auto simp: adjacency_def gi_type_index_def gi_csr_of_def gi_csc_of_def)
  qed
qed

lemma build_rows_ok:
  fixes scan :: "string \<Rightarrow> 'e + record_batch list"
  assumes "distinct (map fst xs)" and "\<And>x. x \<in> set xs \<Longrightarrow> indexed has_entry scan tis pairs x"
    and "sized n tis" and "\<And>x. x \<in> set xs \<Longrightarrow> row_count has_entry scan (fst x) < 2 ^ 32"
  shows "\<exists>csr' csc'. (r_fold (build_rows tis pairs) xs (csr, csc) :: 'e index_error + _) = Inr (csr', csc') \<and>
      (\<forall>x \<in> set xs. adjacency has_entry scan \<lparr>gi_type_indices = tis, gi_csr = csr', gi_csc = csc'\<rparr> x) \<and>
      (\<forall>k. k \<notin> fst ` set xs \<longrightarrow> hm_get csr' k = hm_get csr k \<and> hm_get csc' k = hm_get csc k)"
  using assms(1,2,4)
proof (induction xs arbitrary: csr csc)
  case (Cons x xs)
  from build_rows_step [OF assms(3), of has_entry scan pairs x csr csc] Cons.prems(2,3)
  obtain csr1 csc1 where
    one: "(build_rows tis pairs x (csr, csc) :: 'e index_error + _) = Inr (csr1, csc1)"
      "\<And>csr'' csc''. hm_get csr'' (fst x) = hm_get csr1 (fst x) \<Longrightarrow>
         hm_get csc'' (fst x) = hm_get csc1 (fst x) \<Longrightarrow>
         adjacency has_entry scan \<lparr>gi_type_indices = tis, gi_csr = csr'', gi_csc = csc''\<rparr> x"
      "\<And>k. k \<noteq> fst x \<Longrightarrow> hm_get csr1 k = hm_get csr k \<and> hm_get csc1 k = hm_get csc k"
    by auto
  from Cons.IH [of csr1 csc1] Cons.prems obtain csr2 csc2 where
    two: "(r_fold (build_rows tis pairs) xs (csr1, csc1) :: 'e index_error + _) = Inr (csr2, csc2)"
      "\<forall>x \<in> set xs. adjacency has_entry scan \<lparr>gi_type_indices = tis, gi_csr = csr2, gi_csc = csc2\<rparr> x"
      "\<forall>k. k \<notin> fst ` set xs \<longrightarrow> hm_get csr2 k = hm_get csr1 k \<and> hm_get csc2 k = hm_get csc1 k"
    by auto
  have "fst x \<notin> fst ` set xs" using Cons.prems(1) by auto
  with two(3) have "adjacency has_entry scan \<lparr>gi_type_indices = tis, gi_csr = csr2, gi_csc = csc2\<rparr> x"
    by (intro one(2)) auto
  with one(1) two one(3) show ?case
    by (intro exI [of _ csr2] exI [of _ csc2]) auto
qed simp

section \<open>The index answers as the tables do\<close>

text \<open>
  A type index is a numbering: after any sequence of insertions of fewer than two to the power of
  32 identifiers, every inserted identifier has a number, the number leads inc to it, and no number
  in range is unused.
\<close>

theorem type_index_is_numbering:
  assumes "length ids < 2 ^ 32"
  shows "let t = fold (\<lambda>i t. snd (get_or_insert i t)) ids type_index_new in
     (\<forall>i d. to_dense t i = Some d \<longleftrightarrow> to_id t d = Some i) \<and>
     (\<forall>i. to_dense t i \<noteq> None \<longleftrightarrow> i \<in> set ids) \<and>
     type_index_len t = card (set ids)"
proof -
  let ?ins = "fold (\<lambda>i t. snd (get_or_insert i t))"
  have new: "ti_dense_to_id type_index_new = []" by (simp add: type_index_new_def)
  have "ti_wf (?ins ids t) \<and> type_index_len (?ins ids t) \<le> type_index_len t + length ids \<and>
      set (ti_dense_to_id (?ins ids t)) = set (ti_dense_to_id t) \<union> set ids"
    if "ti_wf t" "type_index_len t + length ids < 2 ^ 32" for t
    using that
  proof (induction ids arbitrary: t)
    case (Cons i ids)
    obtain d t' where get: "get_or_insert i t = (d, t')" by (cases "get_or_insert i t")
    note ok = get_or_insert_ok [OF Cons.prems(1) _ get]
    have "set (ti_dense_to_id t') = insert i (set (ti_dense_to_id t))"
      using get Cons.prems(1) to_dense_None [OF Cons.prems(1), of i]
      by (auto simp: get_or_insert_def to_dense_def Let_def split: option.splits)
    with Cons.IH [of t'] ok Cons.prems(2) show ?case by (auto simp: get)
  qed simp
  from this [of type_index_new] assms have wf: "ti_wf (?ins ids type_index_new)"
    and ids: "set (ti_dense_to_id (?ins ids type_index_new)) = set ids"
    by (simp_all add: type_index_len_def new)
  from wf have "type_index_len (?ins ids type_index_new) = card (set ids)"
    using ids distinct_card by (fastforce simp: ti_wf_def type_index_len_def)
  moreover have "\<forall>i. to_dense (?ins ids type_index_new) i \<noteq> None \<longleftrightarrow> i \<in> set ids"
    by (simp only: to_dense_None [OF wf] ids simp_thms)
  ultimately show ?thesis by (simp only: Let_def to_dense_iff [OF wf] simp_thms)
qed

text \<open>
  C17: the index of a graph answers adjacency queries as a scan of the edge tables would. Building
  succeeds for tables of fewer than two to the power of 31 rows in all, every endpoint of a row has a
  number, and for each edge type the neighbours of a numbered node, read inc as identifiers, are the
  other ends of the rows that start (for the incoming index: end) at it, in table order.
\<close>

theorem graph_index_answers_as_tables:
  fixes scan :: "string \<Rightarrow> 'e + record_batch list"
  assumes "distinct (map fst edge_types)"
    and "list_all (\<lambda>x. table_ok has_entry scan (fst x)) edge_types"
    and "2 * sum_list (map (\<lambda>x. row_count has_entry scan (fst x)) edge_types) < 2 ^ 32"
  shows "\<exists>g. graph_index_build has_entry scan edge_types = Inr g \<and>
     list_all (adjacency has_entry scan g) edge_types"
proof -
  let ?total = "2 * sum_list (map (\<lambda>x. row_count has_entry scan (fst x)) edge_types)"
  have "sized 0 hm_empty" by (simp add: sized_def)
  from index_tables_ok [OF assms(1,2) this, of hm_empty] assms(3)
  obtain tis pairs where
    one: "r_fold (index_edge_table has_entry scan) edge_types (hm_empty, hm_empty) = Inr (tis, pairs)"
      "sized ?total tis" "\<forall>x \<in> set edge_types. indexed has_entry scan tis pairs x"
    by auto
  have few: "row_count has_entry scan (fst x) < 2 ^ 32" if "x \<in> set edge_types" for x
  proof -
    have "row_count has_entry scan (fst x) \<in> set (map (\<lambda>x. row_count has_entry scan (fst x)) edge_types)"
      using that by auto
    from member_le_sum_list [OF this] assms(3) show ?thesis by simp
  qed
  from one(3) have "indexed has_entry scan tis pairs x" if "x \<in> set edge_types" for x
    using that by blast
  from build_rows_ok [OF assms(1) this one(2) few, of hm_empty hm_empty]
  obtain csr csc where
    "(r_fold (build_rows tis pairs) edge_types (hm_empty, hm_empty) :: 'e index_error + _) = Inr (csr, csc)"
    "\<forall>x \<in> set edge_types. adjacency has_entry scan \<lparr>gi_type_indices = tis, gi_csr = csr, gi_csc = csc\<rparr> x"
    by blast
  with one(1) show ?thesis by (auto simp: graph_index_build_def list_all_iff)
qed

lemma count_edges_panics:
  "length counts = n \<Longrightarrow> \<not> sources_below n edges \<Longrightarrow> r_fold count_edge edges counts = Inl IndexPanic"
proof (induction edges arbitrary: counts)
  case (Cons e es)
  show ?case
  proof (cases "unat (fst e) < n")
    case True
    with Cons show ?thesis by (simp add: count_edge_def sources_below_def)
  qed (use Cons.prems(1) in \<open>simp add: count_edge_def vec_get_def\<close>)
qed (simp add: sources_below_def)

lemma neighbors_panics:
  assumes "length (csr_offsets c) = Suc n" and "n \<le> unat v"
  shows "neighbors c v = Inl IndexPanic"
  using assms by (cases "unat v = n") (simp_all add: neighbors_def vec_get_def)

text \<open>
  Compressed sparse rows list the successors of every node in edge order: for fewer than two to
  the power of 32 edges, building panics exactly when a source is out of range, and otherwise asking
  for a node in range gives the targets of its edges, one out of range panics.
\<close>

theorem csr_lists_successors:
  assumes "length edges < 2 ^ 32"
  shows "case csr_build n edges of
       Inl err \<Rightarrow> err = IndexPanic \<and> \<not> sources_below n edges
     | Inr c \<Rightarrow> sources_below n edges \<and>
         (\<forall>v. neighbors c v =
            (if unat v < n then Inr (map snd (filter (\<lambda>e. fst e = v) edges))
             else (Inl IndexPanic :: unit index_error + u32 list)))"
proof (cases "sources_below n edges")
  case True
  note built = csr_build_ok [OF True assms]
  have row: "succs edges (unat v) = map snd (filter (\<lambda>e. fst e = v) edges)" for v
    by (simp add: succs_def word_unat_eq_iff)
  show ?thesis
    using True
    by (simp add: built neighbors_ok(1) [OF True assms _ built] row neighbors_panics not_less
        del: upt_Suc of_nat_sum)
next
  case False
  then show ?thesis by (simp add: csr_build_def count_edges_def count_edges_panics)
qed

end
