(* ===== verification/Sample_Index.thy ===== *)
theory Sample_Index
  imports Graph_Index_Build
begin

text \<open>The theorems on the topology index at concrete tables.\<close>

definition sample_batch :: "string list \<Rightarrow> string list \<Rightarrow> record_batch" where
  "sample_batch ss ds =
     \<lparr>rb_columns = [(''src'', Utf8Column ss), (''dst'', Utf8Column ds)], rb_num_rows = length ss\<rparr>"

definition sample_scan :: "string \<Rightarrow> string + record_batch list" where
  "sample_scan key =
     (if key = ''edge:Knows''
      then Inr [sample_batch [''ann'', ''bob''] [''bob'', ''ann''], sample_batch [''ann''] [''cid'']]
      else if key = ''edge:Lives'' then Inr [sample_batch [''ann''] [''rome'']]
      else Inl ''no such table'')"

definition sample_entry :: "string \<Rightarrow> bool" where
  "sample_entry key \<longleftrightarrow> key \<in> {''edge:Knows'', ''edge:Lives''}"

definition sample_edge_types :: edge_types where
  "sample_edge_types =
     [(''Knows'', ''Person'', ''Person''), (''Owns'', ''Person'', ''Thing''),
      (''Lives'', ''Person'', ''City'')]"

theorem type_index_is_numbering_witness:
  "type_index_len (fold (\<lambda>i t. snd (get_or_insert i t)) [''ann'', ''bob'', ''ann''] type_index_new) = 2"
  using type_index_is_numbering [of "[''ann'', ''bob'', ''ann'']"] by (simp add: Let_def card_insert_if)

theorem csr_lists_successors_witness:
  "\<exists>c. csr_build 3 [(0, 1), (1, 2), (0, 2)] = (Inr c :: string index_error + csr_index) \<and>
     neighbors c 0 = (Inr [1, 2] :: unit index_error + u32 list)"
proof -
  let ?es = "[(0, 1), (1, 2), (0, 2)] :: (u32 \<times> u32) list"
  obtain c where c: "csr_build 3 ?es = (Inr c :: string index_error + csr_index)"
    by (simp add: csr_build_ok sources_below_def)
  have "case (csr_build 3 ?es :: string index_error + csr_index) of
       Inl err \<Rightarrow> err = IndexPanic \<and> \<not> sources_below 3 ?es
     | Inr c \<Rightarrow> sources_below 3 ?es \<and>
         (\<forall>v. neighbors c v =
            (if unat v < 3 then Inr (map snd (filter (\<lambda>e. fst e = v) ?es))
             else (Inl IndexPanic :: unit index_error + u32 list)))"
    by (rule csr_lists_successors) simp
  then have "neighbors c 0 = (Inr (map snd (filter (\<lambda>e. fst e = 0) ?es)) :: unit index_error + u32 list)"
    unfolding c by simp
  then show ?thesis by (simp add: c)
qed

theorem graph_index_answers_as_tables_witness:
  "\<exists>g. graph_index_build sample_entry sample_scan sample_edge_types = Inr g \<and>
     list_all (adjacency sample_entry sample_scan g) sample_edge_types \<and>
     edge_rows sample_scan ''Knows'' = [(''ann'', ''bob''), (''bob'', ''ann''), (''ann'', ''cid'')]"
proof -
  have "distinct (map fst sample_edge_types)" by code_simp
  moreover have "list_all (\<lambda>x. table_ok sample_entry sample_scan (fst x)) sample_edge_types" by code_simp
  moreover have "sum_list (map (\<lambda>x. row_count sample_entry sample_scan (fst x)) sample_edge_types) = 4"
    by code_simp
  then have "2 * sum_list (map (\<lambda>x. row_count sample_entry sample_scan (fst x)) sample_edge_types) < 2 ^ 32"
    by simp
  ultimately have "\<exists>g. graph_index_build sample_entry sample_scan sample_edge_types = Inr g \<and>
     list_all (adjacency sample_entry sample_scan g) sample_edge_types"
    by (rule graph_index_answers_as_tables)
  moreover have "edge_rows sample_scan ''Knows'' =
      [(''ann'', ''bob''), (''bob'', ''ann''), (''ann'', ''cid'')]" by code_simp
  ultimately show ?thesis by blast
qed

end
