(* ===== verification/Branch_Control.thy ===== *)
theory Branch_Control
  imports Ordered_Map "HOL-Library.Sublist"
begin

text \<open>
  Creating and deleting branches over Lance's two-phase native controls
  (\<^verbatim>\<open>omnigraph/src/branch_control.rs\<close>). Lance is not part of the repository: its calls are the
  fields of the record \<open>lance\<close>, functions of a store of arbitrary type \<open>'s\<close> that may fail and may
  change the store whether they fail or not. Error messages are kept as the values they are built
  from; log output is left out.
\<close>

section \<open>Computations over the store\<close>

type_synonym ('s, 'e, 'a) act = "'s \<Rightarrow> ('e + 'a) \<times> 's"

definition act_return :: "'a \<Rightarrow> ('s, 'e, 'a) act" where
  "act_return x s = (Inr x, s)"

definition act_fail :: "'e \<Rightarrow> ('s, 'e, 'a) act" where
  "act_fail e s = (Inl e, s)"

text \<open>\<open>act_match\<close> runs a call and goes on with its result, failed or not; \<open>act_bind\<close> is \<^verbatim>\<open>?\<close>.\<close>

definition act_match :: "('s, 'e, 'a) act \<Rightarrow> ('e + 'a \<Rightarrow> ('s, 'f, 'b) act) \<Rightarrow> ('s, 'f, 'b) act" where
  "act_match m f s = (case m s of (r, s') \<Rightarrow> f r s')"

definition act_bind :: "('s, 'e, 'a) act \<Rightarrow> ('a \<Rightarrow> ('s, 'e, 'b) act) \<Rightarrow> ('s, 'e, 'b) act" where
  "act_bind m f = act_match m (\<lambda>r. case r of Inl e \<Rightarrow> act_fail e | Inr x \<Rightarrow> f x)"

definition act_map_err :: "('e \<Rightarrow> 'f) \<Rightarrow> ('s, 'e, 'a) act \<Rightarrow> ('s, 'f, 'a) act" where
  "act_map_err g m = act_match m (\<lambda>r. case r of Inl e \<Rightarrow> act_fail (g e) | Inr x \<Rightarrow> act_return x)"

section \<open>Data\<close>

type_synonym branch_identifier = "(u64 \<times> string) list"

record branch_contents =
  bc_parent_branch :: "string option"
  bc_identifier :: branch_identifier
  bc_parent_version :: u64

datatype lance_error = RefNotFound | NotFound | OtherLance string

datatype branch_error =
    Lance lance_error
  | PathShared string string
  | SourceMoved u64 u64
  | ReadSetChanged string "string option" "string option"
  | AuthorityChanged string
  | EncodingFailed string
  | Injected string
  | Unclassified branch_error branch_error
  | Unopenable lance_error branch_error
  | CleanupFailed branch_error branch_error
  | UnreachablePanic

text \<open>A dataset handle that a call gives back stands for the branch it is checked out on.\<close>

datatype branch_create_outcome = Created string | RefAlreadyExists

record 's lance =
  ln_check_valid_branch :: "string \<Rightarrow> lance_error + unit"
  ln_version :: "'s \<Rightarrow> u64"
  ln_manifest_branch :: "'s \<Rightarrow> string option"
  ln_branch_identifier :: "('s, lance_error, branch_identifier) act"
  ln_list_branches :: "('s, lance_error, (string, branch_contents) hmap) act"
  ln_create_branch :: "string \<Rightarrow> u64 \<Rightarrow> ('s, lance_error, unit) act"
  ln_delete_branch :: "string \<Rightarrow> ('s, lance_error, unit) act"
  ln_force_delete_branch :: "string \<Rightarrow> ('s, lance_error, unit) act"
  ln_checkout_branch :: "string \<Rightarrow> ('s, lance_error, unit) act"
  ln_encode_identifier :: "branch_identifier \<Rightarrow> string + string"
  ln_fail_point :: "string \<Rightarrow> 's \<Rightarrow> bool"

section \<open>Names that share a path\<close>

definition least_string :: "string list \<Rightarrow> string option" where
  "least_string xs = (case sort xs of [] \<Rightarrow> None | x # _ \<Rightarrow> Some x)"

definition path_descendant :: "(string, branch_contents) hmap \<Rightarrow> string \<Rightarrow> string option" where
  "path_descendant branches branch =
     least_string (filter (\<lambda>candidate. prefix (branch @ ''/'') candidate) (hm_keys branches))"

definition path_collision :: "(string, branch_contents) hmap \<Rightarrow> string \<Rightarrow> string option" where
  "path_collision branches branch =
     least_string (filter (\<lambda>candidate.
       candidate \<noteq> branch \<and> candidate \<noteq> ''main'' \<and>
       (prefix (branch @ ''/'') candidate \<or> prefix (candidate @ ''/'') branch)) (hm_keys branches))"

section \<open>Reading and reclaiming\<close>

definition maybe_fail :: "('s, 'x) lance_scheme \<Rightarrow> string \<Rightarrow> ('s, branch_error, unit) act" where
  "maybe_fail l name s = (if ln_fail_point l name s then Inl (Injected name) else Inr (), s)"

definition list_branch_contents ::
    "('s, 'x) lance_scheme \<Rightarrow> ('s, branch_error, (string, branch_contents) hmap) act" where
  "list_branch_contents l = act_map_err Lance (ln_list_branches l)"

definition branch_contents_of ::
    "('s, 'x) lance_scheme \<Rightarrow> string \<Rightarrow> ('s, branch_error, branch_contents option) act" where
  "branch_contents_of l branch =
     act_bind (list_branch_contents l) (\<lambda>m. act_return (hm_get m branch))"

definition force_delete_branch_tree_unchecked ::
    "('s, 'x) lance_scheme \<Rightarrow> string \<Rightarrow> ('s, branch_error, unit) act" where
  "force_delete_branch_tree_unchecked l branch =
     act_match (ln_force_delete_branch l branch) (\<lambda>r.
       case r of
         Inr u \<Rightarrow> act_return ()
       | Inl RefNotFound \<Rightarrow> act_return ()
       | Inl NotFound \<Rightarrow> act_return ()
       | Inl e \<Rightarrow> act_fail (Lance e))"

definition force_delete_branch_idempotent ::
    "('s, 'x) lance_scheme \<Rightarrow> string \<Rightarrow> ('s, branch_error, unit) act" where
  "force_delete_branch_idempotent l branch =
     act_bind (list_branch_contents l) (\<lambda>branches.
     case path_descendant branches branch of
       Some child \<Rightarrow> act_fail (PathShared branch child)
     | None \<Rightarrow> force_delete_branch_tree_unchecked l branch)"

definition encode_identifier ::
    "('s, 'x) lance_scheme \<Rightarrow> branch_identifier \<Rightarrow> ('s, branch_error, string) act" where
  "encode_identifier l i =
     (case ln_encode_identifier l i of
        Inl e \<Rightarrow> act_fail (EncodingFailed e) | Inr j \<Rightarrow> act_return j)"

definition branch_member :: "string \<Rightarrow> string" where
  "branch_member branch = ''branch_identifier:'' @ branch"

text \<open>The first result is an error of its own, the second the error to report.\<close>

definition authority_appeared_after_absence ::
    "('s, 'x) lance_scheme \<Rightarrow> string \<Rightarrow> ('s, branch_error, branch_error) act" where
  "authority_appeared_after_absence l branch =
     act_bind (branch_contents_of l branch) (\<lambda>c.
     case c of
       Some contents \<Rightarrow>
         act_bind (encode_identifier l (bc_identifier contents)) (\<lambda>j.
         act_return (ReadSetChanged (branch_member branch) None (Some j)))
     | None \<Rightarrow> act_return (AuthorityChanged branch))"

definition reclaim_ref_absent_tree ::
    "('s, 'x) lance_scheme \<Rightarrow> string \<Rightarrow> ('s, branch_error, bool) act" where
  "reclaim_ref_absent_tree l branch =
     act_bind (list_branch_contents l) (\<lambda>branches.
     if hm_contains branches branch then act_return False
     else
       case path_descendant branches branch of
         Some child \<Rightarrow> act_fail (PathShared branch child)
       | None \<Rightarrow>
           act_bind (force_delete_branch_tree_unchecked l branch) (\<lambda>_. act_return True))"

section \<open>Creating\<close>

definition matches_create_expectation ::
    "branch_contents \<Rightarrow> string option \<Rightarrow> u64 \<Rightarrow> branch_identifier \<Rightarrow> bool" where
  "matches_create_expectation contents parent_branch parent_version parent_identifier \<longleftrightarrow>
     bc_parent_branch contents = (if parent_branch = Some ''main'' then None else parent_branch) \<and>
     bc_parent_version contents = parent_version \<and>
     length (bc_identifier contents) = length parent_identifier + 1 \<and>
     prefix parent_identifier (bc_identifier contents) \<and>
     bc_identifier contents \<noteq> [] \<and>
     fst (last (bc_identifier contents)) = parent_version \<and>
     snd (last (bc_identifier contents)) \<noteq> []"

definition refuse_appeared ::
    "('s, 'x) lance_scheme \<Rightarrow> string \<Rightarrow> ('s, branch_error, 'a) act" where
  "refuse_appeared l branch = act_bind (authority_appeared_after_absence l branch) act_fail"

text \<open>What an attempt does after the native call failed with \<open>native_error\<close>.\<close>

definition classify_create ::
    "('s, 'x) lance_scheme \<Rightarrow> string \<Rightarrow> u64 \<Rightarrow> string option \<Rightarrow> branch_identifier \<Rightarrow> branch_error \<Rightarrow>
       ('s, branch_error, branch_create_outcome) act \<Rightarrow>
       ('s, branch_error, branch_create_outcome) act" where
  "classify_create l branch source_version parent_branch parent_identifier native_error retry =
     act_bind (act_map_err (Unclassified native_error) (branch_contents_of l branch)) (\<lambda>observed.
     case observed of
       Some contents \<Rightarrow>
         if \<not> matches_create_expectation contents parent_branch source_version parent_identifier
         then act_bind (encode_identifier l (bc_identifier contents)) (\<lambda>j.
              act_fail (ReadSetChanged (branch_member branch) None (Some j)))
         else act_bind (act_map_err (\<lambda>e. Unopenable e native_error) (ln_checkout_branch l branch))
                (\<lambda>_. act_return (Created branch))
     | None \<Rightarrow>
         act_match (reclaim_ref_absent_tree l branch) (\<lambda>r.
         case r of
           Inr True \<Rightarrow> retry
         | Inr False \<Rightarrow> refuse_appeared l branch
         | Inl cleanup_error \<Rightarrow> act_fail (CleanupFailed native_error cleanup_error)))"

fun create_attempts ::
    "('s, 'x) lance_scheme \<Rightarrow> string \<Rightarrow> u64 \<Rightarrow> string option \<Rightarrow> branch_identifier \<Rightarrow> nat list \<Rightarrow>
       ('s, branch_error, branch_create_outcome) act" where
  "create_attempts l branch source_version parent_branch parent_identifier [] =
     act_fail UnreachablePanic"
| "create_attempts l branch source_version parent_branch parent_identifier (attempt # attempts) =
     act_match
       (act_bind (act_map_err Lance (ln_create_branch l branch source_version))
         (\<lambda>_. maybe_fail l ''branch_create.post_native''))
       (\<lambda>r. case r of
          Inr u \<Rightarrow> act_return (Created branch)
        | Inl native_error \<Rightarrow>
            classify_create l branch source_version parent_branch parent_identifier native_error
              (if attempt = 1 then act_fail native_error
               else create_attempts l branch source_version parent_branch parent_identifier attempts))"

definition create_branch_recoverably ::
    "('s, 'x) lance_scheme \<Rightarrow> string \<Rightarrow> u64 \<Rightarrow> ('s, branch_error, branch_create_outcome) act" where
  "create_branch_recoverably l branch source_version s =
     (case ln_check_valid_branch l branch of
        Inl e \<Rightarrow> (Inl (Lance e), s)
      | Inr u \<Rightarrow>
          if ln_version l s \<noteq> source_version
          then (Inl (SourceMoved source_version (ln_version l s)), s)
          else
            let parent_branch = ln_manifest_branch l s in
            act_bind (act_map_err Lance (ln_branch_identifier l)) (\<lambda>parent_identifier.
            act_bind (list_branch_contents l) (\<lambda>initial_branches.
            if hm_contains initial_branches branch then act_return RefAlreadyExists
            else
              case path_collision initial_branches branch of
                Some conflicting \<Rightarrow> act_fail (PathShared branch conflicting)
              | None \<Rightarrow>
                  act_bind (reclaim_ref_absent_tree l branch) (\<lambda>reclaimed.
                  if \<not> reclaimed then refuse_appeared l branch
                  else create_attempts l branch source_version parent_branch parent_identifier [0, 1])))
            s)"

section \<open>Deleting\<close>

text \<open>The ref is gone: reclaim the tree if that is possible, and report success.\<close>

definition finish_delete :: "('s, 'x) lance_scheme \<Rightarrow> string \<Rightarrow> ('s, branch_error, unit) act" where
  "finish_delete l branch =
     act_match (reclaim_ref_absent_tree l branch) (\<lambda>r.
     case r of
       Inr True \<Rightarrow> act_return ()
     | Inr False \<Rightarrow> refuse_appeared l branch
     | Inl cleanup_error \<Rightarrow> act_return ())"

definition refuse_identifier ::
    "('s, 'x) lance_scheme \<Rightarrow> string \<Rightarrow> branch_identifier \<Rightarrow> branch_identifier \<Rightarrow>
       ('s, branch_error, 'a) act" where
  "refuse_identifier l branch expected actual =
     act_bind (encode_identifier l expected) (\<lambda>e.
     act_bind (encode_identifier l actual) (\<lambda>a.
     act_fail (ReadSetChanged (branch_member branch) (Some e) (Some a))))"

definition classify_delete ::
    "('s, 'x) lance_scheme \<Rightarrow> string \<Rightarrow> branch_identifier \<Rightarrow> branch_error \<Rightarrow>
       ('s, branch_error, unit) act" where
  "classify_delete l branch expected_identifier native_error =
     act_bind (act_map_err (Unclassified native_error) (branch_contents_of l branch)) (\<lambda>observed.
     case observed of
       None \<Rightarrow> finish_delete l branch
     | Some contents \<Rightarrow>
         if bc_identifier contents = expected_identifier then act_fail native_error
         else refuse_identifier l branch expected_identifier (bc_identifier contents))"

text \<open>The native deletion of a ref that has the expected identifier.\<close>

definition delete_native ::
    "('s, 'x) lance_scheme \<Rightarrow> string \<Rightarrow> branch_identifier \<Rightarrow> ('s, branch_error, unit) act" where
  "delete_native l branch expected_identifier =
     act_match
       (act_bind (act_map_err Lance (ln_delete_branch l branch))
         (\<lambda>_. maybe_fail l ''branch_delete.post_native''))
       (\<lambda>native_result.
        case native_result of
          Inr u \<Rightarrow> act_return ()
        | Inl native_error \<Rightarrow> classify_delete l branch expected_identifier native_error)"

definition delete_branch_recoverably ::
    "('s, 'x) lance_scheme \<Rightarrow> string \<Rightarrow> branch_identifier \<Rightarrow> ('s, branch_error, unit) act" where
  "delete_branch_recoverably l branch expected_identifier =
     act_bind (list_branch_contents l) (\<lambda>initial.
     case hm_get initial branch of
       None \<Rightarrow> finish_delete l branch
     | Some initial_contents \<Rightarrow>
         if bc_identifier initial_contents \<noteq> expected_identifier
         then refuse_identifier l branch expected_identifier (bc_identifier initial_contents)
         else
           case path_descendant initial branch of
             Some child \<Rightarrow> act_fail (PathShared branch child)
           | None \<Rightarrow> delete_native l branch expected_identifier)"

end
