(* ===== verification/Branch_Control_Properties.thy ===== *)
theory Branch_Control_Properties
  imports Branch_Control
begin

text \<open>
  What branch control guarantees over a store that obeys Lance's documented contract, whatever call
  fails and whether or not a failed call took effect. Proofs run over a small logic of pre- and
  postconditions for computations on the store.
\<close>

section \<open>Pre- and postconditions\<close>

definition valid :: "('s \<Rightarrow> bool) \<Rightarrow> ('s, 'e, 'a) act \<Rightarrow> ('e + 'a \<Rightarrow> 's \<Rightarrow> bool) \<Rightarrow> bool" where
  "valid P m Q \<longleftrightarrow> (\<forall>s r s'. P s \<longrightarrow> m s = (r, s') \<longrightarrow> Q r s')"

lemma valid_return: "(\<And>s. P s \<Longrightarrow> Q (Inr x) s) \<Longrightarrow> valid P (act_return x) Q"
  by (simp add: valid_def act_return_def)

lemma valid_fail: "(\<And>s. P s \<Longrightarrow> Q (Inl e) s) \<Longrightarrow> valid P (act_fail e) Q"
  by (simp add: valid_def act_fail_def)

lemma valid_match:
  "valid P m R \<Longrightarrow> (\<And>r. valid (R r) (f r) Q) \<Longrightarrow> valid P (act_match m f) Q"
  by (fastforce simp: valid_def act_match_def split: prod.splits)

lemma valid_bind:
  assumes "valid P m R" and "\<And>e s. R (Inl e) s \<Longrightarrow> Q (Inl e) s" and "\<And>x. valid (R (Inr x)) (f x) Q"
  shows "valid P (act_bind m f) Q"
  unfolding act_bind_def
  by (rule valid_match [OF assms(1)]) (use assms(2,3) in \<open>auto split: sum.splits intro: valid_fail\<close>)

lemma valid_map_err:
  assumes "valid P m (\<lambda>r. case r of Inl e \<Rightarrow> Q (Inl (g e)) | Inr x \<Rightarrow> Q (Inr x))"
  shows "valid P (act_map_err g m) Q"
  unfolding act_map_err_def
  by (rule valid_match [OF assms]) (auto split: sum.splits intro: valid_fail valid_return)

lemma valid_post: "valid P m Q \<Longrightarrow> (\<And>r s. Q r s \<Longrightarrow> Q' r s) \<Longrightarrow> valid P m Q'"
  by (auto simp: valid_def)

lemma valid_pre: "valid P m Q \<Longrightarrow> (\<And>s. P' s \<Longrightarrow> P s) \<Longrightarrow> valid P' m Q"
  by (auto simp: valid_def)

lemma valid_weaken:
  "valid P m Q \<Longrightarrow> (\<And>s. P' s \<Longrightarrow> P s) \<Longrightarrow> (\<And>r s. Q r s \<Longrightarrow> Q' r s) \<Longrightarrow> valid P' m Q'"
  unfolding valid_def by blast

lemma valid_False [simp]: "valid (\<lambda>s. False) m Q"
  by (simp add: valid_def)

text \<open>A call that changes nothing and gives back the value \<open>x\<close> if it succeeds.\<close>

lemma valid_read:
  assumes "valid P m (\<lambda>r s. P s \<and> (\<forall>y. r = Inr y \<longrightarrow> y = x) \<and> r \<noteq> Inl UnreachablePanic)"
    and "\<And>e s. P s \<Longrightarrow> e \<noteq> UnreachablePanic \<Longrightarrow> Q (Inl e) s" and "valid P (f x) Q"
  shows "valid P (act_bind m f) Q"
proof (rule valid_bind [OF assms(1)])
  fix y
  show "valid (\<lambda>s. P s \<and> (\<forall>z. Inr y = Inr z \<longrightarrow> z = x) \<and> Inr y \<noteq> Inl UnreachablePanic) (f y) Q"
    using assms(3) by (cases "y = x") simp_all
qed (use assms(2) in blast)

lemma validD: "valid P m Q \<Longrightarrow> P s \<Longrightarrow> Q (fst (m s)) (snd (m s))"
  by (simp add: valid_def)

lemma valid_by_cases:
  assumes "\<And>s0. P s0 \<Longrightarrow> valid (\<lambda>s. s = s0) m Q"
  shows "valid P m Q"
  using assms by (auto simp: valid_def)

section \<open>The store\<close>

text \<open>
  Lance's contract, for a view \<open>refs\<close> of the authoritative refs and \<open>ident\<close> of the identifier of the
  branch the handle is on. Listing, reading the identifier and opening a branch change neither refs
  nor handle. The destructive calls touch the named ref only; a deletion that succeeds removes it,
  one that fails may have. Creation succeeds only where there was no ref and records the parent's
  identifier extended by one fresh entry. Of a creation that fails nothing is known but that it
  replaced no ref: it may have done nothing, or a ref of any contents, its own or that of a
  concurrent creator, may stand under the name.
\<close>

definition same_handle :: "('s, 'x) lance_scheme \<Rightarrow> ('s \<Rightarrow> branch_identifier) \<Rightarrow> 's \<Rightarrow> 's \<Rightarrow> bool" where
  "same_handle l ident s s' \<longleftrightarrow>
     ln_version l s' = ln_version l s \<and> ln_manifest_branch l s' = ln_manifest_branch l s \<and>
     ident s' = ident s"

definition created_ref ::
    "('s, 'x) lance_scheme \<Rightarrow> ('s \<Rightarrow> branch_identifier) \<Rightarrow> u64 \<Rightarrow> 's \<Rightarrow> branch_contents \<Rightarrow> bool" where
  "created_ref l ident v s c \<longleftrightarrow>
     bc_parent_branch c = (if ln_manifest_branch l s = Some ''main'' then None else ln_manifest_branch l s) \<and>
     bc_parent_version c = v \<and> (\<exists>uuid. uuid \<noteq> [] \<and> bc_identifier c = ident s @ [(v, uuid)])"

text \<open>The check of the code recognises exactly the refs that descend from the handle's branch.\<close>

lemma matches_iff_created:
  "matches_create_expectation c (ln_manifest_branch l s) v (ident s) \<longleftrightarrow> created_ref l ident v s c"
proof -
  have "length i = length p + 1 \<and> prefix p i \<and> i \<noteq> [] \<and> fst (last i) = v \<and> snd (last i) \<noteq> [] \<longleftrightarrow>
      (\<exists>uuid. uuid \<noteq> [] \<and> i = p @ [(v, uuid)])" for i p :: branch_identifier
  proof
    assume i: "length i = length p + 1 \<and> prefix p i \<and> i \<noteq> [] \<and> fst (last i) = v \<and> snd (last i) \<noteq> []"
    then obtain zs where zs: "i = p @ zs" by (auto simp: prefix_def)
    with i obtain z where "zs = [z]" by (cases zs) auto
    with i zs show "\<exists>uuid. uuid \<noteq> [] \<and> i = p @ [(v, uuid)]" by (cases z) auto
  qed auto
  then show ?thesis unfolding matches_create_expectation_def created_ref_def by blast
qed

definition reading_laws ::
    "('s, 'x) lance_scheme \<Rightarrow> ('s \<Rightarrow> string \<rightharpoonup> branch_contents) \<Rightarrow> ('s \<Rightarrow> branch_identifier) \<Rightarrow> bool" where
  "reading_laws l refs ident \<longleftrightarrow>
     (\<forall>s r s'. ln_list_branches l s = (r, s') \<longrightarrow>
        refs s' = refs s \<and> same_handle l ident s s' \<and> (\<forall>m. r = Inr m \<longrightarrow> hm_get m = refs s)) \<and>
     (\<forall>s r s'. ln_branch_identifier l s = (r, s') \<longrightarrow>
        refs s' = refs s \<and> same_handle l ident s s' \<and> (\<forall>i. r = Inr i \<longrightarrow> i = ident s)) \<and>
     (\<forall>s r s' b. ln_checkout_branch l b s = (r, s') \<longrightarrow> refs s' = refs s)"

definition deleting_laws ::
    "('s, 'x) lance_scheme \<Rightarrow> ('s \<Rightarrow> string \<rightharpoonup> branch_contents) \<Rightarrow> ('s \<Rightarrow> branch_identifier) \<Rightarrow> bool" where
  "deleting_laws l refs ident \<longleftrightarrow>
     (\<forall>s r s' b. ln_force_delete_branch l b s = (r, s') \<longrightarrow>
        same_handle l ident s s' \<and> (refs s' = refs s \<or> refs s' = (refs s)(b := None))) \<and>
     (\<forall>s r s' b. ln_delete_branch l b s = (r, s') \<longrightarrow>
        same_handle l ident s s' \<and> (refs s' = refs s \<or> refs s' = (refs s)(b := None)) \<and>
        (\<not> isl r \<longrightarrow> refs s' b = None))"

definition creating_law ::
    "('s, 'x) lance_scheme \<Rightarrow> ('s \<Rightarrow> string \<rightharpoonup> branch_contents) \<Rightarrow> ('s \<Rightarrow> branch_identifier) \<Rightarrow> bool" where
  "creating_law l refs ident \<longleftrightarrow>
     (\<forall>s r s' b v. ln_create_branch l b v s = (r, s') \<longrightarrow>
        same_handle l ident s s' \<and>
        (refs s' = refs s \<and> isl r \<or>
         refs s b = None \<and>
           (\<exists>c. (\<not> isl r \<longrightarrow> created_ref l ident v s c) \<and> refs s' = (refs s)(b \<mapsto> c))))"

definition lance_laws ::
    "('s, 'x) lance_scheme \<Rightarrow> ('s \<Rightarrow> string \<rightharpoonup> branch_contents) \<Rightarrow> ('s \<Rightarrow> branch_identifier) \<Rightarrow> bool" where
  "lance_laws l refs ident \<longleftrightarrow>
     reading_laws l refs ident \<and> deleting_laws l refs ident \<and> creating_law l refs ident"

lemma checkout_refs:
  "lance_laws l refs ident \<Longrightarrow> ln_checkout_branch l b s = (r, s') \<Longrightarrow> refs s' = refs s"
  unfolding lance_laws_def reading_laws_def by blast

text \<open>The refs and the handle as they were.\<close>

abbreviation at ::
    "('s, 'x) lance_scheme \<Rightarrow> ('s \<Rightarrow> string \<rightharpoonup> branch_contents) \<Rightarrow> ('s \<Rightarrow> branch_identifier) \<Rightarrow>
       's \<Rightarrow> (string \<rightharpoonup> branch_contents) \<Rightarrow> 's \<Rightarrow> bool" where
  "at l refs ident s0 R s \<equiv> same_handle l ident s0 s \<and> refs s = R"

lemma same_handle_trans: "same_handle l i a b \<Longrightarrow> same_handle l i b c \<Longrightarrow> same_handle l i a c"
  by (simp add: same_handle_def)

lemma same_handle_refl [simp]: "same_handle l i a a"
  by (simp add: same_handle_def)

lemma list_valid:
  assumes "lance_laws l refs ident"
  shows "valid (at l refs ident s0 R) (list_branch_contents l)
    (\<lambda>r s. at l refs ident s0 R s \<and> (\<forall>m. r = Inr m \<longrightarrow> hm_get m = R) \<and> r \<noteq> Inl UnreachablePanic)"
  unfolding list_branch_contents_def
  by (rule valid_map_err)
    (use assms in \<open>auto simp: valid_def lance_laws_def reading_laws_def split: sum.splits
      intro: same_handle_trans\<close>)

lemma identifier_valid:
  assumes "lance_laws l refs ident"
  shows "valid (at l refs ident s0 R) (act_map_err Lance (ln_branch_identifier l))
    (\<lambda>r s. at l refs ident s0 R s \<and> (\<forall>i. r = Inr i \<longrightarrow> i = ident s0) \<and> r \<noteq> Inl UnreachablePanic)"
  by (rule valid_map_err)
    (use assms in \<open>auto simp: valid_def lance_laws_def reading_laws_def same_handle_def split: sum.splits\<close>)

lemma contents_valid:
  assumes "lance_laws l refs ident"
  shows "valid (at l refs ident s0 R) (branch_contents_of l b)
    (\<lambda>r s. at l refs ident s0 R s \<and> (\<forall>c. r = Inr c \<longrightarrow> c = R b) \<and> r \<noteq> Inl UnreachablePanic)"
  unfolding branch_contents_of_def
  by (rule valid_bind [OF list_valid [OF assms]]) (auto intro!: valid_return)

lemma encode_valid:
  "valid P (encode_identifier l i) (\<lambda>r s. P s \<and> r \<noteq> Inl UnreachablePanic)"
  by (auto simp: encode_identifier_def split: sum.splits intro!: valid_return valid_fail)

lemma force_delete_valid:
  assumes "lance_laws l refs ident" and "R b = None"
  shows "valid (at l refs ident s0 R) (force_delete_branch_tree_unchecked l b)
    (\<lambda>r s. at l refs ident s0 R s \<and> r \<noteq> Inl UnreachablePanic)"
  unfolding force_delete_branch_tree_unchecked_def
proof (rule valid_match)
  have "R(b := None) = R" using assms(2) by auto
  then show "valid (at l refs ident s0 R) (ln_force_delete_branch l b) (\<lambda>_. at l refs ident s0 R)"
    using assms(1) unfolding valid_def lance_laws_def deleting_laws_def by (metis same_handle_trans)
qed (auto split: sum.splits lance_error.splits intro!: valid_return valid_fail)

text \<open>Reclaiming a tree never touches a ref: it stops unless the ref is absent.\<close>

lemma reclaim_valid:
  assumes "lance_laws l refs ident"
  shows "valid (at l refs ident s0 R) (reclaim_ref_absent_tree l b)
    (\<lambda>r s. at l refs ident s0 R s \<and> (r = Inr True \<longrightarrow> R b = None) \<and> (r = Inr False \<longrightarrow> R b \<noteq> None) \<and>
      r \<noteq> Inl UnreachablePanic)"
  unfolding reclaim_ref_absent_tree_def
proof (rule valid_bind [OF list_valid [OF assms]])
  fix m
  show "valid (\<lambda>s. at l refs ident s0 R s \<and> (\<forall>m'. Inr m = Inr m' \<longrightarrow> hm_get m' = R) \<and>
      Inr m \<noteq> Inl UnreachablePanic)
    (if hm_contains m b then act_return False
     else case path_descendant m b of Some child \<Rightarrow> act_fail (PathShared b child)
       | None \<Rightarrow> act_bind (force_delete_branch_tree_unchecked l b) (\<lambda>_. act_return True))
    (\<lambda>r s. at l refs ident s0 R s \<and> (r = Inr True \<longrightarrow> R b = None) \<and> (r = Inr False \<longrightarrow> R b \<noteq> None) \<and>
      r \<noteq> Inl UnreachablePanic)"
  proof (cases "hm_get m b = None \<and> hm_get m = R")
    case True
    then have none: "R b = None" by auto
    note force = force_delete_valid [where R = R and b = b and ?s0.0 = s0, OF assms none]
    have "valid (at l refs ident s0 R)
        (act_bind (force_delete_branch_tree_unchecked l b) (\<lambda>_. act_return True))
        (\<lambda>r s. at l refs ident s0 R s \<and> (r = Inr True \<longrightarrow> R b = None) \<and>
          (r = Inr False \<longrightarrow> R b \<noteq> None) \<and> r \<noteq> Inl UnreachablePanic)"
      by (rule valid_bind [OF force]) (auto intro!: valid_return simp: none)
    then show ?thesis
      using True by (auto split: option.splits simp: hm_contains_def intro!: valid_fail elim: valid_pre)
  next
    case False
    then show ?thesis
      by (cases "hm_get m = R") (auto simp: hm_contains_def valid_def act_return_def)
  qed
qed auto

lemma refuse_valid:
  assumes "lance_laws l refs ident"
  shows "valid (at l refs ident s0 R) (refuse_appeared l b)
    (\<lambda>r s. at l refs ident s0 R s \<and> isl r \<and> r \<noteq> Inl UnreachablePanic)"
proof -
  have encode: "valid (at l refs ident s0 R)
      (act_bind (encode_identifier l i) (\<lambda>j. act_return (ReadSetChanged m None (Some j))))
      (\<lambda>r s. at l refs ident s0 R s \<and> r \<noteq> Inl UnreachablePanic \<and> r \<noteq> Inr UnreachablePanic)" for i m
    by (rule valid_bind [OF encode_valid]) (auto intro!: valid_return)
  have "valid (at l refs ident s0 R) (authority_appeared_after_absence l b)
      (\<lambda>r s. at l refs ident s0 R s \<and> r \<noteq> Inl UnreachablePanic \<and> r \<noteq> Inr UnreachablePanic)"
    unfolding authority_appeared_after_absence_def
    by (rule valid_bind [OF contents_valid [OF assms]])
      (auto split: option.splits intro!: valid_return valid_weaken [OF encode])
  then show ?thesis
    unfolding refuse_appeared_def by (rule valid_bind) (auto intro!: valid_fail)
qed

lemma refuse_identifier_valid:
  "valid P (refuse_identifier l b e a) (\<lambda>r s. P s \<and> isl r)"
  unfolding refuse_identifier_def
  by (rule valid_bind [OF encode_valid], simp, rule valid_bind [OF encode_valid])
    (auto intro!: valid_fail)

section \<open>Creating\<close>

text \<open>
  Where creation can leave the store: as it was, or with one ref more, which matches if creation
  succeeded. \<open>R\<close> are the refs and \<open>s0\<close> the store before.
\<close>

declare create_attempts.simps [simp del]

definition maybe_created ::
    "('s, 'x) lance_scheme \<Rightarrow> ('s \<Rightarrow> string \<rightharpoonup> branch_contents) \<Rightarrow> ('s \<Rightarrow> branch_identifier) \<Rightarrow>
       string \<Rightarrow> u64 \<Rightarrow> 's \<Rightarrow> (string \<rightharpoonup> branch_contents) \<Rightarrow> bool \<Rightarrow> 's \<Rightarrow> bool" where
  "maybe_created l refs ident b v s0 R must s \<longleftrightarrow>
     (\<exists>c. (must \<longrightarrow> created_ref l ident v s0 c) \<and> refs s = R(b \<mapsto> c)) \<or> \<not> must \<and> refs s = R"

abbreviation create_post where
  "create_post l refs ident b v s0 R r s \<equiv>
     maybe_created l refs ident b v s0 R (\<not> isl r) s \<and> r \<noteq> Inl UnreachablePanic \<and>
     r \<noteq> Inr RefAlreadyExists"

lemma native_create_valid:
  assumes laws: "lance_laws l refs ident" and none: "R b = None"
  shows "valid (at l refs ident s0 R)
    (act_bind (act_map_err Lance (ln_create_branch l b v)) (\<lambda>_. maybe_fail l name))
    (\<lambda>r s. same_handle l ident s0 s \<and> maybe_created l refs ident b v s0 R (\<not> isl r) s \<and>
       r \<noteq> Inl UnreachablePanic)"
proof -
  have "valid (at l refs ident s0 R) (ln_create_branch l b v)
      (\<lambda>r s. same_handle l ident s0 s \<and> maybe_created l refs ident b v s0 R (\<not> isl r) s)"
    unfolding valid_def
  proof (intro allI impI)
    fix s r s'
    assume s: "at l refs ident s0 R s" and call: "ln_create_branch l b v s = (r, s')"
    have "created_ref l ident v s c = created_ref l ident v s0 c" for c
      using s by (simp add: created_ref_def same_handle_def)
    with laws s call show "same_handle l ident s0 s' \<and>
        maybe_created l refs ident b v s0 R (\<not> isl r) s'"
      unfolding lance_laws_def creating_law_def maybe_created_def by (metis same_handle_trans)
  qed
  then have "valid (at l refs ident s0 R) (act_map_err Lance (ln_create_branch l b v))
      (\<lambda>r s. same_handle l ident s0 s \<and> maybe_created l refs ident b v s0 R (\<not> isl r) s \<and>
        r \<noteq> Inl UnreachablePanic)"
    by (intro valid_map_err) (auto elim!: valid_post split: sum.splits)
  then show ?thesis
    by (rule valid_bind)
      (auto simp: maybe_fail_def valid_def maybe_created_def split: if_splits)
qed

lemma classify_create_valid:
  assumes laws: "lance_laws l refs ident" and none: "R b = None"
    and retry: "valid (at l refs ident s0 R) retry (create_post l refs ident b v s0 R)"
    and err: "native_error \<noteq> UnreachablePanic"
  shows "valid (\<lambda>s. same_handle l ident s0 s \<and> maybe_created l refs ident b v s0 R False s)
    (classify_create l b v (ln_manifest_branch l s0) (ident s0) native_error retry)
    (create_post l refs ident b v s0 R)"
proof (rule valid_by_cases)
  fix s1
  assume s1: "same_handle l ident s0 s1 \<and> maybe_created l refs ident b v s0 R False s1"
  let ?at = "at l refs ident s0 (refs s1)"
  have observed: "valid ?at (act_map_err (Unclassified native_error) (branch_contents_of l b))
      (\<lambda>r s. ?at s \<and> (\<forall>c. r = Inr c \<longrightarrow> c = refs s1 b) \<and> r \<noteq> Inl UnreachablePanic)"
    by (intro valid_map_err valid_post [OF contents_valid [OF laws]]) (auto split: sum.splits)
  show "valid (\<lambda>s. s = s1) (classify_create l b v (ln_manifest_branch l s0) (ident s0) native_error retry)
      (create_post l refs ident b v s0 R)"
  proof (cases "refs s1 b")
    case None
    with s1 have R: "refs s1 = R" by (auto simp: maybe_created_def)
    have "valid ?at (act_match (reclaim_ref_absent_tree l b) (\<lambda>r. case r of Inr True \<Rightarrow> retry
         | Inr False \<Rightarrow> refuse_appeared l b
         | Inl cleanup_error \<Rightarrow> act_fail (CleanupFailed native_error cleanup_error)))
      (create_post l refs ident b v s0 R)"
      unfolding R
      by (rule valid_match [OF reclaim_valid [OF laws]])
        (auto split: sum.splits bool.splits intro!: valid_fail valid_weaken [OF retry]
          valid_weaken [OF refuse_valid [OF laws]] simp: maybe_created_def)
    then have "valid ?at (classify_create l b v (ln_manifest_branch l s0) (ident s0) native_error retry)
        (create_post l refs ident b v s0 R)"
      unfolding classify_create_def
      by (intro valid_read [OF observed]) (auto simp: R none maybe_created_def)
    then show ?thesis using s1 by (auto elim: valid_pre)
  next
    case (Some c)
    with s1 none have c: "refs s1 = R(b \<mapsto> c)"
      by (auto simp: maybe_created_def)
    have refused: "valid ?at (act_bind (encode_identifier l i) (\<lambda>j. act_fail (ReadSetChanged m None (Some j))))
        (create_post l refs ident b v s0 R)" for i m
      by (rule valid_bind [OF encode_valid]) (use c in \<open>auto intro!: valid_fail simp: maybe_created_def\<close>)
    have "valid ?at (act_map_err (\<lambda>e. Unopenable e native_error) (ln_checkout_branch l b))
        (\<lambda>r s. refs s = refs s1 \<and> r \<noteq> Inl UnreachablePanic)"
      by (rule valid_map_err)
        (auto simp: valid_def split: sum.splits dest: checkout_refs [OF laws])
    then have "valid ?at (act_bind (act_map_err (\<lambda>e. Unopenable e native_error) (ln_checkout_branch l b))
          (\<lambda>_. act_return (Created b))) (create_post l refs ident b v s0 R)"
      if "created_ref l ident v s0 c"
      by (rule valid_bind) (use c that in \<open>auto intro!: valid_return simp: maybe_created_def\<close>)
    with refused have "valid ?at (classify_create l b v (ln_manifest_branch l s0) (ident s0) native_error retry)
        (create_post l refs ident b v s0 R)"
      unfolding classify_create_def
      by (intro valid_read [OF observed]) (use c in \<open>auto simp: Some maybe_created_def matches_iff_created\<close>)
    then show ?thesis using s1 by (auto elim: valid_pre)
  qed
qed

lemma create_attempts_valid:
  assumes laws: "lance_laws l refs ident" and none: "R b = None" and last: "1 \<in> set attempts"
  shows "valid (at l refs ident s0 R)
    (create_attempts l b v (ln_manifest_branch l s0) (ident s0) attempts)
    (create_post l refs ident b v s0 R)"
  using last
proof (induction attempts)
  case (Cons attempt attempts)
  have "valid (\<lambda>s. same_handle l ident s0 s \<and> maybe_created l refs ident b v s0 R False s)
      (classify_create l b v (ln_manifest_branch l s0) (ident s0) e
        (if attempt = 1 then act_fail e
         else create_attempts l b v (ln_manifest_branch l s0) (ident s0) attempts))
      (create_post l refs ident b v s0 R)" if "e \<noteq> UnreachablePanic" for e
    using that Cons
    by (intro classify_create_valid [where R = R and b = b, OF laws none])
      (auto intro!: valid_fail simp: maybe_created_def)
  then have failed: "valid (\<lambda>s. same_handle l ident s0 s \<and> maybe_created l refs ident b v s0 R False s \<and>
        e \<noteq> UnreachablePanic)
      (classify_create l b v (ln_manifest_branch l s0) (ident s0) e
        (if attempt = 1 then act_fail e
         else create_attempts l b v (ln_manifest_branch l s0) (ident s0) attempts))
      (create_post l refs ident b v s0 R)" for e
    by (cases "e = UnreachablePanic") simp_all
  show ?case
    unfolding create_attempts.simps
  proof (rule valid_match [OF native_create_valid [where R = R and b = b, OF laws none]])
    fix r
    show "valid (\<lambda>s. same_handle l ident s0 s \<and> maybe_created l refs ident b v s0 R (\<not> isl r) s \<and>
        r \<noteq> Inl UnreachablePanic)
      (case r of Inr u \<Rightarrow> act_return (Created b)
       | Inl e \<Rightarrow> classify_create l b v (ln_manifest_branch l s0) (ident s0) e
           (if attempt = 1 then act_fail e
            else create_attempts l b v (ln_manifest_branch l s0) (ident s0) attempts))
      (create_post l refs ident b v s0 R)"
    proof (cases r)
      case (Inl e)
      show ?thesis unfolding Inl sum.case by (rule valid_pre [OF failed]) simp
    qed (auto intro!: valid_return)
  qed
qed simp

definition path_free :: "(string \<rightharpoonup> branch_contents) \<Rightarrow> string \<Rightarrow> bool" where
  "path_free R b \<longleftrightarrow>
     (\<forall>k \<in> dom R. k \<noteq> b \<longrightarrow> k \<noteq> ''main'' \<longrightarrow> \<not> prefix (b @ ''/'') k \<and> \<not> prefix (k @ ''/'') b)"

lemma least_string_None [simp]: "least_string xs = None \<longleftrightarrow> xs = []"
  by (auto simp: least_string_def split: list.splits) (metis length_0_conv length_sort list.size(3))

lemma path_collision_None: "path_collision m b = None \<longleftrightarrow> path_free (hm_get m) b"
  by (auto simp: path_collision_def path_free_def filter_empty_conv hm_keys_get)

lemma create_valid:
  assumes laws: "lance_laws l refs ident"
  shows "valid (\<lambda>s. s = s0) (create_branch_recoverably l b v)
    (\<lambda>r s. if refs s0 b = None \<and> path_free (refs s0) b then create_post l refs ident b v s0 (refs s0) r s
           else refs s = refs s0 \<and> (r = Inr RefAlreadyExists \<or> isl r \<and> r \<noteq> Inl UnreachablePanic))"
proof -
  let ?at = "at l refs ident s0 (refs s0)" and ?p = "ln_manifest_branch l s0"
  let ?post = "\<lambda>r s. if refs s0 b = None \<and> path_free (refs s0) b
     then create_post l refs ident b v s0 (refs s0) r s
     else refs s = refs s0 \<and> (r = Inr RefAlreadyExists \<or> isl r \<and> r \<noteq> Inl UnreachablePanic)"
  have quiet: "?post r s" if "?at s" "isl r" "r \<noteq> Inl UnreachablePanic" for r s
    using that by (auto simp: maybe_created_def)
  have "valid ?at (act_bind (reclaim_ref_absent_tree l b) (\<lambda>reclaimed.
      if \<not> reclaimed then refuse_appeared l b else create_attempts l b v ?p (ident s0) [0, 1])) ?post"
    if free: "refs s0 b = None" "path_free (refs s0) b"
  proof (rule valid_bind [OF reclaim_valid [OF laws]])
    fix reclaimed
    show "valid (\<lambda>s. ?at s \<and> (Inr reclaimed = Inr True \<longrightarrow> refs s0 b = None) \<and>
        (Inr reclaimed = Inr False \<longrightarrow> refs s0 b \<noteq> None) \<and> Inr reclaimed \<noteq> Inl UnreachablePanic)
      (if \<not> reclaimed then refuse_appeared l b else create_attempts l b v ?p (ident s0) [0, 1]) ?post"
    proof (cases reclaimed)
      case True
      have "valid ?at (create_attempts l b v ?p (ident s0) [0, 1]) (create_post l refs ident b v s0 (refs s0))"
        by (rule create_attempts_valid [where R = "refs s0" and b = b, OF laws free(1)]) simp
      then show ?thesis
        unfolding if_not_P [OF not_not [THEN iffD2, OF True]] by (rule valid_weaken) (use free in simp_all)
    qed (use free in simp)
  qed (intro quiet, auto)
  then have choose: "valid ?at (if hm_contains m b then act_return RefAlreadyExists
      else case path_collision m b of Some conflicting \<Rightarrow> act_fail (PathShared b conflicting)
        | None \<Rightarrow> act_bind (reclaim_ref_absent_tree l b) (\<lambda>reclaimed.
            if \<not> reclaimed then refuse_appeared l b else create_attempts l b v ?p (ident s0) [0, 1])) ?post"
    if "hm_get m = refs s0" for m
    using that
    by (auto simp: hm_contains_def path_collision_None maybe_created_def split: option.splits
        intro!: valid_return valid_fail)
  have "valid ?at (act_bind (list_branch_contents l) (\<lambda>m. if hm_contains m b then act_return RefAlreadyExists
      else case path_collision m b of Some conflicting \<Rightarrow> act_fail (PathShared b conflicting)
        | None \<Rightarrow> act_bind (reclaim_ref_absent_tree l b) (\<lambda>reclaimed.
            if \<not> reclaimed then refuse_appeared l b else create_attempts l b v ?p (ident s0) [0, 1]))) ?post"
  proof (rule valid_bind [OF list_valid [OF laws]])
    fix m
    show "valid (\<lambda>s. ?at s \<and> (\<forall>m'. Inr m = Inr m' \<longrightarrow> hm_get m' = refs s0) \<and> Inr m \<noteq> Inl UnreachablePanic)
      (if hm_contains m b then act_return RefAlreadyExists
       else case path_collision m b of Some conflicting \<Rightarrow> act_fail (PathShared b conflicting)
        | None \<Rightarrow> act_bind (reclaim_ref_absent_tree l b) (\<lambda>reclaimed.
            if \<not> reclaimed then refuse_appeared l b else create_attempts l b v ?p (ident s0) [0, 1])) ?post"
    proof (cases "hm_get m = refs s0")
      case True
      show ?thesis by (rule valid_pre [OF choose [OF True]]) simp
    qed simp
  qed (intro quiet, auto)
  then have started: "valid ?at (act_bind (act_map_err Lance (ln_branch_identifier l)) (\<lambda>i.
      act_bind (list_branch_contents l) (\<lambda>m. if hm_contains m b then act_return RefAlreadyExists
      else case path_collision m b of Some conflicting \<Rightarrow> act_fail (PathShared b conflicting)
        | None \<Rightarrow> act_bind (reclaim_ref_absent_tree l b) (\<lambda>reclaimed.
            if \<not> reclaimed then refuse_appeared l b else create_attempts l b v ?p i [0, 1])))) ?post"
    by (rule valid_read [OF identifier_valid [OF laws], rotated]) (rule quiet, simp_all)
  have "?post (fst (create_branch_recoverably l b v s0)) (snd (create_branch_recoverably l b v s0))"
    using validD [OF started, of s0]
    by (auto simp: create_branch_recoverably_def Let_def maybe_created_def split: sum.splits)
  then show ?thesis by (auto simp: valid_def)
qed

section \<open>Deleting\<close>

abbreviation delete_post where
  "delete_post refs b R r s \<equiv>
     (refs s = R \<or> refs s = R(b := None)) \<and> (\<not> isl r \<longrightarrow> refs s b = None)"

lemma finish_delete_valid:
  assumes laws: "lance_laws l refs ident" and none: "R b = None"
  shows "valid (at l refs ident s0 R) (finish_delete l b) (\<lambda>r s. refs s = R \<and> \<not> isl r)"
  unfolding finish_delete_def
proof (rule valid_match [OF reclaim_valid [OF laws]])
  fix r
  show "valid (\<lambda>s. at l refs ident s0 R s \<and> (r = Inr True \<longrightarrow> R b = None) \<and>
      (r = Inr False \<longrightarrow> R b \<noteq> None) \<and> r \<noteq> Inl UnreachablePanic)
    (case r of Inr True \<Rightarrow> act_return () | Inr False \<Rightarrow> refuse_appeared l b
     | Inl cleanup_error \<Rightarrow> act_return ()) (\<lambda>r s. refs s = R \<and> \<not> isl r)"
    using none by (auto split: sum.splits bool.splits intro!: valid_return)
qed

lemma native_delete_valid:
  assumes laws: "lance_laws l refs ident"
  shows "valid (at l refs ident s0 R)
    (act_bind (act_map_err Lance (ln_delete_branch l b)) (\<lambda>_. maybe_fail l name))
    (\<lambda>r s. same_handle l ident s0 s \<and> delete_post refs b R r s)"
proof -
  have "valid (at l refs ident s0 R) (ln_delete_branch l b)
      (\<lambda>r s. same_handle l ident s0 s \<and> delete_post refs b R r s)"
    using laws unfolding valid_def lance_laws_def deleting_laws_def by (metis same_handle_trans)
  then have "valid (at l refs ident s0 R) (act_map_err Lance (ln_delete_branch l b))
      (\<lambda>r s. same_handle l ident s0 s \<and> delete_post refs b R r s)"
    by (intro valid_map_err) (auto elim!: valid_post split: sum.splits)
  then show ?thesis
    by (rule valid_bind) (auto simp: maybe_fail_def valid_def split: if_splits)
qed

lemma classify_delete_valid:
  assumes laws: "lance_laws l refs ident"
  shows "valid (\<lambda>s. same_handle l ident s0 s \<and> delete_post refs b R (Inl e) s)
    (classify_delete l b expected e) (delete_post refs b R)"
proof (rule valid_by_cases)
  fix s1
  assume s1: "same_handle l ident s0 s1 \<and> delete_post refs b R (Inl e) s1"
  let ?at = "at l refs ident s0 (refs s1)"
  have observed: "valid ?at (act_map_err (Unclassified e) (branch_contents_of l b))
      (\<lambda>r s. ?at s \<and> (\<forall>c. r = Inr c \<longrightarrow> c = refs s1 b) \<and> r \<noteq> Inl UnreachablePanic)"
    by (intro valid_map_err valid_post [OF contents_valid [OF laws]]) (auto split: sum.splits)
  have "valid ?at (case refs s1 b of None \<Rightarrow> finish_delete l b
       | Some contents \<Rightarrow>
           if bc_identifier contents = expected then act_fail e
           else refuse_identifier l b expected (bc_identifier contents)) (delete_post refs b R)"
  proof (cases "refs s1 b")
    case None
    show ?thesis
      unfolding None option.case
      by (rule valid_post [OF finish_delete_valid [where R = "refs s1" and b = b, OF laws None]])
        (use s1 None in auto)
  next
    case (Some c)
    with s1 show ?thesis
      by (auto intro!: valid_fail valid_post [OF refuse_identifier_valid])
  qed
  then have "valid ?at (classify_delete l b expected e) (delete_post refs b R)"
    unfolding classify_delete_def by (intro valid_read [OF observed]) (use s1 in auto)
  then show "valid (\<lambda>s. s = s1) (classify_delete l b expected e) (delete_post refs b R)"
    by (rule valid_pre) (use s1 in simp)
qed

text \<open>
  What a deletion promises: at most the named ref goes, success means it is gone, and a ref with
  another identifier or with a live branch below its path is left alone.
\<close>

definition delete_ok ::
    "(string \<rightharpoonup> branch_contents) \<Rightarrow> string \<Rightarrow> branch_identifier \<Rightarrow> branch_error + unit \<Rightarrow>
       (string \<rightharpoonup> branch_contents) \<Rightarrow> bool" where
  "delete_ok R b expected r R' \<longleftrightarrow>
     (R' = R \<or> R' = R(b := None)) \<and> (\<not> isl r \<longrightarrow> R' b = None) \<and>
     (\<forall>c. R b = Some c \<longrightarrow> bc_identifier c \<noteq> expected \<or> (\<exists>k \<in> dom R. prefix (b @ ''/'') k) \<longrightarrow>
        R' = R \<and> isl r)"

lemma path_descendant_None:
  "path_descendant m b = None \<longleftrightarrow> \<not> (\<exists>k \<in> dom (hm_get m). prefix (b @ ''/'') k)"
  by (auto simp: path_descendant_def filter_empty_conv hm_keys_get)

lemma delete_listed_valid:
  assumes laws: "lance_laws l refs ident" and m: "hm_get m = R"
  shows "valid (at l refs ident s0 R)
    (case hm_get m b of None \<Rightarrow> finish_delete l b
     | Some initial_contents \<Rightarrow>
         if bc_identifier initial_contents \<noteq> expected
         then refuse_identifier l b expected (bc_identifier initial_contents)
         else case path_descendant m b of
             Some child \<Rightarrow> act_fail (PathShared b child)
           | None \<Rightarrow> delete_native l b expected)
    (\<lambda>r s. delete_ok R b expected r (refs s))"
proof (cases "R b")
  case None
  show ?thesis
    unfolding m None option.case
    by (rule valid_post [OF finish_delete_valid [where R = R and b = b, OF laws None]])
      (simp add: delete_ok_def None)
next
  case (Some c)
  have native: "valid (at l refs ident s0 R) (delete_native l b expected) (delete_post refs b R)"
    unfolding delete_native_def
  proof (rule valid_match [OF native_delete_valid [OF laws]])
    fix r
    show "valid (\<lambda>s. same_handle l ident s0 s \<and> delete_post refs b R r s)
      (case r of Inr u \<Rightarrow> act_return () | Inl e \<Rightarrow> classify_delete l b expected e) (delete_post refs b R)"
      using classify_delete_valid [where ?s0.0 = s0 and b = b and R = R and expected = expected, OF laws]
      by (cases r) (auto intro!: valid_return)
  qed
  show ?thesis
    unfolding m Some option.case using native
    by (auto simp: delete_ok_def Some path_descendant_None m split: option.splits
        intro!: valid_post [OF refuse_identifier_valid] valid_fail elim!: valid_post)
qed

lemma delete_ok_post:
  assumes "lance_laws l refs ident"
  shows "delete_ok (refs s) b expected (fst (delete_branch_recoverably l b expected s))
     (refs (snd (delete_branch_recoverably l b expected s)))"
proof -
  have "valid (at l refs ident s (refs s)) (delete_branch_recoverably l b expected)
      (\<lambda>r s'. delete_ok (refs s) b expected r (refs s'))"
    unfolding delete_branch_recoverably_def
  proof (rule valid_bind [OF list_valid [OF assms]])
    fix m
    show "valid (\<lambda>s'. at l refs ident s (refs s) s' \<and>
          (\<forall>m'. Inr m = Inr m' \<longrightarrow> hm_get m' = refs s) \<and> Inr m \<noteq> Inl UnreachablePanic)
      (case hm_get m b of None \<Rightarrow> finish_delete l b
       | Some initial_contents \<Rightarrow>
         if bc_identifier initial_contents \<noteq> expected
         then refuse_identifier l b expected (bc_identifier initial_contents)
         else case path_descendant m b of
             Some child \<Rightarrow> act_fail (PathShared b child)
           | None \<Rightarrow> delete_native l b expected)
      (\<lambda>r s'. delete_ok (refs s) b expected r (refs s'))"
    proof (cases "hm_get m = refs s")
      case True
      show ?thesis by (rule valid_pre [OF delete_listed_valid [where ?s0.0 = s, OF assms True]]) simp
    qed simp
  qed (simp add: delete_ok_def)
  from validD [OF this, of s] show ?thesis by simp
qed

text \<open>
  C16: deleting a branch over a store that obeys Lance's contract never removes another branch, nor
  one that was recreated under the same name, nor one whose path a live branch shares; and when it
  reports success the ref is gone, whether or not an acknowledgement was lost on the way.
\<close>

theorem delete_removes_only_expected:
  assumes "lance_laws l refs ident"
  shows "delete_ok (refs s) b expected (fst (delete_branch_recoverably l b expected s))
     (refs (snd (delete_branch_recoverably l b expected s)))"
  using assms by (rule delete_ok_post)

text \<open>
  C15: creating a branch over a store that obeys Lance's contract never changes another branch, never
  replaces a ref that existed, and always ends with one of its reported outcomes: the loop of
  attempts never runs past its bound. It reports success only when the ref is there and descends from
  exactly the source it was created from, also when the native call failed and left a ref of unknown
  contents, its own or another's: nothing is assumed of such a ref.
\<close>

theorem create_adds_only_expected:
  assumes "lance_laws l refs ident"
  shows "case create_branch_recoverably l b v s of (r, s') \<Rightarrow>
     (\<forall>k. k \<noteq> b \<longrightarrow> refs s' k = refs s k) \<and>
     (refs s b \<noteq> None \<longrightarrow> refs s' = refs s \<and> (r = Inr RefAlreadyExists \<or> isl r)) \<and>
     (\<forall>x. r = Inr (Created x) \<longrightarrow>
        refs s b = None \<and> (\<exists>c. refs s' b = Some c \<and> created_ref l ident v s c)) \<and>
     r \<noteq> Inl UnreachablePanic"
  using validD [OF create_valid [OF assms, where ?s0.0 = s and b = b and v = v], of s]
  by (auto simp: maybe_created_def split: prod.splits if_splits)

definition paths_disjoint :: "(string \<rightharpoonup> branch_contents) \<Rightarrow> bool" where
  "paths_disjoint R \<longleftrightarrow>
     (\<forall>a \<in> dom R. \<forall>b \<in> dom R. a \<noteq> ''main'' \<longrightarrow> b \<noteq> ''main'' \<longrightarrow> a \<noteq> b \<longrightarrow> \<not> prefix (a @ ''/'') b)"

text \<open>
  C23: no live branch name, \<^verbatim>\<open>main\<close> apart, is a path prefix of another, through any sequence of creations
  and deletions, failed ones included.
\<close>

theorem branch_paths_stay_disjoint:
  assumes "lance_laws l refs ident" and "paths_disjoint (refs s)"
  shows "paths_disjoint (refs (snd (create_branch_recoverably l b v s))) \<and>
     paths_disjoint (refs (snd (delete_branch_recoverably l b expected s)))"
proof
  have "paths_disjoint ((refs s)(b \<mapsto> c))" if "path_free (refs s) b" for c
    using assms(2) that by (auto simp: paths_disjoint_def path_free_def)
  then show "paths_disjoint (refs (snd (create_branch_recoverably l b v s)))"
    using validD [OF create_valid [OF assms(1), where ?s0.0 = s and b = b and v = v], of s] assms(2)
    by (auto simp: maybe_created_def split: if_splits)
  have "paths_disjoint ((refs s)(b := None))"
    using assms(2) by (auto simp: paths_disjoint_def)
  then show "paths_disjoint (refs (snd (delete_branch_recoverably l b expected s)))"
    using delete_ok_post [OF assms(1), of s b expected] assms(2) by (auto simp: delete_ok_def)
qed

end
