(* ===== verification/Sample_Branches.thy ===== *)
theory Sample_Branches
  imports Branch_Control_Properties
begin

text \<open>
  A store that obeys Lance's contract and is as unhelpful as it allows: the first creation fails
  without effect, the second one and every deletion take effect and lose their acknowledgement;
  later creations are acknowledged.
\<close>

record sample_store =
  ss_refs :: "(string, branch_contents) hmap"
  ss_creates :: nat

definition sample_ref :: "u64 \<Rightarrow> branch_contents" where
  "sample_ref v = \<lparr>bc_parent_branch = None, bc_identifier = [(v, ''u1'')], bc_parent_version = v\<rparr>"

definition sample_create :: "string \<Rightarrow> u64 \<Rightarrow> (sample_store, lance_error, unit) act" where
  "sample_create b v s =
     (if 1 < ss_creates s \<and> \<not> hm_contains (ss_refs s) b then Inr () else Inl (OtherLance ''timeout''),
      if ss_creates s = 0 \<or> hm_contains (ss_refs s) b then s\<lparr>ss_creates := Suc (ss_creates s)\<rparr>
      else s\<lparr>ss_creates := Suc (ss_creates s), ss_refs := hm_insert b (sample_ref v) (ss_refs s)\<rparr>)"

definition sample_delete :: "lance_error \<Rightarrow> string \<Rightarrow> (sample_store, lance_error, unit) act" where
  "sample_delete e b s = (Inl e, s\<lparr>ss_refs := hm_remove b (ss_refs s)\<rparr>)"

definition sample_lance :: "sample_store lance" where
  "sample_lance =
     \<lparr>ln_check_valid_branch = (\<lambda>b. Inr ()), ln_version = (\<lambda>s. 7), ln_manifest_branch = (\<lambda>s. None),
      ln_branch_identifier = (\<lambda>s. (Inr [], s)), ln_list_branches = (\<lambda>s. (Inr (ss_refs s), s)),
      ln_create_branch = sample_create, ln_delete_branch = sample_delete (OtherLance ''timeout''),
      ln_force_delete_branch = sample_delete NotFound, ln_checkout_branch = (\<lambda>b s. (Inr (), s)),
      ln_encode_identifier = (\<lambda>i. Inr ''id''), ln_fail_point = (\<lambda>n s. False)\<rparr>"

abbreviation sample_refs :: "sample_store \<Rightarrow> string \<rightharpoonup> branch_contents" where
  "sample_refs s \<equiv> hm_get (ss_refs s)"

lemma sample_obeys_laws: "lance_laws sample_lance sample_refs (\<lambda>s. [])"
  by (auto simp: lance_laws_def reading_laws_def deleting_laws_def creating_law_def sample_lance_def
      same_handle_def sample_create_def sample_delete_def created_ref_def sample_ref_def fun_eq_iff hm_contains_def
      intro!: exI [of _ "sample_ref _"])

definition sample_start :: sample_store where
  "sample_start = \<lparr>ss_refs = hm_insert ''other'' (sample_ref 3) hm_empty, ss_creates = 0\<rparr>"

theorem create_adds_only_expected_witness:
  "fst (create_branch_recoverably sample_lance ''feature'' 7 sample_start) = Inr (Created ''feature'') \<and>
   sample_refs (snd (create_branch_recoverably sample_lance ''feature'' 7 sample_start)) ''other'' =
     Some (sample_ref 3)"
proof -
  have "fst (create_branch_recoverably sample_lance ''feature'' 7 sample_start) = Inr (Created ''feature'')"
    by code_simp
  moreover have "sample_refs sample_start ''other'' = Some (sample_ref 3)" by code_simp
  ultimately show ?thesis
    using create_adds_only_expected [OF sample_obeys_laws, where b = "''feature''" and v = 7 and s = sample_start]
    by (auto split: prod.splits)
qed

theorem delete_removes_only_expected_witness:
  "fst (delete_branch_recoverably sample_lance ''other'' [(3, ''u1'')] sample_start) = Inr () \<and>
   sample_refs (snd (delete_branch_recoverably sample_lance ''other'' [(3, ''u1'')] sample_start)) ''other'' =
     None \<and>
   sample_refs (snd (delete_branch_recoverably sample_lance ''other'' [(4, ''u2'')] sample_start)) ''other'' =
     Some (sample_ref 3)"
proof -
  have "fst (delete_branch_recoverably sample_lance ''other'' [(3, ''u1'')] sample_start) = Inr ()"
    by code_simp
  moreover have "sample_refs sample_start ''other'' = Some (sample_ref 3)" by code_simp
  moreover have "bc_identifier (sample_ref 3) \<noteq> [(4, ''u2'')]" by code_simp
  ultimately show ?thesis
    using delete_removes_only_expected [OF sample_obeys_laws, of sample_start "''other''" "[(3, ''u1'')]"]
      delete_removes_only_expected [OF sample_obeys_laws, of sample_start "''other''" "[(4, ''u2'')]"]
    by (simp add: delete_ok_def)
qed

theorem branch_paths_stay_disjoint_witness:
  "paths_disjoint (sample_refs (snd (create_branch_recoverably sample_lance ''feature'' 7 sample_start))) \<and>
   paths_disjoint (sample_refs (snd (delete_branch_recoverably sample_lance ''other'' [] sample_start)))"
proof -
  have "paths_disjoint (sample_refs sample_start)"
    by (auto simp: paths_disjoint_def sample_start_def split: if_splits)
  then show ?thesis
    using branch_paths_stay_disjoint [OF sample_obeys_laws, of sample_start] by blast
qed

end
