(* ===== verification/Merge_Delete.thy ===== *)
theory Merge_Delete
  imports Ordered_Map
begin

text \<open>
  The delete plan of a branch merge (\<^verbatim>\<open>omnigraph/src/exec/merge.rs\<close>): ids to delete are grouped into
  chunks, each within a row bound and within the exact byte length of the filter text it becomes,
  and the whole plan within a bound on retained memory. Bytes are counted in \<^verbatim>\<open>u64\<close> with checked
  additions; \<^verbatim>\<open>usize\<close> is \<^typ>\<open>nat\<close>, and a conversion to \<^verbatim>\<open>u64\<close> fails past its range. A string is the list of
  its bytes. Sizes of \<^verbatim>\<open>String\<close> and \<^verbatim>\<open>DeleteIdChunk\<close> are those of a 64-bit target.
\<close>

section \<open>Errors and checked arithmetic\<close>

text \<open>A formatted message is kept as its template, without the quotes around a value, and the values
  put into it.\<close>

datatype message_arg = ArgText string | ArgNum u64 | ArgCount nat

datatype omni_error =
    OmniLance string
  | BadRequest string "message_arg list"
  | ManifestInternal string "message_arg list"
  | ReadSetChangedAt string "string option" "string option"
  | ResourceLimitExceeded string u64 u64
  | IndexOutOfBoundsPanic
  | UnreachableReached

abbreviation internal :: "string \<Rightarrow> omni_error" where
  "internal m \<equiv> ManifestInternal m []"

definition u64_try_from :: "nat \<Rightarrow> omni_error \<Rightarrow> omni_error + u64" where
  "u64_try_from n e = (if n < 18446744073709551616 then Inr (of_nat n) else Inl e)"

definition checked_add :: "u64 \<Rightarrow> u64 \<Rightarrow> u64 option" where
  "checked_add a b = (if unat a + unat b < 18446744073709551616 then Some (a + b) else None)"

definition checked_mul :: "u64 \<Rightarrow> u64 \<Rightarrow> u64 option" where
  "checked_mul a b = (if unat a * unat b < 18446744073709551616 then Some (a * b) else None)"

lemma checked_add_Some_iff:
  "checked_add a b = Some c \<longleftrightarrow> unat c = unat a + unat b"
proof -
  have "unat c < 18446744073709551616"
    using unsigned_less [of c] by simp
  then show ?thesis
    by (auto simp: checked_add_def unat_word_ariths word_unat_eq_iff)
qed

lemma checked_add_None_iff:
  "checked_add a b = None \<longleftrightarrow> 18446744073709551616 \<le> unat a + unat b"
  by (auto simp: checked_add_def)

lemma unat_below: "unat (w :: u64) < 18446744073709551616"
  using unsigned_less [of w] by simp

lemma u64_of_unat: "unat (w :: u64) = n \<Longrightarrow> w = of_nat n"
  by auto

lemma unat_u64_of_nat [simp]: "n < 18446744073709551616 \<Longrightarrow> unat (of_nat n :: u64) = n"
  by (simp add: unat_of_nat)

lemma checked_sum_None_iff:
  "Option.bind (checked_add a b) (\<lambda>x. checked_add x c) = None \<longleftrightarrow>
     18446744073709551616 \<le> unat a + unat b + unat c"
proof (cases "checked_add a b")
  case None
  moreover have "18446744073709551616 \<le> unat a + unat b"
    using None by (simp add: checked_add_None_iff)
  ultimately show ?thesis by simp
next
  case (Some x)
  moreover have "unat x = unat a + unat b"
    using Some by (simp add: checked_add_Some_iff)
  ultimately show ?thesis by (simp add: checked_add_None_iff)
qed

lemma checked_sum_Some_iff:
  "Option.bind (checked_add a b) (\<lambda>x. checked_add x c) = Some w \<longleftrightarrow>
     unat w = unat a + unat b + unat c"
proof (cases "checked_add a b")
  case None
  then have "18446744073709551616 \<le> unat a + unat b + unat c"
    by (simp add: checked_add_None_iff)
  with None show ?thesis using unat_below [of w] by auto
next
  case (Some x)
  then have "Option.bind (checked_add a b) (\<lambda>x. checked_add x c) = checked_add x c" by simp
  moreover have "unat x = unat a + unat b"
    using Some by (simp add: checked_add_Some_iff)
  ultimately show ?thesis by (simp only: checked_add_Some_iff)
qed

lemma u64_try_from_Inr_iff:
  "u64_try_from n e = Inr w \<longleftrightarrow> unat w = n"
proof -
  have "unat w < 18446744073709551616"
    using unsigned_less [of w] by simp
  then show ?thesis
    by (auto simp: u64_try_from_def unat_of_nat word_unat_eq_iff)
qed

lemma u64_try_from_Inl_iff:
  "u64_try_from n e = Inl e' \<longleftrightarrow> e' = e \<and> 18446744073709551616 \<le> n"
  by (auto simp: u64_try_from_def)

section \<open>Bounds and framing\<close>

definition KEYED_WRITE_MAX_ROWS :: nat where
  "KEYED_WRITE_MAX_ROWS = 8192"

definition KEYED_WRITE_MAX_BYTES :: u64 where
  "KEYED_WRITE_MAX_BYTES = 32 * 1024 * 1024"

definition DELETE_FILTER_PREFIX :: string where
  "DELETE_FILTER_PREFIX = ''id IN (''"

definition DELETE_FILTER_SEPARATOR :: string where
  "DELETE_FILTER_SEPARATOR = '', ''"

definition DELETE_FILTER_SUFFIX :: string where
  "DELETE_FILTER_SUFFIX = '')''"

definition size_of_String :: nat where
  "size_of_String = 24"

definition size_of_DeleteIdChunk :: nat where
  "size_of_DeleteIdChunk = 32"

definition quote :: char where
  "quote = CHR 0x27"

definition delete_filter_fixed_bytes :: "omni_error + u64" where
  "delete_filter_fixed_bytes =
     u64_try_from (length DELETE_FILTER_PREFIX + length DELETE_FILTER_SUFFIX)
       (internal ''branch merge delete filter framing exceeds u64'')"

definition escaped_delete_literal_bytes :: "string \<Rightarrow> omni_error + u64" where
  "escaped_delete_literal_bytes i =
     r_bind (u64_try_from (length i) (internal ''branch merge delete id bytes exceed u64'')) (\<lambda>id_bytes.
     r_bind (u64_try_from (length (filter (\<lambda>c. c = quote) i))
              (internal ''branch merge delete quote count exceeds u64'')) (\<lambda>escaped_quotes.
     ok_or (Option.bind (checked_add id_bytes escaped_quotes) (\<lambda>bytes. checked_add bytes 2))
       (internal ''branch merge delete literal overflow'')))"

section \<open>Chunks\<close>

record delete_id_chunk =
  dc_ids :: "string list"
  dc_filter_bytes :: u64

record delete_id_chunks =
  ds_chunks :: "delete_id_chunk list"
  ds_retained_bytes :: u64

definition delete_id_chunks_default :: delete_id_chunks where
  "delete_id_chunks_default = \<lparr>ds_chunks = [], ds_retained_bytes = 0\<rparr>"

definition last_opt :: "'a list \<Rightarrow> 'a option" where
  "last_opt xs = (if xs = [] then None else Some (last xs))"

definition is_none_or :: "'a option \<Rightarrow> ('a \<Rightarrow> bool) \<Rightarrow> bool" where
  "is_none_or x p = (case x of None \<Rightarrow> True | Some y \<Rightarrow> p y)"

definition starts_new_chunk :: "delete_id_chunks \<Rightarrow> nat \<Rightarrow> u64 \<Rightarrow> u64 \<Rightarrow> u64 \<Rightarrow> bool" where
  "starts_new_chunk s max_rows max_filter_bytes separator_bytes literal_bytes =
     is_none_or (last_opt (ds_chunks s)) (\<lambda>chunk.
       max_rows \<le> length (dc_ids chunk) \<or>
       is_none_or (Option.bind (checked_add (dc_filter_bytes chunk) separator_bytes)
                    (\<lambda>bytes. checked_add bytes literal_bytes))
         (\<lambda>bytes. max_filter_bytes < bytes))"

definition push_onto_last :: "string \<Rightarrow> u64 \<Rightarrow> u64 \<Rightarrow> delete_id_chunk list \<Rightarrow>
    omni_error + delete_id_chunk list" where
  "push_onto_last i separator_bytes literal_bytes chunks =
     r_bind (ok_or (last_opt chunks) (internal ''branch merge delete chunk was not created'')) (\<lambda>chunk.
     r_bind (if dc_ids chunk \<noteq> []
             then ok_or (checked_add (dc_filter_bytes chunk) separator_bytes)
                    (internal ''branch merge delete filter overflow'')
             else Inr (dc_filter_bytes chunk)) (\<lambda>bytes.
     r_bind (ok_or (checked_add bytes literal_bytes)
              (internal ''branch merge delete filter overflow'')) (\<lambda>bytes.
     Inr (butlast chunks @ [\<lparr>dc_ids = dc_ids chunk @ [i], dc_filter_bytes = bytes\<rparr>]))))"

definition push_with_bounds ::
    "delete_id_chunks \<Rightarrow> string \<Rightarrow> nat \<Rightarrow> u64 \<Rightarrow> u64 \<Rightarrow> omni_error + delete_id_chunks" where
  "push_with_bounds s i max_rows max_filter_bytes max_retained_bytes =
     r_bind (guard (max_rows \<noteq> 0) (internal ''branch merge delete chunk row bound is zero'')) (\<lambda>_.
     r_bind (escaped_delete_literal_bytes i) (\<lambda>literal_bytes.
     r_bind delete_filter_fixed_bytes (\<lambda>empty_filter_bytes.
     r_bind (ok_or (checked_add empty_filter_bytes literal_bytes)
              (internal ''branch merge delete filter overflow'')) (\<lambda>first_filter_bytes.
     r_bind (guard (\<not> max_filter_bytes < first_filter_bytes)
              (ResourceLimitExceeded ''branch-merge delete filter bytes''
                 max_filter_bytes first_filter_bytes)) (\<lambda>_.
     r_bind (u64_try_from (length DELETE_FILTER_SEPARATOR)
              (internal ''branch merge delete separator bytes exceed u64'')) (\<lambda>separator_bytes.
     let new = starts_new_chunk s max_rows max_filter_bytes separator_bytes literal_bytes in
     r_bind (r_bind (u64_try_from size_of_String (internal ''String size exceeds u64''))
              (\<lambda>n. ok_or (checked_mul n 2) (internal ''branch merge delete bookkeeping overflow'')))
       (\<lambda>string_bookkeeping.
     r_bind (r_bind (u64_try_from (length i) (internal ''branch merge delete id exceeds u64''))
              (\<lambda>n. ok_or (checked_add n string_bookkeeping)
                     (internal ''branch merge delete retained bytes overflow''))) (\<lambda>id_storage.
     r_bind (if new
             then r_bind (u64_try_from size_of_DeleteIdChunk (internal ''delete chunk size exceeds u64''))
                    (\<lambda>n. ok_or (checked_mul n 2) (internal ''branch merge chunk bookkeeping overflow''))
             else Inr 0) (\<lambda>chunk_storage.
     r_bind (ok_or (Option.bind (checked_add (ds_retained_bytes s) id_storage)
                      (\<lambda>bytes. checked_add bytes chunk_storage))
              (internal ''branch merge delete retained bytes overflow'')) (\<lambda>retained_bytes.
     r_bind (guard (\<not> max_retained_bytes < retained_bytes)
              (ResourceLimitExceeded ''branch-merge retained delete plan bytes''
                 max_retained_bytes retained_bytes)) (\<lambda>_.
     r_bind (push_onto_last i separator_bytes literal_bytes
              (if new then ds_chunks s @ [\<lparr>dc_ids = [], dc_filter_bytes = empty_filter_bytes\<rparr>]
               else ds_chunks s)) (\<lambda>chunks.
     Inr \<lparr>ds_chunks = chunks, ds_retained_bytes = retained_bytes\<rparr>))))))))))))"

definition push_bounded :: "delete_id_chunks \<Rightarrow> string \<Rightarrow> nat \<Rightarrow> u64 \<Rightarrow> omni_error + delete_id_chunks" where
  "push_bounded s i max_rows max_bytes =
     push_with_bounds s i max_rows max_bytes KEYED_WRITE_MAX_BYTES"

definition push_delete_id :: "delete_id_chunks \<Rightarrow> string \<Rightarrow> omni_error + delete_id_chunks" where
  "push_delete_id s i = push_bounded s i KEYED_WRITE_MAX_ROWS KEYED_WRITE_MAX_BYTES"

definition chunk_count :: "delete_id_chunks \<Rightarrow> nat" where
  "chunk_count s = length (ds_chunks s)"

definition deleted_ids :: "delete_id_chunks \<Rightarrow> string list" where
  "deleted_ids s = concat (map dc_ids (ds_chunks s))"

section \<open>The filter text\<close>

primrec escape_quotes :: "string \<Rightarrow> string" where
  "escape_quotes [] = []"
| "escape_quotes (c # cs) = (if c = quote then [quote, c] else [c]) @ escape_quotes cs"

definition delete_literal :: "string \<Rightarrow> string" where
  "delete_literal i = [quote] @ escape_quotes i @ [quote]"

fun delete_filter_items :: "string list \<Rightarrow> string" where
  "delete_filter_items [] = []"
| "delete_filter_items [i] = delete_literal i"
| "delete_filter_items (i # j # is) =
     delete_literal i @ DELETE_FILTER_SEPARATOR @ delete_filter_items (j # is)"

definition delete_filter_text :: "string list \<Rightarrow> string" where
  "delete_filter_text is = DELETE_FILTER_PREFIX @ delete_filter_items is @ DELETE_FILTER_SUFFIX"

definition delete_chunk_filter :: "delete_id_chunk \<Rightarrow> omni_error + string" where
  "delete_chunk_filter chunk =
     r_bind (guard (\<not> (dc_ids chunk = [] \<or> KEYED_WRITE_MAX_ROWS < length (dc_ids chunk)))
              (ManifestInternal ''branch merge delete chunk contains {} ids''
                 [ArgCount (length (dc_ids chunk))])) (\<lambda>_.
     r_bind (guard (\<not> KEYED_WRITE_MAX_BYTES < dc_filter_bytes chunk)
              (ManifestInternal ''branch merge delete chunk exceeds its armed byte bound: {} bytes''
                 [ArgNum (dc_filter_bytes chunk)])) (\<lambda>_.
     let text = delete_filter_text (dc_ids chunk) in
     r_bind (u64_try_from (length text)
              (internal ''branch merge delete filter bytes exceed u64'')) (\<lambda>actual_bytes.
     r_bind (guard (actual_bytes = dc_filter_bytes chunk)
              (ManifestInternal ''branch merge delete filter built {} bytes against a {}-byte plan''
                 [ArgNum actual_bytes, ArgNum (dc_filter_bytes chunk)])) (\<lambda>_.
     Inr text))))"

end
