(* ===== verification/Merge_Cursor.thy ===== *)
theory Merge_Cursor
  imports Merge_Delete "HOL-Library.Sublist"
begin

text \<open>
  Rows of a table in the order of their ids (\<^verbatim>\<open>OrderedTableCursor\<close>, \<^verbatim>\<open>row_signature\<close> and
  \<^verbatim>\<open>row_id_at\<close> in \<^verbatim>\<open>omnigraph/src/exec/merge.rs\<close>). Arrow's columns are of an arbitrary type \<open>'c\<close>:
  reading them is the record \<open>arrow\<close>. Opening a table and the batches its ordered scan delivers
  are the record \<open>table_access\<close>, functions of a snapshot of arbitrary type; a scan is the list of
  what its stream yields, an error or a batch.
\<close>

section \<open>Batches\<close>

record 'c batch =
  ba_fields :: "string list"
  ba_columns :: "'c list"
  ba_num_rows :: nat

record 'c arrow =
  ar_value_text :: "'c \<Rightarrow> nat \<Rightarrow> string + string"
  ar_utf8_values :: "'c \<Rightarrow> string list option"

primrec join_text :: "string \<Rightarrow> string list \<Rightarrow> string" where
  "join_text sep [] = []"
| "join_text sep (x # xs) = (if xs = [] then x else x @ sep @ join_text sep xs)"

definition lance_result :: "string + 'a \<Rightarrow> omni_error + 'a" where
  "lance_result r = (case r of Inl e \<Rightarrow> Inl (OmniLance e) | Inr x \<Rightarrow> Inr x)"

lemma lance_result_Inr_iff [simp]: "lance_result r = Inr x \<longleftrightarrow> r = Inr x"
  by (cases r) (simp_all add: lance_result_def)

definition signature_columns :: "'c batch \<Rightarrow> 'c list" where
  "signature_columns b =
     map snd (filter (\<lambda>(name, column). \<not> prefix ''_row'' name) (zip (ba_fields b) (ba_columns b)))"

definition row_signature :: "('c, 'x) arrow_scheme \<Rightarrow> 'c batch \<Rightarrow> nat \<Rightarrow> omni_error + string" where
  "row_signature ar b row =
     r_bind (r_map (\<lambda>column. lance_result (ar_value_text ar column row)) (signature_columns b)) (\<lambda>values.
     Inr (join_text [CHR 0x1F] values))"

definition row_id_at :: "('c, 'x) arrow_scheme \<Rightarrow> 'c batch \<Rightarrow> nat \<Rightarrow> omni_error + string" where
  "row_id_at ar b row =
     r_bind (ok_or (map_of (zip (ba_fields b) (ba_columns b)) ''id'')
              (BadRequest ''batch missing id column'' [])) (\<lambda>column.
     r_bind (ok_or (ar_utf8_values ar column) (BadRequest ''id column is not Utf8'' [])) (\<lambda>ids.
     if row < length ids then Inr (ids ! row) else Inl IndexOutOfBoundsPanic))"

section \<open>Cursors\<close>

record ('c, 'd) cursor_row =
  cr_id :: string
  cr_signature :: string
  cr_dataset :: 'd
  cr_batch :: "'c batch"
  cr_row_index :: nat

definition compute_signature ::
    "('c, 'x) arrow_scheme \<Rightarrow> ('c, 'd) cursor_row \<Rightarrow> omni_error + string" where
  "compute_signature ar r = row_signature ar (cr_batch r) (cr_row_index r)"

type_synonym 'c batch_stream = "(string + 'c batch) list"

record ('c, 'd) cursor =
  oc_stream :: "'c batch_stream option"
  oc_dataset :: "'d option"
  oc_current_batch :: "'c batch option"
  oc_current_row :: nat
  oc_peeked :: "('c, 'd) cursor_row option"
  oc_eager_signatures :: bool

record ('c, 'd, 'n) table_access =
  ta_has_entry :: "'n \<Rightarrow> string \<Rightarrow> bool"
  ta_open_dataset :: "'n \<Rightarrow> string \<Rightarrow> omni_error + 'd"
  ta_ordered_scan :: "'d \<Rightarrow> omni_error + 'c batch_stream"

definition cursor_from_dataset ::
    "('c, 'd, 'n, 'x) table_access_scheme \<Rightarrow> 'd option \<Rightarrow> bool \<Rightarrow> omni_error + ('c, 'd) cursor" where
  "cursor_from_dataset ta dataset eager =
     r_bind (case dataset of
               Some ds \<Rightarrow> r_bind (ta_ordered_scan ta ds) (\<lambda>items. Inr (Some items))
             | None \<Rightarrow> Inr None) (\<lambda>stream.
     Inr \<lparr>oc_stream = stream, oc_dataset = dataset, oc_current_batch = None, oc_current_row = 0,
          oc_peeked = None, oc_eager_signatures = eager\<rparr>)"

definition cursor_open ::
    "('c, 'd, 'n, 'x) table_access_scheme \<Rightarrow> 'n \<Rightarrow> string \<Rightarrow> bool \<Rightarrow> omni_error + ('c, 'd) cursor" where
  "cursor_open ta snapshot table_key eager =
     r_bind (if ta_has_entry ta snapshot table_key
             then r_bind (ta_open_dataset ta snapshot table_key) (\<lambda>ds. Inr (Some ds))
             else Inr None) (\<lambda>dataset.
     cursor_from_dataset ta dataset eager)"

definition from_snapshot ::
    "('c, 'd, 'n, 'x) table_access_scheme \<Rightarrow> 'n \<Rightarrow> string \<Rightarrow> omni_error + ('c, 'd) cursor" where
  "from_snapshot ta snapshot table_key = cursor_open ta snapshot table_key True"

definition from_snapshot_lazy ::
    "('c, 'd, 'n, 'x) table_access_scheme \<Rightarrow> 'n \<Rightarrow> string \<Rightarrow> omni_error + ('c, 'd) cursor" where
  "from_snapshot_lazy ta snapshot table_key = cursor_open ta snapshot table_key False"

text \<open>The row at an index of a batch, as a cursor over \<open>dataset\<close> gives it out.\<close>

definition emit_row :: "('c, 'x) arrow_scheme \<Rightarrow> 'd option \<Rightarrow> bool \<Rightarrow> 'c batch \<Rightarrow> nat \<Rightarrow>
    omni_error + ('c, 'd) cursor_row" where
  "emit_row ar dataset eager b row =
     r_bind (ok_or dataset (BadRequest ''cursor row missing source dataset'' [])) (\<lambda>ds.
     r_bind (if eager then row_signature ar b row else Inr []) (\<lambda>signature.
     r_bind (row_id_at ar b row) (\<lambda>i.
     Inr \<lparr>cr_id = i, cr_signature = signature, cr_dataset = ds, cr_batch = b, cr_row_index = row\<rparr>)))"

definition emit_current :: "('c, 'x) arrow_scheme \<Rightarrow> ('c, 'd) cursor \<Rightarrow> 'c batch \<Rightarrow>
    omni_error + ('c, 'd) cursor_row option \<times> ('c, 'd) cursor" where
  "emit_current ar c b =
     r_bind (emit_row ar (oc_dataset c) (oc_eager_signatures c) b (oc_current_row c)) (\<lambda>r.
     Inr (Some r, c\<lparr>oc_current_row := oc_current_row c + 1\<rparr>))"

primrec next_row_stream :: "('c, 'x) arrow_scheme \<Rightarrow> 'c batch_stream \<Rightarrow> ('c, 'd) cursor \<Rightarrow>
    omni_error + ('c, 'd) cursor_row option \<times> ('c, 'd) cursor" where
  "next_row_stream ar [] c = Inr (None, c\<lparr>oc_stream := None, oc_current_batch := None\<rparr>)"
| "next_row_stream ar (item # items) c =
     (case item of
        Inl e \<Rightarrow> Inl (OmniLance e)
      | Inr b \<Rightarrow>
          let c' = c\<lparr>oc_stream := Some items, oc_current_batch := Some b, oc_current_row := 0\<rparr> in
          if 0 < ba_num_rows b then emit_current ar c' b else next_row_stream ar items c')"

definition next_row :: "('c, 'x) arrow_scheme \<Rightarrow> ('c, 'd) cursor \<Rightarrow>
    omni_error + ('c, 'd) cursor_row option \<times> ('c, 'd) cursor" where
  "next_row ar c =
     (case oc_current_batch c of
        Some b \<Rightarrow>
          if oc_current_row c < ba_num_rows b then emit_current ar c b
          else (case oc_stream c of None \<Rightarrow> Inr (None, c) | Some items \<Rightarrow> next_row_stream ar items c)
      | None \<Rightarrow> (case oc_stream c of None \<Rightarrow> Inr (None, c) | Some items \<Rightarrow> next_row_stream ar items c))"

definition peek_cloned :: "('c, 'x) arrow_scheme \<Rightarrow> ('c, 'd) cursor \<Rightarrow>
    omni_error + ('c, 'd) cursor_row option \<times> ('c, 'd) cursor" where
  "peek_cloned ar c =
     (case oc_peeked c of
        None \<Rightarrow> r_bind (next_row ar c) (\<lambda>(r, c'). Inr (r, c'\<lparr>oc_peeked := r\<rparr>))
      | Some r \<Rightarrow> Inr (Some r, c))"

definition pop :: "('c, 'x) arrow_scheme \<Rightarrow> ('c, 'd) cursor \<Rightarrow>
    omni_error + ('c, 'd) cursor_row option \<times> ('c, 'd) cursor" where
  "pop ar c =
     (case oc_peeked c of
        Some r \<Rightarrow> Inr (Some r, c\<lparr>oc_peeked := None\<rparr>)
      | None \<Rightarrow> next_row ar c)"

section \<open>What a cursor still has to give\<close>

definition batch_rows :: "('c, 'x) arrow_scheme \<Rightarrow> 'd option \<Rightarrow> bool \<Rightarrow> nat \<Rightarrow> 'c batch \<Rightarrow>
    omni_error + ('c, 'd) cursor_row list" where
  "batch_rows ar dataset eager start b = r_map (emit_row ar dataset eager b) [start..<ba_num_rows b]"

primrec stream_rows :: "('c, 'x) arrow_scheme \<Rightarrow> 'd option \<Rightarrow> bool \<Rightarrow> 'c batch_stream \<Rightarrow>
    omni_error + ('c, 'd) cursor_row list" where
  "stream_rows ar dataset eager [] = Inr []"
| "stream_rows ar dataset eager (item # items) =
     r_bind (lance_result item) (\<lambda>b.
     r_bind (batch_rows ar dataset eager 0 b) (\<lambda>rs.
     r_bind (stream_rows ar dataset eager items) (\<lambda>rs'. Inr (rs @ rs'))))"

fun now_rows :: "('c, 'x) arrow_scheme \<Rightarrow> 'd option \<Rightarrow> bool \<Rightarrow> nat \<Rightarrow> 'c batch option \<Rightarrow>
    omni_error + ('c, 'd) cursor_row list" where
  "now_rows ar dataset eager start None = Inr []"
| "now_rows ar dataset eager start (Some b) = batch_rows ar dataset eager start b"

fun later_rows :: "('c, 'x) arrow_scheme \<Rightarrow> 'd option \<Rightarrow> bool \<Rightarrow> 'c batch_stream option \<Rightarrow>
    omni_error + ('c, 'd) cursor_row list" where
  "later_rows ar dataset eager None = Inr []"
| "later_rows ar dataset eager (Some items) = stream_rows ar dataset eager items"

text \<open>\<open>yields ar c rs\<close>: the cursor gives out exactly the rows \<open>rs\<close>, then ends, without an error.\<close>

definition yields :: "('c, 'x) arrow_scheme \<Rightarrow> ('c, 'd) cursor \<Rightarrow> ('c, 'd) cursor_row list \<Rightarrow> bool" where
  "yields ar c rs \<longleftrightarrow>
     (\<exists>now later.
        now_rows ar (oc_dataset c) (oc_eager_signatures c) (oc_current_row c) (oc_current_batch c) = Inr now \<and>
        later_rows ar (oc_dataset c) (oc_eager_signatures c) (oc_stream c) = Inr later \<and>
        rs = (case oc_peeked c of Some r \<Rightarrow> [r] | None \<Rightarrow> []) @ now @ later)"

fun batch_size :: "string + 'c batch \<Rightarrow> nat" where
  "batch_size (Inl e) = 0"
| "batch_size (Inr b) = ba_num_rows b"

definition cursor_size :: "('c, 'd) cursor \<Rightarrow> nat" where
  "cursor_size c =
     (case oc_peeked c of Some r \<Rightarrow> 1 | None \<Rightarrow> 0) +
     (case oc_current_batch c of Some b \<Rightarrow> ba_num_rows b - oc_current_row c | None \<Rightarrow> 0) +
     (case oc_stream c of Some items \<Rightarrow> sum_list (map batch_size items) | None \<Rightarrow> 0)"

text \<open>Reading never makes a cursor longer, and a row that is taken makes it shorter.\<close>

lemma next_row_stream_size:
  assumes "next_row_stream ar items c = Inr (r, c')" "oc_peeked c = None"
  shows "cursor_size c' + (case r of Some _ \<Rightarrow> 1 | None \<Rightarrow> 0) \<le> sum_list (map batch_size items) \<and>
         oc_peeked c' = None"
  using assms
proof (induction items arbitrary: c)
  case Nil
  then show ?case by (auto simp: cursor_size_def)
next
  case (Cons item items)
  show ?case
  proof (cases item)
    case (Inl e)
    with Cons.prems show ?thesis by simp
  next
    case (Inr b)
    show ?thesis
    proof (cases "ba_num_rows b = 0")
      case True
      with Cons Inr show ?thesis by (simp add: Let_def)
    next
      case False
      with Cons.prems Inr show ?thesis
        by (auto simp: emit_current_def cursor_size_def Let_def)
    qed
  qed
qed

lemma next_row_size:
  assumes "next_row ar c = Inr (r, c')" "oc_peeked c = None"
  shows "cursor_size c' + (case r of Some _ \<Rightarrow> 1 | None \<Rightarrow> 0) \<le> cursor_size c \<and> oc_peeked c' = None"
proof (cases "\<exists>b. oc_current_batch c = Some b \<and> oc_current_row c < ba_num_rows b")
  case True
  with assms show ?thesis by (auto simp: next_row_def emit_current_def cursor_size_def)
next
  case False
  then have "(case oc_stream c of None \<Rightarrow> Inr (None, c) | Some items \<Rightarrow> next_row_stream ar items c) = Inr (r, c')"
    using assms by (auto simp: next_row_def split: option.splits)
  then show ?thesis
    using assms(2) next_row_stream_size [of ar _ c r c']
    by (fastforce simp: cursor_size_def split: option.splits)
qed

lemma peek_size: "peek_cloned ar c = Inr (r, c') \<Longrightarrow> cursor_size c' \<le> cursor_size c \<and> oc_peeked c' = r"
  using next_row_size [of ar c]
  by (auto simp: peek_cloned_def cursor_size_def split: option.splits)

lemma pop_peeked: "oc_peeked c = Some r \<Longrightarrow> pop ar c = Inr (Some r, c\<lparr>oc_peeked := None\<rparr>)"
  by (simp add: pop_def)

lemma pop_peeked_size: "oc_peeked c = Some r \<Longrightarrow> cursor_size (c\<lparr>oc_peeked := None\<rparr>) < cursor_size c"
  by (simp add: cursor_size_def split: option.split)


section \<open>Reading rows one at a time\<close>

text \<open>The interface the merge loops read tables through.\<close>

locale row_source =
  fixes peek pop :: "'s \<Rightarrow> 'e + 'r option \<times> 's" and holds :: "'s \<Rightarrow> 'r list \<Rightarrow> bool"
  assumes peek_holds: "holds c rs \<Longrightarrow> \<exists>c'. peek c = Inr (if rs = [] then None else Some (hd rs), c') \<and> holds c' rs"
    and pop_holds: "holds c rs \<Longrightarrow> \<exists>c'. pop c = Inr (if rs = [] then None else Some (hd rs), c') \<and> holds c' (tl rs)"
begin

lemma peek_empty: "holds c [] \<Longrightarrow> peek c = Inr (r, c') \<Longrightarrow> r = None \<and> holds c' []"
  using peek_holds [of c "[]"] by auto

lemma peek_Cons: "holds c (x # xs) \<Longrightarrow> peek c = Inr (r, c') \<Longrightarrow> r = Some x \<and> holds c' (x # xs)"
  using peek_holds [of c "x # xs"] by auto

text \<open>Peek, then take the row when it is the wanted one: what every merge loop does per table.\<close>

lemma take_matching:
  assumes "holds c rs" "peek c = Inr (r, c')"
  shows "r = (if rs = [] then None else Some (hd rs))"
    and "\<exists>r' c''. (if P r then pop c' else Inr (None, c')) = Inr (r', c'') \<and>
           r' = (if P r \<and> rs \<noteq> [] then Some (hd rs) else None) \<and>
           holds c'' (if P r \<and> rs \<noteq> [] then tl rs else rs)"
proof -
  have r: "r = (if rs = [] then None else Some (hd rs))" and c': "holds c' rs"
    using peek_holds [OF assms(1)] assms(2) by auto
  show "r = (if rs = [] then None else Some (hd rs))" by (rule r)
  show "\<exists>r' c''. (if P r then pop c' else Inr (None, c')) = Inr (r', c'') \<and>
           r' = (if P r \<and> rs \<noteq> [] then Some (hd rs) else None) \<and>
           holds c'' (if P r \<and> rs \<noteq> [] then tl rs else rs)"
    using pop_holds [OF c'] c' by (cases "P r"; cases rs) auto
qed

end

lemma batch_rows_step:
  assumes "n < ba_num_rows b"
  shows "batch_rows ar d e n b =
    r_bind (emit_row ar d e b n) (\<lambda>r. r_bind (batch_rows ar d e (Suc n) b) (\<lambda>rs. Inr (r # rs)))"
  using assms by (simp add: batch_rows_def upt_conv_Cons)

lemma batch_rows_end: "\<not> n < ba_num_rows b \<Longrightarrow> batch_rows ar d e n b = Inr []"
  by (simp add: batch_rows_def)

lemma emit_current_yields:
  assumes "oc_current_batch c = Some b" "oc_current_row c < ba_num_rows b"
    and "yields ar c rs" "oc_peeked c = None"
  shows "\<exists>r rs' c'. rs = r # rs' \<and> emit_current ar c b = Inr (Some r, c') \<and> oc_peeked c' = None \<and> yields ar c' rs'"
  using assms
  by (auto simp: yields_def emit_current_def batch_rows_step split: option.splits)

lemma next_row_stream_yields:
  assumes "stream_rows ar (oc_dataset c) (oc_eager_signatures c) items = Inr rs" "oc_peeked c = None"
  shows "\<exists>c'. next_row_stream ar items c = Inr (if rs = [] then None else Some (hd rs), c') \<and>
    oc_peeked c' = None \<and> yields ar c' (tl rs)"
  using assms
proof (induction items arbitrary: c)
  case Nil
  then show ?case by (auto simp: yields_def)
next
  case (Cons item items)
  then obtain b xs ys where b: "item = Inr b"
    and xs: "batch_rows ar (oc_dataset c) (oc_eager_signatures c) 0 b = Inr xs"
    and ys: "stream_rows ar (oc_dataset c) (oc_eager_signatures c) items = Inr ys" and rs: "rs = xs @ ys"
    by (auto simp: lance_result_def split: sum.splits)
  let ?c = "c\<lparr>oc_stream := Some items, oc_current_batch := Some b, oc_current_row := 0\<rparr>"
  show ?case
  proof (cases "ba_num_rows b = 0")
    case True
    with xs have "xs = []" by (simp add: batch_rows_end)
    with Cons.IH [of ?c] True b ys rs Cons.prems(2) show ?thesis by (simp add: Let_def)
  next
    case False
    have "yields ar ?c rs" using xs ys rs Cons.prems(2) by (simp add: yields_def)
    from emit_current_yields [OF _ _ this, of b] False Cons.prems(2) b show ?thesis
      by (auto simp: Let_def)
  qed
qed

lemma next_row_yields:
  assumes y: "yields ar c rs" and p: "oc_peeked c = None"
  shows "\<exists>c'. next_row ar c = Inr (if rs = [] then None else Some (hd rs), c') \<and>
    oc_peeked c' = None \<and> yields ar c' (tl rs)"
proof (cases "\<exists>b. oc_current_batch c = Some b \<and> oc_current_row c < ba_num_rows b")
  case True
  then obtain b where b: "oc_current_batch c = Some b" "oc_current_row c < ba_num_rows b" by blast
  from emit_current_yields [OF b y p] show ?thesis
    by (auto simp: next_row_def b)
next
  case False
  then have now: "now_rows ar (oc_dataset c) (oc_eager_signatures c) (oc_current_row c) (oc_current_batch c) = Inr []"
    by (cases "oc_current_batch c") (auto simp: batch_rows_end)
  have nr: "next_row ar c = (case oc_stream c of None \<Rightarrow> Inr (None, c) | Some items \<Rightarrow> next_row_stream ar items c)"
    using False by (auto simp: next_row_def split: option.split)
  show ?thesis
  proof (cases "oc_stream c")
    case None
    with y p now have "rs = []" by (auto simp: yields_def)
    then show ?thesis using None nr y p by auto
  next
    case (Some items)
    with y p now have "stream_rows ar (oc_dataset c) (oc_eager_signatures c) items = Inr rs"
      by (auto simp: yields_def)
    with next_row_stream_yields [OF this p] Some nr show ?thesis by simp
  qed
qed

lemma yields_peeked:
  "oc_peeked c = Some r \<Longrightarrow> yields ar c rs \<longleftrightarrow> (\<exists>rs'. rs = r # rs' \<and> yields ar (c\<lparr>oc_peeked := None\<rparr>) rs')"
  by (auto simp: yields_def)

lemma yields_set_peeked:
  "oc_peeked c = None \<Longrightarrow> yields ar c rs \<Longrightarrow> yields ar (c\<lparr>oc_peeked := Some r\<rparr>) (r # rs)"
  by (auto simp: yields_def)

lemma yields_clear_peeked:
  "oc_peeked c = None \<Longrightarrow> yields ar c rs \<Longrightarrow> yields ar (c\<lparr>oc_peeked := None\<rparr>) rs"
  by (simp add: yields_def)

interpretation table_cursor: row_source "peek_cloned ar" "pop ar" "yields ar"
  for ar :: "('c, 'x) arrow_scheme"
proof unfold_locales
  fix c :: "('c, 'd) cursor" and rs
  assume y: "yields ar c rs"
  show "\<exists>c'. peek_cloned ar c = Inr (if rs = [] then None else Some (hd rs), c') \<and> yields ar c' rs"
  proof (cases "oc_peeked c")
    case None
    then obtain c' where c': "next_row ar c = Inr (if rs = [] then None else Some (hd rs), c')"
      "oc_peeked c' = None" "yields ar c' (tl rs)"
      using next_row_yields [OF y] by blast
    show ?thesis
      using None c' yields_set_peeked [OF c'(2,3), of "hd rs"] yields_clear_peeked [OF c'(2,3)]
      by (cases rs) (auto simp: peek_cloned_def)
  next
    case (Some r)
    then show ?thesis using y by (auto simp: peek_cloned_def yields_peeked)
  qed
  show "\<exists>c'. pop ar c = Inr (if rs = [] then None else Some (hd rs), c') \<and> yields ar c' (tl rs)"
  proof (cases "oc_peeked c")
    case None
    then show ?thesis using next_row_yields [OF y None] by (auto simp: pop_def)
  next
    case (Some r)
    then show ?thesis using y by (auto simp: pop_def yields_peeked)
  qed
qed

text \<open>A freshly opened cursor gives out the rows of the table's scan.\<close>

lemma cursor_open_yields:
  assumes "cursor_open ta snapshot table_key eager = Inr c" "ta_has_entry ta snapshot table_key"
    and "ta_open_dataset ta snapshot table_key = Inr ds" "ta_ordered_scan ta ds = Inr items"
    and "stream_rows ar (Some ds) eager items = Inr rs"
  shows "yields ar c rs"
  using assms by (auto simp: cursor_open_def cursor_from_dataset_def yields_def)

lemma cursor_open_absent:
  assumes "cursor_open ta snapshot table_key eager = Inr c" "\<not> ta_has_entry ta snapshot table_key"
  shows "yields ar c []"
  using assms by (auto simp: cursor_open_def cursor_from_dataset_def yields_def)

end
