(* ===== verification/Merge_Writer.thy ===== *)
theory Merge_Writer
  imports Merge_Cursor
begin

text \<open>
  The spill writer of a branch merge (\<^verbatim>\<open>StagedTableWriter\<close> in \<^verbatim>\<open>omnigraph/src/exec/merge.rs\<close>) and the
  counting of its chunks for the recovery plan. Rows are buffered and flushed to a temporary table
  so that every flushed chunk is within the row and byte bounds. Arrow, Lance and the blob
  materializer of the table store are the record \<open>staging\<close>.
\<close>

section \<open>The writer\<close>

record ('c, 'd, 'p) staging =
  sg_take_row :: "'c batch \<Rightarrow> nat \<Rightarrow> string + 'c batch"
  sg_memory_size :: "'c batch \<Rightarrow> nat"
  sg_try_new :: "arrow_field list \<Rightarrow> 'c list \<Rightarrow> string + 'c batch"
  sg_concat_batches :: "arrow_field list \<Rightarrow> 'c batch list \<Rightarrow> string + 'c batch"
  sg_lance_is_blob :: "arrow_field \<Rightarrow> string + bool"
  sg_stage_root :: "string option"
  sg_tempdir :: "string option \<Rightarrow> string \<Rightarrow> omni_error + string"
  sg_append_or_create :: "string \<Rightarrow> 'd option \<Rightarrow> 'c batch \<Rightarrow> omni_error + 'd"
  sg_create_empty :: "string \<Rightarrow> arrow_field list \<Rightarrow> omni_error + 'd"
  sg_predicted_blob_bytes :: "'d \<Rightarrow> 'c batch \<Rightarrow> omni_error + u64"
  sg_materialize_blobs :: "'d \<Rightarrow> 'c batch \<Rightarrow> 'p \<Rightarrow> omni_error + 'c batch \<times> 'p"
  sg_no_payloads :: 'p

definition MAX_BRANCH_MERGE_DATA_TRANSACTIONS :: u64 where
  "MAX_BRANCH_MERGE_DATA_TRANSACTIONS = 1024"

record 'd staged_table =
  sd_dir :: string
  sd_dataset :: 'd
  sd_row_count :: u64
  sd_chunk_rows :: "nat list"

record ('c, 'd, 'p) staged_table_writer =
  sw_schema :: "arrow_field list"
  sw_materialize_blobs :: bool
  sw_dataset_uri :: string
  sw_dir :: string
  sw_dataset :: "'d option"
  sw_buffered_rows :: nat
  sw_buffered_bytes :: u64
  sw_row_count :: u64
  sw_chunk_rows :: "nat list"
  sw_batches :: "'c batch list"
  sw_external_payloads :: 'p

fun field_name :: "arrow_field \<Rightarrow> string" where
  "field_name (Field name dt nullable) = name"

fun field_data_type :: "arrow_field \<Rightarrow> data_type" where
  "field_data_type (Field name dt nullable) = dt"

primrec schema_has_blob :: "('c, 'd, 'p, 'x) staging_scheme \<Rightarrow> arrow_field list \<Rightarrow> omni_error + bool" where
  "schema_has_blob sg [] = Inr False"
| "schema_has_blob sg (f # fs) =
     (if field_data_type f = LargeBinary then Inr True
      else r_bind (lance_result (sg_lance_is_blob sg f)) (\<lambda>blob.
           if blob then Inr True else schema_has_blob sg fs))"

definition sanitize_table_key :: "string \<Rightarrow> string" where
  "sanitize_table_key table_key =
     map (\<lambda>ch. if ch = CHR '':'' \<or> ch = CHR ''/'' \<or> ch = CHR 0x5C then CHR ''-'' else ch) table_key"

definition merge_stage_tempdir :: "('c, 'd, 'p, 'x) staging_scheme \<Rightarrow> string \<Rightarrow> omni_error + string" where
  "merge_stage_tempdir sg table_key =
     sg_tempdir sg (sg_stage_root sg) (''omnigraph-merge-'' @ sanitize_table_key table_key @ ''-'')"

definition writer_new :: "('c, 'd, 'p, 'x) staging_scheme \<Rightarrow> string \<Rightarrow> arrow_field list \<Rightarrow>
    omni_error + ('c, 'd, 'p) staged_table_writer" where
  "writer_new sg table_key schema =
     r_bind (merge_stage_tempdir sg table_key) (\<lambda>dir.
     r_bind (schema_has_blob sg schema) (\<lambda>materialize_blobs.
     Inr \<lparr>sw_schema = schema, sw_materialize_blobs = materialize_blobs,
          sw_dataset_uri = dir @ ''/table.lance'', sw_dir = dir, sw_dataset = None,
          sw_buffered_rows = 0, sw_buffered_bytes = 0, sw_row_count = 0, sw_chunk_rows = [],
          sw_batches = [], sw_external_payloads = sg_no_payloads sg\<rparr>))"

definition writer_flush :: "('c, 'd, 'p, 'x) staging_scheme \<Rightarrow> ('c, 'd, 'p) staged_table_writer \<Rightarrow>
    omni_error + ('c, 'd, 'p) staged_table_writer" where
  "writer_flush sg w =
     (if sw_batches w = [] then Inr w
      else
        r_bind (if length (sw_batches w) = 1 then Inr (last (sw_batches w))
                else lance_result (sg_concat_batches sg (sw_schema w) (sw_batches w))) (\<lambda>b.
        let chunk_rows = sw_chunk_rows w @ [ba_num_rows b] in
        r_bind (u64_try_from (length chunk_rows) (internal ''branch merge chunk count exceeds u64''))
          (\<lambda>chunk_count.
        r_bind (guard (\<not> MAX_BRANCH_MERGE_DATA_TRANSACTIONS < chunk_count)
                 (ResourceLimitExceeded ''branch-merge recovery transaction chain''
                    MAX_BRANCH_MERGE_DATA_TRANSACTIONS chunk_count)) (\<lambda>_.
        r_bind (sg_append_or_create sg (sw_dataset_uri w) (sw_dataset w) b) (\<lambda>ds.
        Inr (w\<lparr>sw_batches := [], sw_buffered_rows := 0, sw_buffered_bytes := 0,
               sw_chunk_rows := chunk_rows, sw_dataset := Some ds,
               sw_external_payloads := sg_no_payloads sg\<rparr>))))))"

definition row_batch :: "('c, 'd, 'p, 'x) staging_scheme \<Rightarrow> ('c, 'd, 'p) staged_table_writer \<Rightarrow>
    ('c, 'd) cursor_row \<Rightarrow> 'c batch \<Rightarrow> omni_error + 'c batch \<times> 'p" where
  "row_batch sg w row b =
     (if sw_materialize_blobs w
      then sg_materialize_blobs sg (cr_dataset row) b (sw_external_payloads w)
      else
        r_bind (r_map (\<lambda>field. ok_or (map_of (zip (ba_fields b) (ba_columns b)) (field_name field))
                        (OmniLance (''batch missing column '' @ [quote] @ field_name field @ [quote])))
                 (sw_schema w)) (\<lambda>columns.
        r_bind (lance_result (sg_try_new sg (sw_schema w) columns)) (\<lambda>b'.
        Inr (b', sw_external_payloads w))))"

definition exceeds :: "u64 \<Rightarrow> u64 \<Rightarrow> bool" where
  "exceeds buffered bytes = is_none_or (checked_add buffered bytes) (\<lambda>total. KEYED_WRITE_MAX_BYTES < total)"

definition flush_when :: "('c, 'd, 'p, 'x) staging_scheme \<Rightarrow> bool \<Rightarrow> ('c, 'd, 'p) staged_table_writer \<Rightarrow>
    omni_error + ('c, 'd, 'p) staged_table_writer" where
  "flush_when sg c w = (if c then writer_flush sg w else Inr w)"

definition predicted_row_bytes :: "('c, 'd, 'p, 'x) staging_scheme \<Rightarrow> ('c, 'd, 'p) staged_table_writer \<Rightarrow>
    ('c, 'd) cursor_row \<Rightarrow> 'c batch \<Rightarrow> omni_error + u64" where
  "predicted_row_bytes sg w row input =
     (if sw_materialize_blobs w then sg_predicted_blob_bytes sg (cr_dataset row) input
      else u64_try_from (sg_memory_size sg input) (internal ''branch merge row memory size exceeds u64''))"

definition push_row :: "('c, 'd, 'p, 'x) staging_scheme \<Rightarrow> ('c, 'd) cursor_row \<Rightarrow>
    ('c, 'd, 'p) staged_table_writer \<Rightarrow> omni_error + ('c, 'd, 'p) staged_table_writer" where
  "push_row sg row w =
     r_bind (lance_result (sg_take_row sg (cr_batch row) (cr_row_index row))) (\<lambda>input.
     r_bind (predicted_row_bytes sg w row input) (\<lambda>predicted.
     r_bind (guard (\<not> KEYED_WRITE_MAX_BYTES < predicted)
              (ResourceLimitExceeded ''branch-merge fenced row bytes'' KEYED_WRITE_MAX_BYTES predicted)) (\<lambda>_.
     r_bind (flush_when sg (0 < sw_buffered_rows w \<and>
               (KEYED_WRITE_MAX_ROWS \<le> sw_buffered_rows w \<or> exceeds (sw_buffered_bytes w) predicted)) w) (\<lambda>w.
     r_bind (row_batch sg w row input) (\<lambda>(b, payloads).
     let w = w\<lparr>sw_external_payloads := payloads\<rparr> in
     r_bind (u64_try_from (sg_memory_size sg b) (internal ''branch merge row memory size exceeds u64'')) (\<lambda>row_bytes.
     r_bind (guard (\<not> KEYED_WRITE_MAX_BYTES < row_bytes)
              (ResourceLimitExceeded ''branch-merge fenced row bytes'' KEYED_WRITE_MAX_BYTES row_bytes)) (\<lambda>_.
     r_bind (flush_when sg (0 < sw_buffered_rows w \<and>
               (KEYED_WRITE_MAX_ROWS \<le> sw_buffered_rows w \<or> exceeds (sw_buffered_bytes w) row_bytes)) w) (\<lambda>w.
     r_bind (ok_or (checked_add (sw_row_count w) 1) (internal ''branch merge row count overflow'')) (\<lambda>row_count.
     r_bind (ok_or (checked_add (sw_buffered_bytes w) row_bytes)
              (internal ''branch merge byte count overflow'')) (\<lambda>buffered_bytes.
     let w = w\<lparr>sw_row_count := row_count, sw_buffered_rows := sw_buffered_rows w + 1,
               sw_buffered_bytes := buffered_bytes, sw_batches := sw_batches w @ [b]\<rparr> in
     flush_when sg (KEYED_WRITE_MAX_ROWS \<le> sw_buffered_rows w \<or>
                    KEYED_WRITE_MAX_BYTES \<le> sw_buffered_bytes w) w))))))))))"

definition writer_finish :: "('c, 'd, 'p, 'x) staging_scheme \<Rightarrow> ('c, 'd, 'p) staged_table_writer \<Rightarrow>
    omni_error + 'd staged_table" where
  "writer_finish sg w =
     r_bind (writer_flush sg w) (\<lambda>w.
     r_bind (case sw_dataset w of
               None \<Rightarrow> sg_create_empty sg (sw_dataset_uri w) (sw_schema w)
             | Some ds \<Rightarrow> Inr ds) (\<lambda>ds.
     Inr \<lparr>sd_dir = sw_dir w, sd_dataset = ds, sd_row_count = sw_row_count w, sd_chunk_rows = sw_chunk_rows w\<rparr>))"

definition writer_finish_nonempty :: "('c, 'd, 'p, 'x) staging_scheme \<Rightarrow> ('c, 'd, 'p) staged_table_writer \<Rightarrow>
    omni_error + 'd staged_table option" where
  "writer_finish_nonempty sg w =
     (if 0 < sw_row_count w then r_bind (writer_finish sg w) (\<lambda>t. Inr (Some t)) else Inr None)"

section \<open>Chunks of the recovery plan\<close>

primrec checked_total :: "omni_error \<Rightarrow> nat list \<Rightarrow> u64 \<Rightarrow> omni_error + u64" where
  "checked_total e [] acc = Inr acc"
| "checked_total e (n # ns) acc =
     r_bind (ok_or (checked_add acc (of_nat n)) e) (checked_total e ns)"

definition staged_keyed_chunk_count :: "string \<Rightarrow> ('d, 'x) staged_table_scheme \<Rightarrow> omni_error + nat" where
  "staged_keyed_chunk_count table_key t =
     r_bind (guard (\<not> (sd_row_count t = 0 \<or> sd_chunk_rows t = []))
              (ManifestInternal ''branch merge strict-insert table {} is empty'' [ArgText table_key])) (\<lambda>_.
     r_bind (checked_total (internal ''branch merge planned row overflow'') (sd_chunk_rows t) 0) (\<lambda>planned_rows.
     r_bind (guard (planned_rows = sd_row_count t)
              (ManifestInternal ''branch merge strict-insert chunks for {} contain {} rows, expected {}''
                 [ArgText table_key, ArgNum planned_rows, ArgNum (sd_row_count t)])) (\<lambda>_.
     Inr (length (sd_chunk_rows t)))))"


section \<open>What the libraries promise\<close>

text \<open>
  \<open>cells\<close> are the values of a column, \<open>table_rows\<close> the rows of a table; Arrow's \<^verbatim>\<open>take\<close>,
  \<^verbatim>\<open>try_new\<close> and \<^verbatim>\<open>concat_batches\<close> and Lance's append keep them.
\<close>

definition batch_values :: "('c \<Rightarrow> 'v list) \<Rightarrow> 'c batch \<Rightarrow> 'v list list" where
  "batch_values cells b = map (\<lambda>i. map (\<lambda>c. cells c ! i) (ba_columns b)) [0..<ba_num_rows b]"

definition existing_rows :: "('d \<Rightarrow> 'v list list) \<Rightarrow> 'd option \<Rightarrow> 'v list list" where
  "existing_rows table_rows d = (case d of None \<Rightarrow> [] | Some ds \<Rightarrow> table_rows ds)"

definition staging_laws :: "('c, 'd, 'p, 'x) staging_scheme \<Rightarrow> ('c \<Rightarrow> 'v list) \<Rightarrow> ('d \<Rightarrow> 'v list list) \<Rightarrow> bool" where
  "staging_laws sg cells table_rows \<longleftrightarrow>
     (\<forall>b i b'. sg_take_row sg b i = Inr b' \<longrightarrow>
        ba_fields b' = ba_fields b \<and> ba_num_rows b' = 1 \<and>
        (\<forall>c \<in> set (ba_columns b'). length (cells c) = 1) \<and>
        map (\<lambda>c. cells c ! 0) (ba_columns b') = map (\<lambda>c. cells c ! i) (ba_columns b)) \<and>
     (\<forall>fs cols n b'. sg_try_new sg fs cols = Inr b' \<longrightarrow> cols \<noteq> [] \<longrightarrow>
        (\<forall>c \<in> set cols. length (cells c) = n) \<longrightarrow> ba_columns b' = cols \<and> ba_num_rows b' = n) \<and>
     (\<forall>fs bs b'. sg_concat_batches sg fs bs = Inr b' \<longrightarrow>
        ba_num_rows b' = sum_list (map ba_num_rows bs) \<and>
        batch_values cells b' = concat (map (batch_values cells) bs)) \<and>
     (\<forall>uri d b ds. sg_append_or_create sg uri d b = Inr ds \<longrightarrow>
        table_rows ds = existing_rows table_rows d @ batch_values cells b)"

lemma staging_take:
  assumes "staging_laws sg cells table_rows" "sg_take_row sg b i = Inr b'"
  shows "ba_fields b' = ba_fields b" "ba_num_rows b' = 1"
    "\<forall>c \<in> set (ba_columns b'). length (cells c) = 1"
    "map (\<lambda>c. cells c ! 0) (ba_columns b') = map (\<lambda>c. cells c ! i) (ba_columns b)"
  using assms unfolding staging_laws_def by blast+

lemma staging_new:
  assumes "staging_laws sg cells table_rows" "sg_try_new sg fs cols = Inr b'" "cols \<noteq> []"
    "\<forall>c \<in> set cols. length (cells c) = n"
  shows "ba_columns b' = cols" "ba_num_rows b' = n"
  using assms unfolding staging_laws_def by blast+

lemma staging_concat:
  assumes "staging_laws sg cells table_rows" "sg_concat_batches sg fs bs = Inr b'"
  shows "ba_num_rows b' = sum_list (map ba_num_rows bs)"
    "batch_values cells b' = concat (map (batch_values cells) bs)"
  using assms unfolding staging_laws_def by blast+

lemma staging_append:
  assumes "staging_laws sg cells table_rows" "sg_append_or_create sg uri d b = Inr ds"
  shows "table_rows ds = existing_rows table_rows d @ batch_values cells b"
  using assms unfolding staging_laws_def by blast

section \<open>The invariant of the writer\<close>

text \<open>The values a row stages: its columns in the order of the table schema.\<close>

definition staged_values :: "('c \<Rightarrow> 'v list) \<Rightarrow> arrow_field list \<Rightarrow> ('c, 'd) cursor_row \<Rightarrow> 'v list" where
  "staged_values cells schema row =
     map (\<lambda>f. cells (the (map_of (zip (ba_fields (cr_batch row)) (ba_columns (cr_batch row))) (field_name f))) ! cr_row_index row) schema"

definition writer_inv :: "('c, 'd, 'p, 'x) staging_scheme \<Rightarrow> ('c \<Rightarrow> 'v list) \<Rightarrow> ('d \<Rightarrow> 'v list list) \<Rightarrow>
    ('c, 'd) cursor_row list \<Rightarrow> ('c, 'd, 'p) staged_table_writer \<Rightarrow> bool" where
  "writer_inv sg cells table_rows rs w \<longleftrightarrow>
     sw_schema w \<noteq> [] \<and> \<not> sw_materialize_blobs w \<and>
     sw_buffered_rows w = length (sw_batches w) \<and>
     length (sw_batches w) \<le> KEYED_WRITE_MAX_ROWS \<and>
     (\<forall>b \<in> set (sw_batches w). ba_num_rows b = 1) \<and>
     unat (sw_buffered_bytes w) = sum_list (map (sg_memory_size sg) (sw_batches w)) \<and>
     sw_buffered_bytes w \<le> KEYED_WRITE_MAX_BYTES \<and>
     (\<forall>n \<in> set (sw_chunk_rows w). 1 \<le> n \<and> n \<le> KEYED_WRITE_MAX_ROWS) \<and>
     length (sw_chunk_rows w) \<le> 1024 \<and>
     unat (sw_row_count w) = length rs \<and>
     sum_list (sw_chunk_rows w) + length (sw_batches w) = length rs \<and>
     existing_rows table_rows (sw_dataset w) @ concat (map (batch_values cells) (sw_batches w)) =
       map (staged_values cells (sw_schema w)) rs"

lemma sum_list_ones: "(\<And>b. b \<in> set bs \<Longrightarrow> f b = (1 :: nat)) \<Longrightarrow> sum_list (map f bs) = length bs"
  by (induction bs) auto

lemma writer_flush_inv:
  assumes laws: "staging_laws sg cells table_rows" and inv: "writer_inv sg cells table_rows rs w"
    and flush: "writer_flush sg w = Inr w'"
  shows "writer_inv sg cells table_rows rs w' \<and> sw_batches w' = [] \<and> sw_schema w' = sw_schema w \<and>
    sw_row_count w' = sw_row_count w"
proof (cases "sw_batches w = []")
  case True
  then show ?thesis using assms by (simp add: writer_flush_def)
next
  case False
  then obtain b ds where
    b: "(if length (sw_batches w) = 1 then Inr (last (sw_batches w))
         else lance_result (sg_concat_batches sg (sw_schema w) (sw_batches w))) = Inr b"
    and chain: "length (sw_chunk_rows w) + 1 \<le> 1024"
    and ds: "sg_append_or_create sg (sw_dataset_uri w) (sw_dataset w) b = Inr ds"
    and w': "w' = w\<lparr>sw_batches := [], sw_buffered_rows := 0, sw_buffered_bytes := 0,
               sw_chunk_rows := sw_chunk_rows w @ [ba_num_rows b], sw_dataset := Some ds,
               sw_external_payloads := sg_no_payloads sg\<rparr>"
    using flush
    by (auto simp: writer_flush_def Let_def u64_try_from_Inr_iff word_less_nat_alt
        MAX_BRANCH_MERGE_DATA_TRANSACTIONS_def)
  have one: "\<And>x. x \<in> set (sw_batches w) \<Longrightarrow> ba_num_rows x = 1" using inv by (simp add: writer_inv_def)
  have rows: "ba_num_rows b = length (sw_batches w) \<and>
      batch_values cells b = concat (map (batch_values cells) (sw_batches w))"
  proof (cases "length (sw_batches w) = 1")
    case True
    then obtain x where "sw_batches w = [x]" by (cases "sw_batches w") auto
    with b one show ?thesis by simp
  next
    case more: False
    with b have "sg_concat_batches sg (sw_schema w) (sw_batches w) = Inr b"
      by (auto simp: lance_result_def split: sum.splits if_splits)
    from staging_concat [OF laws this] sum_list_ones [OF one] show ?thesis by simp
  qed
  have "1 \<le> length (sw_batches w)" using False by (cases "sw_batches w") auto
  then show ?thesis
    using inv rows chain staging_append [OF laws ds]
    by (auto simp: writer_inv_def w' existing_rows_def)
qed

lemma flush_when_inv:
  assumes "staging_laws sg cells table_rows" "writer_inv sg cells table_rows rs w"
    and "flush_when sg c w = Inr w'"
  shows "writer_inv sg cells table_rows rs w'" and "sw_schema w' = sw_schema w" and "c \<Longrightarrow> sw_batches w' = []"
    and "\<not> c \<Longrightarrow> w' = w"
  using assms writer_flush_inv [of sg cells table_rows rs w w'] by (auto simp: flush_when_def split: if_splits)


lemma map_of_zip_map_eq:
  "map g cs' = map h cs \<Longrightarrow>
     map_option g (map_of (zip fs cs') n) = map_option h (map_of (zip fs cs) n)"
proof (induction fs arbitrary: cs cs')
  case (Cons f fs)
  then show ?case by (cases cs; cases cs') auto
qed simp

lemma map_of_zip_in: "map_of (zip fs cs) n = Some c \<Longrightarrow> c \<in> set cs"
  by (meson map_of_SomeD set_zip_rightD)

lemma row_batch_values:
  fixes w :: "('c, 'd, 'p) staged_table_writer"
  assumes laws: "staging_laws sg cells table_rows" and plain: "sw_schema w \<noteq> []" "\<not> sw_materialize_blobs w"
    and input: "sg_take_row sg (cr_batch row) (cr_row_index row) = Inr input"
    and b: "row_batch sg w row input = Inr (b, p)"
  shows "ba_num_rows b = 1" and "batch_values cells b = [staged_values cells (sw_schema w) row]"
proof -
  let ?get = "\<lambda>f. map_of (zip (ba_fields input) (ba_columns input)) (field_name f)"
  let ?src = "\<lambda>f. map_of (zip (ba_fields (cr_batch row)) (ba_columns (cr_batch row))) (field_name f)"
  let ?e = "\<lambda>f. OmniLance (''batch missing column '' @ [quote] @ field_name f @ [quote])"
  obtain cols where cols: "r_map (\<lambda>f. ok_or (?get f) (?e f)) (sw_schema w) = Inr cols"
    and new: "sg_try_new sg (sw_schema w) cols = Inr b"
    using b plain(2) by (auto simp: row_batch_def)
  have col: "length cols = length (sw_schema w)"
    "\<And>n. n < length cols \<Longrightarrow> ?get (sw_schema w ! n) = Some (cols ! n)"
    using cols r_map_Inr_length [OF cols] by (auto simp: r_map_Inr_iff list_all2_conv_all_nth)
  have "\<forall>c \<in> set cols. c \<in> set (ba_columns input)"
    using col map_of_zip_in by (fastforce simp: in_set_conv_nth)
  then have "\<forall>c \<in> set cols. length (cells c) = 1" using staging_take(3) [OF laws input] by blast
  moreover have "cols \<noteq> []" using col plain by auto
  ultimately have "ba_columns b = cols" and rows: "ba_num_rows b = 1"
    using staging_new [OF laws new, of 1] by blast+
  then show "ba_num_rows b = 1" by simp
  have "map (\<lambda>c. cells c ! 0) cols = staged_values cells (sw_schema w) row"
  proof (rule nth_equalityI)
    fix n assume "n < length (map (\<lambda>c. cells c ! 0) cols)"
    then have n: "n < length cols" "n < length (sw_schema w)" using col by simp_all
    have "map_option (\<lambda>c. cells c ! 0) (?get (sw_schema w ! n)) =
        map_option (\<lambda>c. cells c ! cr_row_index row) (?src (sw_schema w ! n))"
      using map_of_zip_map_eq [OF staging_take(4) [OF laws input]] staging_take(1) [OF laws input] by simp
    then show "map (\<lambda>c. cells c ! 0) cols ! n = staged_values cells (sw_schema w) row ! n"
      using col(2) [OF n(1)] n by (cases "?src (sw_schema w ! n)") (auto simp: staged_values_def)
  qed (simp add: col staged_values_def)
  then show "batch_values cells b = [staged_values cells (sw_schema w) row]"
    using \<open>ba_columns b = cols\<close> rows by (simp add: batch_values_def)
qed

lemma writer_inv_payloads:
  "writer_inv sg cells table_rows rs (w\<lparr>sw_external_payloads := p\<rparr>) \<longleftrightarrow> writer_inv sg cells table_rows rs w"
  by (simp add: writer_inv_def)

lemma exceeds_iff: "exceeds a b \<longleftrightarrow> unat KEYED_WRITE_MAX_BYTES < unat a + unat b"
  using unat_below [of KEYED_WRITE_MAX_BYTES]
  by (auto simp: exceeds_def is_none_or_def checked_add_def word_less_nat_alt unat_word_ariths)

lemma writer_inv_room:
  assumes inv: "writer_inv sg cells table_rows rs w"
    and room: "sw_batches w = [] \<or> \<not> (KEYED_WRITE_MAX_ROWS \<le> sw_buffered_rows w \<or> exceeds (sw_buffered_bytes w) n)"
    and n: "n \<le> KEYED_WRITE_MAX_BYTES"
  shows "length (sw_batches w) + 1 \<le> KEYED_WRITE_MAX_ROWS"
    and "unat (sw_buffered_bytes w) + unat n \<le> unat KEYED_WRITE_MAX_BYTES"
  using assms
  by (auto simp: writer_inv_def exceeds_iff word_le_nat_alt KEYED_WRITE_MAX_ROWS_def)

lemma push_row_inv:
  assumes laws: "staging_laws sg cells table_rows" and inv: "writer_inv sg cells table_rows rs w"
    and push: "push_row sg row w = Inr w'"
  shows "writer_inv sg cells table_rows (rs @ [row]) w' \<and> sw_schema w' = sw_schema w"
proof -
  define needs_flush where "needs_flush w n \<longleftrightarrow> 0 < sw_buffered_rows w \<and>
     (KEYED_WRITE_MAX_ROWS \<le> sw_buffered_rows w \<or> exceeds (sw_buffered_bytes w) n)"
    for w :: "('a, 'b, 'c) staged_table_writer" and n
  define add where "add w row_count bytes b = w\<lparr>sw_row_count := row_count,
     sw_buffered_rows := Suc (sw_buffered_rows w), sw_buffered_bytes := bytes, sw_batches := sw_batches w @ [b]\<rparr>"
    for w :: "('a, 'b, 'c) staged_table_writer" and row_count bytes b
  obtain input c1 w1 b p row_bytes w2 row_count bytes c3 where
    input: "sg_take_row sg (cr_batch row) (cr_row_index row) = Inr input"
    and w1: "flush_when sg c1 w = Inr w1"
    and b: "row_batch sg w1 row input = Inr (b, p)"
    and row_bytes: "unat row_bytes = sg_memory_size sg b" "row_bytes \<le> KEYED_WRITE_MAX_BYTES"
    and w2: "flush_when sg (needs_flush w1 row_bytes) (w1\<lparr>sw_external_payloads := p\<rparr>) = Inr w2"
    and row_count: "unat row_count = unat (sw_row_count w2) + 1"
    and bytes: "unat bytes = unat (sw_buffered_bytes w2) + unat row_bytes"
    and w3: "flush_when sg c3 (add w2 row_count bytes b) = Inr w'"
    using push unfolding push_row_def Let_def needs_flush_def [symmetric]
    by (fastforce simp: u64_try_from_Inr_iff checked_add_Some_iff not_less add_def needs_flush_def)
  have inv1: "writer_inv sg cells table_rows rs w1" and s1: "sw_schema w1 = sw_schema w"
    using flush_when_inv [OF laws inv w1] by simp_all
  note f2 = flush_when_inv [OF laws _ w2, unfolded writer_inv_payloads, OF inv1]
  have s2: "sw_schema w2 = sw_schema w" using f2(2) s1 by simp
  have plain: "sw_schema w1 \<noteq> []" "\<not> sw_materialize_blobs w1" using inv1 by (auto simp: writer_inv_def)
  note rows = row_batch_values [OF laws plain input b]
  have "sw_batches w2 = [] \<or> \<not> (KEYED_WRITE_MAX_ROWS \<le> sw_buffered_rows w2 \<or> exceeds (sw_buffered_bytes w2) row_bytes)"
    using f2(3,4) inv1 by (cases "needs_flush w1 row_bytes") (auto simp: writer_inv_def needs_flush_def)
  note room = writer_inv_room [OF f2(1) this row_bytes(2)]
  have "writer_inv sg cells table_rows (rs @ [row]) (add w2 row_count bytes b)"
    using f2(1) room row_bytes row_count bytes rows s1 s2
    by (auto simp: writer_inv_def word_le_nat_alt add_def)
  from flush_when_inv(1,2) [OF laws this w3] s2 show ?thesis by (simp add: add_def)
qed

lemma push_rows_inv:
  assumes "staging_laws sg cells table_rows"
    and "r_fold (push_row sg) rs w = Inr w'" and "writer_inv sg cells table_rows rs0 w"
  shows "writer_inv sg cells table_rows (rs0 @ rs) w' \<and> sw_schema w' = sw_schema w"
  using assms(2,3)
proof (induction rs arbitrary: w rs0)
  case (Cons r rs)
  then obtain w1 where w1: "push_row sg r w = Inr w1" "r_fold (push_row sg) rs w1 = Inr w'" by auto
  from push_row_inv [OF assms(1) Cons.prems(2) w1(1)] Cons.IH [OF w1(2), of "rs0 @ [r]"] show ?case by simp
qed simp


section \<open>A finished table\<close>

lemma writer_new_inv:
  assumes "writer_new sg table_key schema = Inr w" "schema \<noteq> []" "\<not> sw_materialize_blobs w"
  shows "writer_inv sg cells table_rows [] w" and "sw_schema w = schema"
  using assms by (auto simp: writer_new_def writer_inv_def existing_rows_def KEYED_WRITE_MAX_BYTES_def)

lemma checked_total_ok:
  assumes "unat acc + sum_list ns < 18446744073709551616"
  shows "\<exists>t. checked_total e ns acc = Inr t \<and> unat t = unat acc + sum_list ns"
  using assms
proof (induction ns arbitrary: acc)
  case (Cons n ns)
  then have n: "n < 18446744073709551616" by simp
  have "checked_add acc (of_nat n) = Some (acc + of_nat n)" "unat (acc + of_nat n) = unat acc + n"
    using Cons.prems n by (simp_all add: checked_add_def unat_word_ariths)
  then show ?case using Cons.IH [of "acc + of_nat n"] Cons.prems by (simp add: add.assoc)
qed simp

definition staged_well :: "'d staged_table \<Rightarrow> nat \<Rightarrow> bool" where
  "staged_well t n \<longleftrightarrow>
     unat (sd_row_count t) = n \<and> sum_list (sd_chunk_rows t) = n \<and> length (sd_chunk_rows t) \<le> 1024 \<and>
     (\<forall>k \<in> set (sd_chunk_rows t). 1 \<le> k \<and> k \<le> 8192)"

lemma staged_chunk_count:
  assumes "staged_well t n" "n \<noteq> 0"
  shows "staged_keyed_chunk_count table_key t = Inr (length (sd_chunk_rows t))"
proof -
  have n: "n = unat (sd_row_count t)" "sum_list (sd_chunk_rows t) = n"
    using assms by (auto simp: staged_well_def)
  obtain u where "checked_total (internal ''branch merge planned row overflow'') (sd_chunk_rows t) 0 = Inr u"
    "unat u = sum_list (sd_chunk_rows t)"
    using checked_total_ok [of 0 "sd_chunk_rows t"] n unat_below [of "sd_row_count t"] by auto
  moreover from this n have "u = sd_row_count t" by (simp add: word_unat_eq_iff)
  moreover have "sd_chunk_rows t \<noteq> []" "sd_row_count t \<noteq> 0" using n assms(2) by auto
  ultimately show ?thesis by (simp add: staged_keyed_chunk_count_def)
qed

lemma writer_finish_staged:
  assumes laws: "staging_laws sg cells table_rows" and inv: "writer_inv sg cells table_rows rs w"
    and "rs \<noteq> []" and finish: "writer_finish sg w = Inr t"
  shows "staged_well t (length rs)" and "table_rows (sd_dataset t) = map (staged_values cells (sw_schema w)) rs"
proof -
  obtain w' where w': "writer_flush sg w = Inr w'" using finish by (auto simp: writer_finish_def)
  note f = writer_flush_inv [OF laws inv w']
  have "sw_dataset w' \<noteq> None"
    using f \<open>rs \<noteq> []\<close> by (cases "sw_dataset w'") (auto simp: writer_inv_def existing_rows_def)
  then obtain ds where ds: "sw_dataset w' = Some ds" by blast
  have t: "t = \<lparr>sd_dir = sw_dir w', sd_dataset = ds, sd_row_count = sw_row_count w', sd_chunk_rows = sw_chunk_rows w'\<rparr>"
    using finish w' ds by (simp add: writer_finish_def)
  show "staged_well t (length rs)"
    using f by (auto simp: staged_well_def t writer_inv_def KEYED_WRITE_MAX_ROWS_def)
  show "table_rows (sd_dataset t) = map (staged_values cells (sw_schema w)) rs"
    using f by (auto simp: t ds writer_inv_def existing_rows_def)
qed

text \<open>
  C12: when at least one row is pushed to a new writer of a table without blob columns and it is
  finished, the staged table holds exactly the pushed rows in order, each with the columns of the schema; its chunks hold
  1 to 8192 rows each, at most 1024 of them, and sum to its row count, so the recovery plan counts
  them without error.
\<close>
theorem staged_table_holds_pushed_rows:
  assumes "staging_laws sg cells table_rows" and "writer_new sg stage_key schema = Inr w0"
    and "schema \<noteq> []" and "\<not> sw_materialize_blobs w0" and "rs \<noteq> []"
    and "r_fold (push_row sg) rs w0 = Inr w" and "writer_finish sg w = Inr t"
  shows "table_rows (sd_dataset t) = map (staged_values cells schema) rs \<and>
    unat (sd_row_count t) = length rs \<and> sum_list (sd_chunk_rows t) = length rs \<and>
    length (sd_chunk_rows t) \<le> 1024 \<and> (\<forall>n \<in> set (sd_chunk_rows t). 1 \<le> n \<and> n \<le> 8192) \<and>
    staged_keyed_chunk_count table_key t = Inr (length (sd_chunk_rows t))"
proof (intro conjI)
  have w: "writer_inv sg cells table_rows rs w" and s: "sw_schema w = schema"
    using push_rows_inv [OF assms(1,6) writer_new_inv(1) [OF assms(2-4)]] writer_new_inv(2) [OF assms(2-4)]
    by simp_all
  have well: "staged_well t (length rs)"
    by (rule writer_finish_staged(1) [OF assms(1) w assms(5,7)])
  show "table_rows (sd_dataset t) = map (staged_values cells schema) rs"
    using writer_finish_staged(2) [OF assms(1) w assms(5,7)] s by simp
  show "unat (sd_row_count t) = length rs" "sum_list (sd_chunk_rows t) = length rs"
    "length (sd_chunk_rows t) \<le> 1024" "\<forall>n \<in> set (sd_chunk_rows t). 1 \<le> n \<and> n \<le> 8192"
    using well by (simp_all add: staged_well_def)
  show "staged_keyed_chunk_count table_key t = Inr (length (sd_chunk_rows t))"
    using staged_chunk_count [OF well] assms(5) by simp
qed

end
