(* ===== verification/Row_Merge.thy ===== *)
theory Row_Merge
  imports Merge_Writer Catalog
begin

text \<open>
  The row-level merge of a table (\<^verbatim>\<open>omnigraph/src/exec/merge.rs\<close>): the three-way merge of a base, a
  source and a target snapshot, the delta of an adopted source, and the selection passes for
  blobs. All walk the tables in id order through cursors and compare rows by their signatures.
  The external preflight of the blob passes is part of the record \<open>staging\<close>.
\<close>

section \<open>Conflicts\<close>

datatype merge_conflict_kind =
    DivergentInsert | DivergentUpdate | DeleteVsUpdate | OrphanEdge | UniqueViolation
  | CardinalityViolation | ValueConstraintViolation

record merge_conflict =
  mc_table_key :: string
  mc_row_id :: "string option"
  mc_kind :: merge_conflict_kind
  mc_message :: string

definition quoted :: "string \<Rightarrow> string" where
  "quoted t = [quote] @ t @ [quote]"

definition classify_merge_conflict ::
    "string \<Rightarrow> string \<Rightarrow> string option \<Rightarrow> string option \<Rightarrow> string option \<Rightarrow> merge_conflict" where
  "classify_merge_conflict table_key row_id base_sig source_sig target_sig =
     (let (kind, message) =
        (case (base_sig, source_sig, target_sig) of
           (None, Some _, Some _) \<Rightarrow> (DivergentInsert, ''divergent insert for id '' @ quoted row_id)
         | (Some _, None, Some _) \<Rightarrow> (DeleteVsUpdate, ''delete/update conflict for id '' @ quoted row_id)
         | (Some _, Some _, None) \<Rightarrow> (DeleteVsUpdate, ''delete/update conflict for id '' @ quoted row_id)
         | _ \<Rightarrow> (DivergentUpdate, ''divergent update for id '' @ quoted row_id))
      in \<lparr>mc_table_key = table_key, mc_row_id = Some row_id, mc_kind = kind, mc_message = message\<rparr>)"

section \<open>Schemas of tables\<close>

definition schema_for_table_key :: "catalog \<Rightarrow> string \<Rightarrow> omni_error + arrow_field list" where
  "schema_for_table_key cat table_key =
     (case strip_prefix ''node:'' table_key of
        Some name \<Rightarrow>
          ok_or (map_option nt_arrow_schema (hm_get (cat_node_types cat) name))
            (BadRequest ''unknown node type {}'' [ArgText name])
      | None \<Rightarrow>
          (case strip_prefix ''edge:'' table_key of
             Some name \<Rightarrow>
               ok_or (map_option et_arrow_schema (hm_get (cat_edge_types cat) name))
                 (BadRequest ''unknown edge type {}'' [ArgText name])
           | None \<Rightarrow> Inl (BadRequest ''invalid table key {}'' [ArgText table_key])))"

definition is_heavy :: "prop_type \<Rightarrow> bool" where
  "is_heavy ty = (case pt_scalar ty of SVector n \<Rightarrow> True | SBlob \<Rightarrow> True | _ \<Rightarrow> False)"

definition light_columns :: "(string, prop_type) hmap \<Rightarrow> string list" where
  "light_columns props = map fst (filter (\<lambda>(name, ty). \<not> is_heavy ty) props)"

definition validation_projection :: "catalog \<Rightarrow> string \<Rightarrow> string list" where
  "validation_projection cat table_key =
     (case strip_prefix ''node:'' table_key of
        Some name \<Rightarrow>
          ''id'' # (case hm_get (cat_node_types cat) name of
                     Some nt \<Rightarrow> light_columns (nt_properties nt) | None \<Rightarrow> [])
      | None \<Rightarrow>
          (case strip_prefix ''edge:'' table_key of
             Some name \<Rightarrow>
               [''id'', ''src'', ''dst''] @
               (case hm_get (cat_edge_types cat) name of
                  Some et \<Rightarrow> light_columns (et_properties et) | None \<Rightarrow> [])
           | None \<Rightarrow> [''id'']))"

definition field_with_name :: "arrow_field list \<Rightarrow> string \<Rightarrow> arrow_field option" where
  "field_with_name schema name = find (\<lambda>f. field_name f = name) schema"

definition validation_schema :: "catalog \<Rightarrow> string \<Rightarrow> arrow_field list \<Rightarrow> omni_error + arrow_field list" where
  "validation_schema cat table_key full_schema =
     r_map (\<lambda>name. ok_or (field_with_name full_schema name)
              (ManifestInternal ''branch merge validation schema for {} is missing {}''
                 [ArgText table_key, ArgText name]))
       (validation_projection cat table_key)"


section \<open>Walking the tables\<close>

definition min_id :: "string list \<Rightarrow> string option" where
  "min_id ids = (case ids of [] \<Rightarrow> None | i # is \<Rightarrow> Some (fold min is i))"

definition option_list :: "'a option \<Rightarrow> 'a list" where
  "option_list x = (case x of None \<Rightarrow> [] | Some y \<Rightarrow> [y])"

definition min_cursor_id ::
    "('c, 'd) cursor_row option \<Rightarrow> ('c, 'd) cursor_row option \<Rightarrow> ('c, 'd) cursor_row option \<Rightarrow> string option" where
  "min_cursor_id base_row source_row target_row =
     min_id (map cr_id (concat (map option_list [base_row, source_row, target_row])))"

definition pop_matching :: "('c, 'x) arrow_scheme \<Rightarrow> string \<Rightarrow> ('c, 'd) cursor_row option \<Rightarrow> ('c, 'd) cursor \<Rightarrow>
    omni_error + ('c, 'd) cursor_row option \<times> ('c, 'd) cursor" where
  "pop_matching ar next_id peeked c =
     (if map_option cr_id peeked = Some next_id then pop ar c else Inr (None, c))"

text \<open>The rows of the smallest id that the three cursors have not passed yet.\<close>

definition next_three :: "('c, 'x) arrow_scheme \<Rightarrow> ('c, 'd) cursor \<Rightarrow> ('c, 'd) cursor \<Rightarrow> ('c, 'd) cursor \<Rightarrow>
    omni_error + (string \<times> ('c, 'd) cursor_row option \<times> ('c, 'd) cursor_row option \<times> ('c, 'd) cursor_row option \<times>
      ('c, 'd) cursor \<times> ('c, 'd) cursor \<times> ('c, 'd) cursor) option" where
  "next_three ar base source target =
     r_bind (peek_cloned ar base) (\<lambda>(base_row, base).
     r_bind (peek_cloned ar source) (\<lambda>(source_row, source).
     r_bind (peek_cloned ar target) (\<lambda>(target_row, target).
     case min_cursor_id base_row source_row target_row of
       None \<Rightarrow> Inr None
     | Some next_id \<Rightarrow>
         r_bind (pop_matching ar next_id base_row base) (\<lambda>(base_row, base).
         r_bind (pop_matching ar next_id source_row source) (\<lambda>(source_row, source).
         r_bind (pop_matching ar next_id target_row target) (\<lambda>(target_row, target).
         Inr (Some (next_id, base_row, source_row, target_row, base, source, target))))))))"

definition next_two :: "('c, 'x) arrow_scheme \<Rightarrow> ('c, 'd) cursor \<Rightarrow> ('c, 'd) cursor \<Rightarrow>
    omni_error + (string \<times> ('c, 'd) cursor_row option \<times> ('c, 'd) cursor_row option \<times>
      ('c, 'd) cursor \<times> ('c, 'd) cursor) option" where
  "next_two ar base source =
     r_bind (peek_cloned ar base) (\<lambda>(base_row, base).
     r_bind (peek_cloned ar source) (\<lambda>(source_row, source).
     case min_id (map cr_id (concat (map option_list [base_row, source_row]))) of
       None \<Rightarrow> Inr None
     | Some next_id \<Rightarrow>
         r_bind (pop_matching ar next_id base_row base) (\<lambda>(base_row, base).
         r_bind (pop_matching ar next_id source_row source) (\<lambda>(source_row, source).
         Inr (Some (next_id, base_row, source_row, base, source))))))"

lemma min_id_in: "min_id is = Some i \<Longrightarrow> i \<in> set is"
proof -
  have "fold min xs x \<in> insert x (set xs)" for x :: string and xs
    by (induction xs arbitrary: x) (auto simp: min_def split: if_splits)
  then show "min_id is = Some i \<Longrightarrow> i \<in> set is"
    by (fastforce simp: min_id_def split: list.splits)
qed

lemma pop_matching_size:
  assumes "oc_peeked c = r" "pop_matching ar i r c = Inr (r', c')"
  shows "cursor_size c' + (if map_option cr_id r = Some i then 1 else 0) \<le> cursor_size c"
  using assms pop_peeked_size [of c]
  by (cases r) (auto simp: pop_matching_def pop_def split: if_splits)

lemma next_three_smaller:
  assumes "next_three ar base source target = Inr (Some (i, br, sr, tr, base', source', target'))"
  shows "cursor_size base' + cursor_size source' + cursor_size target' <
    cursor_size base + cursor_size source + cursor_size target"
proof -
  obtain b b1 s s1 t t1 where
    p: "peek_cloned ar base = Inr (b, b1)" "peek_cloned ar source = Inr (s, s1)" "peek_cloned ar target = Inr (t, t1)"
    and i: "min_cursor_id b s t = Some i"
    and q: "pop_matching ar i b b1 = Inr (br, base')" "pop_matching ar i s s1 = Inr (sr, source')"
      "pop_matching ar i t t1 = Inr (tr, target')"
    using assms by (auto simp: next_three_def split: option.splits)
  have "map_option cr_id b = Some i \<or> map_option cr_id s = Some i \<or> map_option cr_id t = Some i"
    using min_id_in [OF i [unfolded min_cursor_id_def]] by (auto simp: option_list_def split: option.splits)
  then show ?thesis
    using pop_matching_size [OF _ q(1)] pop_matching_size [OF _ q(2)] pop_matching_size [OF _ q(3)]
      peek_size [OF p(1)] peek_size [OF p(2)] peek_size [OF p(3)]
    by (auto split: if_splits)
qed

lemma next_two_smaller:
  assumes "next_two ar base source = Inr (Some (i, br, sr, base', source'))"
  shows "cursor_size base' + cursor_size source' < cursor_size base + cursor_size source"
proof -
  obtain b b1 s s1 where
    p: "peek_cloned ar base = Inr (b, b1)" "peek_cloned ar source = Inr (s, s1)"
    and i: "min_id (map cr_id (concat (map option_list [b, s]))) = Some i"
    and q: "pop_matching ar i b b1 = Inr (br, base')" "pop_matching ar i s s1 = Inr (sr, source')"
    using assms by (auto simp: next_two_def split: option.splits)
  have "map_option cr_id b = Some i \<or> map_option cr_id s = Some i"
    using min_id_in [OF i] by (auto simp: option_list_def split: option.splits)
  then show ?thesis
    using pop_matching_size [OF _ q(1)] pop_matching_size [OF _ q(2)]
      peek_size [OF p(1)] peek_size [OF p(2)]
    by (auto split: if_splits)
qed


section \<open>The three-way merge\<close>

datatype 'r selection = Selected "'r option" | Conflicting

definition signature_of :: "('c, 'd) cursor_row option \<Rightarrow> string option" where
  "signature_of r = map_option cr_signature r"

definition select_row :: "('c, 'd) cursor_row option \<Rightarrow> ('c, 'd) cursor_row option \<Rightarrow> ('c, 'd) cursor_row option \<Rightarrow>
    ('c, 'd) cursor_row selection" where
  "select_row base_row source_row target_row =
     (let base_sig = signature_of base_row; source_sig = signature_of source_row;
          target_sig = signature_of target_row;
          source_changed = source_sig \<noteq> base_sig; target_changed = target_sig \<noteq> base_sig in
      if \<not> source_changed then Selected target_row
      else if \<not> target_changed then Selected source_row
      else if source_sig = target_sig then Selected target_row
      else Conflicting)"

definition differs_from_target :: "('c, 'd) cursor_row \<Rightarrow> ('c, 'd) cursor_row option \<Rightarrow> bool" where
  "differs_from_target selection target_row \<longleftrightarrow>
     cr_signature selection \<noteq> (case signature_of target_row of None \<Rightarrow> [] | Some t \<Rightarrow> t)"

record ('c, 'd, 'p) merge_state =
  ms_conflicts :: "merge_conflict list"
  ms_delta_writer :: "('c, 'd, 'p) staged_table_writer"
  ms_deleted_ids :: delete_id_chunks
  ms_needs_update :: bool

definition merge_row :: "('c, 'd, 'p, 'x) staging_scheme \<Rightarrow> string \<Rightarrow> nat \<Rightarrow> string \<Rightarrow>
    ('c, 'd) cursor_row option \<Rightarrow> ('c, 'd) cursor_row option \<Rightarrow> ('c, 'd) cursor_row option \<Rightarrow>
    ('c, 'd, 'p) merge_state \<Rightarrow> omni_error + ('c, 'd, 'p) merge_state" where
  "merge_row sg table_key prior_conflict_count next_id base_row source_row target_row st =
     (let (selection, conflicts) =
        (case select_row base_row source_row target_row of
           Selected r \<Rightarrow> (r, ms_conflicts st)
         | Conflicting \<Rightarrow>
             (None, ms_conflicts st @ [classify_merge_conflict table_key next_id
                (signature_of base_row) (signature_of source_row) (signature_of target_row)]));
        st = st\<lparr>ms_conflicts := conflicts\<rparr> in
      if prior_conflict_count < length conflicts then Inr st
      else if selection = None \<and> target_row \<noteq> None then
        r_bind (push_delete_id (ms_deleted_ids st) next_id) (\<lambda>deleted_ids.
        Inr (st\<lparr>ms_deleted_ids := deleted_ids, ms_needs_update := True\<rparr>))
      else
        (case selection of
           None \<Rightarrow> Inr st
         | Some row \<Rightarrow>
             if differs_from_target row target_row then
               r_bind (push_row sg row (ms_delta_writer st)) (\<lambda>w.
               Inr (st\<lparr>ms_delta_writer := w, ms_needs_update := True\<rparr>))
             else Inr st))"

function merge_loop :: "('c, 'x) arrow_scheme \<Rightarrow> ('c, 'd, 'p, 'y) staging_scheme \<Rightarrow> string \<Rightarrow> nat \<Rightarrow>
    ('c, 'd) cursor \<Rightarrow> ('c, 'd) cursor \<Rightarrow> ('c, 'd) cursor \<Rightarrow>
    ('c, 'd, 'p) merge_state \<Rightarrow> omni_error + ('c, 'd, 'p) merge_state" where
  "merge_loop ar sg table_key prior base source target st =
     r_bind (next_three ar base source target) (\<lambda>found.
     case found of
       None \<Rightarrow> Inr st
     | Some (next_id, base_row, source_row, target_row, base', source', target') \<Rightarrow>
         r_bind (merge_row sg table_key prior next_id base_row source_row target_row st) (\<lambda>st'.
         merge_loop ar sg table_key prior base' source' target' st'))"
  by pat_completeness auto
termination
  by (relation "measure (\<lambda>(ar, sg, k, n, b, s, t, st). cursor_size b + cursor_size s + cursor_size t)")
    (auto dest: next_three_smaller)

declare merge_loop.simps [simp del]

record 'd staged_merge_result =
  sr_delta_staged :: "'d staged_table option"
  sr_deleted_ids :: delete_id_chunks

text \<open>The conflicts are an in-out argument of the code: the second result is their new value.\<close>

definition stage_streaming_table_merge :: "('c, 'x) arrow_scheme \<Rightarrow> ('c, 'd, 'n, 'z) table_access_scheme \<Rightarrow>
    ('c, 'd, 'p, 'y) staging_scheme \<Rightarrow> string \<Rightarrow> catalog \<Rightarrow> 'n \<Rightarrow> 'n \<Rightarrow> 'n \<Rightarrow> merge_conflict list \<Rightarrow>
    omni_error + 'd staged_merge_result option \<times> merge_conflict list" where
  "stage_streaming_table_merge ar ta sg table_key cat base_snapshot source_snapshot target_snapshot conflicts =
     r_bind (schema_for_table_key cat table_key) (\<lambda>schema.
     let prior_conflict_count = length conflicts in
     r_bind (writer_new sg (table_key @ ''_delta'') schema) (\<lambda>delta_writer.
     r_bind (from_snapshot ta base_snapshot table_key) (\<lambda>base.
     r_bind (from_snapshot ta source_snapshot table_key) (\<lambda>source.
     r_bind (from_snapshot ta target_snapshot table_key) (\<lambda>target.
     r_bind (merge_loop ar sg table_key prior_conflict_count base source target
              \<lparr>ms_conflicts = conflicts, ms_delta_writer = delta_writer,
               ms_deleted_ids = delete_id_chunks_default, ms_needs_update = False\<rparr>) (\<lambda>st.
     if prior_conflict_count < length (ms_conflicts st) then Inr (None, ms_conflicts st)
     else if \<not> ms_needs_update st then Inr (None, ms_conflicts st)
     else
       r_bind (writer_finish_nonempty sg (ms_delta_writer st)) (\<lambda>delta_staged.
       Inr (Some \<lparr>sr_delta_staged = delta_staged, sr_deleted_ids = ms_deleted_ids st\<rparr>,
            ms_conflicts st))))))))"

section \<open>The delta of an adopted source\<close>

record 'd adopt_delta =
  ad_inserts :: "'d staged_table option"
  ad_upserts :: "'d staged_table option"
  ad_deleted_ids :: delete_id_chunks

record ('c, 'd, 'p) adopt_state =
  as_append_writer :: "('c, 'd, 'p) staged_table_writer"
  as_upsert_writer :: "('c, 'd, 'p) staged_table_writer"
  as_deleted_ids :: delete_id_chunks
  as_needs_update :: bool

definition adopt_row :: "('c, 'x) arrow_scheme \<Rightarrow> ('c, 'd, 'p, 'y) staging_scheme \<Rightarrow> string \<Rightarrow>
    ('c, 'd) cursor_row option \<Rightarrow> ('c, 'd) cursor_row option \<Rightarrow>
    ('c, 'd, 'p) adopt_state \<Rightarrow> omni_error + ('c, 'd, 'p) adopt_state" where
  "adopt_row ar sg next_id base_row source_row st =
     (case (base_row, source_row) of
        (Some _, None) \<Rightarrow>
          r_bind (push_delete_id (as_deleted_ids st) next_id) (\<lambda>deleted_ids.
          Inr (st\<lparr>as_deleted_ids := deleted_ids, as_needs_update := True\<rparr>))
      | (None, Some src) \<Rightarrow>
          r_bind (push_row sg src (as_append_writer st)) (\<lambda>w.
          Inr (st\<lparr>as_append_writer := w, as_needs_update := True\<rparr>))
      | (Some base, Some src) \<Rightarrow>
          r_bind (compute_signature ar src) (\<lambda>src_sig.
          r_bind (compute_signature ar base) (\<lambda>base_sig.
          if src_sig \<noteq> base_sig then
            r_bind (push_row sg src (as_upsert_writer st)) (\<lambda>w.
            Inr (st\<lparr>as_upsert_writer := w, as_needs_update := True\<rparr>))
          else Inr st))
      | (None, None) \<Rightarrow> Inl UnreachableReached)"

function adopt_loop :: "('c, 'x) arrow_scheme \<Rightarrow> ('c, 'd, 'p, 'y) staging_scheme \<Rightarrow>
    ('c, 'd) cursor \<Rightarrow> ('c, 'd) cursor \<Rightarrow> ('c, 'd, 'p) adopt_state \<Rightarrow> omni_error + ('c, 'd, 'p) adopt_state" where
  "adopt_loop ar sg base source st =
     r_bind (next_two ar base source) (\<lambda>found.
     case found of
       None \<Rightarrow> Inr st
     | Some (next_id, base_row, source_row, base', source') \<Rightarrow>
         r_bind (adopt_row ar sg next_id base_row source_row st) (\<lambda>st'.
         adopt_loop ar sg base' source' st'))"
  by pat_completeness auto
termination
  by (relation "measure (\<lambda>(ar, sg, b, s, st). cursor_size b + cursor_size s)")
    (auto dest: next_two_smaller)

declare adopt_loop.simps [simp del]

definition compute_adopt_delta :: "('c, 'x) arrow_scheme \<Rightarrow> ('c, 'd, 'n, 'z) table_access_scheme \<Rightarrow>
    ('c, 'd, 'p, 'y) staging_scheme \<Rightarrow> string \<Rightarrow> catalog \<Rightarrow> 'n \<Rightarrow> 'n \<Rightarrow> bool \<Rightarrow>
    omni_error + 'd adopt_delta option" where
  "compute_adopt_delta ar ta sg table_key cat base_snapshot source_snapshot materialize_blobs =
     r_bind (schema_for_table_key cat table_key) (\<lambda>full_schema.
     r_bind (if materialize_blobs then Inr full_schema
             else validation_schema cat table_key full_schema) (\<lambda>schema.
     r_bind (writer_new sg (table_key @ ''_adopt_append'') schema) (\<lambda>append_writer.
     r_bind (writer_new sg (table_key @ ''_adopt_upsert'') schema) (\<lambda>upsert_writer.
     r_bind (from_snapshot_lazy ta base_snapshot table_key) (\<lambda>base.
     r_bind (from_snapshot_lazy ta source_snapshot table_key) (\<lambda>source.
     r_bind (adopt_loop ar sg base source
              \<lparr>as_append_writer = append_writer, as_upsert_writer = upsert_writer,
               as_deleted_ids = delete_id_chunks_default, as_needs_update = False\<rparr>) (\<lambda>st.
     if \<not> as_needs_update st then Inr None
     else
       r_bind (writer_finish_nonempty sg (as_append_writer st)) (\<lambda>inserts.
       r_bind (writer_finish_nonempty sg (as_upsert_writer st)) (\<lambda>upserts.
       Inr (Some \<lparr>ad_inserts = inserts, ad_upserts = upserts, ad_deleted_ids = as_deleted_ids st\<rparr>))))))))))"

section \<open>Selecting blobs\<close>

text \<open>\<open>include\<close> stands for the table store's selection of one row's persisted blobs.\<close>

definition collect_row :: "(('c, 'd) cursor_row \<Rightarrow> 'b \<Rightarrow> omni_error + 'b) \<Rightarrow> string \<Rightarrow> nat \<Rightarrow> string \<Rightarrow>
    ('c, 'd) cursor_row option \<Rightarrow> ('c, 'd) cursor_row option \<Rightarrow> ('c, 'd) cursor_row option \<Rightarrow>
    merge_conflict list \<times> 'b \<Rightarrow> omni_error + merge_conflict list \<times> 'b" where
  "collect_row include table_key prior_conflict_count next_id base_row source_row target_row st =
     (let (selection, conflicts) =
        (case select_row base_row source_row target_row of
           Selected r \<Rightarrow> (r, fst st)
         | Conflicting \<Rightarrow>
             (None, fst st @ [classify_merge_conflict table_key next_id
                (signature_of base_row) (signature_of source_row) (signature_of target_row)]))
      in if prior_conflict_count < length conflicts then Inr (conflicts, snd st)
         else (case selection of
                 None \<Rightarrow> Inr (conflicts, snd st)
               | Some row \<Rightarrow>
                   if differs_from_target row target_row
                   then r_bind (include row (snd st)) (\<lambda>b. Inr (conflicts, b))
                   else Inr (conflicts, snd st)))"

function collect_three_way_loop :: "('c, 'x) arrow_scheme \<Rightarrow> (('c, 'd) cursor_row \<Rightarrow> 'b \<Rightarrow> omni_error + 'b) \<Rightarrow>
    string \<Rightarrow> nat \<Rightarrow> ('c, 'd) cursor \<Rightarrow> ('c, 'd) cursor \<Rightarrow> ('c, 'd) cursor \<Rightarrow>
    merge_conflict list \<times> 'b \<Rightarrow> omni_error + merge_conflict list \<times> 'b" where
  "collect_three_way_loop ar include table_key prior base source target st =
     r_bind (next_three ar base source target) (\<lambda>found.
     case found of
       None \<Rightarrow> Inr st
     | Some (next_id, base_row, source_row, target_row, base', source', target') \<Rightarrow>
         r_bind (collect_row include table_key prior next_id base_row source_row target_row st) (\<lambda>st'.
         collect_three_way_loop ar include table_key prior base' source' target' st'))"
  by pat_completeness auto
termination
  by (relation "measure (\<lambda>(ar, sg, k, n, b, s, t, st). cursor_size b + cursor_size s + cursor_size t)")
    (auto dest: next_three_smaller)

declare collect_three_way_loop.simps [simp del]

definition collect_three_way_blob_selection :: "('c, 'x) arrow_scheme \<Rightarrow> ('c, 'd, 'n, 'z) table_access_scheme \<Rightarrow>
    (('c, 'd) cursor_row \<Rightarrow> 'b \<Rightarrow> omni_error + 'b) \<Rightarrow> string \<Rightarrow> 'n \<Rightarrow> 'n \<Rightarrow> 'n \<Rightarrow>
    merge_conflict list \<Rightarrow> 'b \<Rightarrow> omni_error + merge_conflict list \<times> 'b" where
  "collect_three_way_blob_selection ar ta include table_key base_snapshot source_snapshot target_snapshot
      conflicts blob_selection =
     r_bind (from_snapshot ta base_snapshot table_key) (\<lambda>base.
     r_bind (from_snapshot ta source_snapshot table_key) (\<lambda>source.
     r_bind (from_snapshot ta target_snapshot table_key) (\<lambda>target.
     collect_three_way_loop ar include table_key (length conflicts) base source target
       (conflicts, blob_selection))))"

definition collect_adopt_row :: "('c, 'x) arrow_scheme \<Rightarrow> (('c, 'd) cursor_row \<Rightarrow> 'b \<Rightarrow> omni_error + 'b) \<Rightarrow>
    string \<Rightarrow> ('c, 'd) cursor_row option \<Rightarrow> ('c, 'd) cursor_row option \<Rightarrow> 'b \<Rightarrow> omni_error + 'b" where
  "collect_adopt_row ar include next_id base_row source_row sel =
     (case (base_row, source_row) of
        (Some _, None) \<Rightarrow> Inr sel
      | (None, Some src) \<Rightarrow> include src sel
      | (Some b, Some src) \<Rightarrow>
          r_bind (compute_signature ar src) (\<lambda>src_sig.
          r_bind (compute_signature ar b) (\<lambda>base_sig.
          if src_sig \<noteq> base_sig then include src sel else Inr sel))
      | (None, None) \<Rightarrow> Inl UnreachableReached)"

function collect_adopt_loop :: "('c, 'x) arrow_scheme \<Rightarrow> (('c, 'd) cursor_row \<Rightarrow> 'b \<Rightarrow> omni_error + 'b) \<Rightarrow>
    ('c, 'd) cursor \<Rightarrow> ('c, 'd) cursor \<Rightarrow> 'b \<Rightarrow> omni_error + 'b" where
  "collect_adopt_loop ar include base source sel =
     r_bind (next_two ar base source) (\<lambda>found.
     case found of
       None \<Rightarrow> Inr sel
     | Some (next_id, base_row, source_row, base', source') \<Rightarrow>
         r_bind (collect_adopt_row ar include next_id base_row source_row sel) (\<lambda>sel'.
         collect_adopt_loop ar include base' source' sel'))"
  by pat_completeness auto
termination
  by (relation "measure (\<lambda>(ar, sg, b, s, st). cursor_size b + cursor_size s)")
    (auto dest: next_two_smaller)

declare collect_adopt_loop.simps [simp del]

definition collect_adopt_blob_selection :: "('c, 'x) arrow_scheme \<Rightarrow> ('c, 'd, 'n, 'z) table_access_scheme \<Rightarrow>
    (('c, 'd) cursor_row \<Rightarrow> 'b \<Rightarrow> omni_error + 'b) \<Rightarrow> string \<Rightarrow> 'n \<Rightarrow> 'n \<Rightarrow> 'b \<Rightarrow> omni_error + 'b" where
  "collect_adopt_blob_selection ar ta include table_key base_snapshot source_snapshot blob_selection =
     r_bind (from_snapshot_lazy ta base_snapshot table_key) (\<lambda>base.
     r_bind (from_snapshot_lazy ta source_snapshot table_key) (\<lambda>source.
     collect_adopt_loop ar include base source blob_selection))"

end
