(* ===== verification/Row_Merge_Facts.thy ===== *)
theory Row_Merge_Facts
  imports Row_Merge
begin

text \<open>
  The cursor loops of the row merge as folds over the ids of the tables: at every id the loop sees
  exactly the rows the tables hold under it, and the ids come in ascending order, each once.
\<close>

section \<open>Tables in id order\<close>

definition id_sorted :: "('c, 'd) cursor_row list \<Rightarrow> bool" where
  "id_sorted rs \<longleftrightarrow> strictly_sorted (map cr_id rs)"

definition row_at :: "('c, 'd) cursor_row list \<Rightarrow> string \<Rightarrow> ('c, 'd) cursor_row option" where
  "row_at rs i = find (\<lambda>r. cr_id r = i) rs"

definition id_list :: "('c, 'd) cursor_row list \<Rightarrow> string list" where
  "id_list rs = sort (remdups (map cr_id rs))"

definition after :: "string \<Rightarrow> ('c, 'd) cursor_row list \<Rightarrow> ('c, 'd) cursor_row list" where
  "after i rs = (if rs \<noteq> [] \<and> cr_id (hd rs) = i then tl rs else rs)"

lemma id_list_facts [simp]: "set (id_list rs) = cr_id ` set rs" "strictly_sorted (id_list rs)"
  by (simp_all add: id_list_def strict_sorted_iff)

lemma distinct_id_list [simp]: "distinct (id_list rs)"
  by (simp add: id_list_def)

lemma set_map_filter: "set (List.map_filter f xs) = {y. \<exists>x \<in> set xs. f x = Some y}"
  by (induction xs) (auto simp: map_filter_simps split: option.splits)

lemma row_at_Some: "row_at rs i = Some r \<Longrightarrow> r \<in> set rs \<and> cr_id r = i"
  by (auto simp: row_at_def find_Some_iff)

lemma row_at_None_iff: "row_at rs i = None \<longleftrightarrow> i \<notin> cr_id ` set rs"
  by (auto simp: row_at_def find_None_iff)

lemma row_at_in: "id_sorted rs \<Longrightarrow> r \<in> set rs \<Longrightarrow> row_at rs (cr_id r) = Some r"
  by (induction rs) (auto simp: row_at_def id_sorted_def)

lemma id_sorted_after: "id_sorted rs \<Longrightarrow> id_sorted (after i rs)"
  by (cases rs) (auto simp: id_sorted_def after_def)

text \<open>At the smallest id of some tables, the row is the head of the table or absent.\<close>

lemma row_at_least:
  assumes "id_sorted rs" "\<forall>r \<in> set rs. i \<le> cr_id r"
  shows "row_at rs i = (if rs \<noteq> [] \<and> cr_id (hd rs) = i then Some (hd rs) else None)"
proof (cases rs)
  case (Cons r rs')
  then have "i \<notin> cr_id ` set rs'" if "cr_id r \<noteq> i" using assms that by (fastforce simp: id_sorted_def)
  then show ?thesis using Cons by (auto simp: row_at_def find_None_iff)
qed (simp add: row_at_def)

lemma ids_after_least:
  assumes "id_sorted rs" "\<forall>r \<in> set rs. i \<le> cr_id r"
  shows "\<forall>r \<in> set (after i rs). i < cr_id r"
    and "insert i (cr_id ` set (after i rs)) = insert i (cr_id ` set rs)"
    and "j \<noteq> i \<Longrightarrow> row_at (after i rs) j = row_at rs j"
proof -
  show "\<forall>r \<in> set (after i rs). i < cr_id r"
  proof (cases rs)
    case (Cons r rs')
    then have above: "\<forall>x \<in> set rs'. cr_id r < cr_id x" and "i \<le> cr_id r"
      using assms by (auto simp: id_sorted_def)
    then have "\<forall>x \<in> set rs'. i < cr_id x" by (meson order_le_less_trans)
    then show ?thesis using Cons \<open>i \<le> cr_id r\<close> by (auto simp: after_def)
  qed (simp add: after_def)
  show "insert i (cr_id ` set (after i rs)) = insert i (cr_id ` set rs)"
    by (cases rs) (auto simp: after_def)
  show "j \<noteq> i \<Longrightarrow> row_at (after i rs) j = row_at rs j"
    by (cases rs) (auto simp: after_def row_at_def)
qed

lemma id_list_Cons:
  assumes "insert i (cr_id ` set rs') = cr_id ` set rs" "\<forall>r \<in> set rs'. i < cr_id r"
  shows "id_list rs = i # id_list rs'"
  by (rule strictly_sorted_eqI) (use assms in auto)

lemma min_id_Min: "min_id is = Some i \<Longrightarrow> i = Min (set is)"
  by (cases "is") (simp_all only: min_id_def list.case option.inject option.distinct Min.set_eq_fold)

lemma min_id_least: "min_id is = Some i \<Longrightarrow> j \<in> set is \<Longrightarrow> i \<le> j"
  using min_id_Min [of "is" i] by simp

lemma min_id_None_iff: "min_id is = None \<longleftrightarrow> is = []"
  by (simp add: min_id_def split: list.split)

definition head :: "'a list \<Rightarrow> 'a option" where
  "head rs = (if rs = [] then None else Some (hd rs))"

lemma head_least:
  assumes "id_sorted rs" "\<And>r. head rs = Some r \<Longrightarrow> i \<le> cr_id r"
  shows "\<forall>r \<in> set rs. i \<le> cr_id r"
  using assms by (cases rs) (fastforce simp: id_sorted_def head_def)+

section \<open>One step of the cursors\<close>

lemma take_next:
  assumes y: "yields ar c rs" and s: "id_sorted rs" and p: "peek_cloned ar c = Inr (r, c')"
    and least: "\<forall>x \<in> set rs. i \<le> cr_id x"
  shows "r = head rs" and "\<exists>c''. pop_matching ar i r c' = Inr (row_at rs i, c'') \<and> yields ar c'' (after i rs)"
proof -
  note t = table_cursor.take_matching(2) [OF y p, where P = "\<lambda>r. map_option cr_id r = Some i"]
  show r: "r = head rs" using table_cursor.take_matching(1) [OF y p] by (simp add: head_def)
  have "map_option cr_id r = Some i \<longleftrightarrow> rs \<noteq> [] \<and> cr_id (hd rs) = i"
    by (auto simp: r head_def)
  then show "\<exists>c''. pop_matching ar i r c' = Inr (row_at rs i, c'') \<and> yields ar c'' (after i rs)"
    using t row_at_least [OF s least] by (auto simp: pop_matching_def after_def)
qed

lemma peek_head: "yields ar c rs \<Longrightarrow> \<exists>c'. peek_cloned ar c = Inr (head rs, c') \<and> yields ar c' rs"
  using table_cursor.peek_holds [of ar c rs] by (simp add: head_def)

lemma next_three_end:
  assumes "yields ar b []" "yields ar s []" "yields ar t []"
  shows "next_three ar b s t = Inr None"
  using peek_head [OF assms(1)] peek_head [OF assms(2)] peek_head [OF assms(3)]
  by (auto simp: next_three_def head_def min_cursor_id_def option_list_def min_id_def)

lemma next_three_step:
  assumes y: "yields ar b B" "yields ar s S" "yields ar t T" and sorted: "id_sorted B" "id_sorted S" "id_sorted T"
    and some: "B @ S @ T \<noteq> []"
  shows "\<exists>i b' s' t'. next_three ar b s t = Inr (Some (i, row_at B i, row_at S i, row_at T i, b', s', t')) \<and>
    yields ar b' (after i B) \<and> yields ar s' (after i S) \<and> yields ar t' (after i T) \<and>
    (\<forall>r \<in> set B \<union> set S \<union> set T. i \<le> cr_id r) \<and> i \<in> cr_id ` (set B \<union> set S \<union> set T)"
proof -
  obtain b1 s1 t1 where p: "peek_cloned ar b = Inr (head B, b1)" "peek_cloned ar s = Inr (head S, s1)"
    "peek_cloned ar t = Inr (head T, t1)"
    using peek_head [OF y(1)] peek_head [OF y(2)] peek_head [OF y(3)] by blast
  let ?heads = "map cr_id (concat (map option_list [head B, head S, head T]))"
  have "?heads \<noteq> []" using some by (auto simp: head_def option_list_def)
  then obtain i where i: "min_id ?heads = Some i" using min_id_None_iff [of ?heads] by blast
  have le: "\<forall>r \<in> set B. i \<le> cr_id r" "\<forall>r \<in> set S. i \<le> cr_id r" "\<forall>r \<in> set T. i \<le> cr_id r"
    by (rule head_least, fact, rule min_id_least [OF i], simp add: option_list_def)+
  have in_heads: "i \<in> cr_id ` (set B \<union> set S \<union> set T)"
    using min_id_in [OF i] by (auto simp: head_def option_list_def split: if_splits option.splits)
  obtain b2 s2 t2 where
    "pop_matching ar i (head B) b1 = Inr (row_at B i, b2)" "yields ar b2 (after i B)"
    "pop_matching ar i (head S) s1 = Inr (row_at S i, s2)" "yields ar s2 (after i S)"
    "pop_matching ar i (head T) t1 = Inr (row_at T i, t2)" "yields ar t2 (after i T)"
    using take_next(2) [OF y(1) sorted(1) p(1) le(1)] take_next(2) [OF y(2) sorted(2) p(2) le(2)]
      take_next(2) [OF y(3) sorted(3) p(3) le(3)] by blast
  then show ?thesis
    using p i le in_heads by (auto simp: next_three_def min_cursor_id_def)
qed

section \<open>The loops as folds\<close>

lemma ids_three_step:
  assumes "id_sorted B" "id_sorted S" "id_sorted T" "\<forall>r \<in> set B \<union> set S \<union> set T. i \<le> cr_id r"
    and "i \<in> cr_id ` (set B \<union> set S \<union> set T)"
  shows "id_list (B @ S @ T) = i # id_list (after i B @ after i S @ after i T)"
    and "\<forall>j \<in> set (id_list (after i B @ after i S @ after i T)). i < j"
proof -
  note a = ids_after_least [OF assms(1)] ids_after_least [OF assms(2)] ids_after_least [OF assms(3)]
  have "insert i (cr_id ` set (after i B @ after i S @ after i T)) = cr_id ` set (B @ S @ T)"
  proof -
    have "insert i (cr_id ` set (after i B @ after i S @ after i T)) =
      insert i (cr_id ` set (after i B)) \<union> insert i (cr_id ` set (after i S)) \<union> insert i (cr_id ` set (after i T))"
      by auto
    also have "\<dots> = insert i (cr_id ` set B) \<union> insert i (cr_id ` set S) \<union> insert i (cr_id ` set T)"
      using a(2) a(5) a(8) assms(4) by simp
    also have "\<dots> = cr_id ` set (B @ S @ T)" using assms(5) by auto
    finally show ?thesis .
  qed
  then show "id_list (B @ S @ T) = i # id_list (after i B @ after i S @ after i T)"
    by (rule id_list_Cons) (use a(1,4,7) assms(4) in auto)
  show "\<forall>j \<in> set (id_list (after i B @ after i S @ after i T)). i < j"
    using a(1,4,7) assms(4) by auto
qed

lemma r_fold_same: "(\<And>x st. x \<in> set xs \<Longrightarrow> f x st = g x st) \<Longrightarrow> r_fold f xs st = r_fold g xs st"
  by (rule r_fold_cong) auto

lemma length_after_less:
  "i \<in> cr_id ` (set B \<union> set S \<union> set T) \<Longrightarrow> id_sorted B \<Longrightarrow> id_sorted S \<Longrightarrow> id_sorted T \<Longrightarrow>
   \<forall>r \<in> set B \<union> set S \<union> set T. i \<le> cr_id r \<Longrightarrow>
   length (after i B @ after i S @ after i T) < length (B @ S @ T)"
proof -
  assume i: "i \<in> cr_id ` (set B \<union> set S \<union> set T)" and s: "id_sorted B" "id_sorted S" "id_sorted T"
    and le: "\<forall>r \<in> set B \<union> set S \<union> set T. i \<le> cr_id r"
  have le_len: "length (after i rs) \<le> length rs" for rs :: "('a, 'b) cursor_row list"
    by (simp add: after_def)
  have less: "length (after i rs) < length rs" if "id_sorted rs" "\<forall>r \<in> set rs. i \<le> cr_id r" "i \<in> cr_id ` set rs"
    for rs :: "('a, 'b) cursor_row list"
    using row_at_least [OF that(1,2)] row_at_None_iff [of rs i] that(3)
    by (cases rs) (auto simp: after_def split: if_splits)
  show ?thesis
    using i less [OF s(1)] less [OF s(2)] less [OF s(3)] le_len [of B] le_len [of S] le_len [of T] le
    by (fastforce simp: image_Un)
qed


text \<open>
  What the three-way loops share: each takes the rows of the next id and visits them. The laws are
  the equation of such a loop; the merge and the blob selection are its instances.
\<close>

locale three_way_walk =
  fixes ar :: "('c, 'x) arrow_scheme"
    and visit :: "string \<Rightarrow> ('c, 'd) cursor_row option \<Rightarrow> ('c, 'd) cursor_row option \<Rightarrow> ('c, 'd) cursor_row option \<Rightarrow>
      's \<Rightarrow> omni_error + 's"
    and walk :: "('c, 'd) cursor \<Rightarrow> ('c, 'd) cursor \<Rightarrow> ('c, 'd) cursor \<Rightarrow> 's \<Rightarrow> omni_error + 's"
  assumes walk_step: "walk b s t st =
    r_bind (next_three ar b s t) (\<lambda>found.
    case found of
      None \<Rightarrow> Inr st
    | Some (i, br, sr, tr, b', s', t') \<Rightarrow> r_bind (visit i br sr tr st) (\<lambda>st'. walk b' s' t' st'))"
begin

lemma walk_fold:
  assumes "yields ar b B" "yields ar s S" "yields ar t T" "id_sorted B" "id_sorted S" "id_sorted T"
  shows "walk b s t st =
    r_fold (\<lambda>i. visit i (row_at B i) (row_at S i) (row_at T i)) (id_list (B @ S @ T)) st"
  using assms
proof (induction "length (B @ S @ T)" arbitrary: b s t B S T st rule: less_induct)
  case less
  show ?case
  proof (cases "B @ S @ T = []")
    case True
    with less.prems show ?thesis
      by (subst walk_step) (simp add: next_three_end id_list_def)
  next
    case False
    obtain i b' s' t' where
      n3: "next_three ar b s t = Inr (Some (i, row_at B i, row_at S i, row_at T i, b', s', t'))"
      and y: "yields ar b' (after i B)" "yields ar s' (after i S)" "yields ar t' (after i T)"
      and le: "\<forall>r \<in> set B \<union> set S \<union> set T. i \<le> cr_id r" and i: "i \<in> cr_id ` (set B \<union> set S \<union> set T)"
      using next_three_step [OF less.prems False] by blast
    note sorted = less.prems(4-6)
    let ?rest = "id_list (after i B @ after i S @ after i T)"
    have ids: "id_list (B @ S @ T) = i # ?rest" and above: "\<forall>j \<in> set ?rest. i < j"
      using ids_three_step [OF sorted le i] by simp_all
    have same: "row_at (after i B) j = row_at B j \<and> row_at (after i S) j = row_at S j \<and>
        row_at (after i T) j = row_at T j" if "j \<in> set ?rest" for j
      using above that ids_after_least(3) [OF sorted(1)] ids_after_least(3) [OF sorted(2)]
        ids_after_least(3) [OF sorted(3)] le by (metis UnCI order_less_irrefl)
    have "walk b' s' t' st' =
        r_fold (\<lambda>i. visit i (row_at B i) (row_at S i) (row_at T i)) ?rest st'" for st'
      using less.hyps [OF length_after_less [OF i sorted le] y] sorted
        r_fold_same [of ?rest
          "\<lambda>j. visit j (row_at (after i B) j) (row_at (after i S) j) (row_at (after i T) j)"
          "\<lambda>j. visit j (row_at B j) (row_at S j) (row_at T j)"] same
      by (simp add: id_sorted_after)
    then have "walk b' s' t' = r_fold (\<lambda>i. visit i (row_at B i) (row_at S i) (row_at T i)) ?rest"
      by (rule ext)
    then show ?thesis
      by (subst walk_step) (simp add: n3 ids)
  qed
qed

end

interpretation merge_walk: three_way_walk ar "merge_row sg k n" "merge_loop ar sg k n"
  for ar :: "('c, 'x) arrow_scheme" and sg :: "('c, 'd, 'p, 'y) staging_scheme" and k n
  by unfold_locales (rule merge_loop.simps)

interpretation collect_walk: three_way_walk ar "collect_row f k n" "collect_three_way_loop ar f k n"
  for ar :: "('c, 'x) arrow_scheme" and f :: "('c, 'd) cursor_row \<Rightarrow> 'b \<Rightarrow> omni_error + 'b" and k n
  by unfold_locales (rule collect_three_way_loop.simps)

section \<open>Two tables\<close>

lemma next_two_end:
  assumes "yields ar b []" "yields ar s []"
  shows "next_two ar b s = Inr None"
  using peek_head [OF assms(1)] peek_head [OF assms(2)]
  by (auto simp: next_two_def head_def option_list_def min_id_def)

lemma next_two_step:
  assumes y: "yields ar b B" "yields ar s S" and sorted: "id_sorted B" "id_sorted S" and some: "B @ S \<noteq> []"
  shows "\<exists>i b' s'. next_two ar b s = Inr (Some (i, row_at B i, row_at S i, b', s')) \<and>
    yields ar b' (after i B) \<and> yields ar s' (after i S) \<and>
    (\<forall>r \<in> set B \<union> set S. i \<le> cr_id r) \<and> i \<in> cr_id ` (set B \<union> set S)"
proof -
  obtain b1 s1 where p: "peek_cloned ar b = Inr (head B, b1)" "peek_cloned ar s = Inr (head S, s1)"
    using peek_head [OF y(1)] peek_head [OF y(2)] by blast
  let ?heads = "map cr_id (concat (map option_list [head B, head S]))"
  have "?heads \<noteq> []" using some by (auto simp: head_def option_list_def)
  then obtain i where i: "min_id ?heads = Some i" using min_id_None_iff [of ?heads] by blast
  have le: "\<forall>r \<in> set B. i \<le> cr_id r" "\<forall>r \<in> set S. i \<le> cr_id r"
    by (rule head_least, fact, rule min_id_least [OF i], simp add: option_list_def)+
  have in_heads: "i \<in> cr_id ` (set B \<union> set S)"
    using min_id_in [OF i] by (auto simp: head_def option_list_def split: if_splits option.splits)
  obtain b2 s2 where
    "pop_matching ar i (head B) b1 = Inr (row_at B i, b2)" "yields ar b2 (after i B)"
    "pop_matching ar i (head S) s1 = Inr (row_at S i, s2)" "yields ar s2 (after i S)"
    using take_next(2) [OF y(1) sorted(1) p(1) le(1)] take_next(2) [OF y(2) sorted(2) p(2) le(2)] by blast
  then show ?thesis
    using p i le in_heads by (auto simp: next_two_def)
qed

locale two_way_walk =
  fixes ar :: "('c, 'x) arrow_scheme"
    and visit :: "string \<Rightarrow> ('c, 'd) cursor_row option \<Rightarrow> ('c, 'd) cursor_row option \<Rightarrow> 's \<Rightarrow> omni_error + 's"
    and walk :: "('c, 'd) cursor \<Rightarrow> ('c, 'd) cursor \<Rightarrow> 's \<Rightarrow> omni_error + 's"
  assumes walk_step: "walk b s st =
    r_bind (next_two ar b s) (\<lambda>found.
    case found of
      None \<Rightarrow> Inr st
    | Some (i, br, sr, b', s') \<Rightarrow> r_bind (visit i br sr st) (\<lambda>st'. walk b' s' st'))"
begin

lemma walk_fold:
  assumes "yields ar b B" "yields ar s S" "id_sorted B" "id_sorted S"
  shows "walk b s st = r_fold (\<lambda>i. visit i (row_at B i) (row_at S i)) (id_list (B @ S)) st"
  using assms
proof (induction "length (B @ S)" arbitrary: b s B S st rule: less_induct)
  case less
  show ?case
  proof (cases "B @ S = []")
    case True
    with less.prems show ?thesis
      by (subst walk_step) (simp add: next_two_end id_list_def)
  next
    case False
    obtain i b' s' where
      n2: "next_two ar b s = Inr (Some (i, row_at B i, row_at S i, b', s'))"
      and y: "yields ar b' (after i B)" "yields ar s' (after i S)"
      and le: "\<forall>r \<in> set B \<union> set S. i \<le> cr_id r" and i: "i \<in> cr_id ` (set B \<union> set S)"
      using next_two_step [OF less.prems False] by blast
    note sorted = less.prems(3-4)
    have nil: "id_sorted ([] :: ('c, 'd) cursor_row list)" "after i ([] :: ('c, 'd) cursor_row list) = []"
      by (simp_all add: id_sorted_def after_def)
    have le': "\<forall>r \<in> set B \<union> set S \<union> set ([] :: ('c, 'd) cursor_row list). i \<le> cr_id r"
      and i': "i \<in> cr_id ` (set B \<union> set S \<union> set ([] :: ('c, 'd) cursor_row list))"
      using le i by simp_all
    let ?rest = "id_list (after i B @ after i S)"
    have ids: "id_list (B @ S) = i # ?rest" and above: "\<forall>j \<in> set ?rest. i < j"
      using ids_three_step [OF sorted nil(1) le' i'] by (simp_all add: nil(2))
    have shorter: "length (after i B @ after i S) < length (B @ S)"
      using length_after_less [OF i' sorted nil(1) le'] by (simp add: nil(2))
    have same: "row_at (after i B) j = row_at B j \<and> row_at (after i S) j = row_at S j"
      if "j \<in> set ?rest" for j
      using above that ids_after_least(3) [OF sorted(1)] ids_after_least(3) [OF sorted(2)] le
      by (metis UnCI order_less_irrefl)
    have "walk b' s' st' = r_fold (\<lambda>i. visit i (row_at B i) (row_at S i)) ?rest st'" for st'
      using less.hyps [OF shorter y] sorted
        r_fold_same [of ?rest "\<lambda>j. visit j (row_at (after i B) j) (row_at (after i S) j)"
          "\<lambda>j. visit j (row_at B j) (row_at S j)"] same
      by (simp add: id_sorted_after)
    then have "walk b' s' = r_fold (\<lambda>i. visit i (row_at B i) (row_at S i)) ?rest"
      by (rule ext)
    then show ?thesis
      by (subst walk_step) (simp add: n2 ids)
  qed
qed

end

interpretation adopt_walk: two_way_walk ar "adopt_row ar sg" "adopt_loop ar sg"
  for ar :: "('c, 'x) arrow_scheme" and sg :: "('c, 'd, 'p, 'y) staging_scheme"
  by unfold_locales (rule adopt_loop.simps)

interpretation collect_adopt_walk: two_way_walk ar "collect_adopt_row ar f" "collect_adopt_loop ar f"
  for ar :: "('c, 'x) arrow_scheme" and f :: "('c, 'd) cursor_row \<Rightarrow> 'b \<Rightarrow> omni_error + 'b"
  by unfold_locales (rule collect_adopt_loop.simps)

end
