(* ===== verification/Merge_Delete_Properties.thy ===== *)
theory Merge_Delete_Properties
  imports Merge_Delete
begin

text \<open>
  The delete plan of a merge holds the pushed ids in order, in chunks as full as the bounds allow,
  and the filter of every chunk is built without error, has exactly the planned length and reads
  back as the ids of the chunk.
\<close>

section \<open>Lengths\<close>

lemma length_escape_quotes:
  "length (escape_quotes i) = length i + length (filter (\<lambda>c. c = quote) i)"
  by (induction i) auto

lemma length_delete_literal:
  "length (delete_literal i) = length i + length (filter (\<lambda>c. c = quote) i) + 2"
  by (simp add: delete_literal_def length_escape_quotes)

lemma delete_filter_items_snoc:
  "delete_filter_items (is @ [i]) =
     (if is = [] then [] else delete_filter_items is @ DELETE_FILTER_SEPARATOR) @ delete_literal i"
  by (induction "is" rule: delete_filter_items.induct) auto

lemma length_filter_text_snoc:
  "length (delete_filter_text (is @ [i])) =
     length (delete_filter_text is) + (if is = [] then 0 else 2) + length (delete_literal i)"
  by (simp add: delete_filter_text_def delete_filter_items_snoc DELETE_FILTER_SEPARATOR_def)

lemma length_filter_text_empty [simp]: "length (delete_filter_text []) = 8"
  by (simp add: delete_filter_text_def DELETE_FILTER_PREFIX_def DELETE_FILTER_SUFFIX_def)

lemma escaped_bytes_Inr_iff:
  "escaped_delete_literal_bytes i = Inr w \<longleftrightarrow> unat w = length (delete_literal i)"
proof -
  have two: "unat (2 :: u64) = 2" by simp
  show ?thesis
  proof
    assume "escaped_delete_literal_bytes i = Inr w"
    then show "unat w = length (delete_literal i)"
      by (auto simp: escaped_delete_literal_bytes_def u64_try_from_Inr_iff checked_sum_Some_iff
          length_delete_literal two)
  next
    assume len: "unat w = length (delete_literal i)"
    define a :: u64 where "a = of_nat (length i)"
    define q :: u64 where "q = of_nat (length (filter (\<lambda>c. c = quote) i))"
    have "unat a = length i" "unat q = length (filter (\<lambda>c. c = quote) i)"
      using len unat_below [of w] by (auto simp: a_def q_def length_delete_literal)
    moreover from this have "u64_try_from (length i) e = Inr a"
      "u64_try_from (length (filter (\<lambda>c. c = quote) i)) e = Inr q" for e
      by (simp_all add: u64_try_from_Inr_iff)
    ultimately show "escaped_delete_literal_bytes i = Inr w"
      using len by (simp add: escaped_delete_literal_bytes_def checked_sum_Some_iff length_delete_literal)
  qed
qed

lemma fixed_bytes_eq: "delete_filter_fixed_bytes = Inr 8"
  by (simp add: delete_filter_fixed_bytes_def u64_try_from_def DELETE_FILTER_PREFIX_def
      DELETE_FILTER_SUFFIX_def)

section \<open>One push\<close>

text \<open>A chunk is sized when its planned length is the length of its filter.\<close>

definition chunk_sized :: "delete_id_chunk \<Rightarrow> bool" where
  "chunk_sized c \<longleftrightarrow> dc_ids c \<noteq> [] \<and> unat (dc_filter_bytes c) = length (delete_filter_text (dc_ids c))"

text \<open>An id joins the last group when row and byte bounds leave room for it.\<close>

definition joins_last :: "nat \<Rightarrow> nat \<Rightarrow> string \<Rightarrow> string list list \<Rightarrow> bool" where
  "joins_last max_rows max_bytes i gs \<longleftrightarrow>
     gs \<noteq> [] \<and> length (last gs) < max_rows \<and> length (delete_filter_text (last gs @ [i])) \<le> max_bytes"

definition grow_groups :: "nat \<Rightarrow> nat \<Rightarrow> string \<Rightarrow> string list list \<Rightarrow> string list list" where
  "grow_groups r f i gs =
     (if joins_last r f i gs then butlast gs @ [last gs @ [i]] else gs @ [[i]])"

lemma last_sized: "list_all chunk_sized cs \<Longrightarrow> cs \<noteq> [] \<Longrightarrow> chunk_sized (last cs)"
  by (simp add: list_all_iff)

lemma starts_new_chunk_iff:
  assumes sized: "list_all chunk_sized (ds_chunks s)"
    and lit: "unat l = length (delete_literal i)"
  shows "starts_new_chunk s r f 2 l \<longleftrightarrow> \<not> joins_last r (unat f) i (map dc_ids (ds_chunks s))"
proof (cases "ds_chunks s = []")
  case True
  then show ?thesis
    by (simp add: starts_new_chunk_def last_opt_def is_none_or_def joins_last_def)
next
  case False
  let ?c = "last (ds_chunks s)"
  have c: "dc_ids ?c \<noteq> []" "unat (dc_filter_bytes ?c) = length (delete_filter_text (dc_ids ?c))"
    using last_sized [OF sized False] by (auto simp: chunk_sized_def)
  have "is_none_or (Option.bind (checked_add (dc_filter_bytes ?c) 2) (\<lambda>b. checked_add b l)) (\<lambda>b. f < b)
    \<longleftrightarrow> unat f < length (delete_filter_text (dc_ids ?c @ [i]))"
  proof (cases "Option.bind (checked_add (dc_filter_bytes ?c) 2) (\<lambda>b. checked_add b l)")
    case None
    then have "18446744073709551616 \<le> unat (dc_filter_bytes ?c) + 2 + unat l"
      by (simp add: checked_sum_None_iff)
    then show ?thesis
      using None c lit unat_below [of f] by (simp add: is_none_or_def length_filter_text_snoc)
  next
    case (Some b)
    then have "unat b = unat (dc_filter_bytes ?c) + 2 + unat l"
      by (simp add: checked_sum_Some_iff)
    then show ?thesis
      using Some c lit by (simp add: is_none_or_def length_filter_text_snoc word_less_nat_alt)
  qed
  with False show ?thesis
    by (auto simp: starts_new_chunk_def last_opt_def is_none_or_def joins_last_def last_map)
qed

lemma push_onto_last_Inr_iff:
  assumes "chunks \<noteq> []"
    and bytes: "unat (dc_filter_bytes (last chunks)) = length (delete_filter_text (dc_ids (last chunks)))"
    and lit: "unat l = length (delete_literal i)"
  shows "push_onto_last i 2 l chunks = Inr cs \<longleftrightarrow>
    (\<exists>c. cs = butlast chunks @ [c] \<and> dc_ids c = dc_ids (last chunks) @ [i] \<and> chunk_sized c)"
proof -
  let ?c = "last chunks"
  let ?o = "internal ''branch merge delete filter overflow''"
  let ?sum = "r_bind (if dc_ids ?c \<noteq> [] then ok_or (checked_add (dc_filter_bytes ?c) 2) ?o
      else Inr (dc_filter_bytes ?c)) (\<lambda>b. ok_or (checked_add b l) ?o)"
  have sum: "?sum = Inr w \<longleftrightarrow> unat w = length (delete_filter_text (dc_ids ?c @ [i]))" for w
    using checked_sum_Some_iff [of "dc_filter_bytes ?c" 2 l w]
    by (auto simp: length_filter_text_snoc bytes lit checked_add_Some_iff bind_eq_Some_conv
        split: if_splits)
  have "push_onto_last i 2 l chunks = Inr cs \<longleftrightarrow>
    (\<exists>w. ?sum = Inr w \<and> cs = butlast chunks @ [\<lparr>dc_ids = dc_ids ?c @ [i], dc_filter_bytes = w\<rparr>])"
    using assms(1) by (auto simp: push_onto_last_def last_opt_def)
  also have "\<dots> \<longleftrightarrow> (\<exists>w. unat w = length (delete_filter_text (dc_ids ?c @ [i])) \<and>
       cs = butlast chunks @ [\<lparr>dc_ids = dc_ids ?c @ [i], dc_filter_bytes = w\<rparr>])"
    unfolding sum ..
  also have "\<dots> \<longleftrightarrow> (\<exists>c. cs = butlast chunks @ [c] \<and> dc_ids c = dc_ids ?c @ [i] \<and> chunk_sized c)"
    (is "?l \<longleftrightarrow> ?r")
  proof
    assume ?l then show ?r by (auto simp: chunk_sized_def)
  next
    assume ?r
    then obtain c :: delete_id_chunk where
      c: "cs = butlast chunks @ [c]" "dc_ids c = dc_ids ?c @ [i]" "chunk_sized c" by blast
    then have "c = \<lparr>dc_ids = dc_ids ?c @ [i], dc_filter_bytes = dc_filter_bytes c\<rparr>" by simp
    with c show ?l by (metis chunk_sized_def)
  qed
  finally show ?thesis .
qed


lemma push_onto_last_sized:
  assumes push: "push_onto_last i 2 l (if new then cs @ [\<lparr>dc_ids = [], dc_filter_bytes = 8\<rparr>] else cs) = Inr cs'"
    and new: "new \<longleftrightarrow> \<not> joins_last r f i (map dc_ids cs)"
    and sized: "list_all chunk_sized cs" and lit: "unat l = length (delete_literal i)"
  shows "list_all chunk_sized cs' \<and> map dc_ids cs' = grow_groups r f i (map dc_ids cs)"
proof (cases new)
  case True
  with push have "push_onto_last i 2 l (cs @ [\<lparr>dc_ids = [], dc_filter_bytes = 8\<rparr>]) = Inr cs'" by simp
  then obtain c where "cs' = cs @ [c]" "dc_ids c = [i]" "chunk_sized c"
    by (subst (asm) push_onto_last_Inr_iff) (use lit in auto)
  with True new sized show ?thesis by (auto simp: grow_groups_def)
next
  case False
  then have "cs \<noteq> []" using new by (auto simp: joins_last_def)
  moreover from this have "chunk_sized (last cs)" using sized by (rule last_sized [rotated])
  ultimately obtain c where c: "cs' = butlast cs @ [c]" "dc_ids c = dc_ids (last cs) @ [i]" "chunk_sized c"
    using push False push_onto_last_Inr_iff [of cs l i cs'] lit by (auto simp: chunk_sized_def)
  moreover have "list_all chunk_sized (butlast cs)"
    using sized in_set_butlastD by (fastforce simp: list_all_iff)
  ultimately show ?thesis
    using False new \<open>cs \<noteq> []\<close> by (auto simp: grow_groups_def map_butlast last_map)
qed

lemma push_onto_last_total:
  assumes sized: "list_all chunk_sized (ds_chunks s)" and lit: "unat l = length (delete_literal i)"
    and fits: "length (delete_filter_text [i]) \<le> unat f"
  shows "\<exists>cs. push_onto_last i 2 l
     (if starts_new_chunk s r f 2 l then ds_chunks s @ [\<lparr>dc_ids = [], dc_filter_bytes = 8\<rparr>]
      else ds_chunks s) = Inr cs"
proof -
  have *: "\<exists>cs. push_onto_last i 2 l chunks = Inr cs"
    if "chunks \<noteq> []" "unat (dc_filter_bytes (last chunks)) = length (delete_filter_text (dc_ids (last chunks)))"
      and "length (delete_filter_text (dc_ids (last chunks) @ [i])) \<le> unat f" for chunks
  proof -
    let ?c = "\<lparr>dc_ids = dc_ids (last chunks) @ [i],
      dc_filter_bytes = of_nat (length (delete_filter_text (dc_ids (last chunks) @ [i])))\<rparr>"
    have "chunk_sized ?c"
      using that(3) unat_below [of f] unfolding chunk_sized_def by (simp del: of_nat_add)
    then show ?thesis
      using push_onto_last_Inr_iff [OF that(1,2) lit, of "butlast chunks @ [?c]"] by auto
  qed
  show ?thesis
  proof (cases "starts_new_chunk s r f 2 l")
    case True
    then show ?thesis using * [of "ds_chunks s @ [\<lparr>dc_ids = [], dc_filter_bytes = 8\<rparr>]"] fits by simp
  next
    case False
    then have "joins_last r (unat f) i (map dc_ids (ds_chunks s))"
      using starts_new_chunk_iff [OF sized lit] by simp
    then show ?thesis
      using * [of "ds_chunks s"] False last_sized [OF sized]
      by (auto simp: joins_last_def chunk_sized_def last_map)
  qed
qed

lemma string_bookkeeping_eq:
  "r_bind (u64_try_from size_of_String e) (\<lambda>n. ok_or (checked_mul n 2) e') = Inr 48"
  by (simp add: size_of_String_def u64_try_from_def checked_mul_def)

lemma chunk_bookkeeping_eq:
  "r_bind (u64_try_from size_of_DeleteIdChunk e) (\<lambda>n. ok_or (checked_mul n 2) e') = Inr 64"
  by (simp add: size_of_DeleteIdChunk_def u64_try_from_def checked_mul_def)

lemma separator_bytes_eq: "u64_try_from (length DELETE_FILTER_SEPARATOR) e = Inr 2"
  by (simp add: DELETE_FILTER_SEPARATOR_def u64_try_from_def)

lemmas push_constants = string_bookkeeping_eq chunk_bookkeeping_eq separator_bytes_eq fixed_bytes_eq

lemma push_with_bounds_Inr:
  assumes push: "push_with_bounds s i r f m = Inr s'" and sized: "list_all chunk_sized (ds_chunks s)"
  shows "r \<noteq> 0" and "length (delete_filter_text [i]) \<le> unat f"
    and "list_all chunk_sized (ds_chunks s')"
    and "map dc_ids (ds_chunks s') = grow_groups r (unat f) i (map dc_ids (ds_chunks s))"
    and "unat (ds_retained_bytes s') = unat (ds_retained_bytes s) + length i + 48 +
           (if joins_last r (unat f) i (map dc_ids (ds_chunks s)) then 0 else 64)"
    and "ds_retained_bytes s' \<le> m"
proof -
  have 48: "unat (48 :: u64) = 48" and 64: "unat (64 :: u64) = 64" by simp_all
  obtain l first id_storage chunk_storage chunks where
    l: "unat l = length (delete_literal i)"
    and "checked_add 8 l = Some first" "\<not> f < first" "r \<noteq> 0"
    and id_storage: "unat id_storage = length i + 48"
    and chunk_storage: "chunk_storage = (if starts_new_chunk s r f 2 l then 64 else 0)"
    and retained: "Option.bind (checked_add (ds_retained_bytes s) id_storage)
                     (\<lambda>b. checked_add b chunk_storage) = Some (ds_retained_bytes s')"
    and "\<not> m < ds_retained_bytes s'"
    and chunks: "push_onto_last i 2 l
       (if starts_new_chunk s r f 2 l then ds_chunks s @ [\<lparr>dc_ids = [], dc_filter_bytes = 8\<rparr>]
        else ds_chunks s) = Inr (ds_chunks s')"
    using push unfolding push_with_bounds_def push_constants Let_def
    by (auto simp: escaped_bytes_Inr_iff u64_try_from_Inr_iff checked_add_Some_iff [of _ 48] 48
        split: if_splits)
  note new = starts_new_chunk_iff [OF sized l]
  show "r \<noteq> 0" by fact
  have "unat first = 8 + unat l"
    using \<open>checked_add 8 l = Some first\<close> by (simp add: checked_add_Some_iff)
  then show "length (delete_filter_text [i]) \<le> unat f"
    using \<open>\<not> f < first\<close> l length_filter_text_snoc [of "[]" i] by (simp add: word_less_nat_alt)
  show "list_all chunk_sized (ds_chunks s')"
    "map dc_ids (ds_chunks s') = grow_groups r (unat f) i (map dc_ids (ds_chunks s))"
    using push_onto_last_sized [OF chunks new sized l] by simp_all
  show "unat (ds_retained_bytes s') = unat (ds_retained_bytes s) + length i + 48 +
           (if joins_last r (unat f) i (map dc_ids (ds_chunks s)) then 0 else 64)"
    using retained id_storage chunk_storage new by (auto simp: checked_sum_Some_iff)
  show "ds_retained_bytes s' \<le> m" using \<open>\<not> m < ds_retained_bytes s'\<close> by simp
qed

section \<open>A whole plan\<close>

definition groups_ok :: "nat \<Rightarrow> nat \<Rightarrow> string list list \<Rightarrow> bool" where
  "groups_ok r f gs \<longleftrightarrow>
     list_all (\<lambda>g. g \<noteq> [] \<and> length g \<le> r \<and> length (delete_filter_text g) \<le> f) gs \<and>
     (\<forall>n. Suc n < length gs \<longrightarrow>
        \<not> (length (gs ! n) < r \<and> length (delete_filter_text (gs ! n @ [hd (gs ! Suc n)])) \<le> f))"

lemma concat_grow_groups: "concat (grow_groups r f i gs) = concat gs @ [i]"
  by (cases gs rule: rev_cases) (auto simp: grow_groups_def joins_last_def)

lemma length_grow_groups:
  "length (grow_groups r f i gs) = length gs + (if joins_last r f i gs then 0 else 1)"
  by (auto simp: grow_groups_def joins_last_def)

lemma groups_ok_grow:
  assumes ok: "groups_ok r f gs" and r: "r \<noteq> 0" and fits: "length (delete_filter_text [i]) \<le> f"
  shows "groups_ok r f (grow_groups r f i gs)"
proof (cases "joins_last r f i gs")
  case True
  then obtain hs g where gs: "gs = hs @ [g]" by (cases gs rule: rev_cases) (auto simp: joins_last_def)
  have hd: "hd (g @ [i]) = hd g" using ok by (simp add: groups_ok_def gs)
  have "\<not> (length ((hs @ [g @ [i]]) ! n) < r \<and>
         length (delete_filter_text ((hs @ [g @ [i]]) ! n @ [hd ((hs @ [g @ [i]]) ! Suc n)])) \<le> f)"
    if "Suc n < length (hs @ [g @ [i]])" for n
  proof -
    have "(hs @ [g @ [i]]) ! n = gs ! n" "hd ((hs @ [g @ [i]]) ! Suc n) = hd (gs ! Suc n)"
      using that hd by (auto simp: gs nth_append less_Suc_eq)
    then show ?thesis using ok that by (simp add: groups_ok_def gs)
  qed
  then show ?thesis
    using ok True by (simp add: groups_ok_def grow_groups_def gs joins_last_def)
next
  case False
  have "\<not> (length ((gs @ [[i]]) ! n) < r \<and>
         length (delete_filter_text ((gs @ [[i]]) ! n @ [hd ((gs @ [[i]]) ! Suc n)])) \<le> f)"
    if n: "Suc n < length (gs @ [[i]])" for n
  proof (cases "Suc n = length gs")
    case True
    then have "gs \<noteq> []" by auto
    moreover from this True have "gs ! n = last gs" by (simp add: last_conv_nth flip: True)
    ultimately show ?thesis using False True by (auto simp: joins_last_def nth_append)
  next
    case neq: False
    then show ?thesis using ok n by (simp add: groups_ok_def nth_append less_Suc_eq)
  qed
  then show ?thesis
    using ok False r fits by (simp add: groups_ok_def grow_groups_def)
qed


definition plan_ok :: "nat \<Rightarrow> u64 \<Rightarrow> u64 \<Rightarrow> string list \<Rightarrow> delete_id_chunks \<Rightarrow> bool" where
  "plan_ok r f m is s \<longleftrightarrow>
     list_all chunk_sized (ds_chunks s) \<and> groups_ok r (unat f) (map dc_ids (ds_chunks s)) \<and>
     deleted_ids s = is \<and> ds_retained_bytes s \<le> m \<and>
     unat (ds_retained_bytes s) = sum_list (map (\<lambda>i. length i + 48) is) + 64 * chunk_count s"

lemma plan_ok_default: "plan_ok r f m [] delete_id_chunks_default"
  by (simp add: plan_ok_def delete_id_chunks_default_def groups_ok_def deleted_ids_def chunk_count_def)

lemma plan_ok_push:
  assumes ok: "plan_ok r f m is s" and push: "push_with_bounds s i r f m = Inr s'"
  shows "plan_ok r f m (is @ [i]) s'"
proof -
  have sized: "list_all chunk_sized (ds_chunks s)" using ok by (simp add: plan_ok_def)
  note p = push_with_bounds_Inr [OF push sized]
  have "chunk_count s' = length (map dc_ids (ds_chunks s'))" by (simp add: chunk_count_def)
  then show ?thesis
    using ok p groups_ok_grow [of r "unat f" "map dc_ids (ds_chunks s)" i]
    by (auto simp: plan_ok_def deleted_ids_def concat_grow_groups length_grow_groups chunk_count_def)
qed

lemma plan_ok_fold:
  assumes "r_fold (\<lambda>i s. push_with_bounds s i r f m) js s = Inr s'" and "plan_ok r f m is s"
  shows "plan_ok r f m (is @ js) s'"
  using assms
proof (induction js arbitrary: s "is")
  case (Cons j js)
  then obtain s1 where "push_with_bounds s j r f m = Inr s1"
    "r_fold (\<lambda>i s. push_with_bounds s i r f m) js s1 = Inr s'" by auto
  then show ?case using Cons.IH [of s1 "is @ [j]"] plan_ok_push [OF Cons.prems(2)] by simp
qed simp

section \<open>When a push is refused\<close>

lemma checked_add_small:
  "unat a + unat b < 18446744073709551616 \<Longrightarrow>
     checked_add a b = Some (a + b) \<and> unat (a + b) = unat a + unat b"
  by (simp add: checked_add_def unat_word_ariths)

text \<open>Below the limits of 64 bits none of the internal errors of a push is reached.\<close>

lemma push_with_bounds_Inl:
  assumes ok: "plan_ok r f m is s" and r: "r \<noteq> 0" and m: "unat m < 2 ^ 62"
    and small: "length i < 2 ^ 62" and push: "push_with_bounds s i r f m = Inl e"
  shows "(\<exists>n. e = ResourceLimitExceeded ''branch-merge delete filter bytes'' f n \<and>
            unat n = length (delete_filter_text [i]) \<and> f < n) \<or>
         (\<exists>n. e = ResourceLimitExceeded ''branch-merge retained delete plan bytes'' m n \<and>
            unat n = unat (ds_retained_bytes s) + length i + 48 +
              (if joins_last r (unat f) i (map dc_ids (ds_chunks s)) then 0 else 64) \<and> m < n)"
proof -
  have sized: "list_all chunk_sized (ds_chunks s)" and ret: "ds_retained_bytes s \<le> m"
    using ok by (simp_all add: plan_ok_def)
  have q: "length (delete_literal i) \<le> 2 * length i + 2"
    unfolding length_delete_literal using length_filter_le [of "\<lambda>c. c = quote" i] by linarith
  define l :: u64 where "l = of_nat (length (delete_literal i))"
  have l: "unat l = length (delete_literal i)"
    unfolding l_def by (rule unat_u64_of_nat) (use small q in simp)
  then have esc: "escaped_delete_literal_bytes i = Inr l" by (simp add: escaped_bytes_Inr_iff)
  have first: "checked_add 8 l = Some (8 + l)" "unat (8 + l) = length (delete_filter_text [i])"
    using checked_add_small [of 8 l] l small q length_filter_text_snoc [of "[]" i] by simp_all
  define n :: u64 where "n = of_nat (length i)"
  have n: "unat n = length i" unfolding n_def by (rule unat_u64_of_nat) (use small in simp)
  then have len: "u64_try_from (length i) e' = Inr n" for e' by (simp add: u64_try_from_Inr_iff)
  have ids: "checked_add n 48 = Some (n + 48)" "unat (n + 48) = length i + 48"
    using checked_add_small [of n 48] n small by simp_all
  define chunk_storage :: u64 where "chunk_storage = (if starts_new_chunk s r f 2 l then 64 else 0)"
  have cs: "unat chunk_storage = (if joins_last r (unat f) i (map dc_ids (ds_chunks s)) then 0 else 64)"
    using starts_new_chunk_iff [OF sized l, of r f] by (simp add: chunk_storage_def)
  obtain b where b: "Option.bind (checked_add (ds_retained_bytes s) (n + 48))
      (\<lambda>b. checked_add b chunk_storage) = Some b"
    using checked_sum_None_iff [of "ds_retained_bytes s" "n + 48" chunk_storage] ids small ret m cs
    by (cases "Option.bind (checked_add (ds_retained_bytes s) (n + 48)) (\<lambda>b. checked_add b chunk_storage)")
      (auto simp: word_le_nat_alt split: if_splits)
  then have b_nat: "unat b = unat (ds_retained_bytes s) + length i + 48 +
      (if joins_last r (unat f) i (map dc_ids (ds_chunks s)) then 0 else 64)"
    using ids cs by (simp add: checked_sum_Some_iff)
  have last: "\<exists>cs. push_onto_last i 2 l
     (if starts_new_chunk s r f 2 l then ds_chunks s @ [\<lparr>dc_ids = [], dc_filter_bytes = 8\<rparr>]
      else ds_chunks s) = Inr cs" if "\<not> f < 8 + l"
    by (rule push_onto_last_total [OF sized l]) (use that first in \<open>simp add: word_less_nat_alt\<close>)
  show ?thesis
  proof (cases "f < 8 + l")
    case True
    then have "e = ResourceLimitExceeded ''branch-merge delete filter bytes'' f (8 + l)"
      using push r by (simp add: push_with_bounds_def push_constants esc first guard_def)
    then show ?thesis using first(2) True by blast
  next
    case False
    have "e = ResourceLimitExceeded ''branch-merge retained delete plan bytes'' m b \<and> m < b"
      using push r False last [OF False] b
      by (cases "starts_new_chunk s r f 2 l")
        (auto simp: push_with_bounds_def push_constants esc first Let_def len ids chunk_storage_def
          guard_def split: if_splits)
    then show ?thesis using b_nat by blast
  qed
qed

section \<open>Reading a filter back\<close>

text \<open>
  A reader of the filter by the rules of SQL: a literal is a quoted string in which a doubled
  quote stands for one quote.
\<close>

fun read_quoted :: "string \<Rightarrow> (string \<times> string) option" where
  "read_quoted [] = None"
| "read_quoted (c # cs) =
     (if c \<noteq> quote then map_option (apfst ((#) c)) (read_quoted cs)
      else case cs of
             [] \<Rightarrow> Some ([], [])
           | d # ds \<Rightarrow> if d = quote then map_option (apfst ((#) quote)) (read_quoted ds) else Some ([], cs))"

fun read_list :: "nat \<Rightarrow> string \<Rightarrow> string list option" where
  "read_list 0 t = None"
| "read_list (Suc n) t =
     (case t of
        [] \<Rightarrow> None
      | c # cs \<Rightarrow>
          if c \<noteq> quote then None
          else Option.bind (read_quoted cs) (\<lambda>(i, rest).
                 if rest = '')'' then Some [i]
                 else if take 2 rest = '', '' then map_option ((#) i) (read_list n (drop 2 rest))
                 else None))"

definition read_filter :: "string \<Rightarrow> string list option" where
  "read_filter t = (if take 7 t = ''id IN ('' then read_list (length t) (drop 7 t) else None)"

lemma read_quoted_escaped:
  "rest = [] \<or> hd rest \<noteq> quote \<Longrightarrow> read_quoted (escape_quotes i @ quote # rest) = Some (i, rest)"
proof (induction i)
  case Nil
  then show ?case by (cases rest) auto
next
  case (Cons c i)
  then show ?case by auto
qed

lemma read_list_items:
  "is \<noteq> [] \<Longrightarrow> length is \<le> n \<Longrightarrow> read_list n (delete_filter_items is @ '')'') = Some is"
proof (induction "is" arbitrary: n rule: delete_filter_items.induct)
  case (2 i)
  then obtain k where n: "n = Suc k" by (cases n) auto
  have "read_quoted (escape_quotes i @ quote # '')'') = Some (i, '')'')"
    by (rule read_quoted_escaped) (simp add: quote_def)
  then show ?case by (simp add: delete_literal_def n)
next
  case (3 i j "is")
  then obtain k where n: "n = Suc k" by (cases n) auto
  let ?rest = "DELETE_FILTER_SEPARATOR @ delete_filter_items (j # is) @ '')''"
  have "read_quoted (escape_quotes i @ quote # ?rest) = Some (i, ?rest)"
    by (rule read_quoted_escaped) (simp add: DELETE_FILTER_SEPARATOR_def quote_def)
  then show ?case
    using 3 n by (simp add: delete_literal_def DELETE_FILTER_SEPARATOR_def)
qed simp

lemma length_items: "length is \<le> length (delete_filter_items is)"
  by (induction "is" rule: delete_filter_items.induct) (auto simp: delete_literal_def)

lemma read_filter_text: "is \<noteq> [] \<Longrightarrow> read_filter (delete_filter_text is) = Some is"
  using read_list_items [of "is" "length (delete_filter_text is)"] length_items [of "is"]
  by (simp add: read_filter_def delete_filter_text_def DELETE_FILTER_PREFIX_def DELETE_FILTER_SUFFIX_def)

section \<open>The plan of a merge\<close>

lemma sized_filter:
  assumes "chunk_sized c" "length (dc_ids c) \<le> KEYED_WRITE_MAX_ROWS"
    and "dc_filter_bytes c \<le> KEYED_WRITE_MAX_BYTES"
  shows "delete_chunk_filter c = Inr (delete_filter_text (dc_ids c))"
  using assms by (auto simp: delete_chunk_filter_def chunk_sized_def u64_try_from_Inr_iff Let_def)

text \<open>
  C6: when every id was pushed, the plan deletes exactly the pushed ids in order; the filter of
  every chunk is built without error, reads back under SQL quoting as exactly the ids of the chunk,
  has the planned length and stays within 8192 ids and 32 MiB; a chunk is closed only when the next
  id does not fit; and the retained bytes are the exact sum of the id and chunk storage, within
  32 MiB.
\<close>
theorem delete_plan_is_exact:
  assumes "r_fold (\<lambda>i s. push_delete_id s i) ids delete_id_chunks_default = Inr s"
  shows "deleted_ids s = ids \<and>
    (\<forall>c \<in> set (ds_chunks s). delete_chunk_filter c = Inr (delete_filter_text (dc_ids c)) \<and>
           read_filter (delete_filter_text (dc_ids c)) = Some (dc_ids c) \<and>
           length (delete_filter_text (dc_ids c)) = unat (dc_filter_bytes c) \<and>
           dc_ids c \<noteq> [] \<and> length (dc_ids c) \<le> 8192 \<and> unat (dc_filter_bytes c) \<le> 33554432) \<and>
    (\<forall>n. Suc n < chunk_count s \<longrightarrow>
           length (dc_ids (ds_chunks s ! n)) = 8192 \<or>
           33554432 < length (delete_filter_text
             (dc_ids (ds_chunks s ! n) @ [hd (dc_ids (ds_chunks s ! Suc n))]))) \<and>
    unat (ds_retained_bytes s) = sum_list (map (\<lambda>i. length i + 48) ids) + 64 * chunk_count s \<and>
    unat (ds_retained_bytes s) \<le> 33554432"
proof (intro conjI)
  have max: "unat KEYED_WRITE_MAX_BYTES = 33554432"
    by (simp add: KEYED_WRITE_MAX_BYTES_def)
  have rows: "KEYED_WRITE_MAX_ROWS = 8192"
    by (simp add: KEYED_WRITE_MAX_ROWS_def)
  have ok: "plan_ok KEYED_WRITE_MAX_ROWS KEYED_WRITE_MAX_BYTES KEYED_WRITE_MAX_BYTES ids s"
    using plan_ok_fold [OF _ plan_ok_default, where js = ids] assms
    by (simp add: push_delete_id_def push_bounded_def)
  then show "deleted_ids s = ids" by (simp add: plan_ok_def)
  show "unat (ds_retained_bytes s) = sum_list (map (\<lambda>i. length i + 48) ids) + 64 * chunk_count s"
    "unat (ds_retained_bytes s) \<le> 33554432"
    using ok max by (auto simp: plan_ok_def word_le_nat_alt)
  show "\<forall>n. Suc n < chunk_count s \<longrightarrow>
           length (dc_ids (ds_chunks s ! n)) = 8192 \<or>
           33554432 < length (delete_filter_text
             (dc_ids (ds_chunks s ! n) @ [hd (dc_ids (ds_chunks s ! Suc n))]))"
  proof (intro allI impI)
    fix n assume n: "Suc n < chunk_count s"
    then have "length (dc_ids (ds_chunks s ! n)) \<le> 8192"
      using ok rows by (auto simp: plan_ok_def groups_ok_def list_all_iff chunk_count_def)
    then show "length (dc_ids (ds_chunks s ! n)) = 8192 \<or>
           33554432 < length (delete_filter_text
             (dc_ids (ds_chunks s ! n) @ [hd (dc_ids (ds_chunks s ! Suc n))]))"
      using ok n max rows by (auto simp: plan_ok_def groups_ok_def chunk_count_def)
  qed
  show "\<forall>c \<in> set (ds_chunks s). delete_chunk_filter c = Inr (delete_filter_text (dc_ids c)) \<and>
           read_filter (delete_filter_text (dc_ids c)) = Some (dc_ids c) \<and>
           length (delete_filter_text (dc_ids c)) = unat (dc_filter_bytes c) \<and>
           dc_ids c \<noteq> [] \<and> length (dc_ids c) \<le> 8192 \<and> unat (dc_filter_bytes c) \<le> 33554432"
  proof
    fix c assume "c \<in> set (ds_chunks s)"
    then have "chunk_sized c" "length (dc_ids c) \<le> KEYED_WRITE_MAX_ROWS"
      "length (delete_filter_text (dc_ids c)) \<le> 33554432"
      using ok max by (auto simp: plan_ok_def groups_ok_def list_all_iff)
    moreover from this have "dc_filter_bytes c \<le> KEYED_WRITE_MAX_BYTES"
      by (simp add: word_le_nat_alt max chunk_sized_def)
    ultimately show "delete_chunk_filter c = Inr (delete_filter_text (dc_ids c)) \<and>
           read_filter (delete_filter_text (dc_ids c)) = Some (dc_ids c) \<and>
           length (delete_filter_text (dc_ids c)) = unat (dc_filter_bytes c) \<and>
           dc_ids c \<noteq> [] \<and> length (dc_ids c) \<le> 8192 \<and> unat (dc_filter_bytes c) \<le> 33554432"
      using rows by (simp add: sized_filter read_filter_text chunk_sized_def)
  qed
qed


text \<open>
  After any pushes, an id of less than 2^62 bytes is refused only by one of the two limits, with
  the limit and the exact size that exceeds it: never by an overflow or another internal error.
\<close>
theorem delete_push_refused_by_limit:
  assumes plan: "r_fold (\<lambda>i s. push_delete_id s i) ids delete_id_chunks_default = Inr s"
    and "length i < 2 ^ 62" and refused: "push_delete_id s i = Inl e"
  shows "(\<exists>n. e = ResourceLimitExceeded ''branch-merge delete filter bytes'' KEYED_WRITE_MAX_BYTES n \<and>
            unat n = length (delete_filter_text [i]) \<and> 33554432 < unat n) \<or>
         (\<exists>n. e = ResourceLimitExceeded ''branch-merge retained delete plan bytes'' KEYED_WRITE_MAX_BYTES n \<and>
            unat n \<in> {unat (ds_retained_bytes s) + length i + 48, unat (ds_retained_bytes s) + length i + 112} \<and>
            33554432 < unat n)"
proof -
  have max: "unat KEYED_WRITE_MAX_BYTES = 33554432" by (simp add: KEYED_WRITE_MAX_BYTES_def)
  have "plan_ok KEYED_WRITE_MAX_ROWS KEYED_WRITE_MAX_BYTES KEYED_WRITE_MAX_BYTES ids s"
    using plan_ok_fold [OF _ plan_ok_default, where js = ids] plan
    by (simp add: push_delete_id_def push_bounded_def)
  then have "(\<exists>n. e = ResourceLimitExceeded ''branch-merge delete filter bytes'' KEYED_WRITE_MAX_BYTES n \<and>
            unat n = length (delete_filter_text [i]) \<and> KEYED_WRITE_MAX_BYTES < n) \<or>
         (\<exists>n. e = ResourceLimitExceeded ''branch-merge retained delete plan bytes'' KEYED_WRITE_MAX_BYTES n \<and>
            unat n = unat (ds_retained_bytes s) + length i + 48 +
              (if joins_last KEYED_WRITE_MAX_ROWS (unat KEYED_WRITE_MAX_BYTES) i (map dc_ids (ds_chunks s))
               then 0 else 64) \<and> KEYED_WRITE_MAX_BYTES < n)"
    by (rule push_with_bounds_Inl)
      (use assms max in \<open>simp_all add: push_delete_id_def push_bounded_def KEYED_WRITE_MAX_ROWS_def\<close>)
  then show ?thesis
    unfolding word_less_nat_alt max by (auto split: if_splits)
qed

end
