(* ===== verification/Row_Merge_Properties.thy ===== *)
theory Row_Merge_Properties
  imports Row_Merge_Facts Merge_Delete_Properties
begin

text \<open>
  What a row merge computes, against the pointwise three-way merge of the tables: the conflicts are
  exactly the ids changed in different ways, and otherwise the staged rows and deletes turn the
  target into the merge. Rows are compared by signature, as in the code.
\<close>

section \<open>The merge of three tables, id by id\<close>

definition changed :: "('c, 'd) cursor_row list \<Rightarrow> ('c, 'd) cursor_row list \<Rightarrow> string \<Rightarrow> bool" where
  "changed X Y i \<longleftrightarrow> signature_of (row_at X i) \<noteq> signature_of (row_at Y i)"

definition conflict_at :: "('c, 'd) cursor_row list \<Rightarrow> ('c, 'd) cursor_row list \<Rightarrow> ('c, 'd) cursor_row list \<Rightarrow>
    string \<Rightarrow> bool" where
  "conflict_at B S T i \<longleftrightarrow> changed S B i \<and> changed T B i \<and> changed S T i"

definition merged_row :: "('c, 'd) cursor_row list \<Rightarrow> ('c, 'd) cursor_row list \<Rightarrow> ('c, 'd) cursor_row list \<Rightarrow>
    string \<Rightarrow> ('c, 'd) cursor_row option" where
  "merged_row B S T i = (if changed S B i \<and> \<not> changed T B i then row_at S i else row_at T i)"

text \<open>A table after a delta: rows of \<open>D\<close> replace or add, ids of \<open>X\<close> go.\<close>

definition apply_delta :: "('c, 'd) cursor_row list \<Rightarrow> ('c, 'd) cursor_row list \<Rightarrow> string list \<Rightarrow>
    string \<Rightarrow> ('c, 'd) cursor_row option" where
  "apply_delta T D X i =
     (case row_at D i of Some r \<Rightarrow> Some r | None \<Rightarrow> if i \<in> set X then None else row_at T i)"

definition conflict_of :: "string \<Rightarrow> ('c, 'd) cursor_row list \<Rightarrow> ('c, 'd) cursor_row list \<Rightarrow> ('c, 'd) cursor_row list \<Rightarrow>
    string \<Rightarrow> merge_conflict" where
  "conflict_of k B S T i = classify_merge_conflict k i
     (signature_of (row_at B i)) (signature_of (row_at S i)) (signature_of (row_at T i))"

lemma select_row_eq:
  "select_row (row_at B i) (row_at S i) (row_at T i) =
     (if conflict_at B S T i then Conflicting else Selected (merged_row B S T i))"
  by (auto simp: select_row_def conflict_at_def merged_row_def changed_def Let_def)

section \<open>What the loop pushes\<close>

definition delta_row :: "('c, 'd) cursor_row list \<Rightarrow> ('c, 'd) cursor_row list \<Rightarrow> ('c, 'd) cursor_row list \<Rightarrow>
    string \<Rightarrow> ('c, 'd) cursor_row option" where
  "delta_row B S T i =
     (case merged_row B S T i of
        Some r \<Rightarrow> if differs_from_target r (row_at T i) then Some r else None
      | None \<Rightarrow> None)"

definition deletes :: "('c, 'd) cursor_row list \<Rightarrow> ('c, 'd) cursor_row list \<Rightarrow> ('c, 'd) cursor_row list \<Rightarrow>
    string \<Rightarrow> bool" where
  "deletes B S T i \<longleftrightarrow> merged_row B S T i = None \<and> row_at T i \<noteq> None"

lemma merge_row_conflicting:
  assumes "prior < length (ms_conflicts st) \<or> conflict_at B S T i" "prior \<le> length (ms_conflicts st)"
  shows "merge_row sg k prior i (row_at B i) (row_at S i) (row_at T i) st =
    Inr (st\<lparr>ms_conflicts := ms_conflicts st @ (if conflict_at B S T i then [conflict_of k B S T i] else [])\<rparr>)"
  using assms by (auto simp: merge_row_def select_row_eq conflict_of_def)

lemma merge_row_clean:
  assumes "length (ms_conflicts st) = prior" "\<not> conflict_at B S T i"
  shows "merge_row sg k prior i (row_at B i) (row_at S i) (row_at T i) st =
    (if deletes B S T i then
       r_bind (push_delete_id (ms_deleted_ids st) i) (\<lambda>x. Inr (st\<lparr>ms_deleted_ids := x, ms_needs_update := True\<rparr>))
     else case delta_row B S T i of
       None \<Rightarrow> Inr st
     | Some r \<Rightarrow> r_bind (push_row sg r (ms_delta_writer st)) (\<lambda>w. Inr (st\<lparr>ms_delta_writer := w, ms_needs_update := True\<rparr>)))"
  using assms
  by (auto simp: merge_row_def select_row_eq deletes_def delta_row_def split: option.split)

lemma merge_fold_conflicts:
  assumes "r_fold (\<lambda>i. merge_row sg k prior i (row_at B i) (row_at S i) (row_at T i)) ids st = Inr st'"
    and "prior \<le> length (ms_conflicts st)"
  shows "ms_conflicts st' = ms_conflicts st @ map (conflict_of k B S T) (filter (conflict_at B S T) ids)"
  using assms
proof (induction ids arbitrary: st)
  case (Cons i ids)
  then obtain st1 where st1: "merge_row sg k prior i (row_at B i) (row_at S i) (row_at T i) st = Inr st1"
    "r_fold (\<lambda>i. merge_row sg k prior i (row_at B i) (row_at S i) (row_at T i)) ids st1 = Inr st'" by auto
  have c: "ms_conflicts st1 = ms_conflicts st @ (if conflict_at B S T i then [conflict_of k B S T i] else [])"
  proof (cases "prior < length (ms_conflicts st) \<or> conflict_at B S T i")
    case True
    from merge_row_conflicting [OF this Cons.prems(2), of sg k] st1(1) show ?thesis by auto
  next
    case False
    then have "length (ms_conflicts st) = prior" "\<not> conflict_at B S T i" using Cons.prems(2) by auto
    from st1(1) [unfolded merge_row_clean [OF this]] False show ?thesis
      by (auto split: if_splits option.splits)
  qed
  with Cons.IH [OF st1(2)] Cons.prems(2) show ?case by simp
qed simp

abbreviation pushed :: "('c, 'd) cursor_row list \<Rightarrow> ('c, 'd) cursor_row list \<Rightarrow> ('c, 'd) cursor_row list \<Rightarrow>
    string list \<Rightarrow> ('c, 'd) cursor_row list" where
  "pushed B S T ids \<equiv> List.map_filter (delta_row B S T) ids"

lemma delta_row_deletes: "deletes B S T i \<Longrightarrow> delta_row B S T i = None"
  by (simp add: deletes_def delta_row_def)

lemma merge_fold_clean:
  assumes "r_fold (\<lambda>i. merge_row sg k prior i (row_at B i) (row_at S i) (row_at T i)) ids st = Inr st'"
    and "length (ms_conflicts st) = prior" and "\<forall>i \<in> set ids. \<not> conflict_at B S T i"
  shows "r_fold (push_row sg) (pushed B S T ids) (ms_delta_writer st) = Inr (ms_delta_writer st') \<and>
    r_fold (\<lambda>i s. push_delete_id s i) (filter (deletes B S T) ids) (ms_deleted_ids st) = Inr (ms_deleted_ids st') \<and>
    (ms_needs_update st' \<longleftrightarrow>
       ms_needs_update st \<or> filter (deletes B S T) ids \<noteq> [] \<or> pushed B S T ids \<noteq> [])"
  using assms
proof (induction ids arbitrary: st)
  case (Cons i ids)
  then obtain st1 where st1: "merge_row sg k prior i (row_at B i) (row_at S i) (row_at T i) st = Inr st1"
    "r_fold (\<lambda>i. merge_row sg k prior i (row_at B i) (row_at S i) (row_at T i)) ids st1 = Inr st'" by auto
  have clean: "\<not> conflict_at B S T i" using Cons.prems(3) by simp
  note step = st1(1) [unfolded merge_row_clean [OF Cons.prems(2) clean]]
  have len: "length (ms_conflicts st1) = prior"
    using step Cons.prems(2) by (auto split: if_splits option.splits)
  note IH = Cons.IH [OF st1(2) len] Cons.prems(3)
  show ?case
  proof (cases "deletes B S T i")
    case True
    then show ?thesis using step IH by (auto simp: map_filter_simps delta_row_deletes)
  next
    case False
    then show ?thesis using step IH by (cases "delta_row B S T i") (auto simp: map_filter_simps)
  qed
qed (simp add: map_filter_simps)

section \<open>The delta of a merge\<close>

definition plain_rows :: "('c, 'd) cursor_row list \<Rightarrow> bool" where
  "plain_rows rs \<longleftrightarrow> id_sorted rs \<and> (\<forall>r \<in> set rs. cr_signature r \<noteq> [])"

lemma differs_from_target_iff:
  "cr_signature r \<noteq> [] \<Longrightarrow> differs_from_target r t \<longleftrightarrow> signature_of t \<noteq> Some (cr_signature r)"
  by (auto simp: differs_from_target_def signature_of_def split: option.splits)

lemma merged_row_cases: "merged_row B S T i = row_at S i \<or> merged_row B S T i = row_at T i"
  by (simp add: merged_row_def)

lemma merged_row_Some:
  assumes "plain_rows S" "plain_rows T" "merged_row B S T i = Some r"
  shows "cr_id r = i" "cr_signature r \<noteq> []" "i \<in> cr_id ` (set S \<union> set T)"
  using assms merged_row_cases [of B S T i] row_at_Some [of S i r] row_at_Some [of T i r]
  by (auto simp: plain_rows_def)

lemma delta_row_Some_iff:
  assumes "plain_rows S" "plain_rows T"
  shows "delta_row B S T i = Some r \<longleftrightarrow>
    merged_row B S T i = Some r \<and> signature_of (row_at T i) \<noteq> Some (cr_signature r)"
proof (cases "merged_row B S T i")
  case (Some q)
  from differs_from_target_iff [OF merged_row_Some(2) [OF assms this], of "row_at T i"] Some show ?thesis
    by (auto simp: delta_row_def)
qed (simp add: delta_row_def)

text \<open>
  What a merge without conflicts writes and deletes: the source's rows that only the source changed,
  and the ids of the target's rows that only the source deleted.
\<close>

definition taken :: "('c, 'd) cursor_row list \<Rightarrow> ('c, 'd) cursor_row list \<Rightarrow> ('c, 'd) cursor_row list \<Rightarrow>
    string \<Rightarrow> bool" where
  "taken B S T i \<longleftrightarrow> changed S B i \<and> \<not> changed T B i"

definition taken_rows :: "('c, 'd) cursor_row list \<Rightarrow> ('c, 'd) cursor_row list \<Rightarrow> ('c, 'd) cursor_row list \<Rightarrow>
    ('c, 'd) cursor_row list" where
  "taken_rows B S T = filter (\<lambda>r. taken B S T (cr_id r)) S"

definition dropped_ids :: "('c, 'd) cursor_row list \<Rightarrow> ('c, 'd) cursor_row list \<Rightarrow> ('c, 'd) cursor_row list \<Rightarrow>
    string list" where
  "dropped_ids B S T = map cr_id (filter (\<lambda>r. taken B S T (cr_id r) \<and> cr_id r \<notin> cr_id ` set S) T)"

lemma merged_row_taken: "merged_row B S T i = (if taken B S T i then row_at S i else row_at T i)"
  by (simp add: merged_row_def taken_def)

lemma delta_row_taken:
  assumes "plain_rows S" "plain_rows T"
  shows "delta_row B S T i = (if taken B S T i then row_at S i else None)"
proof (cases "delta_row B S T i")
  case (Some r)
  then have m: "merged_row B S T i = Some r" and s: "signature_of (row_at T i) \<noteq> Some (cr_signature r)"
    using delta_row_Some_iff [OF assms] by blast+
  then have "taken B S T i" by (auto simp: merged_row_taken signature_of_def split: if_splits)
  with m Some show ?thesis by (simp add: merged_row_taken)
next
  case None
  have "row_at S i = None" if taken: "taken B S T i"
  proof (rule ccontr)
    assume "row_at S i \<noteq> None"
    then obtain r where r: "row_at S i = Some r" by blast
    have "signature_of (row_at T i) \<noteq> Some (cr_signature r)"
      using taken r by (auto simp: taken_def changed_def signature_of_def)
    with taken r None show False using delta_row_Some_iff [OF assms, of B i r] by (simp add: merged_row_taken)
  qed
  with None show ?thesis by simp
qed

text \<open>Looking the rows of a table up along a sorted list of ids selects them in the table's own order.\<close>

lemma map_filter_rows:
  assumes sorted: "id_sorted S" and ids: "strictly_sorted ids" "cr_id ` set S \<subseteq> set ids"
  shows "List.map_filter (\<lambda>i. if P i then row_at S i else None) ids = filter (\<lambda>r. P (cr_id r)) S"
    (is "List.map_filter ?f ids = ?filtered")
proof -
  have f: "?f i = Some r \<Longrightarrow> cr_id r = i" for i r using row_at_Some [of S i r] by (auto split: if_splits)
  have "map cr_id (List.map_filter ?f js) = filter (\<lambda>i. ?f i \<noteq> None) js" for js
    using f by (induction js) (auto simp: map_filter_simps split: option.splits)
  moreover have "filter (\<lambda>i. ?f i \<noteq> None) ids = map cr_id ?filtered"
  proof (rule strictly_sorted_eqI)
    show "strictly_sorted (map cr_id ?filtered)"
      using sorted sorted_wrt_filter [of "\<lambda>a b. cr_id a < cr_id b" S "\<lambda>r. P (cr_id r)"]
      by (simp add: id_sorted_def sorted_wrt_map)
    have "?f i \<noteq> None \<longleftrightarrow> P i \<and> i \<in> cr_id ` set S" for i
      using row_at_None_iff [of S i] by (cases "row_at S i") simp_all
    then show "set (filter (\<lambda>i. ?f i \<noteq> None) ids) = set (map cr_id ?filtered)"
      using ids(2) by auto
  qed (use ids(1) in \<open>rule sorted_wrt_filter\<close>)
  ultimately have same: "map cr_id (List.map_filter ?f ids) = map cr_id ?filtered" by simp
  have found: "map (\<lambda>i. the (row_at S i)) (map cr_id rs) = rs" if "set rs \<subseteq> set S" for rs
    using that row_at_in [OF sorted] by (auto intro!: map_idI)
  have "set (List.map_filter ?f ids) \<subseteq> set S"
    using row_at_Some [of S] by (fastforce simp: set_map_filter split: if_splits)
  with found [of ?filtered] found [of "List.map_filter ?f ids"] same show ?thesis by auto
qed

lemma pushed_taken:
  assumes "plain_rows S" "plain_rows T"
  shows "pushed B S T (id_list (B @ S @ T)) = taken_rows B S T"
  unfolding delta_row_taken [OF assms] taken_rows_def
  by (rule map_filter_rows) (use assms(1) in \<open>auto simp: plain_rows_def\<close>)

lemma deletes_dropped:
  assumes "id_sorted T"
  shows "filter (deletes B S T) (id_list (B @ S @ T)) = dropped_ids B S T"
proof (rule strictly_sorted_eqI)
  show "strictly_sorted (dropped_ids B S T)"
    using assms sorted_wrt_filter [of "\<lambda>a b. cr_id a < cr_id b" T
        "\<lambda>r. taken B S T (cr_id r) \<and> cr_id r \<notin> cr_id ` set S"]
    by (simp add: id_sorted_def sorted_wrt_map dropped_ids_def)
  show "set (filter (deletes B S T) (id_list (B @ S @ T))) = set (dropped_ids B S T)"
    by (auto simp: deletes_def dropped_ids_def merged_row_taken row_at_None_iff split: if_splits)
qed (rule sorted_wrt_filter, simp)

lemma row_at_filter: "row_at (filter (\<lambda>r. P (cr_id r)) rs) i = (if P i then row_at rs i else None)"
  by (induction rs) (auto simp: row_at_def)

lemma apply_delta_merged: "apply_delta T (taken_rows B S T) (dropped_ids B S T) i = merged_row B S T i"
proof -
  have "i \<in> set (dropped_ids B S T) \<longleftrightarrow> taken B S T i \<and> row_at S i = None \<and> row_at T i \<noteq> None"
    by (auto simp: dropped_ids_def row_at_None_iff)
  then show ?thesis
    by (auto simp: apply_delta_def taken_rows_def row_at_filter merged_row_taken split: option.splits)
qed


section \<open>The whole operation\<close>

text \<open>How an optional staged table holds a list of rows.\<close>

definition holds_rows :: "('c \<Rightarrow> 'v list) \<Rightarrow> ('d \<Rightarrow> 'v list list) \<Rightarrow> arrow_field list \<Rightarrow>
    'd staged_table option \<Rightarrow> ('c, 'd) cursor_row list \<Rightarrow> bool" where
  "holds_rows cells table_rows schema t rs \<longleftrightarrow>
     (case t of
        None \<Rightarrow> rs = []
      | Some t \<Rightarrow> rs \<noteq> [] \<and> staged_well t (length rs) \<and>
                table_rows (sd_dataset t) = map (staged_values cells schema) rs)"

lemma finish_nonempty_holds:
  assumes laws: "staging_laws sg cells table_rows" and new: "writer_new sg key schema = Inr w0"
    and plain: "schema \<noteq> []" "schema_has_blob sg schema = Inr False"
    and push: "r_fold (push_row sg) rs w0 = Inr w" and finish: "writer_finish_nonempty sg w = Inr t"
  shows "holds_rows cells table_rows schema t rs"
proof -
  have "\<not> sw_materialize_blobs w0" using new plain(2) by (auto simp: writer_new_def)
  note n = writer_new_inv [OF new plain(1) this]
  have inv: "writer_inv sg cells table_rows rs w" and s: "sw_schema w = schema"
    using push_rows_inv [OF laws push n(1)] n(2) by simp_all
  have count: "unat (sw_row_count w) = length rs" using inv by (simp add: writer_inv_def)
  show ?thesis
  proof (cases "rs = []")
    case True
    then show ?thesis
      using finish count by (simp add: writer_finish_nonempty_def holds_rows_def unat_eq_0)
  next
    case False
    then have "0 < sw_row_count w" using count by (auto simp: word_gt_0 simp flip: unat_eq_0)
    then obtain t' where "t = Some t'" "writer_finish sg w = Inr t'"
      using finish by (auto simp: writer_finish_nonempty_def)
    with writer_finish_staged [OF laws inv False] s False show ?thesis by (simp add: holds_rows_def)
  qed
qed

text \<open>
  The result of a merge for a table: nothing when nothing changes, otherwise the rows to write and
  the ids to delete.
\<close>

definition merge_writes :: "('c \<Rightarrow> 'v list) \<Rightarrow> ('d \<Rightarrow> 'v list list) \<Rightarrow> arrow_field list \<Rightarrow>
    'd staged_merge_result option \<Rightarrow> ('c, 'd) cursor_row list \<Rightarrow> string list \<Rightarrow> bool" where
  "merge_writes cells table_rows schema res D X \<longleftrightarrow>
     (case res of
        None \<Rightarrow> D = [] \<and> X = []
      | Some r \<Rightarrow> holds_rows cells table_rows schema (sr_delta_staged r) D \<and> deleted_ids (sr_deleted_ids r) = X \<and>
                (D \<noteq> [] \<or> X \<noteq> []))"

lemma push_delete_all:
  "r_fold (\<lambda>i s. push_delete_id s i) X delete_id_chunks_default = Inr s \<Longrightarrow> deleted_ids s = X"
  using plan_ok_fold [OF _ plan_ok_default, where js = X]
  by (simp add: push_delete_id_def push_bounded_def plan_ok_def)

lemma conflict_in_ids: "conflict_at B S T i \<Longrightarrow> i \<in> set (id_list (B @ S @ T))"
proof (rule ccontr)
  assume conflict: "conflict_at B S T i" and "i \<notin> set (id_list (B @ S @ T))"
  then have "row_at B i = None" "row_at S i = None" "row_at T i = None"
    by (simp_all add: row_at_None_iff image_Un)
  with conflict show False by (simp add: conflict_at_def changed_def)
qed

text \<open>
  C1: the three-way merge of a table whose schema has no blob column, whose scans give the rows of
  base, source and target in id order, with signatures that are not empty (as when there are two
  columns or an id that is not empty). The reported conflicts are exactly the ids that source and
  target changed in different ways, in id order; with a conflict nothing is staged. Without one, the
  staged rows are exactly the source's rows that only the source changed, each with the values it
  has in the batch the scan delivered, in id order; the deleted ids are exactly those of the target
  that only the source deleted; and both turn the target into the pointwise merge (the source's row
  where only the source changed, otherwise the target's).
\<close>
theorem three_way_merge_correct:
  assumes laws: "staging_laws sg cells table_rows"
    and schema: "schema_for_table_key cat key = Inr schema" "schema \<noteq> []" "schema_has_blob sg schema = Inr False"
    and open_base: "from_snapshot ta base key = Inr b" "yields ar b B" "id_sorted B"
    and open_source: "from_snapshot ta source key = Inr s" "yields ar s S" "plain_rows S"
    and open_target: "from_snapshot ta target key = Inr t" "yields ar t T" "plain_rows T"
    and merge: "stage_streaming_table_merge ar ta sg key cat base source target conflicts = Inr (res, conflicts')"
  shows "conflicts' = conflicts @ map (conflict_of key B S T) (filter (conflict_at B S T) (id_list (B @ S @ T))) \<and>
    ((\<exists>i. conflict_at B S T i) \<longrightarrow> res = None) \<and>
    ((\<forall>i. \<not> conflict_at B S T i) \<longrightarrow>
      merge_writes cells table_rows schema res (taken_rows B S T) (dropped_ids B S T)) \<and>
    (\<forall>i. apply_delta T (taken_rows B S T) (dropped_ids B S T) i = merged_row B S T i)"
proof (intro conjI)
  let ?ids = "id_list (B @ S @ T)"
  obtain w0 st where w0: "writer_new sg (key @ ''_delta'') schema = Inr w0"
    and loop: "merge_loop ar sg key (length conflicts) b s t
      \<lparr>ms_conflicts = conflicts, ms_delta_writer = w0, ms_deleted_ids = delete_id_chunks_default,
       ms_needs_update = False\<rparr> = Inr st"
    and fin: "(if length conflicts < length (ms_conflicts st) then Inr (None, ms_conflicts st)
     else if \<not> ms_needs_update st then Inr (None, ms_conflicts st)
     else r_bind (writer_finish_nonempty sg (ms_delta_writer st)) (\<lambda>delta_staged.
       Inr (Some \<lparr>sr_delta_staged = delta_staged, sr_deleted_ids = ms_deleted_ids st\<rparr>, ms_conflicts st)))
     = Inr (res, conflicts')"
    using merge open_base(1) open_source(1) open_target(1) schema(1)
    by (auto simp: stage_streaming_table_merge_def Let_def)
  have sorted: "id_sorted S" "id_sorted T" using open_source(3) open_target(3) by (simp_all add: plain_rows_def)
  note fold = loop [unfolded merge_walk.walk_fold [OF open_base(2) open_source(2) open_target(2) open_base(3) sorted]]
  have c: "ms_conflicts st = conflicts @ map (conflict_of key B S T) (filter (conflict_at B S T) ?ids)"
    using merge_fold_conflicts [OF fold] by simp
  moreover have "conflicts' = ms_conflicts st" using fin by (auto split: if_splits)
  ultimately show "conflicts' = conflicts @ map (conflict_of key B S T) (filter (conflict_at B S T) ?ids)" by simp
  show "(\<exists>i. conflict_at B S T i) \<longrightarrow> res = None"
    using fin c conflict_in_ids [of B S T] by (auto simp: filter_empty_conv split: if_splits)
  show "(\<forall>i. \<not> conflict_at B S T i) \<longrightarrow>
      merge_writes cells table_rows schema res (taken_rows B S T) (dropped_ids B S T)"
  proof
    assume none: "\<forall>i. \<not> conflict_at B S T i"
    have clean: "r_fold (push_row sg) (taken_rows B S T) w0 = Inr (ms_delta_writer st)"
      "r_fold (\<lambda>i s. push_delete_id s i) (dropped_ids B S T) delete_id_chunks_default = Inr (ms_deleted_ids st)"
      "ms_needs_update st \<longleftrightarrow> dropped_ids B S T \<noteq> [] \<or> taken_rows B S T \<noteq> []"
      using merge_fold_clean [OF fold] none pushed_taken [OF open_source(3) open_target(3), of B]
        deletes_dropped [OF sorted(2), of B S] by simp_all
    have "ms_conflicts st = conflicts" using c none by simp
    then show "merge_writes cells table_rows schema res (taken_rows B S T) (dropped_ids B S T)"
      using fin clean(3) push_delete_all [OF clean(2)] finish_nonempty_holds [OF laws w0 schema(2,3) clean(1)]
      by (auto simp: merge_writes_def split: if_splits)
  qed
  show "\<forall>i. apply_delta T (taken_rows B S T) (dropped_ids B S T) i = merged_row B S T i"
    by (simp add: apply_delta_merged)
qed


section \<open>Changes that keep the signature\<close>

text \<open>The texts a row is compared by, and a separator that moves from one text into the next.\<close>

definition row_texts :: "('c, 'x) arrow_scheme \<Rightarrow> ('c, 'd) cursor_row \<Rightarrow> omni_error + string list" where
  "row_texts ar r =
     r_map (\<lambda>column. lance_result (ar_value_text ar column (cr_row_index r))) (signature_columns (cr_batch r))"

definition separator_moved :: "string list \<Rightarrow> string list \<Rightarrow> bool" where
  "separator_moved ts us \<longleftrightarrow>
     (\<exists>pre x y z post. ts = pre @ [x @ [CHR 0x1F] @ y, z] @ post \<and> us = pre @ [x, y @ [CHR 0x1F] @ z] @ post)"

definition hidden_change :: "('c, 'x) arrow_scheme \<Rightarrow> ('c, 'd) cursor_row \<Rightarrow> ('c, 'd) cursor_row \<Rightarrow> bool" where
  "hidden_change ar r r' \<longleftrightarrow> cr_id r = cr_id r' \<and>
     (\<exists>ts us. row_texts ar r = Inr ts \<and> row_texts ar r' = Inr us \<and> (us = ts \<or> separator_moved ts us))"

lemma join_separator_moved: "separator_moved ts us \<Longrightarrow> join_text [CHR 0x1F] ts = join_text [CHR 0x1F] us"
proof -
  have "join_text [CHR 0x1F] (pre @ [x @ [CHR 0x1F] @ y, z] @ post) =
      join_text [CHR 0x1F] (pre @ [x, y @ [CHR 0x1F] @ z] @ post)" for pre x y z post
    by (induction pre) auto
  then show "separator_moved ts us \<Longrightarrow> join_text [CHR 0x1F] ts = join_text [CHR 0x1F] us"
    by (auto simp: separator_moved_def)
qed

lemma eager_signatures:
  assumes "from_snapshot ta snapshot key = Inr c" "yields ar c rs" "r \<in> set rs"
  shows "row_signature ar (cr_batch r) (cr_row_index r) = Inr (cr_signature r)"
proof -
  have row: "emit_row ar d True b n = Inr r \<Longrightarrow> row_signature ar (cr_batch r) (cr_row_index r) = Inr (cr_signature r)"
    for d b n r by (auto simp: emit_row_def)
  have batch: "\<forall>r \<in> set rs. row_signature ar (cr_batch r) (cr_row_index r) = Inr (cr_signature r)"
    if "batch_rows ar d True 0 b = Inr rs" for d b rs
    using that unfolding batch_rows_def r_map_Inr_iff list_all2_conv_all_nth by (metis in_set_conv_nth row)
  have stream: "\<forall>r \<in> set rs. row_signature ar (cr_batch r) (cr_row_index r) = Inr (cr_signature r)"
    if "stream_rows ar d True items = Inr rs" for d items rs
    using that
  proof (induction items arbitrary: rs)
    case (Cons item items)
    then show ?case using batch by fastforce
  qed simp
  show ?thesis
    using assms
    by (cases "oc_stream c")
      (auto simp: yields_def from_snapshot_def cursor_open_def cursor_from_dataset_def split: if_splits
        dest: bspec [OF stream])
qed

lemma hidden_signature:
  assumes "hidden_change ar r r'" "row_signature ar (cr_batch r) (cr_row_index r) = Inr (cr_signature r)"
    "row_signature ar (cr_batch r') (cr_row_index r') = Inr (cr_signature r')"
  shows "cr_id r' = cr_id r \<and> cr_signature r' = cr_signature r"
  using assms join_separator_moved by (auto simp: hidden_change_def row_texts_def row_signature_def)

lemma row_at_same_signature:
  assumes "list_all2 (\<lambda>r r'. cr_id r' = cr_id r \<and> cr_signature r' = cr_signature r) B S"
  shows "signature_of (row_at S i) = signature_of (row_at B i)"
  using assms by (induction rule: list_all2_induct) (auto simp: row_at_def signature_of_def)

text \<open>
  C37: rows are compared by their texts joined with the byte 0x1F, which is not escaped: a source whose
  rows differ from the base only by separators that moved from one column's text into the next is
  taken for unchanged, whatever the tables and the target are. The merge succeeds, reports no
  conflict and writes nothing, so the source's changes are lost.
\<close>
theorem separator_hides_change:
  assumes schema: "schema_for_table_key cat key = Inr schema" "writer_new sg (key @ ''_delta'') schema = Inr w"
    and open_base: "from_snapshot ta base key = Inr b" "yields ar b B" "id_sorted B"
    and open_source: "from_snapshot ta source key = Inr s" "yields ar s S" "id_sorted S"
    and open_target: "from_snapshot ta target key = Inr t" "yields ar t T" "id_sorted T"
    and hidden: "list_all2 (hidden_change ar) B S"
  shows "stage_streaming_table_merge ar ta sg key cat base source target conflicts = Inr (None, conflicts)"
proof -
  have "list_all2 (\<lambda>r r'. cr_id r' = cr_id r \<and> cr_signature r' = cr_signature r) B S"
    using hidden eager_signatures [OF open_base(1,2)] eager_signatures [OF open_source(1,2)]
    by (auto simp: list_all2_conv_all_nth intro!: hidden_signature [THEN conjunct1] hidden_signature [THEN conjunct2])
  then have same: "signature_of (row_at S i) = signature_of (row_at B i)" for i by (rule row_at_same_signature)
  have "\<not> conflict_at B S T i" "merged_row B S T i = row_at T i" for i
    using same by (simp_all add: conflict_at_def merged_row_def changed_def)
  then have select: "select_row (row_at B i) (row_at S i) (row_at T i) = Selected (row_at T i)" for i
    by (simp add: select_row_eq)
  have idle: "merge_row sg key (length (ms_conflicts st)) i (row_at B i) (row_at S i) (row_at T i) st = Inr st"
    for i and st :: "('a, 'b, 'c) merge_state"
    unfolding merge_row_def select
    by (cases "row_at T i") (simp_all add: differs_from_target_def signature_of_def)
  have "r_fold (\<lambda>i. merge_row sg key (length (ms_conflicts st)) i (row_at B i) (row_at S i) (row_at T i)) ids st = Inr st"
    for ids and st :: "('a, 'b, 'c) merge_state"
    by (induction ids) (simp_all add: idle)
  then have "merge_loop ar sg key (length (ms_conflicts st)) b s t st = Inr st" for st
    unfolding merge_walk.walk_fold [OF open_base(2) open_source(2) open_target(2) open_base(3) open_source(3) open_target(3)] .
  from this [of "\<lparr>ms_conflicts = conflicts, ms_delta_writer = w, ms_deleted_ids = delete_id_chunks_default,
      ms_needs_update = False\<rparr>"] show ?thesis
    using schema open_base(1) open_source(1) open_target(1)
    by (simp add: stage_streaming_table_merge_def Let_def)
qed


section \<open>The selection pass for blobs\<close>

lemma collect_fold_conflicts:
  assumes "r_fold (\<lambda>i. collect_row f k prior i (row_at B i) (row_at S i) (row_at T i)) ids st = Inr st'"
    and "prior \<le> length (fst st)"
  shows "fst st' = fst st @ map (conflict_of k B S T) (filter (conflict_at B S T) ids)"
  using assms
proof (induction ids arbitrary: st)
  case (Cons i ids)
  then obtain st1 where st1: "collect_row f k prior i (row_at B i) (row_at S i) (row_at T i) st = Inr st1"
    "r_fold (\<lambda>i. collect_row f k prior i (row_at B i) (row_at S i) (row_at T i)) ids st1 = Inr st'" by auto
  have "fst st1 = fst st @ (if conflict_at B S T i then [conflict_of k B S T i] else [])"
    using st1(1)
    by (auto simp: collect_row_def select_row_eq conflict_of_def split: if_splits option.splits)
  with Cons.IH [OF st1(2)] Cons.prems(2) show ?case by simp
qed simp

lemma collect_fold_clean:
  assumes "r_fold (\<lambda>i. collect_row f k prior i (row_at B i) (row_at S i) (row_at T i)) ids st = Inr st'"
    and "length (fst st) = prior" and "\<forall>i \<in> set ids. \<not> conflict_at B S T i"
  shows "r_fold f (pushed B S T ids) (snd st) = Inr (snd st')"
  using assms
proof (induction ids arbitrary: st)
  case (Cons i ids)
  then obtain st1 where st1: "collect_row f k prior i (row_at B i) (row_at S i) (row_at T i) st = Inr st1"
    "r_fold (\<lambda>i. collect_row f k prior i (row_at B i) (row_at S i) (row_at T i)) ids st1 = Inr st'" by auto
  have "fst st1 = fst st" and "case delta_row B S T i of None \<Rightarrow> snd st1 = snd st | Some r \<Rightarrow> f r (snd st) = Inr (snd st1)"
    using st1(1) Cons.prems
    by (auto simp: collect_row_def select_row_eq delta_row_def split: if_splits option.splits)
  with Cons.IH [OF st1(2)] Cons.prems show ?case
    by (cases "delta_row B S T i") (auto simp: map_filter_simps)
qed (simp add: map_filter_simps)

text \<open>
  C13: the first pass over a table with blobs reports the same conflicts as the merge, and without
  one it selects exactly the rows that the merge stages, in the same order: no staged row escapes
  the preflight and nothing else is opened.
\<close>
theorem blob_pass_selects_staged_rows:
  assumes open_base: "from_snapshot ta base key = Inr b" "yields ar b B" "id_sorted B"
    and open_source: "from_snapshot ta source key = Inr s" "yields ar s S" "id_sorted S"
    and open_target: "from_snapshot ta target key = Inr t" "yields ar t T" "id_sorted T"
    and pass: "collect_three_way_blob_selection ar ta select key base source target conflicts sel = Inr (conflicts', sel')"
    and merge: "merge_loop ar sg key (length conflicts) b s t
      \<lparr>ms_conflicts = conflicts, ms_delta_writer = w, ms_deleted_ids = delete_id_chunks_default,
       ms_needs_update = False\<rparr> = Inr st"
  shows "ms_conflicts st = conflicts' \<and>
    (conflicts' = conflicts \<longrightarrow>
      (\<exists>D. r_fold select D sel = Inr sel' \<and> r_fold (push_row sg) D w = Inr (ms_delta_writer st)))"
proof (intro conjI)
  let ?ids = "id_list (B @ S @ T)"
  note pass' = pass [unfolded collect_three_way_blob_selection_def open_base(1) open_source(1) open_target(1)
      r_bind.simps collect_walk.walk_fold [OF open_base(2) open_source(2) open_target(2) open_base(3) open_source(3) open_target(3)]]
  note merge' = merge [unfolded merge_walk.walk_fold [OF open_base(2) open_source(2) open_target(2) open_base(3) open_source(3) open_target(3)]]
  have "conflicts' = conflicts @ map (conflict_of key B S T) (filter (conflict_at B S T) ?ids)"
    using collect_fold_conflicts [OF pass'] by simp
  then show eq: "ms_conflicts st = conflicts'" using merge_fold_conflicts [OF merge'] by simp
  show "conflicts' = conflicts \<longrightarrow>
      (\<exists>D. r_fold select D sel = Inr sel' \<and> r_fold (push_row sg) D w = Inr (ms_delta_writer st))"
  proof
    assume "conflicts' = conflicts"
    then have none: "\<forall>i \<in> set ?ids. \<not> conflict_at B S T i"
      using \<open>conflicts' = conflicts @ _\<close> by (simp add: filter_empty_conv)
    show "\<exists>D. r_fold select D sel = Inr sel' \<and> r_fold (push_row sg) D w = Inr (ms_delta_writer st)"
      using collect_fold_clean [OF pass' _ none] merge_fold_clean [OF merge' _ none] by auto
  qed
qed

end
