(* ===== verification/Row_Adopt_Properties.thy ===== *)
theory Row_Adopt_Properties
  imports Row_Merge_Properties
begin

text \<open>
  The delta of an adopted source: its inserts, upserts and deletes turn the base into the source.
  Signatures are computed on demand here, so rows are compared by \<open>compute_signature\<close>.
\<close>

definition inserted :: "('c, 'd) cursor_row list \<Rightarrow> ('c, 'd) cursor_row list \<Rightarrow> string \<Rightarrow> ('c, 'd) cursor_row option" where
  "inserted B S i = (if row_at B i = None then row_at S i else None)"

definition updated :: "('c, 'x) arrow_scheme \<Rightarrow> ('c, 'd) cursor_row list \<Rightarrow> ('c, 'd) cursor_row list \<Rightarrow> string \<Rightarrow>
    ('c, 'd) cursor_row option" where
  "updated ar B S i =
     (case (row_at B i, row_at S i) of
        (Some b, Some r) \<Rightarrow> if compute_signature ar r \<noteq> compute_signature ar b then Some r else None
      | _ \<Rightarrow> None)"

definition removed :: "('c, 'd) cursor_row list \<Rightarrow> ('c, 'd) cursor_row list \<Rightarrow> string \<Rightarrow> bool" where
  "removed B S i \<longleftrightarrow> row_at B i \<noteq> None \<and> row_at S i = None"

lemma adopt_row_cases:
  assumes "adopt_row ar sg i (row_at B i) (row_at S i) st = Inr st'"
  shows "(case inserted B S i of
       Some r \<Rightarrow> push_row sg r (as_append_writer st) = Inr (as_append_writer st')
     | None \<Rightarrow> as_append_writer st' = as_append_writer st) \<and>
    (case updated ar B S i of
       Some r \<Rightarrow> push_row sg r (as_upsert_writer st) = Inr (as_upsert_writer st')
     | None \<Rightarrow> as_upsert_writer st' = as_upsert_writer st) \<and>
    (if removed B S i then push_delete_id (as_deleted_ids st) i = Inr (as_deleted_ids st')
     else as_deleted_ids st' = as_deleted_ids st) \<and>
    (as_needs_update st' \<longleftrightarrow> as_needs_update st \<or> inserted B S i \<noteq> None \<or> updated ar B S i \<noteq> None \<or> removed B S i)"
proof -
  have "adopt_row ar sg i (row_at B i) (row_at S i) st =
    (case inserted B S i of
       Some r \<Rightarrow> r_bind (push_row sg r (as_append_writer st)) (\<lambda>w. Inr (st\<lparr>as_append_writer := w, as_needs_update := True\<rparr>))
     | None \<Rightarrow>
       if removed B S i then
         r_bind (push_delete_id (as_deleted_ids st) i) (\<lambda>x. Inr (st\<lparr>as_deleted_ids := x, as_needs_update := True\<rparr>))
       else case updated ar B S i of
         Some r \<Rightarrow> r_bind (push_row sg r (as_upsert_writer st)) (\<lambda>w. Inr (st\<lparr>as_upsert_writer := w, as_needs_update := True\<rparr>))
       | None \<Rightarrow> Inr st)"
    using assms
    by (cases "row_at B i"; cases "row_at S i")
      (auto simp: adopt_row_def inserted_def updated_def removed_def)
  then have step: "(case inserted B S i of
       Some r \<Rightarrow> r_bind (push_row sg r (as_append_writer st)) (\<lambda>w. Inr (st\<lparr>as_append_writer := w, as_needs_update := True\<rparr>))
     | None \<Rightarrow>
       if removed B S i then
         r_bind (push_delete_id (as_deleted_ids st) i) (\<lambda>x. Inr (st\<lparr>as_deleted_ids := x, as_needs_update := True\<rparr>))
       else case updated ar B S i of
         Some r \<Rightarrow> r_bind (push_row sg r (as_upsert_writer st)) (\<lambda>w. Inr (st\<lparr>as_upsert_writer := w, as_needs_update := True\<rparr>))
       | None \<Rightarrow> Inr st) = Inr st'"
    using assms by simp
  have excl: "inserted B S i \<noteq> None \<Longrightarrow> updated ar B S i = None \<and> \<not> removed B S i"
    "removed B S i \<Longrightarrow> updated ar B S i = None"
    by (auto simp: inserted_def updated_def removed_def split: option.splits if_splits)
  show ?thesis
  proof (cases "inserted B S i")
    case (Some r)
    then show ?thesis using step excl(1) by auto
  next
    case None
    show ?thesis
    proof (cases "removed B S i")
      case True
      then show ?thesis using step None excl(2) by auto
    next
      case False
      then show ?thesis using step None by (cases "updated ar B S i") auto
    qed
  qed
qed

lemma adopt_fold:
  assumes "r_fold (\<lambda>i. adopt_row ar sg i (row_at B i) (row_at S i)) ids st = Inr st'"
  shows "r_fold (push_row sg) (List.map_filter (inserted B S) ids) (as_append_writer st) = Inr (as_append_writer st') \<and>
    r_fold (push_row sg) (List.map_filter (updated ar B S) ids) (as_upsert_writer st) = Inr (as_upsert_writer st') \<and>
    r_fold (\<lambda>i s. push_delete_id s i) (filter (removed B S) ids) (as_deleted_ids st) = Inr (as_deleted_ids st') \<and>
    (as_needs_update st' \<longleftrightarrow> as_needs_update st \<or> List.map_filter (inserted B S) ids \<noteq> [] \<or>
       List.map_filter (updated ar B S) ids \<noteq> [] \<or> filter (removed B S) ids \<noteq> [])"
  using assms
proof (induction ids arbitrary: st)
  case (Cons i ids)
  then obtain st1 where st1: "adopt_row ar sg i (row_at B i) (row_at S i) st = Inr st1"
    "r_fold (\<lambda>i. adopt_row ar sg i (row_at B i) (row_at S i)) ids st1 = Inr st'" by auto
  note step = adopt_row_cases [OF st1(1), THEN conjunct1] adopt_row_cases [OF st1(1), THEN conjunct2, THEN conjunct1]
    adopt_row_cases [OF st1(1), THEN conjunct2, THEN conjunct2, THEN conjunct1]
    adopt_row_cases [OF st1(1), THEN conjunct2, THEN conjunct2, THEN conjunct2] and IH = Cons.IH [OF st1(2)]
  have "r_fold (push_row sg) (List.map_filter (inserted B S) (i # ids)) (as_append_writer st) = Inr (as_append_writer st')"
    using step(1) IH by (cases "inserted B S i") (auto simp: map_filter_simps)
  moreover have "r_fold (push_row sg) (List.map_filter (updated ar B S) (i # ids)) (as_upsert_writer st) = Inr (as_upsert_writer st')"
    using step(2) IH by (cases "updated ar B S i") (auto simp: map_filter_simps)
  moreover have "r_fold (\<lambda>i s. push_delete_id s i) (filter (removed B S) (i # ids)) (as_deleted_ids st) = Inr (as_deleted_ids st')"
    using step(3) IH by (auto split: if_splits)
  moreover have "as_needs_update st' \<longleftrightarrow> as_needs_update st \<or> List.map_filter (inserted B S) (i # ids) \<noteq> [] \<or>
       List.map_filter (updated ar B S) (i # ids) \<noteq> [] \<or> filter (removed B S) (i # ids) \<noteq> []"
    using step(4) IH by (auto simp: map_filter_simps split: option.splits)
  ultimately show ?case by blast
qed (simp add: map_filter_simps)

section \<open>Rows of the delta\<close>

text \<open>
  The delta as lists: the source's rows under new ids, its rows under ids of the base that changed,
  and the ids of the base's rows that the source no longer has.
\<close>

definition new_rows :: "('c, 'd) cursor_row list \<Rightarrow> ('c, 'd) cursor_row list \<Rightarrow> ('c, 'd) cursor_row list" where
  "new_rows B S = filter (\<lambda>r. cr_id r \<notin> cr_id ` set B) S"

definition modified :: "('c, 'x) arrow_scheme \<Rightarrow> ('c, 'd) cursor_row list \<Rightarrow> ('c, 'd) cursor_row list \<Rightarrow> string \<Rightarrow> bool" where
  "modified ar B S i \<longleftrightarrow> row_at B i \<noteq> None \<and>
     map_option (compute_signature ar) (row_at S i) \<noteq> map_option (compute_signature ar) (row_at B i)"

definition modified_rows :: "('c, 'x) arrow_scheme \<Rightarrow> ('c, 'd) cursor_row list \<Rightarrow> ('c, 'd) cursor_row list \<Rightarrow>
    ('c, 'd) cursor_row list" where
  "modified_rows ar B S = filter (\<lambda>r. modified ar B S (cr_id r)) S"

definition lost_ids :: "('c, 'd) cursor_row list \<Rightarrow> ('c, 'd) cursor_row list \<Rightarrow> string list" where
  "lost_ids B S = map cr_id (filter (\<lambda>r. cr_id r \<notin> cr_id ` set S) B)"

lemma inserted_new_rows:
  assumes "id_sorted S"
  shows "List.map_filter (inserted B S) (id_list (B @ S)) = new_rows B S"
proof -
  have "inserted B S = (\<lambda>i. if i \<notin> cr_id ` set B then row_at S i else None)"
    by (simp add: fun_eq_iff inserted_def row_at_None_iff)
  then show ?thesis
    unfolding new_rows_def
    by (simp only:) (rule map_filter_rows [where P = "\<lambda>i. i \<notin> cr_id ` set B"], use assms in auto)
qed

lemma updated_modified_rows:
  assumes "id_sorted S"
  shows "List.map_filter (updated ar B S) (id_list (B @ S)) = modified_rows ar B S"
proof -
  have "updated ar B S = (\<lambda>i. if modified ar B S i then row_at S i else None)"
    by (auto simp: fun_eq_iff updated_def modified_def split: option.splits)
  then show ?thesis
    unfolding modified_rows_def by (simp only:) (rule map_filter_rows, use assms in auto)
qed

lemma removed_lost_ids:
  assumes "id_sorted B"
  shows "filter (removed B S) (id_list (B @ S)) = lost_ids B S"
proof (rule strictly_sorted_eqI)
  show "strictly_sorted (lost_ids B S)"
    using assms sorted_wrt_filter [of "\<lambda>a b. cr_id a < cr_id b" B "\<lambda>r. cr_id r \<notin> cr_id ` set S"]
    by (simp add: id_sorted_def sorted_wrt_map lost_ids_def)
  show "set (filter (removed B S) (id_list (B @ S))) = set (lost_ids B S)"
    by (auto simp: removed_def lost_ids_def row_at_None_iff)
qed (rule sorted_wrt_filter, simp)

lemma row_at_append: "row_at (xs @ ys) i = (case row_at xs i of Some r \<Rightarrow> Some r | None \<Rightarrow> row_at ys i)"
  by (induction xs) (auto simp: row_at_def)

lemma apply_adopt:
  "map_option (compute_signature ar) (apply_delta B (new_rows B S @ modified_rows ar B S) (lost_ids B S) i) =
   map_option (compute_signature ar) (row_at S i)"
proof -
  have lost: "i \<in> set (lost_ids B S) \<longleftrightarrow> row_at B i \<noteq> None \<and> row_at S i = None"
    by (auto simp: lost_ids_def row_at_None_iff)
  have new: "row_at (new_rows B S) i = (if row_at B i = None then row_at S i else None)"
    using row_at_filter [of "\<lambda>i. i \<notin> cr_id ` set B" S i] by (simp add: new_rows_def row_at_None_iff)
  show ?thesis
    unfolding apply_delta_def row_at_append new lost modified_rows_def row_at_filter
    by (cases "row_at B i"; cases "row_at S i") (auto simp: modified_def)
qed

definition adopt_writes :: "('c \<Rightarrow> 'v list) \<Rightarrow> ('d \<Rightarrow> 'v list list) \<Rightarrow> arrow_field list \<Rightarrow>
    'd adopt_delta option \<Rightarrow> ('c, 'd) cursor_row list \<Rightarrow> ('c, 'd) cursor_row list \<Rightarrow> string list \<Rightarrow> bool" where
  "adopt_writes cells table_rows schema res I U X \<longleftrightarrow>
     (case res of
        None \<Rightarrow> I = [] \<and> U = [] \<and> X = []
      | Some d \<Rightarrow> holds_rows cells table_rows schema (ad_inserts d) I \<and>
                holds_rows cells table_rows schema (ad_upserts d) U \<and>
                deleted_ids (ad_deleted_ids d) = X \<and> (I \<noteq> [] \<or> U \<noteq> [] \<or> X \<noteq> []))"

text \<open>
  C2: the delta of an adopted source, for a table staged without blob columns: with the full schema
  when it has none, or with the columns validation reads. Its inserts are exactly the source's rows
  of ids the base does not have, its upserts exactly the source's rows of ids it has whose signature
  differs, both in id order with the values of the scanned batches; its deletes are exactly the ids
  the source no longer has; and applied to the base they give the source. No delta is returned
  exactly when there is nothing to do.
\<close>
theorem adopt_delta_turns_base_into_source:
  assumes laws: "staging_laws sg cells table_rows"
    and schema: "schema_for_table_key cat key = Inr full_schema"
      "(if materialize then Inr full_schema else validation_schema cat key full_schema) = Inr schema"
      "schema \<noteq> []" "schema_has_blob sg schema = Inr False"
    and open_base: "from_snapshot_lazy ta base key = Inr b" "yields ar b B" "id_sorted B"
    and open_source: "from_snapshot_lazy ta source key = Inr s" "yields ar s S" "id_sorted S"
    and delta: "compute_adopt_delta ar ta sg key cat base source materialize = Inr res"
  shows "adopt_writes cells table_rows schema res (new_rows B S) (modified_rows ar B S) (lost_ids B S) \<and>
    (\<forall>i. map_option (compute_signature ar) (apply_delta B (new_rows B S @ modified_rows ar B S) (lost_ids B S) i) =
         map_option (compute_signature ar) (row_at S i))"
proof (intro conjI allI)
  obtain wi wu st where wi: "writer_new sg (key @ ''_adopt_append'') schema = Inr wi"
    and wu: "writer_new sg (key @ ''_adopt_upsert'') schema = Inr wu"
    and loop: "adopt_loop ar sg b s \<lparr>as_append_writer = wi, as_upsert_writer = wu,
      as_deleted_ids = delete_id_chunks_default, as_needs_update = False\<rparr> = Inr st"
    and fin: "(if \<not> as_needs_update st then Inr None
     else r_bind (writer_finish_nonempty sg (as_append_writer st)) (\<lambda>inserts.
       r_bind (writer_finish_nonempty sg (as_upsert_writer st)) (\<lambda>upserts.
       Inr (Some \<lparr>ad_inserts = inserts, ad_upserts = upserts, ad_deleted_ids = as_deleted_ids st\<rparr>)))) = Inr res"
    using delta open_base(1) open_source(1) schema(1,2)
    by (auto simp: compute_adopt_delta_def)
  note f = adopt_fold [OF loop [unfolded adopt_walk.walk_fold [OF open_base(2) open_source(2) open_base(3) open_source(3)]],
      unfolded inserted_new_rows [OF open_source(3)] updated_modified_rows [OF open_source(3)]
        removed_lost_ids [OF open_base(3)], simplified]
  show "adopt_writes cells table_rows schema res (new_rows B S) (modified_rows ar B S) (lost_ids B S)"
    using fin f push_delete_all [of "lost_ids B S" "as_deleted_ids st"]
      finish_nonempty_holds [OF laws wi schema(3,4), of "new_rows B S" "as_append_writer st"]
      finish_nonempty_holds [OF laws wu schema(3,4), of "modified_rows ar B S" "as_upsert_writer st"]
    by (auto simp: adopt_writes_def split: if_splits)
  show "map_option (compute_signature ar) (apply_delta B (new_rows B S @ modified_rows ar B S) (lost_ids B S) i) =
      map_option (compute_signature ar) (row_at S i)" for i
    by (rule apply_adopt)
qed

end
