(* ===== verification/Sample_Merge.thy ===== *)
theory Sample_Merge
  imports Row_Adopt_Properties "HOL-Library.Code_Target_Nat"
begin

text \<open>
  Merges of small tables: columns are lists of strings, a table the list of its rows, and the
  libraries do what their laws promise. The instances show that the hypotheses of the merge
  theorems hold together, and that a change can go unnoticed when two rows have one signature.
\<close>

section \<open>Evaluating checked arithmetic\<close>

lemma u64_try_from_code [code]:
  "u64_try_from n e = (if int n < 18446744073709551616 then Inr (of_int (int n)) else Inl e)"
  by (simp add: u64_try_from_def)

lemma checked_add_code [code]:
  "checked_add a b = (if uint a + uint b < 18446744073709551616 then Some (a + b) else None)"
proof -
  have "uint a = int (unat a)" "uint b = int (unat b)" by simp_all
  then have "uint a + uint b < 18446744073709551616 \<longleftrightarrow> unat a + unat b < 18446744073709551616"
    by linarith
  then show ?thesis by (simp add: checked_add_def)
qed

section \<open>Arrow and Lance on lists\<close>

type_synonym sample_table = "string list list"

definition sample_arrow :: "string list arrow" where
  "sample_arrow = \<lparr>ar_value_text = \<lambda>c i. Inr (c ! i), ar_utf8_values = Some\<rparr>"

definition sample_names :: "string list" where
  "sample_names = [''id'', ''a'', ''b'']"

definition sample_columns :: "sample_table \<Rightarrow> string list list" where
  "sample_columns t = map (\<lambda>j. map (\<lambda>r. r ! j) t) [0..<3]"

definition sample_rows_batch :: "sample_table \<Rightarrow> string list batch" where
  "sample_rows_batch t =
     \<lparr>ba_fields = sample_names, ba_columns = sample_columns t, ba_num_rows = length t\<rparr>"

definition sample_access :: "(string list, sample_table, sample_table) table_access" where
  "sample_access =
     \<lparr>ta_has_entry = \<lambda>t k. True, ta_open_dataset = \<lambda>t k. Inr t,
      ta_ordered_scan = \<lambda>t. Inr [Inr (sample_rows_batch t)]\<rparr>"

definition sample_concat :: "arrow_field list \<Rightarrow> string list batch list \<Rightarrow> string + string list batch" where
  "sample_concat fs bs =
     (let rows = concat (map (batch_values id) bs) in
      if list_all (\<lambda>r. length r = length fs) rows \<and> length rows = sum_list (map ba_num_rows bs)
      then Inr \<lparr>ba_fields = map field_name fs,
                ba_columns = map (\<lambda>j. map (\<lambda>r. r ! j) rows) [0..<length fs], ba_num_rows = length rows\<rparr>
      else Inl ''ragged batch'')"

definition sample_staging :: "(string list, sample_table, unit) staging" where
  "sample_staging =
     \<lparr>sg_take_row = \<lambda>b i. Inr \<lparr>ba_fields = ba_fields b, ba_columns = map (\<lambda>c. [c ! i]) (ba_columns b), ba_num_rows = 1\<rparr>,
      sg_memory_size = \<lambda>b. 1,
      sg_try_new = \<lambda>fs cols. Inr \<lparr>ba_fields = map field_name fs, ba_columns = cols, ba_num_rows = length (hd cols)\<rparr>,
      sg_concat_batches = sample_concat,
      sg_lance_is_blob = \<lambda>f. Inr False,
      sg_stage_root = None,
      sg_tempdir = \<lambda>root p. Inr p,
      sg_append_or_create = \<lambda>uri d b. Inr (existing_rows id d @ batch_values id b),
      sg_create_empty = \<lambda>uri fs. Inr [],
      sg_predicted_blob_bytes = \<lambda>d b. Inr 1,
      sg_materialize_blobs = \<lambda>d b p. Inr (b, p),
      sg_no_payloads = ()\<rparr>"

lemma sample_staging_laws: "staging_laws sample_staging id id"
proof -
  have "batch_values id b = concat (map (batch_values id) bs) \<and> ba_num_rows b = sum_list (map ba_num_rows bs)"
    if c: "sample_concat fs bs = Inr b" for fs bs b
  proof -
    let ?rows = "concat (map (batch_values id) bs)"
    have wf: "\<forall>r \<in> set ?rows. length r = length fs" and len: "length ?rows = sum_list (map ba_num_rows bs)"
      and b: "b = \<lparr>ba_fields = map field_name fs,
        ba_columns = map (\<lambda>j. map (\<lambda>r. r ! j) ?rows) [0..<length fs], ba_num_rows = length ?rows\<rparr>"
      using c by (auto simp: sample_concat_def Let_def list_all_iff split: if_splits)
    have "map (\<lambda>j. map (\<lambda>r. r ! j) ?rows ! i) [0..<length fs] = ?rows ! i" if "i < length ?rows" for i
      using that wf [rule_format, OF nth_mem [OF that]] by (auto intro: nth_equalityI)
    then have "batch_values id b = ?rows"
      by (intro nth_equalityI) (simp_all add: batch_values_def b comp_def)
    then show ?thesis using len by (simp add: b)
  qed
  then show ?thesis
    by (auto simp: staging_laws_def sample_staging_def comp_def)
qed

definition sample_schema :: "arrow_field list" where
  "sample_schema = map system_field sample_names"

definition sample_cat :: catalog where
  "sample_cat =
     \<lparr>cat_node_types = [(''P'', \<lparr>nt_name = ''P'', nt_implements = [], nt_properties = [], nt_key = None,
        nt_unique_constraints = [], nt_indices = [], nt_range_constraints = [], nt_check_constraints = [],
        nt_embed_sources = [], nt_blob_properties = {}, nt_arrow_schema = sample_schema\<rparr>)],
      cat_edge_types = [], cat_edge_name_index = [], cat_interfaces = [], cat_identity = SourceUnbound\<rparr>"

lemma sample_cat_schema: "schema_for_table_key sample_cat ''node:P'' = Inr sample_schema"
  by code_simp

lemma sample_schema_plain: "sample_schema \<noteq> []" "schema_has_blob sample_staging sample_schema = Inr False"
  by code_simp+

section \<open>Cursors over the sample tables\<close>

definition sample_rows :: "bool \<Rightarrow> sample_table \<Rightarrow> (string list, sample_table) cursor_row list" where
  "sample_rows eager t =
     map (\<lambda>i. \<lparr>cr_id = t ! i ! 0,
               cr_signature = (if eager then join_text [CHR 0x1F] (take 3 (t ! i)) else []),
               cr_dataset = t, cr_batch = sample_rows_batch t, cr_row_index = i\<rparr>) [0..<length t]"

definition sample_cursor :: "bool \<Rightarrow> sample_table \<Rightarrow> (string list, sample_table) cursor" where
  "sample_cursor eager t =
     \<lparr>oc_stream = Some [Inr (sample_rows_batch t)], oc_dataset = Some t, oc_current_batch = None,
      oc_current_row = 0, oc_peeked = None, oc_eager_signatures = eager\<rparr>"

lemma sample_table_opens: "cursor_open sample_access t k eager = Inr (sample_cursor eager t)"
  by (simp add: cursor_open_def cursor_from_dataset_def sample_access_def sample_cursor_def)

lemma sample_snapshot [simp]:
  "from_snapshot sample_access t k = Inr (sample_cursor True t)"
  "from_snapshot_lazy sample_access t k = Inr (sample_cursor False t)"
  by (simp_all add: from_snapshot_def from_snapshot_lazy_def sample_table_opens)

lemma sample_batch_rows:
  "batch_rows sample_arrow (Some t) eager 0 (sample_rows_batch t) = Inr rs \<Longrightarrow>
   yields sample_arrow (sample_cursor eager t) rs"
  by (simp add: yields_def sample_cursor_def)

definition sample_base :: sample_table where
  "sample_base = [[''k1'', ''x'', ''y''], [''k2'', ''x'', ''y''], [''k4'', ''x'', ''y'']]"

definition sample_source :: sample_table where
  "sample_source = [[''k1'', ''x'', ''z''], [''k3'', ''x'', ''y''], [''k4'', ''x'', ''y'']]"

definition sample_target :: sample_table where
  "sample_target = [[''k1'', ''x'', ''y''], [''k2'', ''x'', ''y''], [''k4'', ''u'', ''y''], [''k5'', ''x'', ''y'']]"


lemma sample_yields:
  "yields sample_arrow (sample_cursor True sample_base) (sample_rows True sample_base)"
  "yields sample_arrow (sample_cursor True sample_source) (sample_rows True sample_source)"
  "yields sample_arrow (sample_cursor True sample_target) (sample_rows True sample_target)"
  "yields sample_arrow (sample_cursor False sample_base) (sample_rows False sample_base)"
  "yields sample_arrow (sample_cursor False sample_source) (sample_rows False sample_source)"
  by (rule sample_batch_rows, code_simp)+

lemma sample_ordered:
  "id_sorted (sample_rows True sample_base)" "plain_rows (sample_rows True sample_source)"
  "plain_rows (sample_rows True sample_target)"
  "id_sorted (sample_rows False sample_base)" "id_sorted (sample_rows False sample_source)"
  by code_simp+

section \<open>Instances of the theorems\<close>

theorem three_way_merge_correct_witness:
  "\<exists>res.
     stage_streaming_table_merge sample_arrow sample_access sample_staging ''node:P'' sample_cat
       sample_base sample_source sample_target [] = Inr (res, []) \<and>
     merge_writes id id sample_schema res
       (taken_rows (sample_rows True sample_base) (sample_rows True sample_source) (sample_rows True sample_target))
       (dropped_ids (sample_rows True sample_base) (sample_rows True sample_source) (sample_rows True sample_target))"
proof -
  let ?B = "sample_rows True sample_base" and ?S = "sample_rows True sample_source"
    and ?T = "sample_rows True sample_target"
  let ?run = "stage_streaming_table_merge sample_arrow sample_access sample_staging ''node:P'' sample_cat
       sample_base sample_source sample_target []"
  have "case ?run of Inl e \<Rightarrow> False | Inr r \<Rightarrow> snd r = []" by code_simp
  then obtain res where run: "?run = Inr (res, [])" by (auto split: sum.splits)
  note m = three_way_merge_correct [OF sample_staging_laws sample_cat_schema sample_schema_plain
      sample_snapshot(1) sample_yields(1) sample_ordered(1) sample_snapshot(1) sample_yields(2) sample_ordered(2)
      sample_snapshot(1) sample_yields(3) sample_ordered(3) run]
  have "filter (conflict_at ?B ?S ?T) (id_list (?B @ ?S @ ?T)) = []" using m [THEN conjunct1] by simp
  then have "\<forall>i. \<not> conflict_at ?B ?S ?T i"
    using conflict_in_ids [of ?B ?S ?T] by (auto simp: filter_empty_conv simp del: id_list_facts)
  with m [THEN conjunct2, THEN conjunct2] run show ?thesis by blast
qed

theorem blob_pass_selects_staged_rows_witness:
  "\<exists>w st sel D.
     collect_three_way_blob_selection sample_arrow sample_access (\<lambda>r s. Inr (s @ [cr_id r])) ''node:P''
       sample_base sample_source sample_target [] [] = Inr ([], sel) \<and>
     r_fold (\<lambda>r s. Inr (s @ [cr_id r]) :: omni_error + string list) D [] = Inr sel \<and>
     r_fold (push_row sample_staging) D w = Inr (ms_delta_writer (st :: (_, _, _) merge_state))"
proof -
  let ?f = "\<lambda>r s. Inr (s @ [cr_id r]) :: omni_error + string list"
  let ?run = "collect_three_way_blob_selection sample_arrow sample_access ?f ''node:P''
       sample_base sample_source sample_target [] []"
  have run: "?run = Inr ([], [''k1'', ''k3''])" by code_simp
  let ?w = "case writer_new sample_staging ''node:P_delta'' sample_schema of Inr w \<Rightarrow> w"
  let ?merge = "merge_loop sample_arrow sample_staging ''node:P'' (length ([] :: merge_conflict list)) (sample_cursor True sample_base)
      (sample_cursor True sample_source) (sample_cursor True sample_target)
      \<lparr>ms_conflicts = [], ms_delta_writer = ?w, ms_deleted_ids = delete_id_chunks_default, ms_needs_update = False\<rparr>"
  have "\<not> isl ?merge" by code_simp
  then obtain st where st: "?merge = Inr st" by (cases ?merge) auto
  have plain: "id_sorted (sample_rows True sample_source)" "id_sorted (sample_rows True sample_target)"
    using sample_ordered(2,3) by (simp_all add: plain_rows_def)
  from blob_pass_selects_staged_rows [THEN conjunct2, OF sample_snapshot(1) sample_yields(1) sample_ordered(1)
      sample_snapshot(1) sample_yields(2) plain(1) sample_snapshot(1) sample_yields(3) plain(2) run st]
  obtain D where d: "r_fold ?f D [] = Inr [''k1'', ''k3'']"
    "r_fold (push_row sample_staging) D ?w = Inr (ms_delta_writer st)" by auto
  show ?thesis by (intro exI conjI) (rule run, rule d, rule d)
qed

theorem adopt_delta_turns_base_into_source_witness:
  "\<exists>res.
     compute_adopt_delta sample_arrow sample_access sample_staging ''node:P'' sample_cat
       sample_base sample_source True = Inr res \<and>
     adopt_writes id id sample_schema res (new_rows (sample_rows False sample_base) (sample_rows False sample_source))
       (modified_rows sample_arrow (sample_rows False sample_base) (sample_rows False sample_source))
       (lost_ids (sample_rows False sample_base) (sample_rows False sample_source))"
proof -
  let ?run = "compute_adopt_delta sample_arrow sample_access sample_staging ''node:P'' sample_cat
       sample_base sample_source True"
  have "case ?run of Inl e \<Rightarrow> False | Inr r \<Rightarrow> True" by code_simp
  then obtain res where run: "?run = Inr res" by (auto split: sum.splits)
  have schema: "(if True then Inr sample_schema else validation_schema sample_cat ''node:P'' sample_schema) =
    Inr sample_schema" by simp
  from adopt_delta_turns_base_into_source [OF sample_staging_laws sample_cat_schema schema sample_schema_plain
      sample_snapshot(2) sample_yields(4) sample_ordered(4) sample_snapshot(2) sample_yields(5) sample_ordered(5) run]
    run show ?thesis by blast
qed

theorem staged_table_holds_pushed_rows_witness:
  "\<exists>w0 w t.
     writer_new sample_staging ''node:P_delta'' sample_schema = Inr w0 \<and>
     r_fold (push_row sample_staging) (sample_rows True sample_target) w0 = Inr w \<and>
     writer_finish sample_staging w = Inr t \<and>
     sd_dataset t = map (staged_values id sample_schema) (sample_rows True sample_target) \<and>
     staged_keyed_chunk_count ''node:P'' t = Inr (length (sd_chunk_rows t))"
proof -
  have "case r_bind (writer_new sample_staging ''node:P_delta'' sample_schema) (\<lambda>w0.
      r_bind (r_fold (push_row sample_staging) (sample_rows True sample_target) w0) (writer_finish sample_staging))
    of Inl e \<Rightarrow> False | Inr r \<Rightarrow> True" by code_simp
  then obtain w0 w t where new: "writer_new sample_staging ''node:P_delta'' sample_schema = Inr w0"
    and push: "r_fold (push_row sample_staging) (sample_rows True sample_target) w0 = Inr w"
    and finish: "writer_finish sample_staging w = Inr t"
    by (cases "writer_new sample_staging ''node:P_delta'' sample_schema", simp,
        cases "r_bind (writer_new sample_staging ''node:P_delta'' sample_schema)
          (r_fold (push_row sample_staging) (sample_rows True sample_target))", simp, auto split: sum.splits)
  have "\<not> sw_materialize_blobs w0"
    using new sample_schema_plain(2) by (auto simp: writer_new_def)
  moreover have "sample_rows True sample_target \<noteq> []" by code_simp
  ultimately show ?thesis
    using staged_table_holds_pushed_rows [OF sample_staging_laws new sample_schema_plain(1) _ _ push finish, of "''node:P''"]
      new push finish by auto
qed

theorem delete_plan_is_exact_witness:
  "\<exists>s. r_fold (\<lambda>i s. push_delete_id s i) [''a'', [quote], ''b''] delete_id_chunks_default = Inr s \<and>
     deleted_ids s = [''a'', [quote], ''b'']"
proof -
  have "case r_fold (\<lambda>i s. push_delete_id s i) [''a'', [quote], ''b''] delete_id_chunks_default of
      Inl e \<Rightarrow> False | Inr r \<Rightarrow> True" by code_simp
  then obtain s where s: "r_fold (\<lambda>i s. push_delete_id s i) [''a'', [quote], ''b''] delete_id_chunks_default = Inr s"
    by (auto split: sum.splits)
  from delete_plan_is_exact [THEN conjunct1, OF s] s show ?thesis by blast
qed

theorem delete_push_refused_by_limit_witness:
  "\<exists>e. push_delete_id delete_id_chunks_default (replicate 33554432 (CHR ''a'')) = Inl e \<and>
     (\<exists>r n. e = ResourceLimitExceeded r KEYED_WRITE_MAX_BYTES n \<and> 33554432 < unat n)"
proof -
  let ?i = "replicate 33554432 (CHR ''a'')"
  have long: "33554432 < length (delete_filter_text [?i])"
    using length_filter_text_snoc [of "[]" ?i] by (simp add: length_delete_literal)
  have "unat KEYED_WRITE_MAX_BYTES = 33554432" by (simp add: KEYED_WRITE_MAX_BYTES_def)
  then have "\<nexists>s'. push_delete_id delete_id_chunks_default ?i = Inr s'"
    using push_with_bounds_Inr(2) [of delete_id_chunks_default ?i] long
    by (fastforce simp: push_delete_id_def push_bounded_def delete_id_chunks_default_def)
  then obtain e where e: "push_delete_id delete_id_chunks_default ?i = Inl e"
    by (cases "push_delete_id delete_id_chunks_default ?i") auto
  have nil: "r_fold (\<lambda>i s. push_delete_id s i) [] delete_id_chunks_default = Inr delete_id_chunks_default" by simp
  from delete_push_refused_by_limit [OF nil _ e] e show ?thesis by auto
qed

section \<open>Rows that share a signature\<close>

definition joined_base :: sample_table where
  "joined_base = [[''k'', ''x'' @ [CHR 0x1F] @ ''y'', ''z'']]"

definition joined_source :: sample_table where
  "joined_source = [[''k'', ''x'', ''y'' @ [CHR 0x1F] @ ''z'']]"

text \<open>The source changed both columns of a row that the target left alone.\<close>

lemma joined_hidden:
  "hidden_change sample_arrow (hd (sample_rows True joined_base)) (hd (sample_rows True joined_source))"
proof -
  have "row_texts sample_arrow (hd (sample_rows True joined_base)) =
      Inr [''k'', ''x'' @ [CHR 0x1F] @ ''y'', ''z'']"
    "row_texts sample_arrow (hd (sample_rows True joined_source)) = Inr [''k'', ''x'', ''y'' @ [CHR 0x1F] @ ''z'']"
    "cr_id (hd (sample_rows True joined_base)) = cr_id (hd (sample_rows True joined_source))"
    by code_simp+
  moreover have "separator_moved [''k'', ''x'' @ [CHR 0x1F] @ ''y'', ''z''] [''k'', ''x'', ''y'' @ [CHR 0x1F] @ ''z'']"
    unfolding separator_moved_def
    by (rule exI [of _ "[''k'']"], rule exI [of _ "''x''"], rule exI [of _ "''y''"], rule exI [of _ "''z''"],
        rule exI [of _ "[]"]) simp
  ultimately show ?thesis unfolding hidden_change_def by blast
qed

theorem separator_hides_change_witness:
  "joined_source \<noteq> joined_base \<and>
   stage_streaming_table_merge sample_arrow sample_access sample_staging ''node:P'' sample_cat
     joined_base joined_source joined_base [] = Inr (None, [])"
proof
  show "joined_source \<noteq> joined_base" by code_simp
  have y: "yields sample_arrow (sample_cursor True joined_base) (sample_rows True joined_base)"
    "yields sample_arrow (sample_cursor True joined_source) (sample_rows True joined_source)"
    by (rule sample_batch_rows, code_simp)+
  have o': "id_sorted (sample_rows True joined_base)" "id_sorted (sample_rows True joined_source)"
    by code_simp+
  have "\<not> isl (writer_new sample_staging (''node:P'' @ ''_delta'') sample_schema)" by code_simp
  then obtain w where w: "writer_new sample_staging (''node:P'' @ ''_delta'') sample_schema = Inr w"
    by (cases "writer_new sample_staging (''node:P'' @ ''_delta'') sample_schema") auto
  have "length (sample_rows True joined_base) = 1" "length (sample_rows True joined_source) = 1" by code_simp+
  then have "list_all2 (hidden_change sample_arrow) (sample_rows True joined_base) (sample_rows True joined_source)"
    using joined_hidden by (auto simp: length_Suc_conv)
  from separator_hides_change [OF sample_cat_schema w sample_snapshot(1) y(1) o'(1) sample_snapshot(1) y(2) o'(2)
      sample_snapshot(1) y(1) o'(1) this]
  show "stage_streaming_table_merge sample_arrow sample_access sample_staging ''node:P'' sample_cat
     joined_base joined_source joined_base [] = Inr (None, [])" .
qed

end
