(* ===== verification/Recovery_Data.thy ===== *)
theory Recovery_Data
  imports Merge_Writer Commit_Graph Branch_Control
begin

text \<open>
  The data of a recovery sidecar (\<^verbatim>\<open>omnigraph/src/db/manifest/recovery.rs\<close>): the intent a writer stores
  under \<^verbatim>\<open>__recovery/\<close> before it moves the HEAD of a table, and completes once every table effect
  has landed. Tables are named by their identity (\<^verbatim>\<open>omnigraph/src/db/manifest.rs\<close>); their current
  name is only a diagnostic alias.

  A value formatted into a message is an argument of it: an \<^verbatim>\<open>Option\<close> contributes its value when it
  has one, a transaction its two fields, an identity and a writer kind their text.
\<close>

section \<open>Table identity\<close>

record table_identity =
  ti_stable_table_id :: u64
  ti_table_incarnation_id :: u64

definition hex_digit :: "nat \<Rightarrow> char" where
  "hex_digit n = ''0123456789abcdef'' ! n"

primrec hex_digits :: "nat \<Rightarrow> nat \<Rightarrow> string" where
  "hex_digits 0 n = []"
| "hex_digits (Suc w) n = hex_digits w (n div 16) @ [hex_digit (n mod 16)]"

definition hex16 :: "u64 \<Rightarrow> string" where
  "hex16 w = hex_digits 16 (unat w)"

definition show_identity :: "table_identity \<Rightarrow> string" where
  "show_identity i = hex16 (ti_stable_table_id i) @ '':'' @ hex16 (ti_table_incarnation_id i)"

definition identity_validate :: "table_identity \<Rightarrow> omni_error + unit" where
  "identity_validate i =
     guard (\<not> (ti_stable_table_id i = 0 \<or> ti_table_incarnation_id i = 0))
       (BadRequest ''table identity components must be non-zero (stable_table_id={}, table_incarnation_id={})''
          [ArgNum (ti_stable_table_id i), ArgNum (ti_table_incarnation_id i)])"

definition identity_new :: "u64 \<Rightarrow> u64 \<Rightarrow> omni_error + table_identity" where
  "identity_new stable_table_id table_incarnation_id =
     (let identity = \<lparr>ti_stable_table_id = stable_table_id, ti_table_incarnation_id = table_incarnation_id\<rparr> in
      r_bind (identity_validate identity) (\<lambda>_. Inr identity))"

definition table_path_for_identity :: "string \<Rightarrow> table_identity \<Rightarrow> omni_error + string" where
  "table_path_for_identity table_key i =
     (if strip_prefix ''node:'' table_key \<noteq> None
      then Inr (''nodes/'' @ hex16 (ti_stable_table_id i) @ ''-'' @ hex16 (ti_table_incarnation_id i))
      else if strip_prefix ''edge:'' table_key \<noteq> None
      then Inr (''edges/'' @ hex16 (ti_stable_table_id i) @ ''-'' @ hex16 (ti_table_incarnation_id i))
      else Inl (BadRequest ''invalid table key {}'' [ArgText table_key]))"

section \<open>Versions and writers\<close>

definition SIDECAR_SCHEMA_VERSION :: u32 where
  "SIDECAR_SCHEMA_VERSION = 9"

definition IDENTITY_AWARE_SIDECAR_SCHEMA_VERSION :: u32 where
  "IDENTITY_AWARE_SIDECAR_SCHEMA_VERSION = 9"

definition CONFIRMATION_SCHEMA_VERSION :: u32 where
  "CONFIRMATION_SCHEMA_VERSION = 2"

definition EXACT_EFFECT_IDENTITY_SCHEMA_VERSION :: u32 where
  "EXACT_EFFECT_IDENTITY_SCHEMA_VERSION = 3"

definition BRANCH_MERGE_SIDECAR_SCHEMA_VERSION :: u32 where
  "BRANCH_MERGE_SIDECAR_SCHEMA_VERSION = 4"

definition SCHEMA_APPLY_CONFIRMATION_SCHEMA_VERSION :: u32 where
  "SCHEMA_APPLY_CONFIRMATION_SCHEMA_VERSION = 5"

definition ENSURE_INDICES_ROLLBACK_SCHEMA_VERSION :: u32 where
  "ENSURE_INDICES_ROLLBACK_SCHEMA_VERSION = 6"

definition SCHEMA_APPLY_EXACT_SCHEMA_VERSION :: u32 where
  "SCHEMA_APPLY_EXACT_SCHEMA_VERSION = 7"

definition ENSURE_INDICES_EXACT_SCHEMA_VERSION :: u32 where
  "ENSURE_INDICES_EXACT_SCHEMA_VERSION = 8"

lemmas sidecar_versions =
  SIDECAR_SCHEMA_VERSION_def IDENTITY_AWARE_SIDECAR_SCHEMA_VERSION_def CONFIRMATION_SCHEMA_VERSION_def
  EXACT_EFFECT_IDENTITY_SCHEMA_VERSION_def BRANCH_MERGE_SIDECAR_SCHEMA_VERSION_def
  SCHEMA_APPLY_CONFIRMATION_SCHEMA_VERSION_def ENSURE_INDICES_ROLLBACK_SCHEMA_VERSION_def
  SCHEMA_APPLY_EXACT_SCHEMA_VERSION_def ENSURE_INDICES_EXACT_SCHEMA_VERSION_def

datatype sidecar_kind =
    MutationWriter | LoadWriter | SchemaApplyWriter | BranchMergeWriter | EnsureIndicesWriter | OptimizeWriter

fun show_sidecar_kind :: "sidecar_kind \<Rightarrow> string" where
  "show_sidecar_kind MutationWriter = ''Mutation''"
| "show_sidecar_kind LoadWriter = ''Load''"
| "show_sidecar_kind SchemaApplyWriter = ''SchemaApply''"
| "show_sidecar_kind BranchMergeWriter = ''BranchMerge''"
| "show_sidecar_kind EnsureIndicesWriter = ''EnsureIndices''"
| "show_sidecar_kind OptimizeWriter = ''Optimize''"

datatype classification_mode = Strict | Loose | Confirmed | ExactEffect

fun mode_of_kind :: "sidecar_kind \<Rightarrow> u32 \<Rightarrow> classification_mode" where
  "mode_of_kind MutationWriter v = (if EXACT_EFFECT_IDENTITY_SCHEMA_VERSION \<le> v then ExactEffect else Strict)"
| "mode_of_kind LoadWriter v = (if EXACT_EFFECT_IDENTITY_SCHEMA_VERSION \<le> v then ExactEffect else Strict)"
| "mode_of_kind BranchMergeWriter v = (if CONFIRMATION_SCHEMA_VERSION \<le> v then Confirmed else Loose)"
| "mode_of_kind SchemaApplyWriter v = (if SCHEMA_APPLY_EXACT_SCHEMA_VERSION \<le> v then ExactEffect else Loose)"
| "mode_of_kind EnsureIndicesWriter v = (if ENSURE_INDICES_EXACT_SCHEMA_VERSION \<le> v then ExactEffect else Loose)"
| "mode_of_kind OptimizeWriter v = Loose"

section \<open>Pins, deltas and effects\<close>

record staged_transaction_identity =
  tx_read_version :: u64
  tx_uuid :: string

record sidecar_table_pin =
  pin_identity :: table_identity
  pin_table_key :: string
  pin_table_path :: string
  pin_expected_version :: u64
  pin_post_commit_pin :: u64
  pin_confirmed_version :: "u64 option"
  pin_table_branch :: "string option"

record sidecar_table_registration =
  reg_identity :: table_identity
  reg_table_key :: string
  reg_table_path :: string
  reg_table_branch :: "string option"

record sidecar_table_rename =
  ren_identity :: table_identity
  ren_expected_table_key :: string
  ren_expected_version :: u64
  ren_table_key :: string
  ren_table_path :: string

record sidecar_tombstone =
  tomb_identity :: table_identity
  tomb_table_key :: string
  tomb_tombstone_version :: u64

record recovery_authority_token =
  auth_branch_identifier :: branch_identifier
  auth_graph_head :: "string option"
  auth_schema_identity_domain :: string
  auth_schema_ir_hash :: string
  auth_schema_identity_version :: u32

record recovery_lineage_intent =
  lin_graph_commit_id :: string
  lin_branch :: "string option"
  lin_actor_id :: "string option"
  lin_merged_parent_commit_id :: "string option"
  lin_created_at :: i64

datatype recovery_effect_phase = Armed | EffectsConfirmed

record recovery_table_effect =
  eff_identity :: table_identity
  eff_table_key :: string
  eff_planned_transaction :: staged_transaction_identity
  eff_confirmed_transaction :: "staged_transaction_identity option"

record table_version_metadata =
  tvm_manifest_path :: string
  tvm_manifest_size :: "u64 option"
  tvm_e_tag :: "string option"
  tvm_naming_scheme :: "string option"

record recovery_confirmed_table_update =
  cu_table_version :: u64
  cu_table_branch :: "string option"
  cu_row_count :: u64
  cu_version_metadata :: table_version_metadata

record recovery_table_update_slot =
  slot_identity :: table_identity
  slot_table_key :: string
  slot_expected_version :: u64
  slot_table_branch :: "string option"
  slot_confirmed :: "recovery_confirmed_table_update option"

record recovery_manifest_delta =
  md_table_updates :: "recovery_table_update_slot list"
  md_registrations :: "sidecar_table_registration list"
  md_renames :: "sidecar_table_rename list"
  md_tombstones :: "sidecar_tombstone list"

record table_outcome =
  out_table_key :: string
  out_from_version :: u64
  out_to_version :: u64

record recovery_protocol_v3 =
  p3_authority :: recovery_authority_token
  p3_lineage :: recovery_lineage_intent
  p3_rollback_graph_commit_id :: string
  p3_rollback_audit_outcomes :: "table_outcome list option"
  p3_effect_phase :: recovery_effect_phase
  p3_effects :: "recovery_table_effect list"
  p3_intended_delta :: recovery_manifest_delta

datatype recovery_branch_merge_effect_kind =
    MultiCommitHead "u64 option" "staged_transaction_identity list" "u64 option" "branch_identifier option"
  | RefOnlyFork u64 "branch_identifier option"

fun bm_source_fork_version :: "recovery_branch_merge_effect_kind \<Rightarrow> u64 option" where
  "bm_source_fork_version (MultiCommitHead source_fork_version txs confirmed ident) = source_fork_version"
| "bm_source_fork_version (RefOnlyFork source_version ident) = Some source_version"

record recovery_branch_merge_effect =
  bme_identity :: table_identity
  bme_table_key :: string
  bme_kind :: recovery_branch_merge_effect_kind

record recovery_protocol_v4 =
  p4_authority :: recovery_authority_token
  p4_lineage :: recovery_lineage_intent
  p4_rollback_graph_commit_id :: string
  p4_rollback_audit_outcomes :: "table_outcome list option"
  p4_effect_phase :: recovery_effect_phase
  p4_effects :: "recovery_branch_merge_effect list"
  p4_intended_delta :: recovery_manifest_delta

datatype recovery_schema_apply_effect_kind =
    ExistingOverwrite staged_transaction_identity "staged_transaction_identity option"
  | FirstTouchDataset staged_transaction_identity "staged_transaction_identity option"

fun sa_planned_transaction :: "recovery_schema_apply_effect_kind \<Rightarrow> staged_transaction_identity" where
  "sa_planned_transaction (ExistingOverwrite planned confirmed) = planned"
| "sa_planned_transaction (FirstTouchDataset planned confirmed) = planned"

fun sa_confirmed_transaction :: "recovery_schema_apply_effect_kind \<Rightarrow> staged_transaction_identity option" where
  "sa_confirmed_transaction (ExistingOverwrite planned confirmed) = confirmed"
| "sa_confirmed_transaction (FirstTouchDataset planned confirmed) = confirmed"

fun sa_set_confirmed_transaction ::
    "staged_transaction_identity \<Rightarrow> recovery_schema_apply_effect_kind \<Rightarrow> recovery_schema_apply_effect_kind" where
  "sa_set_confirmed_transaction tx (ExistingOverwrite planned confirmed) = ExistingOverwrite planned (Some tx)"
| "sa_set_confirmed_transaction tx (FirstTouchDataset planned confirmed) = FirstTouchDataset planned (Some tx)"

fun sa_is_first_touch :: "recovery_schema_apply_effect_kind \<Rightarrow> bool" where
  "sa_is_first_touch (ExistingOverwrite planned confirmed) = False"
| "sa_is_first_touch (FirstTouchDataset planned confirmed) = True"

record recovery_schema_apply_effect =
  sae_identity :: table_identity
  sae_table_key :: string
  sae_kind :: recovery_schema_apply_effect_kind

record recovery_protocol_v7 =
  p7_authority :: recovery_authority_token
  p7_lineage :: recovery_lineage_intent
  p7_rollback_graph_commit_id :: string
  p7_rollback_audit_outcomes :: "table_outcome list option"
  p7_target_schema_ir_hash :: string
  p7_effect_phase :: recovery_effect_phase
  p7_effects :: "recovery_schema_apply_effect list"
  p7_intended_delta :: recovery_manifest_delta

record recovery_ensure_indices_effect =
  eie_identity :: table_identity
  eie_table_key :: string
  eie_planned_transaction :: staged_transaction_identity
  eie_source_fork_version :: "u64 option"
  eie_confirmed_transaction :: "staged_transaction_identity option"
  eie_confirmed_branch_identifier :: "branch_identifier option"

record recovery_protocol_v8 =
  p8_authority :: recovery_authority_token
  p8_lineage :: recovery_lineage_intent
  p8_rollback_graph_commit_id :: string
  p8_rollback_audit_outcomes :: "table_outcome list option"
  p8_effect_phase :: recovery_effect_phase
  p8_effects :: "recovery_ensure_indices_effect list"
  p8_intended_delta :: recovery_manifest_delta

record recovery_ensure_indices_rollback_v6 =
  p6_rollback_graph_commit_id :: string
  p6_rollback_audit_outcomes :: "table_outcome list option"

record recovery_sidecar =
  rs_schema_version :: u32
  rs_operation_id :: string
  rs_started_at :: string
  rs_branch :: "string option"
  rs_actor_id :: "string option"
  rs_writer_kind :: sidecar_kind
  rs_tables :: "sidecar_table_pin list"
  rs_merge_source_commit_id :: "string option"
  rs_additional_registrations :: "sidecar_table_registration list"
  rs_tombstones :: "sidecar_tombstone list"
  rs_schema_apply_manifest_published :: bool
  rs_schema_apply_target_schema_ir_hash :: "string option"
  rs_protocol_v3 :: "recovery_protocol_v3 option"
  rs_protocol_v4 :: "recovery_protocol_v4 option"
  rs_protocol_v7 :: "recovery_protocol_v7 option"
  rs_protocol_v8 :: "recovery_protocol_v8 option"
  rs_ensure_indices_rollback_v6 :: "recovery_ensure_indices_rollback_v6 option"

record sub_table_entry =
  ste_identity :: table_identity
  ste_table_key :: string
  ste_table_path :: string
  ste_table_version :: u64
  ste_table_branch :: "string option"
  ste_row_count :: u64
  ste_version_metadata :: table_version_metadata

text \<open>A manifest snapshot is the list of its entries, one per table name.\<close>

type_synonym snapshot = "sub_table_entry list"

record sub_table_update =
  up_identity :: table_identity
  up_table_key :: string
  up_table_version :: u64
  up_table_branch :: "string option"
  up_row_count :: u64
  up_version_metadata :: table_version_metadata

section \<open>Where a sidecar is stored\<close>

definition recovery_dir_uri :: "string \<Rightarrow> string" where
  "recovery_dir_uri root_uri = trim_end_slashes root_uri @ ''/'' @ ''__recovery''"

definition sidecar_uri :: "string \<Rightarrow> string \<Rightarrow> string" where
  "sidecar_uri root_uri operation_id = recovery_dir_uri root_uri @ ''/'' @ operation_id @ ''.json''"

end
