(* ===== verification/Recovery_Shape.thy ===== *)
theory Recovery_Shape
  imports Recovery_Data
begin

text \<open>
  The shape a sidecar must have before recovery may act on it (\<^verbatim>\<open>validate_sidecar_shape\<close> and the
  validators of each writer in \<^verbatim>\<open>omnigraph/src/db/manifest/recovery.rs\<close>). The panic of an \<^verbatim>\<open>expect\<close>, which
  an earlier check is meant to exclude, is the error \<open>UnreachableReached\<close>.
\<close>

definition malformed :: "string \<Rightarrow> recovery_sidecar \<Rightarrow> string \<Rightarrow> message_arg list \<Rightarrow> omni_error" where
  "malformed uri s reason args =
     ManifestInternal (''recovery sidecar at {} has an invalid schema-v{} shape: '' @ reason)
       (ArgText uri # ArgNum (ucast (rs_schema_version s)) # args)"

definition opt_arg :: "string option \<Rightarrow> message_arg list" where
  "opt_arg s = (case s of None \<Rightarrow> [] | Some t \<Rightarrow> [ArgText t])"

text \<open>The message of an error, put behind a prefix by \<^verbatim>\<open>map_err\<close>.\<close>

fun rewrap :: "(string \<Rightarrow> message_arg list \<Rightarrow> omni_error) \<Rightarrow> string \<Rightarrow> omni_error + 'a \<Rightarrow> omni_error + 'a" where
  "rewrap mk pre (Inl (BadRequest m args)) = Inl (mk (pre @ m) args)"
| "rewrap mk pre r = r"

definition saturating_add :: "u64 \<Rightarrow> u64 \<Rightarrow> u64" where
  "saturating_add a b = (case checked_add a b of Some c \<Rightarrow> c | None \<Rightarrow> - 1)"

section \<open>Checks the writers share\<close>

definition ends_with :: "string \<Rightarrow> string \<Rightarrow> bool" where
  "ends_with s p \<longleftrightarrow> length p \<le> length s \<and> drop (length s - length p) s = p"

definition validate_pin ::
    "(string \<Rightarrow> message_arg list \<Rightarrow> omni_error) \<Rightarrow> sidecar_table_pin \<Rightarrow> table_identity list \<times> string list \<Rightarrow>
     omni_error + table_identity list \<times> string list" where
  "validate_pin mf pin seen =
     (let (identities, aliases) = seen in
      r_bind (rewrap mf ''invalid table identity: '' (identity_validate (pin_identity pin))) (\<lambda>_.
      r_bind (rewrap mf ''invalid table pin path: ''
               (table_path_for_identity (pin_table_key pin) (pin_identity pin))) (\<lambda>canonical.
      let normalized = trim_end_slashes (pin_table_path pin) in
      r_bind (guard (\<not> (normalized \<noteq> canonical \<and> \<not> ends_with normalized (''/'' @ canonical)))
               (mf ''table pin identity {} alias {} uses path {}, expected canonical suffix {}''
                  [ArgText (show_identity (pin_identity pin)), ArgText (pin_table_key pin),
                   ArgText (pin_table_path pin), ArgText canonical])) (\<lambda>_.
      r_bind (guard (pin_identity pin \<notin> set identities)
               (mf ''duplicate table identity {} in pin set'' [ArgText (show_identity (pin_identity pin))])) (\<lambda>_.
      r_bind (guard (pin_table_key pin \<notin> set aliases)
               (mf ''duplicate diagnostic table alias {} in pin set'' [ArgText (pin_table_key pin)])) (\<lambda>_.
      Inr (pin_identity pin # identities, pin_table_key pin # aliases)))))))"

definition validate_unique_pin_identities ::
    "(string \<Rightarrow> message_arg list \<Rightarrow> omni_error) \<Rightarrow> sidecar_table_pin list \<Rightarrow> bool \<Rightarrow> omni_error + unit" where
  "validate_unique_pin_identities mf pins require_non_empty =
     r_bind (guard (\<not> (require_non_empty \<and> pins = [])) (mf ''table pin set must not be empty'' [])) (\<lambda>_.
     r_bind (r_fold (validate_pin mf) pins ([], [])) (\<lambda>_. Inr ()))"

definition validate_authority_identity ::
    "(string \<Rightarrow> message_arg list \<Rightarrow> omni_error) \<Rightarrow> recovery_authority_token \<Rightarrow> omni_error + unit" where
  "validate_authority_identity mf authority =
     guard (\<not> (auth_schema_identity_domain authority = [] \<or> auth_schema_ir_hash authority = [] \<or>
               auth_schema_identity_version authority = 0))
       (mf ''recovery authority must carry a non-empty schema identity domain/hash and non-zero identity version'' [])"

text \<open>\<^verbatim>\<open>as_deref().filter(|branch| *branch != "main")\<close>\<close>

definition named_branch :: "string option \<Rightarrow> string option" where
  "named_branch b = (case b of None \<Rightarrow> None | Some n \<Rightarrow> if n \<noteq> ''main'' then Some n else None)"

definition delta_only_updates :: "recovery_manifest_delta \<Rightarrow> bool" where
  "delta_only_updates d \<longleftrightarrow> md_registrations d = [] \<and> md_renames d = [] \<and> md_tombstones d = []"

definition unique :: "'a list \<Rightarrow> bool" where
  "unique xs \<longleftrightarrow> card (set xs) = length xs"

definition outcomes_within :: "table_outcome list option \<Rightarrow> string set \<Rightarrow> bool" where
  "outcomes_within outcomes aliases \<longleftrightarrow>
     (case outcomes of None \<Rightarrow> True
      | Some os \<Rightarrow> \<not> (\<not> unique (map out_table_key os) \<or> \<not> set (map out_table_key os) \<subseteq> aliases))"

definition slot_of :: "table_identity \<Rightarrow> recovery_manifest_delta \<Rightarrow> recovery_table_update_slot option" where
  "slot_of i d = find (\<lambda>slot. slot_identity slot = i) (md_table_updates d)"

section \<open>Mutation and load\<close>

definition validate_mutation_load_pin ::
    "(string \<Rightarrow> message_arg list \<Rightarrow> omni_error) \<Rightarrow> recovery_protocol_v3 \<Rightarrow> sidecar_table_pin \<Rightarrow> omni_error + unit" where
  "validate_mutation_load_pin mf p pin =
     r_bind (ok_or (find (\<lambda>e. eff_identity e = pin_identity pin) (p3_effects p)) UnreachableReached) (\<lambda>effect.
     r_bind (ok_or (slot_of (pin_identity pin) (p3_intended_delta p)) UnreachableReached) (\<lambda>slot.
     r_bind (guard (\<not> (eff_table_key effect \<noteq> pin_table_key pin \<or> slot_table_key slot \<noteq> pin_table_key pin))
              (mf ''identity {} has inconsistent diagnostic aliases across pin/effect/delta''
                 [ArgText (show_identity (pin_identity pin))])) (\<lambda>_.
     r_bind (guard (tx_read_version (eff_planned_transaction effect) = pin_expected_version pin)
              (mf ''planned transaction for {} reads version {}, pin expects {}''
                 [ArgText (pin_table_key pin), ArgNum (tx_read_version (eff_planned_transaction effect)),
                  ArgNum (pin_expected_version pin)])) (\<lambda>_.
     r_bind (guard (\<not> (slot_expected_version slot \<noteq> pin_expected_version pin \<or>
                       slot_table_branch slot \<noteq> pin_table_branch pin))
              (mf ''intended-delta pre-state for {} does not match its table pin'' [ArgText (pin_table_key pin)])) (\<lambda>_.
     case p3_effect_phase p of
       Armed \<Rightarrow>
         guard (\<not> (eff_confirmed_transaction effect \<noteq> None \<or> slot_confirmed slot \<noteq> None \<or>
                   pin_confirmed_version pin \<noteq> None))
           (mf ''Armed effect {} already carries confirmation'' [ArgText (pin_table_key pin)])
     | EffectsConfirmed \<Rightarrow>
         r_bind (ok_or (eff_confirmed_transaction effect)
                  (mf ''EffectsConfirmed effect {} lacks a transaction identity'' [ArgText (pin_table_key pin)])) (\<lambda>tx.
         r_bind (ok_or (slot_confirmed slot)
                  (mf ''EffectsConfirmed effect {} lacks a manifest update'' [ArgText (pin_table_key pin)])) (\<lambda>update.
         r_bind (guard (tx = eff_planned_transaction effect)
                  (mf ''confirmed transaction for {} differs from its planned identity'' [ArgText (pin_table_key pin)])) (\<lambda>_.
         guard (\<not> (pin_confirmed_version pin \<noteq> Some (cu_table_version update) \<or>
                   cu_table_branch update \<noteq> pin_table_branch pin))
           (mf ''confirmed update for {} does not match its table pin'' [ArgText (pin_table_key pin)]))))))))) "

definition validate_mutation_load_shape :: "string \<Rightarrow> recovery_sidecar \<Rightarrow> omni_error + unit" where
  "validate_mutation_load_shape uri s =
     (let mf = malformed uri s in
      r_bind (ok_or (rs_protocol_v3 s) (mf ''missing required protocol_v3 payload'' [])) (\<lambda>p.
      r_bind (guard (\<not> (rs_protocol_v4 s \<noteq> None \<or> rs_protocol_v7 s \<noteq> None \<or> rs_protocol_v8 s \<noteq> None \<or>
                        rs_ensure_indices_rollback_v6 s \<noteq> None \<or> rs_merge_source_commit_id s \<noteq> None \<or>
                        rs_schema_apply_manifest_published s \<or> rs_schema_apply_target_schema_ir_hash s \<noteq> None))
               (mf ''Mutation/Load sidecars must carry only the protocol_v3 writer payload'' [])) (\<lambda>_.
      r_bind (validate_authority_identity mf (p3_authority p)) (\<lambda>_.
      r_bind (guard (rs_additional_registrations s = [] \<and> rs_tombstones s = [] \<and>
                     delta_only_updates (p3_intended_delta p))
               (mf ''v3 Mutation/Load sidecars cannot register or tombstone tables'' [])) (\<lambda>_.
      r_bind (guard (named_branch (rs_branch s) = named_branch (lin_branch (p3_lineage p)))
               (mf ''sidecar branch does not match original lineage branch'' [])) (\<lambda>_.
      r_bind (guard (rs_actor_id s = lin_actor_id (p3_lineage p))
               (mf ''sidecar actor does not match original lineage actor'' [])) (\<lambda>_.
      r_bind (guard (lin_merged_parent_commit_id (p3_lineage p) = None)
               (mf ''v3 Mutation/Load lineage cannot carry a merged parent'' [])) (\<lambda>_.
      r_bind (guard (p3_rollback_graph_commit_id p \<noteq> lin_graph_commit_id (p3_lineage p))
               (mf ''original and rollback graph commit ids must differ'' [])) (\<lambda>_.
      r_bind (validate_unique_pin_identities mf (rs_tables s) False) (\<lambda>_.
      r_bind (guard (outcomes_within (p3_rollback_audit_outcomes p) (set (map pin_table_key (rs_tables s))))
               (mf ''rollback audit outcomes must name a unique subset of table pins'' [])) (\<lambda>_.
      let pin_ids = set (map pin_identity (rs_tables s));
          effects = p3_effects p;
          slots = md_table_updates (p3_intended_delta p) in
      r_bind (guard (\<not> (\<not> unique (map eff_identity effects) \<or>
                        \<not> unique (map (tx_uuid \<circ> eff_planned_transaction) effects) \<or>
                        \<not> unique (map slot_identity slots) \<or>
                        set (map eff_identity effects) \<noteq> pin_ids \<or> set (map slot_identity slots) \<noteq> pin_ids))
               (mf ''table pins, planned transaction identities, and intended-delta key sets are not one-to-one'' [])) (\<lambda>_.
      r_each (validate_mutation_load_pin mf p) (rs_tables s)))))))))))))"

section \<open>Optimize\<close>

definition validate_optimize_v9_shape :: "string \<Rightarrow> recovery_sidecar \<Rightarrow> omni_error + unit" where
  "validate_optimize_v9_shape uri s =
     (let mf = malformed uri s in
      r_bind (guard (\<not> (rs_writer_kind s \<noteq> OptimizeWriter \<or> rs_protocol_v3 s \<noteq> None \<or> rs_protocol_v4 s \<noteq> None \<or>
                        rs_protocol_v7 s \<noteq> None \<or> rs_protocol_v8 s \<noteq> None \<or>
                        rs_ensure_indices_rollback_v6 s \<noteq> None \<or>
                        rs_additional_registrations s \<noteq> [] \<or> rs_tombstones s \<noteq> []))
               (mf ''schema-v9 Optimize must carry only identity-bearing table pins'' [])) (\<lambda>_.
      validate_unique_pin_identities mf (rs_tables s) True))"

section \<open>Ensure indices\<close>

definition validate_ensure_indices_v6_shape :: "string \<Rightarrow> recovery_sidecar \<Rightarrow> omni_error + unit" where
  "validate_ensure_indices_v6_shape uri s =
     (let mf = malformed uri s in
      r_bind (guard (rs_writer_kind s = EnsureIndicesWriter)
               (mf ''schema-v6 is reserved for EnsureIndices, found {}'' [ArgText (show_sidecar_kind (rs_writer_kind s))])) (\<lambda>_.
      r_bind (guard (\<not> (rs_protocol_v3 s \<noteq> None \<or> rs_protocol_v4 s \<noteq> None \<or> rs_protocol_v7 s \<noteq> None \<or>
                        rs_protocol_v8 s \<noteq> None \<or> rs_merge_source_commit_id s \<noteq> None \<or>
                        rs_additional_registrations s \<noteq> [] \<or> rs_tombstones s \<noteq> []))
               (mf ''schema-v6 EnsureIndices cannot carry exact, merge, registration, or tombstone fields'' [])) (\<lambda>_.
      r_bind (ok_or (rs_ensure_indices_rollback_v6 s)
               (mf ''schema-v6 EnsureIndices is missing its fixed rollback payload'' [])) (\<lambda>p.
      r_bind (guard (p6_rollback_graph_commit_id p \<noteq> [])
               (mf ''schema-v6 EnsureIndices has an empty rollback commit id'' [])) (\<lambda>_.
      r_bind (guard (\<not> (rs_tables s = [] \<or> \<not> unique (map pin_table_key (rs_tables s))))
               (mf ''schema-v6 EnsureIndices requires unique non-empty table pins'' [])) (\<lambda>_.
      guard (outcomes_within (p6_rollback_audit_outcomes p) (set (map pin_table_key (rs_tables s))))
        (mf ''rollback audit outcomes must name a unique subset of table pins'' []))))))) "

definition validate_ensure_indices_pin ::
    "(string \<Rightarrow> message_arg list \<Rightarrow> omni_error) \<Rightarrow> string option \<Rightarrow> recovery_protocol_v8 \<Rightarrow> sidecar_table_pin \<Rightarrow>
     omni_error + unit" where
  "validate_ensure_indices_pin mf sidecar_branch p pin =
     r_bind (ok_or (find (\<lambda>e. eie_identity e = pin_identity pin) (p8_effects p)) UnreachableReached) (\<lambda>effect.
     r_bind (ok_or (slot_of (pin_identity pin) (p8_intended_delta p)) UnreachableReached) (\<lambda>slot.
     r_bind (guard (\<not> (eie_table_key effect \<noteq> pin_table_key pin \<or> slot_table_key slot \<noteq> pin_table_key pin))
              (mf ''schema-v8 identity {} has inconsistent diagnostic aliases''
                 [ArgText (show_identity (pin_identity pin))])) (\<lambda>_.
     r_bind (ok_or (checked_add (pin_expected_version pin) 1)
              (mf ''schema-v8 effect {} overflows its output version'' [ArgText (pin_table_key pin)])) (\<lambda>exact_output.
     r_bind (guard (\<not> (tx_read_version (eie_planned_transaction effect) \<noteq> pin_expected_version pin \<or>
                       pin_post_commit_pin pin \<noteq> exact_output \<or>
                       slot_expected_version slot \<noteq> pin_expected_version pin \<or>
                       slot_table_branch slot \<noteq> pin_table_branch pin))
              (mf ''schema-v8 effect {} does not match its pin/delta pre-state'' [ArgText (pin_table_key pin)])) (\<lambda>_.
     let is_first_touch = eie_source_fork_version effect \<noteq> None in
     r_bind (guard (\<not> ((is_first_touch \<and>
                        \<not> (case pin_table_branch pin of None \<Rightarrow> False
                            | Some branch \<Rightarrow> branch \<noteq> ''main'' \<and> Some branch = sidecar_branch)) \<or>
                       (case eie_source_fork_version effect of None \<Rightarrow> False
                        | Some version \<Rightarrow> version \<noteq> pin_expected_version pin)))
              (mf ''schema-v8 effect {} has inconsistent first-touch fork identity'' [ArgText (pin_table_key pin)])) (\<lambda>_.
     case p8_effect_phase p of
       Armed \<Rightarrow>
         guard (\<not> (eie_confirmed_transaction effect \<noteq> None \<or> eie_confirmed_branch_identifier effect \<noteq> None \<or>
                   slot_confirmed slot \<noteq> None \<or> pin_confirmed_version pin \<noteq> None))
           (mf ''Armed schema-v8 effect {} already carries confirmation'' [ArgText (pin_table_key pin)])
     | EffectsConfirmed \<Rightarrow>
         r_bind (ok_or (eie_confirmed_transaction effect)
                  (mf ''EffectsConfirmed schema-v8 effect {} lacks transaction confirmation'' [ArgText (pin_table_key pin)])) (\<lambda>tx.
         r_bind (ok_or (slot_confirmed slot)
                  (mf ''EffectsConfirmed schema-v8 effect {} lacks a manifest output'' [ArgText (pin_table_key pin)])) (\<lambda>update.
         guard (\<not> (tx \<noteq> eie_planned_transaction effect \<or> cu_table_version update \<noteq> exact_output \<or>
                   cu_table_branch update \<noteq> pin_table_branch pin \<or>
                   pin_confirmed_version pin \<noteq> Some exact_output \<or>
                   is_first_touch \<noteq> (eie_confirmed_branch_identifier effect \<noteq> None)))
           (mf ''schema-v8 effect {} confirmation differs from its exact plan'' [ArgText (pin_table_key pin)])))))))))"

definition validate_ensure_indices_v8_shape :: "string \<Rightarrow> recovery_sidecar \<Rightarrow> omni_error + unit" where
  "validate_ensure_indices_v8_shape uri s =
     (let mf = malformed uri s in
      r_bind (guard (rs_writer_kind s = EnsureIndicesWriter)
               (mf ''schema-v8 is reserved for EnsureIndices, found {}'' [ArgText (show_sidecar_kind (rs_writer_kind s))])) (\<lambda>_.
      r_bind (guard (\<not> (rs_protocol_v3 s \<noteq> None \<or> rs_protocol_v4 s \<noteq> None \<or> rs_protocol_v7 s \<noteq> None \<or>
                        rs_ensure_indices_rollback_v6 s \<noteq> None \<or> rs_merge_source_commit_id s \<noteq> None \<or>
                        rs_additional_registrations s \<noteq> [] \<or> rs_tombstones s \<noteq> [] \<or>
                        rs_schema_apply_manifest_published s \<or> rs_schema_apply_target_schema_ir_hash s \<noteq> None))
               (mf ''schema-v8 EnsureIndices must carry authority/delta only in protocol_v8'' [])) (\<lambda>_.
      r_bind (ok_or (rs_protocol_v8 s) (mf ''missing required protocol_v8 payload'' [])) (\<lambda>p.
      r_bind (validate_authority_identity mf (p8_authority p)) (\<lambda>_.
      r_bind (guard (delta_only_updates (p8_intended_delta p))
               (mf ''schema-v8 EnsureIndices cannot register or tombstone tables'' [])) (\<lambda>_.
      let sidecar_branch = named_branch (rs_branch s) in
      r_bind (guard (\<not> (sidecar_branch \<noteq> named_branch (lin_branch (p8_lineage p)) \<or>
                        rs_actor_id s \<noteq> lin_actor_id (p8_lineage p) \<or>
                        lin_merged_parent_commit_id (p8_lineage p) \<noteq> None))
               (mf ''schema-v8 sidecar branch/actor does not match its original lineage'' [])) (\<lambda>_.
      r_bind (guard (\<not> (lin_graph_commit_id (p8_lineage p) = [] \<or> p8_rollback_graph_commit_id p = [] \<or>
                        lin_graph_commit_id (p8_lineage p) = p8_rollback_graph_commit_id p))
               (mf ''schema-v8 original and rollback commit ids must be non-empty and distinct'' [])) (\<lambda>_.
      r_bind (validate_unique_pin_identities mf (rs_tables s) True) (\<lambda>_.
      let pin_ids = set (map pin_identity (rs_tables s));
          effects = p8_effects p;
          slots = md_table_updates (p8_intended_delta p);
          uuids = map (tx_uuid \<circ> eie_planned_transaction) effects in
      r_bind (guard (\<not> (\<not> unique (map eie_identity effects) \<or> \<not> unique uuids \<or> [] \<in> set uuids \<or>
                        \<not> unique (map slot_identity slots) \<or>
                        set (map eie_identity effects) \<noteq> pin_ids \<or> set (map slot_identity slots) \<noteq> pin_ids))
               (mf ''schema-v8 pins, effects, transaction UUIDs, and delta slots must be unique and one-to-one'' [])) (\<lambda>_.
      r_bind (guard (outcomes_within (p8_rollback_audit_outcomes p) (set (map pin_table_key (rs_tables s))))
               (mf ''schema-v8 rollback audit outcomes must name a unique subset of table pins'' [])) (\<lambda>_.
      r_each (validate_ensure_indices_pin mf sidecar_branch p) (rs_tables s))))))))))))"

section \<open>Schema apply\<close>

definition schema_apply_rollback_table_key :: "recovery_protocol_v7 \<Rightarrow> sidecar_table_pin \<Rightarrow> string" where
  "schema_apply_rollback_table_key p pin =
     (case find (\<lambda>rename. ren_identity rename = pin_identity pin) (md_renames (p7_intended_delta p)) of
        Some rename \<Rightarrow> ren_expected_table_key rename | None \<Rightarrow> pin_table_key pin)"

definition validate_registration ::
    "(string \<Rightarrow> message_arg list \<Rightarrow> omni_error) \<Rightarrow> recovery_protocol_v7 \<Rightarrow> sidecar_table_registration \<Rightarrow>
     omni_error + unit" where
  "validate_registration mf p reg =
     r_bind (rewrap mf ''invalid registration identity: '' (identity_validate (reg_identity reg))) (\<lambda>_.
     r_bind (table_path_for_identity (reg_table_key reg) (reg_identity reg)) (\<lambda>expected_path.
     r_bind (guard (reg_table_path reg = expected_path)
              (mf ''registration identity {} alias {} has path {}, expected {}''
                 [ArgText (show_identity (reg_identity reg)), ArgText (reg_table_key reg),
                  ArgText (reg_table_path reg), ArgText expected_path])) (\<lambda>_.
     r_bind (ok_or (find (\<lambda>e. sae_identity e = reg_identity reg) (p7_effects p)) UnreachableReached) (\<lambda>effect.
     guard (sae_table_key effect = reg_table_key reg)
       (mf ''first-touch identity {} has registration alias {} but effect alias {}''
          [ArgText (show_identity (reg_identity reg)), ArgText (reg_table_key reg),
           ArgText (sae_table_key effect)])))))"

definition validate_rename ::
    "(string \<Rightarrow> message_arg list \<Rightarrow> omni_error) \<Rightarrow> recovery_protocol_v7 \<Rightarrow> sidecar_table_rename \<Rightarrow>
     omni_error + unit" where
  "validate_rename mf p rename =
     r_bind (rewrap mf ''invalid rename identity: '' (identity_validate (ren_identity rename))) (\<lambda>_.
     r_bind (table_path_for_identity (ren_expected_table_key rename) (ren_identity rename)) (\<lambda>old_path.
     r_bind (table_path_for_identity (ren_table_key rename) (ren_identity rename)) (\<lambda>new_path.
     r_bind (guard (\<not> (ren_expected_version rename = 0 \<or> ren_expected_table_key rename = ren_table_key rename \<or>
                       ren_table_path rename \<noteq> old_path \<or> ren_table_path rename \<noteq> new_path))
              (mf ''rename identity {} must carry a live expected version, change alias, and preserve canonical path {}''
                 [ArgText (show_identity (ren_identity rename)), ArgText (ren_table_path rename)])) (\<lambda>_.
     case slot_of (ren_identity rename) (p7_intended_delta p) of
       None \<Rightarrow> Inr ()
     | Some slot \<Rightarrow>
         guard (\<not> (slot_table_key slot \<noteq> ren_table_key rename \<or>
                   slot_expected_version slot \<noteq> ren_expected_version rename))
           (mf ''rename identity {} does not match its physical output alias/version''
              [ArgText (show_identity (ren_identity rename))])))))"

primrec validate_live_aliases ::
    "(string \<Rightarrow> message_arg list \<Rightarrow> omni_error) \<Rightarrow> string list \<Rightarrow> (table_identity \<times> string) list \<Rightarrow>
     omni_error + unit" where
  "validate_live_aliases mf live_aliases [] = Inr ()"
| "validate_live_aliases mf live_aliases (entry # entries) =
     r_bind (guard (snd entry \<notin> set live_aliases)
              (mf ''SchemaApply delta binds more than one live identity to alias {} (including {})''
                 [ArgText (snd entry), ArgText (show_identity (fst entry))]))
       (\<lambda>_. validate_live_aliases mf (snd entry # live_aliases) entries)"

definition validate_schema_apply_pin ::
    "(string \<Rightarrow> message_arg list \<Rightarrow> omni_error) \<Rightarrow> recovery_protocol_v7 \<Rightarrow> sidecar_table_pin \<Rightarrow> omni_error + unit" where
  "validate_schema_apply_pin mf p pin =
     r_bind (guard (pin_table_branch pin = None)
              (mf ''schema-v7 table {} must target main'' [ArgText (pin_table_key pin)])) (\<lambda>_.
     r_bind (ok_or (find (\<lambda>e. sae_identity e = pin_identity pin) (p7_effects p)) UnreachableReached) (\<lambda>effect.
     r_bind (ok_or (slot_of (pin_identity pin) (p7_intended_delta p)) UnreachableReached) (\<lambda>slot.
     r_bind (guard (\<not> (sae_table_key effect \<noteq> pin_table_key pin \<or> slot_table_key slot \<noteq> pin_table_key pin))
              (mf ''SchemaApply identity {} has inconsistent diagnostic aliases''
                 [ArgText (show_identity (pin_identity pin))])) (\<lambda>_.
     let planned = sa_planned_transaction (sae_kind effect) in
     r_bind (guard (\<not> (tx_read_version planned \<noteq> pin_expected_version pin \<or>
                       pin_post_commit_pin pin \<noteq> saturating_add (pin_expected_version pin) 1 \<or>
                       slot_expected_version slot \<noteq> pin_expected_version pin \<or> slot_table_branch slot \<noteq> None))
              (mf ''schema-v7 effect {} does not match its pin/delta pre-state'' [ArgText (pin_table_key pin)])) (\<lambda>_.
     r_bind (guard (sa_is_first_touch (sae_kind effect) = (pin_expected_version pin = 0))
              (mf ''schema-v7 effect {} has inconsistent first-touch identity'' [ArgText (pin_table_key pin)])) (\<lambda>_.
     case p7_effect_phase p of
       Armed \<Rightarrow>
         guard (\<not> (sa_confirmed_transaction (sae_kind effect) \<noteq> None \<or> slot_confirmed slot \<noteq> None \<or>
                   pin_confirmed_version pin \<noteq> None))
           (mf ''Armed schema-v7 effect {} already carries confirmation'' [ArgText (pin_table_key pin)])
     | EffectsConfirmed \<Rightarrow>
         r_bind (ok_or (sa_confirmed_transaction (sae_kind effect))
                  (mf ''EffectsConfirmed schema-v7 effect {} lacks transaction confirmation'' [ArgText (pin_table_key pin)])) (\<lambda>tx.
         r_bind (ok_or (slot_confirmed slot)
                  (mf ''EffectsConfirmed schema-v7 effect {} lacks a manifest output'' [ArgText (pin_table_key pin)])) (\<lambda>update.
         guard (\<not> (tx \<noteq> planned \<or> cu_table_version update \<noteq> pin_post_commit_pin pin \<or>
                   cu_table_branch update \<noteq> None \<or> pin_confirmed_version pin \<noteq> Some (cu_table_version update)))
           (mf ''schema-v7 effect {} confirmation differs from its exact plan'' [ArgText (pin_table_key pin)])))))))))"

definition validate_schema_apply_v7_shape :: "string \<Rightarrow> recovery_sidecar \<Rightarrow> omni_error + unit" where
  "validate_schema_apply_v7_shape uri s =
     (let mf = malformed uri s in
      r_bind (guard (rs_writer_kind s = SchemaApplyWriter)
               (mf ''schema-v7 is reserved for SchemaApply, found {}'' [ArgText (show_sidecar_kind (rs_writer_kind s))])) (\<lambda>_.
      r_bind (guard (\<not> (rs_branch s \<noteq> None \<or> rs_protocol_v3 s \<noteq> None \<or> rs_protocol_v4 s \<noteq> None \<or>
                        rs_protocol_v8 s \<noteq> None \<or> rs_ensure_indices_rollback_v6 s \<noteq> None \<or>
                        rs_merge_source_commit_id s \<noteq> None \<or> rs_additional_registrations s \<noteq> [] \<or>
                        rs_tombstones s \<noteq> [] \<or> rs_schema_apply_manifest_published s \<or>
                        rs_schema_apply_target_schema_ir_hash s \<noteq> None))
               (mf ''schema-v7 SchemaApply must target main and carry authority/delta only in protocol_v7'' [])) (\<lambda>_.
      r_bind (ok_or (rs_protocol_v7 s) (mf ''missing required protocol_v7 payload'' [])) (\<lambda>p.
      r_bind (validate_authority_identity mf (p7_authority p)) (\<lambda>_.
      r_bind (guard (p7_target_schema_ir_hash p \<noteq> [])
               (mf ''schema-v7 SchemaApply has an empty target schema identity'' [])) (\<lambda>_.
      r_bind (guard (\<not> (rs_actor_id s \<noteq> lin_actor_id (p7_lineage p) \<or> lin_branch (p7_lineage p) \<noteq> None \<or>
                        lin_merged_parent_commit_id (p7_lineage p) \<noteq> None))
               (mf ''schema-v7 sidecar actor/main lineage fields do not match'' [])) (\<lambda>_.
      r_bind (guard (\<not> (lin_graph_commit_id (p7_lineage p) = [] \<or> p7_rollback_graph_commit_id p = [] \<or>
                        p7_rollback_graph_commit_id p = lin_graph_commit_id (p7_lineage p)))
               (mf ''schema-v7 original and rollback commit ids must be non-empty and distinct'' [])) (\<lambda>_.
      r_bind (validate_unique_pin_identities mf (rs_tables s) False) (\<lambda>_.
      let pin_ids = set (map pin_identity (rs_tables s));
          delta = p7_intended_delta p;
          effects = p7_effects p;
          slots = md_table_updates delta;
          uuids = map (tx_uuid \<circ> sa_planned_transaction \<circ> sae_kind) effects in
      r_bind (guard (\<not> (\<not> unique (map sae_identity effects) \<or> \<not> unique (map slot_identity slots) \<or>
                        \<not> unique uuids \<or> [] \<in> set uuids \<or>
                        pin_ids \<noteq> set (map sae_identity effects) \<or> pin_ids \<noteq> set (map slot_identity slots)))
               (mf ''schema-v7 pins, effects, transaction UUIDs, and delta slots must be unique and one-to-one'' [])) (\<lambda>_.
      let registration_ids = map reg_identity (md_registrations delta);
          tombstone_ids = map tomb_identity (md_tombstones delta);
          rename_ids = map ren_identity (md_renames delta);
          first_touch_ids = map sae_identity (filter (sa_is_first_touch \<circ> sae_kind) effects) in
      r_bind (guard (\<not> (\<not> unique registration_ids \<or> \<not> unique tombstone_ids \<or> \<not> unique rename_ids \<or>
                        set registration_ids \<noteq> set first_touch_ids \<or>
                        set registration_ids \<inter> set tombstone_ids \<noteq> {} \<or>
                        set registration_ids \<inter> set rename_ids \<noteq> {} \<or> set tombstone_ids \<inter> set rename_ids \<noteq> {}))
               (mf ''SchemaApply first-touch effects must match unique registration identities, while registrations, renames, and tombstones remain identity-disjoint'' [])) (\<lambda>_.
      r_bind (r_each (validate_registration mf p) (md_registrations delta)) (\<lambda>_.
      r_bind (r_each (validate_rename mf p) (md_renames delta)) (\<lambda>_.
      r_bind (validate_live_aliases mf []
               (map (\<lambda>r. (reg_identity r, reg_table_key r)) (md_registrations delta) @
                map (\<lambda>r. (ren_identity r, ren_table_key r)) (md_renames delta))) (\<lambda>_.
      r_bind (r_each (\<lambda>t. rewrap mf ''invalid tombstone identity: '' (identity_validate (tomb_identity t)))
               (md_tombstones delta)) (\<lambda>_.
      r_bind (guard (\<not> list_ex (\<lambda>r. reg_table_branch r \<noteq> None) (md_registrations delta))
               (mf ''schema-v7 first-touch registrations must target main'' [])) (\<lambda>_.
      r_bind (guard (outcomes_within (p7_rollback_audit_outcomes p)
                       (set (map (schema_apply_rollback_table_key p) (rs_tables s))))
               (mf ''schema-v7 rollback audit outcomes must name a unique subset of restored table aliases'' [])) (\<lambda>_.
      r_each (validate_schema_apply_pin mf p) (rs_tables s))))))))))))))))))"

section \<open>Branch merge\<close>

primrec validate_chain_links ::
    "(string \<Rightarrow> message_arg list \<Rightarrow> omni_error) \<Rightarrow> sidecar_table_pin \<Rightarrow> nat \<Rightarrow>
     staged_transaction_identity list \<Rightarrow> string list \<Rightarrow> omni_error + string list" where
  "validate_chain_links mf pin index [] uuids = Inr uuids"
| "validate_chain_links mf pin index (planned # rest) uuids =
     r_bind (guard (\<not> (tx_uuid planned = [] \<or> tx_uuid planned \<in> set uuids))
              (mf ''planned transaction chain for {} contains an empty or duplicate identity at offset {}''
                 [ArgText (pin_table_key pin), ArgCount index])) (\<lambda>_.
     r_bind (u64_try_from index (mf ''planned transaction chain for {} exceeds u64'' [ArgText (pin_table_key pin)])) (\<lambda>offset.
     r_bind (ok_or (checked_add (pin_expected_version pin) offset)
              (mf ''planned transaction chain for {} overflows at offset {}''
                 [ArgText (pin_table_key pin), ArgCount index])) (\<lambda>expected_read_version.
     r_bind (guard (tx_read_version planned = expected_read_version)
              (mf ''planned transaction chain for {} reads version {} at offset {}, expected {}''
                 [ArgText (pin_table_key pin), ArgNum (tx_read_version planned), ArgCount index,
                  ArgNum expected_read_version])) (\<lambda>_.
     validate_chain_links mf pin (index + 1) rest (tx_uuid planned # uuids)))))"

text \<open>The set of transaction ids seen so far is threaded; the result is the version the chain ends at.\<close>

definition validate_branch_merge_transaction_chain ::
    "(string \<Rightarrow> message_arg list \<Rightarrow> omni_error) \<Rightarrow> sidecar_table_pin \<Rightarrow> staged_transaction_identity list \<Rightarrow>
     string list \<Rightarrow> omni_error + u64 \<times> string list" where
  "validate_branch_merge_transaction_chain mf pin planned uuids =
     r_bind (u64_try_from (length planned)
              (mf ''planned transaction chain for {} exceeds u64'' [ArgText (pin_table_key pin)])) (\<lambda>transaction_count.
     r_bind (guard (\<not> MAX_BRANCH_MERGE_DATA_TRANSACTIONS < transaction_count)
              (mf ''planned transaction chain for {} contains {} data transactions, exceeding the recovery-safe limit of {}''
                 [ArgText (pin_table_key pin), ArgNum transaction_count, ArgNum MAX_BRANCH_MERGE_DATA_TRANSACTIONS])) (\<lambda>_.
     r_bind (ok_or (case planned of [] \<Rightarrow> None | tx # _ \<Rightarrow> Some tx)
              (mf ''multi-commit effect {} has an empty planned transaction chain'' [ArgText (pin_table_key pin)])) (\<lambda>first.
     r_bind (guard (tx_read_version first = pin_expected_version pin)
              (mf ''planned transaction chain for {} begins at version {}, pin expects {}''
                 [ArgText (pin_table_key pin), ArgNum (tx_read_version first), ArgNum (pin_expected_version pin)])) (\<lambda>_.
     r_bind (ok_or (checked_add (tx_read_version first) 1)
              (mf ''planned transaction chain for {} overflows its first output version'' [ArgText (pin_table_key pin)])) (\<lambda>first_output.
     r_bind (guard (pin_post_commit_pin pin = first_output)
              (mf ''post-commit pin for {} is {}, first planned output is {}''
                 [ArgText (pin_table_key pin), ArgNum (pin_post_commit_pin pin), ArgNum first_output])) (\<lambda>_.
     r_bind (validate_chain_links mf pin 0 planned uuids) (\<lambda>uuids.
     r_bind (ok_or (if planned = [] then None else Some (last planned)) UnreachableReached) (\<lambda>final_transaction.
     r_bind (ok_or (checked_add (tx_read_version final_transaction) 1)
              (mf ''planned transaction chain for {} overflows its final output version'' [ArgText (pin_table_key pin)])) (\<lambda>final.
     Inr (final, uuids))))))))))"

definition validate_merge_slot ::
    "(string \<Rightarrow> message_arg list \<Rightarrow> omni_error) \<Rightarrow> recovery_effect_phase \<Rightarrow> recovery_table_update_slot \<Rightarrow>
     omni_error + unit" where
  "validate_merge_slot mf phase slot =
     r_bind (rewrap mf ''invalid delta identity: '' (identity_validate (slot_identity slot))) (\<lambda>_.
     r_bind (guard (\<not> (phase = Armed \<and> slot_confirmed slot \<noteq> None))
              (mf ''Armed manifest slot {} already carries confirmation'' [ArgText (slot_table_key slot)])) (\<lambda>_.
     r_bind (guard (\<not> (phase = EffectsConfirmed \<and> slot_confirmed slot = None))
              (mf ''EffectsConfirmed manifest slot {} lacks its exact output'' [ArgText (slot_table_key slot)])) (\<lambda>_.
     case slot_confirmed slot of
       None \<Rightarrow> Inr ()
     | Some confirmed \<Rightarrow>
         guard (cu_table_branch confirmed = slot_table_branch slot)
           (mf ''confirmed output branch for {} differs from its planned slot'' [ArgText (slot_table_key slot)]))))"

definition validate_merge_effect ::
    "(string \<Rightarrow> message_arg list \<Rightarrow> omni_error) \<Rightarrow> recovery_effect_phase \<Rightarrow> sidecar_table_pin \<Rightarrow>
     recovery_table_update_slot \<Rightarrow> recovery_branch_merge_effect_kind \<Rightarrow> string list \<Rightarrow> omni_error + string list" where
  "validate_merge_effect mf phase pin slot kind uuids =
     (case kind of
        MultiCommitHead source_fork_version planned_transactions confirmed_version confirmed_branch_identifier \<Rightarrow>
          r_bind (validate_branch_merge_transaction_chain mf pin planned_transactions uuids) (\<lambda>(planned_final_version, uuids).
          case phase of
            Armed \<Rightarrow>
              r_bind (guard (\<not> (confirmed_version \<noteq> None \<or> confirmed_branch_identifier \<noteq> None \<or>
                                pin_confirmed_version pin \<noteq> None))
                       (mf ''Armed multi-commit effect {} already carries confirmation'' [ArgText (pin_table_key pin)])) (\<lambda>_.
              r_bind (guard (\<not> (source_fork_version = None \<and> confirmed_branch_identifier \<noteq> None))
                       (mf ''owned-ref effect {} unexpectedly carries a branch identifier'' [ArgText (pin_table_key pin)])) (\<lambda>_.
              Inr uuids))
          | EffectsConfirmed \<Rightarrow>
              r_bind (ok_or confirmed_version
                       (mf ''EffectsConfirmed multi-commit effect {} lacks final version'' [ArgText (pin_table_key pin)])) (\<lambda>version.
              r_bind (ok_or (slot_confirmed slot) UnreachableReached) (\<lambda>confirmed.
              r_bind (guard (\<not> (pin_confirmed_version pin \<noteq> Some version \<or> cu_table_version confirmed \<noteq> version \<or>
                                version < planned_final_version))
                       (mf ''multi-commit effect {} confirmation does not match its pin/delta'' [ArgText (pin_table_key pin)])) (\<lambda>_.
              r_bind (guard ((source_fork_version \<noteq> None) = (confirmed_branch_identifier \<noteq> None))
                       (mf ''first-touch multi-commit effect {} must confirm its target ref identity'' [ArgText (pin_table_key pin)])) (\<lambda>_.
              Inr uuids)))))
      | RefOnlyFork source_version confirmed_branch_identifier \<Rightarrow>
          (case phase of
             Armed \<Rightarrow>
               r_bind (guard (\<not> (confirmed_branch_identifier \<noteq> None \<or> pin_confirmed_version pin \<noteq> None))
                        (mf ''Armed ref-only effect {} already carries confirmation'' [ArgText (pin_table_key pin)])) (\<lambda>_.
               Inr uuids)
           | EffectsConfirmed \<Rightarrow>
               r_bind (ok_or (slot_confirmed slot) UnreachableReached) (\<lambda>confirmed.
               r_bind (guard (\<not> (confirmed_branch_identifier = None \<or> pin_confirmed_version pin \<noteq> Some source_version \<or>
                                 cu_table_version confirmed \<noteq> source_version))
                        (mf ''ref-only effect {} confirmation does not match its exact fork version'' [ArgText (pin_table_key pin)])) (\<lambda>_.
               Inr uuids))))"

fun is_multi_commit_head :: "recovery_branch_merge_effect_kind \<Rightarrow> bool" where
  "is_multi_commit_head (MultiCommitHead source_fork_version txs confirmed ident) = True"
| "is_multi_commit_head (RefOnlyFork source_version ident) = False"

definition validate_merge_pin ::
    "(string \<Rightarrow> message_arg list \<Rightarrow> omni_error) \<Rightarrow> recovery_protocol_v4 \<Rightarrow> sidecar_table_pin \<Rightarrow> string list \<Rightarrow>
     omni_error + string list" where
  "validate_merge_pin mf p pin uuids =
     r_bind (ok_or (find (\<lambda>e. bme_identity e = pin_identity pin) (p4_effects p)) UnreachableReached) (\<lambda>effect.
     r_bind (ok_or (slot_of (pin_identity pin) (p4_intended_delta p)) UnreachableReached) (\<lambda>slot.
     r_bind (guard (\<not> (bme_table_key effect \<noteq> pin_table_key pin \<or> slot_table_key slot \<noteq> pin_table_key pin))
              (mf ''BranchMerge identity {} has inconsistent diagnostic aliases''
                 [ArgText (show_identity (pin_identity pin))])) (\<lambda>_.
     r_bind (guard (\<not> (slot_expected_version slot \<noteq> pin_expected_version pin \<or>
                       slot_table_branch slot \<noteq> pin_table_branch pin))
              (mf ''intended-delta pre-state for {} does not match its physical table pin'' [ArgText (pin_table_key pin)])) (\<lambda>_.
     r_bind (guard (\<not> ((case pin_table_branch pin of None \<Rightarrow> True | Some branch \<Rightarrow> branch = ''main'') \<and>
                       bm_source_fork_version (bme_kind effect) \<noteq> None))
              (mf ''first-touch effect {} does not name a non-main target ref'' [ArgText (pin_table_key pin)])) (\<lambda>_.
     r_bind (case bm_source_fork_version (bme_kind effect) of
               None \<Rightarrow> Inr ()
             | Some source_fork_version \<Rightarrow>
                 guard (\<not> (is_multi_commit_head (bme_kind effect) \<and> source_fork_version \<noteq> pin_expected_version pin))
                   (mf ''first-touch multi-commit effect {} forks from version {}, pin expects {}''
                      [ArgText (pin_table_key pin), ArgNum source_fork_version, ArgNum (pin_expected_version pin)])) (\<lambda>_.
     validate_merge_effect mf (p4_effect_phase p) pin slot (bme_kind effect) uuids))))))"

definition validate_branch_merge_v4_shape :: "string \<Rightarrow> recovery_sidecar \<Rightarrow> omni_error + unit" where
  "validate_branch_merge_v4_shape uri s =
     (let mf = malformed uri s in
      r_bind (guard (rs_writer_kind s = BranchMergeWriter)
               (mf ''protocol_v4 is only defined for BranchMerge, found {}'' [ArgText (show_sidecar_kind (rs_writer_kind s))])) (\<lambda>_.
      r_bind (guard (\<not> (rs_protocol_v3 s \<noteq> None \<or> rs_protocol_v7 s \<noteq> None \<or> rs_protocol_v8 s \<noteq> None \<or>
                        rs_ensure_indices_rollback_v6 s \<noteq> None))
               (mf ''schema-v4 BranchMerge sidecar carries another writer protocol'' [])) (\<lambda>_.
      r_bind (guard (\<not> (rs_merge_source_commit_id s \<noteq> None \<or> rs_additional_registrations s \<noteq> [] \<or> rs_tombstones s \<noteq> []))
               (mf ''schema-v4 BranchMerge must carry lineage/delta only in protocol_v4'' [])) (\<lambda>_.
      r_bind (ok_or (rs_protocol_v4 s) (mf ''missing required protocol_v4 payload'' [])) (\<lambda>p.
      r_bind (validate_authority_identity mf (p4_authority p)) (\<lambda>_.
      r_bind (guard (delta_only_updates (p4_intended_delta p))
               (mf ''BranchMerge cannot register or tombstone tables'' [])) (\<lambda>_.
      r_bind (guard (named_branch (rs_branch s) = named_branch (lin_branch (p4_lineage p)))
               (mf ''sidecar branch does not match original merge lineage branch'' [])) (\<lambda>_.
      r_bind (guard (rs_actor_id s = lin_actor_id (p4_lineage p))
               (mf ''sidecar actor does not match original merge lineage actor'' [])) (\<lambda>_.
      r_bind (guard (lin_merged_parent_commit_id (p4_lineage p) \<noteq> None)
               (mf ''BranchMerge lineage must carry the captured source commit'' [])) (\<lambda>_.
      r_bind (guard (p4_rollback_graph_commit_id p \<noteq> lin_graph_commit_id (p4_lineage p))
               (mf ''original and rollback graph commit ids must differ'' [])) (\<lambda>_.
      r_bind (validate_unique_pin_identities mf (rs_tables s) True) (\<lambda>_.
      let pin_ids = set (map pin_identity (rs_tables s));
          effect_ids = map bme_identity (p4_effects p);
          slots = md_table_updates (p4_intended_delta p) in
      r_bind (guard (\<not> (\<not> unique effect_ids \<or> \<not> unique (map slot_identity slots) \<or>
                        \<not> unique (map slot_table_key slots) \<or> set effect_ids \<noteq> pin_ids \<or>
                        \<not> set effect_ids \<subseteq> set (map slot_identity slots)))
               (mf ''physical table pins/effects must be one-to-one and a subset of unique intended-delta slots'' [])) (\<lambda>_.
      r_bind (guard (outcomes_within (p4_rollback_audit_outcomes p) (set (map pin_table_key (rs_tables s))))
               (mf ''rollback audit outcomes must name a unique subset of physical table pins'' [])) (\<lambda>_.
      r_bind (r_each (validate_merge_slot mf (p4_effect_phase p)) slots) (\<lambda>_.
      r_bind (r_fold (validate_merge_pin mf p) (rs_tables s) []) (\<lambda>_. Inr ()))))))))))))))))"

section \<open>Every sidecar\<close>

definition validate_schema_apply_v5_shape :: "string \<Rightarrow> recovery_sidecar \<Rightarrow> omni_error + unit" where
  "validate_schema_apply_v5_shape uri s =
     (let mf = malformed uri s in
      r_bind (guard (rs_writer_kind s = SchemaApplyWriter)
               (mf ''schema-v5 is reserved for SchemaApply, found {}'' [ArgText (show_sidecar_kind (rs_writer_kind s))])) (\<lambda>_.
      r_bind (guard (\<not> (rs_branch s \<noteq> None \<or> rs_protocol_v3 s \<noteq> None \<or> rs_protocol_v4 s \<noteq> None \<or>
                        rs_protocol_v7 s \<noteq> None \<or> rs_protocol_v8 s \<noteq> None))
               (mf ''schema-v5 SchemaApply must target main and cannot carry v3/v4 protocols'' [])) (\<lambda>_.
      guard (rs_schema_apply_target_schema_ir_hash s \<noteq> None)
        (mf ''schema-v5 SchemaApply is missing its target schema identity'' []))))"

definition validate_generation :: "string \<Rightarrow> recovery_sidecar \<Rightarrow> omni_error + unit" where
  "validate_generation uri s =
     (let mf = malformed uri s; v = rs_schema_version s in
      if v < EXACT_EFFECT_IDENTITY_SCHEMA_VERSION
      then guard (\<not> (rs_protocol_v3 s \<noteq> None \<or> rs_protocol_v4 s \<noteq> None \<or> rs_protocol_v7 s \<noteq> None \<or> rs_protocol_v8 s \<noteq> None))
             (mf ''an exact-effect protocol is present on a pre-v3 sidecar'' [])
      else if v = IDENTITY_AWARE_SIDECAR_SCHEMA_VERSION
      then (case rs_writer_kind s of
              MutationWriter \<Rightarrow> validate_mutation_load_shape uri s
            | LoadWriter \<Rightarrow> validate_mutation_load_shape uri s
            | BranchMergeWriter \<Rightarrow> validate_branch_merge_v4_shape uri s
            | SchemaApplyWriter \<Rightarrow> validate_schema_apply_v7_shape uri s
            | EnsureIndicesWriter \<Rightarrow> validate_ensure_indices_v8_shape uri s
            | OptimizeWriter \<Rightarrow> validate_optimize_v9_shape uri s)
      else if v = BRANCH_MERGE_SIDECAR_SCHEMA_VERSION then validate_branch_merge_v4_shape uri s
      else if v = SCHEMA_APPLY_CONFIRMATION_SCHEMA_VERSION then validate_schema_apply_v5_shape uri s
      else if v = ENSURE_INDICES_ROLLBACK_SCHEMA_VERSION then validate_ensure_indices_v6_shape uri s
      else if v = SCHEMA_APPLY_EXACT_SCHEMA_VERSION then validate_schema_apply_v7_shape uri s
      else if v = ENSURE_INDICES_EXACT_SCHEMA_VERSION then validate_ensure_indices_v8_shape uri s
      else
        r_bind (guard (\<not> (rs_protocol_v4 s \<noteq> None \<or> rs_protocol_v7 s \<noteq> None \<or> rs_protocol_v8 s \<noteq> None))
                 (mf ''a writer-specific exact protocol is present on the wrong sidecar generation'' [])) (\<lambda>_.
        r_bind (guard (rs_writer_kind s = MutationWriter \<or> rs_writer_kind s = LoadWriter)
                 (mf ''protocol_v3 exact effects are only defined for Mutation/Load, found {}''
                    [ArgText (show_sidecar_kind (rs_writer_kind s))])) (\<lambda>_.
        validate_mutation_load_shape uri s)))"

definition validate_sidecar_shape :: "string \<Rightarrow> recovery_sidecar \<Rightarrow> omni_error + unit" where
  "validate_sidecar_shape uri s =
     (let mf = malformed uri s;
          confirmation = rs_schema_apply_manifest_published s \<or> rs_schema_apply_target_schema_ir_hash s \<noteq> None in
      r_bind (guard (\<not> (confirmation \<and> rs_schema_version s \<noteq> SCHEMA_APPLY_CONFIRMATION_SCHEMA_VERSION))
               (mf ''SchemaApply confirmation fields require schema-v{}, found schema-v{}''
                  [ArgNum (ucast SCHEMA_APPLY_CONFIRMATION_SCHEMA_VERSION), ArgNum (ucast (rs_schema_version s))])) (\<lambda>_.
      r_bind (guard (\<not> (confirmation \<and> rs_writer_kind s \<noteq> SchemaApplyWriter))
               (mf ''SchemaApply confirmation fields are present on another writer kind'' [])) (\<lambda>_.
      r_bind (guard (\<not> (rs_schema_apply_manifest_published s \<and> rs_schema_apply_target_schema_ir_hash s = None))
               (mf ''SchemaApply manifest confirmation has no target schema identity'' [])) (\<lambda>_.
      r_bind (guard (\<not> (rs_ensure_indices_rollback_v6 s \<noteq> None \<and> rs_schema_version s \<noteq> ENSURE_INDICES_ROLLBACK_SCHEMA_VERSION))
               (mf ''EnsureIndices fixed rollback requires schema-v{}, found schema-v{}''
                  [ArgNum (ucast ENSURE_INDICES_ROLLBACK_SCHEMA_VERSION), ArgNum (ucast (rs_schema_version s))])) (\<lambda>_.
      validate_generation uri s)))))"

definition validate_identity_aware_pin_path :: "string \<Rightarrow> string \<Rightarrow> sidecar_table_pin \<Rightarrow> omni_error + unit" where
  "validate_identity_aware_pin_path root uri pin =
     r_bind (table_path_for_identity (pin_table_key pin) (pin_identity pin)) (\<lambda>relative.
     guard (pin_table_path pin = root @ ''/'' @ relative)
       (ManifestInternal ''recovery sidecar at {} binds table identity {} alias {} to foreign or non-canonical URI {}; expected exact graph-owned URI {}''
          [ArgText uri, ArgText (show_identity (pin_identity pin)), ArgText (pin_table_key pin),
           ArgText (pin_table_path pin), ArgText (root @ ''/'' @ relative)]))"

definition validate_identity_aware_pin_paths :: "string \<Rightarrow> string \<Rightarrow> recovery_sidecar \<Rightarrow> omni_error + unit" where
  "validate_identity_aware_pin_paths root_uri uri s =
     (if rs_schema_version s \<noteq> IDENTITY_AWARE_SIDECAR_SCHEMA_VERSION then Inr ()
      else r_each (validate_identity_aware_pin_path (trim_end_slashes root_uri) uri) (rs_tables s))"

end
