(* ===== verification/Recovery_Decide.thy ===== *)
theory Recovery_Decide
  imports Recovery_Shape
begin

text \<open>
  Arming, confirming and resolving a recovery sidecar (\<^verbatim>\<open>omnigraph/src/db/manifest/recovery.rs\<close>): a
  writer arms a sidecar before the first table HEAD moves, confirms it once every effect has landed,
  and a later sweep classifies what it finds at each table and decides for the whole sidecar.
  The clock and the minted ids are arguments. \<open>write_text\<close> stands for serializing the
  sidecar with serde and writing it through the storage adapter. The failpoint at the head of each
  confirmation, which does nothing unless the feature \<^verbatim>\<open>failpoints\<close> of the tests is on, is left out.
\<close>

section \<open>Classification and decision\<close>

datatype table_classification =
    NoMovement | RolledPastExpected | UnexpectedAtP1 | UnexpectedMultistep | UnexpectedEffectIdentity
  | IncompletePhaseB | InvariantViolation u64

datatype sidecar_decision = RollForward | RollBack | Abort

definition classify_confirmed :: "sidecar_table_pin \<Rightarrow> u64 \<Rightarrow> u64 \<Rightarrow> table_classification" where
  "classify_confirmed pin lance_head manifest_pinned =
     (case pin_confirmed_version pin of
        Some confirmed \<Rightarrow>
          if lance_head = confirmed \<and> pin_expected_version pin = manifest_pinned
          then RolledPastExpected else UnexpectedMultistep
      | None \<Rightarrow> IncompletePhaseB)"

text \<open>The additions of 1 are below a larger version, so they do not wrap.\<close>

definition classify_strict :: "sidecar_table_pin \<Rightarrow> u64 \<Rightarrow> u64 \<Rightarrow> table_classification" where
  "classify_strict pin lance_head manifest_pinned =
     (if lance_head = manifest_pinned + 1
      then if pin_expected_version pin = manifest_pinned \<and> pin_post_commit_pin pin = lance_head
           then RolledPastExpected else UnexpectedAtP1
      else UnexpectedMultistep)"

definition classify_loose :: "sidecar_table_pin \<Rightarrow> u64 \<Rightarrow> u64 \<Rightarrow> table_classification" where
  "classify_loose pin lance_head manifest_pinned =
     (if pin_expected_version pin = manifest_pinned then RolledPastExpected
      else if lance_head = manifest_pinned + 1 then UnexpectedAtP1
      else UnexpectedMultistep)"

definition classify_exact_effect ::
    "sidecar_table_pin \<Rightarrow> u64 \<Rightarrow> staged_transaction_identity option \<Rightarrow> u64 \<Rightarrow> recovery_protocol_v3 option \<Rightarrow>
     table_classification" where
  "classify_exact_effect pin lance_head observed_transaction manifest_pinned protocol_v3 =
     (case protocol_v3 of None \<Rightarrow> IncompletePhaseB | Some protocol \<Rightarrow>
      if p3_effect_phase protocol \<noteq> EffectsConfirmed then IncompletePhaseB
      else case find (\<lambda>e. eff_identity e = pin_identity pin) (p3_effects protocol) of
        None \<Rightarrow> IncompletePhaseB
      | Some effect \<Rightarrow>
      (case slot_of (pin_identity pin) (p3_intended_delta protocol) of
        None \<Rightarrow> IncompletePhaseB
      | Some slot \<Rightarrow>
      (case (eff_confirmed_transaction effect, slot_confirmed slot) of
        (Some confirmed_transaction, Some confirmed_update) \<Rightarrow>
          if pin_expected_version pin \<noteq> manifest_pinned then UnexpectedAtP1
          else if lance_head \<noteq> cu_table_version confirmed_update \<or>
                  pin_confirmed_version pin \<noteq> Some (cu_table_version confirmed_update)
          then UnexpectedMultistep
          else if confirmed_transaction \<noteq> eff_planned_transaction effect \<or>
                  observed_transaction \<noteq> Some confirmed_transaction
          then UnexpectedEffectIdentity
          else RolledPastExpected
      | _ \<Rightarrow> IncompletePhaseB)))"

definition classify_table_observation ::
    "sidecar_table_pin \<Rightarrow> u64 \<Rightarrow> staged_transaction_identity option \<Rightarrow> u64 \<Rightarrow> sidecar_kind \<Rightarrow> u32 \<Rightarrow>
     recovery_protocol_v3 option \<Rightarrow> table_classification" where
  "classify_table_observation pin lance_head observed_transaction manifest_pinned kind schema_version protocol_v3 =
     (if lance_head < manifest_pinned then InvariantViolation lance_head
      else if lance_head = manifest_pinned then NoMovement
      else case mode_of_kind kind schema_version of
        Confirmed \<Rightarrow> classify_confirmed pin lance_head manifest_pinned
      | Strict \<Rightarrow> classify_strict pin lance_head manifest_pinned
      | Loose \<Rightarrow> classify_loose pin lance_head manifest_pinned
      | ExactEffect \<Rightarrow> classify_exact_effect pin lance_head observed_transaction manifest_pinned protocol_v3)"

fun is_invariant_violation :: "table_classification \<Rightarrow> bool" where
  "is_invariant_violation (InvariantViolation observed) = True"
| "is_invariant_violation c = False"

definition decide :: "table_classification list \<Rightarrow> sidecar_decision" where
  "decide classifications =
     (if list_ex is_invariant_violation classifications then Abort
      else if list_ex (\<lambda>c. c \<in> {NoMovement, UnexpectedAtP1, UnexpectedMultistep, UnexpectedEffectIdentity, IncompletePhaseB})
                classifications
      then RollBack else RollForward)"

section \<open>Classifying the tables of a sidecar\<close>

text \<open>
  The probe of a table HEAD is an argument: given the path, the branch, the planned effect, and whether a missing
  branch or dataset is tolerated, it returns the version of HEAD, its transaction and what it shows of
  the planned effect.
\<close>

datatype effect_ownership = NoEffect | OwnAtHead | OwnBeforeHead | OwnCompensatedAtHead | Unverifiable

record lance_head_observation =
  lo_version :: u64
  lo_transaction :: "staged_transaction_identity option"
  lo_effect_ownership :: effect_ownership

type_synonym head_probe =
  "string \<Rightarrow> string option \<Rightarrow> (u64 \<times> staged_transaction_identity \<times> u64) option \<Rightarrow> bool \<Rightarrow> bool \<Rightarrow>
   omni_error + lance_head_observation option"

record classified_table =
  ct_classification :: table_classification
  ct_manifest_pinned :: u64
  ct_lance_head :: u64
  ct_effect_ownership :: effect_ownership
  ct_unpublished_fork :: bool

definition snapshot_entry_by_identity :: "snapshot \<Rightarrow> table_identity \<Rightarrow> sub_table_entry option" where
  "snapshot_entry_by_identity snap i = find (\<lambda>e. ste_identity e = i) snap"

definition snapshot_entry_for_pin :: "snapshot \<Rightarrow> sidecar_table_pin \<Rightarrow> omni_error + sub_table_entry option" where
  "snapshot_entry_for_pin snap pin =
     (case snapshot_entry_by_identity snap (pin_identity pin) of
        Some entry \<Rightarrow>
          if ste_table_key entry \<noteq> pin_table_key pin
          then Inl (ReadSetChangedAt (''table_binding:'' @ show_identity (pin_identity pin))
                      (Some (pin_table_key pin)) (Some (ste_table_key entry)))
          else Inr (Some entry)
      | None \<Rightarrow>
          (case find (\<lambda>e. ste_table_key e = pin_table_key pin) snap of
             Some entry \<Rightarrow>
               Inl (ReadSetChangedAt (''table_identity:'' @ pin_table_key pin)
                      (Some (show_identity (pin_identity pin))) (Some (show_identity (ste_identity entry))))
           | None \<Rightarrow> Inr None))"

definition unpublished_fork :: "recovery_sidecar \<Rightarrow> sub_table_entry option \<Rightarrow> sidecar_table_pin \<Rightarrow> bool" where
  "unpublished_fork s manifest_entry pin \<longleftrightarrow>
     (rs_protocol_v3 s \<noteq> None \<or> rs_writer_kind s = EnsureIndicesWriter) \<and>
     (case pin_table_branch pin of None \<Rightarrow> False | Some branch \<Rightarrow> branch \<noteq> ''main'') \<and>
     rs_branch s = pin_table_branch pin \<and>
     (case manifest_entry of None \<Rightarrow> True | Some entry \<Rightarrow> ste_table_branch entry \<noteq> pin_table_branch pin)"

definition allow_missing_target_ref :: "recovery_sidecar \<Rightarrow> bool \<Rightarrow> bool" where
  "allow_missing_target_ref s fork \<longleftrightarrow>
     fork \<and> (rs_writer_kind s = EnsureIndicesWriter \<or>
             (case rs_protocol_v3 s of None \<Rightarrow> False | Some protocol \<Rightarrow> p3_effect_phase protocol = Armed))"

definition planned_effect :: "recovery_sidecar \<Rightarrow> u64 \<Rightarrow> sidecar_table_pin \<Rightarrow> (u64 \<times> staged_transaction_identity \<times> u64) option" where
  "planned_effect s manifest_pinned pin =
     Option.bind (rs_protocol_v3 s) (\<lambda>protocol.
       map_option (\<lambda>effect. (pin_post_commit_pin pin, eff_planned_transaction effect, manifest_pinned))
         (find (\<lambda>e. eff_identity e = pin_identity pin) (p3_effects protocol)))"

definition observe_head :: "head_probe \<Rightarrow> recovery_sidecar \<Rightarrow> sub_table_entry option \<Rightarrow> sidecar_table_pin \<Rightarrow>
    omni_error + lance_head_observation" where
  "observe_head probe s manifest_entry pin =
     (let manifest_pinned = (case manifest_entry of None \<Rightarrow> 0 | Some entry \<Rightarrow> ste_table_version entry) in
      r_bind (probe (pin_table_path pin) (pin_table_branch pin) (planned_effect s manifest_pinned pin)
               (allow_missing_target_ref s (unpublished_fork s manifest_entry pin)) False) (\<lambda>observation.
      Inr (case observation of
             Some ob \<Rightarrow> ob
           | None \<Rightarrow> \<lparr>lo_version = manifest_pinned, lo_transaction = None, lo_effect_ownership = NoEffect\<rparr>)))"

definition classify_sidecar_table :: "head_probe \<Rightarrow> snapshot \<Rightarrow> recovery_sidecar \<Rightarrow> sidecar_table_pin \<Rightarrow> omni_error + classified_table" where
  "classify_sidecar_table probe snap s pin =
     r_bind (snapshot_entry_for_pin snap pin) (\<lambda>manifest_entry.
     let manifest_pinned = (case manifest_entry of None \<Rightarrow> 0 | Some entry \<Rightarrow> ste_table_version entry) in
     r_bind (observe_head probe s manifest_entry pin) (\<lambda>observation.
     Inr \<lparr>ct_classification = classify_table_observation pin (lo_version observation) (lo_transaction observation)
            manifest_pinned (rs_writer_kind s) (rs_schema_version s) (rs_protocol_v3 s),
          ct_manifest_pinned = manifest_pinned, ct_lance_head = lo_version observation,
          ct_effect_ownership = lo_effect_ownership observation,
          ct_unpublished_fork = unpublished_fork s manifest_entry pin\<rparr>))"

definition classify_sidecar_tables :: "head_probe \<Rightarrow> snapshot \<Rightarrow> recovery_sidecar \<Rightarrow> omni_error + classified_table list" where
  "classify_sidecar_tables probe snap s = r_map (classify_sidecar_table probe snap s) (rs_tables s)"

section \<open>Arming\<close>

definition new_unvalidated_sidecar ::
    "string \<Rightarrow> string \<Rightarrow> u32 \<Rightarrow> sidecar_kind \<Rightarrow> string option \<Rightarrow> string option \<Rightarrow> sidecar_table_pin list \<Rightarrow> recovery_sidecar" where
  "new_unvalidated_sidecar operation_id started_at schema_version writer_kind branch actor_id tables =
     \<lparr>rs_schema_version = schema_version, rs_operation_id = operation_id, rs_started_at = started_at,
      rs_branch = branch, rs_actor_id = actor_id, rs_writer_kind = writer_kind, rs_tables = tables,
      rs_merge_source_commit_id = None, rs_additional_registrations = [], rs_tombstones = [],
      rs_schema_apply_manifest_published = False, rs_schema_apply_target_schema_ir_hash = None,
      rs_protocol_v3 = None, rs_protocol_v4 = None, rs_protocol_v7 = None, rs_protocol_v8 = None,
      rs_ensure_indices_rollback_v6 = None\<rparr>"

definition new_optimize_sidecar_v9 :: "string \<Rightarrow> string \<Rightarrow> sidecar_table_pin list \<Rightarrow> omni_error + recovery_sidecar" where
  "new_optimize_sidecar_v9 operation_id started_at tables =
     (let s = new_unvalidated_sidecar operation_id started_at IDENTITY_AWARE_SIDECAR_SCHEMA_VERSION
                OptimizeWriter None None tables in
      r_bind (validate_sidecar_shape ''<new-optimize-sidecar-v9>'' s) (\<lambda>_. Inr s))"

definition armed_slot :: "sidecar_table_pin \<Rightarrow> recovery_table_update_slot" where
  "armed_slot pin =
     \<lparr>slot_identity = pin_identity pin, slot_table_key = pin_table_key pin,
      slot_expected_version = pin_expected_version pin, slot_table_branch = pin_table_branch pin,
      slot_confirmed = None\<rparr>"

text \<open>The map of planned transactions has one entry per key; \<^verbatim>\<open>expect\<close> finds its key by the check before.\<close>

definition new_occ_sidecar_v9 ::
    "string \<Rightarrow> string \<Rightarrow> string \<Rightarrow> sidecar_kind \<Rightarrow> string option \<Rightarrow> string option \<Rightarrow> sidecar_table_pin list \<Rightarrow>
     recovery_authority_token \<Rightarrow> recovery_lineage_intent \<Rightarrow> (table_identity, staged_transaction_identity) hmap \<Rightarrow>
     omni_error + recovery_sidecar" where
  "new_occ_sidecar_v9 operation_id started_at rollback_id writer_kind branch actor_id tables authority lineage planned_transactions =
     r_bind (guard (writer_kind = MutationWriter \<or> writer_kind = LoadWriter)
              (ManifestInternal ''new_occ_sidecar_v9 only supports Mutation/Load, found {}''
                 [ArgText (show_sidecar_kind writer_kind)])) (\<lambda>_.
     r_bind (guard (\<not> (tables = [] \<or> \<not> unique (map pin_identity tables) \<or>
                       length planned_transactions \<noteq> length tables \<or>
                       \<not> list_all (\<lambda>pin. hm_get planned_transactions (pin_identity pin) \<noteq> None) tables))
              (internal ''new_occ_sidecar_v9 requires at least one pin and exactly one planned transaction per unique table identity'')) (\<lambda>_.
     r_bind (r_map (\<lambda>pin.
              r_bind (ok_or (hm_get planned_transactions (pin_identity pin)) UnreachableReached) (\<lambda>planned.
              Inr \<lparr>eff_identity = pin_identity pin, eff_table_key = pin_table_key pin,
                   eff_planned_transaction = planned, eff_confirmed_transaction = None\<rparr>)) tables) (\<lambda>effects.
     let s = (new_unvalidated_sidecar operation_id started_at IDENTITY_AWARE_SIDECAR_SCHEMA_VERSION
                writer_kind branch actor_id tables)
               \<lparr>rs_protocol_v3 := Some
                  \<lparr>p3_authority = authority, p3_lineage = lineage, p3_rollback_graph_commit_id = rollback_id,
                   p3_rollback_audit_outcomes = None, p3_effect_phase = Armed, p3_effects = effects,
                   p3_intended_delta = \<lparr>md_table_updates = map armed_slot tables, md_registrations = [],
                     md_renames = [], md_tombstones = []\<rparr>\<rparr>\<rparr> in
     r_bind (validate_sidecar_shape ''<new-occ-sidecar>'' s) (\<lambda>_. Inr s))))"

definition new_schema_apply_sidecar_v9 ::
    "string \<Rightarrow> string \<Rightarrow> string \<Rightarrow> string option \<Rightarrow> sidecar_table_pin list \<Rightarrow> recovery_authority_token \<Rightarrow>
     recovery_lineage_intent \<Rightarrow> recovery_schema_apply_effect list \<Rightarrow> recovery_manifest_delta \<Rightarrow> string \<Rightarrow>
     omni_error + recovery_sidecar" where
  "new_schema_apply_sidecar_v9 operation_id started_at rollback_id actor_id tables authority lineage effects intended_delta target_hash =
     (let s = (new_unvalidated_sidecar operation_id started_at IDENTITY_AWARE_SIDECAR_SCHEMA_VERSION
                 SchemaApplyWriter None actor_id tables)
                \<lparr>rs_protocol_v7 := Some
                   \<lparr>p7_authority = authority, p7_lineage = lineage, p7_rollback_graph_commit_id = rollback_id,
                    p7_rollback_audit_outcomes = None, p7_target_schema_ir_hash = target_hash,
                    p7_effect_phase = Armed, p7_effects = effects, p7_intended_delta = intended_delta\<rparr>\<rparr> in
      r_bind (validate_sidecar_shape ''<new-schema-apply-v9-sidecar>'' s) (\<lambda>_. Inr s))"

definition new_branch_merge_sidecar_v9 ::
    "string \<Rightarrow> string \<Rightarrow> string \<Rightarrow> string option \<Rightarrow> string option \<Rightarrow> sidecar_table_pin list \<Rightarrow> recovery_authority_token \<Rightarrow>
     recovery_lineage_intent \<Rightarrow> recovery_branch_merge_effect list \<Rightarrow> recovery_manifest_delta \<Rightarrow>
     omni_error + recovery_sidecar" where
  "new_branch_merge_sidecar_v9 operation_id started_at rollback_id branch actor_id tables authority lineage effects intended_delta =
     (let s = (new_unvalidated_sidecar operation_id started_at IDENTITY_AWARE_SIDECAR_SCHEMA_VERSION
                 BranchMergeWriter branch actor_id tables)
                \<lparr>rs_protocol_v4 := Some
                   \<lparr>p4_authority = authority, p4_lineage = lineage, p4_rollback_graph_commit_id = rollback_id,
                    p4_rollback_audit_outcomes = None, p4_effect_phase = Armed, p4_effects = effects,
                    p4_intended_delta = intended_delta\<rparr>\<rparr> in
      r_bind (validate_sidecar_shape ''<new-branch-merge-sidecar>'' s) (\<lambda>_. Inr s))"

definition new_ensure_indices_sidecar_v9 ::
    "string \<Rightarrow> string \<Rightarrow> string \<Rightarrow> string option \<Rightarrow> string option \<Rightarrow> sidecar_table_pin list \<Rightarrow> recovery_authority_token \<Rightarrow>
     recovery_lineage_intent \<Rightarrow> (table_identity, staged_transaction_identity) hmap \<Rightarrow> (table_identity, u64) hmap \<Rightarrow>
     omni_error + recovery_sidecar" where
  "new_ensure_indices_sidecar_v9 operation_id started_at rollback_id branch actor_id tables authority lineage
       planned_transactions first_touch_source_versions =
     r_bind (guard (\<not> (tables = [] \<or> \<not> unique (map pin_identity tables) \<or>
                       length planned_transactions \<noteq> length tables \<or>
                       \<not> list_all (\<lambda>pin. hm_get planned_transactions (pin_identity pin) \<noteq> None) tables \<or>
                       \<not> list_all (\<lambda>i. i \<in> set (map pin_identity tables)) (map fst first_touch_source_versions)))
              (internal ''new_ensure_indices_sidecar_v9 requires one planned transaction per unique table pin and first-touch keys drawn from those pins'')) (\<lambda>_.
     r_bind (r_map (\<lambda>pin.
              r_bind (ok_or (hm_get planned_transactions (pin_identity pin)) UnreachableReached) (\<lambda>planned.
              Inr \<lparr>eie_identity = pin_identity pin, eie_table_key = pin_table_key pin,
                   eie_planned_transaction = planned,
                   eie_source_fork_version = hm_get first_touch_source_versions (pin_identity pin),
                   eie_confirmed_transaction = None, eie_confirmed_branch_identifier = None\<rparr>)) tables) (\<lambda>effects.
     let s = (new_unvalidated_sidecar operation_id started_at IDENTITY_AWARE_SIDECAR_SCHEMA_VERSION
                EnsureIndicesWriter branch actor_id tables)
               \<lparr>rs_protocol_v8 := Some
                  \<lparr>p8_authority = authority, p8_lineage = lineage, p8_rollback_graph_commit_id = rollback_id,
                   p8_rollback_audit_outcomes = None, p8_effect_phase = Armed, p8_effects = effects,
                   p8_intended_delta = \<lparr>md_table_updates = map armed_slot tables, md_registrations = [],
                     md_renames = [], md_tombstones = []\<rparr>\<rparr>\<rparr> in
     r_bind (validate_sidecar_shape ''<new-ensure-indices-v9-sidecar>'' s) (\<lambda>_. Inr s)))"

section \<open>Confirming\<close>

definition update_of :: "table_identity \<Rightarrow> sub_table_update list \<Rightarrow> sub_table_update option" where
  "update_of i updates = find (\<lambda>u. up_identity u = i) updates"

definition confirm_slot :: "sub_table_update list \<Rightarrow> recovery_table_update_slot \<Rightarrow> omni_error + recovery_table_update_slot" where
  "confirm_slot updates slot =
     r_bind (ok_or (update_of (slot_identity slot) updates) UnreachableReached) (\<lambda>update.
     Inr (slot\<lparr>slot_confirmed := Some
       \<lparr>cu_table_version = up_table_version update, cu_table_branch = up_table_branch update,
        cu_row_count = up_row_count update, cu_version_metadata = up_version_metadata update\<rparr>\<rparr>))"

definition confirm_pin :: "sub_table_update list \<Rightarrow> sidecar_table_pin \<Rightarrow> omni_error + sidecar_table_pin" where
  "confirm_pin updates pin =
     r_bind (ok_or (update_of (pin_identity pin) updates) UnreachableReached) (\<lambda>update.
     Inr (pin\<lparr>pin_confirmed_version := Some (up_table_version update)\<rparr>))"

definition confirmation_keys_match ::
    "sub_table_update list \<Rightarrow> (table_identity, staged_transaction_identity) hmap \<Rightarrow> table_identity list \<Rightarrow> bool" where
  "confirmation_keys_match updates committed planned_ids \<longleftrightarrow>
     \<not> (\<not> unique (map up_identity updates) \<or> length committed \<noteq> card (set planned_ids) \<or>
        set (map up_identity updates) \<noteq> set planned_ids \<or>
        \<not> (\<forall>i \<in> set planned_ids. hm_get committed i \<noteq> None))"

definition check_occ_effect ::
    "recovery_sidecar \<Rightarrow> sub_table_update list \<Rightarrow> (table_identity, staged_transaction_identity) hmap \<Rightarrow>
     recovery_table_effect \<Rightarrow> omni_error + unit" where
  "check_occ_effect s updates committed_transactions effect =
     r_bind (ok_or (hm_get committed_transactions (eff_identity effect)) UnreachableReached) (\<lambda>committed.
     r_bind (guard (committed = eff_planned_transaction effect)
              (ManifestInternal ''OCC sidecar {} table {} committed transaction {:?}, planned {:?}; leaving recovery Armed''
                 [ArgText (rs_operation_id s), ArgText (eff_table_key effect),
                  ArgNum (tx_read_version committed), ArgText (tx_uuid committed),
                  ArgNum (tx_read_version (eff_planned_transaction effect)), ArgText (tx_uuid (eff_planned_transaction effect))])) (\<lambda>_.
     r_bind (ok_or (find (\<lambda>pin. pin_identity pin = eff_identity effect) (rs_tables s)) UnreachableReached) (\<lambda>pin.
     r_bind (ok_or (update_of (eff_identity effect) updates) UnreachableReached) (\<lambda>update.
     guard (\<not> (pin_table_key pin \<noteq> eff_table_key effect \<or> up_table_key update \<noteq> eff_table_key effect \<or>
               up_table_version update \<noteq> pin_post_commit_pin pin \<or> up_table_branch update \<noteq> pin_table_branch pin))
       (ManifestInternal ''OCC sidecar {} table {} achieved version/branch ({}, {:?}), planned ({}, {:?}); leaving recovery Armed''
          ([ArgText (rs_operation_id s), ArgText (eff_table_key effect), ArgNum (up_table_version update)] @
           opt_arg (up_table_branch update) @ [ArgNum (pin_post_commit_pin pin)] @ opt_arg (pin_table_branch pin)))))))"

definition confirm_effect ::
    "(table_identity, staged_transaction_identity) hmap \<Rightarrow> recovery_table_effect \<Rightarrow> omni_error + recovery_table_effect" where
  "confirm_effect committed_transactions effect =
     r_bind (ok_or (hm_get committed_transactions (eff_identity effect)) UnreachableReached) (\<lambda>tx.
     Inr (effect\<lparr>eff_confirmed_transaction := Some tx\<rparr>))"

definition confirm_occ_sidecar_v9 ::
    "(string \<Rightarrow> recovery_sidecar \<Rightarrow> omni_error + unit) \<Rightarrow> string \<Rightarrow> recovery_sidecar \<Rightarrow> sub_table_update list \<Rightarrow>
     (table_identity, staged_transaction_identity) hmap \<Rightarrow> omni_error + recovery_sidecar" where
  "confirm_occ_sidecar_v9 write_text root_uri s updates committed_transactions =
     (let uri = sidecar_uri root_uri (rs_operation_id s) in
      r_bind (validate_sidecar_shape uri s) (\<lambda>_.
      r_bind (ok_or (rs_protocol_v3 s) (internal ''confirm_occ_sidecar_v9 requires a schema-v9 OCC sidecar'')) (\<lambda>p.
      r_bind (guard (p3_effect_phase p = Armed)
               (ManifestInternal ''OCC sidecar {} is already EffectsConfirmed'' [ArgText (rs_operation_id s)])) (\<lambda>_.
      r_bind (guard (confirmation_keys_match updates committed_transactions (map eff_identity (p3_effects p)))
               (ManifestInternal ''OCC sidecar {} confirmation key set differs from its planned effects''
                  [ArgText (rs_operation_id s)])) (\<lambda>_.
      r_bind (r_each (check_occ_effect s updates committed_transactions) (p3_effects p)) (\<lambda>_.
      r_bind (r_map (confirm_effect committed_transactions) (p3_effects p)) (\<lambda>effects.
      r_bind (r_map (confirm_slot updates) (md_table_updates (p3_intended_delta p))) (\<lambda>slots.
      r_bind (r_map (confirm_pin updates) (rs_tables s)) (\<lambda>tables.
      let confirmed = s\<lparr>rs_tables := tables,
            rs_protocol_v3 := Some (p\<lparr>p3_effect_phase := EffectsConfirmed, p3_effects := effects,
              p3_intended_delta := (p3_intended_delta p)\<lparr>md_table_updates := slots\<rparr>\<rparr>)\<rparr> in
      r_bind (validate_sidecar_shape uri confirmed) (\<lambda>_.
      r_bind (write_text uri confirmed) (\<lambda>_. Inr confirmed)))))))))))"

definition check_schema_apply_effect ::
    "recovery_sidecar \<Rightarrow> sub_table_update list \<Rightarrow> (table_identity, staged_transaction_identity) hmap \<Rightarrow>
     recovery_schema_apply_effect \<Rightarrow> omni_error + unit" where
  "check_schema_apply_effect s updates committed_transactions effect =
     r_bind (ok_or (hm_get committed_transactions (sae_identity effect)) UnreachableReached) (\<lambda>committed.
     r_bind (ok_or (find (\<lambda>pin. pin_identity pin = sae_identity effect) (rs_tables s)) UnreachableReached) (\<lambda>pin.
     r_bind (ok_or (update_of (sae_identity effect) updates) UnreachableReached) (\<lambda>update.
     guard (\<not> (pin_table_key pin \<noteq> sae_table_key effect \<or> up_table_key update \<noteq> sae_table_key effect \<or>
               committed \<noteq> sa_planned_transaction (sae_kind effect) \<or>
               up_table_version update \<noteq> pin_post_commit_pin pin \<or> up_table_branch update \<noteq> pin_table_branch pin))
       (ManifestInternal ''SchemaApply sidecar {} table {} achieved transaction/version/branch outside its exact plan; leaving recovery Armed''
          [ArgText (rs_operation_id s), ArgText (sae_table_key effect)]))))"

definition confirm_schema_apply_effect ::
    "(table_identity, staged_transaction_identity) hmap \<Rightarrow> recovery_schema_apply_effect \<Rightarrow> omni_error + recovery_schema_apply_effect" where
  "confirm_schema_apply_effect committed_transactions effect =
     r_bind (ok_or (hm_get committed_transactions (sae_identity effect)) UnreachableReached) (\<lambda>tx.
     Inr (effect\<lparr>sae_kind := sa_set_confirmed_transaction tx (sae_kind effect)\<rparr>))"

definition confirm_schema_apply_sidecar_v9 ::
    "(string \<Rightarrow> recovery_sidecar \<Rightarrow> omni_error + unit) \<Rightarrow> string \<Rightarrow> recovery_sidecar \<Rightarrow> sub_table_update list \<Rightarrow>
     (table_identity, staged_transaction_identity) hmap \<Rightarrow> omni_error + recovery_sidecar" where
  "confirm_schema_apply_sidecar_v9 write_text root_uri s updates committed_transactions =
     (let uri = sidecar_uri root_uri (rs_operation_id s) in
      r_bind (validate_sidecar_shape uri s) (\<lambda>_.
      r_bind (ok_or (rs_protocol_v7 s) (internal ''confirm_schema_apply_sidecar_v9 requires a schema-v9 sidecar'')) (\<lambda>p.
      r_bind (guard (p7_effect_phase p = Armed)
               (ManifestInternal ''SchemaApply sidecar {} is already EffectsConfirmed'' [ArgText (rs_operation_id s)])) (\<lambda>_.
      r_bind (guard (confirmation_keys_match updates committed_transactions (map sae_identity (p7_effects p)))
               (ManifestInternal ''SchemaApply sidecar {} confirmation key set differs from its planned effects''
                  [ArgText (rs_operation_id s)])) (\<lambda>_.
      r_bind (r_each (check_schema_apply_effect s updates committed_transactions) (p7_effects p)) (\<lambda>_.
      r_bind (r_map (confirm_schema_apply_effect committed_transactions) (p7_effects p)) (\<lambda>effects.
      r_bind (r_map (confirm_slot updates) (md_table_updates (p7_intended_delta p))) (\<lambda>slots.
      r_bind (r_map (confirm_pin updates) (rs_tables s)) (\<lambda>tables.
      let confirmed = s\<lparr>rs_tables := tables,
            rs_protocol_v7 := Some (p\<lparr>p7_effect_phase := EffectsConfirmed, p7_effects := effects,
              p7_intended_delta := (p7_intended_delta p)\<lparr>md_table_updates := slots\<rparr>\<rparr>)\<rparr> in
      r_bind (validate_sidecar_shape uri confirmed) (\<lambda>_.
      r_bind (write_text uri confirmed) (\<lambda>_. Inr confirmed)))))))))))"

end
