(* ===== verification/Recovery_Facts.thy ===== *)
theory Recovery_Facts
  imports Recovery_Decide
begin

text \<open>
  What an accepted sidecar guarantees. The validators are inverted into facts about pins, effects and
  delta slots, found by identity; and no \<^verbatim>\<open>expect\<close> in them is reached without its value.
\<close>

section \<open>Elements found by a key\<close>

lemma unique_iff [simp]: "unique xs \<longleftrightarrow> distinct xs"
  by (auto simp: unique_def card_distinct distinct_card)

lemma find_key_Some:
  "find (\<lambda>e. key e = k) es = Some e \<Longrightarrow> e \<in> set es \<and> key e = k"
  by (auto simp: find_Some_iff)

lemma find_key_None: "find (\<lambda>e. key e = k) es = None \<longleftrightarrow> k \<notin> key ` set es"
  by (auto simp: find_None_iff)

lemma find_key_unique:
  "distinct (map key es) \<Longrightarrow> e \<in> set es \<Longrightarrow> find (\<lambda>x. key x = key e) es = Some e"
proof (induction es)
  case (Cons a es)
  then show ?case by (cases "key a = key e") (auto simp: rev_image_eqI)
qed simp

lemma find_map_key:
  "(\<And>e. key (f e) = key' e) \<Longrightarrow> find (\<lambda>e. key e = k) (map f es) = map_option f (find (\<lambda>e. key' e = k) es)"
  by (induction es) auto

section \<open>No panic\<close>

definition expect_ok :: "omni_error + 'a \<Rightarrow> bool" where
  "expect_ok r \<longleftrightarrow> r \<noteq> Inl UnreachableReached"

named_theorems expect_ok_intros \<open>computations that do not reach a panic\<close>

lemma expect_ok_bind [expect_ok_intros]:
  "expect_ok m \<Longrightarrow> (\<And>x. m = Inr x \<Longrightarrow> expect_ok (f x)) \<Longrightarrow> expect_ok (r_bind m f)"
  by (auto simp: expect_ok_def r_bind_Inl_iff)

lemma expect_ok_Inr [expect_ok_intros]: "expect_ok (Inr x)"
  by (simp add: expect_ok_def)

lemma expect_ok_guard [expect_ok_intros]: "(\<not> b \<Longrightarrow> e \<noteq> UnreachableReached) \<Longrightarrow> expect_ok (guard b e)"
  by (auto simp: expect_ok_def)

lemma expect_ok_ok_or [expect_ok_intros]: "(opt = None \<Longrightarrow> e \<noteq> UnreachableReached) \<Longrightarrow> expect_ok (ok_or opt e)"
  by (auto simp: expect_ok_def)

lemma expect_ok_each [expect_ok_intros]: "(\<And>x. x \<in> set xs \<Longrightarrow> expect_ok (f x)) \<Longrightarrow> expect_ok (r_each f xs)"
  by (induction xs) (auto intro!: expect_ok_intros)

lemma expect_ok_fold [expect_ok_intros]: "(\<And>x s. x \<in> set xs \<Longrightarrow> expect_ok (f x s)) \<Longrightarrow> expect_ok (r_fold f xs s)"
  by (induction xs arbitrary: s) (auto intro!: expect_ok_intros)

lemma expect_ok_try_from [expect_ok_intros]: "e \<noteq> UnreachableReached \<Longrightarrow> expect_ok (u64_try_from n e)"
  by (auto simp: expect_ok_def u64_try_from_Inl_iff)

lemma malformed_expect_ok [simp, expect_ok_intros]: "malformed uri s reason args \<noteq> UnreachableReached"
  by (simp add: malformed_def)

lemma expect_ok_rewrap [expect_ok_intros]:
  "expect_ok r \<Longrightarrow> (\<And>m args. mk m args \<noteq> UnreachableReached) \<Longrightarrow> expect_ok (rewrap mk pre r)"
  by (cases "(mk, pre, r)" rule: rewrap.cases) (auto simp: expect_ok_def)

lemma expect_ok_identity [expect_ok_intros]: "expect_ok (identity_validate i)"
  by (auto simp: identity_validate_def intro!: expect_ok_intros)

lemma expect_ok_path [expect_ok_intros]: "expect_ok (table_path_for_identity k i)"
  by (auto simp: table_path_for_identity_def expect_ok_def)

lemma expect_ok_authority [expect_ok_intros]:
  "(\<And>m args. mf m args \<noteq> UnreachableReached) \<Longrightarrow> expect_ok (validate_authority_identity mf a)"
  by (auto simp: validate_authority_identity_def intro!: expect_ok_intros)

lemma expect_ok_unique_pins [expect_ok_intros]:
  "(\<And>m args. mf m args \<noteq> UnreachableReached) \<Longrightarrow> expect_ok (validate_unique_pin_identities mf pins b)"
  by (auto simp: validate_unique_pin_identities_def validate_pin_def Let_def split_def intro!: expect_ok_intros)

lemma expect_ok_live_aliases [expect_ok_intros]:
  "(\<And>m args. mf m args \<noteq> UnreachableReached) \<Longrightarrow> expect_ok (validate_live_aliases mf seen es)"
  by (induction es arbitrary: seen) (auto intro!: expect_ok_intros)

lemma expect_ok_chain_links [expect_ok_intros]:
  "(\<And>m args. mf m args \<noteq> UnreachableReached) \<Longrightarrow> expect_ok (validate_chain_links mf pin n txs us)"
  by (induction txs arbitrary: n us) (auto intro!: expect_ok_intros)

lemma expect_ok_chain [expect_ok_intros]:
  "(\<And>m args. mf m args \<noteq> UnreachableReached) \<Longrightarrow>
     expect_ok (validate_branch_merge_transaction_chain mf pin txs us)"
  by (auto simp: validate_branch_merge_transaction_chain_def intro!: expect_ok_intros split: list.splits)

lemma expect_ok_mutation_load_pin:
  assumes "\<And>m args. mf m args \<noteq> UnreachableReached"
    and "find (\<lambda>e. eff_identity e = pin_identity pin) (p3_effects p) \<noteq> None"
    and "slot_of (pin_identity pin) (p3_intended_delta p) \<noteq> None"
  shows "expect_ok (validate_mutation_load_pin mf p pin)"
  using assms
  by (auto simp: validate_mutation_load_pin_def intro!: expect_ok_intros
      split: recovery_effect_phase.splits)

lemma expect_ok_ensure_indices_pin:
  assumes "\<And>m args. mf m args \<noteq> UnreachableReached"
    and "find (\<lambda>e. eie_identity e = pin_identity pin) (p8_effects p) \<noteq> None"
    and "slot_of (pin_identity pin) (p8_intended_delta p) \<noteq> None"
  shows "expect_ok (validate_ensure_indices_pin mf br p pin)"
  using assms
  by (auto simp: validate_ensure_indices_pin_def Let_def intro!: expect_ok_intros
      split: recovery_effect_phase.splits)

lemma expect_ok_schema_apply_pin:
  assumes "\<And>m args. mf m args \<noteq> UnreachableReached"
    and "find (\<lambda>e. sae_identity e = pin_identity pin) (p7_effects p) \<noteq> None"
    and "slot_of (pin_identity pin) (p7_intended_delta p) \<noteq> None"
  shows "expect_ok (validate_schema_apply_pin mf p pin)"
  using assms
  by (auto simp: validate_schema_apply_pin_def Let_def intro!: expect_ok_intros
      split: recovery_effect_phase.splits)

lemma expect_ok_merge_pin:
  assumes "\<And>m args. mf m args \<noteq> UnreachableReached"
    and "find (\<lambda>e. bme_identity e = pin_identity pin) (p4_effects p) \<noteq> None"
    and "slot_of (pin_identity pin) (p4_intended_delta p) \<noteq> None"
    and slots: "\<And>slot. slot \<in> set (md_table_updates (p4_intended_delta p)) \<Longrightarrow>
      validate_merge_slot mf (p4_effect_phase p) slot = Inr ()"
  shows "expect_ok (validate_merge_pin mf p pin us)"
proof -
  have "p4_effect_phase p = EffectsConfirmed \<Longrightarrow> slot_confirmed slot \<noteq> None"
    if "slot_of (pin_identity pin) (p4_intended_delta p) = Some slot" for slot
    using slots [of slot] find_key_Some [of slot_identity] that
    by (auto simp: slot_of_def validate_merge_slot_def)
  then show ?thesis
    using assms(1-3)
    by (auto simp: validate_merge_pin_def validate_merge_effect_def intro!: expect_ok_intros
        split: recovery_effect_phase.splits recovery_branch_merge_effect_kind.splits option.splits)
qed

lemma find_key_in: "k \<in> key ` set es \<Longrightarrow> find (\<lambda>e. key e = k) es \<noteq> None"
  by (simp add: find_key_None)

lemma slot_of_in: "i \<in> slot_identity ` set (md_table_updates d) \<Longrightarrow> slot_of i d \<noteq> None"
  by (simp add: slot_of_def find_key_in)

lemma key_in_image:
  "x \<in> set xs \<Longrightarrow> set (map f ys) = set (map g xs) \<Longrightarrow> g x \<in> f ` set ys"
  "x \<in> set xs \<Longrightarrow> set (map g xs) = set (map f ys) \<Longrightarrow> g x \<in> f ` set ys"
  "x \<in> set xs \<Longrightarrow> set (map h zs) = set (map g xs) \<Longrightarrow> set (map h zs) \<subseteq> set (map f ys) \<Longrightarrow> g x \<in> f ` set ys"
  "x \<in> set xs \<Longrightarrow> set (map g xs) = set (map f (filter P ys)) \<Longrightarrow> g x \<in> f ` set ys"
  by auto

lemma expect_ok_mutation_load [expect_ok_intros]: "expect_ok (validate_mutation_load_shape uri s)"
  unfolding validate_mutation_load_shape_def Let_def
  by (intro expect_ok_intros expect_ok_mutation_load_pin find_key_in slot_of_in;
      (rule key_in_image(1), assumption, simp (no_asm_use) only: guard_Inr_iff de_Morgan_disj not_not, (elim conjE, assumption)+)?)

lemma expect_ok_ensure_indices [expect_ok_intros]: "expect_ok (validate_ensure_indices_v8_shape uri s)"
  unfolding validate_ensure_indices_v8_shape_def Let_def
  by (intro expect_ok_intros expect_ok_ensure_indices_pin find_key_in slot_of_in;
      (rule key_in_image(1), assumption, simp (no_asm_use) only: guard_Inr_iff de_Morgan_disj not_not, (elim conjE, assumption)+)?)

lemma expect_ok_registration:
  assumes "\<And>m args. mf m args \<noteq> UnreachableReached" and "reg_identity r \<in> sae_identity ` set (p7_effects p)"
  shows "expect_ok (validate_registration mf p r)"
  unfolding validate_registration_def
  by (intro expect_ok_intros assms(1)) (use assms(2) find_key_in [of "reg_identity r" sae_identity] in blast)

lemma expect_ok_rename:
  assumes "\<And>m args. mf m args \<noteq> UnreachableReached"
  shows "expect_ok (validate_rename mf p r)"
  using assms by (auto simp: validate_rename_def intro!: expect_ok_intros split: option.splits)

text \<open>The key of an element is among the keys that a check compared.\<close>

lemma guard_keys:
  "x \<in> set xs \<Longrightarrow> guard (\<not> (a \<or> b \<or> c \<or> d \<or> set (map g xs) \<noteq> set (map f ys) \<or> r)) e = Inr u \<Longrightarrow> g x \<in> f ` set ys"
  "x \<in> set xs \<Longrightarrow> guard (\<not> (a \<or> b \<or> c \<or> d \<or> q \<or> set (map g xs) \<noteq> set (map f ys))) e = Inr u \<Longrightarrow> g x \<in> f ` set ys"
  "x \<in> set xs \<Longrightarrow> guard (\<not> (a \<or> b \<or> c \<or> set (map g xs) \<noteq> set (map f (filter P ys)) \<or> r)) e = Inr u \<Longrightarrow> g x \<in> f ` set ys"
  "x \<in> set xs \<Longrightarrow> guard (\<not> (a \<or> b \<or> c \<or> set (map f ys) \<noteq> set (map g xs) \<or> r)) e = Inr u \<Longrightarrow> g x \<in> f ` set ys"
  "x \<in> set xs \<Longrightarrow> guard (\<not> (a \<or> b \<or> c \<or> set (map h zs) \<noteq> set (map g xs) \<or> \<not> set (map h zs) \<subseteq> set (map f ys))) e = Inr u \<Longrightarrow>
     g x \<in> f ` set ys"
  by auto

lemma expect_ok_schema_apply [expect_ok_intros]: "expect_ok (validate_schema_apply_v7_shape uri s)"
  unfolding validate_schema_apply_v7_shape_def Let_def
  by (intro expect_ok_intros expect_ok_schema_apply_pin expect_ok_registration expect_ok_rename find_key_in slot_of_in;
      (rule guard_keys(3), assumption, assumption)?; (rule guard_keys(1), assumption, assumption)?;
      (rule guard_keys(2), assumption, assumption)?)

lemma expect_ok_merge_slot [expect_ok_intros]:
  "(\<And>m args. mf m args \<noteq> UnreachableReached) \<Longrightarrow> expect_ok (validate_merge_slot mf phase slot)"
  by (auto simp: validate_merge_slot_def intro!: expect_ok_intros split: option.splits)

lemma expect_ok_branch_merge [expect_ok_intros]: "expect_ok (validate_branch_merge_v4_shape uri s)"
  unfolding validate_branch_merge_v4_shape_def Let_def
  by (intro expect_ok_intros expect_ok_merge_pin find_key_in slot_of_in;
      (rule guard_keys(4), assumption, assumption)?; (rule guard_keys(5), assumption, assumption)?;
      (simp only: r_each_Inr_iff)?)

lemma expect_ok_generation [expect_ok_intros]: "expect_ok (validate_generation uri s)"
  by (auto simp: validate_generation_def Let_def validate_optimize_v9_shape_def validate_ensure_indices_v6_shape_def
      validate_schema_apply_v5_shape_def intro!: expect_ok_intros split: sidecar_kind.splits)

text \<open>
  C10: validating a sidecar, of any writer and generation and whatever its contents, never panics: every lookup that
  the code asserts to succeed does.
\<close>
theorem sidecar_validation_never_panics: "validate_sidecar_shape uri s \<noteq> Inl UnreachableReached"
proof -
  have "expect_ok (validate_sidecar_shape uri s)"
    unfolding validate_sidecar_shape_def Let_def by (intro expect_ok_intros)
  then show ?thesis by (simp add: expect_ok_def)
qed

section \<open>Paths\<close>

lemma hex_digit_inj: "m < 16 \<Longrightarrow> n < 16 \<Longrightarrow> hex_digit m = hex_digit n \<Longrightarrow> m = n"
proof -
  have "distinct ''0123456789abcdef''" "length ''0123456789abcdef'' = 16" by simp_all
  then show "m < 16 \<Longrightarrow> n < 16 \<Longrightarrow> hex_digit m = hex_digit n \<Longrightarrow> m = n"
    unfolding hex_digit_def using nth_eq_iff_index_eq by metis
qed

lemma length_hex_digits [simp]: "length (hex_digits w n) = w"
  by (induction w arbitrary: n) auto

lemma hex_digits_inj: "hex_digits w m = hex_digits w n \<Longrightarrow> m < 16 ^ w \<Longrightarrow> n < 16 ^ w \<Longrightarrow> m = n"
proof (induction w arbitrary: m n)
  case (Suc w)
  then have "hex_digits w (m div 16) = hex_digits w (n div 16)" and digit: "hex_digit (m mod 16) = hex_digit (n mod 16)"
    by auto
  moreover have "m div 16 < 16 ^ w" "n div 16 < 16 ^ w" using Suc.prems by (auto simp: less_mult_imp_div_less mult.commute)
  ultimately have "m div 16 = n div 16" by (intro Suc.IH)
  moreover have "m mod 16 = n mod 16" by (rule hex_digit_inj [OF _ _ digit]) simp_all
  ultimately show ?case by (metis div_mult_mod_eq)
qed simp

lemma hex16_inj: "hex16 a = hex16 b \<Longrightarrow> a = b"
  using hex_digits_inj [of 16 "unat a" "unat b"] unat_below [of a] unat_below [of b]
  by (simp add: hex16_def word_unat_eq_iff)

lemma identity_path_inj:
  assumes "table_path_for_identity k i = Inr p" and "table_path_for_identity k' j = Inr p"
  shows "i = j"
proof -
  let ?tail = "\<lambda>i. hex16 (ti_stable_table_id i) @ ''-'' @ hex16 (ti_table_incarnation_id i)"
  have "drop 6 p = ?tail i" "drop 6 p = ?tail j"
    using assms by (auto simp: table_path_for_identity_def split: if_splits)
  then have "hex16 (ti_stable_table_id i) = hex16 (ti_stable_table_id j) \<and>
      hex16 (ti_table_incarnation_id i) = hex16 (ti_table_incarnation_id j)"
    by (simp add: hex16_def)
  then show ?thesis by (auto dest: hex16_inj intro: table_identity.equality)
qed

end
