(* ===== verification/Recovery_Properties.thy ===== *)
theory Recovery_Properties
  imports Recovery_Facts
begin

text \<open>
  What recovery guarantees: the decision is all-or-nothing, a mutation or load is rolled forward exactly
  when every table shows its confirmed version written by its planned transaction, and a sidecar
  that was armed and confirmed is rolled forward.
\<close>

section \<open>The decision\<close>

lemma decide_RollForward_iff: "decide cs = RollForward \<longleftrightarrow> (\<forall>c \<in> set cs. c = RolledPastExpected)"
proof -
  have "\<not> is_invariant_violation c \<and>
      c \<notin> {NoMovement, UnexpectedAtP1, UnexpectedMultistep, UnexpectedEffectIdentity, IncompletePhaseB} \<longleftrightarrow>
      c = RolledPastExpected" for c
    by (cases c) auto
  then show ?thesis by (auto simp: decide_def list_ex_iff)
qed

lemma decide_Abort_iff: "decide cs = Abort \<longleftrightarrow> (\<exists>c \<in> set cs. \<exists>v. c = InvariantViolation v)"
proof -
  have "is_invariant_violation c \<longleftrightarrow> (\<exists>v. c = InvariantViolation v)" for c by (cases c) auto
  then show ?thesis by (auto simp: decide_def list_ex_iff)
qed

lemma InvariantViolation_iff:
  "classify_table_observation pin head tx pinned kind v p = InvariantViolation w \<longleftrightarrow> head < pinned \<and> w = head"
  by (auto simp: classify_table_observation_def classify_confirmed_def classify_strict_def classify_loose_def
      classify_exact_effect_def split: classification_mode.splits option.splits)

section \<open>Observations\<close>

text \<open>What a sweep observes at the table of a pin: the manifest pin, the HEAD and its transaction.\<close>

record table_observation =
  ob_manifest_pinned :: u64
  ob_lance_head :: u64
  ob_transaction :: "staged_transaction_identity option"

definition classify_sidecar :: "recovery_sidecar \<Rightarrow> (sidecar_table_pin \<Rightarrow> table_observation) \<Rightarrow> table_classification list" where
  "classify_sidecar s ob =
     map (\<lambda>pin. classify_table_observation pin (ob_lance_head (ob pin)) (ob_transaction (ob pin))
                  (ob_manifest_pinned (ob pin)) (rs_writer_kind s) (rs_schema_version s) (rs_protocol_v3 s)) (rs_tables s)"

definition observed :: "head_probe \<Rightarrow> snapshot \<Rightarrow> recovery_sidecar \<Rightarrow> sidecar_table_pin \<Rightarrow> table_observation" where
  "observed probe snap s pin =
     (case r_bind (snapshot_entry_for_pin snap pin) (\<lambda>entry.
             r_bind (observe_head probe s entry pin) (\<lambda>ob.
             Inr \<lparr>ob_manifest_pinned = (case entry of None \<Rightarrow> 0 | Some e \<Rightarrow> ste_table_version e),
                  ob_lance_head = lo_version ob, ob_transaction = lo_transaction ob\<rparr>)) of
        Inr ob \<Rightarrow> ob
      | Inl e \<Rightarrow> \<lparr>ob_manifest_pinned = 0, ob_lance_head = 0, ob_transaction = None\<rparr>)"

lemma classified_as_observed:
  assumes "classify_sidecar_tables probe snap s = Inr states"
  shows "map ct_classification states = classify_sidecar s (observed probe snap s)"
  unfolding classify_sidecar_def
proof (rule r_map_map_eq [OF assms [unfolded classify_sidecar_tables_def]])
  fix pin state
  assume "classify_sidecar_table probe snap s pin = Inr state"
  then obtain entry ob where "snapshot_entry_for_pin snap pin = Inr entry" "observe_head probe s entry pin = Inr ob"
    "ct_classification state = classify_table_observation pin (lo_version ob) (lo_transaction ob)
       (case entry of None \<Rightarrow> 0 | Some e \<Rightarrow> ste_table_version e) (rs_writer_kind s) (rs_schema_version s) (rs_protocol_v3 s)"
    by (auto simp: classify_sidecar_table_def Let_def)
  then show "ct_classification state = classify_table_observation pin (ob_lance_head (observed probe snap s pin))
      (ob_transaction (observed probe snap s pin)) (ob_manifest_pinned (observed probe snap s pin))
      (rs_writer_kind s) (rs_schema_version s) (rs_protocol_v3 s)"
    by (simp add: observed_def)
qed

section \<open>Accepted pins\<close>

lemma validate_pins_distinct:
  assumes "r_fold (validate_pin mf) pins seen = Inr seen'"
  shows "distinct (map pin_identity pins) \<and> set (map pin_identity pins) \<inter> set (fst seen) = {} \<and>
    distinct (map pin_table_key pins) \<and> set (map pin_table_key pins) \<inter> set (snd seen) = {}"
  using assms
proof (induction pins arbitrary: seen)
  case (Cons pin pins)
  then obtain seen1 where one: "validate_pin mf pin seen = Inr seen1"
    and rest: "r_fold (validate_pin mf) pins seen1 = Inr seen'" by auto
  from one have "seen1 = (pin_identity pin # fst seen, pin_table_key pin # snd seen) \<and>
      pin_identity pin \<notin> set (fst seen) \<and> pin_table_key pin \<notin> set (snd seen)"
    by (auto simp: validate_pin_def Let_def split_def)
  with Cons.IH [OF rest] show ?case by auto
qed simp

lemma unique_pins_distinct:
  "validate_unique_pin_identities mf pins b = Inr u \<Longrightarrow>
     distinct (map pin_identity pins) \<and> distinct (map pin_table_key pins)"
  using validate_pins_distinct [of mf pins "([], [])"] by (auto simp: validate_unique_pin_identities_def)

definition occ_writer :: "recovery_sidecar \<Rightarrow> bool" where
  "occ_writer s \<longleftrightarrow> (rs_writer_kind s = MutationWriter \<or> rs_writer_kind s = LoadWriter) \<and> 3 \<le> rs_schema_version s"

lemma occ_writer_shape:
  assumes "validate_sidecar_shape uri s = Inr ()" and "occ_writer s"
  shows "validate_mutation_load_shape uri s = Inr ()"
  using assms
  by (auto simp: validate_sidecar_shape_def validate_generation_def Let_def occ_writer_def sidecar_versions
      validate_branch_merge_v4_shape_def validate_schema_apply_v5_shape_def validate_ensure_indices_v6_shape_def
      validate_schema_apply_v7_shape_def validate_ensure_indices_v8_shape_def split: if_splits)

text \<open>A pin with its effect and its delta slot.\<close>

definition occ_bound :: "recovery_protocol_v3 \<Rightarrow> sidecar_table_pin \<Rightarrow> recovery_table_effect \<Rightarrow> recovery_table_update_slot \<Rightarrow> bool" where
  "occ_bound p pin effect slot \<longleftrightarrow>
     find (\<lambda>e. eff_identity e = pin_identity pin) (p3_effects p) = Some effect \<and>
     slot_of (pin_identity pin) (p3_intended_delta p) = Some slot \<and>
     eff_table_key effect = pin_table_key pin \<and> slot_table_key slot = pin_table_key pin \<and>
     tx_read_version (eff_planned_transaction effect) = pin_expected_version pin \<and>
     slot_expected_version slot = pin_expected_version pin \<and> slot_table_branch slot = pin_table_branch pin \<and>
     (case p3_effect_phase p of
        Armed \<Rightarrow> eff_confirmed_transaction effect = None \<and> slot_confirmed slot = None \<and> pin_confirmed_version pin = None
      | EffectsConfirmed \<Rightarrow> eff_confirmed_transaction effect = Some (eff_planned_transaction effect) \<and>
          (\<exists>u. slot_confirmed slot = Some u \<and> pin_confirmed_version pin = Some (cu_table_version u) \<and>
               cu_table_branch u = pin_table_branch pin))"

lemma validate_mutation_load_pin_iff:
  "validate_mutation_load_pin mf p pin = Inr () \<longleftrightarrow> (\<exists>effect slot. occ_bound p pin effect slot)"
  by (auto simp: validate_mutation_load_pin_def occ_bound_def split: recovery_effect_phase.splits)

definition occ_accepted :: "recovery_protocol_v3 \<Rightarrow> recovery_sidecar \<Rightarrow> bool" where
  "occ_accepted p s \<longleftrightarrow>
     rs_protocol_v3 s = Some p \<and> distinct (map pin_identity (rs_tables s)) \<and>
     distinct (map eff_identity (p3_effects p)) \<and>
     distinct (map slot_identity (md_table_updates (p3_intended_delta p))) \<and>
     eff_identity ` set (p3_effects p) = pin_identity ` set (rs_tables s) \<and>
     slot_identity ` set (md_table_updates (p3_intended_delta p)) = pin_identity ` set (rs_tables s) \<and>
     (\<forall>pin \<in> set (rs_tables s). \<exists>effect slot. occ_bound p pin effect slot)"

lemma occ_shape: "validate_mutation_load_shape uri s = Inr () \<Longrightarrow> \<exists>p. occ_accepted p s"
  using unique_pins_distinct [of "malformed uri s" "rs_tables s" False]
  by (auto simp: validate_mutation_load_shape_def Let_def validate_mutation_load_pin_iff occ_accepted_def)

section \<open>Pinned paths\<close>

lemma shape_unique_pins:
  "validate_mutation_load_shape uri s = Inr v \<Longrightarrow> \<exists>b u. validate_unique_pin_identities (malformed uri s) (rs_tables s) b = Inr u"
  "validate_branch_merge_v4_shape uri s = Inr v \<Longrightarrow> \<exists>b u. validate_unique_pin_identities (malformed uri s) (rs_tables s) b = Inr u"
  "validate_schema_apply_v7_shape uri s = Inr v \<Longrightarrow> \<exists>b u. validate_unique_pin_identities (malformed uri s) (rs_tables s) b = Inr u"
  "validate_ensure_indices_v8_shape uri s = Inr v \<Longrightarrow> \<exists>b u. validate_unique_pin_identities (malformed uri s) (rs_tables s) b = Inr u"
  "validate_optimize_v9_shape uri s = Inr v \<Longrightarrow> \<exists>b u. validate_unique_pin_identities (malformed uri s) (rs_tables s) b = Inr u"
  unfolding validate_mutation_load_shape_def validate_branch_merge_v4_shape_def validate_schema_apply_v7_shape_def
    validate_ensure_indices_v8_shape_def validate_optimize_v9_shape_def Let_def
  by (simp only: r_bind_Inr_iff, elim exE conjE, intro exI, assumption)+

lemma accepted_pins_distinct:
  assumes "validate_sidecar_shape uri s = Inr ()" and "rs_schema_version s = 9"
  shows "distinct (map pin_identity (rs_tables s))"
proof -
  have "validate_generation uri s = Inr ()"
    using assms(1) unfolding validate_sidecar_shape_def Let_def by (simp only: r_bind_Inr_iff, elim exE conjE)
  then have "\<exists>b u. validate_unique_pin_identities (malformed uri s) (rs_tables s) b = Inr u"
    using assms(2) shape_unique_pins by (cases "rs_writer_kind s") (auto simp: validate_generation_def sidecar_versions)
  then show ?thesis using unique_pins_distinct by blast
qed

text \<open>
  C9: when a current sidecar of any writer is accepted and its paths are bound to the graph, no two of its tables
  have the same dataset, and every dataset lies under the root of the graph: recovery restores each
  table at most once and nothing outside the graph.
\<close>
theorem accepted_pins_own_distinct_paths:
  assumes valid: "validate_sidecar_shape uri s = Inr ()" and v9: "rs_schema_version s = 9"
    and paths: "validate_identity_aware_pin_paths root uri s = Inr ()"
  shows "distinct (map pin_table_path (rs_tables s)) \<and>
    (\<forall>pin \<in> set (rs_tables s). \<exists>rest. pin_table_path pin = trim_end_slashes root @ ''/'' @ rest)"
proof -
  have path: "\<exists>rel. table_path_for_identity (pin_table_key pin) (pin_identity pin) = Inr rel \<and>
      pin_table_path pin = trim_end_slashes root @ ''/'' @ rel" if "pin \<in> set (rs_tables s)" for pin
    using paths v9 that
    by (auto simp: validate_identity_aware_pin_paths_def validate_identity_aware_pin_path_def sidecar_versions)
  have inj: "pin_identity a = pin_identity b"
    if a: "a \<in> set (rs_tables s)" and b: "b \<in> set (rs_tables s)" and c: "pin_table_path a = pin_table_path b" for a b
  proof -
    obtain ra rb where "table_path_for_identity (pin_table_key a) (pin_identity a) = Inr ra"
      "table_path_for_identity (pin_table_key b) (pin_identity b) = Inr rb" "ra = rb"
      using path [OF a] path [OF b] c by auto
    then show ?thesis by (auto intro: identity_path_inj)
  qed
  have ids: "distinct (rs_tables s)" "inj_on pin_identity (set (rs_tables s))"
    using accepted_pins_distinct [OF valid v9] by (simp_all add: distinct_map)
  have "inj_on pin_table_path (set (rs_tables s))"
    by (rule inj_onI, rule inj_onD [OF ids(2)]) (auto intro: inj)
  then show ?thesis using path ids(1) by (auto simp: distinct_map)
qed

section \<open>Mutation and load\<close>

definition planned_transaction :: "recovery_sidecar \<Rightarrow> sidecar_table_pin \<Rightarrow> staged_transaction_identity option" where
  "planned_transaction s pin =
     Option.bind (rs_protocol_v3 s) (\<lambda>p.
       map_option eff_planned_transaction (find (\<lambda>e. eff_identity e = pin_identity pin) (p3_effects p)))"

definition landed_as_confirmed :: "recovery_sidecar \<Rightarrow> table_observation \<Rightarrow> sidecar_table_pin \<Rightarrow> bool" where
  "landed_as_confirmed s ob pin \<longleftrightarrow>
     ob_manifest_pinned ob = pin_expected_version pin \<and> pin_expected_version pin < ob_lance_head ob \<and>
     pin_confirmed_version pin = Some (ob_lance_head ob) \<and>
     ob_transaction ob = planned_transaction s pin"

lemma classify_occ_iff:
  assumes p: "rs_protocol_v3 s = Some p" and bound: "occ_bound p pin effect slot" and occ: "occ_writer s"
  shows "classify_table_observation pin (ob_lance_head ob) (ob_transaction ob) (ob_manifest_pinned ob)
      (rs_writer_kind s) (rs_schema_version s) (rs_protocol_v3 s) = RolledPastExpected \<longleftrightarrow> landed_as_confirmed s ob pin"
proof -
  have mode: "mode_of_kind (rs_writer_kind s) (rs_schema_version s) = ExactEffect"
    using occ by (auto simp: occ_writer_def sidecar_versions)
  have planned: "planned_transaction s pin = Some (eff_planned_transaction effect)"
    using p bound by (simp add: planned_transaction_def occ_bound_def)
  show ?thesis
  proof (cases "p3_effect_phase p")
    case Armed
    then show ?thesis using p bound mode
      by (auto simp: classify_table_observation_def classify_exact_effect_def landed_as_confirmed_def occ_bound_def)
  next
    case EffectsConfirmed
    then show ?thesis using p bound mode planned
      by (auto simp: classify_table_observation_def classify_exact_effect_def landed_as_confirmed_def occ_bound_def
          split: if_splits)
  qed
qed

lemma occ_decision_iff:
  assumes valid: "validate_sidecar_shape uri s = Inr ()" and occ: "occ_writer s"
  shows "decide (classify_sidecar s ob) = RollForward \<longleftrightarrow>
      (\<forall>pin \<in> set (rs_tables s). landed_as_confirmed s (ob pin) pin)"
    and "decide (classify_sidecar s ob) = Abort \<longleftrightarrow>
      (\<exists>pin \<in> set (rs_tables s). ob_lance_head (ob pin) < ob_manifest_pinned (ob pin))"
proof -
  obtain p where "occ_accepted p s" using occ_shape [OF occ_writer_shape [OF valid occ]] by blast
  then have p: "rs_protocol_v3 s = Some p"
    and bound: "\<And>pin. pin \<in> set (rs_tables s) \<Longrightarrow> \<exists>effect slot. occ_bound p pin effect slot"
    by (auto simp: occ_accepted_def)
  have "classify_table_observation pin (ob_lance_head (ob pin)) (ob_transaction (ob pin)) (ob_manifest_pinned (ob pin))
      (rs_writer_kind s) (rs_schema_version s) (rs_protocol_v3 s) = RolledPastExpected \<longleftrightarrow>
      landed_as_confirmed s (ob pin) pin" if "pin \<in> set (rs_tables s)" for pin
    using bound [OF that] classify_occ_iff [OF p _ occ] by blast
  then show "decide (classify_sidecar s ob) = RollForward \<longleftrightarrow>
      (\<forall>pin \<in> set (rs_tables s). landed_as_confirmed s (ob pin) pin)"
    "decide (classify_sidecar s ob) = Abort \<longleftrightarrow>
      (\<exists>pin \<in> set (rs_tables s). ob_lance_head (ob pin) < ob_manifest_pinned (ob pin))"
    by (simp_all add: decide_RollForward_iff decide_Abort_iff classify_sidecar_def InvariantViolation_iff)
qed

text \<open>
  C4: a sweep that accepts the sidecar of a mutation or load rolls it forward exactly when every one of its
  tables shows the confirmed version as its HEAD, past a manifest pin that is still the expected one,
  written by the planned transaction; it aborts exactly when some HEAD is behind the manifest. In
  every other case all tables are rolled back.
\<close>
theorem occ_decision_all_or_nothing:
  assumes valid: "validate_sidecar_shape uri s = Inr ()" and occ: "occ_writer s"
    and states: "classify_sidecar_tables probe snap s = Inr states"
  shows "(decide (map ct_classification states) = RollForward \<longleftrightarrow>
            (\<forall>pin \<in> set (rs_tables s). landed_as_confirmed s (observed probe snap s pin) pin)) \<and>
         (decide (map ct_classification states) = Abort \<longleftrightarrow>
            (\<exists>pin \<in> set (rs_tables s).
               ob_lance_head (observed probe snap s pin) < ob_manifest_pinned (observed probe snap s pin)))"
  unfolding classified_as_observed [OF states] using occ_decision_iff [OF valid occ] by blast

end
