(* ===== verification/Recovery_Confirm.thy ===== *)
theory Recovery_Confirm
  imports Recovery_Properties
begin

text \<open>
  Confirmation of a mutation or load: it succeeds exactly when what was achieved is what was planned, and
  the sidecar it leaves is one that recovery rolls forward.
\<close>

section \<open>What confirmation does not change\<close>

definition occ_static :: "string \<Rightarrow> recovery_sidecar \<Rightarrow> recovery_protocol_v3 \<Rightarrow> bool" where
  "occ_static uri s p \<longleftrightarrow>
     rs_protocol_v4 s = None \<and> rs_protocol_v7 s = None \<and> rs_protocol_v8 s = None \<and>
     rs_ensure_indices_rollback_v6 s = None \<and> rs_merge_source_commit_id s = None \<and>
     \<not> rs_schema_apply_manifest_published s \<and> rs_schema_apply_target_schema_ir_hash s = None \<and>
     validate_authority_identity (malformed uri s) (p3_authority p) = Inr () \<and>
     rs_additional_registrations s = [] \<and> rs_tombstones s = [] \<and> delta_only_updates (p3_intended_delta p) \<and>
     named_branch (rs_branch s) = named_branch (lin_branch (p3_lineage p)) \<and>
     rs_actor_id s = lin_actor_id (p3_lineage p) \<and> lin_merged_parent_commit_id (p3_lineage p) = None \<and>
     p3_rollback_graph_commit_id p \<noteq> lin_graph_commit_id (p3_lineage p) \<and>
     validate_unique_pin_identities (malformed uri s) (rs_tables s) False = Inr () \<and>
     outcomes_within (p3_rollback_audit_outcomes p) (set (map pin_table_key (rs_tables s))) \<and>
     distinct (map eff_identity (p3_effects p)) \<and>
     distinct (map (tx_uuid \<circ> eff_planned_transaction) (p3_effects p)) \<and>
     distinct (map slot_identity (md_table_updates (p3_intended_delta p))) \<and>
     set (map eff_identity (p3_effects p)) = set (map pin_identity (rs_tables s)) \<and>
     set (map slot_identity (md_table_updates (p3_intended_delta p))) = set (map pin_identity (rs_tables s))"

lemma validate_mutation_load_iff:
  "validate_mutation_load_shape uri s = Inr () \<longleftrightarrow>
     (\<exists>p. rs_protocol_v3 s = Some p \<and> occ_static uri s p \<and>
          (\<forall>pin \<in> set (rs_tables s). \<exists>effect slot. occ_bound p pin effect slot))"
  unfolding validate_mutation_load_shape_def Let_def
  by (simp only: r_bind_Inr_iff ok_or_Inr_iff guard_Inr_iff r_each_Inr_iff validate_mutation_load_pin_iff
      unique_iff de_Morgan_disj not_not occ_static_def) auto

lemma occ_writer_iff:
  assumes "occ_writer s"
  shows "validate_sidecar_shape uri s = Inr () \<longleftrightarrow>
    rs_schema_version s \<notin> {4, 5, 6, 7, 8} \<and> validate_mutation_load_shape uri s = Inr ()"
proof
  assume valid: "validate_sidecar_shape uri s = Inr ()"
  moreover have "rs_schema_version s \<notin> {4, 5, 6, 7, 8}"
    using valid assms
    by (auto simp: validate_sidecar_shape_def validate_generation_def Let_def occ_writer_def sidecar_versions
      validate_branch_merge_v4_shape_def validate_schema_apply_v5_shape_def validate_ensure_indices_v6_shape_def
      validate_schema_apply_v7_shape_def validate_ensure_indices_v8_shape_def split: if_splits)
  ultimately show "rs_schema_version s \<notin> {4, 5, 6, 7, 8} \<and> validate_mutation_load_shape uri s = Inr ()"
    using occ_writer_shape [OF valid assms] by simp
next
  assume "rs_schema_version s \<notin> {4, 5, 6, 7, 8} \<and> validate_mutation_load_shape uri s = Inr ()"
  then show "validate_sidecar_shape uri s = Inr ()"
    using assms
    by (auto simp: validate_sidecar_shape_def validate_generation_def Let_def occ_writer_def sidecar_versions
        validate_mutation_load_iff occ_static_def)
qed

section \<open>The plan is met\<close>

definition achieved :: "sub_table_update list \<Rightarrow> sidecar_table_pin \<Rightarrow> bool" where
  "achieved updates pin \<longleftrightarrow>
     (\<exists>u \<in> set updates. up_identity u = pin_identity pin \<and> up_table_key u = pin_table_key pin \<and>
        up_table_version u = pin_post_commit_pin pin \<and> up_table_branch u = pin_table_branch pin)"

definition occ_plan_met ::
    "recovery_sidecar \<Rightarrow> sub_table_update list \<Rightarrow> (table_identity, staged_transaction_identity) hmap \<Rightarrow> bool" where
  "occ_plan_met s updates committed \<longleftrightarrow>
     distinct (map up_identity updates) \<and> length committed = length (rs_tables s) \<and>
     up_identity ` set updates = pin_identity ` set (rs_tables s) \<and>
     (\<forall>pin \<in> set (rs_tables s). hm_get committed (pin_identity pin) = planned_transaction s pin \<and> achieved updates pin)"

lemma accepted_count:
  assumes "occ_accepted p s"
  shows "card (set (map eff_identity (p3_effects p))) = length (rs_tables s)"
  using assms distinct_card [of "map pin_identity (rs_tables s)"] by (simp add: occ_accepted_def)

text \<open>Pins, effects and slots correspond one to one.\<close>

lemma accepted_effect:
  assumes acc: "occ_accepted p s" and e: "e \<in> set (p3_effects p)"
  obtains pin slot where "pin \<in> set (rs_tables s)" "pin_identity pin = eff_identity e" "occ_bound p pin e slot"
    "find (\<lambda>pin. pin_identity pin = eff_identity e) (rs_tables s) = Some pin"
    "planned_transaction s pin = Some (eff_planned_transaction e)"
proof -
  obtain pin where pin: "pin \<in> set (rs_tables s)" "eff_identity e = pin_identity pin"
    using acc e by (fastforce simp: occ_accepted_def)
  have find: "find (\<lambda>x. eff_identity x = pin_identity pin) (p3_effects p) = Some e"
    using acc e pin(2) find_key_unique [of eff_identity "p3_effects p" e] by (simp add: occ_accepted_def)
  then obtain slot where "occ_bound p pin e slot"
    using acc pin(1) by (fastforce simp: occ_accepted_def occ_bound_def)
  moreover have "find (\<lambda>x. pin_identity x = eff_identity e) (rs_tables s) = Some pin"
    using acc pin find_key_unique [of pin_identity "rs_tables s" pin] by (simp add: occ_accepted_def)
  moreover have "planned_transaction s pin = Some (eff_planned_transaction e)"
    using acc find by (simp add: planned_transaction_def occ_accepted_def)
  ultimately show ?thesis using that pin by simp
qed

lemma check_occ_effect_iff:
  assumes acc: "occ_accepted p s" and e: "e \<in> set (p3_effects p)" and updates: "distinct (map up_identity updates)"
    and pin: "pin \<in> set (rs_tables s)" "pin_identity pin = eff_identity e"
  shows "check_occ_effect s updates committed e = Inr () \<longleftrightarrow>
    hm_get committed (pin_identity pin) = planned_transaction s pin \<and> achieved updates pin"
proof -
  obtain pin' slot where b: "pin' \<in> set (rs_tables s)" "pin_identity pin' = eff_identity e" "occ_bound p pin' e slot"
    "find (\<lambda>pin. pin_identity pin = eff_identity e) (rs_tables s) = Some pin'"
    "planned_transaction s pin' = Some (eff_planned_transaction e)"
    by (rule accepted_effect [OF acc e])
  have same: "pin' = pin"
    using acc b(4) pin find_key_unique [of pin_identity "rs_tables s" pin] by (simp add: occ_accepted_def)
  have key: "eff_table_key e = pin_table_key pin" using b(3) same by (simp add: occ_bound_def)
  have upd: "achieved updates pin \<longleftrightarrow> (\<exists>u. update_of (eff_identity e) updates = Some u \<and> up_table_key u = pin_table_key pin \<and>
      up_table_version u = pin_post_commit_pin pin \<and> up_table_branch u = pin_table_branch pin)"
  proof
    assume "achieved updates pin"
    then obtain u where u: "u \<in> set updates" "up_identity u = eff_identity e" "up_table_key u = pin_table_key pin"
      "up_table_version u = pin_post_commit_pin pin" "up_table_branch u = pin_table_branch pin"
      using pin(2) by (auto simp: achieved_def)
    have "update_of (eff_identity e) updates = Some u"
      using find_key_unique [OF updates u(1)] u(2) by (simp add: update_of_def)
    with u show "\<exists>u. update_of (eff_identity e) updates = Some u \<and> up_table_key u = pin_table_key pin \<and>
      up_table_version u = pin_post_commit_pin pin \<and> up_table_branch u = pin_table_branch pin" by blast
  next
    assume "\<exists>u. update_of (eff_identity e) updates = Some u \<and> up_table_key u = pin_table_key pin \<and>
      up_table_version u = pin_post_commit_pin pin \<and> up_table_branch u = pin_table_branch pin"
    then obtain u where u: "update_of (eff_identity e) updates = Some u" "up_table_key u = pin_table_key pin"
      "up_table_version u = pin_post_commit_pin pin" "up_table_branch u = pin_table_branch pin" by blast
    have "u \<in> set updates \<and> up_identity u = eff_identity e"
      using u(1) unfolding update_of_def by (rule find_key_Some)
    with u(2-4) pin(2) show "achieved updates pin" unfolding achieved_def by auto
  qed
  show ?thesis
    using b(4,5) same key pin(2) by (auto simp: check_occ_effect_def upd)
qed

lemma occ_checks_iff:
  assumes acc: "occ_accepted p s"
  shows "confirmation_keys_match updates committed (map eff_identity (p3_effects p)) \<and>
      (\<forall>e \<in> set (p3_effects p). check_occ_effect s updates committed e = Inr ()) \<longleftrightarrow>
    occ_plan_met s updates committed"
proof -
  have ids: "set (map eff_identity (p3_effects p)) = pin_identity ` set (rs_tables s)"
    using acc by (simp add: occ_accepted_def)
  have checks: "(\<forall>e \<in> set (p3_effects p). check_occ_effect s updates committed e = Inr ()) \<longleftrightarrow>
      (\<forall>pin \<in> set (rs_tables s). hm_get committed (pin_identity pin) = planned_transaction s pin \<and> achieved updates pin)"
    if "distinct (map up_identity updates)"
  proof safe
    fix pin assume all: "\<forall>e \<in> set (p3_effects p). check_occ_effect s updates committed e = Inr ()"
      and pin: "pin \<in> set (rs_tables s)"
    then obtain e where "e \<in> set (p3_effects p)" "pin_identity pin = eff_identity e"
      using ids by (metis image_iff set_map)
    with all pin check_occ_effect_iff [OF acc _ that]
    show "hm_get committed (pin_identity pin) = planned_transaction s pin" "achieved updates pin" by blast+
  next
    fix e assume all: "\<forall>pin \<in> set (rs_tables s). hm_get committed (pin_identity pin) = planned_transaction s pin \<and> achieved updates pin"
      and e: "e \<in> set (p3_effects p)"
    obtain pin slot where "pin \<in> set (rs_tables s)" "pin_identity pin = eff_identity e"
      by (rule accepted_effect [OF acc e])
    with all check_occ_effect_iff [OF acc e that] show "check_occ_effect s updates committed e = Inr ()" by blast
  qed
  have planned: "planned_transaction s pin \<noteq> None" if "pin \<in> set (rs_tables s)" for pin
    using acc that by (fastforce simp: occ_accepted_def occ_bound_def planned_transaction_def)
  show ?thesis
  proof
    assume l: "confirmation_keys_match updates committed (map eff_identity (p3_effects p)) \<and>
      (\<forall>e \<in> set (p3_effects p). check_occ_effect s updates committed e = Inr ())"
    then show "occ_plan_met s updates committed"
      using checks accepted_count [OF acc] ids by (simp add: confirmation_keys_match_def occ_plan_met_def)
  next
    assume r: "occ_plan_met s updates committed"
    then have "\<forall>i \<in> set (map eff_identity (p3_effects p)). hm_get committed i \<noteq> None"
      using planned ids by (auto simp: occ_plan_met_def)
    with r show "confirmation_keys_match updates committed (map eff_identity (p3_effects p)) \<and>
      (\<forall>e \<in> set (p3_effects p). check_occ_effect s updates committed e = Inr ())"
      using checks accepted_count [OF acc] ids planned by (simp add: confirmation_keys_match_def occ_plan_met_def)
  qed
qed

section \<open>The confirmed sidecar\<close>

definition conf_effect :: "(table_identity, staged_transaction_identity) hmap \<Rightarrow> recovery_table_effect \<Rightarrow> recovery_table_effect" where
  "conf_effect committed e = e\<lparr>eff_confirmed_transaction := hm_get committed (eff_identity e)\<rparr>"

definition conf_slot :: "sub_table_update list \<Rightarrow> recovery_table_update_slot \<Rightarrow> recovery_table_update_slot" where
  "conf_slot updates slot = slot\<lparr>slot_confirmed := map_option
     (\<lambda>u. \<lparr>cu_table_version = up_table_version u, cu_table_branch = up_table_branch u,
           cu_row_count = up_row_count u, cu_version_metadata = up_version_metadata u\<rparr>)
     (update_of (slot_identity slot) updates)\<rparr>"

definition conf_pin :: "sub_table_update list \<Rightarrow> sidecar_table_pin \<Rightarrow> sidecar_table_pin" where
  "conf_pin updates pin =
     pin\<lparr>pin_confirmed_version := map_option up_table_version (update_of (pin_identity pin) updates)\<rparr>"

definition conf_protocol ::
    "sub_table_update list \<Rightarrow> (table_identity, staged_transaction_identity) hmap \<Rightarrow> recovery_protocol_v3 \<Rightarrow> recovery_protocol_v3" where
  "conf_protocol updates committed p =
     p\<lparr>p3_effect_phase := EffectsConfirmed, p3_effects := map (conf_effect committed) (p3_effects p),
       p3_intended_delta := (p3_intended_delta p)\<lparr>md_table_updates :=
         map (conf_slot updates) (md_table_updates (p3_intended_delta p))\<rparr>\<rparr>"

definition conf_sidecar ::
    "sub_table_update list \<Rightarrow> (table_identity, staged_transaction_identity) hmap \<Rightarrow> recovery_sidecar \<Rightarrow> recovery_sidecar" where
  "conf_sidecar updates committed s =
     s\<lparr>rs_tables := map (conf_pin updates) (rs_tables s),
       rs_protocol_v3 := map_option (conf_protocol updates committed) (rs_protocol_v3 s)\<rparr>"

lemma conf_fields [simp]:
  "eff_identity (conf_effect committed e) = eff_identity e"
  "eff_planned_transaction (conf_effect committed e) = eff_planned_transaction e"
  "eff_table_key (conf_effect committed e) = eff_table_key e"
  "slot_identity (conf_slot updates slot) = slot_identity slot"
  "slot_table_key (conf_slot updates slot) = slot_table_key slot"
  "slot_expected_version (conf_slot updates slot) = slot_expected_version slot"
  "slot_table_branch (conf_slot updates slot) = slot_table_branch slot"
  "pin_identity (conf_pin updates pin) = pin_identity pin"
  "pin_table_key (conf_pin updates pin) = pin_table_key pin"
  "pin_table_path (conf_pin updates pin) = pin_table_path pin"
  "pin_expected_version (conf_pin updates pin) = pin_expected_version pin"
  "pin_post_commit_pin (conf_pin updates pin) = pin_post_commit_pin pin"
  "pin_table_branch (conf_pin updates pin) = pin_table_branch pin"
  by (simp_all add: conf_effect_def conf_slot_def conf_pin_def)

lemma malformed_conf [simp]: "malformed uri (conf_sidecar updates committed s) = malformed uri s"
  by (intro ext) (simp add: malformed_def conf_sidecar_def)

lemma validate_pin_conf [simp]: "validate_pin mf (conf_pin updates pin) = validate_pin mf pin"
  by (intro ext) (simp add: validate_pin_def)

lemma r_fold_through_map: "r_fold f (map g xs) s = r_fold (\<lambda>x. f (g x)) xs s"
proof (induction xs arbitrary: s)
  case (Cons x xs)
  then show ?case by (cases "f (g x) s") simp_all
qed simp

lemma unique_pins_conf [simp]:
  "validate_unique_pin_identities mf (map (conf_pin updates) pins) b = validate_unique_pin_identities mf pins b"
  by (simp add: validate_unique_pin_identities_def r_fold_through_map)

lemma occ_static_conf:
  assumes "occ_static uri s p"
  shows "occ_static uri (conf_sidecar updates committed s) (conf_protocol updates committed p)"
  using assms unfolding occ_static_def malformed_conf
  by (simp add: conf_sidecar_def conf_protocol_def delta_only_updates_def comp_def image_image)

lemma update_of_achieved:
  assumes "distinct (map up_identity updates)" and "achieved updates pin"
  obtains u where "update_of (pin_identity pin) updates = Some u" "up_table_version u = pin_post_commit_pin pin"
    "up_table_branch u = pin_table_branch pin"
proof -
  obtain u where u: "u \<in> set updates" "up_identity u = pin_identity pin"
    "up_table_version u = pin_post_commit_pin pin" "up_table_branch u = pin_table_branch pin"
    using assms(2) by (auto simp: achieved_def)
  have "update_of (pin_identity pin) updates = Some u"
    using find_key_unique [OF assms(1) u(1)] u(2) by (simp add: update_of_def)
  with that u show ?thesis by blast
qed

lemma occ_bound_conf:
  assumes bound: "occ_bound p pin effect slot" and p: "rs_protocol_v3 s = Some p"
    and met: "occ_plan_met s updates committed" and pin: "pin \<in> set (rs_tables s)"
  shows "occ_bound (conf_protocol updates committed p) (conf_pin updates pin) (conf_effect committed effect) (conf_slot updates slot)"
proof -
  have eff: "find (\<lambda>e. eff_identity e = pin_identity pin) (p3_effects p) = Some effect"
    and slot: "slot_of (pin_identity pin) (p3_intended_delta p) = Some slot"
    using bound by (simp_all add: occ_bound_def)
  have ids: "eff_identity effect = pin_identity pin" "slot_identity slot = pin_identity pin"
    using find_key_Some [of eff_identity, OF eff] find_key_Some [of slot_identity, OF slot [unfolded slot_of_def]] by simp_all
  have "hm_get committed (pin_identity pin) = Some (eff_planned_transaction effect)"
    using met pin p eff by (simp add: occ_plan_met_def planned_transaction_def)
  moreover obtain u where "update_of (pin_identity pin) updates = Some u"
    "up_table_version u = pin_post_commit_pin pin" "up_table_branch u = pin_table_branch pin"
    using update_of_achieved met pin by (metis occ_plan_met_def)
  moreover have "find (\<lambda>e. eff_identity e = pin_identity pin) (map (conf_effect committed) (p3_effects p)) =
      Some (conf_effect committed effect)"
    using eff by (simp add: find_map_key [of eff_identity _ eff_identity])
  moreover have "find (\<lambda>e. slot_identity e = pin_identity pin) (map (conf_slot updates) (md_table_updates (p3_intended_delta p))) =
      Some (conf_slot updates slot)"
    using slot by (simp add: slot_of_def find_map_key [of slot_identity _ slot_identity])
  ultimately show ?thesis
    using bound ids
    by (simp add: occ_bound_def conf_protocol_def slot_of_def) (simp add: conf_effect_def conf_slot_def conf_pin_def)
qed

lemma conf_sidecar_valid:
  assumes valid: "validate_sidecar_shape uri s = Inr ()" and occ: "occ_writer s"
    and met: "occ_plan_met s updates committed"
  shows "validate_sidecar_shape uri (conf_sidecar updates committed s) = Inr ()" and "occ_writer (conf_sidecar updates committed s)"
proof -
  show occ': "occ_writer (conf_sidecar updates committed s)"
    using occ by (simp add: occ_writer_def conf_sidecar_def)
  obtain p where p: "rs_protocol_v3 s = Some p" and stat: "occ_static uri s p"
    and bound: "\<forall>pin \<in> set (rs_tables s). \<exists>effect slot. occ_bound p pin effect slot"
    using occ_writer_shape [OF valid occ] by (auto simp: validate_mutation_load_iff)
  have "\<forall>pin \<in> set (rs_tables (conf_sidecar updates committed s)).
      \<exists>effect slot. occ_bound (conf_protocol updates committed p) pin effect slot"
    using bound occ_bound_conf [OF _ p met] by (fastforce simp: conf_sidecar_def)
  then have "validate_mutation_load_shape uri (conf_sidecar updates committed s) = Inr ()"
    using occ_static_conf [OF stat] p by (simp add: validate_mutation_load_iff) (simp add: conf_sidecar_def)
  moreover have "rs_schema_version s \<notin> {4, 5, 6, 7, 8}" using valid occ_writer_iff [OF occ] by blast
  ultimately show "validate_sidecar_shape uri (conf_sidecar updates committed s) = Inr ()"
    unfolding occ_writer_iff [OF occ'] by (simp add: conf_sidecar_def)
qed

section \<open>Arming, confirming, recovering\<close>

lemma r_map_Inr_map: "(\<And>x. x \<in> set xs \<Longrightarrow> f x = Inr (g x)) \<Longrightarrow> r_map f xs = Inr (map g xs)"
  by (induction xs) auto

lemma confirm_steps:
  assumes acc: "occ_accepted p s" and met: "occ_plan_met s updates committed"
  shows "r_map (confirm_effect committed) (p3_effects p) = Inr (map (conf_effect committed) (p3_effects p))"
    and "r_map (confirm_slot updates) (md_table_updates (p3_intended_delta p)) =
      Inr (map (conf_slot updates) (md_table_updates (p3_intended_delta p)))"
    and "r_map (confirm_pin updates) (rs_tables s) = Inr (map (conf_pin updates) (rs_tables s))"
proof -
  have upd: "\<exists>u. update_of i updates = Some u" if "i \<in> pin_identity ` set (rs_tables s)" for i
    using met that find_key_in [of i up_identity updates] by (simp add: occ_plan_met_def update_of_def)
  show "r_map (confirm_effect committed) (p3_effects p) = Inr (map (conf_effect committed) (p3_effects p))"
  proof (rule r_map_Inr_map)
    fix e assume "e \<in> set (p3_effects p)"
    then obtain pin slot where "pin \<in> set (rs_tables s)" "pin_identity pin = eff_identity e"
      "planned_transaction s pin = Some (eff_planned_transaction e)"
      by (rule accepted_effect [OF acc])
    with met have "hm_get committed (eff_identity e) = Some (eff_planned_transaction e)"
      by (auto simp: occ_plan_met_def)
    then show "confirm_effect committed e = Inr (conf_effect committed e)"
      by (simp add: confirm_effect_def conf_effect_def)
  qed
  show "r_map (confirm_slot updates) (md_table_updates (p3_intended_delta p)) =
      Inr (map (conf_slot updates) (md_table_updates (p3_intended_delta p)))"
  proof (rule r_map_Inr_map)
    fix slot assume "slot \<in> set (md_table_updates (p3_intended_delta p))"
    then have "slot_identity slot \<in> pin_identity ` set (rs_tables s)"
      using acc by (auto simp: occ_accepted_def)
    from upd [OF this] show "confirm_slot updates slot = Inr (conf_slot updates slot)"
      by (auto simp: confirm_slot_def conf_slot_def)
  qed
  show "r_map (confirm_pin updates) (rs_tables s) = Inr (map (conf_pin updates) (rs_tables s))"
  proof (rule r_map_Inr_map)
    fix pin assume "pin \<in> set (rs_tables s)"
    from upd [OF imageI [OF this]] show "confirm_pin updates pin = Inr (conf_pin updates pin)"
      by (auto simp: confirm_pin_def conf_pin_def)
  qed
qed

lemma confirm_occ_iff:
  assumes valid: "validate_sidecar_shape (sidecar_uri root (rs_operation_id s)) s = Inr ()" and occ: "occ_writer s"
    and armed: "rs_protocol_v3 s = Some p" "p3_effect_phase p = Armed"
  shows "confirm_occ_sidecar_v9 write_text root s updates committed = Inr s' \<longleftrightarrow>
    occ_plan_met s updates committed \<and> s' = conf_sidecar updates committed s \<and>
    write_text (sidecar_uri root (rs_operation_id s)) s' = Inr ()"
proof -
  have acc: "occ_accepted p s" using occ_shape [OF occ_writer_shape [OF valid occ]] armed by (auto simp: occ_accepted_def)
  have conf: "conf_sidecar updates committed s =
      s\<lparr>rs_tables := map (conf_pin updates) (rs_tables s), rs_protocol_v3 := Some (conf_protocol updates committed p)\<rparr>"
    using armed by (simp add: conf_sidecar_def)
  show ?thesis
  proof (cases "occ_plan_met s updates committed")
    case True
    with occ_checks_iff [OF acc] have "confirmation_keys_match updates committed (map eff_identity (p3_effects p))"
      "r_each (check_occ_effect s updates committed) (p3_effects p) = Inr ()" by auto
    then show ?thesis
      using True valid armed confirm_steps [OF acc True] conf_sidecar_valid(1) [OF valid occ True]
      by (auto simp: confirm_occ_sidecar_v9_def conf conf_protocol_def Let_def)
  next
    case False
    with occ_checks_iff [OF acc] show ?thesis
      using armed by (auto simp: confirm_occ_sidecar_v9_def Let_def)
  qed
qed

text \<open>
  C5: confirming an armed mutation or load sidecar succeeds exactly when there is one update per pinned
  table, every committed transaction is the planned one, every update names the planned version,
  name and branch, and the confirmed sidecar is written; the result is the sidecar with exactly those
  outputs bound, and the validation of that result never fails.
\<close>
theorem confirm_occ_exactly_the_plan:
  assumes valid: "validate_sidecar_shape (sidecar_uri root (rs_operation_id s)) s = Inr ()" and occ: "occ_writer s"
    and armed: "rs_protocol_v3 s = Some p" "p3_effect_phase p = Armed"
  shows "confirm_occ_sidecar_v9 write_text root s updates committed = Inr s' \<longleftrightarrow>
    occ_plan_met s updates committed \<and> s' = conf_sidecar updates committed s \<and>
    write_text (sidecar_uri root (rs_operation_id s)) s' = Inr ()"
  by (rule confirm_occ_iff [OF assms])

lemma armed_never_forward:
  assumes acc: "occ_accepted p s" and armed: "p3_effect_phase p = Armed" and pin: "pin \<in> set (rs_tables s)"
  shows "\<not> landed_as_confirmed s ob pin"
  using acc armed pin by (fastforce simp: occ_accepted_def occ_bound_def landed_as_confirmed_def)

lemma new_occ_sidecar:
  assumes "new_occ_sidecar_v9 operation_id started_at rollback_id kind branch actor tables authority lineage planned = Inr s"
  shows "validate_sidecar_shape ''<new-occ-sidecar>'' s = Inr ()" and "occ_writer s" and "rs_tables s = tables" and "tables \<noteq> []"
    and "\<exists>p. rs_protocol_v3 s = Some p \<and> p3_effect_phase p = Armed"
    and "pin \<in> set tables \<Longrightarrow> planned_transaction s pin = hm_get planned (pin_identity pin)"
proof -
  let ?eff = "\<lambda>pin. \<lparr>eff_identity = pin_identity pin, eff_table_key = pin_table_key pin,
    eff_planned_transaction = the (hm_get planned (pin_identity pin)), eff_confirmed_transaction = None\<rparr>"
  obtain effects where kind: "kind = MutationWriter \<or> kind = LoadWriter" and tables: "tables \<noteq> []" "distinct (map pin_identity tables)"
    and known: "\<forall>pin \<in> set tables. hm_get planned (pin_identity pin) \<noteq> None"
    and effects: "r_map (\<lambda>pin. r_bind (ok_or (hm_get planned (pin_identity pin)) UnreachableReached) (\<lambda>planned.
              Inr \<lparr>eff_identity = pin_identity pin, eff_table_key = pin_table_key pin,
                   eff_planned_transaction = planned, eff_confirmed_transaction = None\<rparr>)) tables = Inr effects"
    and s: "s = (new_unvalidated_sidecar operation_id started_at IDENTITY_AWARE_SIDECAR_SCHEMA_VERSION kind branch actor tables)
               \<lparr>rs_protocol_v3 := Some
                  \<lparr>p3_authority = authority, p3_lineage = lineage, p3_rollback_graph_commit_id = rollback_id,
                   p3_rollback_audit_outcomes = None, p3_effect_phase = Armed, p3_effects = effects,
                   p3_intended_delta = \<lparr>md_table_updates = map armed_slot tables, md_registrations = [],
                     md_renames = [], md_tombstones = []\<rparr>\<rparr>\<rparr>"
    and valid: "validate_sidecar_shape ''<new-occ-sidecar>'' s = Inr ()"
    using assms by (auto simp: new_occ_sidecar_v9_def list_all_iff Let_def)
  have "effects = map ?eff tables"
    using effects r_map_Inr_map [of tables _ ?eff] known by (auto simp: r_map_Inr_iff list_all2_conv_all_nth intro!: nth_equalityI)
  then show "pin \<in> set tables \<Longrightarrow> planned_transaction s pin = hm_get planned (pin_identity pin)"
    using known find_key_unique [OF tables(2)]
    by (auto simp: planned_transaction_def s find_map_key [of eff_identity ?eff pin_identity])
  show "validate_sidecar_shape ''<new-occ-sidecar>'' s = Inr ()" by (rule valid)
  show "occ_writer s" "rs_tables s = tables" "\<exists>p. rs_protocol_v3 s = Some p \<and> p3_effect_phase p = Armed"
    using kind by (auto simp: s occ_writer_def new_unvalidated_sidecar_def sidecar_versions)
  show "tables \<noteq> []" by (rule tables(1))
qed

text \<open>
  C3: the classification and decision over the life of a mutation or load sidecar. While it is armed,
  classifying its tables never leads to the decision to roll forward, whatever is observed. Once
  confirmed, the decision is to roll forward exactly when every pinned table is at its planned
  version, past an unchanged manifest pin, and its HEAD is the planned transaction: the tables
  decide as a whole or not at all. What a sweep checks before it acts on the decision (that the
  branch and the graph's authority are still those of the sidecar) is not part of the statement.
\<close>
theorem occ_sidecar_lifecycle:
  assumes arm: "new_occ_sidecar_v9 operation_id started_at rollback_id kind branch actor tables authority lineage planned = Inr s"
    and confirm: "confirm_occ_sidecar_v9 write_text root s updates committed = Inr s'"
  shows "decide (classify_sidecar s before) \<noteq> RollForward \<and>
    (decide (classify_sidecar s' (\<lambda>pin. ob (pin_identity pin))) = RollForward \<longleftrightarrow>
       (\<forall>pin \<in> set tables.
          ob_manifest_pinned (ob (pin_identity pin)) = pin_expected_version pin \<and>
          pin_expected_version pin < pin_post_commit_pin pin \<and>
          ob_lance_head (ob (pin_identity pin)) = pin_post_commit_pin pin \<and>
          ob_transaction (ob (pin_identity pin)) = hm_get planned (pin_identity pin)))"
proof -
  note new = new_occ_sidecar [OF arm]
  obtain p where p: "rs_protocol_v3 s = Some p" "p3_effect_phase p = Armed" using new(5) by blast
  have valid: "validate_sidecar_shape (sidecar_uri root (rs_operation_id s)) s = Inr ()"
    using confirm by (auto simp: confirm_occ_sidecar_v9_def Let_def)
  have acc: "occ_accepted p s" using occ_shape [OF occ_writer_shape [OF valid new(2)]] p by (auto simp: occ_accepted_def)
  have "decide (classify_sidecar s before) \<noteq> RollForward"
    using armed_never_forward [OF acc p(2)] new(3,4) occ_decision_iff(1) [OF valid new(2)] by (cases tables) auto
  moreover have met: "occ_plan_met s updates committed" and s': "s' = conf_sidecar updates committed s"
    using confirm_occ_iff [OF valid new(2) p] confirm by simp_all
  have landed: "landed_as_confirmed s' o' (conf_pin updates pin) \<longleftrightarrow>
      ob_manifest_pinned o' = pin_expected_version pin \<and> pin_expected_version pin < pin_post_commit_pin pin \<and>
      ob_lance_head o' = pin_post_commit_pin pin \<and> ob_transaction o' = hm_get planned (pin_identity pin)"
    if pin: "pin \<in> set tables" for o' pin
  proof -
    obtain u where "update_of (pin_identity pin) updates = Some u" "up_table_version u = pin_post_commit_pin pin"
      using update_of_achieved met pin new(3) by (metis occ_plan_met_def)
    moreover have "planned_transaction s' (conf_pin updates pin) = planned_transaction s pin"
      using p by (simp add: planned_transaction_def s' conf_sidecar_def conf_protocol_def
          find_map_key [of eff_identity _ eff_identity] option.map_comp comp_def)
    ultimately show ?thesis using new(6) [OF pin] by (auto simp: landed_as_confirmed_def) (auto simp: conf_pin_def)
  qed
  have "rs_tables s' = map (conf_pin updates) tables" using new(3) by (simp add: s' conf_sidecar_def)
  moreover have "decide (classify_sidecar s' ob') = RollForward \<longleftrightarrow> (\<forall>pin \<in> set (rs_tables s'). landed_as_confirmed s' (ob' pin) pin)" for ob'
    using occ_decision_iff(1) conf_sidecar_valid [OF valid new(2) met] unfolding s' by blast
  ultimately show ?thesis by (simp add: landed)
qed

end
