(* ===== verification/Merge_Plan.thy ===== *)
theory Merge_Plan
  imports Row_Merge Recovery_Facts
begin

text \<open>
  Planning a branch merge for recovery (\<^verbatim>\<open>omnigraph/src/exec/merge.rs\<close>): whether tables of base, source
  and target are the same table and in the same state, the transactions that a table is going to commit,
  one for every staged chunk, and the budget for the delta that validation retains.
  \<open>ulid n\<close> is the id minted for the \<open>n\<close>th transaction of a plan.
\<close>

section \<open>Table states\<close>

definition same_manifest_state :: "sub_table_entry option \<Rightarrow> sub_table_entry option \<Rightarrow> bool" where
  "same_manifest_state left right =
     (case (left, right) of
        (Some l, Some r) \<Rightarrow>
          ste_identity l = ste_identity r \<and> ste_table_path l = ste_table_path r \<and>
          ste_table_version l = ste_table_version r \<and> ste_table_branch l = ste_table_branch r \<and>
          ste_row_count l = ste_row_count r \<and> ste_version_metadata l = ste_version_metadata r
      | (None, None) \<Rightarrow> True
      | _ \<Rightarrow> False)"

primrec observe_identities :: "string \<Rightarrow> table_identity list \<Rightarrow> table_identity option \<Rightarrow> omni_error + unit" where
  "observe_identities table_key [] observed = Inr ()"
| "observe_identities table_key (candidate # rest) observed =
     (case observed of
        Some i \<Rightarrow>
          if candidate \<noteq> i
          then Inl (ReadSetChangedAt (''branch_merge_table_identity:'' @ table_key)
                      (Some (show_identity i)) (Some (show_identity candidate)))
          else observe_identities table_key rest observed
      | None \<Rightarrow> observe_identities table_key rest (Some candidate))"

definition ensure_merge_identity_compatible ::
    "string \<Rightarrow> table_identity option \<Rightarrow> table_identity option \<Rightarrow> table_identity option \<Rightarrow> omni_error + unit" where
  "ensure_merge_identity_compatible table_key base source target =
     observe_identities table_key (List.map_filter id [base, source, target]) None"

definition adopt_advances_head :: "string option \<Rightarrow> sub_table_entry \<Rightarrow> sub_table_entry option \<Rightarrow> bool" where
  "adopt_advances_head target_active source_entry target_entry =
     (case (target_active, ste_table_branch source_entry) of
        (None, Some _) \<Rightarrow> True
      | (Some target_branch, Some _) \<Rightarrow>
          Option.bind target_entry ste_table_branch = Some target_branch
      | _ \<Rightarrow> False)"

section \<open>Planned transactions\<close>

record 'd proven_pure_insert_adopt =
  pi_source :: 'd
  pi_source_identity :: table_identity
  pi_source_table_path :: string
  pi_source_table_branch :: "string option"
  pi_source_branch_identifier :: branch_identifier
  pi_target_base_branch_identifier :: branch_identifier
  pi_base_version :: u64
  pi_source_version :: u64
  pi_inserted_rows :: u64
  pi_chunk_rows :: "nat list"

datatype 'd candidate_table_state =
    AdoptSourceState "'d adopt_delta option"
  | AdoptPureInserts "'d proven_pure_insert_adopt"
  | AdoptWithDelta "'d adopt_delta"
  | RewriteMerged "'d staged_merge_result"

definition proven_insert_chunk_count :: "string \<Rightarrow> 'd proven_pure_insert_adopt \<Rightarrow> omni_error + nat" where
  "proven_insert_chunk_count table_key proven =
     r_bind (guard (\<not> (pi_inserted_rows proven = 0 \<or> pi_chunk_rows proven = []))
              (ManifestInternal ''branch merge proven pure-insert table {} is empty'' [ArgText table_key])) (\<lambda>_.
     r_bind (checked_total (internal ''branch merge pure-insert planned row overflow'') (pi_chunk_rows proven) 0) (\<lambda>planned_rows.
     r_bind (guard (planned_rows = pi_inserted_rows proven)
              (ManifestInternal ''branch merge pure-insert chunks for {} contain {} rows, expected {}''
                 [ArgText table_key, ArgNum planned_rows, ArgNum (pi_inserted_rows proven)])) (\<lambda>_.
     Inr (length (pi_chunk_rows proven)))))"

definition enforce_merge_transaction_ceiling :: "string \<Rightarrow> nat \<Rightarrow> omni_error + u64" where
  "enforce_merge_transaction_ceiling table_key n =
     r_bind (u64_try_from n (ManifestInternal ''branch merge transaction count for {} exceeds u64'' [ArgText table_key])) (\<lambda>count.
     r_bind (guard (\<not> MAX_BRANCH_MERGE_DATA_TRANSACTIONS < count)
              (ResourceLimitExceeded (''branch-merge recovery transactions for '' @ table_key)
                 MAX_BRANCH_MERGE_DATA_TRANSACTIONS count)) (\<lambda>_.
     Inr count))"

definition pre_minted_merge_transaction :: "string \<Rightarrow> u64 \<Rightarrow> staged_transaction_identity" where
  "pre_minted_merge_transaction ulid read_version =
     \<lparr>tx_read_version = read_version, tx_uuid = ''omnigraph-merge-'' @ ulid\<rparr>"

definition staged_chunks :: "string \<Rightarrow> 'd staged_table option \<Rightarrow> omni_error + nat" where
  "staged_chunks table_key t = (case t of None \<Rightarrow> Inr 0 | Some table \<Rightarrow> staged_keyed_chunk_count table_key table)"

fun candidate_transaction_count :: "string \<Rightarrow> 'd candidate_table_state \<Rightarrow> omni_error + nat" where
  "candidate_transaction_count table_key (RewriteMerged staged) =
     r_bind (staged_chunks table_key (sr_delta_staged staged)) (\<lambda>n. Inr (n + chunk_count (sr_deleted_ids staged)))"
| "candidate_transaction_count table_key (AdoptWithDelta delta) =
     r_bind (staged_chunks table_key (ad_inserts delta)) (\<lambda>i.
     r_bind (staged_chunks table_key (ad_upserts delta)) (\<lambda>u.
     Inr (i + u + chunk_count (ad_deleted_ids delta))))"
| "candidate_transaction_count table_key (AdoptPureInserts proven) = proven_insert_chunk_count table_key proven"
| "candidate_transaction_count table_key (AdoptSourceState validation_delta) = Inr 0"

definition plan_merge_transactions ::
    "(nat \<Rightarrow> string) \<Rightarrow> string \<Rightarrow> 'd candidate_table_state \<Rightarrow> u64 \<Rightarrow> omni_error + staged_transaction_identity list" where
  "plan_merge_transactions ulid table_key candidate first_read_version =
     r_bind (candidate_transaction_count table_key candidate) (\<lambda>transaction_count.
     r_bind (guard (transaction_count \<noteq> 0)
              (ManifestInternal ''HEAD-advancing branch merge candidate {} has no logical data transaction'' [ArgText table_key])) (\<lambda>_.
     r_bind (enforce_merge_transaction_ceiling table_key transaction_count) (\<lambda>_.
     r_map (\<lambda>offset.
       r_bind (u64_try_from offset (ManifestInternal ''branch merge transaction count for {} exceeds u64'' [ArgText table_key])) (\<lambda>off.
       r_bind (ok_or (checked_add first_read_version off)
                (ManifestInternal ''branch merge transaction version overflow for {}'' [ArgText table_key])) (\<lambda>read_version.
       Inr (pre_minted_merge_transaction (ulid offset) read_version)))) [0..<transaction_count])))"

section \<open>The validation budget\<close>

definition MERGE_VALIDATION_RESOURCE :: string where
  "MERGE_VALIDATION_RESOURCE = ''branch-merge retained validation delta bytes''"

record merge_validation_budget =
  mb_retained_bytes :: u64
  mb_limit :: u64

definition merge_validation_budget_default :: merge_validation_budget where
  "merge_validation_budget_default = \<lparr>mb_retained_bytes = 0, mb_limit = KEYED_WRITE_MAX_BYTES\<rparr>"

definition budget_reserve :: "u64 \<Rightarrow> merge_validation_budget \<Rightarrow> omni_error + merge_validation_budget" where
  "budget_reserve bytes b =
     r_bind (ok_or (checked_add (mb_retained_bytes b) bytes)
              (internal ''branch merge validation byte count overflow'')) (\<lambda>actual.
     r_bind (guard (\<not> mb_limit b < actual)
              (ResourceLimitExceeded MERGE_VALIDATION_RESOURCE (mb_limit b) actual)) (\<lambda>_.
     Inr (b\<lparr>mb_retained_bytes := actual\<rparr>)))"

text \<open>The memory size of the projected batch is an argument; the second result is what was charged.\<close>

definition reserve_projected_batch :: "nat \<Rightarrow> merge_validation_budget \<Rightarrow> omni_error + merge_validation_budget \<times> u64" where
  "reserve_projected_batch array_memory_size b =
     r_bind (u64_try_from array_memory_size (internal ''branch merge validation batch bytes exceed u64'')) (\<lambda>bytes.
     r_bind (budget_reserve bytes b) (\<lambda>b. Inr (b, bytes)))"

definition reserve_deleted_id :: "string \<Rightarrow> merge_validation_budget \<Rightarrow> omni_error + merge_validation_budget" where
  "reserve_deleted_id i b =
     r_bind (u64_try_from (length i) (internal ''branch merge validation id bytes exceed u64'')) (\<lambda>payload.
     r_bind (u64_try_from size_of_String (internal ''branch merge validation String size exceeds u64'')) (\<lambda>slot.
     r_bind (ok_or (checked_add payload slot) (internal ''branch merge validation id byte count overflow'')) (\<lambda>bytes.
     budget_reserve bytes b)))"

definition retain_deleted_ids_for_validation ::
    "delete_id_chunks \<Rightarrow> merge_validation_budget \<times> string list \<Rightarrow> omni_error + merge_validation_budget \<times> string list" where
  "retain_deleted_ids_for_validation source =
     r_fold (\<lambda>i (b, output). r_bind (reserve_deleted_id i b) (\<lambda>b. Inr (b, output @ [i]))) (deleted_ids source)"

end
