(* ===== verification/Merge_Plan_Properties.thy ===== *)
theory Merge_Plan_Properties
  imports Merge_Plan Merge_Delete_Properties
begin

text \<open>
  The plan of a branch merge and its recovery sidecar agree: the transactions planned for a table pass the
  check recovery makes of them, and an accepted sidecar names every transaction once, in consecutive
  versions from the pinned one.
\<close>

section \<open>Chains of transactions\<close>

definition chain_from :: "u64 \<Rightarrow> staged_transaction_identity list \<Rightarrow> bool" where
  "chain_from v txs \<longleftrightarrow> (\<forall>i < length txs. unat (tx_read_version (txs ! i)) = unat v + i)"

lemma validate_chain_links_iff:
  "validate_chain_links mf pin n txs us = Inr us' \<longleftrightarrow>
     us' = rev (map tx_uuid txs) @ us \<and> distinct (map tx_uuid txs) \<and> [] \<notin> tx_uuid ` set txs \<and>
     tx_uuid ` set txs \<inter> set us = {} \<and>
     (\<forall>i < length txs. unat (tx_read_version (txs ! i)) = unat (pin_expected_version pin) + n + i)"
proof (induction txs arbitrary: n us)
  case (Cons tx txs)
  have "validate_chain_links mf pin n (tx # txs) us = Inr us' \<longleftrightarrow>
      tx_uuid tx \<noteq> [] \<and> tx_uuid tx \<notin> set us \<and>
      unat (tx_read_version tx) = unat (pin_expected_version pin) + n \<and>
      validate_chain_links mf pin (n + 1) txs (tx_uuid tx # us) = Inr us'"
  proof -
    have "(\<exists>off :: u64. unat off = n \<and> (\<exists>v. unat v = unat (pin_expected_version pin) + unat off \<and> tx_read_version tx = v \<and> P)) \<longleftrightarrow>
        unat (tx_read_version tx) = unat (pin_expected_version pin) + n \<and> P" for P :: bool and pin :: sidecar_table_pin
    proof safe
      assume "unat (tx_read_version tx) = unat (pin_expected_version pin) + n" and P
      moreover from this(1) have "unat (of_nat n :: u64) = n"
        using unat_below [of "tx_read_version tx"] by simp
      ultimately show "\<exists>off :: u64. unat off = n \<and> (\<exists>v. unat v = unat (pin_expected_version pin) + unat off \<and> tx_read_version tx = v \<and> P)"
        by metis
    qed
    then show ?thesis
      by (simp add: u64_try_from_Inr_iff checked_add_Some_iff)
  qed
  also have "\<dots> \<longleftrightarrow> us' = rev (map tx_uuid (tx # txs)) @ us \<and> distinct (map tx_uuid (tx # txs)) \<and>
     [] \<notin> tx_uuid ` set (tx # txs) \<and> tx_uuid ` set (tx # txs) \<inter> set us = {} \<and>
     (\<forall>i < length (tx # txs). unat (tx_read_version ((tx # txs) ! i)) = unat (pin_expected_version pin) + n + i)"
    unfolding Cons.IH by (auto simp: All_less_Suc2 less_Suc_eq_0_disj)
  finally show ?case .
qed auto

lemma validate_chain_iff:
  "validate_branch_merge_transaction_chain mf pin txs us = Inr (final, us') \<longleftrightarrow>
     txs \<noteq> [] \<and> length txs \<le> 1024 \<and> chain_from (pin_expected_version pin) txs \<and>
     unat (pin_post_commit_pin pin) = unat (pin_expected_version pin) + 1 \<and>
     unat final = unat (pin_expected_version pin) + length txs \<and>
     us' = rev (map tx_uuid txs) @ us \<and> distinct (map tx_uuid txs) \<and> [] \<notin> tx_uuid ` set txs \<and>
     tx_uuid ` set txs \<inter> set us = {}"
proof (cases txs)
  case Nil
  then show ?thesis by (auto simp: validate_branch_merge_transaction_chain_def)
next
  case (Cons tx rest)
  have max: "(\<exists>c. u64_try_from (length txs) e = Inr c \<and> \<not> MAX_BRANCH_MERGE_DATA_TRANSACTIONS < c \<and> P) \<longleftrightarrow>
      length txs \<le> 1024 \<and> P" for e P
    by (auto simp: u64_try_from_Inr_iff MAX_BRANCH_MERGE_DATA_TRANSACTIONS_def word_less_nat_alt
        intro!: exI [of _ "of_nat (length txs) :: u64"])
  have last: "last txs = txs ! (length txs - 1)" and len: "0 < length txs" using Cons by (simp_all add: last_conv_nth)
  have head: "tx = txs ! 0" using Cons by simp
  have first: "chain_from (pin_expected_version pin) txs \<Longrightarrow> tx_read_version tx = pin_expected_version pin"
    using len head by (force simp: chain_from_def word_unat_eq_iff)
  have "chain_from (pin_expected_version pin) txs \<Longrightarrow>
      unat (tx_read_version (last txs)) = unat (pin_expected_version pin) + (length txs - 1)"
    using len last by (simp add: chain_from_def)
  note final = this
  have chain: "validate_branch_merge_transaction_chain mf pin txs us = Inr (final, us') \<longleftrightarrow>
      length txs \<le> 1024 \<and> tx_read_version tx = pin_expected_version pin \<and>
      unat (pin_post_commit_pin pin) = unat (tx_read_version tx) + 1 \<and>
      validate_chain_links mf pin 0 txs us = Inr us' \<and> unat final = unat (tx_read_version (last txs)) + 1"
  proof -
    have "(case txs of [] \<Rightarrow> None | t # _ \<Rightarrow> Some t) = Some tx"
      "(if txs = [] then None else Some (last txs)) = Some (last txs)" using Cons by simp_all
    then show ?thesis
      using max [of _ "tx_read_version tx = pin_expected_version pin \<and>
      unat (pin_post_commit_pin pin) = unat (tx_read_version tx) + 1 \<and>
      validate_chain_links mf pin 0 txs us = Inr us' \<and> unat final = unat (tx_read_version (last txs)) + 1"]
      by (simp add: validate_branch_merge_transaction_chain_def checked_add_Some_iff)
  qed
  have links: "validate_chain_links mf pin 0 txs us = Inr us' \<longleftrightarrow>
      us' = rev (map tx_uuid txs) @ us \<and> distinct (map tx_uuid txs) \<and> [] \<notin> tx_uuid ` set txs \<and>
      tx_uuid ` set txs \<inter> set us = {} \<and> chain_from (pin_expected_version pin) txs"
    by (simp add: validate_chain_links_iff chain_from_def)
  show ?thesis
  proof (cases "chain_from (pin_expected_version pin) txs")
    case True
    have "unat (tx_read_version (last txs)) + 1 = unat (pin_expected_version pin) + length txs" using final [OF True] len by linarith
    with True first [OF True] len show ?thesis unfolding chain links by auto
  next
    case False
    then show ?thesis unfolding chain links by blast
  qed
qed

section \<open>The plan of a table\<close>

lemma plan_merge_Inr:
  assumes "plan_merge_transactions ulid key cand v = Inr txs"
  shows "candidate_transaction_count key cand = Inr (length txs)" and "txs \<noteq> []" and "length txs \<le> 1024"
    and "chain_from v txs" and "map tx_uuid txs = map (\<lambda>n. ''omnigraph-merge-'' @ ulid n) [0..<length txs]"
proof -
  let ?tx = "\<lambda>offset. r_bind (u64_try_from offset (ManifestInternal ''branch merge transaction count for {} exceeds u64'' [ArgText key])) (\<lambda>off.
       r_bind (ok_or (checked_add v off)
                (ManifestInternal ''branch merge transaction version overflow for {}'' [ArgText key])) (\<lambda>read_version.
       Inr (pre_minted_merge_transaction (ulid offset) read_version)))"
  obtain n where n: "candidate_transaction_count key cand = Inr n" "n \<noteq> 0" "n \<le> 1024" and txs: "r_map ?tx [0..<n] = Inr txs"
    using assms by (auto simp: plan_merge_transactions_def enforce_merge_transaction_ceiling_def u64_try_from_Inr_iff
        MAX_BRANCH_MERGE_DATA_TRANSACTIONS_def word_less_nat_alt)
  have len: "length txs = n" using r_map_Inr_length [OF txs] by simp
  have nth: "unat (tx_read_version (txs ! i)) = unat v + i \<and> tx_uuid (txs ! i) = ''omnigraph-merge-'' @ ulid i" if "i < n" for i
  proof -
    have "?tx i = Inr (txs ! i)"
      using txs that by (auto simp: r_map_Inr_iff list_all2_conv_all_nth)
    then obtain rv where "unat rv = unat v + i" and tx: "pre_minted_merge_transaction (ulid i) rv = txs ! i"
      by (auto simp: u64_try_from_Inr_iff checked_add_Some_iff)
    then show ?thesis by (simp add: pre_minted_merge_transaction_def flip: tx)
  qed
  show "candidate_transaction_count key cand = Inr (length txs)" "txs \<noteq> []" "length txs \<le> 1024"
    using n len by auto
  show "chain_from v txs" using nth len by (simp add: chain_from_def)
  show "map tx_uuid txs = map (\<lambda>n. ''omnigraph-merge-'' @ ulid n) [0..<length txs]"
    using nth len by (auto intro: nth_equalityI)
qed

text \<open>
  C7: the transactions planned for a table, one for every staged chunk and delete chunk, pass the check that
  recovery makes of them, with the version after the last of them as the end of the chain, as long as the
  minted ids are new and the versions fit in 64 bits.
\<close>
theorem merge_plan_passes_recovery:
  assumes plan: "plan_merge_transactions ulid key cand (pin_expected_version pin) = Inr txs"
    and fresh: "inj_on ulid {..<length txs}" "\<And>n. ''omnigraph-merge-'' @ ulid n \<notin> set us"
    and post: "pin_post_commit_pin pin = pin_expected_version pin + 1"
    and fits: "unat (pin_expected_version pin) + length txs < 2 ^ 64"
  shows "validate_branch_merge_transaction_chain mf pin txs us =
      Inr (pin_expected_version pin + of_nat (length txs), rev (map tx_uuid txs) @ us) \<and>
    candidate_transaction_count key cand = Inr (length txs)"
proof -
  note p = plan_merge_Inr [OF plan]
  have one: "1 \<le> length txs" using p(2) by (cases txs) auto
  have "unat (pin_post_commit_pin pin) = unat (pin_expected_version pin) + 1"
    using post fits one by (simp add: unat_word_ariths)
  moreover have "unat (pin_expected_version pin + of_nat (length txs)) = unat (pin_expected_version pin) + length txs"
    using fits p(3) by (simp add: unat_word_ariths)
  moreover have "distinct (map tx_uuid txs)"
    using fresh(1) unfolding p(5) by (auto simp: distinct_map inj_on_def lessThan_def)
  moreover have uuids: "tx_uuid ` set txs = (\<lambda>n. ''omnigraph-merge-'' @ ulid n) ` set [0..<length txs]"
    using arg_cong [OF p(5), of set] by simp
  moreover have "[] \<notin> tx_uuid ` set txs" "tx_uuid ` set txs \<inter> set us = {}"
    unfolding uuids using fresh(2) by auto
  ultimately show ?thesis using p(1-4) by (simp add: validate_chain_iff)
qed

section \<open>Accepted merge sidecars\<close>

text \<open>The transactions planned for the table of a pin.\<close>

fun kind_transactions :: "recovery_branch_merge_effect_kind \<Rightarrow> staged_transaction_identity list" where
  "kind_transactions (MultiCommitHead source txs confirmed ident) = txs"
| "kind_transactions (RefOnlyFork version ident) = []"

definition pin_transactions :: "recovery_protocol_v4 \<Rightarrow> sidecar_table_pin \<Rightarrow> staged_transaction_identity list" where
  "pin_transactions p pin =
     (case find (\<lambda>e. bme_identity e = pin_identity pin) (p4_effects p) of
        None \<Rightarrow> [] | Some e \<Rightarrow> kind_transactions (bme_kind e))"

lemma validate_merge_pin_Inr:
  assumes "validate_merge_pin mf p pin us = Inr us'"
  shows "us' = rev (map tx_uuid (pin_transactions p pin)) @ us" and "distinct (map tx_uuid (pin_transactions p pin))"
    and "tx_uuid ` set (pin_transactions p pin) \<inter> set us = {}" and "length (pin_transactions p pin) \<le> 1024"
    and "chain_from (pin_expected_version pin) (pin_transactions p pin)"
    and "p4_effect_phase p = EffectsConfirmed \<Longrightarrow> pin_transactions p pin \<noteq> [] \<Longrightarrow>
      \<exists>v. pin_confirmed_version pin = Some v \<and> unat (pin_expected_version pin) + length (pin_transactions p pin) \<le> unat v"
proof -
  obtain e slot where e: "find (\<lambda>e. bme_identity e = pin_identity pin) (p4_effects p) = Some e"
    and eff: "validate_merge_effect mf (p4_effect_phase p) pin slot (bme_kind e) us = Inr us'"
    using assms by (auto simp: validate_merge_pin_def)
  have txs: "pin_transactions p pin = kind_transactions (bme_kind e)" using e by (simp add: pin_transactions_def)
  have "(us' = rev (map tx_uuid (kind_transactions (bme_kind e))) @ us \<and> distinct (map tx_uuid (kind_transactions (bme_kind e))) \<and>
      tx_uuid ` set (kind_transactions (bme_kind e)) \<inter> set us = {} \<and> length (kind_transactions (bme_kind e)) \<le> 1024 \<and>
      chain_from (pin_expected_version pin) (kind_transactions (bme_kind e))) \<and>
      (p4_effect_phase p = EffectsConfirmed \<longrightarrow> kind_transactions (bme_kind e) \<noteq> [] \<longrightarrow>
      (\<exists>v. pin_confirmed_version pin = Some v \<and> unat (pin_expected_version pin) + length (kind_transactions (bme_kind e)) \<le> unat v))"
  proof (cases "bme_kind e")
    case (MultiCommitHead source planned confirmed ident)
    then obtain final us1 where chain: "validate_branch_merge_transaction_chain mf pin planned us = Inr (final, us1)"
      and rest: "us1 = us'" "p4_effect_phase p = EffectsConfirmed \<Longrightarrow> \<exists>v. pin_confirmed_version pin = Some v \<and> \<not> v < final"
      using eff by (cases "p4_effect_phase p") (auto simp: validate_merge_effect_def)
    show ?thesis
      using chain [unfolded validate_chain_iff] rest MultiCommitHead by (auto simp: word_less_nat_alt not_less)
  next
    case (RefOnlyFork version ident)
    then show ?thesis using eff by (auto simp: validate_merge_effect_def chain_from_def split: recovery_effect_phase.splits)
  qed
  then show "us' = rev (map tx_uuid (pin_transactions p pin)) @ us" "distinct (map tx_uuid (pin_transactions p pin))"
    "tx_uuid ` set (pin_transactions p pin) \<inter> set us = {}" "length (pin_transactions p pin) \<le> 1024"
    "chain_from (pin_expected_version pin) (pin_transactions p pin)"
    "p4_effect_phase p = EffectsConfirmed \<Longrightarrow> pin_transactions p pin \<noteq> [] \<Longrightarrow>
      \<exists>v. pin_confirmed_version pin = Some v \<and> unat (pin_expected_version pin) + length (pin_transactions p pin) \<le> unat v"
    unfolding txs by blast+
qed

lemma validate_merge_pins_Inr:
  assumes "r_fold (validate_merge_pin mf p) pins us = Inr us'"
  shows "distinct (concat (map (\<lambda>pin. map tx_uuid (pin_transactions p pin)) pins)) \<and>
    set (concat (map (\<lambda>pin. map tx_uuid (pin_transactions p pin)) pins)) \<inter> set us = {}"
  using assms
proof (induction pins arbitrary: us)
  case (Cons pin pins)
  then obtain us1 where one: "validate_merge_pin mf p pin us = Inr us1"
    and rest: "r_fold (validate_merge_pin mf p) pins us1 = Inr us'" by auto
  note v = validate_merge_pin_Inr(1-3) [OF one]
  have "set us1 = tx_uuid ` set (pin_transactions p pin) \<union> set us" using v(1) by auto
  with Cons.IH [OF rest] v(2,3) show ?case by (simp add: Int_Un_distrib Int_Un_distrib2 Int_commute)
qed simp

text \<open>
  C8: in an accepted branch merge sidecar no two planned transactions share an id, within or across tables;
  every table's transactions read consecutive versions from the pinned one, at most 1024 of them; and once
  the effects are confirmed, the confirmed version of a table is at or past the end of its chain.
\<close>
theorem accepted_merge_transactions:
  assumes valid: "validate_branch_merge_v4_shape uri s = Inr ()" and p: "rs_protocol_v4 s = Some p"
  shows "distinct (concat (map (\<lambda>pin. map tx_uuid (pin_transactions p pin)) (rs_tables s))) \<and>
    (\<forall>pin \<in> set (rs_tables s).
       length (pin_transactions p pin) \<le> 1024 \<and> chain_from (pin_expected_version pin) (pin_transactions p pin) \<and>
       (p4_effect_phase p = EffectsConfirmed \<and> pin_transactions p pin \<noteq> [] \<longrightarrow>
          (\<exists>v. pin_confirmed_version pin = Some v \<and>
               unat (pin_expected_version pin) + length (pin_transactions p pin) \<le> unat v)))"
proof -
  obtain us where fold: "r_fold (validate_merge_pin (malformed uri s) p) (rs_tables s) [] = Inr us"
    using valid p by (auto simp: validate_branch_merge_v4_shape_def Let_def)
  show ?thesis
    using validate_merge_pins_Inr [OF fold] r_fold_in [OF fold] validate_merge_pin_Inr(4-6) [of "malformed uri s" p]
    by blast
qed

section \<open>Identities and the validation budget\<close>

lemma observe_identities_iff:
  "observe_identities key is (Some i) = Inr () \<longleftrightarrow> (\<forall>j \<in> set is. j = i)"
  by (induction "is") auto

text \<open>
  A table may be merged only if every one of base, source and target that has the table has it with the same
  identity.
\<close>
theorem merge_identity_compatible_iff:
  "ensure_merge_identity_compatible key base source target = Inr () \<longleftrightarrow>
     (\<forall>i j. Some i \<in> {base, source, target} \<longrightarrow> Some j \<in> {base, source, target} \<longrightarrow> i = j)"
  by (cases base; cases source; cases target)
    (auto simp: ensure_merge_identity_compatible_def map_filter_simps observe_identities_iff split: if_splits)

lemma reserve_deleted_id_fits:
  assumes "unat (mb_retained_bytes b) + length i + 24 \<le> unat (mb_limit b)"
  shows "\<exists>b'. reserve_deleted_id i b = Inr b' \<and> mb_limit b' = mb_limit b \<and>
    unat (mb_retained_bytes b') = unat (mb_retained_bytes b) + length i + 24"
proof -
  let ?w = "\<lambda>n. of_nat n :: u64"
  have small: "unat (mb_retained_bytes b) + length i + 24 < 18446744073709551616"
    using assms unat_below [of "mb_limit b"] by linarith
  then have nats: "unat (?w (length i)) = length i" "unat (?w (length i + 24)) = length i + 24"
    "unat (?w (unat (mb_retained_bytes b) + length i + 24)) = unat (mb_retained_bytes b) + length i + 24"
    by (simp_all only: unat_u64_of_nat)
  have "checked_add (?w (length i)) 24 = Some (?w (length i + 24))"
    "checked_add (mb_retained_bytes b) (?w (length i + 24)) = Some (?w (unat (mb_retained_bytes b) + length i + 24))"
    using nats by (simp_all only: checked_add_Some_iff) simp_all
  moreover have "u64_try_from (length i) e = Inr (?w (length i))" "u64_try_from size_of_String e = Inr 24" for e
    using small by (simp_all add: u64_try_from_def size_of_String_def)
  moreover have "\<not> mb_limit b < ?w (unat (mb_retained_bytes b) + length i + 24)"
    using assms nats(3) by (simp only: word_less_nat_alt not_less)
  ultimately show ?thesis
    using nats(3) by (simp only: reserve_deleted_id_def budget_reserve_def r_bind.simps ok_or_Some guard_True simp_thms) simp
qed

lemma retain_ids_fits:
  assumes "unat (mb_retained_bytes b) + sum_list (map (\<lambda>i. length i + 24) is) \<le> unat (mb_limit b)"
  shows "\<exists>b'. r_fold (\<lambda>i (b, output). r_bind (reserve_deleted_id i b) (\<lambda>b. Inr (b, output @ [i]))) is (b, out) = Inr (b', out @ is) \<and>
    unat (mb_retained_bytes b') = unat (mb_retained_bytes b) + sum_list (map (\<lambda>i. length i + 24) is)"
  using assms
proof (induction "is" arbitrary: b out)
  case (Cons i "is")
  then obtain b1 where one: "reserve_deleted_id i b = Inr b1" "mb_limit b1 = mb_limit b"
    "unat (mb_retained_bytes b1) = unat (mb_retained_bytes b) + length i + 24"
    using reserve_deleted_id_fits [of b i] by auto
  with Cons.IH [of b1 "out @ [i]"] Cons.prems show ?case by auto
qed simp

text \<open>
  C11: every delete plan that could be built fits the validation budget of a merge with nothing else retained: all of
  its ids are handed to validation, charged at their length and one string slot each.
\<close>
theorem delete_plan_fits_validation_budget:
  assumes "r_fold (\<lambda>i s. push_delete_id s i) ids delete_id_chunks_default = Inr plan"
  shows "\<exists>b. retain_deleted_ids_for_validation plan (merge_validation_budget_default, []) = Inr (b, ids) \<and>
    unat (mb_retained_bytes b) = sum_list (map (\<lambda>i. length i + 24) ids)"
proof -
  have ok: "plan_ok KEYED_WRITE_MAX_ROWS KEYED_WRITE_MAX_BYTES KEYED_WRITE_MAX_BYTES ids plan"
    using plan_ok_fold [OF _ plan_ok_default, where js = ids] assms
    by (simp add: push_delete_id_def push_bounded_def)
  have "sum_list (map (\<lambda>i. length i + 24) ids) \<le> sum_list (map (\<lambda>i. length i + 48) ids)"
    by (induction ids) auto
  also have "\<dots> \<le> unat KEYED_WRITE_MAX_BYTES"
    using ok by (auto simp: plan_ok_def word_le_nat_alt)
  finally have "sum_list (map (\<lambda>i. length i + 24) ids) \<le> unat KEYED_WRITE_MAX_BYTES" .
  then show ?thesis
    using retain_ids_fits [of merge_validation_budget_default ids "[]"] ok
    by (simp add: retain_deleted_ids_for_validation_def merge_validation_budget_default_def plan_ok_def)
qed

end
