(* ===== verification/Sample_Recovery.thy ===== *)
theory Sample_Recovery
  imports Sample_Merge Recovery_Confirm Merge_Plan_Properties
begin

text \<open>
  A write to two tables with its recovery sidecar, and the plan of a merge: the instances show that the
  hypotheses of the recovery theorems hold together.
\<close>

definition sample_pin :: "string \<Rightarrow> u64 \<Rightarrow> string \<Rightarrow> sidecar_table_pin" where
  "sample_pin key n path =
     \<lparr>pin_identity = \<lparr>ti_stable_table_id = n, ti_table_incarnation_id = 1\<rparr>, pin_table_key = key, pin_table_path = path,
      pin_expected_version = 4, pin_post_commit_pin = 5, pin_confirmed_version = None, pin_table_branch = None\<rparr>"

definition sample_pins :: "sidecar_table_pin list" where
  "sample_pins =
     [sample_pin ''node:Person'' 1 ''/g/nodes/0000000000000001-0000000000000001'',
      sample_pin ''edge:Knows'' 26 ''/g/edges/000000000000001a-0000000000000001'']"

definition sample_transactions :: "(table_identity, staged_transaction_identity) hmap" where
  "sample_transactions =
     map (\<lambda>pin. (pin_identity pin, \<lparr>tx_read_version = 4, tx_uuid = pin_table_key pin\<rparr>)) sample_pins"

definition sample_authority :: recovery_authority_token where
  "sample_authority =
     \<lparr>auth_branch_identifier = [], auth_graph_head = None, auth_schema_identity_domain = ''d'',
      auth_schema_ir_hash = ''h'', auth_schema_identity_version = 1\<rparr>"

definition sample_lineage :: "string option \<Rightarrow> recovery_lineage_intent" where
  "sample_lineage parent =
     \<lparr>lin_graph_commit_id = ''c1'', lin_branch = None, lin_actor_id = None,
      lin_merged_parent_commit_id = parent, lin_created_at = 0\<rparr>"

definition sample_arm :: "omni_error + recovery_sidecar" where
  "sample_arm =
     new_occ_sidecar_v9 ''op'' ''0'' ''c2'' MutationWriter None None sample_pins sample_authority (sample_lineage None)
       sample_transactions"

definition sample_updates :: "sub_table_update list" where
  "sample_updates =
     map (\<lambda>pin. \<lparr>up_identity = pin_identity pin, up_table_key = pin_table_key pin, up_table_version = 5,
                 up_table_branch = None, up_row_count = 3,
                 up_version_metadata = \<lparr>tvm_manifest_path = ''m'', tvm_manifest_size = None, tvm_e_tag = None,
                   tvm_naming_scheme = None\<rparr>\<rparr>) sample_pins"

definition sample_confirm :: "recovery_sidecar \<Rightarrow> omni_error + recovery_sidecar" where
  "sample_confirm s = confirm_occ_sidecar_v9 (\<lambda>uri s. Inr ()) ''/g/'' s sample_updates sample_transactions"

definition sample_observation :: "table_identity \<Rightarrow> table_observation" where
  "sample_observation i = \<lparr>ob_manifest_pinned = 4, ob_lance_head = 5, ob_transaction = hm_get sample_transactions i\<rparr>"

definition sample_snapshot_entries :: snapshot where
  "sample_snapshot_entries =
     map (\<lambda>pin. \<lparr>ste_identity = pin_identity pin, ste_table_key = pin_table_key pin, ste_table_path = pin_table_path pin,
                 ste_table_version = 4, ste_table_branch = None, ste_row_count = 2,
                 ste_version_metadata = \<lparr>tvm_manifest_path = ''m'', tvm_manifest_size = None, tvm_e_tag = None,
                   tvm_naming_scheme = None\<rparr>\<rparr>) sample_pins"

definition sample_probe :: head_probe where
  "sample_probe path branch planned allow_branch allow_dataset =
     Inr (Some \<lparr>lo_version = 5, lo_transaction = map_option (\<lambda>(v, tx, pinned). tx) planned, lo_effect_ownership = OwnAtHead\<rparr>)"

lemma sample_written:
  "case r_bind sample_arm sample_confirm of Inl e \<Rightarrow> False
   | Inr s \<Rightarrow> validate_sidecar_shape ''u'' s = Inr () \<and> occ_writer s \<and> rs_schema_version s = 9 \<and>
       validate_identity_aware_pin_paths ''/g/'' ''u'' s = Inr () \<and> rs_tables s \<noteq> [] \<and>
       \<not> isl (classify_sidecar_tables sample_probe sample_snapshot_entries s) \<and>
       list_all (\<lambda>pin. landed_as_confirmed s (observed sample_probe sample_snapshot_entries s pin) pin) (rs_tables s)"
  by code_simp

lemma sample_run:
  obtains s s' where "sample_arm = Inr s" "sample_confirm s = Inr s'" "validate_sidecar_shape ''u'' s' = Inr ()"
    "occ_writer s'" "rs_schema_version s' = 9" "validate_identity_aware_pin_paths ''/g/'' ''u'' s' = Inr ()"
    "rs_tables s' \<noteq> []" "\<not> isl (classify_sidecar_tables sample_probe sample_snapshot_entries s')"
    "\<forall>pin \<in> set (rs_tables s'). landed_as_confirmed s' (observed sample_probe sample_snapshot_entries s' pin) pin"
proof (cases sample_arm)
  case (Inl e)
  show ?thesis using sample_written [unfolded Inl r_bind.simps sum.case] by (rule FalseE)
next
  case (Inr s)
  note run = sample_written [unfolded Inr r_bind.simps]
  show ?thesis
  proof (cases "sample_confirm s")
    case (Inl e)
    show ?thesis using run [unfolded Inl sum.case] by (rule FalseE)
  next
    case confirmed: (Inr s')
    from run [unfolded confirmed sum.case] that [OF Inr confirmed] show ?thesis by (simp add: list_all_iff)
  qed
qed

theorem occ_decision_all_or_nothing_witness:
  "\<exists>s states. validate_sidecar_shape ''u'' s = Inr () \<and> occ_writer s \<and> rs_tables s \<noteq> [] \<and>
     classify_sidecar_tables sample_probe sample_snapshot_entries s = Inr states \<and>
     decide (map ct_classification states) = RollForward"
proof -
  obtain s s' where r: "validate_sidecar_shape ''u'' s' = Inr ()" "occ_writer s'" "rs_tables s' \<noteq> []"
    "\<not> isl (classify_sidecar_tables sample_probe sample_snapshot_entries s')"
    "\<forall>pin \<in> set (rs_tables s'). landed_as_confirmed s' (observed sample_probe sample_snapshot_entries s' pin) pin"
    by (rule sample_run)
  obtain states where states: "classify_sidecar_tables sample_probe sample_snapshot_entries s' = Inr states"
    using r(4) by (cases "classify_sidecar_tables sample_probe sample_snapshot_entries s'") auto
  from occ_decision_all_or_nothing [OF r(1,2) states] r(1-3,5) states show ?thesis by blast
qed

theorem accepted_pins_own_distinct_paths_witness:
  "\<exists>s. validate_sidecar_shape ''u'' s = Inr () \<and> validate_identity_aware_pin_paths ''/g/'' ''u'' s = Inr () \<and>
     distinct (map pin_table_path (rs_tables s))"
proof -
  obtain s s' where r: "validate_sidecar_shape ''u'' s' = Inr ()" "rs_schema_version s' = 9"
    "validate_identity_aware_pin_paths ''/g/'' ''u'' s' = Inr ()"
    by (rule sample_run)
  from accepted_pins_own_distinct_paths [OF r] r show ?thesis by blast
qed

theorem occ_sidecar_lifecycle_witness:
  "\<exists>s s'. sample_arm = Inr s \<and> sample_confirm s = Inr s' \<and>
     decide (classify_sidecar s (\<lambda>pin. sample_observation (pin_identity pin))) \<noteq> RollForward \<and>
     decide (classify_sidecar s' (\<lambda>pin. sample_observation (pin_identity pin))) = RollForward"
proof -
  obtain s s' where r: "sample_arm = Inr s" "sample_confirm s = Inr s'" by (rule sample_run)
  have "\<forall>pin \<in> set sample_pins. ob_manifest_pinned (sample_observation (pin_identity pin)) = pin_expected_version pin \<and>
      pin_expected_version pin < pin_post_commit_pin pin \<and>
      ob_lance_head (sample_observation (pin_identity pin)) = pin_post_commit_pin pin \<and>
      ob_transaction (sample_observation (pin_identity pin)) = hm_get sample_transactions (pin_identity pin)"
    by (simp add: sample_observation_def sample_pins_def sample_pin_def)
  with occ_sidecar_lifecycle [OF r(1) [unfolded sample_arm_def] r(2) [unfolded sample_confirm_def],
      of "\<lambda>pin. sample_observation (pin_identity pin)" sample_observation] r
  show ?thesis by blast
qed

theorem confirm_occ_exactly_the_plan_witness:
  "\<exists>s. sample_arm = Inr s \<and> occ_plan_met s sample_updates sample_transactions \<and>
     sample_confirm s = Inr (conf_sidecar sample_updates sample_transactions s)"
proof -
  obtain s s' where r: "sample_arm = Inr s" "sample_confirm s = Inr s'" by (rule sample_run)
  note new = new_occ_sidecar [OF r(1) [unfolded sample_arm_def]]
  obtain p where p: "rs_protocol_v3 s = Some p" "p3_effect_phase p = Armed" using new(5) by blast
  have "validate_sidecar_shape (sidecar_uri ''/g/'' (rs_operation_id s)) s = Inr ()"
    using r(2) by (auto simp: sample_confirm_def confirm_occ_sidecar_v9_def Let_def)
  from confirm_occ_exactly_the_plan [OF this new(2) p, of "\<lambda>uri s. Inr ()" sample_updates sample_transactions s'] r
  show ?thesis by (auto simp: sample_confirm_def)
qed

section \<open>A merge\<close>

definition sample_delete_plan :: delete_id_chunks where
  "sample_delete_plan = \<lparr>ds_chunks = replicate 2 \<lparr>dc_ids = [''a''], dc_filter_bytes = 14\<rparr>, ds_retained_bytes = 0\<rparr>"

definition sample_ulid :: "nat \<Rightarrow> string" where
  "sample_ulid n = replicate n (CHR ''x'')"

definition sample_merge_pin :: sidecar_table_pin where
  "sample_merge_pin = sample_pin ''node:Person'' 1 ''/g/nodes/0000000000000001-0000000000000001''"

definition sample_candidate :: "sample_table candidate_table_state" where
  "sample_candidate = RewriteMerged \<lparr>sr_delta_staged = None, sr_deleted_ids = sample_delete_plan\<rparr>"

definition sample_merge_plan :: "omni_error + staged_transaction_identity list" where
  "sample_merge_plan = plan_merge_transactions sample_ulid ''node:Person'' sample_candidate 4"

lemma sample_plan_ok: "\<exists>txs. sample_merge_plan = Inr txs \<and> length txs = 2"
proof -
  have "case sample_merge_plan of Inl e \<Rightarrow> False | Inr txs \<Rightarrow> length txs = 2" by code_simp
  then show ?thesis by (auto split: sum.splits)
qed

theorem merge_plan_passes_recovery_witness:
  "\<forall>s. \<exists>txs. sample_merge_plan = Inr txs \<and>
     validate_branch_merge_transaction_chain (malformed ''u'' s) sample_merge_pin txs [] = Inr (6, rev (map tx_uuid txs))"
proof
  fix s
  obtain txs where txs: "sample_merge_plan = Inr txs" "length txs = 2" using sample_plan_ok by blast
  have pin: "pin_expected_version sample_merge_pin = 4" "pin_post_commit_pin sample_merge_pin = 5"
    by (simp_all add: sample_merge_pin_def sample_pin_def)
  have plan: "plan_merge_transactions sample_ulid ''node:Person'' sample_candidate (pin_expected_version sample_merge_pin) = Inr txs"
    using txs(1) by (simp add: sample_merge_plan_def pin)
  have "inj_on sample_ulid {..<length txs}" by (auto simp: inj_on_def sample_ulid_def)
  with merge_plan_passes_recovery [OF plan, of "[]" "malformed ''u'' s"] txs pin
  show "\<exists>txs. sample_merge_plan = Inr txs \<and>
     validate_branch_merge_transaction_chain (malformed ''u'' s) sample_merge_pin txs [] = Inr (6, rev (map tx_uuid txs))" by auto
qed

definition sample_merge_sidecar :: "omni_error + recovery_sidecar" where
  "sample_merge_sidecar =
     r_bind sample_merge_plan (\<lambda>txs.
     new_branch_merge_sidecar_v9 ''op'' ''0'' ''c2'' None None [sample_merge_pin] sample_authority (sample_lineage (Some ''c0''))
       [\<lparr>bme_identity = pin_identity sample_merge_pin, bme_table_key = ''node:Person'',
         bme_kind = MultiCommitHead None txs None None\<rparr>]
       \<lparr>md_table_updates = [armed_slot sample_merge_pin], md_registrations = [], md_renames = [], md_tombstones = []\<rparr>)"

theorem accepted_merge_transactions_witness:
  "\<exists>s p. sample_merge_sidecar = Inr s \<and> rs_protocol_v4 s = Some p \<and>
     distinct (concat (map (\<lambda>pin. map tx_uuid (pin_transactions p pin)) (rs_tables s)))"
proof -
  have "case sample_merge_sidecar of Inl e \<Rightarrow> False
      | Inr s \<Rightarrow> validate_branch_merge_v4_shape ''u'' s = Inr () \<and> rs_protocol_v4 s \<noteq> None" by code_simp
  then obtain s p where s: "sample_merge_sidecar = Inr s" "validate_branch_merge_v4_shape ''u'' s = Inr ()" "rs_protocol_v4 s = Some p"
    by (auto split: sum.splits)
  from accepted_merge_transactions [OF s(2,3)] s(1,3) show ?thesis by blast
qed

theorem delete_plan_fits_validation_budget_witness:
  "\<exists>plan b. r_fold (\<lambda>i s. push_delete_id s i) [''a'', ''bc''] delete_id_chunks_default = Inr plan \<and>
     retain_deleted_ids_for_validation plan (merge_validation_budget_default, []) = Inr (b, [''a'', ''bc''])"
proof -
  have "case r_fold (\<lambda>i s. push_delete_id s i) [''a'', ''bc''] delete_id_chunks_default of
      Inl e \<Rightarrow> False | Inr r \<Rightarrow> True" by code_simp
  then obtain plan where plan: "r_fold (\<lambda>i s. push_delete_id s i) [''a'', ''bc''] delete_id_chunks_default = Inr plan"
    by (auto split: sum.splits)
  from delete_plan_fits_validation_budget [OF plan] plan show ?thesis by blast
qed

end
