(* ===== verification/Spec2Isabelle.thy ===== *)
theory Spec2Isabelle
  imports Sample_Catalog Catalog_Properties Mutation_Properties Findings Sample_Plan Sample_Commits Sample_Index
    Sample_Branches Sample_Recovery
begin

text \<open>
  A verification library for Omnigraph, a typed graph database on Lance tables
  (\<^verbatim>\<open>src/crates/\<close>). A schema file is compiled to a canonical shape and resolved against the
  accepted schema to stable identities; the planner turns the difference of two accepted schemas
  into migration steps; queries and mutations are type checked against the catalog of the
  accepted schema and lowered to a pipeline of operators, which the engine runs over the tables
  of a branch with the help of a topology index; branches are refs of a Lance dataset with a
  commit lineage, and a merge finds the base in the lineages and merges the tables row by row.

  \<^bold>\<open>Conventions.\<close> Rust's \<^verbatim>\<open>Result\<close> is a sum with the error on the left, \<^verbatim>\<open>?\<close> is \<open>r_bind\<close>, a loop
  with early exit \<open>r_fold\<close> (\<open>Prelude\<close>). Structs are records, enums datatypes, machine integers words
  of their width; a panic is an error value of its own, so that its absence can be proved. Hash
  maps are association lists with one entry per key, so theorems that hold for every such list do
  not depend on an iteration order; \<^verbatim>\<open>BTreeMap\<close> is an ascending association list (\<open>Ordered_Map\<close>).
  Strings are lists of bytes. 64-bit floats are compared by their bits. Error messages are kept as
  the values they are formatted from.

  \<^bold>\<open>Compiler\<close> (\<^verbatim>\<open>omnigraph-compiler/src/\<close>).
  \<^item> \<open>Types\<close> (\<^verbatim>\<open>types.rs\<close>), \<open>Schema_Ast\<close>, \<open>Query_Ast\<close>, \<open>Errors\<close>: the data of the compiler.
  \<^item> \<open>Catalog\<close>, \<open>Catalog_IR\<close> (\<^verbatim>\<open>catalog/mod.rs\<close>): the catalog and its two builders, from declarations
    and from an accepted schema; \<open>Catalog_Properties\<close>: a built catalog is well formed and holds what
    was declared, and exactly which schemas have one.
  \<^item> \<open>Schema_IR\<close>, \<open>Schema_Validate\<close>, \<open>Schema_Resolve\<close> (\<^verbatim>\<open>catalog/schema_ir.rs\<close>) and \<open>Schema_Shape\<close>
    (\<^verbatim>\<open>catalog/schema_shape.rs\<close>): the identity layer. \<open>Schema_Shape_Properties\<close>: the shape does not depend
    on the order of declarations. \<open>Schema_Validate_Facts\<close>: what a validated schema satisfies.
    \<open>Schema_Resolve_Facts\<close>, \<open>Schema_Resolution\<close>, \<open>Schema_Resolution_Properties\<close>: identities are kept by
    name or rename hint, otherwise fresh, and never come back. \<open>Schema_Stability\<close>: resolving a shape
    against its own result changes nothing, and no input makes the layer panic, if annotations
    serialize to JSON.
  \<^item> \<open>Schema_Lint\<close> (\<^verbatim>\<open>lint/\<close>), \<open>Schema_Plan\<close> (\<^verbatim>\<open>catalog/schema_plan.rs\<close>): the planner. \<open>Schema_Plan_Facts\<close>,
    \<open>Schema_Compatible\<close>, \<open>Schema_Plan_Properties\<close>: a plan is supported exactly when the schemas are
    compatible, reports exactly the drops, is empty exactly for equal schemas, and never fails on a
    resolved evolution.
  \<^item> \<open>Typecheck_Expr\<close>, \<open>Typecheck_Mutation\<close>, \<open>Typecheck\<close> (\<^verbatim>\<open>query/typecheck.rs\<close>): the type checker.
    \<open>Typecheck_Properties\<close>, \<open>Mutation_Properties\<close>: what accepted queries and mutations satisfy, exact
    characterisations of acceptance, termination of the alias walks.
  \<^item> \<open>IR\<close>, \<open>Lower\<close> (\<^verbatim>\<open>ir/\<close>): the plan and the lowering. \<open>Lower_Facts\<close>, \<open>Lower_Clauses\<close>,
    \<open>Lower_Properties\<close>, \<open>Lower_Contains\<close>: an accepted query lowers without error or panic to a scoped
    pipeline that introduces every binding and places every connected traversal, with projections
    and orderings that read back as those of the source. \<open>Findings\<close>: queries on which the compiler does not do what its comments say.

  \<^bold>\<open>Engine\<close> (\<^verbatim>\<open>omnigraph/src/\<close>).
  \<^item> \<open>Commit_Graph\<close> (\<^verbatim>\<open>db/commit_graph.rs\<close>, \<^verbatim>\<open>db/manifest/state.rs\<close>, the decision of \<^verbatim>\<open>exec/merge.rs\<close>): the
    lineage cache. \<open>Commit_Graph_Facts\<close>, \<open>Commit_Graph_Properties\<close>: distances are shortest paths, the
    merge base is a nearest common ancestor, the cache is what a reload builds. \<open>Branch_History\<close>: a
    step relation of commits, forks and merges; two branches always have a base, and the outcome of
    a merge is sound.
  \<^item> \<open>Graph_Index\<close> (\<^verbatim>\<open>graph_index/mod.rs\<close>): type indices and compressed sparse rows.
    \<open>Graph_Index_Facts\<close>, \<open>Graph_Index_Build\<close>: the index answers as a scan of the edge tables would.
  \<^item> \<open>Branch_Control\<close> (\<^verbatim>\<open>branch_control.rs\<close>, \<^verbatim>\<open>failpoints.rs\<close>): creating and deleting branches over calls
    that fail after taking effect. \<open>Branch_Control_Properties\<close>: no other ref is touched, success
    means what it says, live names stay apart as paths.
  \<^item> \<open>Merge_Delete\<close>, \<open>Merge_Cursor\<close>, \<open>Merge_Writer\<close>, \<open>Row_Merge\<close> (\<^verbatim>\<open>exec/merge.rs\<close>): the row merge.
    \<open>Merge_Delete_Properties\<close>: the delete plan is exact and its filters read back as the ids.
    \<open>Row_Merge_Facts\<close>: the cursor loops are folds over the ids. \<open>Row_Merge_Properties\<close>,
    \<open>Row_Adopt_Properties\<close>: conflicts are exactly the diverging ids, and otherwise what is staged, for
    tables without blob columns, turns the target into the pointwise merge, or the base into the
    source; a change that keeps the signature of a row is lost.
  \<^item> \<open>Merge_Plan\<close> (\<^verbatim>\<open>exec/merge.rs\<close>): the identity guard, the transactions planned for a table and the
    validation budget. \<open>Merge_Plan_Properties\<close>: a plan passes the check of recovery, an accepted merge
    sidecar names each transaction once in consecutive versions, a delete plan fits the budget.
  \<^item> \<open>Recovery_Data\<close>, \<open>Recovery_Shape\<close>, \<open>Recovery_Decide\<close> (\<^verbatim>\<open>db/manifest/recovery.rs\<close>, identities from
    \<^verbatim>\<open>db/manifest.rs\<close>): the sidecar of a write, the shapes accepted for every writer and generation,
    arming, confirming, classifying and deciding. \<open>Recovery_Facts\<close>: validation never panics, a path
    determines its identity. \<open>Recovery_Properties\<close>, \<open>Recovery_Confirm\<close>: the decision is all-or-nothing,
    confirmation succeeds exactly on the plan, and the decision is to roll forward only once the sidecar
    is confirmed and exactly when every table is where its planned transaction left it.

  \<^bold>\<open>Interfaces\<close> are locales, each interpreted on the model: \<open>keyed_store\<close> (hash and ordered maps),
  \<open>checked_loop\<close> (passes that keep an invariant), \<open>row_source\<close> (reading a table row by row),
  \<open>three_way_walk\<close> and \<open>two_way_walk\<close> (the four merge loops), and those of the identity layer, the
  lowering and the commit graph in their theories. \<open>Sample\<close> and the theories \<open>Sample_*\<close> hold closed
  instances of the theorems on small inputs.

  \<^bold>\<open>Parameters.\<close> Code outside the repository is an argument: \<open>codec\<close> (\<^verbatim>\<open>serde_json\<close>, ULID parsing, the
  decimal text of a float), \<open>read_lineage\<close>, \<open>has_entry\<close> and \<open>scan\<close> (tables of the index), \<open>lance\<close>
  (native branch calls, with \<open>lance_laws\<close>), \<open>arrow\<close>, \<open>table_access\<close> and \<open>staging\<close> (columns, ordered scans,
  appends and blob payloads of a merge, with \<open>staging_laws\<close>), \<open>head_probe\<close> and \<open>write_text\<close> (the HEAD of
  a table and the write of a sidecar), clocks and minted ids. The laws state documented behaviour
  and are shown satisfiable by the samples.

  \<^bold>\<open>Bounds.\<close> No definition uses fuel: every loop is structural or has a measure. Distances are exact
  below \<open>2\<^sup>6\<^sup>4 - 1\<close> commits, sums of two distances below \<open>2\<^sup>6\<^sup>3\<close>; the index is exact below \<open>2\<^sup>3\<^sup>2\<close> edges
  and \<open>2\<^sup>3\<^sup>1\<close> rows, the widths of its counters; a push to the delete plan is refused only by its limits
  for ids below \<open>2\<^sup>6\<^sup>2\<close> bytes. Merges compare rows by signature, and different rows can have one
  signature, so what counts as a change is stated by signatures.

  \<^bold>\<open>Not modelled.\<close> The parsers (generated from grammars), JSON and Arrow conversions, the execution of
  queries and mutations over DataFusion and Lance, the loader, the manifest publisher, the recovery
  sweep around the modelled decision (authority checks, restores, audit rows) and the failpoints of
  its tests, object storage, the server, the cluster tools, the policy engine and the command line:
  they are I/O or calls into libraries. Of a merge, the proof that a source interval only inserts, the
  publication of the merged tables and the values of materialized blobs are left out.
\<close>

end
